(* ===== verification/Orm_Prelude.thy ===== *)
theory Orm_Prelude
  imports Main "HOL-Library.Word" "HOL-Library.Char_ord" "HOL-Library.List_Lexorder" "HOL-Library.AList" "HOL-Library.Multiset"
begin

unbundle bit_operations_syntax

section \<open>Shared vocabulary of the development\<close>

text \<open>
  The names every component theory uses: the exceptions the C++ code throws, the result type of
  an operation that may throw, fixed-width integers, and the association lists that stand for
  \<open>std::unordered_map\<close> (the list order is the unspecified iteration order).
  The generic lemmas on them are collected here, in \<open>[simp]\<close> where they are oriented
  and in the collections \<open>result_simps\<close> and \<open>amap_simps\<close> otherwise.
\<close>

named_theorems result_simps \<open>elimination of the result type of an operation that may throw\<close>
named_theorems amap_simps \<open>lookup, update and deletion on association lists\<close>

subsection \<open>Exceptions and results\<close>

text \<open>
  One constructor per exception class the sources throw; the argument is the text given to
  \<open>what()\<close>. \<open>Backend_failure\<close> is an exception a component only lets through: one
  raised by user code, a driver or a callback.
\<close>

datatype exn =
    Runtime_error string
  | Logic_error string
  | Invalid_argument string
  | Out_of_range string
  | Codec_error string
  | Backend_failure string

type_synonym 'a result = "exn + 'a"

type_synonym u8 = "8 word"
type_synonym u64 = "64 word"

definition rbind :: "'a result \<Rightarrow> ('a \<Rightarrow> 'b result) \<Rightarrow> 'b result" where
  "rbind m f = (case m of Inl e \<Rightarrow> Inl e | Inr x \<Rightarrow> f x)"

lemma rbind_simps [simp]:
  "rbind (Inl e) f = Inl e"
  "rbind (Inr x) f = f x"
  by (simp_all add: rbind_def)

lemma rbind_Inr_conv [result_simps]:
  "rbind m f = Inr y \<longleftrightarrow> (\<exists>x. m = Inr x \<and> f x = Inr y)"
  by (cases m) simp_all

lemma rbind_Inl_conv [result_simps]:
  "rbind m f = Inl e \<longleftrightarrow> m = Inl e \<or> (\<exists>x. m = Inr x \<and> f x = Inl e)"
  by (cases m) simp_all

fun rmap_list :: "('a \<Rightarrow> 'b result) \<Rightarrow> 'a list \<Rightarrow> 'b list result" where
  "rmap_list f [] = Inr []"
| "rmap_list f (x # xs) = rbind (f x) (\<lambda>y. rbind (rmap_list f xs) (\<lambda>ys. Inr (y # ys)))"

lemma rmap_list_Inr_length: "rmap_list f xs = Inr ys \<Longrightarrow> length ys = length xs"
  by (induction xs arbitrary: ys) (auto simp: result_simps)

subsection \<open>Actions\<close>

text \<open>
  A member function that changes state and may throw: the outcome and the state it leaves, also when
  it throws. \<open>act_bind\<close> is sequencing, an exception skips the rest; \<open>act_iter\<close> is a loop over a list.
\<close>

type_synonym ('s, 'a) action = "'s \<Rightarrow> 'a result \<times> 's"

definition act_return :: "'a \<Rightarrow> ('s, 'a) action" where
  "act_return x s = (Inr x, s)"

definition act_throw :: "exn \<Rightarrow> ('s, 'a) action" where
  "act_throw e s = (Inl e, s)"

definition act_bind :: "('s, 'a) action \<Rightarrow> ('a \<Rightarrow> ('s, 'b) action) \<Rightarrow> ('s, 'b) action" where
  "act_bind m f s = (case m s of (Inl e, s') \<Rightarrow> (Inl e, s') | (Inr x, s') \<Rightarrow> f x s')"

definition act_lift :: "'a result \<Rightarrow> ('s, 'a) action" where
  "act_lift r s = (r, s)"

fun act_iter :: "('a \<Rightarrow> ('s, unit) action) \<Rightarrow> 'a list \<Rightarrow> ('s, unit) action" where
  "act_iter f [] = act_return ()"
| "act_iter f (x # xs) = act_bind (f x) (\<lambda>_. act_iter f xs)"

lemma act_simps [simp]:
  "act_return x s = (Inr x, s)"
  "act_throw e s = (Inl e, s)"
  "act_lift r s = (r, s)"
  by (simp_all add: act_return_def act_throw_def act_lift_def)

lemma act_bind_Inr [result_simps]:
  "act_bind m f s = (Inr y, s'') \<longleftrightarrow> (\<exists>x s'. m s = (Inr x, s') \<and> f x s' = (Inr y, s''))"
  by (auto simp: act_bind_def split: prod.splits sum.splits)

lemma act_bind_return [simp]: "act_bind (act_return x) f = f x"
  by (rule ext) (simp add: act_bind_def act_return_def)

lemma act_bind_Inl [result_simps]:
  "act_bind m f s = (Inl e, s'') \<longleftrightarrow> m s = (Inl e, s'') \<or> (\<exists>x s'. m s = (Inr x, s') \<and> f x s' = (Inl e, s''))"
  by (auto simp: act_bind_def split: prod.splits sum.splits)

lemma act_bind_run:
  "m s = (Inl e, s') \<Longrightarrow> act_bind m f s = (Inl e, s')"
  "m s = (Inr x, s') \<Longrightarrow> act_bind m f s = f x s'"
  by (simp_all add: act_bind_def)

subsection \<open>Association lists\<close>

type_synonym ('k, 'v) amap = "('k \<times> 'v) list"

definition amap_ok :: "('k, 'v) amap \<Rightarrow> bool" where
  "amap_ok m \<longleftrightarrow> distinct (map fst m)"

definition alookup :: "('k, 'v) amap \<Rightarrow> 'k \<Rightarrow> 'v option" where
  "alookup m k = map_of m k"

definition aput :: "'k \<Rightarrow> 'v \<Rightarrow> ('k, 'v) amap \<Rightarrow> ('k, 'v) amap" where
  "aput k v m = AList.update k v m"

definition adel :: "'k \<Rightarrow> ('k, 'v) amap \<Rightarrow> ('k, 'v) amap" where
  "adel k m = filter (\<lambda>p. fst p \<noteq> k) m"

lemma amap_ok_Nil [simp]: "amap_ok []"
  by (simp add: amap_ok_def)

lemma alookup_Nil [simp]: "alookup [] k = None"
  by (simp add: alookup_def)

lemma alookup_aput [simp, amap_simps]: "alookup (aput k v m) k' = (if k' = k then Some v else alookup m k')"
  by (simp add: alookup_def aput_def update_conv)

lemma alookup_adel [simp, amap_simps]: "alookup (adel k m) k' = (if k' = k then None else alookup m k')"
  by (induction m) (auto simp: alookup_def adel_def)

lemma amap_ok_aput [simp, intro]: "amap_ok m \<Longrightarrow> amap_ok (aput k v m)"
  by (simp add: amap_ok_def aput_def distinct_update)

lemma amap_ok_adel [simp, intro]: "amap_ok m \<Longrightarrow> amap_ok (adel k m)"
  by (induction m) (auto simp: amap_ok_def adel_def)

lemma amap_ok_filter [simp, intro]: "amap_ok m \<Longrightarrow> amap_ok (filter P m)"
  by (induction m) (auto simp: amap_ok_def)

lemma alookup_in_set: "alookup m k = Some v \<Longrightarrow> (k, v) \<in> set m"
  by (simp add: alookup_def map_of_SomeD)

lemma alookup_iff_in_set: "amap_ok m \<Longrightarrow> alookup m k = Some v \<longleftrightarrow> (k, v) \<in> set m"
  by (simp add: alookup_def amap_ok_def)

lemma alookup_None_iff: "alookup m k = None \<longleftrightarrow> k \<notin> fst ` set m"
  by (simp add: alookup_def map_of_eq_None_iff)

lemma adel_absent: "alookup m k = None \<Longrightarrow> adel k m = m"
  by (auto simp: adel_def alookup_None_iff filter_id_conv rev_image_eqI)

lemma adel_image: "fst ` set (adel k m) = fst ` set m - {k}"
  by (auto simp: adel_def)

subsection \<open>Searches by predicate\<close>

text \<open>\<open>std::find_if\<close>: the position of the first element that satisfies the predicate.\<close>

fun find_index_from :: "nat \<Rightarrow> ('a \<Rightarrow> bool) \<Rightarrow> 'a list \<Rightarrow> nat option" where
  "find_index_from i P [] = None"
| "find_index_from i P (x # xs) = (if P x then Some i else find_index_from (Suc i) P xs)"

definition find_if :: "('a \<Rightarrow> bool) \<Rightarrow> 'a list \<Rightarrow> nat option" where
  "find_if P xs = find_index_from 0 P xs"

lemma find_index_from_Some:
  "find_index_from i P xs = Some j \<Longrightarrow>
     i \<le> j \<and> j < i + length xs \<and> P (xs ! (j - i)) \<and> (\<forall>k < j - i. \<not> P (xs ! k))"
proof (induction xs arbitrary: i)
  case Nil
  then show ?case by simp
next
  case (Cons x xs)
  show ?case
  proof (cases "P x")
    case True
    with Cons.prems show ?thesis by simp
  next
    case False
    with Cons.prems have "find_index_from (Suc i) P xs = Some j" by simp
    from Cons.IH [OF this] have le: "Suc i \<le> j" and lt: "j < Suc i + length xs"
      and at: "P (xs ! (j - Suc i))" and before: "\<forall>k < j - Suc i. \<not> P (xs ! k)"
      by auto
    from le have j: "j - i = Suc (j - Suc i)" by simp
    have "\<not> P ((x # xs) ! k)" if "k < j - i" for k
      using that before False j by (cases k) auto
    with le lt at j show ?thesis by simp
  qed
qed

lemma find_if_Some:
  assumes "find_if P xs = Some j"
  shows "j < length xs" "P (xs ! j)" "\<forall>k < j. \<not> P (xs ! k)"
  using find_index_from_Some [of 0 P xs j] assms by (auto simp: find_if_def)

lemma find_index_from_None: "find_index_from i P xs = None \<longleftrightarrow> (\<forall>x \<in> set xs. \<not> P x)"
  by (induction xs arbitrary: i) auto

lemma find_if_None [simp]: "find_if P xs = None \<longleftrightarrow> (\<forall>x \<in> set xs. \<not> P x)"
  by (simp add: find_if_def find_index_from_None)

subsection \<open>Prefixes of strings\<close>

definition starts_with :: "string \<Rightarrow> string \<Rightarrow> bool" where
  "starts_with s p \<longleftrightarrow> take (length p) s = p"

lemma starts_with_append [simp]: "starts_with (p @ s) p"
  by (simp add: starts_with_def)

lemma starts_with_iff: "starts_with s p \<longleftrightarrow> (\<exists>t. s = p @ t)"
  by (metis append_eq_conv_conj starts_with_append starts_with_def)

subsection \<open>Decimal numbers\<close>

text \<open>\<open>std::to_string\<close> on unsigned and signed integers.\<close>

definition digit_char :: "nat \<Rightarrow> char" where
  "digit_char d = char_of (48 + d)"

fun show_nat :: "nat \<Rightarrow> string" where
  "show_nat n = (if n < 10 then [digit_char n] else show_nat (n div 10) @ [digit_char (n mod 10)])"

declare show_nat.simps [simp del]

definition show_int :: "int \<Rightarrow> string" where
  "show_int i = (if i < 0 then CHR ''-'' # show_nat (nat (- i)) else show_nat (nat i))"

fun read_nat :: "nat \<Rightarrow> string \<Rightarrow> nat" where
  "read_nat acc [] = acc"
| "read_nat acc (c # cs) = read_nat (10 * acc + (of_char c - 48)) cs"

lemma of_char_digit [simp]: "d < 10 \<Longrightarrow> (of_char (digit_char d) :: nat) = 48 + d"
  by (simp add: digit_char_def)

lemma digit_char_inject: "a < 10 \<Longrightarrow> b < 10 \<Longrightarrow> digit_char a = digit_char b \<longleftrightarrow> a = b"
  by (metis add_left_cancel of_char_digit)

lemma read_nat_append: "read_nat a (xs @ ys) = read_nat (read_nat a xs) ys"
  by (induction xs arbitrary: a) auto

lemma read_show_nat: "read_nat 0 (show_nat n) = n"
proof (induction n rule: show_nat.induct)
  case (1 n)
  show ?case
  proof (cases "n < 10")
    case True
    then show ?thesis by (simp add: show_nat.simps)
  next
    case False
    with 1 have "read_nat 0 (show_nat (n div 10)) = n div 10" by simp
    with False show ?thesis
      by (subst show_nat.simps) (simp add: read_nat_append)
  qed
qed

lemma show_nat_inject [simp]: "show_nat m = show_nat n \<longleftrightarrow> m = n"
  by (metis read_show_nat)

lemma show_nat_not_Nil [simp]: "show_nat n \<noteq> []"
  by (subst show_nat.simps) simp

lemma show_nat_digits: "c \<in> set (show_nat n) \<Longrightarrow> \<exists>d < 10. c = digit_char d"
proof (induction n rule: show_nat.induct)
  case (1 n)
  show ?case
  proof (cases "n < 10")
    case True
    with 1 show ?thesis by (auto simp: show_nat.simps)
  next
    case False
    then have "show_nat n = show_nat (n div 10) @ [digit_char (n mod 10)]"
      by (simp add: show_nat.simps [of n])
    with 1 False show ?thesis by (auto intro: exI [of _ "n mod 10"])
  qed
qed

lemma digit_char_range: "d < 10 \<Longrightarrow> (of_char (digit_char d) :: nat) \<in> {48..57}"
  by simp

lemma show_nat_hd_digit: "hd (show_nat n) \<noteq> CHR ''-''"
proof
  assume "hd (show_nat n) = CHR ''-''"
  then have "CHR ''-'' \<in> set (show_nat n)"
    by (metis hd_in_set show_nat_not_Nil)
  then obtain d where "d < 10" "CHR ''-'' = digit_char d" by (blast dest: show_nat_digits)
  then have "(of_char (CHR ''-'') :: nat) = 48 + d" by simp
  then show False by simp
qed

lemma show_int_inject [simp]: "show_int i = show_int j \<longleftrightarrow> i = j"
  by (auto simp: show_int_def split: if_splits) (metis list.sel(1) show_nat_hd_digit)+

definition is_digit :: "char \<Rightarrow> bool" where
  "is_digit c \<longleftrightarrow> 48 \<le> (of_char c :: nat) \<and> (of_char c :: nat) \<le> 57"

lemma is_digit_digit_char: "d < 10 \<Longrightarrow> is_digit (digit_char d)"
  by (simp add: is_digit_def)

lemma show_nat_all_digits: "list_all is_digit (show_nat n)"
  unfolding list_all_iff by (auto dest!: show_nat_digits simp: is_digit_digit_char)

lemma unat_u8_mod [simp]: "unat (b :: u8) mod 256 = unat b"
  using unsigned_less [of b, where ?'a = nat] by simp

lemma char_of_u8_back: "word_of_nat (of_char (char_of (unat b) :: char)) = (b :: u8)"
  by simp

end
