(* ===== verification/Values.thy ===== *)
theory Values
  imports Orm_Prelude
begin

section \<open>Database values (include/metal/value.hpp, include/metal/execution.hpp)\<close>

text \<open>
  \<open>metal::Value\<close> is a variant of six alternatives. A 64-bit integer and a double are kept as
  their 64 bits; the integer is read with \<open>sint\<close>. The conversions \<open>to_value<T>\<close> and
  \<open>from_value<T>\<close> are templates over the C++ member type \<open>T\<close>: the type becomes an argument
  (\<open>cpp_type\<close>) and the typed C++ object a value of \<open>cpp_value\<close>. What the hardware and the C++
  library do with floating point numbers is the record \<open>fp\<close>, an argument of the definitions.
\<close>

datatype dbvalue =
    VNull
  | VInt u64
  | VDouble u64
  | VString string
  | VBool bool
  | VBlob "u8 list"

type_synonym row = "(string, dbvalue) amap"

record query_result =
  qr_rows :: "row list"
  qr_affected :: u64
  qr_last_id :: u64

text \<open>
  Floating point: how \<open>operator<<\<close> prints a double, the conversions between doubles and integers,
  and rounding to \<open>float\<close>.
\<close>

record fp =
  fp_print :: "u64 \<Rightarrow> string"
  fp_of_int :: "int \<Rightarrow> u64"
  fp_to_int :: "u64 \<Rightarrow> int"
  fp_narrow :: "u64 \<Rightarrow> u64"

subsection \<open>Typed members\<close>

text \<open>\<open>TInt sg w\<close> is an integral type of \<open>w\<close> bits, \<open>TFloat dbl\<close> is \<open>double\<close> or \<open>float\<close>.\<close>

datatype cpp_type = TString | TBlob | TBool | TInt bool nat | TFloat bool | TOpt cpp_type

datatype cpp_value =
    CString string
  | CBlob "u8 list"
  | CBool bool
  | CInt int
  | CFloat u64
  | CNone
  | CSome cpp_value

fun to_value :: "cpp_value \<Rightarrow> dbvalue" where
  "to_value CNone = VNull"
| "to_value (CSome x) = to_value x"
| "to_value (CString s) = VString s"
| "to_value (CBlob b) = VBlob b"
| "to_value (CBool b) = VBool b"
| "to_value (CInt i) = VInt (word_of_int i)"
| "to_value (CFloat d) = VDouble d"

text \<open>\<open>static_cast\<close> to an integral type: the value modulo \<open>2 ^ w\<close>, read as the type reads it.\<close>

definition cast_int :: "bool \<Rightarrow> nat \<Rightarrow> int \<Rightarrow> int" where
  "cast_int sg w i =
     (if sg then (i + 2 ^ (w - 1)) mod 2 ^ w - 2 ^ (w - 1) else i mod 2 ^ w)"

definition conversion_error :: exn where
  "conversion_error = Runtime_error ''MetalORM: incompatible database value conversion''"

fun from_value :: "fp \<Rightarrow> cpp_type \<Rightarrow> dbvalue \<Rightarrow> cpp_value result" where
  "from_value F (TOpt t) v =
     (if v = VNull then Inr CNone else rbind (from_value F t v) (\<lambda>x. Inr (CSome x)))"
| "from_value F TString v = (case v of VString s \<Rightarrow> Inr (CString s) | _ \<Rightarrow> Inl conversion_error)"
| "from_value F TBlob v = (case v of VBlob b \<Rightarrow> Inr (CBlob b) | _ \<Rightarrow> Inl conversion_error)"
| "from_value F TBool v =
     (case v of VBool b \<Rightarrow> Inr (CBool b) | VInt i \<Rightarrow> Inr (CBool (i \<noteq> 0)) | _ \<Rightarrow> Inl conversion_error)"
| "from_value F (TInt sg w) v =
     (case v of
        VInt i \<Rightarrow> Inr (CInt (cast_int sg w (sint i)))
      | VBool b \<Rightarrow> Inr (CInt (cast_int sg w (if b then 1 else 0)))
      | VDouble d \<Rightarrow> Inr (CInt (cast_int sg w (fp_to_int F d)))
      | _ \<Rightarrow> Inl conversion_error)"
| "from_value F (TFloat dbl) v =
     (case v of
        VDouble d \<Rightarrow> Inr (CFloat (if dbl then d else fp_narrow F d))
      | VInt i \<Rightarrow> Inr (CFloat (if dbl then fp_of_int F (sint i) else fp_narrow F (fp_of_int F (sint i))))
      | _ \<Rightarrow> Inl conversion_error)"

text \<open>
  The scalar members the mapping accepts (\<open>PersistableValue\<close>: one level of \<open>std::optional\<close> over a
  scalar) and the C++ objects of a type.
\<close>

fun persistable :: "cpp_type \<Rightarrow> bool" where
  "persistable (TOpt (TOpt t)) = False"
| "persistable (TOpt t) = persistable t"
| "persistable (TInt sg w) = (0 < w \<and> w \<le> 64)"
| "persistable _ = True"

definition is_optional :: "cpp_type \<Rightarrow> bool" where
  "is_optional t = (case t of TOpt _ \<Rightarrow> True | _ \<Rightarrow> False)"

fun has_type :: "fp \<Rightarrow> cpp_type \<Rightarrow> cpp_value \<Rightarrow> bool" where
  "has_type F (TOpt t) (CSome x) = has_type F t x"
| "has_type F (TOpt t) CNone = True"
| "has_type F TString (CString s) = True"
| "has_type F TBlob (CBlob b) = True"
| "has_type F TBool (CBool b) = True"
| "has_type F (TInt True w) (CInt i) = (- (2 ^ (w - 1)) \<le> i \<and> i < 2 ^ (w - 1))"
| "has_type F (TInt False w) (CInt i) = (0 \<le> i \<and> i < 2 ^ w)"
| "has_type F (TFloat dbl) (CFloat d) = (dbl \<or> fp_narrow F d = d)"
| "has_type F _ _ = False"

subsection \<open>Keys of values\<close>

definition hex_digit :: "nat \<Rightarrow> char" where
  "hex_digit n = ''0123456789abcdef'' ! n"

fun hex_bytes :: "u8 list \<Rightarrow> string" where
  "hex_bytes [] = []"
| "hex_bytes (b # bs) = hex_digit (unat b div 16) # hex_digit (unat b mod 16) # hex_bytes bs"

fun value_key :: "fp \<Rightarrow> dbvalue \<Rightarrow> string" where
  "value_key F VNull = ''null''"
| "value_key F (VString s) = ''s:'' @ s"
| "value_key F (VBool b) = (if b then ''b:1'' else ''b:0'')"
| "value_key F (VBlob b) = ''x:'' @ hex_bytes b"
| "value_key F (VInt i) = show_int (sint i)"
| "value_key F (VDouble d) = fp_print F d"

fun is_empty_generated_value :: "dbvalue \<Rightarrow> bool" where
  "is_empty_generated_value VNull = True"
| "is_empty_generated_value (VInt i) = (i = 0)"
| "is_empty_generated_value _ = False"

text \<open>
  \<open>operator==\<close> of the variant: the same alternative and equal contents, where two doubles compare
  as IEEE 754 does (a NaN differs from itself, the two zeros are equal).
\<close>

definition dbl_nan :: "u64 \<Rightarrow> bool" where
  "dbl_nan d \<longleftrightarrow> d AND 0x7FF0000000000000 = 0x7FF0000000000000 \<and> d AND 0x000FFFFFFFFFFFFF \<noteq> 0"

definition dbl_eq :: "u64 \<Rightarrow> u64 \<Rightarrow> bool" where
  "dbl_eq a b \<longleftrightarrow> \<not> dbl_nan a \<and> \<not> dbl_nan b \<and>
     (a = b \<or> a AND 0x7FFFFFFFFFFFFFFF = 0 \<and> b AND 0x7FFFFFFFFFFFFFFF = 0)"

fun value_eq :: "dbvalue \<Rightarrow> dbvalue \<Rightarrow> bool" where
  "value_eq (VDouble a) (VDouble b) = dbl_eq a b"
| "value_eq a b = (a = b)"

subsection \<open>Facts about values\<close>

lemma cast_int_id:
  assumes "0 < w" "has_type F (TInt sg w) (CInt i)"
  shows "cast_int sg w i = i"
proof (cases sg)
  case True
  with assms have "0 \<le> i + 2 ^ (w - 1)" and "i + 2 ^ (w - 1) < 2 * 2 ^ (w - 1)" by auto
  moreover from \<open>0 < w\<close> have "2 * 2 ^ (w - 1) = (2 :: int) ^ w"
    by (cases w) simp_all
  ultimately show ?thesis using True by (simp add: cast_int_def)
next
  case False
  with assms show ?thesis by (simp add: cast_int_def)
qed

lemma cast_int_mod_64:
  assumes "0 < w" "w \<le> 64"
  shows "cast_int sg w (sint (word_of_int i :: u64)) = cast_int sg w i"
proof -
  have d: "(2 :: int) ^ w dvd 2 ^ 64" by (rule le_imp_power_dvd) (rule assms)
  let ?s = "sint (word_of_int i :: u64)"
  have "?s mod 2 ^ 64 = i mod 2 ^ 64"
    by (simp add: int_word_sint mod_diff_left_eq)
  moreover have "?s mod 2 ^ 64 mod 2 ^ w = ?s mod 2 ^ w" "i mod 2 ^ 64 mod 2 ^ w = i mod 2 ^ w"
    by (rule mod_mod_cancel [OF d])+
  ultimately have *: "?s mod 2 ^ w = i mod 2 ^ w" by simp
  then have "(sint (word_of_int i :: u64) + c) mod 2 ^ w = (i + c) mod 2 ^ w" for c
    by (rule mod_add_cong) simp_all
  with * show ?thesis by (simp add: cast_int_def)
qed

lemma from_value_scalar_round_trip:
  assumes "persistable t" "has_type F t x" "\<forall>t'. t \<noteq> TOpt t'"
  shows "from_value F t (to_value x) = Inr x \<and> to_value x \<noteq> VNull"
proof (cases t)
  case (TInt sg w)
  with assms obtain i where x: "x = CInt i" by (cases x; cases sg) auto
  from TInt assms(1) have w: "0 < w" "w \<le> 64" by auto
  have "cast_int sg w (sint (word_of_int i :: u64)) = i"
    using cast_int_mod_64 [OF w] cast_int_id [OF w(1)] assms(2) TInt x by metis
  with TInt x show ?thesis by simp
qed (use assms in \<open>cases x; auto\<close>)+

lemma from_value_to_value_lemma:
  assumes "persistable t" "has_type F t x"
  shows "from_value F t (to_value x) = Inr x"
proof (cases t)
  case (TOpt t')
  show ?thesis
  proof (cases x)
    case (CSome y)
    with TOpt assms have "persistable t'" "has_type F t' y" "\<forall>t''. t' \<noteq> TOpt t''"
      by (cases t'; simp)+
    from from_value_scalar_round_trip [OF this] TOpt CSome show ?thesis by simp
  qed (use TOpt assms in auto)
qed (use from_value_scalar_round_trip [OF assms] in auto)

lemma hex_digit_inject: "a < 16 \<Longrightarrow> b < 16 \<Longrightarrow> hex_digit a = hex_digit b \<longleftrightarrow> a = b"
proof -
  assume "a < 16" "b < 16"
  moreover have "distinct ''0123456789abcdef''" by simp
  moreover have "length ''0123456789abcdef'' = 16" by simp
  ultimately show ?thesis unfolding hex_digit_def by (subst nth_eq_iff_index_eq) auto
qed

lemma hex_bytes_inject: "hex_bytes a = hex_bytes b \<longleftrightarrow> a = b"
proof (induction a arbitrary: b)
  case Nil
  then show ?case by (cases b) auto
next
  case (Cons x a)
  show ?case
  proof (cases b)
    case (Cons y b')
    have lt: "unat z div 16 < 16" "unat z mod 16 < 16" for z :: u8
      using unsigned_less [of z, where ?'a = nat] by auto
    have "unat x = unat y" if "unat x div 16 = unat y div 16" "unat x mod 16 = unat y mod 16"
      using that by (metis div_mult_mod_eq)
    then show ?thesis
      using Cons.IH [of b'] Cons by (auto simp: hex_digit_inject [OF lt(1) lt(1)] hex_digit_inject [OF lt(2) lt(2)] intro: unsigned_word_eqI)
  qed simp
qed

lemma show_int_first: "\<exists>c s. show_int i = c # s \<and> (c = CHR ''-'' \<or> (\<exists>d<10. c = digit_char d))"
proof (cases "show_nat (nat i)")
  case Nil
  then show ?thesis by simp
next
  case (Cons c s)
  then have "c \<in> set (show_nat (nat i))" by simp
  then have "\<exists>d<10. c = digit_char d" by (rule show_nat_digits)
  with Cons show ?thesis by (auto simp: show_int_def)
qed

lemma digit_char_neq:
  assumes "d < 10" "(of_char c :: nat) \<notin> {48..57}"
  shows "digit_char d \<noteq> c"
  using assms digit_char_range by blast

lemma show_int_neq_tagged:
  assumes "c \<in> {CHR ''n'', CHR ''s'', CHR ''b'', CHR ''x''}"
  shows "show_int i \<noteq> c # t"
proof
  assume eq: "show_int i = c # t"
  with show_int_first [of i] have "c = CHR ''-'' \<or> (\<exists>d<10. c = digit_char d)" by auto
  moreover from assms have "c \<noteq> CHR ''-''" by auto
  ultimately obtain d where "d < 10" "c = digit_char d" by blast
  moreover from assms have "(of_char c :: nat) \<notin> {48..57}" by auto
  ultimately show False using digit_char_neq by blast
qed

fun not_double :: "dbvalue \<Rightarrow> bool" where
  "not_double (VDouble d) = False"
| "not_double _ = True"

lemma sint_of_int: "- (2 ^ 63) \<le> i \<Longrightarrow> i < 2 ^ 63 \<Longrightarrow> sint (word_of_int i :: u64) = i"
  by (simp add: int_word_sint)

lemma sint_inject [simp]: "sint a = sint b \<longleftrightarrow> a = b"
  by (auto intro: signed_word_eqI)

lemma value_key_inject_lemma:
  assumes "not_double v" "not_double w"
  shows "value_key F v = value_key F w \<longleftrightarrow> v = w"
  using assms
  by (cases v; cases w)
    (auto simp: hex_bytes_inject show_int_neq_tagged show_int_neq_tagged [THEN not_sym] split: if_splits)

subsection \<open>Properties\<close>

definition sample_fp :: fp where
  "sample_fp = \<lparr>fp_print = (\<lambda>d. ''1.5''), fp_of_int = word_of_int, fp_to_int = sint, fp_narrow = (\<lambda>d. d)\<rparr>"

definition sample_result :: query_result where
  "sample_result = \<lparr>qr_rows = [[(''name'', VString ''bo''), (''id'', VInt 7), (''raw'', VBlob [0, 255])], []],
     qr_affected = 3, qr_last_id = 99\<rparr>"



text \<open>
  The text key of a value (\<open>value_key\<close>, which indexes the identity map, the relation loaders
  and the tree recovery) tells any two values apart that are not doubles: strings, blobs, booleans,
  integers and NULL never share a key.
\<close>

theorem value_key_separates:
  assumes "not_double v" "not_double w"
  shows "value_key F v = value_key F w \<longleftrightarrow> v = w"
  using assms by (rule value_key_inject_lemma)

theorem value_key_separates_witness:
  "value_key sample_fp (VString ''5'') \<noteq> value_key sample_fp (VInt 5)"
  using value_key_separates [of "VString ''5''" "VInt 5" sample_fp] by simp

end
