(* ===== verification/Cache_Codec.thy ===== *)
theory Cache_Codec
  imports Values
begin

section \<open>The cache payload codec (include/metal/cache_codec.hpp)\<close>

text \<open>
  \<open>Writer\<close> appends to a string; each of its methods is the string it appends.
  \<open>Reader\<close> keeps the input and a position; its state here is the input from the position on,
  so that \<open>remaining()\<close> is the length of the state. A read returns the value and the rest of
  the input, or the \<open>CacheCodecError\<close> it throws.
\<close>

definition magic :: string where
  "magic = ''MORMC001''"

definition max_collection_size :: nat where
  "max_collection_size = 1000000"

subsection \<open>Writer\<close>

definition w_byte :: "u8 \<Rightarrow> string" where
  "w_byte b = [char_of (unat b)]"

definition shifts :: "nat list" where
  "shifts = [0, 8, 16, 24, 32, 40, 48, 56]"

definition w_u64 :: "u64 \<Rightarrow> string" where
  "w_u64 v = concat (map (\<lambda>sh. w_byte (ucast (drop_bit sh v AND 0xff))) shifts)"

definition w_size :: "nat \<Rightarrow> string" where
  "w_size n = w_u64 (word_of_nat n)"

definition w_bytes :: "string \<Rightarrow> string" where
  "w_bytes s = w_size (length s) @ s"

definition w_blob :: "u8 list \<Rightarrow> string" where
  "w_blob b = w_size (length b) @ concat (map w_byte b)"

fun w_value :: "dbvalue \<Rightarrow> string" where
  "w_value VNull = w_byte 0"
| "w_value (VInt i) = w_byte 1 @ w_u64 i"
| "w_value (VDouble d) = w_byte 2 @ w_u64 d"
| "w_value (VString s) = w_byte 3 @ w_bytes s"
| "w_value (VBool b) = w_byte 4 @ w_byte (if b then 1 else 0)"
| "w_value (VBlob b) = w_byte 5 @ w_blob b"

subsection \<open>Reader\<close>

type_synonym 'a reader = "string \<Rightarrow> ('a \<times> string) result"

definition r_bind :: "'a reader \<Rightarrow> ('a \<Rightarrow> 'b reader) \<Rightarrow> 'b reader" where
  "r_bind m f = (\<lambda>s. rbind (m s) (\<lambda>(x, s'). f x s'))"

definition r_return :: "'a \<Rightarrow> 'a reader" where
  "r_return x = (\<lambda>s. Inr (x, s))"

definition r_fail :: "string \<Rightarrow> 'a reader" where
  "r_fail msg = (\<lambda>s. Inl (Codec_error msg))"

definition r_require :: "nat \<Rightarrow> unit reader" where
  "r_require n = (\<lambda>s. if n > length s then Inl (Codec_error ''MetalORM: truncated cache payload'') else Inr ((), s))"

definition r_byte :: "u8 reader" where
  "r_byte = r_bind (r_require 1) (\<lambda>_ s. Inr (word_of_nat (of_char (hd s)), tl s))"

fun r_u64_loop :: "nat list \<Rightarrow> u64 \<Rightarrow> u64 reader" where
  "r_u64_loop [] acc = r_return acc"
| "r_u64_loop (sh # shs) acc = r_bind r_byte (\<lambda>b. r_u64_loop shs (acc OR push_bit sh (ucast b)))"

definition r_u64 :: "u64 reader" where
  "r_u64 = r_bind (r_require 8) (\<lambda>_. r_u64_loop shifts 0)"

text \<open>\<open>std::size_t\<close> has 64 bits, so the check of \<open>narrow_size\<close> never fails.\<close>

definition r_count :: "string \<Rightarrow> nat reader" where
  "r_count what = r_bind r_u64 (\<lambda>raw.
     if unat raw > max_collection_size
     then r_fail (''MetalORM: cached '' @ what @ '' count exceeds safety limit'')
     else r_return (unat raw))"

definition r_sized_length :: "nat reader" where
  "r_sized_length = r_bind r_u64 (\<lambda>raw. r_bind (r_require (unat raw)) (\<lambda>_. r_return (unat raw)))"

definition r_bytes :: "string reader" where
  "r_bytes = r_bind r_sized_length (\<lambda>n s. Inr (take n s, drop n s))"

definition r_blob :: "u8 list reader" where
  "r_blob = r_bind r_sized_length (\<lambda>n s. Inr (map (\<lambda>c. word_of_nat (of_char c)) (take n s), drop n s))"

definition r_value :: "dbvalue reader" where
  "r_value = r_bind r_byte (\<lambda>tag.
     if tag = 0 then r_return VNull
     else if tag = 1 then r_bind r_u64 (\<lambda>v. r_return (VInt v))
     else if tag = 2 then r_bind r_u64 (\<lambda>v. r_return (VDouble v))
     else if tag = 3 then r_bind r_bytes (\<lambda>v. r_return (VString v))
     else if tag = 4 then r_bind r_byte (\<lambda>raw.
       if raw > 1 then r_fail ''MetalORM: cached boolean has invalid payload''
       else r_return (VBool (raw = 1)))
     else if tag = 5 then r_bind r_blob (\<lambda>v. r_return (VBlob v))
     else r_fail ''MetalORM: cached value has unknown type tag'')"

subsection \<open>Whole results\<close>

definition encode_row :: "row \<Rightarrow> string" where
  "encode_row r =
     (let fields = sort_key fst r
      in w_size (length fields) @ concat (map (\<lambda>f. w_bytes (fst f) @ w_value (snd f)) fields))"

definition encode_query_result :: "query_result \<Rightarrow> string" where
  "encode_query_result q =
     magic @ w_size (length (qr_rows q)) @ concat (map encode_row (qr_rows q))
     @ w_u64 (qr_affected q) @ w_u64 (qr_last_id q)"

fun r_magic :: "string \<Rightarrow> unit reader" where
  "r_magic [] = r_return ()"
| "r_magic (c # cs) = r_bind r_byte (\<lambda>b.
     if b \<noteq> word_of_nat (of_char c)
     then r_fail ''MetalORM: cache payload has unsupported format or version''
     else r_magic cs)"

text \<open>
  \<open>row.emplace(name, reader.value())\<close>: the value is read before the insertion is tried, and a name
  that is present already is an error.
\<close>

fun r_fields :: "nat \<Rightarrow> row \<Rightarrow> row reader" where
  "r_fields 0 acc = r_return acc"
| "r_fields (Suc n) acc = r_bind r_bytes (\<lambda>name. r_bind r_value (\<lambda>v.
     if alookup acc name \<noteq> None
     then r_fail ''MetalORM: cache payload contains a duplicate column name''
     else r_fields n (acc @ [(name, v)])))"

fun r_rows :: "nat \<Rightarrow> row list \<Rightarrow> row list reader" where
  "r_rows 0 acc = r_return acc"
| "r_rows (Suc n) acc = r_bind (r_count ''field'') (\<lambda>k. r_bind (r_fields k []) (\<lambda>r. r_rows n (acc @ [r])))"

definition r_query_result :: "query_result reader" where
  "r_query_result = r_bind (r_magic magic) (\<lambda>_. r_bind (r_count ''row'') (\<lambda>n. r_bind (r_rows n []) (\<lambda>rs.
     r_bind r_u64 (\<lambda>a. r_bind r_u64 (\<lambda>l. r_return \<lparr>qr_rows = rs, qr_affected = a, qr_last_id = l\<rparr>)))))"

definition decode_query_result :: "string \<Rightarrow> query_result result" where
  "decode_query_result payload = rbind (r_query_result payload) (\<lambda>(q, rest).
     if rest \<noteq> [] then Inl (Codec_error ''MetalORM: cache payload contains trailing bytes'') else Inr q)"

subsection \<open>Reading back what was written\<close>

text \<open>
  Every reader is the inverse of its writer in front of any rest: the shape
  \<open>r (w x @ rest) = Inr (x, rest)\<close>. The facts are collected in \<open>codec_simps\<close>.
\<close>

named_theorems codec_simps

lemma r_bind_Inr [codec_simps]: "m s = Inr (x, s') \<Longrightarrow> r_bind m f s = f x s'"
  by (simp add: r_bind_def)

lemma r_bind_Inl: "m s = Inl e \<Longrightarrow> r_bind m f s = Inl e"
  by (simp add: r_bind_def)

lemma r_return_app [codec_simps]: "r_return x s = Inr (x, s)"
  by (simp add: r_return_def)

lemma r_require_app [codec_simps]: "n \<le> length s \<Longrightarrow> r_require n s = Inr ((), s)"
  by (simp add: r_require_def)

lemma r_byte_app [codec_simps]: "r_byte (w_byte b @ s) = Inr (b, s)"
  by (simp add: r_byte_def r_bind_def r_require_def w_byte_def char_of_u8_back)

lemma r_byte_Cons: "r_byte (c # s) = Inr (word_of_nat (of_char c), s)"
  by (simp add: r_byte_def r_bind_def r_require_def)

lemma length_w_byte [simp]: "length (w_byte b) = 1"
  by (simp add: w_byte_def)

lemma length_w_u64 [simp]: "length (w_u64 v) = 8"
  by (simp add: w_u64_def shifts_def w_byte_def)

lemma r_u64_loop_app:
  "r_u64_loop shs acc (concat (map (\<lambda>sh. w_byte (g sh)) shs) @ s) =
     Inr (fold (\<lambda>sh a. a OR push_bit sh (ucast (g sh))) shs acc, s)"
  by (induction shs arbitrary: acc) (simp_all add: codec_simps)

lemma u64_byte_step:
  fixes v :: u64
  shows "take_bit sh v OR push_bit sh (ucast (ucast (drop_bit sh v AND 0xff) :: u8)) = take_bit (sh + 8) v"
proof (rule bit_word_eqI)
  fix n assume n: "n < LENGTH(64)"
  have m: "(0xff :: u64) = mask 8" by (simp add: mask_eq_exp_minus_1)
  show "bit (take_bit sh v OR push_bit sh (ucast (ucast (drop_bit sh v AND 0xff) :: u8))) n
      = bit (take_bit (sh + 8) v) n"
    using n unfolding m by (auto simp: bit_simps)
qed

lemma u64_from_bytes:
  "fold (\<lambda>sh a. a OR push_bit sh (ucast (ucast (drop_bit sh v AND 0xff) :: u8))) shifts 0 = (v :: u64)"
proof -
  have "take_bit 64 v = v" by (rule take_bit_word_eq_self) simp
  then show ?thesis
    using u64_byte_step [of 0 v] u64_byte_step [of 8 v] u64_byte_step [of 16 v] u64_byte_step [of 24 v]
      u64_byte_step [of 32 v] u64_byte_step [of 40 v] u64_byte_step [of 48 v] u64_byte_step [of 56 v]
    by (simp add: shifts_def)
qed

lemma r_u64_app [codec_simps]: "r_u64 (w_u64 v @ s) = Inr (v, s)"
proof -
  have "r_u64_loop shifts 0 (w_u64 v @ s) = Inr (v, s)"
    unfolding w_u64_def r_u64_loop_app u64_from_bytes ..
  then show ?thesis by (simp add: r_u64_def codec_simps)
qed

lemma unat_size: "n < 2 ^ 64 \<Longrightarrow> unat (word_of_nat n :: u64) = n"
  by (simp add: unat_of_nat take_bit_eq_mod)

lemma r_count_app [codec_simps]: "n \<le> max_collection_size \<Longrightarrow> r_count what (w_size n @ s) = Inr (n, s)"
  by (simp add: r_count_def w_size_def codec_simps unat_size max_collection_size_def)

lemma r_sized_length_app: "n < 2 ^ 64 \<Longrightarrow> n \<le> length s \<Longrightarrow> r_sized_length (w_size n @ s) = Inr (n, s)"
  by (simp add: r_sized_length_def w_size_def codec_simps unat_size)

lemma r_bytes_app [codec_simps]: "length t < 2 ^ 64 \<Longrightarrow> r_bytes (w_bytes t @ s) = Inr (t, s)"
  by (simp add: r_bytes_def w_bytes_def codec_simps r_sized_length_app)

lemma length_blob_bytes [simp]: "length (concat (map w_byte b)) = length b"
  by (induction b) auto

lemma blob_bytes_back: "map (\<lambda>c. word_of_nat (of_char c)) (concat (map w_byte b)) = b"
  by (induction b) (auto simp: w_byte_def char_of_u8_back)

lemma r_blob_app [codec_simps]: "length b < 2 ^ 64 \<Longrightarrow> r_blob (w_blob b @ s) = Inr (b, s)"
  by (simp add: r_blob_def w_blob_def codec_simps r_sized_length_app blob_bytes_back)

fun value_sized :: "dbvalue \<Rightarrow> bool" where
  "value_sized (VString s) = (length s < 2 ^ 64)"
| "value_sized (VBlob b) = (length b < 2 ^ 64)"
| "value_sized _ = True"

lemma r_value_app [codec_simps]: "value_sized v \<Longrightarrow> r_value (w_value v @ s) = Inr (v, s)"
  by (cases v) (simp_all add: r_value_def codec_simps)

subsection \<open>Rows and results\<close>

definition row_sized :: "row \<Rightarrow> bool" where
  "row_sized r \<longleftrightarrow> amap_ok r \<and> length r \<le> max_collection_size
     \<and> list_all (\<lambda>f. length (fst f) < 2 ^ 64 \<and> value_sized (snd f)) r"

definition result_sized :: "query_result \<Rightarrow> bool" where
  "result_sized q \<longleftrightarrow> length (qr_rows q) \<le> max_collection_size \<and> list_all row_sized (qr_rows q)"

text \<open>The fields of a row in the order of the payload: the same map, sorted by name.\<close>

definition canonical :: "query_result \<Rightarrow> query_result" where
  "canonical q = q\<lparr>qr_rows := map (sort_key fst) (qr_rows q)\<rparr>"

definition same_row :: "row \<Rightarrow> row \<Rightarrow> bool" where
  "same_row r r' \<longleftrightarrow> (\<forall>k. alookup r k = alookup r' k)"

lemma amap_ok_sort [simp]: "amap_ok (sort_key fst r) \<longleftrightarrow> amap_ok r"
proof -
  have "mset (map fst (sort_key fst r)) = mset (map fst r)" by simp
  then show ?thesis unfolding amap_ok_def by (rule mset_eq_imp_distinct_iff)
qed

lemma alookup_sort: "amap_ok r \<Longrightarrow> alookup (sort_key fst r) k = alookup r k"
proof (cases "alookup r k")
  case None
  then show ?thesis by (metis alookup_None_iff set_sort)
next
  case (Some v)
  moreover assume "amap_ok r"
  ultimately show ?thesis by (metis alookup_iff_in_set amap_ok_sort set_sort)
qed

lemma row_sized_sort: "row_sized r \<Longrightarrow> row_sized (sort_key fst r)"
  by (simp add: row_sized_def list_all_iff)

lemma r_fields_app:
  assumes "distinct (map fst (acc @ fs))"
    and "list_all (\<lambda>f. length (fst f) < 2 ^ 64 \<and> value_sized (snd f)) fs"
  shows "r_fields (length fs) acc (concat (map (\<lambda>f. w_bytes (fst f) @ w_value (snd f)) fs) @ s) = Inr (acc @ fs, s)"
  using assms
proof (induction fs arbitrary: acc)
  case Nil
  then show ?case by (simp add: codec_simps)
next
  case (Cons f fs)
  then have "alookup acc (fst f) = None" by (auto simp: alookup_None_iff)
  with Cons.prems Cons.IH [of "acc @ [f]"] show ?case by (simp add: codec_simps)
qed

lemma row_app:
  assumes "row_sized r"
  shows "r_bind (r_count ''field'') (\<lambda>k. r_bind (r_fields k []) f) (encode_row r @ s) = f (sort_key fst r) s"
proof -
  let ?fs = "sort_key fst r"
  have "row_sized ?fs" using assms by (rule row_sized_sort)
  then have "length ?fs \<le> max_collection_size"
    and "r_fields (length ?fs) [] (concat (map (\<lambda>f. w_bytes (fst f) @ w_value (snd f)) ?fs) @ s) = Inr (?fs, s)"
    using r_fields_app [of "[]" ?fs s] by (simp_all add: row_sized_def amap_ok_def)
  then show ?thesis by (simp add: encode_row_def Let_def codec_simps)
qed

lemma r_rows_app:
  assumes "list_all row_sized rs"
  shows "r_rows (length rs) acc (concat (map encode_row rs) @ s) = Inr (acc @ map (sort_key fst) rs, s)"
  using assms by (induction rs arbitrary: acc) (simp_all add: codec_simps row_app)

lemma r_magic_app: "r_magic cs (cs @ s) = Inr ((), s)"
  by (induction cs) (simp_all add: codec_simps r_byte_Cons)

lemma decode_encode:
  assumes "result_sized q"
  shows "decode_query_result (encode_query_result q) = Inr (canonical q)"
  using assms r_rows_app [of "qr_rows q" "[]"] r_u64_app [of "qr_last_id q" "[]"]
  by (simp add: decode_query_result_def r_query_result_def encode_query_result_def canonical_def
      result_sized_def codec_simps r_magic_app)

lemma canonical_same:
  assumes "result_sized q"
  shows "list_all2 same_row (qr_rows q) (qr_rows (canonical q))"
  using assms by (auto simp: result_sized_def canonical_def list_all2_conv_all_nth list_all_length
      same_row_def alookup_sort row_sized_def)

text \<open>
  The bytes written depend on a row only as a map: rows with the same entries in another iteration
  order (\<open>std::unordered_map\<close> fixes none) have the same encoding.
\<close>

lemma sort_fields_unique:
  assumes "amap_ok r" "amap_ok r'" "same_row r r'"
  shows "sort_key fst r = sort_key fst r'"
proof -
  have "(k, v) \<in> set r \<longleftrightarrow> (k, v) \<in> set r'" for k v
    using assms by (simp add: same_row_def flip: alookup_iff_in_set)
  then have "set r = set r'" by auto
  moreover have "distinct r" "distinct r'" using assms by (auto simp: amap_ok_def distinct_map)
  ultimately have "mset r = mset r'" by (simp add: set_eq_iff_mset_eq_distinct)
  moreover have "inj_on fst (set r)" using assms(1) by (simp add: amap_ok_def distinct_map)
  ultimately show ?thesis by (intro sort_key_inj_key_eq) simp_all
qed

lemma encode_row_cong: "amap_ok r \<Longrightarrow> amap_ok r' \<Longrightarrow> same_row r r' \<Longrightarrow> encode_row r = encode_row r'"
  by (simp add: encode_row_def sort_fields_unique [of r r'])

subsection \<open>Well-behaved readers\<close>

text \<open>
  A reader is well behaved when it fails only with a \<open>CacheCodecError\<close> and when a success is not
  changed by more input: the same value, with the additional input left over. A successful decoder
  that must consume everything therefore fails on every proper prefix.
\<close>

definition stable :: "'a reader \<Rightarrow> bool" where
  "stable m \<longleftrightarrow> (\<forall>s x s' t. m s = Inr (x, s') \<longrightarrow> m (s @ t) = Inr (x, s' @ t))
     \<and> (\<forall>s e. m s = Inl e \<longrightarrow> (\<exists>msg. e = Codec_error msg))"

lemma stableD: "stable m \<Longrightarrow> m s = Inr (x, s') \<Longrightarrow> m (s @ t) = Inr (x, s' @ t)"
  by (auto simp: stable_def)

lemma stable_error: "stable m \<Longrightarrow> m s = Inl e \<Longrightarrow> \<exists>msg. e = Codec_error msg"
  by (auto simp: stable_def)

lemma stable_bind [intro]:
  assumes "stable m" "\<And>x. stable (f x)"
  shows "stable (r_bind m f)"
  unfolding stable_def r_bind_def
  by (auto simp: result_simps dest: stableD [OF assms(1)] stableD [OF assms(2)]
      stable_error [OF assms(1)] stable_error [OF assms(2)])

lemma stable_return [intro, simp]: "stable (r_return x)"
  by (simp add: stable_def r_return_def)

lemma stable_fail [intro, simp]: "stable (r_fail msg)"
  by (simp add: stable_def r_fail_def)

lemma stable_byte [intro, simp]: "stable r_byte"
proof -
  have "r_byte (s @ t) = Inr (x, s' @ t)" if "r_byte s = Inr (x, s')" for s x s' t
    using that by (cases s) (auto simp: r_byte_def r_bind_def r_require_def)
  moreover have "\<exists>msg. e = Codec_error msg" if "r_byte s = Inl e" for s e
    using that by (cases s) (auto simp: r_byte_def r_bind_def r_require_def)
  ultimately show ?thesis by (simp add: stable_def)
qed

lemma stable_require [intro, simp]: "stable (r_require n)"
  by (auto simp: stable_def r_require_def)

lemma stable_u64_loop [intro, simp]: "stable (r_u64_loop shs acc)"
  by (induction shs arbitrary: acc) auto

lemma stable_u64 [intro, simp]: "stable r_u64"
  by (auto simp: r_u64_def)

lemma stable_count [intro, simp]: "stable (r_count what)"
  unfolding r_count_def by (rule stable_bind) auto

text \<open>Taking \<open>n\<close> characters is stable where \<open>n\<close> characters are known to be there.\<close>

lemma r_sized_length_Inr: "r_sized_length s = Inr (n, s') \<Longrightarrow> n \<le> length s'"
  by (auto simp: r_sized_length_def r_bind_def r_require_def r_return_def result_simps split: if_splits)

lemma stable_sized: "stable r_sized_length"
  unfolding r_sized_length_def by auto

lemma stable_take: "stable (r_bind r_sized_length (\<lambda>n s. Inr (g (take n s), drop n s)))" (is "stable ?r")
proof -
  have "?r (s @ t) = Inr (x, s' @ t)" if run: "?r s = Inr (x, s')" for s x s' t
  proof -
    from run obtain n u where u: "r_sized_length s = Inr (n, u)" "x = g (take n u)" "s' = drop n u"
      by (auto simp: r_bind_def result_simps)
    with stableD [OF stable_sized u(1), of t] r_sized_length_Inr [OF u(1)] show ?thesis
      by (simp add: r_bind_def)
  qed
  moreover have "\<exists>msg. e = Codec_error msg" if "?r s = Inl e" for s e
    using that stable_error [OF stable_sized] by (auto simp: r_bind_def result_simps)
  ultimately show ?thesis by (simp add: stable_def)
qed

lemma stable_bytes [intro, simp]: "stable r_bytes"
  unfolding r_bytes_def using stable_take [of id] by simp

lemma stable_blob [intro, simp]: "stable r_blob"
  unfolding r_blob_def using stable_take [of "map (\<lambda>c. word_of_nat (of_char c))"] by simp

lemma stable_value [intro, simp]: "stable r_value"
  unfolding r_value_def by (rule stable_bind) auto

lemma stable_fields [intro, simp]: "stable (r_fields n acc)"
proof (induction n acc rule: r_fields.induct)
  case (2 n acc)
  then show ?case unfolding r_fields.simps by (intro stable_bind) auto
qed simp

lemma stable_rows [intro, simp]: "stable (r_rows n acc)"
  by (induction n acc rule: r_rows.induct) auto

lemma stable_magic [intro, simp]: "stable (r_magic cs)"
  by (induction cs) auto

lemma stable_result [intro, simp]: "stable r_query_result"
  unfolding r_query_result_def by (intro stable_bind) auto

subsection \<open>Properties\<close>

lemma sample_sized: "result_sized sample_result"
  by (simp add: result_sized_def row_sized_def sample_result_def max_collection_size_def amap_ok_def)

text \<open>
  C21. Round trip: decoding the encoding of a result within the limits gives a result with the same
  counters and, row by row, the same map from column names to values.
\<close>

theorem codec_round_trip:
  assumes "result_sized q"
  shows "\<exists>q'. decode_query_result (encode_query_result q) = Inr q'
     \<and> list_all2 same_row (qr_rows q) (qr_rows q')
     \<and> qr_affected q' = qr_affected q \<and> qr_last_id q' = qr_last_id q"
  using decode_encode [OF assms] canonical_same [OF assms] by (simp add: canonical_def)

theorem codec_round_trip_witness:
  "\<exists>q'. decode_query_result (encode_query_result sample_result) = Inr q'
     \<and> list_all2 same_row (qr_rows sample_result) (qr_rows q') \<and> qr_affected q' = 3 \<and> qr_last_id q' = 99"
  using codec_round_trip [OF sample_sized] by (simp add: sample_result_def)

text \<open>
  C32. A truncated payload is never taken for a result: every proper prefix of the encoding of a
  result within the limits is refused with a codec error.
\<close>

theorem truncated_payload_refused:
  assumes "result_sized q" "encode_query_result q = p @ t" "t \<noteq> []"
  shows "\<exists>msg. decode_query_result p = Inl (Codec_error msg)"
proof (cases "r_query_result p")
  case (Inl e)
  with stable_error [OF stable_result] show ?thesis by (auto simp: decode_query_result_def)
next
  case (Inr r)
  obtain q' rest where r: "r = (q', rest)" by (cases r)
  with Inr stableD [OF stable_result] have "r_query_result (p @ t) = Inr (q', rest @ t)" by simp
  with decode_encode [OF assms(1)] assms(2,3) show ?thesis
    by (simp add: decode_query_result_def)
qed

theorem truncated_payload_refused_witness:
  "\<exists>msg. decode_query_result (butlast (encode_query_result sample_result)) = Inl (Codec_error msg)"
proof (rule truncated_payload_refused [OF sample_sized])
  have "encode_query_result sample_result \<noteq> []" by (simp add: encode_query_result_def magic_def)
  then show "encode_query_result sample_result
      = butlast (encode_query_result sample_result) @ [last (encode_query_result sample_result)]" by simp
qed simp

lemma r_fields_Inr:
  "r_fields n acc s = Inr (r, s') \<Longrightarrow> amap_ok acc \<Longrightarrow> amap_ok r \<and> length r = length acc + n"
proof (induction n acc arbitrary: s rule: r_fields.induct)
  case (1 acc)
  then show ?case by (simp add: r_return_def)
next
  case (2 n acc)
  from 2(2) obtain name v u where run: "r_fields n (acc @ [(name, v)]) u = Inr (r, s')"
    and new: "alookup acc name = None"
    by (auto simp: r_bind_def r_fail_def result_simps split: if_splits)
  from new 2(3) have "amap_ok (acc @ [(name, v)])"
    by (auto simp: amap_ok_def alookup_None_iff)
  with 2(1) [OF _ run] new show ?case by simp
qed

definition row_bounded :: "row \<Rightarrow> bool" where
  "row_bounded r \<longleftrightarrow> amap_ok r \<and> length r \<le> max_collection_size"

lemma r_count_Inr: "r_count what s = Inr (n, s') \<Longrightarrow> n \<le> max_collection_size"
  by (auto simp: r_count_def r_bind_def r_fail_def r_return_def result_simps split: if_splits)

lemma r_rows_Inr:
  "r_rows n acc s = Inr (rs, s') \<Longrightarrow> list_all row_bounded acc \<Longrightarrow>
     list_all row_bounded rs \<and> length rs = length acc + n"
proof (induction n acc arbitrary: s rule: r_rows.induct)
  case (1 acc)
  then show ?case by (simp add: r_return_def)
next
  case (2 n acc)
  from 2(2) obtain k r u v where k: "r_count ''field'' s = Inr (k, u)" and r: "r_fields k [] u = Inr (r, v)"
    and rest: "r_rows n (acc @ [r]) v = Inr (rs, s')"
    by (auto simp: r_bind_def result_simps)
  have "row_bounded r" using r_fields_Inr [OF r] r_count_Inr [OF k] by (simp add: row_bounded_def)
  with 2(1) [OF rest] 2(3) show ?case by simp
qed

text \<open>
  C33. Decoding is total on arbitrary bytes: it ends in a result whose row and field counts are
  within the safety limit and whose rows have distinct column names, or in a codec error.
\<close>

theorem decode_total:
  "case decode_query_result payload of
     Inl e \<Rightarrow> (\<exists>msg. e = Codec_error msg)
   | Inr q \<Rightarrow> length (qr_rows q) \<le> max_collection_size \<and> list_all row_bounded (qr_rows q)"
proof (cases "r_query_result payload")
  case (Inl e)
  with stable_error [OF stable_result] show ?thesis by (auto simp: decode_query_result_def)
next
  case (Inr r)
  then have "length (qr_rows (fst r)) \<le> max_collection_size \<and> list_all row_bounded (qr_rows (fst r))"
    by (auto simp: r_query_result_def r_bind_def r_return_def result_simps dest!: r_rows_Inr r_count_Inr)
  with Inr show ?thesis by (auto simp: decode_query_result_def split: prod.splits)
qed

text \<open>
  The encoder does not enforce the limit the decoder has: the encoding of a result with more
  rows than the limit is refused by the decoder.
\<close>

theorem oversized_result_unreadable:
  assumes "max_collection_size < length (qr_rows q)" "length (qr_rows q) < 2 ^ 64"
  shows "decode_query_result (encode_query_result q)
    = Inl (Codec_error ''MetalORM: cached row count exceeds safety limit'')"
  using assms unat_size [OF assms(2)]
  by (simp add: decode_query_result_def r_query_result_def encode_query_result_def codec_simps r_magic_app
      r_count_def w_size_def r_bind_def r_fail_def r_u64_app)

theorem oversized_result_unreadable_witness:
  "decode_query_result (encode_query_result \<lparr>qr_rows = replicate (Suc max_collection_size) [], qr_affected = 0, qr_last_id = 0\<rparr>)
    = Inl (Codec_error ''MetalORM: cached row count exceeds safety limit'')"
  by (rule oversized_result_unreadable) (simp_all add: max_collection_size_def)

text \<open>
  The payload of a result does not depend on the iteration order of its rows.
\<close>

theorem encoding_order_independent:
  assumes "list_all amap_ok (qr_rows q)" "list_all amap_ok (qr_rows q')"
    and "list_all2 same_row (qr_rows q) (qr_rows q')"
    and "qr_affected q = qr_affected q'" "qr_last_id q = qr_last_id q'"
  shows "encode_query_result q = encode_query_result q'"
proof -
  have "map encode_row (qr_rows q) = map encode_row (qr_rows q')"
    using assms(3,1,2) by (induction rule: list_all2_induct) (auto intro: encode_row_cong)
  with assms(3-5) show ?thesis by (simp add: encode_query_result_def list_all2_lengthD)
qed

theorem encoding_order_independent_witness:
  "encode_query_result \<lparr>qr_rows = [[(''b'', VNull), (''a'', VBool True)]], qr_affected = 1, qr_last_id = 0\<rparr>
   = encode_query_result \<lparr>qr_rows = [[(''a'', VBool True), (''b'', VNull)]], qr_affected = 1, qr_last_id = 0\<rparr>"
  by (rule encoding_order_independent) (simp_all add: same_row_def alookup_def amap_ok_def)

end
