(* ===== verification/Cache_Types.thy ===== *)
theory Cache_Types
  imports Values
begin

section \<open>Cache options and durations (include/metal/cache_types.hpp)\<close>

text \<open>
  Durations are written as digits followed by a unit letter. \<open>parse_duration\<close> computes in
  \<open>std::uint64_t\<close>, so the amount is a 64-bit word here and every multiplication wraps; the code
  guards each of them. \<open>std::chrono::milliseconds\<close> is a signed 64-bit count, an \<open>int\<close> here.
\<close>

definition is_valid_duration :: "string \<Rightarrow> bool" where
  "is_valid_duration s \<longleftrightarrow> length s \<ge> 2 \<and> last s \<in> set ''smhdw'' \<and> list_all is_digit (butlast s)"

definition too_large :: exn where
  "too_large = Out_of_range ''MetalORM: cache duration is too large''"

fun duration_amount :: "u64 \<Rightarrow> string \<Rightarrow> u64 result" where
  "duration_amount amount [] = Inr amount"
| "duration_amount amount (c # cs) =
     (let digit = word_of_nat (of_char c - 48)
      in if amount > (- 1 - digit) div 10 then Inl too_large
         else duration_amount (amount * 10 + digit) cs)"

definition duration_multiplier :: "char \<Rightarrow> u64" where
  "duration_multiplier c =
     (if c = CHR ''s'' then 1000
      else if c = CHR ''m'' then 60000
      else if c = CHR ''h'' then 3600000
      else if c = CHR ''d'' then 86400000
      else if c = CHR ''w'' then 604800000
      else 1000)"

definition max_ms :: u64 where
  "max_ms = 0x7FFFFFFFFFFFFFFF"

definition parse_duration :: "string \<Rightarrow> int result" where
  "parse_duration s =
     (if \<not> is_valid_duration s
      then Inl (Invalid_argument (''MetalORM: invalid cache duration '' @ [CHR 0x27] @ s @ [CHR 0x27]
        @ ''; use 30s, 10m, 2h, 1d, 1w or milliseconds''))
      else rbind (duration_amount 0 (butlast s)) (\<lambda>amount.
        let multiplier = duration_multiplier (last s)
        in if amount > max_ms div multiplier then Inl too_large
           else Inr (sint (amount * multiplier))))"

definition format_duration :: "int \<Rightarrow> string" where
  "format_duration ms =
     (if ms < 1000 then show_int ms @ ''ms''
      else if ms < 60000 then show_int (ms div 1000) @ ''s''
      else if ms < 3600000 then show_int (ms div 60000) @ ''m''
      else if ms < 86400000 then show_int (ms div 3600000) @ ''h''
      else if ms < 604800000 then show_int (ms div 86400000) @ ''d''
      else show_int (ms div 604800000) @ ''w'')"

datatype tenant = TenantInt u64 | TenantStr string

record cache_options =
  co_key :: string
  co_ttl :: "int option"
  co_tags :: "string list"
  co_auto_invalidate :: bool
  co_condition :: "(query_result \<Rightarrow> bool) option"

record cache_stats =
  st_size :: nat
  st_tags :: nat

record cache_capabilities =
  cap_tags :: bool
  cap_prefix :: bool
  cap_ttl :: bool

subsection \<open>The overflow guards\<close>

lemma read_nat_mono: "a \<le> read_nat a cs"
proof (induction cs arbitrary: a)
  case (Cons c cs)
  have "a \<le> 10 * a + (of_char c - 48)" by simp
  also have "\<dots> \<le> read_nat (10 * a + (of_char c - 48)) cs" by (rule Cons.IH)
  finally show ?case by simp
qed simp

lemma guard_exact:
  fixes a d :: u64
  assumes "unat d < 10"
  shows "a > (- 1 - d) div 10 \<longleftrightarrow> 2 ^ 64 \<le> unat a * 10 + unat d"
proof -
  have "unat (- 1 - d) = 2 ^ 64 - 1 - unat d"
    by (simp add: unat_sub unsigned_minus_1_eq_mask mask_eq_exp_minus_1)
  then have "unat ((- 1 - d) div 10) = (2 ^ 64 - 1 - unat d) div 10"
    by (simp add: unat_div)
  with assms show ?thesis by (simp add: word_less_nat_alt) linarith
qed

lemma unat_step:
  fixes a d :: u64
  assumes "unat a * 10 + unat d < 2 ^ 64"
  shows "unat (a * 10 + d) = unat a * 10 + unat d"
  using assms by (simp add: unat_word_ariths)

lemma duration_amount_exact:
  assumes "list_all is_digit cs"
  shows "duration_amount a cs =
    (if read_nat (unat a) cs < 2 ^ 64 then Inr (word_of_nat (read_nat (unat a) cs)) else Inl too_large)"
  using assms
proof (induction cs arbitrary: a)
  case Nil
  then show ?case using unsigned_less [of a, where ?'a = nat] by simp
next
  case (Cons c cs)
  let ?d = "word_of_nat (of_char c - 48) :: u64"
  have small: "of_char c - 48 < (10 :: nat)" using Cons.prems by (auto simp: is_digit_def)
  then have d: "unat ?d = of_char c - 48" "unat ?d < 10"
    by (simp_all add: unat_of_nat take_bit_eq_mod del: of_nat_diff)
  show ?case
  proof (cases "2 ^ 64 \<le> unat a * 10 + unat ?d")
    case True
    with read_nat_mono [of "10 * unat a + (of_char c - 48)" cs] d have "2 ^ 64 \<le> read_nat (unat a) (c # cs)"
      by (simp add: mult.commute)
    with True guard_exact [OF d(2), of a] show ?thesis by (simp add: Let_def)
  next
    case False
    then have "unat (a * 10 + ?d) = 10 * unat a + (of_char c - 48)"
      using unat_step [of a ?d] d by simp
    with False guard_exact [OF d(2), of a] Cons.IH [of "a * 10 + ?d"] Cons.prems show ?thesis
      by (simp add: Let_def)
  qed
qed

lemma multiplier_range: "1000 \<le> unat (duration_multiplier c) \<and> unat (duration_multiplier c) \<le> 604800000"
  by (simp add: duration_multiplier_def)

lemma amount_guard:
  fixes a m :: u64
  assumes "1000 \<le> unat m"
  shows "a > max_ms div m \<longleftrightarrow> 2 ^ 63 \<le> unat a * unat m"
proof -
  have "unat (max_ms div m) = (2 ^ 63 - 1) div unat m"
    by (simp add: unat_div max_ms_def)
  then have "a > max_ms div m \<longleftrightarrow> (2 ^ 63 - 1) div unat m < unat a"
    by (simp add: word_less_nat_alt)
  also have "\<dots> \<longleftrightarrow> 2 ^ 63 - 1 < unat a * unat m"
    using assms by (subst div_less_iff_less_mult) auto
  finally show ?thesis by auto
qed

lemma sint_small:
  fixes w :: u64
  assumes "unat w < 2 ^ 63"
  shows "sint w = int (unat w)"
proof -
  have "sint (word_of_int (int n) :: u64) = int n" if "n < 2 ^ 63" for n
    using that by (intro sint_of_int) auto
  from this [OF assms] show ?thesis by simp
qed

lemma parse_duration_exact:
  assumes "is_valid_duration s"
  shows "parse_duration s =
    (let ms = read_nat 0 (butlast s) * unat (duration_multiplier (last s))
     in if ms < 2 ^ 63 then Inr (int ms) else Inl too_large)"
proof -
  let ?n = "read_nat 0 (butlast s)" and ?m = "duration_multiplier (last s)"
  have digits: "list_all is_digit (butlast s)" using assms by (simp add: is_valid_duration_def)
  have m: "1000 \<le> unat ?m" using multiplier_range by blast
  show ?thesis
  proof (cases "?n < 2 ^ 64")
    case True
    then have amount: "duration_amount 0 (butlast s) = Inr (word_of_nat ?n)"
      using duration_amount_exact [OF digits, of 0] by simp
    have n: "unat (word_of_nat ?n :: u64) = ?n" using True by (simp add: unat_of_nat take_bit_eq_mod)
    show ?thesis
    proof (cases "?n * unat ?m < 2 ^ 63")
      case True
      then have "unat (word_of_nat ?n * ?m :: u64) = ?n * unat ?m"
        using n by (simp add: unat_word_ariths)
      with True assms amount n amount_guard [OF m, of "word_of_nat ?n"] show ?thesis
        by (simp add: parse_duration_def Let_def sint_small)
    next
      case False
      with assms amount n amount_guard [OF m, of "word_of_nat ?n"] show ?thesis
        by (simp add: parse_duration_def Let_def)
    qed
  next
    case False
    then have "duration_amount 0 (butlast s) = Inl too_large"
      using duration_amount_exact [OF digits, of 0] by simp
    moreover have "2 ^ 63 \<le> ?n * unat ?m"
      using False m mult_le_mono [of "2 ^ 64" ?n 1 "unat ?m"] by simp
    ultimately show ?thesis using assms by (simp add: parse_duration_def Let_def)
  qed
qed

subsection \<open>Printing and parsing\<close>

lemma parse_shown:
  assumes "c \<in> set ''smhdw''" "n * unat (duration_multiplier c) < 2 ^ 63"
  shows "parse_duration (show_nat n @ [c]) = Inr (int (n * unat (duration_multiplier c)))"
proof -
  have "length (show_nat n) \<ge> 1" by (simp add: Suc_le_eq)
  with assms(1) have "is_valid_duration (show_nat n @ [c])"
    by (simp add: is_valid_duration_def show_nat_all_digits)
  from parse_duration_exact [OF this] assms(2) show ?thesis by (simp add: read_show_nat Let_def)
qed

text \<open>The unit \<open>format_duration\<close> chooses, in milliseconds, and its letter.\<close>

definition format_unit :: "int \<Rightarrow> int \<times> char" where
  "format_unit ms =
     (if ms < 60000 then (1000, CHR ''s'') else if ms < 3600000 then (60000, CHR ''m'')
      else if ms < 86400000 then (3600000, CHR ''h'') else if ms < 604800000 then (86400000, CHR ''d'')
      else (604800000, CHR ''w''))"

lemma format_unit_cases:
  assumes "1000 \<le> ms"
  shows "\<exists>u c. format_unit ms = (u, c) \<and> format_duration ms = show_nat (nat ms div nat u) @ [c]
     \<and> c \<in> set ''smhdw'' \<and> int (unat (duration_multiplier c)) = u \<and> 0 < u"
proof -
  have "show_int (ms div k) = show_nat (nat ms div nat k)" if "0 < k" for k
    using assms that pos_imp_zdiv_nonneg_iff [of k ms] by (simp add: show_int_def nat_div_distrib not_less)
  with assms show ?thesis
    by (simp add: format_duration_def format_unit_def duration_multiplier_def)
qed

subsection \<open>Properties\<close>

text \<open>
  C34. \<open>parse_duration\<close> computes without wrap-around: on a text of the accepted shape the result is
  the number written times the unit when that fits the signed 64-bit count of milliseconds, and the
  out-of-range error otherwise, however long the digit string is.
\<close>

theorem parse_duration_no_wrap:
  assumes "is_valid_duration s"
  shows "parse_duration s =
    (let ms = read_nat 0 (butlast s) * unat (duration_multiplier (last s))
     in if ms < 2 ^ 63 then Inr (int ms) else Inl too_large)"
  using assms by (rule parse_duration_exact)

theorem parse_duration_no_wrap_witness:
  "parse_duration ''99999999999999999999999999w'' = Inl too_large \<and> parse_duration ''10m'' = Inr 600000"
proof -
  have "is_valid_duration ''99999999999999999999999999w''" "is_valid_duration ''10m''"
    by (simp_all add: is_valid_duration_def is_digit_def)
  from parse_duration_no_wrap [OF this(1)] parse_duration_no_wrap [OF this(2)] show ?thesis
    by (simp add: duration_multiplier_def Let_def)
qed

text \<open>
  What \<open>format_duration\<close> prints for a second or more is accepted by \<open>parse_duration\<close> and parses
  to the duration rounded down to the printed unit; below one second it prints a text with the
  suffix \<open>ms\<close>, which \<open>parse_duration\<close> refuses.
\<close>

theorem format_parse_duration:
  assumes "0 \<le> ms" "ms < 2 ^ 63"
  shows "if ms < 1000 then \<not> is_valid_duration (format_duration ms)
     else parse_duration (format_duration ms) = Inr (ms - ms mod fst (format_unit ms))"
proof (cases "ms < 1000")
  case True
  have "\<not> is_digit (CHR ''m'')" by (simp add: is_digit_def)
  with True show ?thesis
    by (simp add: format_duration_def is_valid_duration_def butlast_append)
next
  case False
  then obtain u c where u: "format_unit ms = (u, c)" "format_duration ms = show_nat (nat ms div nat u) @ [c]"
    "c \<in> set ''smhdw''" "int (unat (duration_multiplier c)) = u" "0 < u"
    using format_unit_cases [of ms] unfolding not_less by metis
  have m: "unat (duration_multiplier c) = nat u" using u(4) by (metis nat_int)
  have "nat ms div nat u * nat u \<le> nat ms" by simp
  also have "\<dots> < 2 ^ 63" using assms by simp
  finally have "nat ms div nat u * unat (duration_multiplier c) < 2 ^ 63" by (simp only: m)
  from parse_shown [OF u(3) this] m u(5) assms(1) have
    "parse_duration (format_duration ms) = Inr (ms div u * u)"
    by (simp add: u(2) zdiv_int)
  with False u(1) show ?thesis by (simp add: minus_mod_eq_div_mult)
qed

theorem format_parse_duration_witness:
  "parse_duration (format_duration 90000) = Inr 60000"
  using format_parse_duration [of 90000] by (simp add: format_unit_def)

end
