(* ===== verification/Cache_Provider.thy ===== *)
theory Cache_Provider
  imports Cache_Types
begin

section \<open>The cache provider interface (include/metal/cache_provider.hpp)\<close>

text \<open>
  \<open>CacheProvider\<close> is an abstract class. An object of it is its virtual methods, the record
  \<open>cache_ops\<close> over the provider's own state \<open>'s\<close>; the optional capability \<open>CacheTagRegistrar\<close>,
  which the code looks up with \<open>dynamic_cast\<close>, is an \<open>option\<close>. Every method may throw: it returns
  a result and the state it leaves. Methods that read the clock take the time.
\<close>

record 's cache_ops =
  cop_get :: "int \<Rightarrow> string \<Rightarrow> 's \<Rightarrow> query_result option result \<times> 's"
  cop_set :: "int \<Rightarrow> string \<Rightarrow> query_result \<Rightarrow> int option \<Rightarrow> 's \<Rightarrow> unit result \<times> 's"
  cop_invalidate :: "string \<Rightarrow> 's \<Rightarrow> unit result \<times> 's"
  cop_invalidate_tags :: "string list \<Rightarrow> 's \<Rightarrow> unit result \<times> 's"
  cop_invalidate_prefix :: "string \<Rightarrow> 's \<Rightarrow> unit result \<times> 's"
  cop_register_tags :: "(string \<Rightarrow> string list \<Rightarrow> 's \<Rightarrow> unit result \<times> 's) option"

text \<open>
  The contract of a provider, over an invariant and a view of the state: \<open>live now s k\<close> is what a
  read of \<open>k\<close> at time \<open>now\<close> should return. An operation that throws may have done nothing, but it
  never corrupts the view of other keys. \<open>stored v\<close> is the result as it is read back (the remote
  adapters return a row as an equal map), for the results that fit (\<open>fits\<close>).
\<close>

definition ttl_alive :: "int option \<Rightarrow> int \<Rightarrow> int \<Rightarrow> bool" where
  "ttl_alive ttl now now' \<longleftrightarrow> (case ttl of None \<Rightarrow> True | Some d \<Rightarrow> d = 0 \<or> now' < now + d)"

definition ttl_dead :: "int option \<Rightarrow> int \<Rightarrow> int \<Rightarrow> bool" where
  "ttl_dead ttl now now' \<longleftrightarrow> (case ttl of None \<Rightarrow> False | Some d \<Rightarrow> d \<noteq> 0 \<and> now + d < now')"

locale cache_provider =
  fixes P :: "'s cache_ops"
    and inv :: "'s \<Rightarrow> bool"
    and live :: "int \<Rightarrow> 's \<Rightarrow> string \<Rightarrow> query_result option"
    and stored :: "query_result \<Rightarrow> query_result"
    and fits :: "query_result \<Rightarrow> bool"
  assumes get_inv: "inv s \<Longrightarrow> inv (snd (cop_get P now k s))"
    and get_value: "inv s \<Longrightarrow> fst (cop_get P now k s) = Inr r \<Longrightarrow> r = live now s k"
    and get_frame: "inv s \<Longrightarrow> now \<le> now' \<Longrightarrow> live now' (snd (cop_get P now k s)) k' = live now' s k'"
    and set_inv: "inv s \<Longrightarrow> fits v \<Longrightarrow> inv (snd (cop_set P now k v ttl s))"
    and set_alive: "inv s \<Longrightarrow> fits v \<Longrightarrow> fst (cop_set P now k v ttl s) = Inr () \<Longrightarrow> now \<le> now' \<Longrightarrow>
          ttl_alive ttl now now' \<Longrightarrow> live now' (snd (cop_set P now k v ttl s)) k = Some (stored v)"
    and set_frame: "inv s \<Longrightarrow> fits v \<Longrightarrow> k' \<noteq> k \<Longrightarrow> now \<le> now' \<Longrightarrow>
          live now' (snd (cop_set P now k v ttl s)) k' = live now' s k'"
    and invalidate_inv: "inv s \<Longrightarrow> inv (snd (cop_invalidate P k s))"
    and invalidate_gone: "inv s \<Longrightarrow> fst (cop_invalidate P k s) = Inr () \<Longrightarrow> live now (snd (cop_invalidate P k s)) k = None"
    and invalidate_frame: "inv s \<Longrightarrow> k' \<noteq> k \<Longrightarrow> live now (snd (cop_invalidate P k s)) k' = live now s k'"

text \<open>A provider that expires entries by itself, the memory cache for one.\<close>

locale expiring_cache_provider = cache_provider +
  assumes set_dead: "inv s \<Longrightarrow> fits v \<Longrightarrow> fst (cop_set P now k v ttl s) = Inr () \<Longrightarrow>
          ttl_dead ttl now now' \<Longrightarrow> live now' (snd (cop_set P now k v ttl s)) k = None"
begin

lemma expired_is_miss:
  assumes "inv s" "fits v" "cop_set P now k v (Some d) s = (Inr (), s')" "d \<noteq> 0" "now + d < t"
    and "cop_get P t k s' = (Inr r, s'')"
  shows "r = None"
proof -
  have "inv s'" using set_inv [OF assms(1,2), of now k "Some d"] assms(3) by simp
  moreover have "live t s' k = None"
    using set_dead [OF assms(1,2), of now k "Some d" t] assms(3-5) by (simp add: ttl_dead_def)
  ultimately show ?thesis using get_value [of s' t k r] assms(6) by simp
qed

end

text \<open>
  A provider with tags: \<open>tagged s k t\<close> says that the entry of \<open>k\<close> is registered under the tag.
  Registration changes no entry; invalidation by tags removes the entries registered under one of
  them, and leaves the other keys alone that the provider does not use for itself (\<open>ordinary\<close>).
\<close>

locale tag_cache_provider = cache_provider +
  fixes reg :: "string \<Rightarrow> string list \<Rightarrow> 's \<Rightarrow> unit result \<times> 's"
    and is_tagged :: "'s \<Rightarrow> string \<Rightarrow> string \<Rightarrow> bool"
    and ordinary :: "string \<Rightarrow> bool"
  assumes reg_def: "cop_register_tags P = Some reg"
    and reg_inv: "inv s \<Longrightarrow> inv (snd (reg k ts s))"
    and reg_frame: "inv s \<Longrightarrow> ordinary k' \<Longrightarrow> live now (snd (reg k ts s)) k' = live now s k'"
    and reg_adds: "inv s \<Longrightarrow> fst (reg k ts s) = Inr () \<Longrightarrow> t \<in> set ts \<Longrightarrow> t \<noteq> [] \<Longrightarrow>
          is_tagged (snd (reg k ts s)) k t"
    and reg_keeps: "inv s \<Longrightarrow> is_tagged s k' t \<Longrightarrow> is_tagged (snd (reg k ts s)) k' t"
    and invtags_inv: "inv s \<Longrightarrow> inv (snd (cop_invalidate_tags P ts s))"
    and invtags_gone: "inv s \<Longrightarrow> fst (cop_invalidate_tags P ts s) = Inr () \<Longrightarrow> t \<in> set ts \<Longrightarrow> t \<noteq> [] \<Longrightarrow>
          is_tagged s k t \<Longrightarrow> live now (snd (cop_invalidate_tags P ts s)) k = None"
    and invtags_frame: "inv s \<Longrightarrow> ordinary k \<Longrightarrow> \<forall>t \<in> set ts. \<not> is_tagged s k t \<Longrightarrow>
          live now (snd (cop_invalidate_tags P ts s)) k = live now s k"

end
