(* ===== verification/Tag_Index.thy ===== *)
theory Tag_Index
  imports Cache_Types
begin

section \<open>The tag index of the memory cache (include/metal/cache_tag_index.hpp)\<close>

text \<open>
  \<open>TagIndex\<close> keeps two maps, from a tag to the keys registered under it and from a key to its
  tags. An \<open>std::unordered_set\<close> is a list without repetitions (\<open>set_add\<close>, \<open>set_del\<close>). Every
  method takes the mutex for its whole body, so a method is one atomic step.
\<close>

type_synonym sset = "string list"

definition set_add :: "'a \<Rightarrow> 'a list \<Rightarrow> 'a list" where
  "set_add x xs = (if x \<in> set xs then xs else xs @ [x])"

definition set_del :: "'a \<Rightarrow> 'a list \<Rightarrow> 'a list" where
  "set_del x xs = filter (\<lambda>y. y \<noteq> x) xs"

record tag_index =
  ti_tag_to_keys :: "(string, sset) amap"
  ti_key_to_tags :: "(string, sset) amap"

definition ti_empty :: tag_index where
  "ti_empty = \<lparr>ti_tag_to_keys = [], ti_key_to_tags = []\<rparr>"

text \<open>\<open>map[k]\<close> of a reference inserts an empty set where the key is absent.\<close>

definition set_at :: "('k, 'a list) amap \<Rightarrow> 'k \<Rightarrow> 'a list" where
  "set_at m k = (case alookup m k of None \<Rightarrow> [] | Some s \<Rightarrow> s)"

fun register_loop :: "string \<Rightarrow> string list \<Rightarrow> tag_index \<Rightarrow> tag_index" where
  "register_loop key [] ti = ti"
| "register_loop key (tag # tags) ti =
     (if tag = [] then register_loop key tags ti
      else register_loop key tags
        (ti\<lparr>ti_tag_to_keys := aput tag (set_add key (set_at (ti_tag_to_keys ti) tag)) (ti_tag_to_keys ti),
            ti_key_to_tags := aput key (set_add tag (set_at (ti_key_to_tags ti) key)) (ti_key_to_tags ti)\<rparr>))"

definition register_key :: "string \<Rightarrow> string list \<Rightarrow> tag_index \<Rightarrow> tag_index" where
  "register_key key tags ti =
     (let ti1 = ti\<lparr>ti_key_to_tags := aput key (set_at (ti_key_to_tags ti) key) (ti_key_to_tags ti)\<rparr>;
          ti2 = register_loop key tags ti1
      in if set_at (ti_key_to_tags ti2) key = []
         then ti2\<lparr>ti_key_to_tags := adel key (ti_key_to_tags ti2)\<rparr> else ti2)"

fun unregister_loop :: "string \<Rightarrow> string list \<Rightarrow> (string, sset) amap \<Rightarrow> (string, sset) amap" where
  "unregister_loop key [] m = m"
| "unregister_loop key (tag # tags) m =
     (case alookup m tag of
        None \<Rightarrow> unregister_loop key tags m
      | Some ks \<Rightarrow>
          let ks' = set_del key ks
          in unregister_loop key tags (if ks' = [] then adel tag m else aput tag ks' m))"

definition unregister :: "string \<Rightarrow> tag_index \<Rightarrow> tag_index" where
  "unregister key ti =
     (case alookup (ti_key_to_tags ti) key of
        None \<Rightarrow> ti
      | Some tags \<Rightarrow> ti\<lparr>ti_tag_to_keys := unregister_loop key tags (ti_tag_to_keys ti),
                       ti_key_to_tags := adel key (ti_key_to_tags ti)\<rparr>)"

definition keys_by_tag :: "tag_index \<Rightarrow> string \<Rightarrow> string list" where
  "keys_by_tag ti tag = set_at (ti_tag_to_keys ti) tag"

definition tags_by_key :: "tag_index \<Rightarrow> string \<Rightarrow> string list" where
  "tags_by_key ti key = set_at (ti_key_to_tags ti) key"

fun collect_keys :: "string list \<Rightarrow> tag_index \<Rightarrow> sset \<Rightarrow> sset" where
  "collect_keys [] ti keys = keys"
| "collect_keys (tag # tags) ti keys =
     (case alookup (ti_tag_to_keys ti) tag of
        None \<Rightarrow> collect_keys tags ti keys
      | Some ks \<Rightarrow> collect_keys tags ti (fold set_add ks keys))"

definition ti_invalidate_tags :: "string list \<Rightarrow> tag_index \<Rightarrow> string list \<times> tag_index" where
  "ti_invalidate_tags tags ti =
     (let keys = collect_keys tags ti [] in (keys, fold unregister keys ti))"

definition ti_invalidate_prefix :: "string \<Rightarrow> tag_index \<Rightarrow> string list \<times> tag_index" where
  "ti_invalidate_prefix prefix ti =
     (let keys = filter (\<lambda>k. starts_with k prefix) (map fst (ti_key_to_tags ti))
      in (keys, fold unregister keys ti))"

definition all_tags :: "tag_index \<Rightarrow> string list" where
  "all_tags ti = map fst (ti_tag_to_keys ti)"

definition all_keys :: "tag_index \<Rightarrow> string list" where
  "all_keys ti = map fst (ti_key_to_tags ti)"

definition ti_clear :: "tag_index \<Rightarrow> tag_index" where
  "ti_clear ti = ti_empty"

definition ti_stats :: "tag_index \<Rightarrow> cache_stats" where
  "ti_stats ti = \<lparr>st_size = length (ti_key_to_tags ti), st_tags = length (ti_tag_to_keys ti)\<rparr>"

subsection \<open>Abstraction and invariant\<close>

text \<open>
  What the index means is a relation between keys and tags. The invariant: both maps represent the
  same relation, no entry is empty, no set repeats an element.
\<close>

definition tagged :: "tag_index \<Rightarrow> string \<Rightarrow> string \<Rightarrow> bool" where
  "tagged ti key tag \<longleftrightarrow> tag \<in> set (set_at (ti_key_to_tags ti) key)"

definition sets_ok :: "(string, sset) amap \<Rightarrow> bool" where
  "sets_ok m \<longleftrightarrow> amap_ok m \<and> (\<forall>k s. alookup m k = Some s \<longrightarrow> distinct s \<and> s \<noteq> [])"

definition ti_inv :: "tag_index \<Rightarrow> bool" where
  "ti_inv ti \<longleftrightarrow> sets_ok (ti_tag_to_keys ti) \<and> sets_ok (ti_key_to_tags ti)
     \<and> (\<forall>key tag. key \<in> set (set_at (ti_tag_to_keys ti) tag) \<longleftrightarrow> tagged ti key tag)"

lemma set_set_add [simp]: "set (set_add x xs) = insert x (set xs)"
  by (auto simp: set_add_def)

lemma distinct_set_add [simp]: "distinct (set_add x xs) \<longleftrightarrow> distinct xs"
  by (auto simp: set_add_def)

lemma set_add_not_Nil [simp]: "set_add x xs \<noteq> []"
  by (auto simp: set_add_def)

lemma set_set_del [simp]: "set (set_del x xs) = set xs - {x}"
  by (auto simp: set_del_def)

lemma distinct_set_del [simp]: "distinct xs \<Longrightarrow> distinct (set_del x xs)"
  by (simp add: set_del_def)

lemma set_at_Nil [simp]: "set_at [] k = []"
  by (simp add: set_at_def)

lemma set_at_aput [simp]: "set_at (aput k s m) k' = (if k' = k then s else set_at m k')"
  by (simp add: set_at_def)

lemma set_at_adel [simp]: "set_at (adel k m) k' = (if k' = k then [] else set_at m k')"
  by (simp add: set_at_def)

lemma sets_ok_aput: "sets_ok m \<Longrightarrow> distinct s \<Longrightarrow> s \<noteq> [] \<Longrightarrow> sets_ok (aput k s m)"
  by (auto simp: sets_ok_def)

lemma sets_ok_adel: "sets_ok m \<Longrightarrow> sets_ok (adel k m)"
  by (auto simp: sets_ok_def)

lemma sets_ok_at: "sets_ok m \<Longrightarrow> distinct (set_at m k)"
  by (auto simp: sets_ok_def set_at_def split: option.splits)

lemma sets_ok_at_Nil: "sets_ok m \<Longrightarrow> set_at m k = [] \<longleftrightarrow> alookup m k = None"
  by (auto simp: sets_ok_def set_at_def split: option.splits)

lemma ti_inv_empty: "ti_inv ti_empty"
  by (simp add: ti_inv_def ti_empty_def sets_ok_def tagged_def)

text \<open>
  While \<open>register_key\<close> runs the entry of the key may be empty; everything else of the invariant
  holds. That is the loop invariant.
\<close>

definition reg_inv :: "string \<Rightarrow> tag_index \<Rightarrow> bool" where
  "reg_inv key ti \<longleftrightarrow> sets_ok (ti_tag_to_keys ti) \<and> amap_ok (ti_key_to_tags ti)
     \<and> (\<forall>k s. alookup (ti_key_to_tags ti) k = Some s \<longrightarrow> distinct s \<and> (k \<noteq> key \<longrightarrow> s \<noteq> []))
     \<and> (\<forall>k tag. k \<in> set (set_at (ti_tag_to_keys ti) tag) \<longleftrightarrow> tagged ti k tag)"

lemma reg_inv_distinct: "reg_inv key ti \<Longrightarrow> distinct (set_at (ti_key_to_tags ti) k)"
  by (auto simp: reg_inv_def set_at_def split: option.splits)

lemma register_loop_inv:
  "reg_inv key ti \<Longrightarrow> reg_inv key (register_loop key tags ti) \<and>
     (\<forall>k t. tagged (register_loop key tags ti) k t \<longleftrightarrow> tagged ti k t \<or> k = key \<and> t \<in> set tags - {[]})"
proof (induction key tags ti rule: register_loop.induct)
  case (1 key ti)
  then show ?case by simp
next
  case (2 key tag tags ti)
  show ?case
  proof (cases "tag = []")
    case True
    with 2 show ?thesis by auto
  next
    case False
    let ?ti = "ti\<lparr>ti_tag_to_keys := aput tag (set_add key (set_at (ti_tag_to_keys ti) tag)) (ti_tag_to_keys ti),
            ti_key_to_tags := aput key (set_add tag (set_at (ti_key_to_tags ti) key)) (ti_key_to_tags ti)\<rparr>"
    have "sets_ok (ti_tag_to_keys ?ti)"
      using 2(3) by (auto simp: reg_inv_def intro!: sets_ok_aput sets_ok_at)
    with reg_inv_distinct [OF 2(3)] 2(3) have "reg_inv key ?ti"
      by (auto simp: reg_inv_def tagged_def)
    with 2(2) [OF False] False show ?thesis by (auto simp: tagged_def)
  qed
qed

lemma reg_inv_close:
  assumes "reg_inv key ti" "set_at (ti_key_to_tags ti) key \<noteq> []"
  shows "ti_inv ti"
proof -
  have "s \<noteq> []" if "alookup (ti_key_to_tags ti) k = Some s" for k s
    using that assms by (cases "k = key") (auto simp: reg_inv_def set_at_def)
  with assms(1) show ?thesis by (auto simp: reg_inv_def ti_inv_def sets_ok_def)
qed

lemma reg_inv_drop:
  assumes "reg_inv key ti" "set_at (ti_key_to_tags ti) key = []"
  shows "ti_inv (ti\<lparr>ti_key_to_tags := adel key (ti_key_to_tags ti)\<rparr>)"
  using assms by (auto simp: reg_inv_def ti_inv_def sets_ok_def tagged_def)

lemma register_key_spec:
  assumes "ti_inv ti"
  shows "ti_inv (register_key key tags ti)"
    and "tagged (register_key key tags ti) k t \<longleftrightarrow> tagged ti k t \<or> k = key \<and> t \<in> set tags - {[]}"
proof -
  let ?ti1 = "ti\<lparr>ti_key_to_tags := aput key (set_at (ti_key_to_tags ti) key) (ti_key_to_tags ti)\<rparr>"
  let ?ti2 = "register_loop key tags ?ti1"
  have same: "tagged ?ti1 k t \<longleftrightarrow> tagged ti k t" for k t by (simp add: tagged_def)
  have "reg_inv key ?ti1"
    using assms sets_ok_at [of "ti_key_to_tags ti" key]
    by (auto simp: ti_inv_def reg_inv_def same) (auto simp: sets_ok_def)
  from register_loop_inv [OF this, of tags] same
  have inv2: "reg_inv key ?ti2"
    and rel2: "\<And>k t. tagged ?ti2 k t \<longleftrightarrow> tagged ti k t \<or> k = key \<and> t \<in> set tags - {[]}" by auto
  have drop: "tagged (?ti2\<lparr>ti_key_to_tags := adel key (ti_key_to_tags ?ti2)\<rparr>) k t \<longleftrightarrow> tagged ?ti2 k t"
    if "set_at (ti_key_to_tags ?ti2) key = []" for k t
    using that by (simp add: tagged_def)
  show "tagged (register_key key tags ti) k t \<longleftrightarrow> tagged ti k t \<or> k = key \<and> t \<in> set tags - {[]}"
    using rel2 drop by (simp add: register_key_def Let_def)
  show "ti_inv (register_key key tags ti)"
    using reg_inv_close [OF inv2] reg_inv_drop [OF inv2] by (simp add: register_key_def Let_def)
qed

lemma unregister_loop_spec:
  "sets_ok m \<Longrightarrow> sets_ok (unregister_loop key tags m) \<and>
     (\<forall>t k. k \<in> set (set_at (unregister_loop key tags m) t) \<longleftrightarrow>
        k \<in> set (set_at m t) \<and> \<not> (k = key \<and> t \<in> set tags))"
proof (induction key tags m rule: unregister_loop.induct)
  case (1 key m)
  then show ?case by simp
next
  case (2 key tag tags m)
  show ?case
  proof (cases "alookup m tag")
    case None
    with 2 show ?thesis by (auto simp: set_at_def)
  next
    case (Some ks)
    let ?m = "if set_del key ks = [] then adel tag m else aput tag (set_del key ks) m"
    have "distinct ks" using 2(3) Some by (auto simp: sets_ok_def)
    then have ok: "sets_ok ?m" using 2(3) by (auto intro: sets_ok_adel sets_ok_aput)
    have at: "set_at m tag = ks" using Some by (simp add: set_at_def)
    have "k \<in> set (set_at ?m t) \<longleftrightarrow> k \<in> set (set_at m t) \<and> \<not> (k = key \<and> t = tag)" for k t
    proof (cases "set_del key ks = []")
      case True
      then have "set ks \<subseteq> {key}" using set_set_del [of key ks] by (metis Diff_eq_empty_iff list.set(1))
      with True at show ?thesis by auto
    next
      case False
      with at show ?thesis by auto
    qed
    with 2(2) [OF Some refl ok] Some show ?thesis by (simp add: Let_def) blast
  qed
qed

lemma unregister_spec:
  assumes "ti_inv ti"
  shows "ti_inv (unregister key ti)"
    and "tagged (unregister key ti) k t \<longleftrightarrow> tagged ti k t \<and> k \<noteq> key"
proof -
  have none: "\<not> tagged ti key t" if "alookup (ti_key_to_tags ti) key = None" for t
    using that by (simp add: tagged_def set_at_def)
  show rel: "tagged (unregister key ti) k t \<longleftrightarrow> tagged ti k t \<and> k \<noteq> key" for k t
    using none by (auto simp: unregister_def tagged_def split: option.splits)
  show "ti_inv (unregister key ti)"
  proof (cases "alookup (ti_key_to_tags ti) key")
    case None
    with assms show ?thesis by (simp add: unregister_def)
  next
    case (Some tags)
    then have at: "set_at (ti_key_to_tags ti) key = tags" by (simp add: set_at_def)
    have ok: "sets_ok (ti_tag_to_keys ti)" "sets_ok (ti_key_to_tags ti)"
      using assms by (auto simp: ti_inv_def)
    from Some assms at unregister_loop_spec [OF ok(1), of key tags] sets_ok_adel [OF ok(2)] rel
    show ?thesis by (auto simp: ti_inv_def unregister_def tagged_def)
  qed
qed

lemma fold_unregister_spec:
  assumes "ti_inv ti"
  shows "ti_inv (fold unregister keys ti) \<and>
    (\<forall>k t. tagged (fold unregister keys ti) k t \<longleftrightarrow> tagged ti k t \<and> k \<notin> set keys)"
  using assms by (induction keys arbitrary: ti) (auto simp: unregister_spec)

lemma set_fold_add [simp]: "set (fold set_add ks xs) = set ks \<union> set xs"
  by (induction ks arbitrary: xs) auto

lemma collect_keys_spec:
  "ti_inv ti \<Longrightarrow> set (collect_keys tags ti keys) = set keys \<union> {k. \<exists>t \<in> set tags. tagged ti k t}"
proof (induction tags arbitrary: keys)
  case (Cons tag tags)
  have "k \<in> set (set_at (ti_tag_to_keys ti) tag) \<longleftrightarrow> tagged ti k tag" for k
    using Cons.prems by (simp add: ti_inv_def)
  with Cons show ?case by (auto simp: set_at_def split: option.splits)
qed simp

lemma ti_invalidate_tags_spec:
  assumes "ti_inv ti" "ti_invalidate_tags tags ti = (keys, ti')"
  shows "ti_inv ti'" "set keys = {k. \<exists>t \<in> set tags. tagged ti k t}"
    "tagged ti' k t \<longleftrightarrow> tagged ti k t \<and> k \<notin> set keys"
  using assms fold_unregister_spec [OF assms(1)] collect_keys_spec [OF assms(1), of tags "[]"]
  by (auto simp: ti_invalidate_tags_def Let_def)

lemma ti_invalidate_prefix_spec:
  assumes "ti_inv ti" "ti_invalidate_prefix p ti = (keys, ti')"
  shows "ti_inv ti'" "tagged ti' k t \<longleftrightarrow> tagged ti k t \<and> \<not> starts_with k p"
proof -
  have key: "k \<in> set (all_keys ti)" if "tagged ti k t" for k t
    using that alookup_None_iff [of "ti_key_to_tags ti" k]
    by (auto simp: tagged_def set_at_def all_keys_def split: option.splits)
  show "ti_inv ti'" "tagged ti' k t \<longleftrightarrow> tagged ti k t \<and> \<not> starts_with k p"
    using assms fold_unregister_spec [OF assms(1)] key
    by (auto simp: ti_invalidate_prefix_def Let_def all_keys_def)
qed

subsection \<open>Refinement of the tag relation\<close>

text \<open>
  Abstractly the index is a set of (key, tag) pairs. A sequence of operations on the two maps
  represents the same sequence on the set.
\<close>

datatype ti_op =
    Register string "string list"
  | Unregister string
  | InvalidateTags "string list"
  | InvalidatePrefix string
  | Clear

fun ti_step :: "ti_op \<Rightarrow> tag_index \<Rightarrow> tag_index" where
  "ti_step (Register key tags) ti = register_key key tags ti"
| "ti_step (Unregister key) ti = unregister key ti"
| "ti_step (InvalidateTags tags) ti = snd (ti_invalidate_tags tags ti)"
| "ti_step (InvalidatePrefix p) ti = snd (ti_invalidate_prefix p ti)"
| "ti_step Clear ti = ti_clear ti"

type_synonym tag_rel = "(string \<times> string) set"

fun rel_step :: "ti_op \<Rightarrow> tag_rel \<Rightarrow> tag_rel" where
  "rel_step (Register key tags) R = R \<union> {(key, t) | t. t \<in> set tags \<and> t \<noteq> []}"
| "rel_step (Unregister key) R = {(k, t) \<in> R. k \<noteq> key}"
| "rel_step (InvalidateTags tags) R = {(k, t) \<in> R. \<forall>t' \<in> set tags. (k, t') \<notin> R}"
| "rel_step (InvalidatePrefix p) R = {(k, t) \<in> R. \<not> starts_with k p}"
| "rel_step Clear R = {}"

definition tag_relation :: "tag_index \<Rightarrow> tag_rel" where
  "tag_relation ti = {(k, t). tagged ti k t}"

lemma ti_step_refines:
  assumes "ti_inv ti"
  shows "ti_inv (ti_step op ti) \<and> tag_relation (ti_step op ti) = rel_step op (tag_relation ti)"
proof (cases op)
  case (Register key tags)
  with register_key_spec [OF assms] show ?thesis by (auto simp: tag_relation_def)
next
  case (Unregister key)
  with unregister_spec [OF assms] show ?thesis by (auto simp: tag_relation_def)
next
  case (InvalidateTags tags)
  obtain keys ti' where r: "ti_invalidate_tags tags ti = (keys, ti')" by fastforce
  with InvalidateTags ti_invalidate_tags_spec [OF assms r] show ?thesis
    by (auto simp: tag_relation_def)
next
  case (InvalidatePrefix p)
  obtain keys ti' where r: "ti_invalidate_prefix p ti = (keys, ti')" by fastforce
  with InvalidatePrefix ti_invalidate_prefix_spec [OF assms r] show ?thesis
    by (auto simp: tag_relation_def)
next
  case Clear
  then show ?thesis by (simp add: ti_clear_def ti_inv_empty) (simp add: tag_relation_def tagged_def ti_empty_def)
qed

text \<open>
  C29. The two maps of the tag index stay inverse to each other and represent the abstract tag
  relation: after any sequence of registrations, removals and invalidations on a new index, the
  represented relation is the one the same sequence gives on sets of pairs, a key is listed under a
  tag exactly when the tag is listed under the key, and no empty set is kept.
\<close>

theorem tag_index_refines_relation:
  "tag_relation (fold ti_step ops ti_empty) = fold rel_step ops {}
   \<and> (\<forall>k t. k \<in> set (keys_by_tag (fold ti_step ops ti_empty) t) \<longleftrightarrow> t \<in> set (tags_by_key (fold ti_step ops ti_empty) k))
   \<and> ti_inv (fold ti_step ops ti_empty)"
proof -
  have "ti_inv ti \<Longrightarrow> ti_inv (fold ti_step ops ti) \<and>
      tag_relation (fold ti_step ops ti) = fold rel_step ops (tag_relation ti)" for ti
    by (induction ops arbitrary: ti) (auto simp: ti_step_refines)
  from this [OF ti_inv_empty] show ?thesis
    by (auto simp: ti_inv_def keys_by_tag_def tags_by_key_def tagged_def tag_relation_def ti_empty_def)
qed

end
