(* ===== verification/Cache_Memory.thy ===== *)
theory Cache_Memory
  imports Cache_Provider Tag_Index
begin

section \<open>The in-memory cache (include/metal/cache_memory.hpp)\<close>

text \<open>
  \<open>MemoryCacheAdapter\<close>: a map from keys to entries with an optional expiry time, and a tag index.
  Each method is a sequence of critical sections; run by one thread it is the function here.
  Time is a count of milliseconds of the steady clock.
\<close>

record cache_entry =
  ce_value :: query_result
  ce_expires_at :: "int option"

record memory_cache =
  mc_storage :: "(string, cache_entry) amap"
  mc_tag_index :: tag_index

definition mc_new :: memory_cache where
  "mc_new = \<lparr>mc_storage = [], mc_tag_index = ti_empty\<rparr>"

definition entry_expired :: "int \<Rightarrow> cache_entry \<Rightarrow> bool" where
  "entry_expired now e = (case ce_expires_at e of None \<Rightarrow> False | Some t \<Rightarrow> now > t)"

definition mc_get :: "int \<Rightarrow> string \<Rightarrow> memory_cache \<Rightarrow> query_result option \<times> memory_cache" where
  "mc_get now key s =
     (case alookup (mc_storage s) key of
        None \<Rightarrow> (None, s)
      | Some e \<Rightarrow>
          if entry_expired now e
          then (None, s\<lparr>mc_storage := adel key (mc_storage s), mc_tag_index := unregister key (mc_tag_index s)\<rparr>)
          else (Some (ce_value e), s))"

definition mc_has :: "int \<Rightarrow> string \<Rightarrow> memory_cache \<Rightarrow> bool \<times> memory_cache" where
  "mc_has now key s = (let (v, s') = mc_get now key s in (v \<noteq> None, s'))"

definition mc_set :: "int \<Rightarrow> string \<Rightarrow> query_result \<Rightarrow> int option \<Rightarrow> memory_cache \<Rightarrow> memory_cache" where
  "mc_set now key v ttl s =
     s\<lparr>mc_storage := aput key
        \<lparr>ce_value = v,
         ce_expires_at = (case ttl of None \<Rightarrow> None | Some d \<Rightarrow> if d \<noteq> 0 then Some (now + d) else None)\<rparr>
        (mc_storage s)\<rparr>"

definition mc_delete_key :: "string \<Rightarrow> memory_cache \<Rightarrow> memory_cache" where
  "mc_delete_key key s =
     s\<lparr>mc_storage := adel key (mc_storage s), mc_tag_index := unregister key (mc_tag_index s)\<rparr>"

definition mc_invalidate_tags :: "string list \<Rightarrow> memory_cache \<Rightarrow> memory_cache" where
  "mc_invalidate_tags tags s =
     (let (keys, ti) = ti_invalidate_tags tags (mc_tag_index s)
      in s\<lparr>mc_tag_index := ti, mc_storage := fold adel keys (mc_storage s)\<rparr>)"

definition mc_invalidate_prefix :: "string \<Rightarrow> memory_cache \<Rightarrow> memory_cache" where
  "mc_invalidate_prefix prefix s =
     fold mc_delete_key (filter (\<lambda>k. starts_with k prefix) (map fst (mc_storage s))) s"

definition mc_register_tags :: "string \<Rightarrow> string list \<Rightarrow> memory_cache \<Rightarrow> memory_cache" where
  "mc_register_tags key tags s = s\<lparr>mc_tag_index := register_key key tags (mc_tag_index s)\<rparr>"

definition mc_clear :: "memory_cache \<Rightarrow> memory_cache" where
  "mc_clear s = s\<lparr>mc_storage := [], mc_tag_index := ti_clear (mc_tag_index s)\<rparr>"

definition mc_stats :: "memory_cache \<Rightarrow> cache_stats" where
  "mc_stats s = \<lparr>st_size = length (mc_storage s), st_tags = st_tags (ti_stats (mc_tag_index s))\<rparr>"

text \<open>The virtual methods; none of them throws.\<close>

definition memory_ops :: "memory_cache cache_ops" where
  "memory_ops = \<lparr>
     cop_get = (\<lambda>now k s. map_prod Inr id (mc_get now k s)),
     cop_set = (\<lambda>now k v ttl s. (Inr (), mc_set now k v ttl s)),
     cop_invalidate = (\<lambda>k s. (Inr (), mc_delete_key k s)),
     cop_invalidate_tags = (\<lambda>ts s. (Inr (), mc_invalidate_tags ts s)),
     cop_invalidate_prefix = (\<lambda>p s. (Inr (), mc_invalidate_prefix p s)),
     cop_register_tags = Some (\<lambda>k ts s. (Inr (), mc_register_tags k ts s))\<rparr>"

subsection \<open>The contract\<close>

definition mc_inv :: "memory_cache \<Rightarrow> bool" where
  "mc_inv s \<longleftrightarrow> amap_ok (mc_storage s) \<and> ti_inv (mc_tag_index s)"

definition mc_live :: "int \<Rightarrow> memory_cache \<Rightarrow> string \<Rightarrow> query_result option" where
  "mc_live now s k =
     (case alookup (mc_storage s) k of
        None \<Rightarrow> None
      | Some e \<Rightarrow> if entry_expired now e then None else Some (ce_value e))"

definition mc_tagged :: "memory_cache \<Rightarrow> string \<Rightarrow> string \<Rightarrow> bool" where
  "mc_tagged s = tagged (mc_tag_index s)"

lemmas mc_defs = mc_get_def mc_set_def mc_delete_key_def mc_register_tags_def mc_live_def mc_inv_def mc_tagged_def

lemma memory_ops_simps [simp]:
  "cop_get memory_ops now k s = map_prod Inr id (mc_get now k s)"
  "cop_set memory_ops now k v ttl s = (Inr (), mc_set now k v ttl s)"
  "cop_invalidate memory_ops k s = (Inr (), mc_delete_key k s)"
  "cop_invalidate_tags memory_ops ts s = (Inr (), mc_invalidate_tags ts s)"
  "cop_invalidate_prefix memory_ops p s = (Inr (), mc_invalidate_prefix p s)"
  "cop_register_tags memory_ops = Some (\<lambda>k ts s. (Inr (), mc_register_tags k ts s))"
  by (simp_all add: memory_ops_def)

lemma alookup_fold_adel [simp]: "alookup (fold adel ks m) k = (if k \<in> set ks then None else alookup m k)"
  by (induction ks arbitrary: m) auto

lemma amap_ok_fold_adel: "amap_ok m \<Longrightarrow> amap_ok (fold adel ks m)"
  by (induction ks arbitrary: m) auto

lemma mc_invalidate_tags_spec:
  assumes "mc_inv s"
  shows "mc_inv (mc_invalidate_tags ts s)"
    and "mc_live now (mc_invalidate_tags ts s) k = (if \<exists>t \<in> set ts. mc_tagged s k t then None else mc_live now s k)"
proof -
  obtain keys ti where r: "ti_invalidate_tags ts (mc_tag_index s) = (keys, ti)" by fastforce
  have "ti_inv (mc_tag_index s)" using assms by (simp add: mc_inv_def)
  note spec = ti_invalidate_tags_spec [OF this r]
  show "mc_inv (mc_invalidate_tags ts s)"
    using assms spec(1) by (simp add: mc_inv_def mc_invalidate_tags_def r amap_ok_fold_adel)
  show "mc_live now (mc_invalidate_tags ts s) k = (if \<exists>t \<in> set ts. mc_tagged s k t then None else mc_live now s k)"
    using spec(2) by (auto simp: mc_live_def mc_invalidate_tags_def r mc_tagged_def)
qed

lemma mc_delete_all:
  "mc_inv s \<Longrightarrow> mc_inv (fold mc_delete_key ks s) \<and>
     alookup (mc_storage (fold mc_delete_key ks s)) k = (if k \<in> set ks then None else alookup (mc_storage s) k)"
  by (induction ks arbitrary: s) (auto simp: mc_inv_def mc_delete_key_def unregister_spec)

lemma mc_invalidate_prefix_spec:
  assumes "mc_inv s"
  shows "mc_inv (mc_invalidate_prefix p s)"
    and "mc_live now (mc_invalidate_prefix p s) k = (if starts_with k p then None else mc_live now s k)"
  using mc_delete_all [OF assms] alookup_None_iff [of "mc_storage s" k]
  by (auto simp: mc_invalidate_prefix_def mc_live_def)

interpretation mem: tag_cache_provider memory_ops mc_inv mc_live "\<lambda>v. v" "\<lambda>_. True"
  "\<lambda>k ts s. (Inr (), mc_register_tags k ts s)" mc_tagged "\<lambda>_. True"
proof unfold_locales
  fix s now k v assume "mc_inv s" "fst (cop_get memory_ops now k s) = Inr v"
  then show "v = mc_live now s k"
    by (auto simp: mc_get_def mc_live_def split: option.splits if_splits)
next
  fix s k and now now' :: int and k' assume "mc_inv s" "now \<le> now'"
  then show "mc_live now' (snd (cop_get memory_ops now k s)) k' = mc_live now' s k'"
    by (auto simp: mc_get_def mc_live_def entry_expired_def split: option.splits)
qed (auto simp: mc_defs unregister_spec register_key_spec ttl_alive_def ttl_dead_def entry_expired_def
    mc_invalidate_tags_spec [unfolded mc_defs] mc_invalidate_tags_spec split: option.splits if_splits)

interpretation mem_expiring: expiring_cache_provider memory_ops mc_inv mc_live "\<lambda>v. v" "\<lambda>_. True"
  by unfold_locales (auto simp: mc_defs ttl_dead_def entry_expired_def split: option.splits)

end
