(* ===== verification/Cache_Manager.thy ===== *)
theory Cache_Manager
  imports Cache_Memory
begin

section \<open>The query cache (include/metal/cache_strategy.hpp, query_cache_manager.hpp, cache_session.hpp)\<close>

text \<open>
  \<open>DefaultCacheStrategy\<close> derives the key of an entry and decides whether a result is cached;
  \<open>QueryCacheManager::get_or_execute\<close> reads the cache and, on a miss, runs the query and stores the
  result. The query (\<open>exec\<close>) is a callback over a world \<open>'w\<close> of its own, for instance the database; it
  does not touch the cache. The clock is read by the provider at the lookup (\<open>t0\<close>) and at the store
  (\<open>t1\<close>).
\<close>

definition tenant_text :: "tenant \<Rightarrow> string" where
  "tenant_text t = (case t of TenantInt i \<Rightarrow> show_int (sint i) | TenantStr s \<Rightarrow> s)"

definition generate_key :: "string \<Rightarrow> tenant option \<Rightarrow> string" where
  "generate_key query_key tenant =
     (case tenant of None \<Rightarrow> query_key | Some t \<Rightarrow> ''tenant:'' @ tenant_text t @ '':'' @ query_key)"

definition should_cache :: "query_result \<Rightarrow> cache_options \<Rightarrow> bool" where
  "should_cache result opts = (case co_condition opts of None \<Rightarrow> True | Some c \<Rightarrow> c result)"

record 's cache_manager =
  cm_provider :: "'s cache_ops"
  cm_default_ttl :: int

definition effective_ttl :: "'s cache_manager \<Rightarrow> cache_options \<Rightarrow> int" where
  "effective_ttl m opts = (case co_ttl opts of None \<Rightarrow> cm_default_ttl m | Some d \<Rightarrow> d)"

definition cm_register_tags ::
  "'s cache_manager \<Rightarrow> string \<Rightarrow> string list \<Rightarrow> 's \<Rightarrow> unit result \<times> 's" where
  "cm_register_tags m key tags s =
     (case cop_register_tags (cm_provider m) of None \<Rightarrow> (Inr (), s) | Some r \<Rightarrow> r key tags s)"

definition get_or_execute ::
  "'s cache_manager \<Rightarrow> cache_options \<Rightarrow> ('w \<Rightarrow> query_result result \<times> 'w) option \<Rightarrow> tenant option
     \<Rightarrow> int \<Rightarrow> int \<Rightarrow> 's \<Rightarrow> 'w \<Rightarrow> query_result result \<times> 's \<times> 'w" where
  "get_or_execute m opts exec tenant t0 t1 s w =
     (if co_key opts = [] then (Inl (Invalid_argument ''MetalORM: cache key cannot be empty''), s, w)
      else case exec of
        None \<Rightarrow> (Inl (Invalid_argument ''MetalORM: cached query executor cannot be empty''), s, w)
      | Some f \<Rightarrow>
          let key = generate_key (co_key opts) tenant; ttl = effective_ttl m opts
          in case cop_get (cm_provider m) t0 key s of
               (Inl e, s1) \<Rightarrow> (Inl e, s1, w)
             | (Inr (Some v), s1) \<Rightarrow> (Inr v, s1, w)
             | (Inr None, s1) \<Rightarrow>
                 (case f w of
                    (Inl e, w1) \<Rightarrow> (Inl e, s1, w1)
                  | (Inr r, w1) \<Rightarrow>
                      if \<not> should_cache r opts then (Inr r, s1, w1)
                      else case cop_set (cm_provider m) t1 key r (Some ttl) s1 of
                             (Inl e, s2) \<Rightarrow> (Inl e, s2, w1)
                           | (Inr _, s2) \<Rightarrow>
                               if co_tags opts = [] then (Inr r, s2, w1)
                               else case cm_register_tags m key (co_tags opts) s2 of
                                      (Inl e, s3) \<Rightarrow> (Inl e, s3, w1)
                                    | (Inr _, s3) \<Rightarrow> (Inr r, s3, w1)))"

definition cm_invalidate_key :: "'s cache_manager \<Rightarrow> string \<Rightarrow> tenant option \<Rightarrow> 's \<Rightarrow> unit result \<times> 's" where
  "cm_invalidate_key m key tenant s = cop_invalidate (cm_provider m) (generate_key key tenant) s"

definition cm_invalidate_tags :: "'s cache_manager \<Rightarrow> string list \<Rightarrow> 's \<Rightarrow> unit result \<times> 's" where
  "cm_invalidate_tags m tags s = cop_invalidate_tags (cm_provider m) tags s"

definition cm_invalidate_prefix :: "'s cache_manager \<Rightarrow> string \<Rightarrow> 's \<Rightarrow> unit result \<times> 's" where
  "cm_invalidate_prefix m prefix s = cop_invalidate_prefix (cm_provider m) prefix s"

text \<open>
  \<open>CacheSession::execute_rows\<close>: the tenant of the cached query wins over the tenant of the session;
  invalidation by key uses the tenant of the session only.
\<close>

definition cached_tenant :: "tenant option \<Rightarrow> tenant option \<Rightarrow> tenant option" where
  "cached_tenant query_tenant session_tenant =
     (case query_tenant of Some t \<Rightarrow> Some t | None \<Rightarrow> session_tenant)"

definition session_execute_rows ::
  "'s cache_manager \<Rightarrow> cache_options \<Rightarrow> ('w \<Rightarrow> query_result result \<times> 'w) \<Rightarrow> tenant option \<Rightarrow> tenant option
     \<Rightarrow> int \<Rightarrow> int \<Rightarrow> 's \<Rightarrow> 'w \<Rightarrow> row list result \<times> 's \<times> 'w" where
  "session_execute_rows m opts exec query_tenant session_tenant t0 t1 s w =
     (case get_or_execute m opts (Some exec) (cached_tenant query_tenant session_tenant) t0 t1 s w of
        (r, s', w') \<Rightarrow> (rbind r (\<lambda>q. Inr (qr_rows q)), s', w'))"

definition session_invalidate_key ::
  "'s cache_manager \<Rightarrow> tenant option \<Rightarrow> string \<Rightarrow> 's \<Rightarrow> unit result \<times> 's" where
  "session_invalidate_key m session_tenant key s = cm_invalidate_key m key session_tenant s"

subsection \<open>Keys and tenants\<close>

lemma show_int_no_colon: "CHR '':'' \<notin> set (show_int i)"
proof
  have nodigit: "CHR '':'' \<notin> set (show_nat n)" for n
  proof
    assume "CHR '':'' \<in> set (show_nat n)"
    then obtain d where "d < 10" "CHR '':'' = digit_char d" by (blast dest: show_nat_digits)
    then have "(of_char (CHR '':'') :: nat) = 48 + d" by simp
    with \<open>d < 10\<close> show False by simp
  qed
  assume "CHR '':'' \<in> set (show_int i)"
  with nodigit show False by (auto simp: show_int_def split: if_splits)
qed

lemma split_at_colon:
  assumes "CHR '':'' \<notin> set a" "CHR '':'' \<notin> set b" "a @ CHR '':'' # x = b @ CHR '':'' # y"
  shows "a = b \<and> x = y"
  using assms
proof (induction a arbitrary: b)
  case Nil
  then show ?case by (cases b) auto
next
  case (Cons c a)
  then show ?case by (cases b) auto
qed

subsection \<open>The manager over any provider\<close>

text \<open>Proved once against the interface; the interpretations give it for each provider.\<close>

context cache_provider
begin

lemma run_get:
  assumes "inv s" "cop_get P t k s = (Inr r, s')"
  shows "r = live t s k" "inv s'" "\<And>t' k'. t \<le> t' \<Longrightarrow> live t' s' k' = live t' s k'"
  using get_value [OF assms(1), of t k] get_inv [OF assms(1), of t k] get_frame [OF assms(1), of t _ k] assms(2)
  by simp_all

lemma hit_runs_nothing:
  assumes "inv s" "cm_provider m = P" "live t0 s (generate_key (co_key opts) tenant) = Some v"
    and "get_or_execute m opts (Some f) tenant t0 t1 s w = (Inr r, s', w')"
  shows "r = v" "w' = w"
  using assms run_get(1) [OF assms(1)]
  by (auto simp: get_or_execute_def Let_def split: if_splits prod.splits sum.splits option.splits)

lemma miss_runs_query:
  assumes "inv s" "cm_provider m = P" "live t0 s (generate_key (co_key opts) tenant) = None"
    and "get_or_execute m opts (Some f) tenant t0 t1 s w = (Inr r, s', w')"
  shows "f w = (Inr r, w')"
  using assms run_get(1) [OF assms(1)]
  by (auto simp: get_or_execute_def Let_def split: if_splits prod.splits sum.splits option.splits)

lemma failed_query_caches_nothing:
  assumes "inv s" "cm_provider m = P" "live t0 s (generate_key (co_key opts) tenant) = None"
    and "f w = (Inl e, w1)"
    and "get_or_execute m opts (Some f) tenant t0 t1 s w = (r, s', w')"
  shows "(\<exists>e. r = Inl e) \<and> inv s' \<and> (\<forall>t k. t0 \<le> t \<longrightarrow> live t s' k = live t s k)"
proof -
  let ?k = "generate_key (co_key opts) tenant"
  obtain g s1 where g: "cop_get P t0 ?k s = (g, s1)" by fastforce
  have s1: "inv s1" "\<And>t k. t0 \<le> t \<Longrightarrow> live t s1 k = live t s k"
    using get_inv [OF assms(1), of t0 ?k] get_frame [OF assms(1)] g by (metis snd_conv)+
  have "v = None" if "g = Inr v" for v
    using run_get(1) [OF assms(1)] g that assms(3) by simp
  with s1 g assms show ?thesis
    by (auto simp: get_or_execute_def Let_def split: if_splits sum.splits option.splits)
qed

end

context tag_cache_provider
begin

lemma store_step:
  assumes "inv s" "cm_provider m = P" "live t0 s (generate_key (co_key opts) tenant) = None"
    and "get_or_execute m opts (Some f) tenant t0 t1 s w = (Inr r, s', w')"
    and "should_cache r opts" "fits r" "t0 \<le> t1" "ordinary (generate_key (co_key opts) tenant)"
  shows "inv s'"
    and "t1 \<le> t \<Longrightarrow> ttl_alive (Some (effective_ttl m opts)) t1 t \<Longrightarrow>
       live t s' (generate_key (co_key opts) tenant) = Some (stored r)"
    and "tg \<in> set (co_tags opts) \<Longrightarrow> tg \<noteq> [] \<Longrightarrow> is_tagged s' (generate_key (co_key opts) tenant) tg"
proof -
  let ?k = "generate_key (co_key opts) tenant" and ?ttl = "Some (effective_ttl m opts)"
  obtain s1 where g: "cop_get P t0 ?k s = (Inr None, s1)"
    using assms(2-4) run_get(1) [OF assms(1)]
    by (auto simp: get_or_execute_def Let_def split: if_splits prod.splits sum.splits option.splits)
  have f: "f w = (Inr r, w')" by (rule miss_runs_query [OF assms(1-4)])
  obtain s2 where st: "cop_set P t1 ?k r ?ttl s1 = (Inr (), s2)"
    and rest: "(if co_tags opts = [] then (Inr r, s2, w')
       else case cm_register_tags m ?k (co_tags opts) s2 of
          (Inl e, s3) \<Rightarrow> (Inl e, s3, w') | (Inr _, s3) \<Rightarrow> (Inr r, s3, w')) = (Inr r, s', w')"
    using assms(2,4,5) g f
    by (auto simp: get_or_execute_def Let_def split: if_splits prod.splits sum.splits option.splits)
  have s1: "inv s1" using get_inv [OF assms(1), of t0 ?k] g by simp
  have s2: "inv s2" using set_inv [OF s1 assms(6), of t1 ?k ?ttl] st by simp
  have alive: "live t s2 ?k = Some (stored r)" if "t1 \<le> t" "ttl_alive ?ttl t1 t"
    using set_alive [OF s1 assms(6) _ that, of ?k] st by simp
  have reg: "cm_register_tags m ?k ts s2 = reg ?k ts s2" for ts
    using assms(2) reg_def by (simp add: cm_register_tags_def)
  have tail: "s' = s2 \<and> co_tags opts = [] \<or> reg ?k (co_tags opts) s2 = (Inr (), s')"
    using rest by (auto simp: reg split: if_splits prod.splits sum.splits)
  then show "inv s'" using s2 reg_inv [OF s2, of ?k "co_tags opts"] by auto
  show "live t s' ?k = Some (stored r)" if "t1 \<le> t" "ttl_alive ?ttl t1 t"
    using tail alive [OF that] reg_frame [OF s2 assms(8), of t ?k "co_tags opts"] by auto
  show "is_tagged s' ?k tg" if "tg \<in> set (co_tags opts)" "tg \<noteq> []"
    using tail reg_adds [OF s2 _ that, of ?k] that by auto
qed

lemma read_your_writes:
  assumes "inv s" "cm_provider m = P" "live t0 s (generate_key (co_key opts) tenant) = None"
    and "get_or_execute m opts (Some f) tenant t0 t1 s w = (Inr r, s', w')"
    and "should_cache r opts" "fits r" "t0 \<le> t1" "ordinary (generate_key (co_key opts) tenant)"
    and "t1 \<le> t" "ttl_alive (Some (effective_ttl m opts)) t1 t"
    and "co_key opts' = co_key opts"
    and "get_or_execute m opts' (Some f') tenant t t' s' v = (Inr r2, s'', v')"
  shows "r2 = stored r" "v' = v"
  using hit_runs_nothing [OF store_step(1) [OF assms(1-8)] assms(2) _ assms(12)]
    store_step(2) [OF assms(1-10)] assms(11) by simp_all

lemma invalidation_forces_query:
  assumes "inv s" "cm_provider m = P" "is_tagged s (generate_key (co_key opts) tenant) tg"
    and "tg \<in> set tags" "tg \<noteq> []" "cm_invalidate_tags m tags s = (Inr (), s')"
    and "get_or_execute m opts (Some f) tenant t0 t1 s' w = (Inr r, s'', w')"
  shows "f w = (Inr r, w')"
proof (rule miss_runs_query [OF _ assms(2) _ assms(7)])
  have i: "cop_invalidate_tags P tags s = (Inr (), s')" using assms(2,6) by (simp add: cm_invalidate_tags_def)
  show "inv s'" using invtags_inv [OF assms(1), of tags] i by simp
  show "live t0 s' (generate_key (co_key opts) tenant) = None"
    using invtags_gone [OF assms(1) _ assms(4,5,3), of t0] i by simp
qed

end

subsection \<open>Properties of the manager over the memory cache\<close>

lemma memory_run:
  assumes "cm_provider m = memory_ops" "co_key opts \<noteq> []" "f w = (Inr r, w1)"
  shows "\<exists>x s' w'. get_or_execute m opts (Some f) tenant t0 t1 s w = (Inr x, s', w')"
proof -
  obtain g s1 where "mc_get t0 (generate_key (co_key opts) tenant) s = (g, s1)" by fastforce
  with assms show ?thesis by (cases g) (simp_all add: get_or_execute_def Let_def cm_register_tags_def)
qed

definition sample_manager :: "memory_cache cache_manager" where
  "sample_manager = \<lparr>cm_provider = memory_ops, cm_default_ttl = 3600000\<rparr>"

definition sample_options :: cache_options where
  "sample_options = \<lparr>co_key = ''users'', co_ttl = Some 1000, co_tags = [''user''], co_auto_invalidate = False, co_condition = None\<rparr>"

lemma mc_inv_new [simp]: "mc_inv mc_new"
  by (simp add: mc_inv_def mc_new_def ti_inv_empty)

lemma mc_live_new [simp]: "mc_live t mc_new k = None"
  by (simp add: mc_live_def mc_new_def)



text \<open>
  C25. Tag invalidation is never stale: an entry registered under a tag is not served after that tag
  has been invalidated; the next lookup runs its query and returns the fresh result.
\<close>

theorem tag_invalidation_runs_query:
  assumes "mc_inv s" "cm_provider m = memory_ops" "co_key opts \<noteq> []"
    and "mc_tagged s (generate_key (co_key opts) tenant) tg" "tg \<in> set tags" "tg \<noteq> []"
    and "cm_invalidate_tags m tags s = (Inr (), s')" "f w = (Inr r, w1)"
  shows "\<exists>s''. get_or_execute m opts (Some f) tenant t0 t1 s' w = (Inr r, s'', w1)"
proof -
  obtain x s'' w' where a: "get_or_execute m opts (Some f) tenant t0 t1 s' w = (Inr x, s'', w')"
    using memory_run [where f = f, OF assms(2,3,8)] by blast
  from mem.invalidation_forces_query [OF assms(1,2,4-7) a] assms(8) a show ?thesis by simp
qed

definition tagged_cache :: memory_cache where
  "tagged_cache = mc_register_tags ''users'' [''user''] (mc_set 0 ''users'' sample_result None mc_new)"

theorem tag_invalidation_runs_query_witness:
  "\<exists>s''. get_or_execute sample_manager sample_options (Some (\<lambda>n. (Inr sample_result, n + 1))) None 9 9
      (mc_invalidate_tags [''user''] tagged_cache) (0::nat) = (Inr sample_result, s'', 1)"
proof (rule tag_invalidation_runs_query [where tg = "''user''" and tags = "[''user'']" and s = tagged_cache])
  show "mc_inv tagged_cache"
    using register_key_spec(1) [OF ti_inv_empty, of "''users''" "[''user'']"]
    by (simp add: tagged_cache_def mc_inv_def mc_register_tags_def mc_set_def mc_new_def)
  show "mc_tagged tagged_cache (generate_key (co_key sample_options) None) ''user''"
    using register_key_spec(2) [OF ti_inv_empty, of "''users''" "[''user'']"]
    by (simp add: tagged_cache_def mc_tagged_def mc_register_tags_def mc_set_def mc_new_def
        generate_key_def sample_options_def)
qed (simp_all add: sample_manager_def sample_options_def cm_invalidate_tags_def)

text \<open>
  A failing query caches nothing: on a miss, an exception of the query is the outcome of
  \<open>get_or_execute\<close>, and no later read of the cache is changed by it.
\<close>

theorem failing_query_caches_nothing:
  assumes "mc_inv s" "cm_provider m = memory_ops" "co_key opts \<noteq> []"
    and "mc_live t0 s (generate_key (co_key opts) tenant) = None" "f w = (Inl e, w1)"
  shows "\<exists>s'. get_or_execute m opts (Some f) tenant t0 t1 s w = (Inl e, s', w1)
     \<and> mc_inv s' \<and> (\<forall>t k. t0 \<le> t \<longrightarrow> mc_live t s' k = mc_live t s k)"
proof -
  obtain r s' w' where run: "get_or_execute m opts (Some f) tenant t0 t1 s w = (r, s', w')" by (metis prod_cases3)
  note c = mem.failed_query_caches_nothing [OF assms(1,2,4,5) run]
  obtain s1 where "mc_get t0 (generate_key (co_key opts) tenant) s = (None, s1)"
    using assms(4) by (auto simp: mc_get_def mc_live_def split: option.splits if_splits)
  with run assms(2,3,5) have "r = Inl e \<and> w' = w1"
    by (simp add: get_or_execute_def Let_def)
  with c run show ?thesis by blast
qed

theorem failing_query_caches_nothing_witness:
  "\<exists>s'. get_or_execute sample_manager sample_options (Some (\<lambda>n::nat. (Inl (Backend_failure ''down''), n))) None 0 0 mc_new 3
       = (Inl (Backend_failure ''down''), s', 3)
     \<and> mc_inv s' \<and> (\<forall>t k. 0 \<le> t \<longrightarrow> mc_live t s' k = mc_live t mc_new k)"
  by (rule failing_query_caches_nothing)
    (simp_all add: sample_manager_def sample_options_def)

text \<open>
  Tenant isolation: for tenants whose text has no colon (every numeric tenant is one), two
  cache keys are equal exactly when the tenant texts and the query keys are.
\<close>

theorem tenant_keys_disjoint:
  assumes "CHR '':'' \<notin> set (tenant_text t1)" "CHR '':'' \<notin> set (tenant_text t2)"
  shows "generate_key k1 (Some t1) = generate_key k2 (Some t2) \<longleftrightarrow> tenant_text t1 = tenant_text t2 \<and> k1 = k2"
  using split_at_colon [OF assms, of k1 k2] by (auto simp: generate_key_def)

theorem tenant_keys_disjoint_witness:
  "generate_key ''users'' (Some (TenantInt 1)) \<noteq> generate_key ''users'' (Some (TenantStr ''acme''))"
proof -
  have "tenant_text (TenantInt 1) = [digit_char 1]" by (simp add: tenant_text_def show_int_def show_nat.simps)
  moreover have "digit_char 1 \<noteq> CHR '':''" by (rule digit_char_neq) simp_all
  ultimately show ?thesis
    using tenant_keys_disjoint [of "TenantInt 1" "TenantStr ''acme''" "''users''" "''users''"]
    by (auto simp: tenant_text_def)
qed

text \<open>
  Tenants with a colon, and a number against its text, are not isolated: distinct tenants share
  cache entries, and a key without tenant can name the entry of a tenant.
\<close>

theorem tenant_keys_collide:
  "generate_key ''b:k'' (Some (TenantStr ''a'')) = generate_key ''k'' (Some (TenantStr ''a:b''))
   \<and> generate_key k (Some (TenantInt i)) = generate_key k (Some (TenantStr (show_int (sint i))))
   \<and> generate_key (''tenant:'' @ tenant_text t @ '':'' @ k) None = generate_key k (Some t)"
  by (simp add: generate_key_def tenant_text_def)

end
