(* ===== verification/Cache_Remote.thy ===== *)
theory Cache_Remote
  imports Cache_Codec Cache_Manager
begin

section \<open>The remote cache adapters (include/metal/cache_remote.hpp)\<close>

text \<open>
  \<open>KeyValueBackend\<close> and \<open>RedisBackend\<close> are abstract classes for a store outside the library: their
  virtual methods are the records \<open>kv_ops\<close> and \<open>redis_ops\<close> over the store's state, arguments of
  the adapters below. Any of them may throw. What the adapters rely on is stated in the locales
  \<open>kv_backend\<close> and \<open>redis_backend\<close>; the store of the repository's own test program is an instance.
\<close>

record 'b kv_ops =
  kv_get :: "int \<Rightarrow> string \<Rightarrow> 'b \<Rightarrow> string option result \<times> 'b"
  kv_set :: "int \<Rightarrow> string \<Rightarrow> string \<Rightarrow> int option \<Rightarrow> 'b \<Rightarrow> unit result \<times> 'b"
  kv_delete :: "string \<Rightarrow> 'b \<Rightarrow> unit result \<times> 'b"
  kv_keys_with_prefix :: "(string \<Rightarrow> 'b \<Rightarrow> string list result \<times> 'b) option"

record 'b redis_ops = "'b kv_ops" +
  rd_add_set_members :: "string \<Rightarrow> string list \<Rightarrow> 'b \<Rightarrow> unit result \<times> 'b"
  rd_set_members :: "string \<Rightarrow> 'b \<Rightarrow> string list result \<times> 'b"

text \<open>\<open>RedisBackend::delete_keys\<close>: one deletion after the other; the first exception stops it.\<close>

fun delete_keys :: "('b, 'x) kv_ops_scheme \<Rightarrow> string list \<Rightarrow> 'b \<Rightarrow> unit result \<times> 'b" where
  "delete_keys K [] b = (Inr (), b)"
| "delete_keys K (k # ks) b =
     (case kv_delete K k b of (Inl e, b') \<Rightarrow> (Inl e, b') | (Inr _, b') \<Rightarrow> delete_keys K ks b')"

text \<open>
  A payload that does not decode is a miss; the entry is evicted as far as the store allows, and an
  exception of that deletion is swallowed.
\<close>

definition decode_or_evict ::
  "('b, 'x) kv_ops_scheme \<Rightarrow> string \<Rightarrow> string \<Rightarrow> 'b \<Rightarrow> query_result option result \<times> 'b" where
  "decode_or_evict K key payload b =
     (case decode_query_result payload of
        Inr q \<Rightarrow> (Inr (Some q), b)
      | Inl e \<Rightarrow> (Inr None, snd (kv_delete K key b)))"

definition normalize_ttl :: "int option \<Rightarrow> int option" where
  "normalize_ttl ttl = (case ttl of Some d \<Rightarrow> if d = 0 then None else Some d | None \<Rightarrow> None)"

definition remote_get ::
  "('b, 'x) kv_ops_scheme \<Rightarrow> int \<Rightarrow> string \<Rightarrow> 'b \<Rightarrow> query_result option result \<times> 'b" where
  "remote_get K now key b =
     (case kv_get K now key b of
        (Inl e, b') \<Rightarrow> (Inl e, b')
      | (Inr None, b') \<Rightarrow> (Inr None, b')
      | (Inr (Some payload), b') \<Rightarrow> decode_or_evict K key payload b')"

definition remote_has ::
  "('b, 'x) kv_ops_scheme \<Rightarrow> int \<Rightarrow> string \<Rightarrow> 'b \<Rightarrow> bool result \<times> 'b" where
  "remote_has K now key b = (case remote_get K now key b of (r, b') \<Rightarrow> (rbind r (\<lambda>v. Inr (v \<noteq> None)), b'))"

definition remote_set ::
  "('b, 'x) kv_ops_scheme \<Rightarrow> int \<Rightarrow> string \<Rightarrow> query_result \<Rightarrow> int option \<Rightarrow> 'b \<Rightarrow> unit result \<times> 'b" where
  "remote_set K now key v ttl b = kv_set K now key (encode_query_result v) (normalize_ttl ttl) b"

subsection \<open>KeyValueCacheAdapter\<close>

definition kva_invalidate_tags :: "string list \<Rightarrow> 'b \<Rightarrow> unit result \<times> 'b" where
  "kva_invalidate_tags tags b =
     (Inl (Logic_error (''MetalORM: KeyValueCacheAdapter does not support tag invalidation; ''
        @ ''use RedisCacheAdapter or another tag-capable provider'')), b)"

definition kva_invalidate_prefix ::
  "('b, 'x) kv_ops_scheme \<Rightarrow> string \<Rightarrow> 'b \<Rightarrow> unit result \<times> 'b" where
  "kva_invalidate_prefix K prefix b =
     (case kv_keys_with_prefix K of
        None \<Rightarrow> (Inl (Logic_error ''MetalORM: key/value backend does not support prefix invalidation''), b)
      | Some scan \<Rightarrow>
          (case scan prefix b of (Inl e, b') \<Rightarrow> (Inl e, b') | (Inr keys, b') \<Rightarrow> delete_keys K keys b'))"

definition kva_capabilities :: "('b, 'x) kv_ops_scheme \<Rightarrow> cache_capabilities" where
  "kva_capabilities K = \<lparr>cap_tags = False, cap_prefix = kv_keys_with_prefix K \<noteq> None, cap_ttl = True\<rparr>"

definition key_value_ops :: "('b, 'x) kv_ops_scheme \<Rightarrow> 'b cache_ops" where
  "key_value_ops K = \<lparr>
     cop_get = remote_get K, cop_set = remote_set K, cop_invalidate = kv_delete K,
     cop_invalidate_tags = kva_invalidate_tags, cop_invalidate_prefix = kva_invalidate_prefix K,
     cop_register_tags = None\<rparr>"

subsection \<open>RedisCacheAdapter\<close>

definition tag_key :: "string \<Rightarrow> string \<Rightarrow> string" where
  "tag_key tag_prefix tag = tag_prefix @ tag"

fun redis_register_tags ::
  "'b redis_ops \<Rightarrow> string \<Rightarrow> string \<Rightarrow> string list \<Rightarrow> 'b \<Rightarrow> unit result \<times> 'b" where
  "redis_register_tags K tp key [] b = (Inr (), b)"
| "redis_register_tags K tp key (tag # tags) b =
     (if tag = [] then redis_register_tags K tp key tags b
      else case rd_add_set_members K (tag_key tp tag) [key] b of
             (Inl e, b') \<Rightarrow> (Inl e, b')
           | (Inr _, b') \<Rightarrow> redis_register_tags K tp key tags b')"

fun redis_collect ::
  "'b redis_ops \<Rightarrow> string \<Rightarrow> string list \<Rightarrow> sset \<Rightarrow> string list \<Rightarrow> 'b \<Rightarrow> (sset \<times> string list) result \<times> 'b" where
  "redis_collect K tp [] keys tag_keys b = (Inr (keys, tag_keys), b)"
| "redis_collect K tp (tag # tags) keys tag_keys b =
     (if tag = [] then redis_collect K tp tags keys tag_keys b
      else case rd_set_members K (tag_key tp tag) b of
             (Inl e, b') \<Rightarrow> (Inl e, b')
           | (Inr ms, b') \<Rightarrow> redis_collect K tp tags (fold set_add ms keys) (tag_keys @ [tag_key tp tag]) b')"

definition redis_invalidate_tags ::
  "'b redis_ops \<Rightarrow> string \<Rightarrow> string list \<Rightarrow> 'b \<Rightarrow> unit result \<times> 'b" where
  "redis_invalidate_tags K tp tags b =
     (case redis_collect K tp tags [] [] b of
        (Inl e, b1) \<Rightarrow> (Inl e, b1)
      | (Inr (keys, tag_keys), b1) \<Rightarrow>
          (case (if tag_keys \<noteq> [] then delete_keys K tag_keys b1 else (Inr (), b1)) of
             (Inl e, b2) \<Rightarrow> (Inl e, b2)
           | (Inr _, b2) \<Rightarrow> if keys \<noteq> [] then delete_keys K keys b2 else (Inr (), b2)))"

definition redis_invalidate_prefix ::
  "'b redis_ops \<Rightarrow> string \<Rightarrow> 'b \<Rightarrow> unit result \<times> 'b" where
  "redis_invalidate_prefix K prefix b =
     (case kv_keys_with_prefix K of
        None \<Rightarrow> (Inr (), b)
      | Some scan \<Rightarrow>
          (case scan prefix b of
             (Inl e, b') \<Rightarrow> (Inl e, b')
           | (Inr keys, b') \<Rightarrow> if keys \<noteq> [] then delete_keys K keys b' else (Inr (), b')))"

definition redis_cache_ops :: "'b redis_ops \<Rightarrow> string \<Rightarrow> 'b cache_ops" where
  "redis_cache_ops K tp = \<lparr>
     cop_get = remote_get K, cop_set = remote_set K, cop_invalidate = kv_delete K,
     cop_invalidate_tags = redis_invalidate_tags K tp, cop_invalidate_prefix = redis_invalidate_prefix K,
     cop_register_tags = Some (redis_register_tags K tp)\<rparr>"

subsection \<open>What the adapters rely on\<close>

text \<open>
  \<open>klive now b k\<close> is the payload the store would return for the key; time alone can only expire it. An operation that throws leaves
  the other keys alone, and a deletion that throws leaves its own key as it was or gone.
\<close>

locale kv_backend =
  fixes K :: "('b, 'x) kv_ops_scheme"
    and kinv :: "'b \<Rightarrow> bool"
    and klive :: "int \<Rightarrow> 'b \<Rightarrow> string \<Rightarrow> string option"
  assumes klive_mono: "kinv b \<Longrightarrow> now \<le> now' \<Longrightarrow> klive now' b k \<in> {None, klive now b k}"
    and kget_inv: "kinv b \<Longrightarrow> kinv (snd (kv_get K now k b))"
    and kget_value: "kinv b \<Longrightarrow> fst (kv_get K now k b) = Inr r \<Longrightarrow> r = klive now b k"
    and kget_frame: "kinv b \<Longrightarrow> now \<le> now' \<Longrightarrow> klive now' (snd (kv_get K now k b)) k' = klive now' b k'"
    and kset_inv: "kinv b \<Longrightarrow> kinv (snd (kv_set K now k p ttl b))"
    and kset_alive: "kinv b \<Longrightarrow> fst (kv_set K now k p ttl b) = Inr () \<Longrightarrow> now \<le> now' \<Longrightarrow>
          ttl_alive ttl now now' \<Longrightarrow> klive now' (snd (kv_set K now k p ttl b)) k = Some p"
    and kset_frame: "kinv b \<Longrightarrow> k' \<noteq> k \<Longrightarrow> now \<le> now' \<Longrightarrow>
          klive now' (snd (kv_set K now k p ttl b)) k' = klive now' b k'"
    and kdel_inv: "kinv b \<Longrightarrow> kinv (snd (kv_delete K k b))"
    and kdel_gone: "kinv b \<Longrightarrow> fst (kv_delete K k b) = Inr () \<Longrightarrow> klive now (snd (kv_delete K k b)) k = None"
    and kdel_self: "kinv b \<Longrightarrow> klive now (snd (kv_delete K k b)) k \<in> {None, klive now b k}"
    and kdel_frame: "kinv b \<Longrightarrow> k' \<noteq> k \<Longrightarrow> klive now (snd (kv_delete K k b)) k' = klive now b k'"

definition decoded :: "string option \<Rightarrow> query_result option" where
  "decoded p = (case p of None \<Rightarrow> None | Some s \<Rightarrow> (case decode_query_result s of Inl e \<Rightarrow> None | Inr q \<Rightarrow> Some q))"

lemma decoded_simps [simp]:
  "decoded None = None"
  "decode_query_result s = Inl e \<Longrightarrow> decoded (Some s) = None"
  "decode_query_result s = Inr q \<Longrightarrow> decoded (Some s) = Some q"
  by (simp_all add: decoded_def)

lemma normalize_ttl_alive: "ttl_alive (normalize_ttl ttl) now now' = ttl_alive ttl now now'"
  by (auto simp: normalize_ttl_def ttl_alive_def split: option.splits)

context kv_backend
begin

definition rlive :: "int \<Rightarrow> 'b \<Rightarrow> string \<Rightarrow> query_result option" where
  "rlive now b k = decoded (klive now b k)"

lemma rlive_delete:
  assumes "kinv b"
  shows "k' \<noteq> k \<Longrightarrow> rlive now (snd (kv_delete K k b)) k' = rlive now b k'"
    and "rlive now b k = None \<Longrightarrow> rlive now (snd (kv_delete K k b)) k = None"
  using kdel_frame [OF assms, of k' k now] kdel_self [OF assms, of now k] by (auto simp: rlive_def)

lemma remote_get_spec:
  assumes "kinv b"
  shows "kinv (snd (remote_get K now k b))"
    and "fst (remote_get K now k b) = Inr r \<Longrightarrow> r = rlive now b k"
proof -
  obtain g b' where g: "kv_get K now k b = (g, b')" by fastforce
  have b': "kinv b'" "\<And>r. g = Inr r \<Longrightarrow> r = klive now b k"
    using kget_inv [OF assms, of now k] kget_value [OF assms, of now k] g by auto
  show "kinv (snd (remote_get K now k b))"
    using g b'(1) kdel_inv [OF b'(1)]
    by (auto simp: remote_get_def decode_or_evict_def split: sum.splits option.splits)
  assume "fst (remote_get K now k b) = Inr r"
  then show "r = rlive now b k"
    using g b'(2) by (auto simp: remote_get_def decode_or_evict_def rlive_def decoded_def split: sum.splits option.splits)
qed

text \<open>A lookup changes no later lookup, even when it evicts an undecodable payload.\<close>

lemma remote_get_frame:
  assumes "kinv b" "now \<le> now'"
  shows "rlive now' (snd (remote_get K now k b)) k' = rlive now' b k'"
proof -
  obtain g b' where g: "kv_get K now k b = (g, b')" by fastforce
  have b': "kinv b'" and same: "\<And>k'. rlive now' b' k' = rlive now' b k'"
    and val: "\<And>r. g = Inr r \<Longrightarrow> r = klive now b k"
    using kget_inv [OF assms(1), of now k] kget_frame [OF assms, of k] kget_value [OF assms(1), of now k] g
    by (simp_all add: rlive_def)
  have evict: "rlive now' (snd (kv_delete K k b')) k' = rlive now' b k'" if "rlive now' b k = None"
    using rlive_delete [OF b', where k = k] same that by (cases "k' = k") auto
  have "rlive now' b k = None" if "g = Inr (Some s)" "decode_query_result s = Inl e" for s e
    using val [OF that(1), symmetric] that(2) klive_mono [OF assms, of k] by (auto simp: rlive_def)
  with g same evict show ?thesis
    by (auto simp: remote_get_def decode_or_evict_def split: sum.splits option.splits)
qed

lemma remote_set_spec:
  assumes "kinv b"
  shows "kinv (snd (remote_set K now k v ttl b))"
    and "result_sized v \<Longrightarrow> fst (remote_set K now k v ttl b) = Inr () \<Longrightarrow> now \<le> now' \<Longrightarrow>
      ttl_alive ttl now now' \<Longrightarrow> rlive now' (snd (remote_set K now k v ttl b)) k = Some (canonical v)"
    and "k' \<noteq> k \<Longrightarrow> now \<le> now' \<Longrightarrow> rlive now' (snd (remote_set K now k v ttl b)) k' = rlive now' b k'"
  using kset_inv [OF assms] kset_alive [OF assms, of now k "encode_query_result v" "normalize_ttl ttl" now']
    kset_frame [OF assms, of k' k now now'] decode_encode [of v]
  by (auto simp: remote_set_def rlive_def normalize_ttl_alive)

lemma delete_keys_spec:
  assumes "kinv b"
  shows "kinv (snd (delete_keys K ks b))"
    and "k \<notin> set ks \<Longrightarrow> rlive now (snd (delete_keys K ks b)) k = rlive now b k"
    and "rlive now b k = None \<Longrightarrow> rlive now (snd (delete_keys K ks b)) k = None"
    and "fst (delete_keys K ks b) = Inr () \<Longrightarrow> k \<in> set ks \<Longrightarrow> rlive now (snd (delete_keys K ks b)) k = None"
proof -
  have *: "kinv b \<Longrightarrow> kinv (snd (delete_keys K ks b))
      \<and> (k \<notin> set ks \<longrightarrow> rlive now (snd (delete_keys K ks b)) k = rlive now b k)
      \<and> (rlive now b k = None \<longrightarrow> rlive now (snd (delete_keys K ks b)) k = None)
      \<and> (fst (delete_keys K ks b) = Inr () \<longrightarrow> k \<in> set ks \<longrightarrow> rlive now (snd (delete_keys K ks b)) k = None)" for b
  proof (induction ks arbitrary: b)
    case (Cons x ks)
    obtain d b' where d: "kv_delete K x b = (d, b')" by fastforce
    have b': "kinv b'" "x \<noteq> k \<Longrightarrow> rlive now b' k = rlive now b k" "d = Inr () \<Longrightarrow> rlive now b' x = None"
      using kdel_inv [OF Cons.prems, of x] rlive_delete(1) [OF Cons.prems, of k x now]
        kdel_gone [OF Cons.prems, of x now] d
      by (auto simp: rlive_def)
    have "rlive now b' k = None" if "rlive now b k = None"
      using rlive_delete [OF Cons.prems, where k = x and now = now] that d by (cases "x = k") auto
    with b' d Cons.IH [OF b'(1)] show ?case by (cases d) auto
  qed simp
  from * [OF assms] show "kinv (snd (delete_keys K ks b))"
    and "k \<notin> set ks \<Longrightarrow> rlive now (snd (delete_keys K ks b)) k = rlive now b k"
    and "rlive now b k = None \<Longrightarrow> rlive now (snd (delete_keys K ks b)) k = None"
    and "fst (delete_keys K ks b) = Inr () \<Longrightarrow> k \<in> set ks \<Longrightarrow> rlive now (snd (delete_keys K ks b)) k = None"
    by blast+
qed

end

text \<open>
  Every key/value store that keeps this contract makes \<open>KeyValueCacheAdapter\<close> a cache provider, so
  all that was proved of the manager over a provider holds of it. Reading gives back the canonical
  form of a result: the codec round trip is what discharges the contract.
\<close>

sublocale kv_backend \<subseteq> kva: cache_provider "key_value_ops K" kinv rlive canonical result_sized
proof unfold_locales
  fix s now k r assume "kinv s" "fst (cop_get (key_value_ops K) now k s) = Inr r"
  then show "r = rlive now s k" using remote_get_spec(2) by (simp add: key_value_ops_def)
qed (simp_all add: key_value_ops_def remote_get_spec remote_get_frame remote_set_spec
    kdel_inv rlive_delete, simp add: rlive_def kdel_gone)

subsection \<open>Stores with sets\<close>

text \<open>
  \<open>kmem b k\<close> are the members of the set stored under \<open>k\<close>. Keys of the form tag prefix plus tag belong
  to the adapter; the other keys are the ordinary ones.
\<close>

locale redis_backend = kv_backend K kinv klive
  for K :: "'b redis_ops" and kinv :: "'b \<Rightarrow> bool" and klive :: "int \<Rightarrow> 'b \<Rightarrow> string \<Rightarrow> string option" +
  fixes kmem :: "'b \<Rightarrow> string \<Rightarrow> string set"
    and tp :: string
  assumes radd_inv: "kinv b \<Longrightarrow> kinv (snd (rd_add_set_members K k ms b))"
    and radd_live: "kinv b \<Longrightarrow> k' \<noteq> k \<Longrightarrow> klive now (snd (rd_add_set_members K k ms b)) k' = klive now b k'"
    and radd_mem: "kinv b \<Longrightarrow> fst (rd_add_set_members K k ms b) = Inr () \<Longrightarrow>
          set ms \<subseteq> kmem (snd (rd_add_set_members K k ms b)) k"
    and radd_keeps: "kinv b \<Longrightarrow> kmem b k' \<subseteq> kmem (snd (rd_add_set_members K k ms b)) k'"
    and rmem_inv: "kinv b \<Longrightarrow> kinv (snd (rd_set_members K k b))"
    and rmem_value: "kinv b \<Longrightarrow> fst (rd_set_members K k b) = Inr ms \<Longrightarrow> set ms = kmem b k"
    and rmem_live: "kinv b \<Longrightarrow> klive now (snd (rd_set_members K k b)) k' = klive now b k'"
    and rmem_keeps: "kinv b \<Longrightarrow> kmem (snd (rd_set_members K k b)) k' = kmem b k'"
begin

definition rtagged :: "'b \<Rightarrow> string \<Rightarrow> string \<Rightarrow> bool" where
  "rtagged b k t \<longleftrightarrow> k \<in> kmem b (tag_key tp t)"

definition rordinary :: "string \<Rightarrow> bool" where
  "rordinary k \<longleftrightarrow> \<not> starts_with k tp"

lemma ordinary_not_tag_key: "rordinary k \<Longrightarrow> k \<noteq> tag_key tp t"
  by (auto simp: rordinary_def tag_key_def)

lemma register_spec:
  "kinv b \<Longrightarrow> kinv (snd (redis_register_tags K tp key ts b))
     \<and> (rordinary k \<longrightarrow> rlive now (snd (redis_register_tags K tp key ts b)) k = rlive now b k)
     \<and> (rtagged b k' t \<longrightarrow> rtagged (snd (redis_register_tags K tp key ts b)) k' t)
     \<and> (fst (redis_register_tags K tp key ts b) = Inr () \<longrightarrow> t \<in> set ts \<longrightarrow> t \<noteq> [] \<longrightarrow>
          rtagged (snd (redis_register_tags K tp key ts b)) key t)"
proof (induction ts arbitrary: b k')
  case (Cons x ts)
  obtain d b' where d: "rd_add_set_members K (tag_key tp x) [key] b = (d, b')" by fastforce
  have b': "kinv b'" "rordinary k \<Longrightarrow> rlive now b' k = rlive now b k"
    "\<And>k'. rtagged b k' t \<Longrightarrow> rtagged b' k' t" "d = Inr () \<Longrightarrow> rtagged b' key x"
    using radd_inv [OF Cons.prems, of "tag_key tp x" "[key]"] ordinary_not_tag_key [of k x]
      radd_live [OF Cons.prems, of k "tag_key tp x" now "[key]"]
      radd_keeps [OF Cons.prems, of "tag_key tp t" "tag_key tp x" "[key]"]
      radd_mem [OF Cons.prems, of "tag_key tp x" "[key]"] d
    by (auto simp: rlive_def rtagged_def)
  note ih = Cons.IH [OF b'(1), of k'] and ih2 = Cons.IH [OF b'(1), of key]
  show ?case
  proof (cases d)
    case (Inl e)
    with d b' Cons.IH [OF Cons.prems, of k'] show ?thesis by auto
  next
    case (Inr u)
    with d b' ih ih2 Cons.IH [OF Cons.prems, of k'] show ?thesis by auto
  qed
qed simp

lemma collect_spec:
  assumes "kinv b" "redis_collect K tp ts keys tks b = (r, b')"
  shows "kinv b'" "rlive now b' k = rlive now b k"
    and "r = Inr (keys', tks') \<Longrightarrow> set keys' = set keys \<union> {k. \<exists>t \<in> set ts. t \<noteq> [] \<and> rtagged b k t}
       \<and> set tks' = set tks \<union> tag_key tp ` (set ts - {[]})"
proof -
  have "kinv b' \<and> rlive now b' k = rlive now b k \<and>
      (r = Inr (keys', tks') \<longrightarrow> set keys' = set keys \<union> {k. \<exists>t \<in> set ts. t \<noteq> [] \<and> rtagged b k t}
        \<and> set tks' = set tks \<union> tag_key tp ` (set ts - {[]}))"
    using assms
  proof (induction ts arbitrary: keys tks b)
    case (Cons x ts)
    obtain d b1 where d: "rd_set_members K (tag_key tp x) b = (d, b1)" by fastforce
    have b1: "kinv b1" "rlive now b1 k = rlive now b k" "\<And>k t. rtagged b1 k t = rtagged b k t"
      "\<And>ms. d = Inr ms \<Longrightarrow> set ms = {k. rtagged b k x}"
      using rmem_inv [OF Cons.prems(1), of "tag_key tp x"] rmem_live [OF Cons.prems(1), of now "tag_key tp x" k]
        rmem_keeps [OF Cons.prems(1), of "tag_key tp x"] rmem_value [OF Cons.prems(1), of "tag_key tp x"] d
      by (auto simp: rlive_def rtagged_def)
    show ?case
    proof (cases "x = []")
      case True
      with Cons.prems Cons.IH [of b keys tks] show ?thesis by auto
    next
      case False
      show ?thesis
      proof (cases d)
        case (Inl e)
        with False d b1 Cons.prems show ?thesis by auto
      next
        case (Inr ms)
        with False d Cons.prems have
          "redis_collect K tp ts (fold set_add ms keys) (tks @ [tag_key tp x]) b1 = (r, b')" by simp
        from Cons.IH [OF b1(1) this] b1 Inr False show ?thesis by auto
      qed
    qed
  qed auto
  then show "kinv b'" "rlive now b' k = rlive now b k"
    "r = Inr (keys', tks') \<Longrightarrow> set keys' = set keys \<union> {k. \<exists>t \<in> set ts. t \<noteq> [] \<and> rtagged b k t}
       \<and> set tks' = set tks \<union> tag_key tp ` (set ts - {[]})"
    by auto
qed

lemma redis_invalidate_spec:
  assumes "kinv b"
  shows "kinv (snd (redis_invalidate_tags K tp ts b))"
    and "fst (redis_invalidate_tags K tp ts b) = Inr () \<Longrightarrow> t \<in> set ts \<Longrightarrow> t \<noteq> [] \<Longrightarrow> rtagged b k t \<Longrightarrow>
       rlive now (snd (redis_invalidate_tags K tp ts b)) k = None"
    and "rordinary k \<Longrightarrow> \<forall>t \<in> set ts. \<not> rtagged b k t \<Longrightarrow>
       rlive now (snd (redis_invalidate_tags K tp ts b)) k = rlive now b k"
proof -
  obtain r b1 where c: "redis_collect K tp ts [] [] b = (r, b1)" by fastforce
  note cs = collect_spec [OF assms c]
  have main: "kinv (snd (redis_invalidate_tags K tp ts b))
    \<and> (fst (redis_invalidate_tags K tp ts b) = Inr () \<longrightarrow> t \<in> set ts \<longrightarrow> t \<noteq> [] \<longrightarrow> rtagged b k t \<longrightarrow>
         rlive now (snd (redis_invalidate_tags K tp ts b)) k = None)
    \<and> (rordinary k \<longrightarrow> (\<forall>t \<in> set ts. \<not> rtagged b k t) \<longrightarrow>
         rlive now (snd (redis_invalidate_tags K tp ts b)) k = rlive now b k)"
  proof (cases r)
    case (Inl e)
    with c cs show ?thesis by (simp add: redis_invalidate_tags_def)
  next
    case (Inr p)
    then obtain keys tks where r: "r = Inr (keys, tks)" by (cases p) auto
    define d2 where "d2 = (if tks \<noteq> [] then delete_keys K tks b1 else (Inr (), b1))"
    obtain e2 b2 where d2: "d2 = (e2, b2)" by (cases d2)
    have b2: "kinv b2" "k \<notin> set tks \<Longrightarrow> rlive now b2 k = rlive now b1 k"
      using delete_keys_spec(1,2) [OF cs(1), where ks = tks] d2 cs(1) by (auto simp: d2_def split: if_splits)
    have sets: "set keys = {k. \<exists>t \<in> set ts. t \<noteq> [] \<and> rtagged b k t}" "set tks = tag_key tp ` (set ts - {[]})"
      using cs(3) [OF r] by auto
    have tk: "rordinary k \<Longrightarrow> k \<notin> set tks" using sets(2) ordinary_not_tag_key by blast
    have run: "redis_invalidate_tags K tp ts b =
        (case e2 of Inl e \<Rightarrow> (Inl e, b2) | Inr _ \<Rightarrow> if keys \<noteq> [] then delete_keys K keys b2 else (Inr (), b2))"
      using c r d2 unfolding d2_def by (simp add: redis_invalidate_tags_def)
    show ?thesis
    proof (cases e2)
      case (Inl e)
      with run b2 cs(2) tk show ?thesis by auto
    next
      case (Inr u)
      have out: "redis_invalidate_tags K tp ts b = (if keys \<noteq> [] then delete_keys K keys b2 else (Inr (), b2))"
        using run Inr by simp
      have gone: "fst (redis_invalidate_tags K tp ts b) = Inr () \<Longrightarrow> k \<in> set keys \<Longrightarrow>
          rlive now (snd (redis_invalidate_tags K tp ts b)) k = None"
        using out delete_keys_spec(4) [OF b2(1), of keys k now] by (cases keys) auto
      have kept: "k \<notin> set keys \<Longrightarrow> rlive now (snd (redis_invalidate_tags K tp ts b)) k = rlive now b2 k"
        using out delete_keys_spec(2) [OF b2(1), of k keys now] by auto
      have "kinv (snd (redis_invalidate_tags K tp ts b))"
        using out b2(1) delete_keys_spec(1) [OF b2(1), of keys] by auto
      with gone kept sets(1) b2(2) tk cs(2) show ?thesis by auto
    qed
  qed
  then show "kinv (snd (redis_invalidate_tags K tp ts b))"
    and "fst (redis_invalidate_tags K tp ts b) = Inr () \<Longrightarrow> t \<in> set ts \<Longrightarrow> t \<noteq> [] \<Longrightarrow> rtagged b k t \<Longrightarrow>
       rlive now (snd (redis_invalidate_tags K tp ts b)) k = None"
    and "rordinary k \<Longrightarrow> \<forall>t \<in> set ts. \<not> rtagged b k t \<Longrightarrow>
       rlive now (snd (redis_invalidate_tags K tp ts b)) k = rlive now b k"
    by auto
qed

end

text \<open>\<open>RedisCacheAdapter\<close> over such a store is a cache provider with tags.\<close>

sublocale redis_backend \<subseteq> rda: tag_cache_provider "redis_cache_ops K tp" kinv rlive canonical result_sized
  "redis_register_tags K tp" rtagged rordinary
proof unfold_locales
  fix s now k r assume "kinv s" "fst (cop_get (redis_cache_ops K tp) now k s) = Inr r"
  then show "r = rlive now s k" using remote_get_spec(2) by (simp add: redis_cache_ops_def)
next
  fix s k now assume "kinv s" "fst (cop_invalidate (redis_cache_ops K tp) k s) = Inr ()"
  then show "rlive now (snd (cop_invalidate (redis_cache_ops K tp) k s)) k = None"
    by (simp add: redis_cache_ops_def rlive_def kdel_gone)
qed (simp_all add: redis_cache_ops_def remote_get_spec remote_get_frame remote_set_spec kdel_inv rlive_delete
    register_spec redis_invalidate_spec)

subsection \<open>The store of the test program\<close>

text \<open>
  \<open>FakeRedisBackend\<close> of \<open>tests/test_remote_cache.cpp\<close>: two maps, one of values and one of sets. It
  records the time to live it is given and expires nothing. Its counters are left out.
\<close>

record fake_redis =
  fr_values :: "(string, string) amap"
  fr_sets :: "(string, sset) amap"

definition fake_redis_ops :: "fake_redis redis_ops" where
  "fake_redis_ops = \<lparr>
     kv_get = (\<lambda>now k b. (Inr (alookup (fr_values b) k), b)),
     kv_set = (\<lambda>now k p ttl b. (Inr (), b\<lparr>fr_values := aput k p (fr_values b)\<rparr>)),
     kv_delete = (\<lambda>k b. (Inr (), b\<lparr>fr_values := adel k (fr_values b), fr_sets := adel k (fr_sets b)\<rparr>)),
     kv_keys_with_prefix = Some (\<lambda>p b. (Inr (fold set_add
        (filter (\<lambda>k. starts_with k p) (map fst (fr_values b) @ map fst (fr_sets b))) []), b)),
     rd_add_set_members = (\<lambda>k ms b.
        (Inr (), b\<lparr>fr_sets := aput k (fold set_add ms (set_at (fr_sets b) k)) (fr_sets b)\<rparr>)),
     rd_set_members = (\<lambda>k b. (Inr (set_at (fr_sets b) k), b))\<rparr>"

definition fake_live :: "int \<Rightarrow> fake_redis \<Rightarrow> string \<Rightarrow> string option" where
  "fake_live now b k = alookup (fr_values b) k"

definition fake_mem :: "fake_redis \<Rightarrow> string \<Rightarrow> string set" where
  "fake_mem b k = set (set_at (fr_sets b) k)"

interpretation fake: redis_backend fake_redis_ops "\<lambda>_. True" fake_live fake_mem "''tag:''"
  by unfold_locales (auto simp: fake_redis_ops_def fake_live_def fake_mem_def split: if_splits)

subsection \<open>Properties\<close>

context redis_backend
begin

lemma redis_read_your_writes:
  assumes "kinv b" "cm_provider m = redis_cache_ops K tp"
    and "rlive t0 b (generate_key (co_key opts) tenant) = None"
    and "get_or_execute m opts (Some f) tenant t0 t1 b w = (Inr r, b', w1)"
    and "should_cache r opts" "result_sized r" "t0 \<le> t1" "rordinary (generate_key (co_key opts) tenant)"
    and "t1 \<le> t" "ttl_alive (Some (effective_ttl m opts)) t1 t"
    and "get_or_execute m opts (Some f') tenant t t' b' v = (Inr r2, b'', v')"
  shows "r2 = canonical r \<and> v' = v"
  using rda.read_your_writes [OF assms(1-10) refl assms(11)] by simp

lemma redis_invalidation_forces_query:
  assumes "kinv b" "cm_provider m = redis_cache_ops K tp" "rtagged b (generate_key (co_key opts) tenant) tg"
    and "tg \<in> set tags" "tg \<noteq> []" "cm_invalidate_tags m tags b = (Inr (), b')"
    and "get_or_execute m opts (Some f) tenant t0 t1 b' w = (Inr r, b'', w')"
  shows "f w = (Inr r, w')"
  using rda.invalidation_forces_query [OF assms] .

end

lemma redis_views:
  assumes "redis_backend K kinv klive kmem"
  shows "kv_backend.rlive klive now b k = decoded (klive now b k)"
    and "redis_backend.rordinary tp k \<longleftrightarrow> \<not> starts_with k tp"
    and "redis_backend.rtagged kmem tp b k t \<longleftrightarrow> k \<in> kmem b (tag_key tp t)"
  using assms redis_backend.axioms(1) [OF assms]
  by (simp_all add: kv_backend.rlive_def redis_backend.rordinary_def [OF assms]
      redis_backend.rtagged_def [OF assms])

text \<open>
  C28. A remote cache gives back what was computed: over any store that keeps the documented
  contract, after a miss whose query result was stored, a lookup with the same key and tenant before
  expiry that does not meet a transport error returns the result with equal rows and runs no query.
\<close>

theorem remote_read_your_writes:
  assumes "redis_backend K kinv klive kmem" "kinv b" "cm_provider m = redis_cache_ops K tp"
    and "decoded (klive t0 b (generate_key (co_key opts) tenant)) = None"
    and "get_or_execute m opts (Some f) tenant t0 t1 b w = (Inr r, b', w1)"
    and "should_cache r opts" "result_sized r" "t0 \<le> t1"
    and "\<not> starts_with (generate_key (co_key opts) tenant) tp"
    and "t1 \<le> t" "effective_ttl m opts = 0 \<or> t < t1 + effective_ttl m opts"
    and "get_or_execute m opts (Some f') tenant t t' b' v = (Inr r2, b'', v')"
  shows "v' = v \<and> list_all2 same_row (qr_rows r) (qr_rows r2)
     \<and> qr_affected r2 = qr_affected r \<and> qr_last_id r2 = qr_last_id r"
proof -
  have alive: "ttl_alive (Some (effective_ttl m opts)) t1 t" using assms(11) by (simp add: ttl_alive_def)
  have "r2 = canonical r \<and> v' = v"
    by (rule redis_backend.redis_read_your_writes [OF assms(1-3) _ assms(5-8) _ assms(10) alive assms(12)])
      (simp_all add: redis_views [OF assms(1)] assms(4,9))
  with canonical_same [OF assms(7)] show ?thesis by (simp add: canonical_def)
qed

definition remote_manager :: "fake_redis cache_manager" where
  "remote_manager = \<lparr>cm_provider = redis_cache_ops fake_redis_ops ''tag:'', cm_default_ttl = 3600000\<rparr>"

definition fake_new :: fake_redis where
  "fake_new = \<lparr>fr_values = [], fr_sets = []\<rparr>"

lemmas remote_run = remote_manager_def redis_cache_ops_def sample_options_def fake_redis_ops_def
  get_or_execute_def remote_get_def remote_set_def decode_or_evict_def generate_key_def
  should_cache_def cm_register_tags_def effective_ttl_def fake_new_def

theorem remote_read_your_writes_witness:
  "list_all2 same_row (qr_rows sample_result) (qr_rows (canonical sample_result))"
proof -
  let ?f = "\<lambda>n. (Inr sample_result, n + 1)"
  note sz = sample_sized
  obtain b' where a: "get_or_execute remote_manager sample_options (Some ?f) None 0 5 fake_new (0::nat)
      = (Inr sample_result, b', 1)" and b': "alookup (fr_values b') ''users'' = Some (encode_query_result sample_result)"
    by (simp add: remote_run Let_def)
  have b: "get_or_execute remote_manager sample_options (Some ?f) None 500 501 b' (7::nat)
      = (Inr (canonical sample_result), b', 7)"
    using b' decode_encode [OF sz] by (simp add: remote_run Let_def)
  have "(7::nat) = 7 \<and> list_all2 same_row (qr_rows sample_result) (qr_rows (canonical sample_result))
     \<and> qr_affected (canonical sample_result) = qr_affected sample_result
     \<and> qr_last_id (canonical sample_result) = qr_last_id sample_result"
    by (rule remote_read_your_writes [where tp = "''tag:''", OF fake.redis_backend_axioms _ _ _ a _ sz _ _ _ _ b])
      (simp_all add: remote_manager_def fake_live_def fake_new_def sample_options_def should_cache_def
        effective_ttl_def generate_key_def starts_with_def)
  then show ?thesis by simp
qed

text \<open>
  C26. Tag invalidation through a remote store is never stale: a key that the store's tag set holds is
  not served after the invalidation of that tag returned; the next lookup runs its query.
\<close>

theorem remote_invalidation_runs_query:
  assumes "redis_backend K kinv klive kmem" "kinv b" "cm_provider m = redis_cache_ops K tp"
    and "generate_key (co_key opts) tenant \<in> kmem b (tag_key tp tg)"
    and "tg \<in> set tags" "tg \<noteq> []" "cm_invalidate_tags m tags b = (Inr (), b')"
    and "get_or_execute m opts (Some f) tenant t0 t1 b' w = (Inr r, b'', w')"
  shows "f w = (Inr r, w')"
  by (rule redis_backend.redis_invalidation_forces_query [OF assms(1-3) _ assms(5-8)])
    (simp add: redis_views [OF assms(1)] assms(4))

definition fake_tagged :: fake_redis where
  "fake_tagged = \<lparr>fr_values = [(''users'', encode_query_result sample_result)], fr_sets = [(''tag:user'', [''users''])]\<rparr>"

theorem remote_invalidation_runs_query_witness:
  "\<exists>b''. get_or_execute remote_manager sample_options (Some (\<lambda>n. (Inr sample_result, n + 1))) None 0 5
       (snd (cm_invalidate_tags remote_manager [''user''] fake_tagged)) (0::nat) = (Inr sample_result, b'', 1)
     \<and> (\<lambda>n::nat. (Inr sample_result, n + 1)) 0 = (Inr sample_result :: query_result result, 1)"
proof -
  let ?f = "\<lambda>n. (Inr sample_result :: query_result result, n + 1)"
  have i: "cm_invalidate_tags remote_manager [''user''] fake_tagged = (Inr (), fake_new)"
    by (simp add: cm_invalidate_tags_def remote_manager_def redis_cache_ops_def redis_invalidate_tags_def
        fake_tagged_def fake_redis_ops_def tag_key_def fake_new_def set_at_def adel_def alookup_def set_add_def)
  obtain b'' where a: "get_or_execute remote_manager sample_options (Some ?f) None 0 5 fake_new (0::nat)
      = (Inr sample_result, b'', 1)"
    by (simp add: remote_run Let_def)
  have "?f (0::nat) = (Inr sample_result, 1)"
    by (rule remote_invalidation_runs_query [where f = ?f and tg = "''user''", OF fake.redis_backend_axioms _ _ _ _ _ i a])
      (simp_all add: remote_manager_def fake_mem_def fake_tagged_def sample_options_def generate_key_def
        tag_key_def set_at_def alookup_def)
  with i a show ?thesis by simp
qed

text \<open>
  A corrupt payload is a miss, never an error: when the store returns bytes that do not decode,
  the query runs and its result is returned, whatever the eviction of the entry does (it may throw),
  as long as storing the fresh result does not fail.
\<close>

theorem corrupt_payload_recovers:
  assumes "cm_provider m = redis_cache_ops K tp" "co_key opts \<noteq> []" "co_tags opts = []"
    and "kv_get K t0 (generate_key (co_key opts) tenant) b = (Inr (Some payload), b1)"
    and "decode_query_result payload = Inl e" "f w = (Inr r, w1)"
    and "\<not> should_cache r opts \<or> (\<forall>b. fst (kv_set K t1 (generate_key (co_key opts) tenant)
           (encode_query_result r) (normalize_ttl (Some (effective_ttl m opts))) b) = Inr ())"
  shows "\<exists>b'. get_or_execute m opts (Some f) tenant t0 t1 b w = (Inr r, b', w1)"
proof -
  let ?k = "generate_key (co_key opts) tenant"
  obtain d b2 where d: "kv_delete K ?k b1 = (d, b2)" by fastforce
  obtain q b3 where q: "kv_set K t1 ?k (encode_query_result r) (normalize_ttl (Some (effective_ttl m opts))) b2 = (q, b3)"
    by fastforce
  have "should_cache r opts \<Longrightarrow> q = Inr ()" using assms(7) q by (metis fst_conv)
  with assms(1-6) d q show ?thesis
    by (simp add: get_or_execute_def Let_def redis_cache_ops_def remote_get_def decode_or_evict_def remote_set_def)
qed

theorem corrupt_payload_recovers_witness:
  "\<exists>b'. get_or_execute remote_manager (sample_options\<lparr>co_tags := []\<rparr>) (Some (\<lambda>n. (Inr sample_result, n + 1))) None 0 5
      \<lparr>fr_values = [(''users'', ''garbage'')], fr_sets = []\<rparr> (0::nat) = (Inr sample_result, b', 1)"
proof (rule corrupt_payload_recovers [where payload = "''garbage''" and K = fake_redis_ops and tp = "''tag:''"
      and e = "Codec_error ''MetalORM: cache payload has unsupported format or version''" and ?b1.0 = "\<lparr>fr_values = [(''users'', ''garbage'')], fr_sets = []\<rparr>"])
  show "decode_query_result ''garbage'' = Inl (Codec_error ''MetalORM: cache payload has unsupported format or version'')"
    by (simp add: decode_query_result_def r_query_result_def magic_def r_bind_def r_byte_def r_require_def r_fail_def)
qed (simp_all add: remote_manager_def sample_options_def fake_redis_ops_def generate_key_def alookup_def)

end
