(* ===== verification/Nested_Set.thy ===== *)
theory Nested_Set
  imports Values "HOL-Library.Signed_Division"
begin

section \<open>The nested set strategy (include/metal/tree.hpp)\<close>

text \<open>
  \<open>NestedSetStrategy\<close> are pure functions on the bounds of a nested set: the relations between two
  intervals, the renumbering of a tree from its parent links (\<open>recover\<close>), the reading of ordered
  rows as a forest (\<open>to_threaded\<close>) and the consistency check (\<open>validate_tree\<close>). Bounds are \<open>int\<close>: the
  signed 64-bit arithmetic of the code is defined only where it does not overflow. \<open>/\<close> truncates
  towards zero (\<open>sdiv\<close>).
\<close>

record bounds =
  b_lft :: int
  b_rght :: int

definition child_count :: "int \<Rightarrow> int \<Rightarrow> int" where
  "child_count lft rght = (rght - lft - 1) sdiv 2"

definition is_leaf :: "int \<Rightarrow> int \<Rightarrow> bool" where
  "is_leaf lft rght \<longleftrightarrow> rght - lft = 1"

definition is_root :: "dbvalue \<Rightarrow> bool" where
  "is_root parent_id \<longleftrightarrow> parent_id = VNull"

definition is_ancestor_of :: "bounds \<Rightarrow> bounds \<Rightarrow> bool" where
  "is_ancestor_of a b \<longleftrightarrow> b_lft a < b_lft b \<and> b_rght a > b_rght b"

definition is_descendant_of :: "bounds \<Rightarrow> bounds \<Rightarrow> bool" where
  "is_descendant_of a b \<longleftrightarrow> b_lft a > b_lft b \<and> b_rght a < b_rght b"

definition subtree_width :: "int \<Rightarrow> int \<Rightarrow> int" where
  "subtree_width lft rght = rght - lft + 1"

definition insert_as_last_child :: "int \<Rightarrow> int \<times> int" where
  "insert_as_last_child parent_rght = (parent_rght, parent_rght + 1)"

definition insert_as_root :: "int \<Rightarrow> int \<times> int" where
  "insert_as_root max_rght = (max_rght + 1, max_rght + 2)"

lemma ancestor_descendant: "is_ancestor_of a b = is_descendant_of b a"
  by (auto simp: is_ancestor_of_def is_descendant_of_def)

subsection \<open>Recovery from the parent links\<close>

record recover_node =
  rn_pk :: dbvalue
  rn_lft :: int
  rn_rght :: int
  rn_parent :: dbvalue
  rn_depth :: "int option"

record recover_update =
  ru_pk :: dbvalue
  ru_lft :: int
  ru_rght :: int
  ru_depth :: int

text \<open>The children by the text key of their parent; a node is appended to its group.\<close>

definition group_add :: "fp \<Rightarrow> (string, recover_node list) amap \<Rightarrow> recover_node \<Rightarrow> (string, recover_node list) amap" where
  "group_add F m n =
     (let k = value_key F (rn_parent n)
      in aput k ((case alookup m k of None \<Rightarrow> [] | Some ns \<Rightarrow> ns) @ [n]) m)"

definition recover_groups :: "fp \<Rightarrow> recover_node list \<Rightarrow> (string, recover_node list) amap" where
  "recover_groups F nodes = foldl (group_add F) [] nodes"

definition default_less :: "fp \<Rightarrow> recover_node \<Rightarrow> recover_node \<Rightarrow> bool" where
  "default_less F a b =
     (case (rn_pk a, rn_pk b) of
        (VInt i, VInt j) \<Rightarrow> sint i < sint j
      | _ \<Rightarrow> value_key F (rn_pk a) < value_key F (rn_pk b))"

text \<open>
  \<open>std::sort\<close> leaves the order of equivalent elements open; this is the order that keeps them as they
  were. Primary keys differ, so the default order has no equivalent siblings.
\<close>

fun insert_by :: "('a \<Rightarrow> 'a \<Rightarrow> bool) \<Rightarrow> 'a \<Rightarrow> 'a list \<Rightarrow> 'a list" where
  "insert_by lt x [] = [x]"
| "insert_by lt x (y # ys) = (if lt y x then y # insert_by lt x ys else x # y # ys)"

definition sort_by :: "('a \<Rightarrow> 'a \<Rightarrow> bool) \<Rightarrow> 'a list \<Rightarrow> 'a list" where
  "sort_by lt xs = foldr (insert_by lt) xs []"

text \<open>
  The recursive lambda \<open>traverse\<close>: the updates in the order they are pushed (a node after its
  children) and the next free number. The recursion goes along the children map, so its end is a
  property of the data: \<open>fuel\<close> bounds its depth.
\<close>

fun number_siblings ::
  "(dbvalue \<Rightarrow> int \<Rightarrow> int \<Rightarrow> (recover_update list \<times> int) option) \<Rightarrow> recover_node list \<Rightarrow> int \<Rightarrow> int
     \<Rightarrow> (recover_update list \<times> int) option" where
  "number_siblings f [] current depth = Some ([], current)"
| "number_siblings f (child # rest) current depth =
     (case f (rn_pk child) (current + 1) (depth + 1) of
        None \<Rightarrow> None
      | Some (below, rght) \<Rightarrow>
          (case number_siblings f rest (rght + 1) depth of
             None \<Rightarrow> None
           | Some (others, stop) \<Rightarrow>
               Some (below @ \<lparr>ru_pk = rn_pk child, ru_lft = current, ru_rght = rght, ru_depth = depth\<rparr> # others, stop)))"

fun traverse ::
  "fp \<Rightarrow> (string, recover_node list) amap \<Rightarrow> nat \<Rightarrow> dbvalue \<Rightarrow> int \<Rightarrow> int \<Rightarrow> (recover_update list \<times> int) option" where
  "traverse F children 0 parent left depth = None"
| "traverse F children (Suc fuel) parent left depth =
     (case alookup children (value_key F parent) of
        None \<Rightarrow> Some ([], left)
      | Some siblings \<Rightarrow> number_siblings (traverse F children fuel) siblings left depth)"

definition sorted_groups ::
  "fp \<Rightarrow> (recover_node \<Rightarrow> recover_node \<Rightarrow> bool) option \<Rightarrow> recover_node list \<Rightarrow> (string, recover_node list) amap" where
  "sorted_groups F lt nodes =
     map (\<lambda>(k, siblings). (k, sort_by (case lt of None \<Rightarrow> default_less F | Some l \<Rightarrow> l) siblings)) (recover_groups F nodes)"

definition strategy_recover ::
  "fp \<Rightarrow> nat \<Rightarrow> recover_node list \<Rightarrow> (recover_node \<Rightarrow> recover_node \<Rightarrow> bool) option \<Rightarrow> recover_update list option" where
  "strategy_recover F fuel nodes lt =
     map_option fst (traverse F (sorted_groups F lt nodes) fuel VNull 1 0)"

subsection \<open>Reading ordered rows as a forest\<close>

datatype threaded = Threaded (thread_row: row) (thread_children: "threaded list")

definition as_i64 :: "fp \<Rightarrow> dbvalue \<Rightarrow> int result" where
  "as_i64 F v = rbind (from_value F (TInt True 64) v) (\<lambda>x. case x of CInt i \<Rightarrow> Inr i | _ \<Rightarrow> Inl conversion_error)"

definition boundary_of :: "fp \<Rightarrow> row \<Rightarrow> string \<Rightarrow> int result" where
  "boundary_of F r key =
     (case alookup r key of
        None \<Rightarrow> Inl (Runtime_error ''MetalORM: threaded tree row is missing a boundary column'')
      | Some v \<Rightarrow> as_i64 F v)"

text \<open>
  \<open>parse_one\<close> and the loops around it: the siblings that start below the boundary of their parent
  (\<open>None\<close> at the top, where the loop runs to the end of the rows), and the rows left over.
\<close>

function thread_forest ::
  "fp \<Rightarrow> string \<Rightarrow> string \<Rightarrow> int option \<Rightarrow> row list \<Rightarrow> (threaded list \<times> row list) result" where
  "thread_forest F lk rk b [] = Inr ([], [])"
| "thread_forest F lk rk b (r # rest) =
     rbind (case b of None \<Rightarrow> Inr True | Some boundary \<Rightarrow> rbind (boundary_of F r lk) (\<lambda>l. Inr (l < boundary)))
       (\<lambda>inside. if \<not> inside then Inr ([], r # rest)
         else rbind (boundary_of F r rk) (\<lambda>boundary.
           case thread_forest F lk rk (Some boundary) rest of
             Inl e \<Rightarrow> Inl e
           | Inr (children, rest1) \<Rightarrow>
               (if length rest1 \<le> length rest
                then rbind (thread_forest F lk rk b rest1) (\<lambda>(siblings, rest2).
                  Inr (Threaded r children # siblings, rest2))
                else Inr ([], []))))"
  by pat_completeness auto
termination
  by (relation "measure (\<lambda>(F, lk, rk, b, rows). length rows)") auto

definition to_threaded :: "fp \<Rightarrow> row list \<Rightarrow> string \<Rightarrow> string \<Rightarrow> threaded list result" where
  "to_threaded F rows lk rk = rbind (thread_forest F lk rk None rows) (\<lambda>(ts, rest). Inr ts)"

subsection \<open>The consistency check\<close>

record tree_item =
  ti_pk :: dbvalue
  ti_lft :: int
  ti_rght :: int

definition tree_item_of :: "fp \<Rightarrow> string \<Rightarrow> string \<Rightarrow> string \<Rightarrow> row \<Rightarrow> tree_item result" where
  "tree_item_of F pk lk rk r =
     (case (alookup r pk, alookup r lk, alookup r rk) of
        (Some k, Some l, Some m) \<Rightarrow>
          rbind (as_i64 F l) (\<lambda>lft. rbind (as_i64 F m) (\<lambda>rght. Inr \<lparr>ti_pk = k, ti_lft = lft, ti_rght = rght\<rparr>))
      | _ \<Rightarrow> Inl (Runtime_error ''MetalORM: tree validation row is missing required columns''))"

fun overlap_errors :: "fp \<Rightarrow> tree_item \<Rightarrow> tree_item list \<Rightarrow> string list" where
  "overlap_errors F node [] = []"
| "overlap_errors F node (other # others) =
     (if ti_lft other < ti_rght node \<and> ti_rght other > ti_rght node
      then [''Node '' @ value_key F (ti_pk node) @ '' overlaps with node '' @ value_key F (ti_pk other)] else [])
     @ overlap_errors F node others"

fun tree_errors :: "fp \<Rightarrow> tree_item list \<Rightarrow> string list" where
  "tree_errors F [] = []"
| "tree_errors F (node # nodes) =
     (if ti_lft node \<ge> ti_rght node
      then [''Node '' @ value_key F (ti_pk node) @ '': lft must be less than rght''] else [])
     @ (if ti_lft node < 1
        then [''Node '' @ value_key F (ti_pk node) @ '': lft must be positive''] else [])
     @ overlap_errors F node nodes @ tree_errors F nodes"

definition validate_tree :: "fp \<Rightarrow> row list \<Rightarrow> string \<Rightarrow> string \<Rightarrow> string \<Rightarrow> string list result" where
  "validate_tree F rows pk lk rk =
     rbind (rmap_list (tree_item_of F pk lk rk) rows) (\<lambda>items. Inr (tree_errors F (sort_key ti_lft items)))"

subsection \<open>Intervals\<close>

definition encloses :: "int \<Rightarrow> int \<Rightarrow> int \<Rightarrow> int \<Rightarrow> bool" where
  "encloses l r l' r' \<longleftrightarrow> l < l' \<and> r' < r"

definition laminar :: "int \<Rightarrow> int \<Rightarrow> int \<Rightarrow> int \<Rightarrow> bool" where
  "laminar l r l' r' \<longleftrightarrow> r < l' \<or> r' < l \<or> encloses l r l' r' \<or> encloses l' r' l r"

lemma laminar_sym: "laminar l r l' r' = laminar l' r' l r"
  by (auto simp: laminar_def)

lemma overlap_errors_Nil:
  "overlap_errors F n ns = [] \<longleftrightarrow> (\<forall>m \<in> set ns. \<not> (ti_lft m < ti_rght n \<and> ti_rght m > ti_rght n))"
  by (induction ns) auto

lemma tree_errors_Nil:
  "tree_errors F ns = [] \<longleftrightarrow> (\<forall>n \<in> set ns. 1 \<le> ti_lft n \<and> ti_lft n < ti_rght n)
     \<and> sorted_wrt (\<lambda>n m. \<not> (ti_lft m < ti_rght n \<and> ti_rght m > ti_rght n)) ns"
  by (induction ns) (auto simp: overlap_errors_Nil)

lemma sorted_laminar:
  assumes "sorted_wrt (\<lambda>a b. ti_lft a \<le> ti_lft b) ns" "distinct (map ti_lft ns @ map ti_rght ns)"
    and "\<forall>n \<in> set ns. ti_lft n < ti_rght n"
  shows "sorted_wrt (\<lambda>n m. \<not> (ti_lft m < ti_rght n \<and> ti_rght m > ti_rght n)) ns
     \<longleftrightarrow> sorted_wrt (\<lambda>n m. laminar (ti_lft n) (ti_rght n) (ti_lft m) (ti_rght m)) ns"
  using assms
proof (induction ns)
  case (Cons n ns)
  have out: "ti_lft n \<notin> ti_lft ` set ns" "ti_rght n \<notin> ti_rght ` set ns" "ti_rght n \<notin> ti_lft ` set ns"
    using Cons.prems(2) by auto
  have "(\<not> (ti_lft m < ti_rght n \<and> ti_rght m > ti_rght n)) = laminar (ti_lft n) (ti_rght n) (ti_lft m) (ti_rght m)"
    if m: "m \<in> set ns" for m
  proof -
    have "ti_lft m \<in> ti_lft ` set ns" "ti_rght m \<in> ti_rght ` set ns" using m by auto
    with out have "ti_lft n \<noteq> ti_lft m" "ti_rght n \<noteq> ti_rght m" "ti_lft m \<noteq> ti_rght n" by metis+
    moreover have "ti_lft n \<le> ti_lft m" "ti_lft n < ti_rght n" "ti_lft m < ti_rght m"
      using Cons.prems m by auto
    ultimately show ?thesis by (auto simp: laminar_def encloses_def)
  qed
  with Cons show ?case by auto
qed simp

subsection \<open>Reading back a forest\<close>

text \<open>Every row is read once: what is left over is no longer than the input, and nothing is lost.\<close>

fun flatten :: "threaded \<Rightarrow> row list" where
  "flatten (Threaded r ts) = r # concat (map flatten ts)"

lemma thread_forest_ConsE:
  assumes "thread_forest F lk rk b (r # rows) = Inr (ts, rest)"
  obtains (stop) "b \<noteq> None" "ts = []" "rest = r # rows"
  | (node) bd cs rest1 sb where "boundary_of F r rk = Inr bd" "thread_forest F lk rk (Some bd) rows = Inr (cs, rest1)"
      "length rest1 \<le> length rows \<Longrightarrow> thread_forest F lk rk b rest1 = Inr (sb, rest) \<and> ts = Threaded r cs # sb"
proof -
  let ?inside = "case b of None \<Rightarrow> Inr True | Some boundary \<Rightarrow> rbind (boundary_of F r lk) (\<lambda>l. Inr (l < boundary))"
  from assms obtain inside where i: "?inside = Inr inside" by (cases ?inside) auto
  show ?thesis
  proof (cases inside)
    case False
    with assms i stop show ?thesis by (cases b) auto
  next
    case True
    with assms i obtain bd where bd: "boundary_of F r rk = Inr bd" by (cases "boundary_of F r rk") auto
    with assms i True obtain cs rest1 where cs: "thread_forest F lk rk (Some bd) rows = Inr (cs, rest1)"
      by (cases "thread_forest F lk rk (Some bd) rows") auto
    show ?thesis
    proof (cases "length rest1 \<le> length rows")
      case len: True
      with assms i True bd cs obtain sb where "thread_forest F lk rk b rest1 = Inr (sb, rest)"
        and "ts = Threaded r cs # sb" by (auto simp: result_simps)
      with node [OF bd cs] show ?thesis by blast
    qed (use node [OF bd cs] in simp)
  qed
qed

lemma thread_forest_flat:
  "thread_forest F lk rk b rows = Inr (ts, rest) \<Longrightarrow> rows = concat (map flatten ts) @ rest"
proof (induction F lk rk b rows arbitrary: ts rest rule: thread_forest.induct)
  case (2 F lk rk b r rows)
  from 2(3) show ?case
  proof (cases rule: thread_forest_ConsE)
    case (node bd cs rest1 sb)
    have rows: "rows = concat (map flatten cs) @ rest1" by (rule 2(1) [OF _ node(2), of True]) simp
    then have len: "length rest1 \<le> length rows" by simp
    have "rest1 = concat (map flatten sb) @ rest"
      using 2(2) [OF _ node(2) refl len, of True] node(3) [OF len] by simp
    with rows node(3) [OF len] show ?thesis by simp
  qed simp
qed auto

lemma thread_forest_all: "thread_forest F lk rk b rows = Inr (ts, rest) \<Longrightarrow> b = None \<Longrightarrow> rest = []"
proof (induction F lk rk b rows arbitrary: ts rest rule: thread_forest.induct)
  case (2 F lk rk b r rows)
  from 2(3) show ?case
  proof (cases rule: thread_forest_ConsE)
    case (node bd cs rest1 sb)
    have "length rest1 \<le> length rows" using thread_forest_flat [OF node(2)] by simp
    from 2(2) [OF _ node(2) refl this, of True] node(3) [OF this] 2(4) show ?thesis by simp
  qed (use 2(4) in simp)
qed simp

lemma thread_forest_step:
  assumes "case b of None \<Rightarrow> True | Some bd \<Rightarrow> (\<exists>l. boundary_of F r lk = Inr l \<and> l < bd)"
    and "boundary_of F r rk = Inr bd" "thread_forest F lk rk (Some bd) rows = Inr (cs, rest1)"
    and "thread_forest F lk rk b rest1 = Inr (sb, rest)"
  shows "thread_forest F lk rk b (r # rows) = Inr (Threaded r cs # sb, rest)"
proof -
  have "length rest1 \<le> length rows" using thread_forest_flat [OF assms(3)] by simp
  with assms show ?thesis by (auto split: option.splits)
qed

text \<open>
  A forest whose rows carry nested set bounds: the children of a node start inside it and end before
  it does, and a sibling starts after the node has ended.
\<close>

definition left_of :: "fp \<Rightarrow> string \<Rightarrow> threaded \<Rightarrow> int option" where
  "left_of F lk t = (case boundary_of F (thread_row t) lk of Inl e \<Rightarrow> None | Inr l \<Rightarrow> Some l)"

definition right_of :: "fp \<Rightarrow> string \<Rightarrow> threaded \<Rightarrow> int option" where
  "right_of F rk t = (case boundary_of F (thread_row t) rk of Inl e \<Rightarrow> None | Inr l \<Rightarrow> Some l)"

definition inside_of :: "fp \<Rightarrow> string \<Rightarrow> string \<Rightarrow> int \<Rightarrow> threaded \<Rightarrow> bool" where
  "inside_of F lk rk bd t \<longleftrightarrow> (case (left_of F lk t, right_of F rk t) of (Some l, Some r) \<Rightarrow> l < bd \<and> r < bd | _ \<Rightarrow> False)"

fun nested_forest :: "fp \<Rightarrow> string \<Rightarrow> string \<Rightarrow> threaded list \<Rightarrow> bool" where
  "nested_forest F lk rk [] \<longleftrightarrow> True"
| "nested_forest F lk rk (Threaded r cs # ts) \<longleftrightarrow>
     (case boundary_of F r rk of
        Inl e \<Rightarrow> False
      | Inr bd \<Rightarrow> list_all (inside_of F lk rk bd) cs \<and> nested_forest F lk rk cs \<and> nested_forest F lk rk ts
          \<and> (case ts of [] \<Rightarrow> True | t # _ \<Rightarrow> (case left_of F lk t of None \<Rightarrow> False | Some l \<Rightarrow> bd \<le> l)))"

text \<open>The rows after the forest start at or after the boundary.\<close>

definition stops_at :: "fp \<Rightarrow> string \<Rightarrow> int option \<Rightarrow> row list \<Rightarrow> bool" where
  "stops_at F lk b rest \<longleftrightarrow>
     (case rest of [] \<Rightarrow> True
      | r # _ \<Rightarrow> (case (b, boundary_of F r lk) of (Some bd, Inr l) \<Rightarrow> bd \<le> l | _ \<Rightarrow> False))"

lemma thread_forest_back:
  "nested_forest F lk rk ts \<Longrightarrow> (\<forall>bd. b = Some bd \<longrightarrow> list_all (inside_of F lk rk bd) ts) \<Longrightarrow>
   stops_at F lk b rest \<Longrightarrow> thread_forest F lk rk b (concat (map flatten ts) @ rest) = Inr (ts, rest)"
proof (induction F lk rk ts arbitrary: b rest rule: nested_forest.induct)
  case (1 F lk rk)
  then show ?case by (cases rest) (auto simp: stops_at_def split: option.splits sum.splits)
next
  case (2 F lk rk r cs ts)
  from 2(3) obtain bd where bd: "boundary_of F r rk = Inr bd" and cs: "list_all (inside_of F lk rk bd) cs"
      "nested_forest F lk rk cs" and ts: "nested_forest F lk rk ts"
    and nxt: "case ts of [] \<Rightarrow> True | t # _ \<Rightarrow> (case left_of F lk t of None \<Rightarrow> False | Some l \<Rightarrow> bd \<le> l)"
    by (auto split: sum.splits)
  have start: "case b of None \<Rightarrow> True | Some bd \<Rightarrow> (\<exists>l. boundary_of F r lk = Inr l \<and> l < bd)"
    and below: "\<And>b'. b = Some b' \<Longrightarrow> bd < b'"
    using 2(4) bd by (auto simp: inside_of_def left_of_def right_of_def split: option.splits sum.splits)
  have stop: "stops_at F lk (Some bd) (concat (map flatten ts) @ rest)"
  proof (cases ts)
    case Nil
    with 2(5) below show ?thesis by (fastforce simp: stops_at_def split: list.splits option.splits sum.splits)
  next
    case (Cons t u)
    obtain r' cs' where t: "t = Threaded r' cs'" by (cases t)
    from nxt Cons t show ?thesis by (auto simp: stops_at_def left_of_def split: option.splits sum.splits)
  qed
  have "thread_forest F lk rk (Some bd) (concat (map flatten cs) @ concat (map flatten ts) @ rest)
      = Inr (cs, concat (map flatten ts) @ rest)"
    using 2(1) [OF bd cs(2) _ stop] cs(1) by simp
  moreover have "thread_forest F lk rk b (concat (map flatten ts) @ rest) = Inr (ts, rest)"
    using 2(2) [OF bd ts _ 2(5)] 2(4) by simp
  ultimately show ?case using thread_forest_step [where b = b, OF start bd] by simp
qed

subsection \<open>The numbering of a tree\<close>

lemma alookup_groups:
  "alookup (recover_groups F ns) k =
     (let g = filter (\<lambda>n. value_key F (rn_parent n) = k) ns in if g = [] then None else Some g)"
proof -
  have "alookup (foldl (group_add F) m ns) k =
      (let g = filter (\<lambda>n. value_key F (rn_parent n) = k) ns
       in if g = [] then alookup m k else Some ((case alookup m k of None \<Rightarrow> [] | Some xs \<Rightarrow> xs) @ g))" for m
    by (induction ns arbitrary: m) (auto simp: group_add_def Let_def split: option.splits)
  from this [of "[]"] show ?thesis by (simp add: recover_groups_def Let_def)
qed

lemma mset_sort_by [simp]: "mset (sort_by lt xs) = mset xs"
proof -
  have ins: "mset (insert_by lt x ys) = add_mset x (mset ys)" for x ys
    by (induction ys) auto
  show ?thesis by (induction xs) (auto simp: sort_by_def ins)
qed

lemma set_sort_by [simp]: "set (sort_by lt xs) = set xs"
  by (metis mset_sort_by set_mset_mset)

lemma distinct_sort_by [simp]: "distinct (sort_by lt xs) = distinct xs"
  by (metis mset_sort_by mset_eq_imp_distinct_iff)

definition children_of :: "fp \<Rightarrow> recover_node list \<Rightarrow> dbvalue \<Rightarrow> recover_node list" where
  "children_of F nodes p = filter (\<lambda>n. value_key F (rn_parent n) = value_key F p) nodes"

lemma alookup_map_snd: "alookup (map (\<lambda>(k, v). (k, f v)) m) k = map_option f (alookup m k)"
  by (induction m) (auto simp: alookup_def)

lemma sorted_groups_lookup:
  "\<exists>srt. (\<forall>xs. mset (srt xs) = mset xs) \<and> alookup (sorted_groups F lt nodes) (value_key F p) =
     (if children_of F nodes p = [] then None else Some (srt (children_of F nodes p)))"
  by (rule exI [of _ "sort_by (case lt of None \<Rightarrow> default_less F | Some l \<Rightarrow> l)"])
    (simp add: sorted_groups_def alookup_map_snd alookup_groups children_of_def Let_def)

text \<open>
  One induction gives the whole shape of a numbering: consecutive numbers are used up, the intervals
  are nested, and every child of a numbered node is numbered one level below it and inside it.
\<close>

definition well_numbered :: "int \<Rightarrow> int \<Rightarrow> int \<Rightarrow> recover_update list \<Rightarrow> bool" where
  "well_numbered left stop depth us \<longleftrightarrow>
     stop = left + 2 * int (length us)
     \<and> (\<forall>u \<in> set us. left \<le> ru_lft u \<and> ru_lft u < ru_rght u \<and> ru_rght u < stop \<and> depth \<le> ru_depth u)
     \<and> sorted_wrt (\<lambda>u v. laminar (ru_lft u) (ru_rght u) (ru_lft v) (ru_rght v)) us"

definition has_children :: "recover_update list \<Rightarrow> recover_node list \<Rightarrow> int \<Rightarrow> (recover_update \<Rightarrow> bool) \<Rightarrow> bool" where
  "has_children us cs depth Q \<longleftrightarrow> (\<forall>c \<in> set cs. \<exists>v \<in> set us. ru_pk v = rn_pk c \<and> ru_depth v = depth \<and> Q v)"

definition closed_below :: "(dbvalue \<Rightarrow> recover_node list) \<Rightarrow> recover_update list \<Rightarrow> bool" where
  "closed_below ch us \<longleftrightarrow> (\<forall>u \<in> set us. has_children us (ch (ru_pk u)) (ru_depth u + 1)
     (\<lambda>v. encloses (ru_lft u) (ru_rght u) (ru_lft v) (ru_rght v)))"

lemma well_numbered_Nil [simp]: "well_numbered left left depth []"
  by (simp add: well_numbered_def)

lemma has_children_mono:
  "has_children us cs d P \<Longrightarrow> set us \<subseteq> set vs \<Longrightarrow> (\<And>v. v \<in> set us \<Longrightarrow> P v \<Longrightarrow> Q v) \<Longrightarrow> has_children vs cs d Q"
  unfolding has_children_def by (meson subsetD)

lemma number_siblings_shape:
  assumes "\<And>c us e l d. c \<in> set cs \<Longrightarrow> f (rn_pk c) l d = Some (us, e) \<Longrightarrow>
      well_numbered l e d us \<and> has_children us (ch (rn_pk c)) d (\<lambda>_. True) \<and> closed_below ch us"
  shows "number_siblings f cs left depth = Some (us, stop) \<Longrightarrow>
    well_numbered left stop depth us \<and> has_children us cs depth (\<lambda>_. True) \<and> closed_below ch us"
  using assms
proof (induction cs arbitrary: left us)
  case Nil
  then show ?case by (simp add: has_children_def closed_below_def)
next
  case (Cons c cs)
  from Cons.prems(1) obtain below rght others where
    b: "f (rn_pk c) (left + 1) (depth + 1) = Some (below, rght)"
    and o: "number_siblings f cs (rght + 1) depth = Some (others, stop)"
    and us: "us = below @ \<lparr>ru_pk = rn_pk c, ru_lft = left, ru_rght = rght, ru_depth = depth\<rparr> # others"
    by (auto split: option.splits)
  let ?u = "\<lparr>ru_pk = rn_pk c, ru_lft = left, ru_rght = rght, ru_depth = depth\<rparr>"
  have B: "well_numbered (left + 1) rght (depth + 1) below" "has_children below (ch (rn_pk c)) (depth + 1) (\<lambda>_. True)"
      "closed_below ch below"
    using Cons.prems(2) [OF _ b] by simp_all
  have O: "well_numbered (rght + 1) stop depth others" "has_children others cs depth (\<lambda>_. True)"
      "closed_below ch others"
    using Cons.IH [OF o] Cons.prems(2) by (meson list.set_intros(2))+
  have "well_numbered left stop depth us"
    using B(1) O(1) unfolding us
    by (fastforce simp: well_numbered_def sorted_wrt_append laminar_def encloses_def)
  moreover have "has_children us (c # cs) depth (\<lambda>_. True)"
    using O(2) by (auto simp: has_children_def us)
  moreover have "closed_below ch us"
  proof -
    have "has_children us (ch (rn_pk c)) (depth + 1) (\<lambda>v. encloses left rght (ru_lft v) (ru_rght v))"
      by (rule has_children_mono [OF B(2)]) (use B(1) in \<open>auto simp: us well_numbered_def encloses_def\<close>)
    moreover have "has_children us (ch (ru_pk u)) (ru_depth u + 1)
        (\<lambda>v. encloses (ru_lft u) (ru_rght u) (ru_lft v) (ru_rght v))" if "u \<in> set below \<union> set others" for u
    proof -
      have sub: "set below \<subseteq> set us" "set others \<subseteq> set us" by (auto simp: us)
      have "has_children vs (ch (ru_pk u)) (ru_depth u + 1)
          (\<lambda>v. encloses (ru_lft u) (ru_rght u) (ru_lft v) (ru_rght v)) \<Longrightarrow> set vs \<subseteq> set us \<Longrightarrow> ?thesis" for vs
        by (rule has_children_mono)
      with that B(3) O(3) sub show ?thesis unfolding closed_below_def by blast
    qed
    ultimately show ?thesis by (auto simp: closed_below_def us)
  qed
  ultimately show ?case by blast
qed

lemma traverse_shape:
  "traverse F (sorted_groups F lt nodes) fuel p left depth = Some (us, stop) \<Longrightarrow>
     well_numbered left stop depth us \<and> has_children us (children_of F nodes p) depth (\<lambda>_. True)
     \<and> closed_below (children_of F nodes) us"
proof (induction fuel arbitrary: p left depth us stop)
  case (Suc fuel)
  obtain srt where srt: "\<And>xs. mset (srt xs) = mset xs" and g: "alookup (sorted_groups F lt nodes) (value_key F p) =
     (if children_of F nodes p = [] then None else Some (srt (children_of F nodes p)))"
    using sorted_groups_lookup by blast
  have ss: "set (srt xs) = set xs" for xs using srt by (metis set_mset_mset)
  show ?case
  proof (cases "children_of F nodes p = []")
    case True
    with Suc.prems g show ?thesis by (auto simp: has_children_def closed_below_def)
  next
    case False
    with Suc.prems g have "number_siblings (traverse F (sorted_groups F lt nodes) fuel) (srt (children_of F nodes p)) left depth
        = Some (us, stop)" by simp
    from number_siblings_shape [OF _ this, where ch = "children_of F nodes"] Suc.IH ss show ?thesis
      by (simp add: has_children_def)
  qed
qed simp

text \<open>
  The parent of a key and the level of a node: \<open>on_level F nodes m k\<close> when \<open>m\<close> steps along the parent
  links lead from the node with key \<open>k\<close> to the root.
\<close>

abbreviation node_key :: "fp \<Rightarrow> recover_node \<Rightarrow> string" where
  "node_key F n \<equiv> value_key F (rn_pk n)"

abbreviation upd_key :: "fp \<Rightarrow> recover_update \<Rightarrow> string" where
  "upd_key F u \<equiv> value_key F (ru_pk u)"

definition parent_key :: "fp \<Rightarrow> recover_node list \<Rightarrow> string \<Rightarrow> string" where
  "parent_key F nodes k = (case map_of (map (\<lambda>n. (node_key F n, value_key F (rn_parent n))) nodes) k of
     None \<Rightarrow> ''null'' | Some p \<Rightarrow> p)"

fun on_level :: "fp \<Rightarrow> recover_node list \<Rightarrow> nat \<Rightarrow> string \<Rightarrow> bool" where
  "on_level F nodes 0 k \<longleftrightarrow> k = ''null''"
| "on_level F nodes (Suc m) k \<longleftrightarrow> k \<in> set (map (node_key F) nodes) \<and> on_level F nodes m (parent_key F nodes k)"

fun is_below :: "fp \<Rightarrow> recover_node list \<Rightarrow> nat \<Rightarrow> string \<Rightarrow> string \<Rightarrow> bool" where
  "is_below F nodes 0 x k \<longleftrightarrow> x = k"
| "is_below F nodes (Suc i) x k \<longleftrightarrow> x \<in> set (map (node_key F) nodes) \<and> is_below F nodes i (parent_key F nodes x) k"

definition keyed :: "fp \<Rightarrow> recover_node list \<Rightarrow> bool" where
  "keyed F nodes \<longleftrightarrow> distinct (map (node_key F) nodes) \<and> ''null'' \<notin> set (map (node_key F) nodes)"

lemma parent_key_node:
  "keyed F nodes \<Longrightarrow> n \<in> set nodes \<Longrightarrow> parent_key F nodes (node_key F n) = value_key F (rn_parent n)"
proof -
  assume k: "keyed F nodes" and n: "n \<in> set nodes"
  have "map_of (map (\<lambda>n. (node_key F n, value_key F (rn_parent n))) nodes) (node_key F n) = Some (value_key F (rn_parent n))"
    by (rule map_of_is_SomeI) (use k n in \<open>auto simp: keyed_def comp_def\<close>)
  then show ?thesis by (simp add: parent_key_def)
qed

lemma level_unique: "keyed F nodes \<Longrightarrow> on_level F nodes m k \<Longrightarrow> on_level F nodes m' k \<Longrightarrow> m = m'"
proof (induction m arbitrary: k m')
  case 0
  then show ?case by (cases m') (auto simp: keyed_def)
next
  case (Suc m)
  then show ?case by (cases m') (auto simp: keyed_def)
qed

lemma level_below: "is_below F nodes i x k \<Longrightarrow> on_level F nodes m k \<Longrightarrow> on_level F nodes (m + i) x"
  by (induction i arbitrary: x) auto

lemma below_unique: "is_below F nodes i x k \<Longrightarrow> is_below F nodes i x k' \<Longrightarrow> k = k'"
  by (induction i arbitrary: x) auto

lemma below_trans: "is_below F nodes i x k \<Longrightarrow> is_below F nodes j k l \<Longrightarrow> is_below F nodes (i + j) x l"
  by (induction i arbitrary: x) auto

lemma level_bound:
  assumes "keyed F nodes" "on_level F nodes m k"
  shows "m \<le> length nodes"
proof -
  let ?a = "\<lambda>i. (parent_key F nodes ^^ i) k"
  have lv: "i \<le> m \<Longrightarrow> on_level F nodes (m - i) (?a i)" for i
  proof (induction i)
    case (Suc i)
    then obtain j where j: "m - i = Suc j" by (metis Suc_diff_Suc Suc_le_lessD)
    moreover from j have "m - Suc i = j" by simp
    ultimately show ?case using Suc by simp
  qed (use assms in simp)
  have "?a ` {..<m} \<subseteq> node_key F ` set nodes"
  proof (rule image_subsetI)
    fix i assume "i \<in> {..<m}"
    then obtain j where "m - i = Suc j" "i \<le> m" by (metis Suc_diff_Suc lessThan_iff less_imp_le)
    with lv [of i] show "?a i \<in> node_key F ` set nodes" by simp
  qed
  moreover have "inj_on ?a {..<m}"
  proof (rule inj_onI)
    fix i j assume ij: "i \<in> {..<m}" "j \<in> {..<m}" "?a i = ?a j"
    have "m - i = m - j"
      by (rule level_unique [OF assms(1) lv]) (use ij lv [of j] in auto)
    with ij show "i = j" by auto
  qed
  ultimately have "card {..<m} \<le> card (node_key F ` set nodes)" by (intro card_inj_on_le) auto
  also have "\<dots> \<le> length nodes" by (meson card_image_le card_length finite_set le_trans)
  finally show ?thesis by simp
qed

lemma child_key:
  "keyed F nodes \<Longrightarrow> c \<in> set (children_of F nodes p) \<Longrightarrow>
     node_key F c \<in> set (map (node_key F) nodes) \<and> parent_key F nodes (node_key F c) = value_key F p"
  using parent_key_node by (auto simp: children_of_def)

lemma children_distinct: "keyed F nodes \<Longrightarrow> distinct (map (node_key F) (children_of F nodes p))"
  by (simp add: keyed_def children_of_def distinct_map_filter)

lemma number_siblings_total:
  "(\<And>c l d. c \<in> set cs \<Longrightarrow> f (rn_pk c) l d \<noteq> None) \<Longrightarrow> number_siblings f cs left depth \<noteq> None"
proof (induction cs arbitrary: left)
  case (Cons c cs)
  obtain b r where "f (rn_pk c) (left + 1) (depth + 1) = Some (b, r)"
    using Cons.prems [of c "left + 1" "depth + 1"] by auto
  moreover have "number_siblings f cs (r + 1) depth \<noteq> None"
    using Cons.prems by (intro Cons.IH) simp
  ultimately show ?case by (auto split: option.splits)
qed simp

text \<open>As much fuel as there are nodes is enough: the way down from the root never meets a node twice.\<close>

lemma traverse_total:
  assumes "keyed F nodes"
  shows "on_level F nodes m (value_key F p) \<Longrightarrow> length nodes < fuel + m \<Longrightarrow>
    traverse F (sorted_groups F lt nodes) fuel p left depth \<noteq> None"
proof (induction fuel arbitrary: p left depth m)
  case 0
  with level_bound [OF assms 0(1)] show ?case by simp
next
  case (Suc fuel)
  obtain srt where srt: "\<And>xs. mset (srt xs) = mset xs" and g: "alookup (sorted_groups F lt nodes) (value_key F p) =
     (if children_of F nodes p = [] then None else Some (srt (children_of F nodes p)))"
    using sorted_groups_lookup by blast
  have "traverse F (sorted_groups F lt nodes) fuel (rn_pk c) l d \<noteq> None" if "c \<in> set (children_of F nodes p)" for c l d
  proof (rule Suc.IH)
    show "on_level F nodes (Suc m) (value_key F (rn_pk c))"
      using child_key [OF assms that] Suc.prems(1) by simp
  qed (use Suc.prems in simp)
  moreover have "set (srt (children_of F nodes p)) = set (children_of F nodes p)" using srt by (metis set_mset_mset)
  ultimately have "number_siblings (traverse F (sorted_groups F lt nodes) fuel) (srt (children_of F nodes p)) left depth \<noteq> None"
    by (intro number_siblings_total) simp
  with g show ?case by simp
qed

lemma number_siblings_keys:
  assumes "keyed F nodes"
    and "\<And>c us e l d. c \<in> set cs \<Longrightarrow> f (rn_pk c) l d = Some (us, e) \<Longrightarrow>
      distinct (map (upd_key F) us) \<and> (\<forall>u \<in> set us. \<exists>i. is_below F nodes (Suc i) (upd_key F u) (node_key F c))"
  shows "(\<forall>c \<in> set cs. on_level F nodes m (node_key F c)) \<Longrightarrow> distinct (map (node_key F) cs) \<Longrightarrow>
    number_siblings f cs left depth = Some (us, stop) \<Longrightarrow>
    distinct (map (upd_key F) us) \<and> (\<forall>u \<in> set us. \<exists>c \<in> set cs. \<exists>i. is_below F nodes i (upd_key F u) (node_key F c))"
  using assms(2)
proof (induction cs arbitrary: left us)
  case (Cons c cs)
  from Cons.prems(3) obtain below rght others where
    b: "f (rn_pk c) (left + 1) (depth + 1) = Some (below, rght)"
    and o: "number_siblings f cs (rght + 1) depth = Some (others, stop)"
    and us: "us = below @ \<lparr>ru_pk = rn_pk c, ru_lft = left, ru_rght = rght, ru_depth = depth\<rparr> # others"
    by (auto split: option.splits)
  have B: "distinct (map (upd_key F) below)"
      "\<And>u. u \<in> set below \<Longrightarrow> \<exists>i. is_below F nodes (Suc i) (upd_key F u) (node_key F c)"
    using Cons.prems(4) [OF _ b] by simp_all
  have "distinct (map (upd_key F) others) \<and>
      (\<forall>u \<in> set others. \<exists>c \<in> set cs. \<exists>i. is_below F nodes i (upd_key F u) (node_key F c))"
    by (rule Cons.IH [OF _ _ o]) (use Cons.prems(1,2) in simp, use Cons.prems(2) in simp,
        use Cons.prems(4) in \<open>meson list.set_intros(2)\<close>)
  then have O: "distinct (map (upd_key F) others)"
      "\<And>u. u \<in> set others \<Longrightarrow> \<exists>c \<in> set cs. \<exists>i. is_below F nodes i (upd_key F u) (node_key F c)" by auto
  have lc: "on_level F nodes m (node_key F c)" and lcs: "\<And>c'. c' \<in> set cs \<Longrightarrow> on_level F nodes m (node_key F c')"
    and dc: "\<And>c'. c' \<in> set cs \<Longrightarrow> node_key F c \<noteq> node_key F c'"
    using Cons.prems(1,2) by auto
  have apart: False if "is_below F nodes i x (node_key F c)" "is_below F nodes j x (node_key F c')" "c' \<in> set cs" for x i j c'
  proof -
    have "m + i = m + j" by (rule level_unique [OF assms(1) level_below [OF that(1) lc] level_below [OF that(2) lcs [OF that(3)]]])
    with that below_unique dc show False by (metis add_left_cancel)
  qed
  have self: "\<not> is_below F nodes (Suc i) (node_key F c) (node_key F c)" for i
    using level_unique [OF assms(1) lc level_below [OF _ lc]] by fastforce
  have "upd_key F u \<noteq> upd_key F v" if "u \<in> set below" "v \<in> set others" for u v
    using B(2) [OF that(1)] O(2) [OF that(2)] apart by metis
  then have "upd_key F ` set below \<inter> upd_key F ` set others = {}" by blast
  moreover have "node_key F c \<noteq> upd_key F u" if "u \<in> set below" for u
    using B(2) [OF that] self by metis
  then have "node_key F c \<notin> upd_key F ` set below" by blast
  moreover have "node_key F c \<noteq> upd_key F v" if "v \<in> set others" for v
    using O(2) [OF that] apart [where i = 0] by (metis is_below.simps(1))
  then have "node_key F c \<notin> upd_key F ` set others" by blast
  ultimately have "distinct (map (upd_key F) us)" using B(1) O(1) by (simp add: us)
  moreover have "\<exists>c' \<in> set (c # cs). \<exists>i. is_below F nodes i (upd_key F u) (node_key F c')" if "u \<in> set us" for u
  proof -
    have "is_below F nodes 0 (node_key F c) (node_key F c)" by simp
    with that B(2) [of u] O(2) [of u] show ?thesis by (auto simp: us simp del: is_below.simps)
  qed
  ultimately show ?case by blast
qed simp

lemma traverse_keys:
  assumes "keyed F nodes"
  shows "on_level F nodes m (value_key F p) \<Longrightarrow>
    traverse F (sorted_groups F lt nodes) fuel p left depth = Some (us, stop) \<Longrightarrow>
    distinct (map (upd_key F) us) \<and> (\<forall>u \<in> set us. \<exists>i. is_below F nodes (Suc i) (upd_key F u) (value_key F p))"
proof (induction fuel arbitrary: p left depth m us stop)
  case (Suc fuel)
  obtain srt where srt: "\<And>xs. mset (srt xs) = mset xs" and g: "alookup (sorted_groups F lt nodes) (value_key F p) =
     (if children_of F nodes p = [] then None else Some (srt (children_of F nodes p)))"
    using sorted_groups_lookup by blast
  have ss: "set (srt xs) = set xs" for xs using srt by (metis set_mset_mset)
  have sd: "distinct (map (node_key F) (srt xs)) = distinct (map (node_key F) xs)" for xs
    using srt [of xs] by (metis mset_eq_imp_distinct_iff mset_map)
  have lv: "on_level F nodes (Suc m) (node_key F c)" if "c \<in> set (children_of F nodes p)" for c
    using child_key [OF assms that] Suc.prems(1) by simp
  show ?case
  proof (cases "children_of F nodes p = []")
    case True
    with Suc.prems g show ?thesis by simp
  next
    case False
    with Suc.prems g have run: "number_siblings (traverse F (sorted_groups F lt nodes) fuel) (srt (children_of F nodes p)) left depth
        = Some (us, stop)" by simp
    have "distinct (map (upd_key F) us) \<and>
      (\<forall>u \<in> set us. \<exists>c \<in> set (srt (children_of F nodes p)). \<exists>i. is_below F nodes i (upd_key F u) (node_key F c))"
      by (rule number_siblings_keys [OF assms _ _ _ run, where m = "Suc m"])
        (use Suc.IH [OF lv] lv children_distinct [OF assms] in \<open>auto simp: ss sd\<close>)
    moreover have "is_below F nodes (Suc i) x (value_key F p)"
      if "is_below F nodes i x (node_key F c)" "c \<in> set (children_of F nodes p)" for i x c
      using below_trans [OF that(1), of 1 "value_key F p"] child_key [OF assms that(2)] by simp
    ultimately show ?thesis unfolding ss by blast
  qed
qed simp

subsection \<open>Properties\<close>

text \<open>
  C37. \<open>recover\<close> rebuilds the nested set from the parent links, and always ends: for nodes with
  distinct primary keys, none of them NULL, it numbers exactly the nodes whose parent links lead to
  a root, each once; the intervals are pairwise nested or disjoint and fill \<open>1 .. 2n\<close>; roots have
  depth 0, and the interval of a node lies inside its parent's, one level deeper.
\<close>

theorem recover_rebuilds_tree:
  assumes "distinct (map (node_key F) nodes)" "''null'' \<notin> set (map (node_key F) nodes)"
  shows "\<exists>us. strategy_recover F (Suc (length nodes)) nodes lt = Some us
     \<and> distinct (map (upd_key F) us)
     \<and> upd_key F ` set us = {k. \<exists>m. on_level F nodes (Suc m) k}
     \<and> (\<forall>u \<in> set us. 1 \<le> ru_lft u \<and> ru_lft u < ru_rght u \<and> ru_rght u \<le> 2 * int (length us))
     \<and> sorted_wrt (\<lambda>u v. laminar (ru_lft u) (ru_rght u) (ru_lft v) (ru_rght v)) us
     \<and> (\<forall>n \<in> set nodes. \<forall>v \<in> set us. upd_key F v = node_key F n \<longrightarrow>
          (value_key F (rn_parent n) = ''null'' \<longrightarrow> ru_depth v = 0)
          \<and> (\<forall>u \<in> set us. upd_key F u = value_key F (rn_parent n) \<longrightarrow>
               encloses (ru_lft u) (ru_rght u) (ru_lft v) (ru_rght v) \<and> ru_depth v = ru_depth u + 1))"
proof -
  have k: "keyed F nodes" using assms by (simp add: keyed_def)
  have root: "on_level F nodes 0 (value_key F VNull)" by simp
  obtain us stop where run: "traverse F (sorted_groups F lt nodes) (Suc (length nodes)) VNull 1 0 = Some (us, stop)"
    using traverse_total [OF k root, of "Suc (length nodes)"] by fastforce
  note shape = traverse_shape [OF run] and keys = traverse_keys [OF k root run]
  have W: "well_numbered 1 stop 0 us" and top: "has_children us (children_of F nodes VNull) 0 (\<lambda>_. True)"
    and closed: "closed_below (children_of F nodes) us" using shape by auto
  have dist: "distinct (map (upd_key F) us)" using keys by simp
  have inj: "u = v" if "u \<in> set us" "v \<in> set us" "upd_key F u = upd_key F v" for u v
    using dist that by (metis (mono_tags, lifting) distinct_map inj_onD)
  have sound: "\<exists>m. on_level F nodes (Suc m) (upd_key F u)" if "u \<in> set us" for u
    using keys that level_below [OF _ root] by (metis add_0)
  have complete: "on_level F nodes (Suc m) key \<Longrightarrow> key \<in> upd_key F ` set us" for m key
  proof (induction m arbitrary: key)
    case (0 key)
    then obtain n where n: "n \<in> set nodes" "key = node_key F n" by auto
    with 0 have "n \<in> set (children_of F nodes VNull)" by (simp add: children_of_def parent_key_node [OF k])
    with top n show ?case by (force simp: has_children_def)
  next
    case (Suc m key)
    then obtain n where n: "n \<in> set nodes" "key = node_key F n" by auto
    from Suc.prems have "on_level F nodes (Suc m) (parent_key F nodes key)" by simp
    from Suc.IH [OF this] n obtain u where u: "u \<in> set us" "value_key F (rn_parent n) = upd_key F u"
      by (auto simp: parent_key_node [OF k])
    with n have "n \<in> set (children_of F nodes (ru_pk u))" by (simp add: children_of_def)
    with closed u n show ?case by (force simp: closed_below_def has_children_def)
  qed
  have links: "(value_key F (rn_parent n) = ''null'' \<longrightarrow> ru_depth v = 0)
      \<and> (\<forall>u \<in> set us. upd_key F u = value_key F (rn_parent n) \<longrightarrow>
           encloses (ru_lft u) (ru_rght u) (ru_lft v) (ru_rght v) \<and> ru_depth v = ru_depth u + 1)"
    if n: "n \<in> set nodes" and v: "v \<in> set us" "upd_key F v = node_key F n" for n v
  proof (intro conjI impI ballI)
    assume "value_key F (rn_parent n) = ''null''"
    then have "n \<in> set (children_of F nodes VNull)" using n by (simp add: children_of_def)
    with top obtain w where "w \<in> set us" "ru_pk w = rn_pk n" "ru_depth w = 0" by (auto simp: has_children_def)
    with inj [OF v(1), of w] v(2) show "ru_depth v = 0" by simp
  next
    fix u assume u: "u \<in> set us" "upd_key F u = value_key F (rn_parent n)"
    then have "n \<in> set (children_of F nodes (ru_pk u))" using n by (simp add: children_of_def)
    with closed u(1) obtain w where "w \<in> set us" "ru_pk w = rn_pk n" "ru_depth w = ru_depth u + 1"
        "encloses (ru_lft u) (ru_rght u) (ru_lft w) (ru_rght w)"
      by (auto simp: closed_below_def has_children_def)
    with inj [OF v(1), of w] v(2)
    show "encloses (ru_lft u) (ru_rght u) (ru_lft v) (ru_rght v)" "ru_depth v = ru_depth u + 1" by simp_all
  qed
  have "strategy_recover F (Suc (length nodes)) nodes lt = Some us" using run by (simp add: strategy_recover_def)
  moreover have "upd_key F ` set us = {k. \<exists>m. on_level F nodes (Suc m) k}" using sound complete by blast
  moreover have "\<forall>u \<in> set us. 1 \<le> ru_lft u \<and> ru_lft u < ru_rght u \<and> ru_rght u \<le> 2 * int (length us)"
    using W by (auto simp: well_numbered_def)
  moreover have "sorted_wrt (\<lambda>u v. laminar (ru_lft u) (ru_rght u) (ru_lft v) (ru_rght v)) us"
    using W by (simp add: well_numbered_def)
  ultimately show ?thesis using dist links by blast
qed

definition sample_nodes :: "recover_node list" where
  "sample_nodes =
     [\<lparr>rn_pk = VInt 2, rn_lft = 0, rn_rght = 0, rn_parent = VInt 1, rn_depth = None\<rparr>,
      \<lparr>rn_pk = VInt 1, rn_lft = 7, rn_rght = 7, rn_parent = VNull, rn_depth = None\<rparr>]"

theorem recover_rebuilds_tree_witness:
  "\<exists>us. strategy_recover sample_fp 3 sample_nodes None = Some us \<and> distinct (map (upd_key sample_fp) us)
     \<and> sorted_wrt (\<lambda>u v. laminar (ru_lft u) (ru_rght u) (ru_lft v) (ru_rght v)) us"
proof -
  have null: "''null'' = value_key sample_fp VNull" by simp
  have "distinct (map (node_key sample_fp) sample_nodes)" "''null'' \<notin> set (map (node_key sample_fp) sample_nodes)"
    unfolding null by (simp_all add: sample_nodes_def value_key_inject_lemma del: value_key.simps)
  note all = recover_rebuilds_tree [OF this, of None]
  have three: "Suc (length sample_nodes) = 3" by (simp add: sample_nodes_def)
  show ?thesis
    using all unfolding three
    apply (elim exE)
    subgoal for us
      apply (rule exI [of _ us])
      apply (elim conjE)
      apply (intro conjI)
        apply assumption
       apply assumption
      apply assumption
      done
    done
qed

text \<open>
  C38. \<open>validate_tree\<close> decides consistency: when all the bounds of the rows differ, it reports no error
  exactly for the tables in which every interval is positive and non-empty and any two are nested or
  disjoint.
\<close>

theorem validate_tree_exact:
  assumes "rmap_list (tree_item_of F pk lk rk) rows = Inr items"
    and "distinct (map ti_lft items @ map ti_rght items)"
  shows "validate_tree F rows pk lk rk = Inr [] \<longleftrightarrow>
     (\<forall>n \<in> set items. 1 \<le> ti_lft n \<and> ti_lft n < ti_rght n)
     \<and> (\<forall>n \<in> set items. \<forall>m \<in> set items. n = m \<or> laminar (ti_lft n) (ti_rght n) (ti_lft m) (ti_rght m))"
proof -
  let ?lam = "\<lambda>n m. laminar (ti_lft n) (ti_rght n) (ti_lft m) (ti_rght m)"
  let ?ns = "sort_key ti_lft items"
  have srt: "sorted_wrt (\<lambda>a b. ti_lft a \<le> ti_lft b) ?ns"
    by (metis sorted_map sorted_sort_key)
  have perm: "mset ?ns = mset items" by simp
  have "mset (map ti_lft ?ns @ map ti_rght ?ns) = mset (map ti_lft items @ map ti_rght items)" by simp
  then have dist: "distinct (map ti_lft ?ns @ map ti_rght ?ns)"
    using assms(2) mset_eq_imp_distinct_iff by blast
  have pairs: "sorted_wrt ?lam ns \<longleftrightarrow> (\<forall>n \<in> set ns. \<forall>m \<in> set ns. n = m \<or> ?lam n m)" if "distinct ns" for ns
    using that by (induction ns) (auto, (metis laminar_sym)+)
  have dn: "distinct ?ns" using dist by (simp add: distinct_map)
  have "validate_tree F rows pk lk rk = Inr [] \<longleftrightarrow> tree_errors F ?ns = []"
    using assms(1) by (simp add: validate_tree_def)
  also have "\<dots> \<longleftrightarrow> (\<forall>n \<in> set items. 1 \<le> ti_lft n \<and> ti_lft n < ti_rght n) \<and> sorted_wrt ?lam ?ns"
    using sorted_laminar [OF srt dist] by (auto simp: tree_errors_Nil)
  finally show ?thesis using pairs [OF dn] by simp
qed

definition sample_row :: "u64 \<Rightarrow> u64 \<Rightarrow> u64 \<Rightarrow> row" where
  "sample_row pk l r = [(''id'', VInt pk), (''lft'', VInt l), (''rght'', VInt r)]"

lemma as_i64_VInt [simp]: "as_i64 F (VInt i) = Inr (sint i)"
  using sint_ge [of i] sint_lt [of i] by (simp add: as_i64_def cast_int_def)

lemma sample_item:
  "tree_item_of F ''id'' ''lft'' ''rght'' (sample_row pk l r) =
     Inr \<lparr>ti_pk = VInt pk, ti_lft = sint l, ti_rght = sint r\<rparr>"
  by (simp add: tree_item_of_def sample_row_def as_i64_VInt alookup_def)

theorem validate_tree_exact_witness:
  "validate_tree sample_fp [sample_row 2 2 3, sample_row 1 1 4] ''id'' ''lft'' ''rght'' = Inr []"
proof -
  have "rmap_list (tree_item_of sample_fp ''id'' ''lft'' ''rght'') [sample_row 2 2 3, sample_row 1 1 4]
      = Inr [\<lparr>ti_pk = VInt 2, ti_lft = 2, ti_rght = 3\<rparr>, \<lparr>ti_pk = VInt 1, ti_lft = 1, ti_rght = 4\<rparr>]"
    by (simp add: sample_item)
  from validate_tree_exact [OF this] show ?thesis by (auto simp: laminar_def encloses_def)
qed

text \<open>
  The check does not look for numbers used twice: two nodes with the same bounds, and a node that
  starts where another ends, pass.
\<close>

theorem validate_accepts_shared_bounds:
  "validate_tree F [sample_row 1 1 2, sample_row 2 1 2] ''id'' ''lft'' ''rght'' = Inr []
   \<and> validate_tree F [sample_row 1 1 4, sample_row 2 4 6] ''id'' ''lft'' ''rght'' = Inr []"
  by (simp add: validate_tree_def sample_item)

text \<open>
  \<open>to_threaded\<close> rebuilds a forest from its rows: the rows of a forest with nested set bounds, each
  node before its children, are read back as that forest.
\<close>

theorem threaded_round_trip:
  assumes "nested_forest F lk rk ts"
  shows "to_threaded F (concat (map flatten ts)) lk rk = Inr ts"
  using thread_forest_back [OF assms, of None "[]"] by (simp add: to_threaded_def stops_at_def)

theorem threaded_round_trip_witness:
  "to_threaded sample_fp [sample_row 1 1 4, sample_row 2 2 3, sample_row 3 5 6] ''lft'' ''rght''
     = Inr [Threaded (sample_row 1 1 4) [Threaded (sample_row 2 2 3) []], Threaded (sample_row 3 5 6) []]"
proof -
  have b: "boundary_of sample_fp (sample_row p l r) ''lft'' = Inr (sint l)"
    "boundary_of sample_fp (sample_row p l r) ''rght'' = Inr (sint r)" for p l r
    by (simp_all add: boundary_of_def sample_row_def alookup_def)
  show ?thesis
    using threaded_round_trip [of sample_fp "''lft''" "''rght''"
      "[Threaded (sample_row 1 1 4) [Threaded (sample_row 2 2 3) []], Threaded (sample_row 3 5 6) []]"]
    by (simp add: b inside_of_def left_of_def right_of_def)
qed

text \<open>
  \<open>to_threaded\<close> is total on arbitrary rows and loses none: when no row misses a boundary, the
  forest it returns has exactly the given rows in the given order.
\<close>

theorem threaded_loses_no_row:
  "case to_threaded F rows lk rk of Inl e \<Rightarrow> True | Inr ts \<Rightarrow> concat (map flatten ts) = rows"
proof (cases "thread_forest F lk rk None rows")
  case (Inr p)
  obtain ts rest where p: "p = (ts, rest)" by (cases p)
  have "rest = []" using Inr p thread_forest_all by blast
  with Inr p thread_forest_flat [of F lk rk None rows ts rest] show ?thesis by (simp add: to_threaded_def)
qed (simp add: to_threaded_def)

end
