(* ===== verification/Tree_Manager.thy ===== *)
theory Tree_Manager
  imports Nested_Set
begin

section \<open>Trees in a table (include/metal/tree.hpp, TreeQuery and TreeManager)\<close>

text \<open>
  A tree is a table with a parent link, the two bounds of a nested set and, if the mapping has one, a
  depth column. \<open>TreeManager\<close> changes it by a sequence of SQL statements. A statement is the data
  below (columns, conditions and assignments); what the database does with one is the record
  \<open>tree_engine\<close>, an argument of the operations, and the locale \<open>tree_store\<close> says what SQL promises of
  it. A statement may throw: the operation stops there. The database hands back complete rows, so the
  checks for a missing column are not needed.
\<close>

record tree_row =
  tw_pk :: dbvalue
  tw_parent :: dbvalue
  tw_lft :: int
  tw_rght :: int
  tw_depth :: "int option"
  tw_data :: row

datatype tree_col = LeftCol | RightCol | DepthCol

datatype tree_cmp = CLt | CLe | CGt | CGe | CEq

datatype tree_cond =
    CondInt tree_col tree_cmp int
  | CondParentNull
  | CondParent dbvalue
  | CondPk dbvalue
  | CondPkNot dbvalue
  | CondLeaf
  | CondScope string dbvalue

datatype tree_set = AddInt tree_col int | SetInt tree_col int | SetParent dbvalue

record 'd tree_engine =
  te_select :: "tree_cond list \<Rightarrow> bool option \<Rightarrow> ('d, tree_row list) action"
  te_max_right :: "tree_cond list \<Rightarrow> ('d, int option) action"
  te_update :: "tree_set list \<Rightarrow> tree_cond list \<Rightarrow> ('d, unit) action"
  te_delete :: "tree_cond list \<Rightarrow> ('d, unit) action"
  te_insert :: "tree_row \<Rightarrow> ('d, query_result) action"

record 'd tree_manager =
  tm_engine :: "'d tree_engine"
  tm_has_depth :: bool
  tm_scope :: "(string \<times> dbvalue) list"
  tm_pk_name :: string

definition scope_conds :: "'d tree_manager \<Rightarrow> tree_cond list" where
  "scope_conds m = map (\<lambda>(c, v). CondScope c v) (tm_scope m)"

subsection \<open>The queries of TreeQuery\<close>

text \<open>A query is its conditions and the direction in which it is ordered by the left bound, if it is.\<close>

type_synonym tree_select = "tree_cond list \<times> bool option"

definition find_ancestors :: "bounds \<Rightarrow> bool \<Rightarrow> bool \<Rightarrow> tree_select" where
  "find_ancestors b include_self ascending =
     ([CondInt LeftCol (if include_self then CLe else CLt) (b_lft b),
       CondInt RightCol (if include_self then CGe else CGt) (b_rght b)], Some ascending)"

definition find_descendants :: "bounds \<Rightarrow> tree_select" where
  "find_descendants b = ([CondInt LeftCol CGt (b_lft b), CondInt RightCol CLt (b_rght b)], Some True)"

definition find_direct_children :: "dbvalue \<Rightarrow> tree_select" where
  "find_direct_children parent_id =
     (if parent_id = VNull then ([CondParentNull], Some True) else ([CondParent parent_id], Some True))"

definition find_siblings :: "dbvalue \<Rightarrow> dbvalue option \<Rightarrow> tree_select" where
  "find_siblings parent_id exclude_id =
     ((if parent_id = VNull then [CondParentNull] else [CondParent parent_id])
      @ (case exclude_id of None \<Rightarrow> [] | Some i \<Rightarrow> [CondPkNot i]), Some True)"

definition find_roots :: tree_select where
  "find_roots = ([CondParentNull], Some True)"

definition find_subtree :: "bounds \<Rightarrow> tree_select" where
  "find_subtree b = ([CondInt LeftCol CGe (b_lft b), CondInt RightCol CLe (b_rght b)], Some True)"

definition find_tree_list :: tree_select where
  "find_tree_list = ([], Some True)"

definition find_leaves :: tree_select where
  "find_leaves = ([CondLeaf], Some True)"

definition find_at_depth :: "bool \<Rightarrow> int \<Rightarrow> tree_select result" where
  "find_at_depth has_depth d =
     (if has_depth then Inr ([CondInt DepthCol CEq d], Some True)
      else Inl (Logic_error ''MetalORM: find_at_depth requires a [[=metal::mapping::tree_depth]] column''))"

definition find_by_id :: "dbvalue \<Rightarrow> tree_select" where
  "find_by_id i = ([CondPk i], None)"

definition tm_execute :: "'d tree_manager \<Rightarrow> tree_select \<Rightarrow> ('d, tree_row list) action" where
  "tm_execute m q = te_select (tm_engine m) (fst q @ scope_conds m) (snd q)"

subsection \<open>Reading nodes\<close>

record tree_node =
  nd_row :: tree_row
  nd_lft :: int
  nd_rght :: int
  nd_parent :: dbvalue
  nd_depth :: "int option"
  nd_is_leaf :: bool
  nd_is_root :: bool
  nd_child_count :: int

definition make_result :: "'d tree_manager \<Rightarrow> tree_row \<Rightarrow> tree_node" where
  "make_result m r = \<lparr>nd_row = r, nd_lft = tw_lft r, nd_rght = tw_rght r, nd_parent = tw_parent r,
     nd_depth = (if tm_has_depth m then tw_depth r else None), nd_is_leaf = is_leaf (tw_lft r) (tw_rght r),
     nd_is_root = is_root (tw_parent r), nd_child_count = child_count (tw_lft r) (tw_rght r)\<rparr>"

lemma make_result_simps [simp]:
  "nd_row (make_result m r) = r" "nd_lft (make_result m r) = tw_lft r" "nd_rght (make_result m r) = tw_rght r"
  "nd_parent (make_result m r) = tw_parent r" "nd_depth (make_result m r) = (if tm_has_depth m then tw_depth r else None)"
  by (simp_all add: make_result_def)

definition tm_results :: "'d tree_manager \<Rightarrow> tree_select \<Rightarrow> ('d, tree_node list) action" where
  "tm_results m q = act_bind (tm_execute m q) (\<lambda>rs. act_return (map (make_result m) rs))"

definition get_node :: "'d tree_manager \<Rightarrow> dbvalue \<Rightarrow> ('d, tree_node option) action" where
  "get_node m i = act_bind (tm_execute m (find_by_id i))
     (\<lambda>rs. act_return (case rs of [] \<Rightarrow> None | r # _ \<Rightarrow> Some (make_result m r)))"

definition get_roots :: "'d tree_manager \<Rightarrow> ('d, tree_node list) action" where
  "get_roots m = tm_results m find_roots"

definition get_children :: "'d tree_manager \<Rightarrow> dbvalue \<Rightarrow> ('d, tree_node list) action" where
  "get_children m p = tm_results m (find_direct_children p)"

definition get_descendants :: "'d tree_manager \<Rightarrow> bounds \<Rightarrow> ('d, tree_node list) action" where
  "get_descendants m b = tm_results m (find_descendants b)"

definition get_path :: "'d tree_manager \<Rightarrow> bounds \<Rightarrow> bool \<Rightarrow> ('d, tree_node list) action" where
  "get_path m b include_self = tm_results m (find_ancestors b include_self True)"

definition get_siblings :: "'d tree_manager \<Rightarrow> tree_node \<Rightarrow> bool \<Rightarrow> ('d, tree_node list) action" where
  "get_siblings m n include_self =
     tm_results m (find_siblings (nd_parent n) (if include_self then None else Some (tw_pk (nd_row n))))"

definition get_parent :: "'d tree_manager \<Rightarrow> tree_node \<Rightarrow> ('d, tree_node option) action" where
  "get_parent m n = (if nd_is_root n then act_return None else get_node m (nd_parent n))"

definition get_leaves :: "'d tree_manager \<Rightarrow> ('d, tree_node list) action" where
  "get_leaves m = tm_results m find_leaves"

definition get_level :: "'d tree_manager \<Rightarrow> tree_node \<Rightarrow> ('d, int) action" where
  "get_level m n = (case nd_depth n of
     Some d \<Rightarrow> act_return d
   | None \<Rightarrow> act_bind (get_path m \<lparr>b_lft = nd_lft n, b_rght = nd_rght n\<rparr> False) (\<lambda>p. act_return (int (length p))))"

definition tm_max_rght :: "'d tree_manager \<Rightarrow> ('d, int) action" where
  "tm_max_rght m = act_bind (te_max_right (tm_engine m) (scope_conds m))
     (\<lambda>v. act_return (case v of None \<Rightarrow> 0 | Some x \<Rightarrow> x))"

subsection \<open>Moving bounds\<close>

definition tm_update :: "'d tree_manager \<Rightarrow> tree_set list \<Rightarrow> tree_cond list \<Rightarrow> ('d, unit) action" where
  "tm_update m sets conds = te_update (tm_engine m) sets (conds @ scope_conds m)"

definition shift_for_insert :: "'d tree_manager \<Rightarrow> int \<Rightarrow> int \<Rightarrow> ('d, unit) action" where
  "shift_for_insert m point width =
     act_bind (tm_update m [AddInt RightCol width] [CondInt RightCol CGe point])
       (\<lambda>_. tm_update m [AddInt LeftCol width] [CondInt LeftCol CGe point])"

definition shift_for_delete :: "'d tree_manager \<Rightarrow> int \<Rightarrow> int \<Rightarrow> ('d, unit) action" where
  "shift_for_delete m deleted_rght width =
     act_bind (tm_update m [AddInt LeftCol (- width)] [CondInt LeftCol CGt deleted_rght])
       (\<lambda>_. tm_update m [AddInt RightCol (- width)] [CondInt RightCol CGt deleted_rght])"

definition move_range :: "'d tree_manager \<Rightarrow> int \<Rightarrow> int \<Rightarrow> int \<Rightarrow> ('d, unit) action" where
  "move_range m lft rght delta =
     tm_update m [AddInt LeftCol delta, AddInt RightCol delta] [CondInt LeftCol CGe lft, CondInt RightCol CLe rght]"

definition swap_adjacent :: "'d tree_manager \<Rightarrow> tree_node \<Rightarrow> tree_node \<Rightarrow> ('d, bool) action" where
  "swap_adjacent m left right =
     (if nd_rght left \<ge> nd_lft right then act_return False
      else let left_width = subtree_width (nd_lft left) (nd_rght left);
               right_width = subtree_width (nd_lft right) (nd_rght right);
               temp = 10000000
           in act_bind (move_range m (nd_lft right) (nd_rght right) temp) (\<lambda>_.
              act_bind (move_range m (nd_lft left) (nd_rght left) right_width) (\<lambda>_.
              act_bind (move_range m (nd_lft right + temp) (nd_rght right + temp) (- temp - left_width)) (\<lambda>_.
              act_return True))))"

text \<open>\<open>std::find_if\<close> on the text key of the primary key; the position among the siblings.\<close>

definition sibling_index :: "fp \<Rightarrow> tree_node \<Rightarrow> tree_node list \<Rightarrow> nat option" where
  "sibling_index F n siblings =
     find_if (\<lambda>s. value_key F (tw_pk (nd_row s)) = value_key F (tw_pk (nd_row n))) siblings"

definition move_up :: "fp \<Rightarrow> 'd tree_manager \<Rightarrow> tree_node \<Rightarrow> ('d, bool) action" where
  "move_up F m n = act_bind (get_siblings m n True) (\<lambda>siblings.
     case sibling_index F n siblings of
       None \<Rightarrow> act_return False
     | Some 0 \<Rightarrow> act_return False
     | Some (Suc i) \<Rightarrow> swap_adjacent m (siblings ! i) (siblings ! Suc i))"

definition move_down :: "fp \<Rightarrow> 'd tree_manager \<Rightarrow> tree_node \<Rightarrow> ('d, bool) action" where
  "move_down F m n = act_bind (get_siblings m n True) (\<lambda>siblings.
     case sibling_index F n siblings of
       None \<Rightarrow> act_return False
     | Some i \<Rightarrow> if Suc i = length siblings then act_return False
                else swap_adjacent m (siblings ! i) (siblings ! Suc i))"

definition move_subtree :: "'d tree_manager \<Rightarrow> tree_node \<Rightarrow> int \<Rightarrow> dbvalue \<Rightarrow> int \<Rightarrow> ('d, unit) action" where
  "move_subtree m n target_lft new_parent_id new_depth =
     act_bind (get_level m n) (\<lambda>level.
       let width = subtree_width (nd_lft n) (nd_rght n);
           old_depth = (case nd_depth n of Some d \<Rightarrow> d | None \<Rightarrow> level);
           depth_delta = new_depth - old_depth;
           temp = 10000000;
           isolate_delta = - temp - nd_rght n;
           isolated_lft = nd_lft n + isolate_delta;
           isolated_rght = nd_rght n + isolate_delta;
           restore_delta = target_lft - nd_lft n - isolate_delta
       in act_bind (move_range m (nd_lft n) (nd_rght n) isolate_delta) (\<lambda>_.
          act_bind (shift_for_delete m (nd_rght n) width) (\<lambda>_.
          act_bind (shift_for_insert m target_lft width) (\<lambda>_.
          act_bind (tm_update m
             ([AddInt LeftCol restore_delta, AddInt RightCol restore_delta]
              @ (if tm_has_depth m \<and> depth_delta \<noteq> 0 then [AddInt DepthCol depth_delta] else []))
             [CondInt LeftCol CGe isolated_lft, CondInt RightCol CLe isolated_rght]) (\<lambda>_.
          tm_update m [SetParent new_parent_id] [CondPk (tw_pk (nd_row n))])))))"

definition move_to :: "'d tree_manager \<Rightarrow> tree_node \<Rightarrow> dbvalue \<Rightarrow> ('d, unit) action" where
  "move_to m n new_parent_id =
     (let width = subtree_width (nd_lft n) (nd_rght n);
          go = (\<lambda>target new_depth. move_subtree m n (if target > nd_rght n then target - width else target)
                  new_parent_id new_depth)
      in if new_parent_id = VNull then act_bind (tm_max_rght m) (\<lambda>mx. go (mx + 1) 0)
         else act_bind (get_node m new_parent_id) (\<lambda>found.
           case found of
             None \<Rightarrow> act_throw (Runtime_error ''MetalORM: tree parent node not found'')
           | Some parent \<Rightarrow>
               if is_descendant_of \<lparr>b_lft = nd_lft parent, b_rght = nd_rght parent\<rparr> \<lparr>b_lft = nd_lft n, b_rght = nd_rght n\<rparr>
                  \<or> (nd_lft parent = nd_lft n \<and> nd_rght parent = nd_rght n)
               then act_throw (Invalid_argument
                      ''MetalORM: cannot move a tree node below itself or one of its descendants'')
               else act_bind (get_level m parent) (\<lambda>level. go (nd_rght parent) (level + 1))))"

subsection \<open>Inserting, removing, deleting, recovering\<close>

definition assign_scope :: "'d tree_manager \<Rightarrow> row \<Rightarrow> row" where
  "assign_scope m data = fold (\<lambda>(c, v). aput c v) (tm_scope m) data"

definition inserted_pk :: "'d tree_manager \<Rightarrow> query_result \<Rightarrow> dbvalue result" where
  "inserted_pk m q =
     (case qr_rows q of
        r # _ \<Rightarrow> (case alookup r (tm_pk_name m) of
                   Some v \<Rightarrow> Inr v
                 | None \<Rightarrow> Inl (Runtime_error (''MetalORM: tree row is missing required column '' @ [CHR 0x27] @ tm_pk_name m @ [CHR 0x27])))
      | [] \<Rightarrow> if qr_last_id q \<noteq> 0 then Inr (VInt (qr_last_id q)) else Inr VNull)"

definition insert_as_child :: "'d tree_manager \<Rightarrow> dbvalue \<Rightarrow> dbvalue \<Rightarrow> row \<Rightarrow> ('d, dbvalue) action" where
  "insert_as_child m parent_id pk data =
     (let put = (\<lambda>(lft, rght) depth. act_bind
            (te_insert (tm_engine m) \<lparr>tw_pk = pk, tw_parent = parent_id, tw_lft = lft, tw_rght = rght,
               tw_depth = (if tm_has_depth m then Some depth else None), tw_data = assign_scope m data\<rparr>)
            (\<lambda>q. act_lift (inserted_pk m q)))
      in if parent_id = VNull then act_bind (tm_max_rght m) (\<lambda>mx. put (insert_as_root mx) 0)
         else act_bind (get_node m parent_id) (\<lambda>found.
           case found of
             None \<Rightarrow> act_throw (Runtime_error ''MetalORM: tree parent node not found'')
           | Some parent \<Rightarrow>
               act_bind (shift_for_insert m (nd_rght parent) 2) (\<lambda>_.
               act_bind (get_level m parent) (\<lambda>level.
               put (insert_as_last_child (nd_rght parent)) (level + 1)))))"

definition remove_from_tree :: "'d tree_manager \<Rightarrow> tree_node \<Rightarrow> ('d, unit) action" where
  "remove_from_tree m n =
     act_bind (tm_max_rght m) (\<lambda>original_max_rght.
     act_bind (tm_update m [SetParent (nd_parent n)] [CondParent (tw_pk (nd_row n))]) (\<lambda>_.
     act_bind (if nd_rght n - nd_lft n > 1
        then tm_update m ([AddInt LeftCol (- 1), AddInt RightCol (- 1)]
               @ (if tm_has_depth m then [AddInt DepthCol (- 1)] else []))
               [CondInt LeftCol CGt (nd_lft n), CondInt RightCol CLt (nd_rght n)]
        else act_return ()) (\<lambda>_.
     act_bind (shift_for_delete m (nd_rght n) 2) (\<lambda>_.
     tm_update m ([SetParent VNull, SetInt LeftCol (original_max_rght - 1), SetInt RightCol original_max_rght]
         @ (if tm_has_depth m then [SetInt DepthCol 0] else [])) [CondPk (tw_pk (nd_row n))]))))"

definition delete_subtree :: "'d tree_manager \<Rightarrow> tree_node \<Rightarrow> ('d, int) action" where
  "delete_subtree m n =
     (let width = subtree_width (nd_lft n) (nd_rght n)
      in act_bind (te_delete (tm_engine m)
             ([CondInt LeftCol CGe (nd_lft n), CondInt RightCol CLe (nd_rght n)] @ scope_conds m)) (\<lambda>_.
         act_bind (shift_for_delete m (nd_rght n) width) (\<lambda>_.
         act_return (width sdiv 2))))"

definition recovery_node :: "'d tree_manager \<Rightarrow> tree_row \<Rightarrow> recover_node" where
  "recovery_node m r = \<lparr>rn_pk = tw_pk r, rn_lft = tw_lft r, rn_rght = tw_rght r, rn_parent = tw_parent r,
     rn_depth = (if tm_has_depth m then tw_depth r else None)\<rparr>"

definition recovery_update :: "'d tree_manager \<Rightarrow> recover_update \<Rightarrow> ('d, unit) action" where
  "recovery_update m u = tm_update m
     ([SetInt LeftCol (ru_lft u), SetInt RightCol (ru_rght u)]
      @ (if tm_has_depth m then [SetInt DepthCol (ru_depth u)] else [])) [CondPk (ru_pk u)]"

text \<open>
  \<open>TreeManager::recover\<close> catches every exception and reports it; the outer \<open>None\<close> is a traversal that
  does not end within the fuel.
\<close>

definition tm_recover ::
  "fp \<Rightarrow> 'd tree_manager \<Rightarrow> nat \<Rightarrow> (recover_node \<Rightarrow> recover_node \<Rightarrow> bool) option \<Rightarrow> 'd \<Rightarrow> ((exn + nat) \<times> 'd) option" where
  "tm_recover F m fuel lt d =
     (case tm_execute m find_tree_list d of
        (Inl e, d') \<Rightarrow> Some (Inl e, d')
      | (Inr rs, d') \<Rightarrow>
          (case strategy_recover F fuel (map (recovery_node m) rs) lt of
             None \<Rightarrow> None
           | Some us \<Rightarrow>
               (case act_iter (recovery_update m) us d' of
                  (Inl e, d'') \<Rightarrow> Some (Inl e, d'')
                | (Inr _, d'') \<Rightarrow> Some (Inr (length us), d''))))"

section \<open>What SQL does with the statements\<close>

definition sql_eq :: "dbvalue \<Rightarrow> dbvalue \<Rightarrow> bool" where
  "sql_eq a b \<longleftrightarrow> a \<noteq> VNull \<and> b \<noteq> VNull \<and> a = b"

fun col_value :: "tree_col \<Rightarrow> tree_row \<Rightarrow> int option" where
  "col_value LeftCol r = Some (tw_lft r)"
| "col_value RightCol r = Some (tw_rght r)"
| "col_value DepthCol r = tw_depth r"

fun cmp_holds :: "tree_cmp \<Rightarrow> int \<Rightarrow> int \<Rightarrow> bool" where
  "cmp_holds CLt a b = (a < b)"
| "cmp_holds CLe a b = (a \<le> b)"
| "cmp_holds CGt a b = (a > b)"
| "cmp_holds CGe a b = (a \<ge> b)"
| "cmp_holds CEq a b = (a = b)"

fun cond_holds :: "tree_cond \<Rightarrow> tree_row \<Rightarrow> bool" where
  "cond_holds (CondInt c p k) r = (case col_value c r of None \<Rightarrow> False | Some x \<Rightarrow> cmp_holds p x k)"
| "cond_holds CondParentNull r = (tw_parent r = VNull)"
| "cond_holds (CondParent v) r = sql_eq (tw_parent r) v"
| "cond_holds (CondPk v) r = sql_eq (tw_pk r) v"
| "cond_holds (CondPkNot v) r = (tw_pk r \<noteq> VNull \<and> v \<noteq> VNull \<and> tw_pk r \<noteq> v)"
| "cond_holds CondLeaf r = (tw_rght r - tw_lft r = 1)"
| "cond_holds (CondScope c v) r = (case alookup (tw_data r) c of None \<Rightarrow> False | Some w \<Rightarrow> sql_eq w v)"

definition row_matches :: "tree_cond list \<Rightarrow> tree_row \<Rightarrow> bool" where
  "row_matches cs r \<longleftrightarrow> list_all (\<lambda>c. cond_holds c r) cs"

fun set_col :: "tree_set \<Rightarrow> tree_row \<Rightarrow> tree_row \<Rightarrow> tree_row" where
  "set_col (AddInt LeftCol d) old r = r\<lparr>tw_lft := tw_lft old + d\<rparr>"
| "set_col (AddInt RightCol d) old r = r\<lparr>tw_rght := tw_rght old + d\<rparr>"
| "set_col (AddInt DepthCol d) old r = r\<lparr>tw_depth := map_option (\<lambda>x. x + d) (tw_depth old)\<rparr>"
| "set_col (SetInt LeftCol d) old r = r\<lparr>tw_lft := d\<rparr>"
| "set_col (SetInt RightCol d) old r = r\<lparr>tw_rght := d\<rparr>"
| "set_col (SetInt DepthCol d) old r = r\<lparr>tw_depth := Some d\<rparr>"
| "set_col (SetParent v) old r = r\<lparr>tw_parent := v\<rparr>"

definition apply_sets :: "tree_set list \<Rightarrow> tree_row \<Rightarrow> tree_row" where
  "apply_sets ss r = fold (\<lambda>s. set_col s r) ss r"

definition update_row :: "tree_set list \<Rightarrow> tree_cond list \<Rightarrow> tree_row \<Rightarrow> tree_row" where
  "update_row ss cs r = (if row_matches cs r then apply_sets ss r else r)"

lemma row_matches_simps [simp]:
  "row_matches [] r"
  "row_matches (c # cs) r \<longleftrightarrow> cond_holds c r \<and> row_matches cs r"
  "row_matches (cs @ ds) r \<longleftrightarrow> row_matches cs r \<and> row_matches ds r"
  by (simp_all add: row_matches_def)

lemma apply_sets_simps [simp]:
  "tw_pk (apply_sets ss r) = tw_pk r"
  "tw_data (apply_sets ss r) = tw_data r"
proof -
  have one: "tw_pk (set_col s old r) = tw_pk r \<and> tw_data (set_col s old r) = tw_data r" for s old r
    by (cases "(s, old, r)" rule: set_col.cases) auto
  have "tw_pk (fold (\<lambda>s. set_col s old) ss r) = tw_pk r \<and> tw_data (fold (\<lambda>s. set_col s old) ss r) = tw_data r" for old
    by (induction ss arbitrary: r) (auto simp: one)
  then show "tw_pk (apply_sets ss r) = tw_pk r" "tw_data (apply_sets ss r) = tw_data r"
    by (simp_all add: apply_sets_def)
qed

lemma update_row_simps [simp]:
  "tw_pk (update_row ss cs r) = tw_pk r"
  "tw_data (update_row ss cs r) = tw_data r"
  by (simp_all add: update_row_def)

text \<open>
  The contract of the database, over the set of the table's rows (the primary key is unique, so rows
  are a set): a statement that returns has done what SQL says. Nothing is said of one that throws.
\<close>

locale tree_store =
  fixes E :: "'d tree_engine"
    and rows :: "'d \<Rightarrow> tree_row set"
  assumes rows_finite: "finite (rows d)"
    and select_ok: "te_select E cs order d = (Inr rs, d') \<Longrightarrow>
          rows d' = rows d \<and> set rs = {r \<in> rows d. row_matches cs r} \<and> distinct rs
          \<and> (order = Some True \<longrightarrow> sorted (map tw_lft rs)) \<and> (order = Some False \<longrightarrow> sorted (rev (map tw_lft rs)))"
    and max_ok: "te_max_right E cs d = (Inr mx, d') \<Longrightarrow>
          rows d' = rows d \<and> mx = (let S = {r \<in> rows d. row_matches cs r} in if S = {} then None else Some (Max (tw_rght ` S)))"
    and update_ok: "te_update E ss cs d = (Inr u, d') \<Longrightarrow> rows d' = update_row ss cs ` rows d"
    and delete_ok: "te_delete E cs d = (Inr u, d') \<Longrightarrow> rows d' = {r \<in> rows d. \<not> row_matches cs r}"
    and insert_ok: "te_insert E r d = (Inr q, d') \<Longrightarrow>
          \<exists>k. k \<noteq> VNull \<and> k \<notin> tw_pk ` rows d \<and> (tw_pk r \<noteq> VNull \<longrightarrow> k = tw_pk r)
            \<and> rows d' = insert (r\<lparr>tw_pk := k\<rparr>) (rows d)"

definition in_scope :: "'d tree_manager \<Rightarrow> tree_row \<Rightarrow> bool" where
  "in_scope m r \<longleftrightarrow> row_matches (scope_conds m) r"

lemma in_scope_data: "tw_data r = tw_data r' \<Longrightarrow> in_scope m r = in_scope m r'"
  by (auto simp: in_scope_def row_matches_def scope_conds_def list_all_iff split: option.splits)

lemma in_scope_update [simp]: "in_scope m (update_row ss cs r) = in_scope m r"
  by (rule in_scope_data) simp

section \<open>Consistent trees\<close>

abbreviation encl :: "tree_row \<Rightarrow> tree_row \<Rightarrow> bool" where
  "encl a b \<equiv> encloses (tw_lft a) (tw_rght a) (tw_lft b) (tw_rght b)"

abbreviation lam :: "tree_row \<Rightarrow> tree_row \<Rightarrow> bool" where
  "lam a b \<equiv> laminar (tw_lft a) (tw_rght a) (tw_lft b) (tw_rght b)"

text \<open>
  \<open>linked hasd T p n\<close>: the row \<open>p\<close> is the parent of \<open>n\<close>, that is the innermost row around it, one level
  above. A consistent tree: the primary key is one, the intervals are positive, not empty and
  pairwise nested or disjoint, and the parent link and the depth of every row say what its interval
  says.
\<close>

definition linked :: "bool \<Rightarrow> tree_row set \<Rightarrow> tree_row \<Rightarrow> tree_row \<Rightarrow> bool" where
  "linked hasd T p n \<longleftrightarrow> p \<in> T \<and> tw_parent n = tw_pk p \<and> encl p n \<and> (\<forall>a \<in> T. encl a n \<longrightarrow> a = p \<or> encl a p)
     \<and> (hasd \<longrightarrow> (\<exists>d. tw_depth p = Some d \<and> tw_depth n = Some (d + 1)))"

definition rooted :: "bool \<Rightarrow> tree_row set \<Rightarrow> tree_row \<Rightarrow> bool" where
  "rooted hasd T n \<longleftrightarrow> tw_parent n = VNull \<and> (\<forall>a \<in> T. \<not> encl a n) \<and> (hasd \<longrightarrow> tw_depth n = Some 0)"

definition tree_ok :: "bool \<Rightarrow> tree_row set \<Rightarrow> bool" where
  "tree_ok hasd T \<longleftrightarrow> inj_on tw_pk T
     \<and> (\<forall>n \<in> T. tw_pk n \<noteq> VNull \<and> 1 \<le> tw_lft n \<and> tw_lft n < tw_rght n)
     \<and> (\<forall>a \<in> T. \<forall>b \<in> T. a = b \<or> lam a b)
     \<and> (\<forall>n \<in> T. rooted hasd T n \<or> (\<exists>p. linked hasd T p n))"

lemma tree_okD:
  assumes "tree_ok hasd T"
  shows "a \<in> T \<Longrightarrow> b \<in> T \<Longrightarrow> tw_pk a = tw_pk b \<Longrightarrow> a = b"
    and "n \<in> T \<Longrightarrow> tw_pk n \<noteq> VNull" "n \<in> T \<Longrightarrow> 1 \<le> tw_lft n" "n \<in> T \<Longrightarrow> tw_lft n < tw_rght n"
    and "a \<in> T \<Longrightarrow> b \<in> T \<Longrightarrow> a \<noteq> b \<Longrightarrow> lam a b"
    and "n \<in> T \<Longrightarrow> rooted hasd T n \<or> (\<exists>p. linked hasd T p n)"
  using assms by (auto simp: tree_ok_def inj_on_def)

lemma encl_trans: "encl a b \<Longrightarrow> encl b c \<Longrightarrow> encl a c"
  by (auto simp: encloses_def)

lemma encl_irrefl [simp]: "\<not> encl a a"
  by (simp add: encloses_def)

lemma laminar_refl_False [simp]: "l < r \<Longrightarrow> \<not> laminar l r l r"
  by (auto simp: laminar_def encloses_def)

text \<open>
  The subtree of a row are the rows inside its bounds. Every other row is around it or beside it.
\<close>

definition subtree :: "tree_row set \<Rightarrow> tree_row \<Rightarrow> tree_row set" where
  "subtree T n = {r \<in> T. tw_lft r \<ge> tw_lft n \<and> tw_rght r \<le> tw_rght n}"

lemma in_subtree: "tree_ok hasd T \<Longrightarrow> n \<in> T \<Longrightarrow> r \<in> subtree T n \<longleftrightarrow> r = n \<or> (r \<in> T \<and> encl n r)"
proof -
  assume t: "tree_ok hasd T" "n \<in> T"
  have "encl n r" if "r \<in> T" "r \<noteq> n" "tw_lft r \<ge> tw_lft n" "tw_rght r \<le> tw_rght n"
    using tree_okD(5) [OF t(1,2) that(1)] that tree_okD(4) [OF t] tree_okD(4) [OF t(1) that(1)]
    by (auto simp: laminar_def encloses_def)
  with t show ?thesis by (auto simp: subtree_def encloses_def)
qed

lemma subtree_closed:
  "tree_ok hasd T \<Longrightarrow> n \<in> T \<Longrightarrow> a \<in> subtree T n \<Longrightarrow> b \<in> T \<Longrightarrow> encl a b \<Longrightarrow> b \<in> subtree T n"
  using in_subtree encl_trans by metis

lemma outside_cases:
  assumes "tree_ok hasd T" "n \<in> T" "a \<in> T" "a \<notin> subtree T n"
  obtains (around) "tw_lft a < tw_lft n" "tw_rght n < tw_rght a"
  | (before) "tw_rght a < tw_lft n" | (after) "tw_rght n < tw_lft a"
  using assms tree_okD(5) [OF assms(1,2,3)] in_subtree [OF assms(1,2), of a]
  by (auto simp: laminar_def encloses_def)

subsection \<open>Maps that keep a tree consistent\<close>

text \<open>Moving the bounds so that the relations between the intervals stay what they were.\<close>

lemma tree_ok_embed:
  assumes "tree_ok hasd T"
    and "\<And>r. r \<in> T \<Longrightarrow> tw_pk (f r) = tw_pk r \<and> tw_parent (f r) = tw_parent r \<and> tw_depth (f r) = tw_depth r"
    and "\<And>r. r \<in> T \<Longrightarrow> 1 \<le> tw_lft (f r) \<and> tw_lft (f r) < tw_rght (f r)"
    and "\<And>a b. a \<in> T \<Longrightarrow> b \<in> T \<Longrightarrow> encl (f a) (f b) = encl a b"
    and "\<And>a b. a \<in> T \<Longrightarrow> b \<in> T \<Longrightarrow> a \<noteq> b \<Longrightarrow> lam a b \<Longrightarrow> lam (f a) (f b)"
  shows "tree_ok hasd (f ` T)"
proof -
  have pk: "f a = f b \<Longrightarrow> a = b" if "a \<in> T" "b \<in> T" for a b
    using tree_okD(1) [OF assms(1)] assms(2) that by metis
  have inj: "inj_on tw_pk (f ` T)" using tree_okD(1) [OF assms(1)] assms(2) by (auto simp: inj_on_def)
  have link: "linked hasd (f ` T) (f p) (f n)" if "linked hasd T p n" "n \<in> T" for p n
    using that assms(2,4) pk by (auto simp: linked_def)
  have root: "rooted hasd (f ` T) (f n)" if "rooted hasd T n" "n \<in> T" for n
    using that assms(2,4) by (auto simp: rooted_def)
  have "\<forall>n \<in> T. rooted hasd (f ` T) (f n) \<or> (\<exists>p. linked hasd (f ` T) p (f n))"
    using tree_okD(6) [OF assms(1)] link root by meson
  with inj assms(2,3,5) tree_okD(2,5) [OF assms(1)] show ?thesis
    unfolding tree_ok_def by (auto; metis)
qed

text \<open>Taking a subtree away.\<close>

lemma tree_ok_prune:
  assumes "tree_ok hasd T" "n \<in> T"
  shows "tree_ok hasd (T - subtree T n)"
proof -
  let ?T = "T - subtree T n"
  have "rooted hasd ?T a \<or> (\<exists>p. linked hasd ?T p a)" if a: "a \<in> ?T" for a
  proof -
    from a tree_okD(6) [OF assms(1), of a] consider "rooted hasd T a" | p where "linked hasd T p a" by blast
    then show ?thesis
    proof cases
      case 1
      then show ?thesis by (simp add: rooted_def)
    next
      case (2 p)
      have "p \<notin> subtree T n" using subtree_closed [OF assms, of p a] a 2 by (auto simp: linked_def)
      with 2 have "linked hasd ?T p a" by (auto simp: linked_def)
      then show ?thesis by blast
    qed
  qed
  with assms(1) show ?thesis by (auto simp: tree_ok_def inj_on_def)
qed

text \<open>
  Putting a block of rows \<open>B\<close> with the top row \<open>r\<close> into a tree: every row of the tree is either
  around the whole block or disjoint from it.
\<close>

definition block :: "bool \<Rightarrow> tree_row set \<Rightarrow> tree_row \<Rightarrow> bool" where
  "block hasd B r \<longleftrightarrow> r \<in> B \<and> inj_on tw_pk B
     \<and> (\<forall>n \<in> B. tw_pk n \<noteq> VNull \<and> 1 \<le> tw_lft n \<and> tw_lft n < tw_rght n)
     \<and> (\<forall>a \<in> B. \<forall>b \<in> B. a = b \<or> lam a b)
     \<and> (\<forall>n \<in> B - {r}. encl r n \<and> (\<exists>p. linked hasd B p n))"

lemma tree_ok_graft:
  assumes "tree_ok hasd A" "block hasd B r" "tw_pk ` A \<inter> tw_pk ` B = {}"
    and "\<And>a s. a \<in> A \<Longrightarrow> s \<in> B \<Longrightarrow> lam a s \<and> (encl a s \<longleftrightarrow> encl a r) \<and> \<not> encl s a"
    and "rooted hasd A r \<or> (\<exists>p. linked hasd A p r)"
  shows "tree_ok hasd (A \<union> B)"
proof -
  have r: "r \<in> B" and B: "\<And>n. n \<in> B \<Longrightarrow> n \<noteq> r \<Longrightarrow> encl r n" "\<And>n. n \<in> B \<Longrightarrow> n \<noteq> r \<Longrightarrow> \<exists>p. linked hasd B p n"
    using assms(2) by (auto simp: block_def)
  have top: "\<not> encl s r" if "s \<in> B" for s
    using B(1) [OF that] by (cases "s = r") (auto simp: encloses_def)
  have A: "rooted hasd (A \<union> B) a \<or> (\<exists>p. linked hasd (A \<union> B) p a)" if "a \<in> A" for a
    using tree_okD(6) [OF assms(1) that] assms(4) [OF that]
    by (auto simp: rooted_def linked_def)
  have R: "rooted hasd (A \<union> B) r \<or> (\<exists>p. linked hasd (A \<union> B) p r)"
    using assms(5) top by (auto simp: rooted_def linked_def)
  have S: "\<exists>p. linked hasd (A \<union> B) p s" if s: "s \<in> B" "s \<noteq> r" for s
  proof -
    obtain p where p: "linked hasd B p s" using B(2) [OF s] by blast
    then have "p \<in> B" by (simp add: linked_def)
    have "encl a p" if "a \<in> A" "encl a s" for a
      using assms(4) [OF that(1)] that(2) s(1) \<open>p \<in> B\<close> by blast
    with p have "linked hasd (A \<union> B) p s" by (auto simp: linked_def)
    then show ?thesis by blast
  qed
  have "\<forall>n \<in> A \<union> B. rooted hasd (A \<union> B) n \<or> (\<exists>p. linked hasd (A \<union> B) p n)" using A R S by blast
  moreover have "inj_on tw_pk (A \<union> B)"
    using assms(1-3) by (auto simp: tree_ok_def block_def inj_on_Un)
  moreover have "\<forall>a \<in> A \<union> B. \<forall>b \<in> A \<union> B. a = b \<or> lam a b"
    using assms(1,2,4) laminar_sym by (auto simp: tree_ok_def block_def; metis)
  ultimately show ?thesis
    using assms(1,2) by (auto simp: tree_ok_def block_def)
qed

lemma block_single:
  "tw_pk r \<noteq> VNull \<Longrightarrow> 1 \<le> tw_lft r \<Longrightarrow> tw_lft r < tw_rght r \<Longrightarrow> block hasd {r} r"
  by (simp add: block_def)

lemma block_subtree:
  assumes "tree_ok hasd T" "n \<in> T"
  shows "block hasd (subtree T n) n"
proof -
  have "\<exists>p. linked hasd (subtree T n) p s" if s: "s \<in> subtree T n" "s \<noteq> n" for s
  proof -
    have sT: "s \<in> T" "encl n s" using s in_subtree [OF assms] by auto
    then obtain p where p: "linked hasd T p s"
      using tree_okD(6) [OF assms(1) sT(1)] assms(2) by (auto simp: rooted_def)
    have "p = n \<or> encl n p" using p assms(2) sT(2) by (auto simp: linked_def)
    with p have "p \<in> subtree T n" using in_subtree [OF assms] by (auto simp: linked_def)
    with p have "linked hasd (subtree T n) p s" by (auto simp: linked_def subtree_def)
    then show ?thesis by blast
  qed
  moreover have sub: "n \<in> subtree T n" "subtree T n \<subseteq> T" using assms(2) by (auto simp: subtree_def)
  moreover have "\<forall>a \<in> subtree T n. \<forall>b \<in> subtree T n. a = b \<or> lam a b"
    using tree_okD(5) [OF assms(1)] sub(2) by blast
  moreover have "inj_on tw_pk (subtree T n)"
    using assms(1) sub(2) by (auto simp: tree_ok_def intro: inj_on_subset)
  moreover have "\<forall>s \<in> subtree T n. tw_pk s \<noteq> VNull \<and> 1 \<le> tw_lft s \<and> tw_lft s < tw_rght s"
    using tree_okD(2-4) [OF assms(1)] sub(2) by blast
  moreover have "encl n s" if "s \<in> subtree T n" "s \<noteq> n" for s using that in_subtree [OF assms] by blast
  ultimately show ?thesis unfolding block_def by blast
qed

subsection \<open>Bounds after an insertion, a deletion and a move\<close>

definition shift_row :: "(int \<Rightarrow> int) \<Rightarrow> tree_row \<Rightarrow> tree_row" where
  "shift_row f r = r\<lparr>tw_lft := f (tw_lft r), tw_rght := f (tw_rght r)\<rparr>"

lemma shift_row_simps [simp]:
  "tw_pk (shift_row f r) = tw_pk r" "tw_parent (shift_row f r) = tw_parent r" "tw_data (shift_row f r) = tw_data r"
  "tw_depth (shift_row f r) = tw_depth r" "tw_lft (shift_row f r) = f (tw_lft r)" "tw_rght (shift_row f r) = f (tw_rght r)"
  by (simp_all add: shift_row_def)

text \<open>Opening a gap of \<open>w\<close> numbers at \<open>p\<close>, and closing one behind \<open>q\<close>.\<close>

definition gap_open :: "int \<Rightarrow> int \<Rightarrow> int \<Rightarrow> int" where
  "gap_open p w x = (if x \<ge> p then x + w else x)"

definition gap_close :: "int \<Rightarrow> int \<Rightarrow> int \<Rightarrow> int" where
  "gap_close q w x = (if x > q then x - w else x)"

lemma tree_ok_shift:
  assumes "tree_ok hasd T"
    and "\<And>r. r \<in> T \<Longrightarrow> 1 \<le> f (tw_lft r)"
    and "\<And>a b x y. a \<in> T \<Longrightarrow> b \<in> T \<Longrightarrow> x \<in> {tw_lft a, tw_rght a} \<Longrightarrow> y \<in> {tw_lft b, tw_rght b} \<Longrightarrow> x < y \<longleftrightarrow> f x < f y"
  shows "tree_ok hasd (shift_row f ` T)"
proof (rule tree_ok_embed [OF assms(1)])
  show "1 \<le> tw_lft (shift_row f r) \<and> tw_lft (shift_row f r) < tw_rght (shift_row f r)" if "r \<in> T" for r
    using assms(2) [OF that] assms(3) [OF that that, of "tw_lft r" "tw_rght r"] tree_okD(4) [OF assms(1) that] by simp
  show "encl (shift_row f a) (shift_row f b) = encl a b" if "a \<in> T" "b \<in> T" for a b
    using assms(3) [OF that, of "tw_lft a" "tw_lft b"] assms(3) [OF that(2,1), of "tw_rght b" "tw_rght a"]
    by (simp add: encloses_def)
  show "lam (shift_row f a) (shift_row f b)" if "a \<in> T" "b \<in> T" "a \<noteq> b" "lam a b" for a b
    using that(4) assms(3) [OF that(1,2), of "tw_rght a" "tw_lft b"] assms(3) [OF that(2,1), of "tw_rght b" "tw_lft a"]
      assms(3) [OF that(1,2), of "tw_lft a" "tw_lft b"] assms(3) [OF that(2,1), of "tw_rght b" "tw_rght a"]
      assms(3) [OF that(2,1), of "tw_lft b" "tw_lft a"] assms(3) [OF that(1,2), of "tw_rght a" "tw_rght b"]
    by (simp add: laminar_def encloses_def)
qed simp

lemma tree_ok_gap_open:
  assumes "tree_ok hasd T" "0 \<le> w"
  shows "tree_ok hasd (shift_row (gap_open p w) ` T)"
  by (rule tree_ok_shift [OF assms(1)]) (use assms(2) tree_okD(3) [OF assms(1)] in \<open>force simp: gap_open_def\<close>)+

text \<open>The numbers of a removed subtree are free, so closing its gap keeps the order of the others.\<close>

lemma tree_ok_gap_close:
  assumes "tree_ok hasd T" "n \<in> T" "q = tw_rght n" "w = subtree_width (tw_lft n) (tw_rght n)"
  shows "tree_ok hasd (shift_row (gap_close q w) ` (T - subtree T n))"
proof (rule tree_ok_shift [OF tree_ok_prune [OF assms(1,2)]])
  have out: "x < tw_lft n \<or> tw_rght n < x" if "a \<in> T - subtree T n" "x \<in> {tw_lft a, tw_rght a}" for a x
    using that outside_cases [OF assms(1,2), of a] tree_okD(4) [OF assms(1), of a] tree_okD(4) [OF assms(1,2)]
    by (metis DiffE insertE less_trans singletonD)
  show "1 \<le> gap_close q w (tw_lft r)" if "r \<in> T - subtree T n" for r
    using out [OF that, of "tw_lft r"] tree_okD(3) [OF assms(1), of r] tree_okD(3) [OF assms(1,2)] that
    by (auto simp: gap_close_def assms(3,4) subtree_width_def)
  show "x < y \<longleftrightarrow> gap_close q w x < gap_close q w y"
    if "a \<in> T - subtree T n" "b \<in> T - subtree T n" "x \<in> {tw_lft a, tw_rght a}" "y \<in> {tw_lft b, tw_rght b}" for a b x y
    using out [OF that(1,3)] out [OF that(2,4)] tree_okD(4) [OF assms(1,2)]
    by (auto simp: gap_close_def assms(3,4) subtree_width_def)
qed

text \<open>A row that has been inserted as a leaf, in a gap of two numbers or behind everything.\<close>

lemma tree_ok_leaf:
  assumes "tree_ok hasd T" "p \<in> T" "tw_pk x \<noteq> VNull" "tw_pk x \<notin> tw_pk ` T" "tw_parent x = tw_pk p"
    and "tw_lft x = tw_rght p" "tw_rght x = tw_rght p + 1"
    and "hasd \<longrightarrow> (\<exists>d. tw_depth p = Some d \<and> tw_depth x = Some (d + 1))"
  shows "tree_ok hasd (insert x (shift_row (gap_open (tw_rght p) 2) ` T))"
proof -
  let ?A = "shift_row (gap_open (tw_rght p) 2) ` T" and ?p = "shift_row (gap_open (tw_rght p) 2) p"
  have p: "1 \<le> tw_lft p" "tw_lft p < tw_rght p" using tree_okD(3,4) [OF assms(1,2)] by auto
  have around: "a = p \<or> encl a p" if "a \<in> T" "tw_lft a < tw_rght p" "tw_rght p \<le> tw_rght a" for a
    using tree_okD(5) [OF assms(1) that(1) assms(2)] that p by (auto simp: laminar_def encloses_def)
  have link: "linked hasd ?A ?p x"
    unfolding linked_def
  proof (intro conjI ballI impI)
    fix b assume "b \<in> ?A" "encl b x"
    then obtain a where a: "a \<in> T" "b = shift_row (gap_open (tw_rght p) 2) a"
      and e: "encl (shift_row (gap_open (tw_rght p) 2) a) x" by blast
    have "tw_lft a < tw_rght p" "tw_rght p \<le> tw_rght a"
      using e assms(6,7) by (auto simp: encloses_def gap_open_def split: if_splits)
    with around [OF a(1)] have "a = p \<or> encl a p" by blast
    then show "b = ?p \<or> encl b ?p" using a(2) p by (auto simp: encloses_def gap_open_def)
  qed (use assms p in \<open>auto simp: encloses_def gap_open_def\<close>)
  have "tree_ok hasd (?A \<union> {x})"
  proof (rule tree_ok_graft [where r = x])
    show "tree_ok hasd ?A" by (rule tree_ok_gap_open [OF assms(1)]) simp
    show "block hasd {x} x" using assms(3,6,7) p by (intro block_single) auto
    show "tw_pk ` ?A \<inter> tw_pk ` {x} = {}" using assms(4) by (auto simp: image_image)
    show "lam a s \<and> (encl a s \<longleftrightarrow> encl a x) \<and> \<not> encl s a" if as: "a \<in> ?A" "s \<in> {x}" for a s
    proof -
      obtain c where c: "c \<in> T" "a = shift_row (gap_open (tw_rght p) 2) c" using as(1) by blast
      show ?thesis
        using as(2) assms(6,7) tree_okD(4) [OF assms(1) c(1)]
        by (auto simp: c(2) laminar_def encloses_def gap_open_def split: if_splits)
    qed
    show "rooted hasd ?A x \<or> (\<exists>p. linked hasd ?A p x)" using link by blast
  qed
  then show ?thesis by simp
qed

lemma tree_ok_new_root:
  assumes "tree_ok hasd T" "\<And>r. r \<in> T \<Longrightarrow> tw_rght r < tw_lft x" "tw_pk x \<noteq> VNull" "tw_pk x \<notin> tw_pk ` T"
    and "tw_parent x = VNull" "1 \<le> tw_lft x" "tw_lft x < tw_rght x" "hasd \<longrightarrow> tw_depth x = Some 0"
  shows "tree_ok hasd (insert x T)"
proof -
  have "tree_ok hasd (T \<union> {x})"
  proof (rule tree_ok_graft [where r = x, OF assms(1)])
    show "block hasd {x} x" using assms(3,6,7) by (rule block_single)
    show "tw_pk ` T \<inter> tw_pk ` {x} = {}" using assms(4) by auto
    show "lam a s \<and> (encl a s \<longleftrightarrow> encl a x) \<and> \<not> encl s a" if "a \<in> T" "s \<in> {x}" for a s
      using that assms(2) [OF that(1)] tree_okD(4) [OF assms(1) that(1)] by (auto simp: laminar_def encloses_def)
    show "rooted hasd T x \<or> (\<exists>p. linked hasd T p x)"
      using assms(2,5,7,8) by (fastforce simp: rooted_def encloses_def)
  qed
  then show ?thesis by simp
qed

lemma interval_plus [simp]:
  "encloses (l + c) (r + c) (l' + c) (r' + c) = encloses l r l' r'"
  "laminar (l + c) (r + c) (l' + c) (r' + c) = laminar l r l' r'"
  by (auto simp: encloses_def laminar_def)

text \<open>An interval of the tree against one inside the gap.\<close>

lemma gap_interval:
  fixes x y l r t w :: int
  assumes "x < y" "t \<le> l" "l < r" "r < t + w"
  shows "laminar (gap_open t w x) (gap_open t w y) l r"
    and "encloses (gap_open t w x) (gap_open t w y) l r \<longleftrightarrow> x < t \<and> t \<le> y"
    and "\<not> encloses l r (gap_open t w x) (gap_open t w y)"
  using assms by (auto simp: laminar_def encloses_def gap_open_def)

text \<open>A subtree that is moved as a whole, its depths shifted and its top row given a new parent.\<close>

definition moved_row :: "tree_row \<Rightarrow> dbvalue \<Rightarrow> int \<Rightarrow> int \<Rightarrow> tree_row \<Rightarrow> tree_row" where
  "moved_row n np c delta r = (if tw_pk r = tw_pk n then \<lambda>x. x\<lparr>tw_parent := np\<rparr> else id)
     (shift_row (\<lambda>b. b + c) r\<lparr>tw_depth := map_option (\<lambda>x. x + delta) (tw_depth r)\<rparr>)"

lemma moved_row_simps [simp]:
  "tw_pk (moved_row n np c delta r) = tw_pk r" "tw_lft (moved_row n np c delta r) = tw_lft r + c"
  "tw_rght (moved_row n np c delta r) = tw_rght r + c" "tw_data (moved_row n np c delta r) = tw_data r"
  "tw_depth (moved_row n np c delta r) = map_option (\<lambda>x. x + delta) (tw_depth r)"
  "tw_parent (moved_row n np c delta r) = (if tw_pk r = tw_pk n then np else tw_parent r)"
  by (simp_all add: moved_row_def)

lemma block_moved:
  assumes "block hasd B n" "\<And>s. s \<in> B \<Longrightarrow> 1 \<le> tw_lft s + c"
  shows "block hasd (moved_row n np c delta ` B) (moved_row n np c delta n)"
proof -
  let ?g = "moved_row n np c delta"
  have B: "n \<in> B" "\<And>s. s \<in> B \<Longrightarrow> tw_pk s \<noteq> VNull \<and> 1 \<le> tw_lft s \<and> tw_lft s < tw_rght s"
    "\<And>a b. a \<in> B \<Longrightarrow> b \<in> B \<Longrightarrow> a = b \<or> lam a b"
    "\<And>s. s \<in> B \<Longrightarrow> s \<noteq> n \<Longrightarrow> encl n s \<and> (\<exists>p. linked hasd B p s)"
    "\<And>a b. a \<in> B \<Longrightarrow> b \<in> B \<Longrightarrow> tw_pk a = tw_pk b \<Longrightarrow> a = b"
    using assms(1) by (auto simp: block_def inj_on_def)
  have enc: "encl (?g a) (?g b) = encl a b" "lam (?g a) (?g b) = lam a b" for a b
    by (auto simp: encloses_def laminar_def)
  have link: "\<exists>p. linked hasd (?g ` B) p (?g s)" if s: "s \<in> B" "s \<noteq> n" for s
  proof -
    obtain p where p: "linked hasd B p s" using B(4) [OF s] by blast
    have "tw_pk s \<noteq> tw_pk n" using B(1,5) s by blast
    with p have "linked hasd (?g ` B) (?g p) (?g s)" by (auto simp: linked_def enc)
    then show ?thesis by blast
  qed
  have "?g s = ?g n \<or> (encl (?g n) (?g s) \<and> (\<exists>p. linked hasd (?g ` B) p (?g s)))" if "s \<in> B" for s
    using that link B(4) enc by (cases "s = n") auto
  then have "\<forall>s \<in> ?g ` B - {?g n}. encl (?g n) s \<and> (\<exists>p. linked hasd (?g ` B) p s)" by blast
  moreover have "inj_on tw_pk (?g ` B)" using B(5) by (auto simp: inj_on_def)
  moreover have "\<forall>a \<in> ?g ` B. \<forall>b \<in> ?g ` B. a = b \<or> lam a b" using B(3) enc(2) by blast
  moreover have "\<forall>s \<in> ?g ` B. tw_pk s \<noteq> VNull \<and> 1 \<le> tw_lft s \<and> tw_lft s < tw_rght s" using B(2) assms(2) by auto
  ultimately show ?thesis using B(1) unfolding block_def by blast
qed

lemma tree_ok_move:
  assumes T: "tree_ok hasd T" "n \<in> T" and w: "w = subtree_width (tw_lft n) (tw_rght n)" and t: "1 \<le> t"
    and np: "(np = VNull \<and> (\<forall>a \<in> T - subtree T n. gap_close (tw_rght n) w (tw_rght a) < t) \<and> (hasd \<longrightarrow> tw_depth n = Some (- delta)))
      \<or> (\<exists>p \<in> T - subtree T n. np = tw_pk p \<and> t = gap_close (tw_rght n) w (tw_rght p)
            \<and> (hasd \<longrightarrow> (\<exists>d e. tw_depth p = Some d \<and> tw_depth n = Some e \<and> e + delta = d + 1)))"
  shows "tree_ok hasd ((\<lambda>r. if r \<in> subtree T n then moved_row n np (t - tw_lft n) delta r
     else shift_row (\<lambda>x. gap_open t w (gap_close (tw_rght n) w x)) r) ` T)"
proof -
  let ?S = "subtree T n" and ?c = "gap_close (tw_rght n) w" and ?g = "moved_row n np (t - tw_lft n) delta"
  let ?f = "shift_row (\<lambda>x. gap_open t w (?c x))"
  let ?A = "?f ` (T - ?S)" and ?B = "?g ` ?S"
  have n: "1 \<le> tw_lft n" "tw_lft n < tw_rght n" using tree_okD(3,4) [OF T] by auto
  have w0: "0 < w" "w = tw_rght n - tw_lft n + 1" using n w by (auto simp: subtree_width_def)
  have pos: "tw_lft r < tw_rght r" if "r \<in> T" for r using tree_okD(4) [OF T(1) that] .
  have S: "tw_lft n \<le> tw_lft s" "tw_rght s \<le> tw_rght n" "s \<in> T" if "s \<in> ?S" for s
    using that by (auto simp: subtree_def)
  have A: "tree_ok hasd ?A"
    using tree_ok_gap_open [OF tree_ok_gap_close [OF T refl w], of w t] w0(1)
    by (simp add: image_image shift_row_def)
  have B: "block hasd ?B (?g n)"
    by (rule block_moved [OF block_subtree [OF T]]) (use S(1) t in fastforce)
  have nS: "n \<in> ?S" using T(2) n by (simp add: subtree_def)
  have out: "x < tw_lft n \<or> tw_rght n < x" if "a \<in> T - ?S" "x \<in> {tw_lft a, tw_rght a}" for a x
    using that outside_cases [OF T, of a] pos [of a] n
    by (metis DiffE insertE less_trans singletonD)
  have mono: "x < y \<longleftrightarrow> ?c x < ?c y"
    if "a \<in> T - ?S" "b \<in> T - ?S" "x \<in> {tw_lft a, tw_rght a}" "y \<in> {tw_lft b, tw_rght b}" for a b x y
    using out [OF that(1,3)] out [OF that(2,4)] w0 by (auto simp: gap_close_def)
  have sep: "lam a s \<and> (encl a s \<longleftrightarrow> encl a (?g n)) \<and> \<not> encl s a" if as: "a \<in> ?A" "s \<in> ?B" for a s
  proof -
    obtain b where b: "b \<in> T - ?S" "a = ?f b" using as(1) by blast
    obtain u where u: "u \<in> ?S" "s = ?g u" using as(2) by blast
    have "?c (tw_lft b) < ?c (tw_rght b)"
      using mono [OF b(1,1), of "tw_lft b" "tw_rght b"] b(1) pos [of b] by simp
    note in_gap = gap_interval [OF this, of t _ _ w]
    have bound: "t \<le> tw_lft (?g v)" "tw_lft (?g v) < tw_rght (?g v)" "tw_rght (?g v) < t + w" if "v \<in> ?S" for v
      using S [OF that] pos [of v] w0 by simp_all
    show ?thesis
      unfolding b(2) u(2) shift_row_simps
      using in_gap [OF bound [OF u(1)]] in_gap(2) [OF bound [OF nS]] by simp
  qed
  have link: "rooted hasd ?A (?g n) \<or> (\<exists>p. linked hasd ?A p (?g n))"
    using np
  proof
    assume 1: "np = VNull \<and> (\<forall>a \<in> T - ?S. ?c (tw_rght a) < t) \<and> (hasd \<longrightarrow> tw_depth n = Some (- delta))"
    have "\<not> encl (?f a) (?g n)" if "a \<in> T - ?S" for a
    proof -
      have "?c (tw_rght a) < t" using 1 that by blast
      then show ?thesis using n by (auto simp: encloses_def gap_open_def)
    qed
    with 1 have "rooted hasd ?A (?g n)" by (auto simp: rooted_def)
    then show ?thesis by blast
  next
    assume "\<exists>p \<in> T - ?S. np = tw_pk p \<and> t = ?c (tw_rght p)
            \<and> (hasd \<longrightarrow> (\<exists>d e. tw_depth p = Some d \<and> tw_depth n = Some e \<and> e + delta = d + 1))"
    then obtain p where p: "p \<in> T - ?S" "np = tw_pk p" "t = ?c (tw_rght p)"
      "hasd \<longrightarrow> (\<exists>d e. tw_depth p = Some d \<and> tw_depth n = Some e \<and> e + delta = d + 1)" by blast
    have "linked hasd ?A (?f p) (?g n)"
      unfolding linked_def
    proof (intro conjI ballI impI)
      show "encl (?f p) (?g n)"
        using mono [OF p(1,1), of "tw_lft p" "tw_rght p"] pos [of p] p(1,3) w0
        by (auto simp: encloses_def gap_open_def)
      fix a' assume "a' \<in> ?A" "encl a' (?g n)"
      then obtain a where a: "a \<in> T - ?S" "a' = ?f a" and e: "encl (?f a) (?g n)" by blast
      have "?c (tw_lft a) < ?c (tw_rght p)" "\<not> ?c (tw_rght a) < ?c (tw_rght p)"
        using e n w0 unfolding p(3) by (auto simp: encloses_def gap_open_def split: if_splits)
      then have "tw_lft a < tw_rght p" "\<not> tw_rght a < tw_rght p"
        using mono [OF a(1) p(1), of "tw_lft a" "tw_rght p"] mono [OF a(1) p(1), of "tw_rght a" "tw_rght p"] by auto
      then have "a = p \<or> encl a p"
        using tree_okD(5) [OF T(1), of a p] a(1) p(1) pos [of a] pos [of p]
        by (auto simp: laminar_def encloses_def)
      then show "a' = ?f p \<or> encl a' (?f p)"
        using mono [OF a(1) p(1), of "tw_lft a" "tw_lft p"] mono [OF p(1) a(1), of "tw_rght p" "tw_rght a"] w0 a(2)
        by (auto simp: encloses_def gap_open_def)
    qed (use p in auto)
    then show ?thesis by blast
  qed
  have "tree_ok hasd (?A \<union> ?B)"
  proof (rule tree_ok_graft [OF A B _ sep link])
    show "tw_pk ` ?A \<inter> tw_pk ` ?B = {}"
      using tree_okD(1) [OF T(1)] S(3) by (auto simp: image_image)
  qed
  moreover have "(\<lambda>r. if r \<in> ?S then ?g r else ?f r) ` T = ?A \<union> ?B"
    by (auto simp: subtree_def)
  ultimately show ?thesis by simp
qed

text \<open>
  Taking one row out: its children move up to its parent, everything below it one level up, and the
  two numbers it used are closed.
\<close>

definition promoted :: "bool \<Rightarrow> tree_row \<Rightarrow> tree_row \<Rightarrow> tree_row" where
  "promoted dcol n r = r\<lparr>
     tw_parent := (if tw_parent r = tw_pk n then tw_parent n else tw_parent r),
     tw_depth := (if dcol \<and> encl n r then map_option (\<lambda>x. x - 1) (tw_depth r) else tw_depth r)\<rparr>"

definition spliced :: "tree_row \<Rightarrow> int \<Rightarrow> int" where
  "spliced n x = (if tw_rght n < x then x - 2 else if tw_lft n < x then x - 1 else x)"

lemma promoted_simps [simp]:
  "tw_pk (promoted dcol n r) = tw_pk r" "tw_lft (promoted dcol n r) = tw_lft r"
  "tw_rght (promoted dcol n r) = tw_rght r" "tw_data (promoted dcol n r) = tw_data r"
  "tw_parent (promoted dcol n r) = (if tw_parent r = tw_pk n then tw_parent n else tw_parent r)"
  "tw_depth (promoted dcol n r) = (if dcol \<and> encl n r then map_option (\<lambda>x. x - 1) (tw_depth r) else tw_depth r)"
  by (simp_all add: promoted_def)

lemma tree_ok_promoted:
  assumes T: "tree_ok hasd T" "n \<in> T"
  shows "tree_ok hasd (promoted hasd n ` (T - {n}))"
proof -
  let ?g = "promoted hasd n" and ?U = "promoted hasd n ` (T - {n})"
  have pk: "tw_pk a = tw_pk b \<longleftrightarrow> a = b" if "a \<in> T" "b \<in> T" for a b using tree_okD(1) [OF T(1) that] by blast
  have link: "linked hasd ?U (?g p) (?g r)" if l: "linked hasd T p r" and r: "r \<in> T - {n}" and p: "p \<noteq> n" for p r
  proof -
    have pr: "p \<in> T" "tw_parent r = tw_pk p" "encl p r" "\<And>a. a \<in> T \<Longrightarrow> encl a r \<Longrightarrow> a = p \<or> encl a p"
      using l by (auto simp: linked_def)
    have "encl n r \<longleftrightarrow> encl n p" using pr(4) [OF T(2)] pr(3) p encl_trans by blast
    moreover have "tw_pk p \<noteq> tw_pk n" using pk [OF pr(1) T(2)] p by simp
    ultimately show ?thesis using l p unfolding linked_def by (auto simp: image_iff)
  qed
  have step: "rooted hasd ?U (?g r) \<or> (\<exists>p. linked hasd ?U p (?g r))" if r: "r \<in> T - {n}" for r
  proof -
    from r have "r \<in> T" by simp
    from tree_okD(6) [OF T(1) this] consider (root) "rooted hasd T r" | (inner) p where "linked hasd T p r" "p \<noteq> n"
      | (child) "linked hasd T n r" by blast
    then show ?thesis
    proof cases
      case root
      then have "rooted hasd ?U (?g r)" using T(2) tree_okD(2) [OF T] by (auto simp: rooted_def)
      then show ?thesis by blast
    next
      case (inner p)
      with link [OF _ r] show ?thesis by blast
    next
      case child
      then have c: "tw_parent r = tw_pk n" "encl n r" "\<And>a. a \<in> T \<Longrightarrow> encl a r \<Longrightarrow> a = n \<or> encl a n"
        "hasd \<longrightarrow> (\<exists>d. tw_depth n = Some d \<and> tw_depth r = Some (d + 1))"
        by (auto simp: linked_def)
      from tree_okD(6) [OF T] consider (root) "rooted hasd T n" | (inner) q where "linked hasd T q n" by blast
      then show ?thesis
      proof cases
        case root
        then have "rooted hasd ?U (?g r)" using c by (auto simp: rooted_def)
        then show ?thesis by blast
      next
        case (inner q)
        then have q: "q \<in> T" "tw_parent n = tw_pk q" "encl q n" "\<And>a. a \<in> T \<Longrightarrow> encl a n \<Longrightarrow> a = q \<or> encl a q"
          "hasd \<longrightarrow> (\<exists>d. tw_depth q = Some d \<and> tw_depth n = Some (d + 1))" "q \<noteq> n"
          by (auto simp: linked_def)
        have "encl q r" "\<not> encl n q" using encl_trans [OF q(3) c(2)] q(3) by (auto simp: encloses_def)
        with c q have "linked hasd ?U (?g q) (?g r)" unfolding linked_def by (auto simp: image_iff)
        then show ?thesis by blast
      qed
    qed
  qed
  have "inj_on tw_pk ?U" using pk by (auto simp: inj_on_def)
  moreover have "\<forall>a \<in> ?U. \<forall>b \<in> ?U. a = b \<or> lam a b" using tree_okD(5) [OF T(1)] by (auto; metis)
  moreover have "\<forall>r \<in> ?U. tw_pk r \<noteq> VNull \<and> 1 \<le> tw_lft r \<and> tw_lft r < tw_rght r" using tree_okD(2-4) [OF T(1)] by auto
  ultimately show ?thesis using step unfolding tree_ok_def by blast
qed

lemma tree_ok_spliced:
  assumes T: "tree_ok hasd T" "n \<in> T"
  shows "tree_ok hasd (shift_row (spliced n) ` promoted hasd n ` (T - {n}))"
proof (rule tree_ok_shift [OF tree_ok_promoted [OF T]])
  have n: "1 \<le> tw_lft n" "tw_lft n < tw_rght n" using tree_okD(3,4) [OF T] by auto
  have out: "x \<noteq> tw_lft n \<and> x \<noteq> tw_rght n \<and> 1 \<le> x" if ax: "a \<in> promoted hasd n ` (T - {n})" "x \<in> {tw_lft a, tw_rght a}" for a x
  proof -
    obtain b where b0: "b \<in> T - {n}" "a = promoted hasd n b" using ax(1) by blast
    with ax(2) have b: "b \<in> T" "b \<noteq> n" "x \<in> {tw_lft b, tw_rght b}" by simp_all
    with tree_okD(5) [OF T(1) T(2) b(1)] tree_okD(3,4) [OF T(1) b(1)] n show ?thesis
      by (auto simp: laminar_def encloses_def)
  qed
  show "1 \<le> spliced n (tw_lft r)" if "r \<in> promoted hasd n ` (T - {n})" for r
    using out [OF that, of "tw_lft r"] n by (auto simp: spliced_def)
  show "x < y \<longleftrightarrow> spliced n x < spliced n y"
    if "a \<in> promoted hasd n ` (T - {n})" "b \<in> promoted hasd n ` (T - {n})"
      "x \<in> {tw_lft a, tw_rght a}" "y \<in> {tw_lft b, tw_rght b}" for a b x y
    using out [OF that(1,3)] out [OF that(2,4)] n by (auto simp: spliced_def)
qed

text \<open>Two neighbouring subtrees that change places.\<close>

definition swapped :: "tree_row \<Rightarrow> tree_row \<Rightarrow> tree_row \<Rightarrow> tree_row" where
  "swapped l r x =
     (if tw_lft l \<le> tw_lft x \<and> tw_rght x \<le> tw_rght l then shift_row (\<lambda>b. b + subtree_width (tw_lft r) (tw_rght r)) x
      else if tw_lft r \<le> tw_lft x \<and> tw_rght x \<le> tw_rght r then shift_row (\<lambda>b. b - subtree_width (tw_lft l) (tw_rght l)) x
      else x)"

lemma swapped_simps [simp]:
  "tw_pk (swapped l r x) = tw_pk x" "tw_parent (swapped l r x) = tw_parent x" "tw_depth (swapped l r x) = tw_depth x"
  by (simp_all add: swapped_def)

definition beside :: "tree_row \<Rightarrow> tree_row \<Rightarrow> tree_row \<Rightarrow> bool" where
  "beside l r x \<longleftrightarrow> (tw_lft x < tw_lft l \<and> tw_rght r < tw_rght x) \<or> tw_rght x < tw_lft l \<or> tw_rght r < tw_lft x"

lemma tree_ok_swapped:
  assumes T: "tree_ok hasd T" "l \<in> T" "r \<in> T" and adj: "tw_lft r = tw_rght l + 1"
  shows "tree_ok hasd (swapped l r ` T)"
proof -
  have lr: "1 \<le> tw_lft l" "tw_lft l < tw_rght l" "tw_lft r < tw_rght r"
    using tree_okD(3,4) [OF T(1,2)] tree_okD(4) [OF T(1,3)] by auto
  define w where "w = tw_rght l - tw_lft l + 1"
  define v where "v = tw_rght r - tw_lft r + 1"
  have b: "tw_rght l = tw_lft l + w - 1" "tw_lft r = tw_lft l + w" "tw_rght r = tw_lft l + w + v - 1" "1 < w" "1 < v"
    using adj lr by (simp_all add: w_def v_def)
  have cls: "x \<in> subtree T l \<or> x \<in> subtree T r \<or> (x \<notin> subtree T l \<and> x \<notin> subtree T r \<and> beside l r x)"
    if x: "x \<in> T" for x
  proof (cases "x \<in> subtree T l \<or> x \<in> subtree T r")
    case False
    have "tw_lft x < tw_rght x" by (rule tree_okD(4) [OF T(1) x])
    moreover have "(tw_lft x < tw_lft l \<and> tw_rght l < tw_rght x) \<or> tw_rght x < tw_lft l \<or> tw_rght l < tw_lft x"
      using outside_cases [OF T(1,2) x] False by metis
    moreover have "(tw_lft x < tw_lft r \<and> tw_rght r < tw_rght x) \<or> tw_rght x < tw_lft r \<or> tw_rght r < tw_lft x"
      using outside_cases [OF T(1,3) x] False by metis
    ultimately have "beside l r x" using adj lr unfolding beside_def by linarith
    with False show ?thesis by blast
  qed blast
  have L: "tw_lft (swapped l r x) = tw_lft x + v \<and> tw_rght (swapped l r x) = tw_rght x + v
      \<and> tw_lft l \<le> tw_lft x \<and> tw_rght x \<le> tw_rght l \<and> tw_lft x < tw_rght x" if "x \<in> subtree T l" for x
    using that tree_okD(4) [OF T(1), of x] by (auto simp: swapped_def subtree_def subtree_width_def v_def)
  have R: "tw_lft (swapped l r x) = tw_lft x - w \<and> tw_rght (swapped l r x) = tw_rght x - w
      \<and> tw_lft r \<le> tw_lft x \<and> tw_rght x \<le> tw_rght r \<and> tw_lft x < tw_rght x" if "x \<in> subtree T r" for x
    using that tree_okD(4) [OF T(1), of x] adj by (auto simp: swapped_def subtree_def subtree_width_def w_def)
  have O: "swapped l r x = x \<and> tw_lft x < tw_rght x" if "x \<in> T" "x \<notin> subtree T l" "x \<notin> subtree T r" for x
    using that tree_okD(4) [OF T(1), of x] by (auto simp: swapped_def subtree_def)
  have inner: "(encl x y \<longleftrightarrow> tw_lft x < tw_lft l \<and> tw_rght r < tw_rght x) \<and> \<not> encl y x \<and> lam x y"
    if "beside l r x" "tw_lft x < tw_rght x" "tw_lft l \<le> tw_lft y" "tw_lft y < tw_rght y" "tw_rght y \<le> tw_rght r" for x y
    using that by (auto simp: beside_def encloses_def laminar_def)
  have apart: "\<not> encl x y \<and> \<not> encl y x \<and> lam x y" if "tw_rght x < tw_lft y" "tw_lft x < tw_rght x" "tw_lft y < tw_rght y" for x y
    using that by (auto simp: encloses_def laminar_def)
  have mv: "encl (swapped l r x) (swapped l r y) = encl x y \<and> encl (swapped l r y) (swapped l r x) = encl y x
      \<and> lam (swapped l r x) (swapped l r y) = lam x y"
    if x: "x \<in> T" and y: "y \<in> subtree T l \<or> y \<in> subtree T r" and xr: "x \<in> subtree T r \<longrightarrow> y \<in> subtree T r" for x y
  proof -
    have yin: "tw_lft l \<le> tw_lft y \<and> tw_lft y < tw_rght y \<and> tw_rght y \<le> tw_rght r
        \<and> tw_lft l \<le> tw_lft (swapped l r y) \<and> tw_lft (swapped l r y) < tw_rght (swapped l r y)
        \<and> tw_rght (swapped l r y) \<le> tw_rght r"
      using y L [of y] R [of y] b by auto
    from cls [OF x] consider (l) "x \<in> subtree T l" | (r) "x \<in> subtree T r"
      | (o) "x \<notin> subtree T l" "x \<notin> subtree T r" "beside l r x" by blast
    then show ?thesis
    proof cases
      case l
      from y show ?thesis
      proof
        assume "y \<in> subtree T l"
        with L l show ?thesis by simp
      next
        assume yr: "y \<in> subtree T r"
        have "tw_rght x < tw_lft y" "tw_rght (swapped l r y) < tw_lft (swapped l r x)"
          using L [OF l] R [OF yr] b by auto
        with apart [of x y] apart [of "swapped l r y" "swapped l r x"] L [OF l] R [OF yr] laminar_sym
        show ?thesis by auto
      qed
    next
      case r
      with xr have "y \<in> subtree T r" by simp
      with R [OF r] R [of y] show ?thesis by (simp add: encloses_def laminar_def)
    next
      case o
      with O [OF x] inner [of x y] inner [of x "swapped l r y"] yin show ?thesis by auto
    qed
  qed
  have same: "encl (swapped l r x) (swapped l r y) = encl x y \<and> lam (swapped l r x) (swapped l r y) = lam x y"
    if x: "x \<in> T" and y: "y \<in> T" for x y
  proof -
    consider (1) "y \<in> subtree T l \<or> y \<in> subtree T r" "x \<in> subtree T r \<longrightarrow> y \<in> subtree T r"
      | (2) "x \<in> subtree T l \<or> x \<in> subtree T r" "y \<in> subtree T r \<longrightarrow> x \<in> subtree T r"
      | (3) "x \<notin> subtree T l" "x \<notin> subtree T r" "y \<notin> subtree T l" "y \<notin> subtree T r" by blast
    then show ?thesis
    proof cases
      case 1
      with mv [OF x] show ?thesis by blast
    next
      case 2
      with mv [OF y, of x] show ?thesis by (simp add: laminar_sym)
    next
      case 3
      with O x y show ?thesis by simp
    qed
  qed
  show ?thesis
  proof (rule tree_ok_embed [OF T(1)])
    show "1 \<le> tw_lft (swapped l r x) \<and> tw_lft (swapped l r x) < tw_rght (swapped l r x)" if "x \<in> T" for x
      using cls [OF that] L [of x] R [of x] O [OF that] tree_okD(3) [OF T(1) that] lr b by auto
  qed (use same in auto)
qed

lemma depth_known: "tree_ok True T \<Longrightarrow> n \<in> T \<Longrightarrow> \<exists>d. tw_depth n = Some d"
  using tree_okD(6) [of True T n] by (auto simp: rooted_def linked_def)

section \<open>The operations on a database\<close>

text \<open>The rows a manager works on are those of its scope; an operation leaves the others alone.\<close>

definition scope_rows :: "'d tree_manager \<Rightarrow> tree_row set \<Rightarrow> tree_row set" where
  "scope_rows m R = {r \<in> R. in_scope m r}"

definition foreign_rows :: "'d tree_manager \<Rightarrow> tree_row set \<Rightarrow> tree_row set" where
  "foreign_rows m R = {r \<in> R. \<not> in_scope m r}"

lemma matches_scope [simp]: "row_matches (scope_conds m) r = in_scope m r"
  by (simp add: in_scope_def)

lemma update_scoped:
  "scope_rows m (update_row ss (cs @ scope_conds m) ` R) = update_row ss cs ` scope_rows m R"
  "foreign_rows m (update_row ss (cs @ scope_conds m) ` R) = foreign_rows m R"
proof -
  have "update_row ss (cs @ scope_conds m) r = (if in_scope m r then update_row ss cs r else r)" for r
    by (simp add: update_row_def)
  then show "scope_rows m (update_row ss (cs @ scope_conds m) ` R) = update_row ss cs ` scope_rows m R"
    and "foreign_rows m (update_row ss (cs @ scope_conds m) ` R) = foreign_rows m R"
    by (force simp: scope_rows_def foreign_rows_def)+
qed

lemma close_row:
  "update_row [AddInt RightCol (- w)] [CondInt RightCol CGt q] (update_row [AddInt LeftCol (- w)] [CondInt LeftCol CGt q] r)
     = shift_row (gap_close q w) r"
  by (simp add: update_row_def apply_sets_def shift_row_def gap_close_def)

lemma open_row:
  "update_row [AddInt LeftCol w] [CondInt LeftCol CGe p] (update_row [AddInt RightCol w] [CondInt RightCol CGe p] r)
     = shift_row (gap_open p w) r"
  by (simp add: update_row_def apply_sets_def shift_row_def gap_open_def)

text \<open>A new row gets the values of the scope, so it is a row of the tree.\<close>

definition scope_proper :: "'d tree_manager \<Rightarrow> bool" where
  "scope_proper m \<longleftrightarrow> distinct (map fst (tm_scope m)) \<and> VNull \<notin> snd ` set (tm_scope m)"

context tree_store
begin

definition tree_of :: "'d tree_manager \<Rightarrow> 'd \<Rightarrow> tree_row set" where
  "tree_of m d = scope_rows m (rows d)"

definition others_of :: "'d tree_manager \<Rightarrow> 'd \<Rightarrow> tree_row set" where
  "others_of m d = foreign_rows m (rows d)"

lemma tree_finite: "finite (tree_of m d)"
  using rows_finite by (simp add: tree_of_def scope_rows_def)

lemma tm_update_ok:
  assumes "tm_engine m = E" "tm_update m ss cs d = (Inr u, d')"
  shows "tree_of m d' = update_row ss cs ` tree_of m d" "others_of m d' = others_of m d"
  using update_ok [of ss "cs @ scope_conds m" d u d'] assms
  by (simp_all add: tm_update_def tree_of_def others_of_def update_scoped)

lemma shift_for_delete_ok:
  assumes "tm_engine m = E" "shift_for_delete m q w d = (Inr u, d')"
  shows "tree_of m d' = shift_row (gap_close q w) ` tree_of m d" "others_of m d' = others_of m d"
  using assms(2) tm_update_ok [OF assms(1)]
  by (auto simp: shift_for_delete_def result_simps image_image close_row)

lemma shift_for_insert_ok:
  assumes "tm_engine m = E" "shift_for_insert m p w d = (Inr u, d')"
  shows "tree_of m d' = shift_row (gap_open p w) ` tree_of m d" "others_of m d' = others_of m d"
  using assms(2) tm_update_ok [OF assms(1)]
  by (auto simp: shift_for_insert_def result_simps image_image open_row)

definition in_range :: "int \<Rightarrow> int \<Rightarrow> tree_row \<Rightarrow> bool" where
  "in_range l r x \<longleftrightarrow> tw_lft x \<ge> l \<and> tw_rght x \<le> r"

lemma move_range_ok:
  assumes "tm_engine m = E" "move_range m l r delta d = (Inr u, d')"
  shows "tree_of m d' = (\<lambda>x. if in_range l r x then shift_row (\<lambda>b. b + delta) x else x) ` tree_of m d"
    and "others_of m d' = others_of m d"
proof -
  have "update_row [AddInt LeftCol delta, AddInt RightCol delta] [CondInt LeftCol CGe l, CondInt RightCol CLe r]
      = (\<lambda>x. if in_range l r x then shift_row (\<lambda>b. b + delta) x else x)"
    by (auto simp: fun_eq_iff update_row_def apply_sets_def shift_row_def in_range_def)
  with tm_update_ok [OF assms(1)] assms(2) show
    "tree_of m d' = (\<lambda>x. if in_range l r x then shift_row (\<lambda>b. b + delta) x else x) ` tree_of m d"
    "others_of m d' = others_of m d"
    by (auto simp: move_range_def)
qed

lemma tm_execute_ok:
  assumes "tm_engine m = E" "tm_execute m q d = (Inr rs, d')"
  shows "rows d' = rows d" "set rs = {r \<in> tree_of m d. row_matches (fst q) r}" "distinct rs"
    "snd q = Some True \<Longrightarrow> sorted (map tw_lft rs)"
  using select_ok [of "fst q @ scope_conds m" "snd q" d rs d'] assms
  by (auto simp: tm_execute_def tree_of_def scope_rows_def)

lemma same_rows: "rows d' = rows d \<Longrightarrow> tree_of m d' = tree_of m d \<and> others_of m d' = others_of m d"
  by (simp add: tree_of_def others_of_def)

lemma tm_results_ok:
  assumes "tm_engine m = E" "tm_results m q d = (Inr ns, d')"
  shows "rows d' = rows d"
    and "\<exists>rs. ns = map (make_result m) rs \<and> set rs = {r \<in> tree_of m d. row_matches (fst q) r} \<and> distinct rs
       \<and> (snd q = Some True \<longrightarrow> sorted (map tw_lft rs))"
proof -
  from assms(2) obtain rs where rs: "tm_execute m q d = (Inr rs, d')" "ns = map (make_result m) rs"
    by (auto simp: tm_results_def result_simps)
  from tm_execute_ok [OF assms(1) rs(1)] rs(2) show "rows d' = rows d"
    and "\<exists>rs. ns = map (make_result m) rs \<and> set rs = {r \<in> tree_of m d. row_matches (fst q) r} \<and> distinct rs
       \<and> (snd q = Some True \<longrightarrow> sorted (map tw_lft rs))" by blast+
qed

lemma get_node_ok:
  assumes "tm_engine m = E" "get_node m i d = (Inr found, d')" "tree_ok hasd (tree_of m d)"
  shows "rows d' = rows d" "found = Some n \<Longrightarrow> \<exists>p \<in> tree_of m d. n = make_result m p \<and> tw_pk p = i"
    "found = None \<Longrightarrow> i \<notin> tw_pk ` tree_of m d"
proof -
  from assms(2) obtain rs where rs: "tm_execute m (find_by_id i) d = (Inr rs, d')"
    and f: "found = (case rs of [] \<Rightarrow> None | r # _ \<Rightarrow> Some (make_result m r))"
    by (auto simp: get_node_def result_simps)
  note ex = tm_execute_ok [OF assms(1) rs]
  show "rows d' = rows d" by (rule ex(1))
  have set: "set rs = {r \<in> tree_of m d. tw_pk r \<noteq> VNull \<and> tw_pk r = i}"
    using ex(2) by (auto simp: find_by_id_def sql_eq_def)
  show "found = Some n \<Longrightarrow> \<exists>p \<in> tree_of m d. n = make_result m p \<and> tw_pk p = i"
    using f set by (cases rs) auto
  show "found = None \<Longrightarrow> i \<notin> tw_pk ` tree_of m d"
    using f set tree_okD(2) [OF assms(3)] by (cases rs) auto
qed

lemma max_rght_ok:
  assumes "tm_engine m = E" "tm_max_rght m d = (Inr mx, d')"
  shows "rows d' = rows d" "r \<in> tree_of m d \<Longrightarrow> tw_rght r \<le> mx" "tree_of m d = {} \<Longrightarrow> mx = 0"
proof -
  from assms obtain v where v: "te_max_right E (scope_conds m) d = (Inr v, d')" "mx = (case v of None \<Rightarrow> 0 | Some x \<Rightarrow> x)"
    by (auto simp: tm_max_rght_def result_simps)
  have "v = (if tree_of m d = {} then None else Some (Max (tw_rght ` tree_of m d)))" and eq: "rows d' = rows d"
    using max_ok [OF v(1)] by (simp_all add: tree_of_def scope_rows_def Let_def)
  with v(2) tree_finite show "rows d' = rows d" "r \<in> tree_of m d \<Longrightarrow> tw_rght r \<le> mx" "tree_of m d = {} \<Longrightarrow> mx = 0"
    by auto
qed

text \<open>The level of a node: the depth column, or the number of rows around it.\<close>

lemma get_level_ok:
  assumes "tm_engine m = E" "get_level m n d = (Inr l, d')"
  shows "rows d' = rows d" "nd_depth n = Some k \<Longrightarrow> l = k"
proof -
  show "nd_depth n = Some k \<Longrightarrow> l = k" using assms(2) by (simp add: get_level_def)
  show "rows d' = rows d"
    using assms(2) by (auto simp: get_level_def get_path_def result_simps split: option.splits dest!: tm_results_ok(1) [OF assms(1)])
qed

lemma delete_subtree_ok:
  assumes "tm_engine m = E" "tree_ok hasd (tree_of m d)" "n \<in> tree_of m d"
    and "delete_subtree m (make_result m n) d = (Inr k, d')"
  shows "tree_ok hasd (tree_of m d')" "others_of m d' = others_of m d"
    "tw_pk ` tree_of m d' = tw_pk ` (tree_of m d - subtree (tree_of m d) n)"
proof -
  let ?cs = "[CondInt LeftCol CGe (tw_lft n), CondInt RightCol CLe (tw_rght n)]"
  let ?w = "subtree_width (tw_lft n) (tw_rght n)"
  from assms(1,4) obtain u d1 u2 where del: "te_delete E (?cs @ scope_conds m) d = (Inr u, d1)"
    and sh: "shift_for_delete m (tw_rght n) ?w d1 = (Inr u2, d')"
    by (auto simp: delete_subtree_def make_result_def Let_def result_simps)
  have "tree_of m d1 = tree_of m d - subtree (tree_of m d) n"
    using delete_ok [OF del] by (auto simp: tree_of_def scope_rows_def subtree_def)
  moreover have "others_of m d1 = others_of m d"
    using delete_ok [OF del] by (auto simp: others_of_def foreign_rows_def)
  ultimately show "tree_ok hasd (tree_of m d')" "others_of m d' = others_of m d"
      "tw_pk ` tree_of m d' = tw_pk ` (tree_of m d - subtree (tree_of m d) n)"
    using shift_for_delete_ok [OF assms(1) sh] tree_ok_gap_close [OF assms(2,3) refl refl] by (auto simp: image_image)
qed

lemma assigned_in_scope:
  assumes "scope_proper m" "tw_data r = assign_scope m data"
  shows "in_scope m r"
proof -
  have keep: "c \<notin> fst ` set sc \<Longrightarrow> alookup (fold (\<lambda>(c, v). aput c v) sc data) c = alookup data c" for sc c data
    by (induction sc arbitrary: data) auto
  have "distinct (map fst sc) \<Longrightarrow> (c, v) \<in> set sc \<Longrightarrow> alookup (fold (\<lambda>(c, v). aput c v) sc data) c = Some v" for sc c v data
    by (induction sc arbitrary: data) (auto simp: keep image_iff)
  with assms have "alookup (tw_data r) c = Some v \<and> v \<noteq> VNull" if "(c, v) \<in> set (tm_scope m)" for c v
    using that by (force simp: assign_scope_def scope_proper_def)
  then show ?thesis
    by (auto simp: in_scope_def row_matches_def scope_conds_def list_all_iff sql_eq_def)
qed

lemma inserted_ok:
  assumes "te_insert E r d = (Inr q, d')" "in_scope m r" "tm_engine m = E"
  obtains k where "k \<noteq> VNull" "k \<notin> tw_pk ` tree_of m d" "tree_of m d' = insert (r\<lparr>tw_pk := k\<rparr>) (tree_of m d)"
    "others_of m d' = others_of m d" "tw_pk r \<noteq> VNull \<Longrightarrow> k = tw_pk r"
proof -
  obtain k where k: "k \<noteq> VNull" "k \<notin> tw_pk ` rows d" "tw_pk r \<noteq> VNull \<longrightarrow> k = tw_pk r"
    "rows d' = insert (r\<lparr>tw_pk := k\<rparr>) (rows d)"
    using insert_ok [OF assms(1)] by blast
  have "in_scope m (r\<lparr>tw_pk := k\<rparr>)" using assms(2) in_scope_data [of "r\<lparr>tw_pk := k\<rparr>" r m] by simp
  with k that [of k] show thesis
    by (auto simp: tree_of_def others_of_def scope_rows_def foreign_rows_def)
qed

lemma insert_as_child_ok:
  assumes "tm_engine m = E" "scope_proper m" "tree_ok (tm_has_depth m) (tree_of m d)"
    and "insert_as_child m parent_id pk data d = (Inr x, d')"
  shows "tree_ok (tm_has_depth m) (tree_of m d')" "others_of m d' = others_of m d"
    and "\<exists>k. tw_pk ` tree_of m d' = insert k (tw_pk ` tree_of m d) \<and> k \<notin> tw_pk ` tree_of m d
       \<and> (\<exists>r \<in> tree_of m d'. tw_pk r = k \<and> tw_parent r = parent_id)"
proof -
  let ?T = "tree_of m d" and ?hasd = "tm_has_depth m"
  let ?row = "\<lambda>l r dep. \<lparr>tw_pk = pk, tw_parent = parent_id, tw_lft = l, tw_rght = r,
    tw_depth = (if ?hasd then Some dep else None), tw_data = assign_scope m data\<rparr>"
  have sc: "in_scope m (?row l r dep)" for l r dep by (rule assigned_in_scope [OF assms(2)]) simp
  have "tree_ok ?hasd (tree_of m d') \<and> others_of m d' = others_of m d \<and>
     (\<exists>k. tw_pk ` tree_of m d' = insert k (tw_pk ` ?T) \<and> k \<notin> tw_pk ` ?T
       \<and> (\<exists>r \<in> tree_of m d'. tw_pk r = k \<and> tw_parent r = parent_id))"
  proof (cases "parent_id = VNull")
    case True
    with assms(1,4) obtain mx d1 q where mx: "tm_max_rght m d = (Inr mx, d1)"
      and ins: "te_insert E (?row (mx + 1) (mx + 2) 0) d1 = (Inr q, d')"
      by (auto simp: insert_as_child_def Let_def insert_as_root_def result_simps)
    note mo = max_rght_ok [OF assms(1) mx]
    have d1: "tree_of m d1 = ?T" "others_of m d1 = others_of m d" using same_rows [OF mo(1)] by auto
    obtain k where k: "k \<noteq> VNull" "k \<notin> tw_pk ` ?T" "tree_of m d' = insert (?row (mx + 1) (mx + 2) 0\<lparr>tw_pk := k\<rparr>) ?T"
      "others_of m d' = others_of m d"
      using inserted_ok [OF ins sc assms(1)] d1 by metis
    have "0 \<le> mx"
    proof (cases "?T = {}")
      case False
      then obtain r where r: "r \<in> ?T" by blast
      from mo(2) [OF r] tree_okD(3,4) [OF assms(3) r] show ?thesis by simp
    qed (use mo(3) in simp)
    then have "tree_ok ?hasd (insert (?row (mx + 1) (mx + 2) 0\<lparr>tw_pk := k\<rparr>) ?T)"
      using k(1,2) True mo(2) by (intro tree_ok_new_root [OF assms(3)]) force+
    with k show ?thesis by (auto simp: image_iff)
  next
    case False
    with assms(1,4) obtain found d1 where g: "get_node m parent_id d = (Inr found, d1)"
      by (auto simp: insert_as_child_def Let_def result_simps)
    with False assms(1,4) obtain parent u d2 level d3 q where f: "found = Some parent"
      and sh: "shift_for_insert m (nd_rght parent) 2 d1 = (Inr u, d2)"
      and lv: "get_level m parent d2 = (Inr level, d3)"
      and ins: "te_insert E (?row (nd_rght parent) (nd_rght parent + 1) (level + 1)) d3 = (Inr q, d')"
      by (auto simp: insert_as_child_def Let_def insert_as_last_child_def result_simps split: option.splits)
    note gn = get_node_ok [OF assms(1) g assms(3)]
    from gn(2) [OF f] obtain p where p: "p \<in> ?T" "parent = make_result m p" "tw_pk p = parent_id" by blast
    let ?O = "shift_row (gap_open (tw_rght p) 2)"
    have d1: "tree_of m d1 = ?T" "others_of m d1 = others_of m d" using same_rows [OF gn(1)] by auto
    have d2: "tree_of m d2 = ?O ` ?T" "others_of m d2 = others_of m d"
      using shift_for_insert_ok [OF assms(1) sh] d1 p(2) by (simp_all add: make_result_def)
    note lo = get_level_ok [OF assms(1) lv]
    have d3: "tree_of m d3 = ?O ` ?T" "others_of m d3 = others_of m d"
      using same_rows [OF lo(1)] d2 by auto
    let ?x = "?row (tw_rght p) (tw_rght p + 1) (level + 1)"
    have "te_insert E ?x d3 = (Inr q, d')" using ins p(2) by (simp add: make_result_def)
    moreover have "tw_pk ` ?O ` ?T = tw_pk ` ?T" by (simp add: image_image)
    ultimately obtain k where k: "k \<noteq> VNull" "k \<notin> tw_pk ` ?T"
      "tree_of m d' = insert (?x\<lparr>tw_pk := k\<rparr>) (?O ` ?T)" "others_of m d' = others_of m d"
      using inserted_ok [OF _ sc assms(1)] d3 by metis
    have dep: "?hasd \<longrightarrow> (\<exists>e. tw_depth p = Some e \<and> level = e)"
      using depth_known [OF _ p(1)] assms(3) lo(2) p(2) by (auto simp: make_result_def)
    have "tree_ok ?hasd (insert (?x\<lparr>tw_pk := k\<rparr>) (?O ` ?T))"
      by (rule tree_ok_leaf [OF assms(3) p(1)]) (use k dep p(3) in auto)
    with k show ?thesis by (auto simp: image_image)
  qed
  then show "tree_ok ?hasd (tree_of m d')" "others_of m d' = others_of m d"
    "\<exists>k. tw_pk ` tree_of m d' = insert k (tw_pk ` ?T) \<and> k \<notin> tw_pk ` ?T
       \<and> (\<exists>r \<in> tree_of m d'. tw_pk r = k \<and> tw_parent r = parent_id)" by auto
qed

text \<open>
  The five statements of \<open>move_subtree\<close>, row by row: the subtree is parked below zero, where neither
  the closing nor the opening of a gap reaches it.
\<close>

lemma move_row_steps:
  assumes T: "tree_ok hasd T" "n \<in> T" and r: "r \<in> T" and t: "1 \<le> t"
    and w: "w = subtree_width (tw_lft n) (tw_rght n)" and i: "i = - 10000000 - tw_rght n"
  shows "update_row [SetParent np] [CondPk (tw_pk n)]
     (update_row ([AddInt LeftCol (t - tw_lft n - i), AddInt RightCol (t - tw_lft n - i)]
          @ (if hd' \<and> delta \<noteq> 0 then [AddInt DepthCol delta] else []))
        [CondInt LeftCol CGe (tw_lft n + i), CondInt RightCol CLe (tw_rght n + i)]
       (shift_row (gap_open t w) (shift_row (gap_close (tw_rght n) w)
         (if in_range (tw_lft n) (tw_rght n) r then shift_row (\<lambda>b. b + i) r else r))))
     = (if r \<in> subtree T n then moved_row n np (t - tw_lft n) (if hd' then delta else 0) r
        else shift_row (\<lambda>x. gap_open t w (gap_close (tw_rght n) w x)) r)"
proof -
  have n: "1 \<le> tw_lft n" "tw_lft n < tw_rght n" "tw_pk n \<noteq> VNull" using tree_okD(2-4) [OF T] by auto
  have rb: "1 \<le> tw_lft r" "tw_lft r < tw_rght r" "tw_pk r \<noteq> VNull" using tree_okD(2-4) [OF T(1) r] by auto
  have pk: "tw_pk r = tw_pk n \<longleftrightarrow> r = n" using tree_okD(1) [OF T(1) r T(2)] by auto
  have rng: "in_range (tw_lft n) (tw_rght n) r \<longleftrightarrow> r \<in> subtree T n" using r by (simp add: in_range_def subtree_def)
  show ?thesis
  proof (cases "r \<in> subtree T n")
    case True
    then have b: "tw_lft n \<le> tw_lft r" "tw_rght r \<le> tw_rght n" by (auto simp: subtree_def)
    have "shift_row (gap_open t w) (shift_row (gap_close (tw_rght n) w) (shift_row (\<lambda>b. b + i) r)) = shift_row (\<lambda>b. b + i) r"
      using b rb n t i by (simp add: shift_row_def gap_open_def gap_close_def)
    with True b n(3) rb(3) show ?thesis
      by (cases "tw_depth r") (auto simp: rng moved_row_def update_row_def apply_sets_def shift_row_def sql_eq_def)
  next
    case False
    have nn: "r \<noteq> n" using False T(2) n by (auto simp: subtree_def)
    have c: "0 < gap_close (tw_rght n) w (tw_rght r)" using rb n w by (auto simp: gap_close_def subtree_width_def)
    have "0 \<le> w" using n w by (simp add: subtree_width_def)
    then have "\<not> gap_open t w (gap_close (tw_rght n) w (tw_rght r)) \<le> tw_rght n + i"
      using c i by (auto simp: gap_open_def)
    with False nn show ?thesis
      by (auto simp: rng pk update_row_def shift_row_def sql_eq_def)
  qed
qed

lemma move_subtree_ok:
  assumes "tm_engine m = E" "tree_ok hasd (tree_of m d)" "n \<in> tree_of m d" "1 \<le> t"
    and "move_subtree m (make_result m n) t np dep d = (Inr u, d')"
  shows "\<exists>old. (\<forall>k. nd_depth (make_result m n) = Some k \<longrightarrow> old = k) \<and> others_of m d' = others_of m d
     \<and> tree_of m d' = (\<lambda>r. if r \<in> subtree (tree_of m d) n
          then moved_row n np (t - tw_lft n) (if tm_has_depth m then dep - old else 0) r
          else shift_row (\<lambda>x. gap_open t (subtree_width (tw_lft n) (tw_rght n))
                 (gap_close (tw_rght n) (subtree_width (tw_lft n) (tw_rght n)) x)) r) ` tree_of m d"
proof -
  let ?T = "tree_of m d" and ?w = "subtree_width (tw_lft n) (tw_rght n)"
  obtain level d0 where lv: "get_level m (make_result m n) d = (Inr level, d0)"
    using assms(5) by (auto simp: move_subtree_def result_simps)
  note lo = get_level_ok [OF assms(1) lv]
  define old where "old = (case nd_depth (make_result m n) of Some k \<Rightarrow> k | None \<Rightarrow> level)"
  define i where "i = - 10000000 - tw_rght n"
  from assms(5) lv obtain d1 d2 d3 d4 u1 u2 u3 u4 where
    s1: "move_range m (tw_lft n) (tw_rght n) i d0 = (Inr u1, d1)" and
    s2: "shift_for_delete m (tw_rght n) ?w d1 = (Inr u2, d2)" and
    s3: "shift_for_insert m t ?w d2 = (Inr u3, d3)" and
    s4: "tm_update m ([AddInt LeftCol (t - tw_lft n - i), AddInt RightCol (t - tw_lft n - i)]
          @ (if tm_has_depth m \<and> dep - old \<noteq> 0 then [AddInt DepthCol (dep - old)] else []))
        [CondInt LeftCol CGe (tw_lft n + i), CondInt RightCol CLe (tw_rght n + i)] d3 = (Inr u4, d4)" and
    s5: "tm_update m [SetParent np] [CondPk (tw_pk n)] d4 = (Inr u, d')"
    unfolding move_subtree_def Let_def act_bind_Inr old_def i_def
    by (auto simp: make_result_def)
  have d0: "tree_of m d0 = ?T" "others_of m d0 = others_of m d" using same_rows [OF lo(1)] by auto
  note st = move_range_ok [OF assms(1) s1] shift_for_delete_ok [OF assms(1) s2] shift_for_insert_ok [OF assms(1) s3]
    tm_update_ok [OF assms(1) s4] tm_update_ok [OF assms(1) s5]
  have "tree_of m d' = (\<lambda>r. if r \<in> subtree ?T n
          then moved_row n np (t - tw_lft n) (if tm_has_depth m then dep - old else 0) r
          else shift_row (\<lambda>x. gap_open t ?w (gap_close (tw_rght n) ?w x)) r) ` ?T"
    unfolding st d0 image_image
    by (rule image_cong [OF refl]) (rule move_row_steps [OF assms(2,3) _ assms(4) refl i_def])
  moreover have "others_of m d' = others_of m d" using st d0 by simp
  moreover have "\<forall>k. nd_depth (make_result m n) = Some k \<longrightarrow> old = k" by (simp add: old_def)
  ultimately show ?thesis by blast
qed

lemma move_to_ok:
  assumes "tm_engine m = E" "tree_ok (tm_has_depth m) (tree_of m d)" "n \<in> tree_of m d"
    and "move_to m (make_result m n) np d = (Inr u, d')"
  shows "tree_ok (tm_has_depth m) (tree_of m d')" "others_of m d' = others_of m d"
    "tw_pk ` tree_of m d' = tw_pk ` tree_of m d" "\<exists>r \<in> tree_of m d'. tw_pk r = tw_pk n \<and> tw_parent r = np"
proof -
  let ?T = "tree_of m d" and ?w = "subtree_width (tw_lft n) (tw_rght n)" and ?hasd = "tm_has_depth m"
  have n: "1 \<le> tw_lft n" "tw_lft n < tw_rght n" using tree_okD(3,4) [OF assms(2,3)] by auto
  have w: "?w = tw_rght n - tw_lft n + 1" by (simp add: subtree_width_def)
  have out: "tw_rght a < tw_lft n \<or> tw_rght n < tw_rght a" if "a \<in> ?T - subtree ?T n" for a
    using that outside_cases [OF assms(2,3), of a] tree_okD(4) [OF assms(2), of a]
    by (metis DiffE less_trans)
  obtain t dep d1 u1 where run: "move_subtree m (make_result m n) t np dep d1 = (Inr u1, d')" and t: "1 \<le> t"
    and rows1: "rows d1 = rows d"
    and target: "(np = VNull \<and> dep = 0 \<and> (\<forall>a \<in> ?T - subtree ?T n. gap_close (tw_rght n) ?w (tw_rght a) < t))
      \<or> (\<exists>p \<in> ?T - subtree ?T n. np = tw_pk p \<and> t = gap_close (tw_rght n) ?w (tw_rght p)
            \<and> (\<forall>k. nd_depth (make_result m p) = Some k \<longrightarrow> dep = k + 1))"
  proof (cases "np = VNull")
    case True
    with assms(4) obtain mx d1 where mx: "tm_max_rght m d = (Inr mx, d1)"
      and go: "move_subtree m (make_result m n) (if mx + 1 > tw_rght n then mx + 1 - ?w else mx + 1) np 0 d1 = (Inr u, d')"
      by (auto simp: move_to_def Let_def make_result_def result_simps)
    note mo = max_rght_ok [OF assms(1) mx]
    have top: "tw_rght n \<le> mx" using mo(2) [OF assms(3)] .
    have "gap_close (tw_rght n) ?w (tw_rght a) < mx + 1 - ?w" if "a \<in> ?T - subtree ?T n" for a
      using out [OF that] mo(2) [of a] that top w by (auto simp: gap_close_def)
    moreover have "1 \<le> mx + 1 - ?w" using top n w by simp
    ultimately show thesis using that [of "mx + 1 - ?w" 0 d1 u] go top True mo(1) by simp
  next
    case False
    with assms(4) obtain found d1 where g: "get_node m np d = (Inr found, d1)"
      by (auto simp: move_to_def Let_def result_simps)
    with False assms(4) obtain parent level d2 where f: "found = Some parent"
      and chk: "\<not> (is_descendant_of \<lparr>b_lft = nd_lft parent, b_rght = nd_rght parent\<rparr> \<lparr>b_lft = tw_lft n, b_rght = tw_rght n\<rparr>
          \<or> (nd_lft parent = tw_lft n \<and> nd_rght parent = tw_rght n))"
      and lv: "get_level m parent d1 = (Inr level, d2)"
      and go: "move_subtree m (make_result m n) (if nd_rght parent > tw_rght n then nd_rght parent - ?w else nd_rght parent)
         np (level + 1) d2 = (Inr u, d')"
      by (auto simp: move_to_def Let_def make_result_def result_simps split: option.splits if_splits)
    note gn = get_node_ok [OF assms(1) g assms(2)]
    from gn(2) [OF f] obtain p where p: "p \<in> ?T" "parent = make_result m p" "tw_pk p = np" by blast
    have pS: "p \<notin> subtree ?T n"
      using chk in_subtree [OF assms(2,3), of p] p(2)
      by (auto simp: make_result_def is_descendant_of_def encloses_def)
    have "1 \<le> gap_close (tw_rght n) ?w (tw_rght p)"
      using out [of p] p(1) pS n w tree_okD(3,4) [OF assms(2) p(1)] by (auto simp: gap_close_def)
    moreover have "(if nd_rght parent > tw_rght n then nd_rght parent - ?w else nd_rght parent) = gap_close (tw_rght n) ?w (tw_rght p)"
      by (simp add: p(2) make_result_def gap_close_def)
    moreover note lo = get_level_ok [OF assms(1) lv]
    ultimately show thesis
      using that [of "gap_close (tw_rght n) ?w (tw_rght p)" "level + 1" d2 u] go p pS gn(1) by auto
  qed
  have d1: "tree_of m d1 = ?T" "others_of m d1 = others_of m d" using same_rows [OF rows1] by auto
  obtain old where old: "\<forall>k. nd_depth (make_result m n) = Some k \<longrightarrow> old = k" "others_of m d' = others_of m d"
    and T': "tree_of m d' = (\<lambda>r. if r \<in> subtree ?T n then moved_row n np (t - tw_lft n) (if ?hasd then dep - old else 0) r
        else shift_row (\<lambda>x. gap_open t ?w (gap_close (tw_rght n) ?w x)) r) ` ?T"
    using move_subtree_ok [OF assms(1) _ _ t run, unfolded d1, OF assms(2,3)] by blast
  have dn: "?hasd \<longrightarrow> tw_depth n = Some old"
    using depth_known [OF _ assms(3)] assms(2) old(1) by (auto simp: make_result_def)
  have dp: "?hasd \<longrightarrow> (\<exists>k. tw_depth p = Some k \<and> nd_depth (make_result m p) = Some k)" if "p \<in> ?T" for p
    using depth_known [OF _ that] assms(2) by (auto simp: make_result_def)
  have "tree_ok ?hasd (tree_of m d')"
    unfolding T'
  proof (rule tree_ok_move [OF assms(2,3) refl t])
    show "(np = VNull \<and> (\<forall>a \<in> ?T - subtree ?T n. gap_close (tw_rght n) ?w (tw_rght a) < t)
          \<and> (?hasd \<longrightarrow> tw_depth n = Some (- (if ?hasd then dep - old else 0))))
      \<or> (\<exists>p \<in> ?T - subtree ?T n. np = tw_pk p \<and> t = gap_close (tw_rght n) ?w (tw_rght p)
            \<and> (?hasd \<longrightarrow> (\<exists>k e. tw_depth p = Some k \<and> tw_depth n = Some e \<and> e + (if ?hasd then dep - old else 0) = k + 1)))"
      using target
    proof
      assume "np = VNull \<and> dep = 0 \<and> (\<forall>a \<in> ?T - subtree ?T n. gap_close (tw_rght n) ?w (tw_rght a) < t)"
      with dn show ?thesis by simp
    next
      assume "\<exists>p \<in> ?T - subtree ?T n. np = tw_pk p \<and> t = gap_close (tw_rght n) ?w (tw_rght p)
            \<and> (\<forall>k. nd_depth (make_result m p) = Some k \<longrightarrow> dep = k + 1)"
      then obtain p where p: "p \<in> ?T - subtree ?T n" "np = tw_pk p" "t = gap_close (tw_rght n) ?w (tw_rght p)"
        "\<forall>k. nd_depth (make_result m p) = Some k \<longrightarrow> dep = k + 1" by blast
      with dn dp [of p] show ?thesis by auto
    qed
  qed
  moreover have "tw_pk ` tree_of m d' = tw_pk ` ?T" unfolding T' image_image by (rule image_cong) auto
  moreover have "\<exists>r \<in> tree_of m d'. tw_pk r = tw_pk n \<and> tw_parent r = np"
  proof (rule bexI)
    let ?x = "moved_row n np (t - tw_lft n) (if ?hasd then dep - old else 0) n"
    show "tw_pk ?x = tw_pk n \<and> tw_parent ?x = np" by simp
    show "?x \<in> tree_of m d'" unfolding T' using assms(3) n by (intro image_eqI [of _ _ n]) (auto simp: subtree_def)
  qed
  ultimately show "tree_ok ?hasd (tree_of m d')" "others_of m d' = others_of m d"
    "tw_pk ` tree_of m d' = tw_pk ` ?T" "\<exists>r \<in> tree_of m d'. tw_pk r = tw_pk n \<and> tw_parent r = np"
    using old(2) by blast+
qed

lemma promote_row:
  "k \<noteq> VNull \<Longrightarrow> update_row [SetParent p] [CondParent k] r = r\<lparr>tw_parent := (if tw_parent r = k then p else tw_parent r)\<rparr>"
  by (auto simp: update_row_def apply_sets_def sql_eq_def)

lemma lift_row:
  assumes "tw_lft x < tw_rght x"
  shows "(if rg - lf > 1 then update_row ([AddInt LeftCol (- 1), AddInt RightCol (- 1)]
            @ (if dcol then [AddInt DepthCol (- 1)] else []))
          [CondInt LeftCol CGt lf, CondInt RightCol CLt rg] else id) x
     = (if encloses lf rg (tw_lft x) (tw_rght x) then shift_row (\<lambda>b. b - 1) x\<lparr>tw_depth :=
          (if dcol then map_option (\<lambda>d. d - 1) (tw_depth x) else tw_depth x)\<rparr> else x)"
  using assms by (cases "tw_depth x") (auto simp: update_row_def apply_sets_def shift_row_def encloses_def)

lemma detach_row:
  "k \<noteq> VNull \<Longrightarrow> update_row ([SetParent VNull, SetInt LeftCol a, SetInt RightCol b] @ (if dcol then [SetInt DepthCol 0] else []))
       [CondPk k] r = (if tw_pk r = k then r\<lparr>tw_parent := VNull, tw_lft := a, tw_rght := b,
          tw_depth := (if dcol then Some 0 else tw_depth r)\<rparr> else r)"
  by (auto simp: update_row_def apply_sets_def sql_eq_def)

lemma remove_row_steps:
  assumes T: "tree_ok hasd T" "n \<in> T" and r: "r \<in> T"
  shows "update_row ([SetParent VNull, SetInt LeftCol (mx - 1), SetInt RightCol mx] @ (if dcol then [SetInt DepthCol 0] else []))
       [CondPk (tw_pk n)]
     (shift_row (gap_close (tw_rght n) 2)
     ((if tw_rght n - tw_lft n > 1 then update_row ([AddInt LeftCol (- 1), AddInt RightCol (- 1)]
            @ (if dcol then [AddInt DepthCol (- 1)] else []))
          [CondInt LeftCol CGt (tw_lft n), CondInt RightCol CLt (tw_rght n)] else id)
       (update_row [SetParent (tw_parent n)] [CondParent (tw_pk n)] r)))
     = (if r = n then n\<lparr>tw_parent := VNull, tw_lft := mx - 1, tw_rght := mx,
          tw_depth := (if dcol then Some 0 else tw_depth n)\<rparr>
        else shift_row (spliced n) (promoted dcol n r))"
proof -
  have n: "1 \<le> tw_lft n" "tw_lft n < tw_rght n" "tw_pk n \<noteq> VNull" using tree_okD(2-4) [OF T] by auto
  have rb: "tw_lft r < tw_rght r" using tree_okD(4) [OF T(1) r] by auto
  have pk: "tw_pk r = tw_pk n \<longleftrightarrow> r = n" using tree_okD(1) [OF T(1) r T(2)] by auto
  let ?first = "r\<lparr>tw_parent := (if tw_parent r = tw_pk n then tw_parent n else tw_parent r)\<rparr>"
  have lft: "tw_lft ?first < tw_rght ?first" using rb by simp
  show ?thesis
  proof (cases "r = n")
    case True
    then show ?thesis
      unfolding promote_row [OF n(3)] lift_row [OF lft] detach_row [OF n(3)]
      using n by (simp add: shift_row_def gap_close_def)
  next
    case False
    then have "encl n r \<or> encl r n \<or> tw_rght r < tw_lft n \<or> tw_rght n < tw_lft r"
      using tree_okD(5) [OF T r] by (auto simp: laminar_def)
    then show ?thesis
      unfolding promote_row [OF n(3)] lift_row [OF lft] detach_row [OF n(3)]
      using False pk rb n by (auto simp: promoted_def spliced_def gap_close_def shift_row_def encloses_def)
  qed
qed

lemma remove_from_tree_ok:
  assumes "tm_engine m = E" "tree_ok (tm_has_depth m) (tree_of m d)" "n \<in> tree_of m d"
    and "remove_from_tree m (make_result m n) d = (Inr u, d')"
  shows "tree_ok (tm_has_depth m) (tree_of m d')" "others_of m d' = others_of m d"
    "tw_pk ` tree_of m d' = tw_pk ` tree_of m d" "\<exists>r \<in> tree_of m d'. tw_pk r = tw_pk n \<and> tw_parent r = VNull"
proof -
  let ?T = "tree_of m d" and ?hasd = "tm_has_depth m"
  have n: "1 \<le> tw_lft n" "tw_lft n < tw_rght n" "tw_pk n \<noteq> VNull" using tree_okD(2-4) [OF assms(2,3)] by auto
  from assms(4) obtain mx d0 d1 d2 d3 u1 u2 u3 where
    mx: "tm_max_rght m d = (Inr mx, d0)" and
    s1: "tm_update m [SetParent (tw_parent n)] [CondParent (tw_pk n)] d0 = (Inr u1, d1)" and
    s2: "(if tw_rght n - tw_lft n > 1
        then tm_update m ([AddInt LeftCol (- 1), AddInt RightCol (- 1)] @ (if ?hasd then [AddInt DepthCol (- 1)] else []))
               [CondInt LeftCol CGt (tw_lft n), CondInt RightCol CLt (tw_rght n)]
        else act_return ()) d1 = (Inr u2, d2)" and
    s3: "shift_for_delete m (tw_rght n) 2 d2 = (Inr u3, d3)" and
    s4: "tm_update m ([SetParent VNull, SetInt LeftCol (mx - 1), SetInt RightCol mx]
         @ (if ?hasd then [SetInt DepthCol 0] else [])) [CondPk (tw_pk n)] d3 = (Inr u, d')"
    unfolding remove_from_tree_def act_bind_Inr make_result_simps by auto
  note mo = max_rght_ok [OF assms(1) mx]
  have d0: "tree_of m d0 = ?T" "others_of m d0 = others_of m d" using same_rows [OF mo(1)] by auto
  have st2: "tree_of m d2 = (if tw_rght n - tw_lft n > 1 then update_row ([AddInt LeftCol (- 1), AddInt RightCol (- 1)]
            @ (if ?hasd then [AddInt DepthCol (- 1)] else []))
          [CondInt LeftCol CGt (tw_lft n), CondInt RightCol CLt (tw_rght n)] else id) ` tree_of m d1"
    "others_of m d2 = others_of m d1"
    using s2 tm_update_ok [OF assms(1)] by (auto split: if_splits)
  note st = tm_update_ok [OF assms(1) s1] st2 shift_for_delete_ok [OF assms(1) s3] tm_update_ok [OF assms(1) s4]
  let ?n' = "n\<lparr>tw_parent := VNull, tw_lft := mx - 1, tw_rght := mx, tw_depth := (if ?hasd then Some 0 else tw_depth n)\<rparr>"
  let ?R = "shift_row (spliced n) ` promoted ?hasd n ` (?T - {n})"
  have "tree_of m d' = (\<lambda>r. if r = n then ?n' else shift_row (spliced n) (promoted ?hasd n r)) ` ?T"
    unfolding st d0 image_image
    by (rule image_cong [OF refl]) (rule remove_row_steps [OF assms(2,3)])
  also have "\<dots> = insert ?n' ?R" using assms(3) by (auto simp: image_iff)
  finally have T': "tree_of m d' = insert ?n' ?R" .
  have le: "tw_rght r \<le> mx" if "r \<in> ?T" for r by (rule mo(2) [OF that])
  have "tree_ok ?hasd (insert ?n' ?R)"
  proof (rule tree_ok_new_root [OF tree_ok_spliced [OF assms(2,3)]])
    show "tw_rght r < tw_lft ?n'" if rR: "r \<in> ?R" for r
    proof -
      obtain b where b0: "b \<in> ?T - {n}" "r = shift_row (spliced n) (promoted ?hasd n b)" using rR by blast
      then have b: "b \<in> ?T" "b \<noteq> n" "tw_rght r = spliced n (tw_rght b)" by simp_all
      have "tw_rght b \<noteq> tw_rght n" "tw_rght b < tw_rght n \<or> tw_lft n < tw_rght b"
        using tree_okD(5) [OF assms(2,3) b(1)] b(2) n tree_okD(4) [OF assms(2) b(1)]
        by (auto simp: laminar_def encloses_def)
      with b(3) le [OF b(1)] le [OF assms(3)] n tree_okD(5) [OF assms(2,3) b(1)] b(2) tree_okD(4) [OF assms(2) b(1)]
      show ?thesis by (auto simp: spliced_def laminar_def encloses_def)
    qed
    show "tw_pk ?n' \<notin> tw_pk ` ?R"
      using tree_okD(1) [OF assms(2) _ assms(3)] by (auto simp: image_image)
  qed (use n le [OF assms(3)] in auto)
  moreover have "tw_pk ` tree_of m d' = tw_pk ` ?T" unfolding T' using assms(3) by (auto simp: image_image)
  moreover have "others_of m d' = others_of m d" using st d0 by simp
  ultimately show "tree_ok ?hasd (tree_of m d')" "others_of m d' = others_of m d" "tw_pk ` tree_of m d' = tw_pk ` ?T"
    "\<exists>r \<in> tree_of m d'. tw_pk r = tw_pk n \<and> tw_parent r = VNull"
    using T' by auto
qed

lemma swap_adjacent_ok:
  assumes "tm_engine m = E" "tree_ok hasd (tree_of m d)" "l \<in> tree_of m d" "r \<in> tree_of m d"
    and adj: "tw_lft r = tw_rght l + 1" and small: "\<forall>x \<in> tree_of m d. tw_rght x \<le> 10000000"
    and run: "swap_adjacent m (make_result m l) (make_result m r) d = (Inr done, d')"
  shows "done" "tree_ok hasd (tree_of m d')" "others_of m d' = others_of m d" "tree_of m d' = swapped l r ` tree_of m d"
proof -
  let ?T = "tree_of m d" and ?lw = "subtree_width (tw_lft l) (tw_rght l)" and ?rw = "subtree_width (tw_lft r) (tw_rght r)"
  have lr: "1 \<le> tw_lft l" "tw_lft l < tw_rght l" "tw_lft r < tw_rght r" "tw_rght r \<le> 10000000"
    using tree_okD(3,4) [OF assms(2)] assms(3,4) small by auto
  from run adj obtain d1 d2 u1 u2 u3 where d: "done"
    and s1: "move_range m (tw_lft r) (tw_rght r) 10000000 d = (Inr u1, d1)"
    and s2: "move_range m (tw_lft l) (tw_rght l) ?rw d1 = (Inr u2, d2)"
    and s3: "move_range m (tw_lft r + 10000000) (tw_rght r + 10000000) (- 10000000 - ?lw) d2 = (Inr u3, d')"
    unfolding swap_adjacent_def Let_def make_result_simps by (auto simp: act_bind_Inr)
  have step: "(\<lambda>x. if in_range (tw_lft r + 10000000) (tw_rght r + 10000000) x then shift_row (\<lambda>b. b + (- 10000000 - ?lw)) x else x)
       ((\<lambda>x. if in_range (tw_lft l) (tw_rght l) x then shift_row (\<lambda>b. b + ?rw) x else x)
       ((\<lambda>x. if in_range (tw_lft r) (tw_rght r) x then shift_row (\<lambda>b. b + 10000000) x else x) x)) = swapped l r x"
    if x: "x \<in> ?T" for x
  proof -
    have xb: "1 \<le> tw_lft x" "tw_lft x < tw_rght x" "tw_rght x \<le> 10000000"
      using tree_okD(3,4) [OF assms(2) x] small x by auto
    consider (r) "tw_lft r \<le> tw_lft x" "tw_rght x \<le> tw_rght r" | (l) "tw_lft l \<le> tw_lft x" "tw_rght x \<le> tw_rght l"
      | (o) "\<not> (tw_lft r \<le> tw_lft x \<and> tw_rght x \<le> tw_rght r)" "\<not> (tw_lft l \<le> tw_lft x \<and> tw_rght x \<le> tw_rght l)" by blast
    then show ?thesis
    proof cases
      case r
      then show ?thesis using xb lr adj by (simp add: in_range_def swapped_def shift_row_def)
    next
      case l
      then show ?thesis using xb lr adj by (simp add: in_range_def swapped_def shift_row_def subtree_width_def)
    next
      case o
      then have "swapped l r x = x" by (auto simp: swapped_def)
      moreover have "\<not> tw_lft r + 10000000 \<le> tw_lft x" using xb lr adj by simp
      moreover have "\<not> in_range (tw_lft r) (tw_rght r) x" "\<not> in_range (tw_lft l) (tw_rght l) x"
        using o by (simp_all add: in_range_def)
      ultimately show ?thesis by (simp add: in_range_def [of "tw_lft r + 10000000"])
    qed
  qed
  have T': "tree_of m d' = swapped l r ` ?T"
    unfolding move_range_ok [OF assms(1) s1] move_range_ok [OF assms(1) s2] move_range_ok [OF assms(1) s3] image_image
    by (rule image_cong [OF refl]) (rule step)
  with d tree_ok_swapped [OF assms(2-4) adj]
    move_range_ok [OF assms(1) s1] move_range_ok [OF assms(1) s2] move_range_ok [OF assms(1) s3]
  show "done" "tree_ok hasd (tree_of m d')" "others_of m d' = others_of m d" "tree_of m d' = swapped l r ` ?T"
    by simp_all
qed

end

subsection \<open>A reference database\<close>

text \<open>A table as a list of rows; the primary key must be given and new.\<close>

definition sql_table :: "tree_row list tree_engine" where
  "sql_table = \<lparr>
     te_select = (\<lambda>cs order t. (Inr (let rs = filter (row_matches cs) (remdups t) in
        case order of None \<Rightarrow> rs | Some True \<Rightarrow> sort_key tw_lft rs | Some False \<Rightarrow> rev (sort_key tw_lft rs)), t)),
     te_max_right = (\<lambda>cs t. (Inr (case map tw_rght (filter (row_matches cs) t) of [] \<Rightarrow> None | x # xs \<Rightarrow> Some (fold max xs x)), t)),
     te_update = (\<lambda>ss cs t. (Inr (), map (update_row ss cs) t)),
     te_delete = (\<lambda>cs t. (Inr (), filter (\<lambda>r. \<not> row_matches cs r) t)),
     te_insert = (\<lambda>r t. if tw_pk r = VNull \<or> tw_pk r \<in> set (map tw_pk t)
        then (Inl (Backend_failure ''constraint failed''), t)
        else (Inr \<lparr>qr_rows = [], qr_affected = 1, qr_last_id = (case tw_pk r of VInt i \<Rightarrow> i | _ \<Rightarrow> 0)\<rparr>, r # t))\<rparr>"

lemma fold_max: "fold max xs x = Max (insert x (set xs))" for x :: int
  by (metis Max.set_eq_fold list.simps(15))

interpretation sql: tree_store sql_table set
proof unfold_locales
  fix cs order d rs d'
  assume "te_select sql_table cs order d = (Inr rs, d')"
  then show "set d' = set d \<and> set rs = {r \<in> set d. row_matches cs r} \<and> distinct rs
      \<and> (order = Some True \<longrightarrow> sorted (map tw_lft rs)) \<and> (order = Some False \<longrightarrow> sorted (rev (map tw_lft rs)))"
    by (auto simp: sql_table_def Let_def rev_map split: option.splits bool.splits)
next
  fix cs d mx d'
  assume "te_max_right sql_table cs d = (Inr mx, d')"
  then have m: "d' = d" "mx = (case map tw_rght (filter (row_matches cs) d) of [] \<Rightarrow> None | x # xs \<Rightarrow> Some (fold max xs x))"
    by (auto simp: sql_table_def)
  have img: "{r \<in> set d. row_matches cs r} = set (filter (row_matches cs) d)" by auto
  show "set d' = set d \<and> mx = (let S = {r \<in> set d. row_matches cs r} in if S = {} then None else Some (Max (tw_rght ` S)))"
    unfolding Let_def img m by (cases "filter (row_matches cs) d") (simp_all add: fold_max del: set_filter)
qed (auto simp: sql_table_def split: if_splits)

subsection \<open>Histories\<close>

text \<open>A client of the tree: it reads a node and passes it to the operation.\<close>

datatype tree_op = OpInsert dbvalue dbvalue row | OpMove dbvalue dbvalue | OpRemove dbvalue | OpDelete dbvalue

definition with_node :: "'d tree_manager \<Rightarrow> dbvalue \<Rightarrow> (tree_node \<Rightarrow> ('d, unit) action) \<Rightarrow> ('d, unit) action" where
  "with_node m i f = act_bind (get_node m i) (\<lambda>found. case found of None \<Rightarrow> act_return () | Some n \<Rightarrow> f n)"

fun tree_step :: "'d tree_manager \<Rightarrow> tree_op \<Rightarrow> ('d, unit) action" where
  "tree_step m (OpInsert p k data) = act_bind (insert_as_child m p k data) (\<lambda>_. act_return ())"
| "tree_step m (OpMove i p) = with_node m i (\<lambda>n. move_to m n p)"
| "tree_step m (OpRemove i) = with_node m i (remove_from_tree m)"
| "tree_step m (OpDelete i) = with_node m i (\<lambda>n. act_bind (delete_subtree m n) (\<lambda>_. act_return ()))"

context tree_store
begin

lemma with_node_ok:
  assumes "tm_engine m = E" "tree_ok (tm_has_depth m) (tree_of m d)" "with_node m i f d = (Inr u, d')"
    and "\<And>n d1 d'. n \<in> tree_of m d1 \<Longrightarrow> tree_ok (tm_has_depth m) (tree_of m d1) \<Longrightarrow>
      f (make_result m n) d1 = (Inr (), d') \<Longrightarrow> tree_ok (tm_has_depth m) (tree_of m d') \<and> others_of m d' = others_of m d1"
  shows "tree_ok (tm_has_depth m) (tree_of m d') \<and> others_of m d' = others_of m d"
proof -
  from assms(3) obtain found d1 where g: "get_node m i d = (Inr found, d1)"
    and f: "(case found of None \<Rightarrow> act_return () | Some n \<Rightarrow> f n) d1 = (Inr u, d')"
    by (auto simp: with_node_def act_bind_Inr)
  note gn = get_node_ok [OF assms(1) g assms(2)]
  have d1: "tree_of m d1 = tree_of m d" "others_of m d1 = others_of m d" using same_rows [OF gn(1)] by auto
  show ?thesis
  proof (cases found)
    case None
    with f d1 assms(2) show ?thesis by simp
  next
    case (Some n)
    from gn(2) [OF Some] obtain p where "p \<in> tree_of m d" "n = make_result m p" by blast
    with assms(4) [of p d1 d'] f Some d1 assms(2) show ?thesis by simp
  qed
qed

lemma tree_step_ok:
  assumes "tm_engine m = E" "scope_proper m" "tree_ok (tm_has_depth m) (tree_of m d)" "tree_step m op d = (Inr (), d')"
  shows "tree_ok (tm_has_depth m) (tree_of m d') \<and> others_of m d' = others_of m d"
proof (cases op)
  case (OpInsert p k data)
  with assms(4) insert_as_child_ok(1,2) [OF assms(1-3)] show ?thesis by (auto simp: act_bind_Inr)
next
  case (OpMove i p)
  show ?thesis
    by (rule with_node_ok [OF assms(1,3)]) (use OpMove assms(4) move_to_ok(1,2) [OF assms(1)] in auto)
next
  case (OpRemove i)
  show ?thesis
    by (rule with_node_ok [OF assms(1,3)]) (use OpRemove assms(4) remove_from_tree_ok(1,2) [OF assms(1)] in auto)
next
  case (OpDelete i)
  show ?thesis
    by (rule with_node_ok [OF assms(1,3)])
      (use OpDelete assms(4) delete_subtree_ok(1,2) [OF assms(1)] in \<open>auto simp: act_bind_Inr\<close>)
qed

lemma tree_history_ok:
  "tm_engine m = E \<Longrightarrow> scope_proper m \<Longrightarrow> tree_ok (tm_has_depth m) (tree_of m d) \<Longrightarrow>
   act_iter (tree_step m) ops d = (Inr (), d') \<Longrightarrow>
   tree_ok (tm_has_depth m) (tree_of m d') \<and> others_of m d' = others_of m d"
proof (induction ops arbitrary: d)
  case (Cons op ops)
  from Cons.prems(4) obtain d1 where d1: "tree_step m op d = (Inr (), d1)" "act_iter (tree_step m) ops d1 = (Inr (), d')"
    by (auto simp: act_bind_Inr)
  with tree_step_ok [OF Cons.prems(1-3) d1(1)] Cons.IH [OF Cons.prems(1,2) _ d1(2)] show ?case by simp
qed simp

end

subsection \<open>Properties\<close>

definition sample_tree :: "bool \<Rightarrow> tree_row list tree_manager" where
  "sample_tree dcol = \<lparr>tm_engine = sql_table, tm_has_depth = dcol, tm_scope = [(''menu'', VInt 1)], tm_pk_name = ''id''\<rparr>"

definition sample_ops :: "tree_op list" where
  "sample_ops = [OpInsert VNull (VInt 1) [], OpInsert (VInt 1) (VInt 2) [], OpInsert (VInt 2) (VInt 3) [],
     OpInsert VNull (VInt 4) [], OpMove (VInt 2) (VInt 4), OpRemove (VInt 4), OpDelete (VInt 3)]"

definition other_menu :: tree_row where
  "other_menu = \<lparr>tw_pk = VInt 9, tw_parent = VNull, tw_lft = 1, tw_rght = 2, tw_depth = Some 0,
     tw_data = [(''menu'', VInt 2)]\<rparr>"

definition sample_table :: "tree_row list" where
  "sample_table = snd (act_iter (tree_step (sample_tree True)) (take 4 sample_ops) [other_menu])"

lemma sample_scope: "scope_proper (sample_tree dcol)" "tm_engine (sample_tree dcol) = sql_table"
  "tm_has_depth (sample_tree dcol) = dcol"
  by (simp_all add: scope_proper_def sample_tree_def)

lemma sample_start: "scope_rows (sample_tree dcol) (set [other_menu]) = {}"
  by (auto simp: scope_rows_def in_scope_def scope_conds_def sample_tree_def other_menu_def alookup_def sql_eq_def)

lemma empty_tree_ok: "tree_ok hasd {}"
  by (simp add: tree_ok_def)

lemma sample_table_ok: "tree_ok True (scope_rows (sample_tree True) (set sample_table))"
proof -
  have "fst (act_iter (tree_step (sample_tree True)) (take 4 sample_ops) [other_menu]) = Inr ()" by code_simp
  then have "act_iter (tree_step (sample_tree True)) (take 4 sample_ops) [other_menu] = (Inr (), sample_table)"
    unfolding sample_table_def by (metis prod.collapse)
  from sql.tree_history_ok [OF sample_scope(2,1) _ this, unfolded sql.tree_of_def sample_start sample_scope(3), OF empty_tree_ok]
  show ?thesis by simp
qed

text \<open>
  C3. Every history of tree operations keeps the tree consistent: from a consistent tree, any
  sequence of inserted, moved, removed and deleted nodes whose statements all succeed ends in a
  consistent tree (unique keys, nested bounds, parent links and depths that agree with the bounds),
  and rows outside the scope of the manager are not touched.
\<close>

theorem tree_history_consistent:
  assumes "tree_store E rows" "tm_engine m = E" "scope_proper m"
    and "tree_ok (tm_has_depth m) (scope_rows m (rows d))" "act_iter (tree_step m) ops d = (Inr (), d')"
  shows "tree_ok (tm_has_depth m) (scope_rows m (rows d')) \<and> foreign_rows m (rows d') = foreign_rows m (rows d)"
  using tree_store.tree_history_ok [OF assms(1-3) _ assms(5)] assms(4)
  by (simp add: tree_store.tree_of_def [OF assms(1)] tree_store.others_of_def [OF assms(1)])

theorem tree_history_consistent_witness:
  "tree_ok True (scope_rows (sample_tree True) (set (snd (act_iter (tree_step (sample_tree True)) sample_ops [other_menu]))))"
proof -
  have "fst (act_iter (tree_step (sample_tree True)) sample_ops [other_menu]) = Inr ()" by code_simp
  then obtain d' where run: "act_iter (tree_step (sample_tree True)) sample_ops [other_menu] = (Inr (), d')"
    by (metis prod.collapse)
  from tree_history_consistent [OF sql.tree_store_axioms sample_scope(2,1) _ run,
      unfolded sample_start sample_scope(3), OF empty_tree_ok]
  show ?thesis unfolding run by simp
qed

text \<open>
  C24. A subtree moves as a whole: moving a node below a new parent (or to the top) keeps the tree
  consistent and its set of nodes, and afterwards the parent of the node is the one asked for.
\<close>

theorem move_to_moves_subtree:
  assumes "tree_store E rows" "tm_engine m = E" "tree_ok (tm_has_depth m) (scope_rows m (rows d))"
    and "n \<in> scope_rows m (rows d)" "move_to m (make_result m n) p d = (Inr (), d')"
  shows "tree_ok (tm_has_depth m) (scope_rows m (rows d'))
     \<and> tw_pk ` scope_rows m (rows d') = tw_pk ` scope_rows m (rows d)
     \<and> (\<exists>r \<in> scope_rows m (rows d'). tw_pk r = tw_pk n \<and> tw_parent r = p)"
  using tree_store.move_to_ok [OF assms(1,2) _ _ assms(5)] assms(3,4)
  by (simp add: tree_store.tree_of_def [OF assms(1)])

definition sample_node :: tree_row where
  "sample_node = \<lparr>tw_pk = VInt 2, tw_parent = VInt 1, tw_lft = 2, tw_rght = 5, tw_depth = Some 1,
     tw_data = [(''menu'', VInt 1)]\<rparr>"

lemma sample_node_in: "sample_node \<in> scope_rows (sample_tree True) (set sample_table)"
  unfolding scope_rows_def mem_Collect_eq by code_simp

lemma sample_depth_ok: "tree_ok (tm_has_depth (sample_tree True)) (scope_rows (sample_tree True) (set sample_table))"
  unfolding sample_scope(3) by (rule sample_table_ok)

lemmas sample_tree_facts = sql.tree_store_axioms sample_scope(2) [of True] sample_depth_ok sample_node_in

lemma act_run: "fst p = x \<Longrightarrow> p = (x, snd p)"
  by (cases p) simp

theorem move_to_moves_subtree_witness:
  "\<exists>r \<in> scope_rows (sample_tree True) (set (snd (move_to (sample_tree True) (make_result (sample_tree True) sample_node) (VInt 4) sample_table))).
     tw_pk r = VInt 2 \<and> tw_parent r = VInt 4"
proof -
  have "fst (move_to (sample_tree True) (make_result (sample_tree True) sample_node) (VInt 4) sample_table) = Inr ()" by code_simp
  from move_to_moves_subtree [OF sample_tree_facts act_run [OF this]] show ?thesis by (simp add: sample_node_def)
qed

text \<open>
  C35. Deleting a subtree deletes exactly the node and the rows inside its bounds, and closes the gap.
\<close>

theorem delete_subtree_exact:
  assumes "tree_store E rows" "tm_engine m = E" "tree_ok (tm_has_depth m) (scope_rows m (rows d))"
    and "n \<in> scope_rows m (rows d)" "delete_subtree m (make_result m n) d = (Inr k, d')"
  shows "tree_ok (tm_has_depth m) (scope_rows m (rows d'))
     \<and> tw_pk ` scope_rows m (rows d') = {tw_pk r |r. r \<in> scope_rows m (rows d) \<and> r \<noteq> n \<and> \<not> encl n r}"
proof -
  note ok = tree_store.delete_subtree_ok [OF assms(1,2) _ _ assms(5), unfolded tree_store.tree_of_def [OF assms(1)], OF assms(3,4)]
  show ?thesis using ok(1,3) in_subtree [OF assms(3,4)] by auto
qed

theorem delete_subtree_exact_witness:
  "tw_pk ` scope_rows (sample_tree True) (set (snd (delete_subtree (sample_tree True) (make_result (sample_tree True) sample_node) sample_table)))
     = {VInt 1, VInt 4}"
proof -
  have run: "fst (delete_subtree (sample_tree True) (make_result (sample_tree True) sample_node) sample_table) = Inr 2" by code_simp
  have "map tw_pk (filter (\<lambda>r. in_scope (sample_tree True) r \<and> r \<noteq> sample_node \<and> \<not> encl sample_node r) sample_table)
      = [VInt 4, VInt 1]" (is "map tw_pk (filter ?P sample_table) = _") by code_simp
  moreover have "{tw_pk r |r. r \<in> scope_rows (sample_tree True) (set sample_table) \<and> r \<noteq> sample_node \<and> \<not> encl sample_node r}
      = set (map tw_pk (filter ?P sample_table))"
    by (auto simp: scope_rows_def)
  ultimately have "{tw_pk r |r. r \<in> scope_rows (sample_tree True) (set sample_table) \<and> r \<noteq> sample_node \<and> \<not> encl sample_node r}
      = {VInt 1, VInt 4}"
    by (simp only: list.set insert_commute)
  with delete_subtree_exact [OF sample_tree_facts act_run [OF run]] show ?thesis by (simp only:)
qed



text \<open>
  Two neighbouring subtrees change places: when the right one starts where the left one ends and
  no bound is above ten million, the swap behind \<open>move_up\<close> and \<open>move_down\<close> succeeds, keeps the tree
  consistent, and exchanges exactly the numbers of the two subtrees.
\<close>

theorem swap_adjacent_swaps:
  assumes "tree_store E rows" "tm_engine m = E" "tree_ok hasd (scope_rows m (rows d))"
    and "l \<in> scope_rows m (rows d)" "r \<in> scope_rows m (rows d)" "tw_lft r = tw_rght l + 1"
    and "\<forall>x \<in> scope_rows m (rows d). tw_rght x \<le> 10000000"
    and "swap_adjacent m (make_result m l) (make_result m r) d = (Inr ok, d')"
  shows "ok \<and> tree_ok hasd (scope_rows m (rows d')) \<and> scope_rows m (rows d') = swapped l r ` scope_rows m (rows d)"
  using tree_store.swap_adjacent_ok [OF assms(1,2) _ _ _ assms(6) _ assms(8)] assms(3-5,7)
  by (simp add: tree_store.tree_of_def [OF assms(1)])

definition sample_root :: "u64 \<Rightarrow> int \<Rightarrow> int \<Rightarrow> tree_row" where
  "sample_root k l r = \<lparr>tw_pk = VInt k, tw_parent = VNull, tw_lft = l, tw_rght = r, tw_depth = Some 0, tw_data = [(''menu'', VInt 1)]\<rparr>"

theorem swap_adjacent_swaps_witness:
  "scope_rows (sample_tree True) (set (snd (swap_adjacent (sample_tree True) (make_result (sample_tree True) (sample_root 1 1 6))
     (make_result (sample_tree True) (sample_root 4 7 8)) sample_table)))
   = swapped (sample_root 1 1 6) (sample_root 4 7 8) ` scope_rows (sample_tree True) (set sample_table)"
proof -
  have run: "fst (swap_adjacent (sample_tree True) (make_result (sample_tree True) (sample_root 1 1 6))
     (make_result (sample_tree True) (sample_root 4 7 8)) sample_table) = Inr True" by code_simp
  have "sample_root 1 1 6 \<in> scope_rows (sample_tree True) (set sample_table)"
    "sample_root 4 7 8 \<in> scope_rows (sample_tree True) (set sample_table)"
    unfolding scope_rows_def mem_Collect_eq by code_simp+
  note in_tree = this
  have "\<forall>x \<in> set sample_table. tw_rght x \<le> 10000000" by code_simp
  then have small: "\<forall>x \<in> scope_rows (sample_tree True) (set sample_table). tw_rght x \<le> 10000000"
    by (simp add: scope_rows_def)
  from swap_adjacent_swaps [OF sample_tree_facts(1-3) in_tree _ small act_run [OF run]] show ?thesis
    by (simp add: sample_root_def)
qed

definition gap_table :: "tree_row list" where
  "gap_table =
     [\<lparr>tw_pk = VInt 1, tw_parent = VNull, tw_lft = 1, tw_rght = 4, tw_depth = Some 0, tw_data = [(''menu'', VInt 1)]\<rparr>,
      \<lparr>tw_pk = VInt 2, tw_parent = VNull, tw_lft = 6, tw_rght = 7, tw_depth = Some 0, tw_data = [(''menu'', VInt 1)]\<rparr>]"

text \<open>
  The swap relies on the siblings being next to each other: on a consistent tree with a gap in its
  numbers, which the consistency check accepts, the swap lets the two siblings overlap.
\<close>

theorem swap_with_gap_overlaps:
  "snd (swap_adjacent (sample_tree True) (make_result (sample_tree True) (gap_table ! 0))
        (make_result (sample_tree True) (gap_table ! 1)) gap_table) =
     [\<lparr>tw_pk = VInt 1, tw_parent = VNull, tw_lft = 3, tw_rght = 6, tw_depth = Some 0, tw_data = [(''menu'', VInt 1)]\<rparr>,
      \<lparr>tw_pk = VInt 2, tw_parent = VNull, tw_lft = 2, tw_rght = 3, tw_depth = Some 0, tw_data = [(''menu'', VInt 1)]\<rparr>]
   \<and> tree_ok True (set gap_table) \<and> \<not> laminar 3 6 2 3"
proof (intro conjI)
  show "tree_ok True (set gap_table)"
    by (auto simp: gap_table_def tree_ok_def rooted_def laminar_def encloses_def)
qed (code_simp, simp add: laminar_def encloses_def)

end
