(* ===== verification/Dialects.thy ===== *)
theory Dialects
  imports Orm_Prelude Values
begin

section \<open>SQL text and dialects (include/metal/query/core_types.hpp)\<close>

text \<open>
  A \<open>Dialect\<close> object is the record of its virtual functions: how an identifier is quoted, the text of
  the placeholder with a given number, its family and how generated keys are read. The character
  classes are those of \<open>std::isspace\<close>, \<open>std::tolower\<close> and \<open>std::toupper\<close> in the C locale.
\<close>

datatype dialect_family = Generic | SQLite | PostgreSQL

datatype key_retrieval = DriverLastInsertId | Returning

record dialect =
  d_quote :: "string \<Rightarrow> string"
  d_placeholder :: "nat \<Rightarrow> string result"
  d_family :: dialect_family
  d_keys :: key_retrieval

definition dquote :: char where
  "dquote = CHR 0x22"

fun quote_body :: "string \<Rightarrow> string" where
  "quote_body [] = []"
| "quote_body (c # cs) = (if c = dquote then [dquote, dquote] else [c]) @ quote_body cs"

definition quote_ansi_identifier :: "string \<Rightarrow> string" where
  "quote_ansi_identifier i = [dquote] @ quote_body i @ [dquote]"

definition sqlite_dialect :: dialect where
  "sqlite_dialect = \<lparr>d_quote = quote_ansi_identifier, d_placeholder = (\<lambda>i. Inr ''?''), d_family = SQLite,
     d_keys = DriverLastInsertId\<rparr>"

definition postgres_dialect :: dialect where
  "postgres_dialect = \<lparr>d_quote = quote_ansi_identifier,
     d_placeholder = (\<lambda>i. if i = 0 then Inl (Invalid_argument ''MetalORM: PostgreSQL placeholder indexes are one-based'')
        else Inr (''$'' @ show_nat i)),
     d_family = PostgreSQL, d_keys = Returning\<rparr>"

definition offset_placeholders :: "dialect \<Rightarrow> nat \<Rightarrow> dialect" where
  "offset_placeholders d offset = \<lparr>d_quote = d_quote d, d_placeholder = (\<lambda>i. d_placeholder d (offset + i)),
     d_family = d_family d, d_keys = d_keys d\<rparr>"

subsection \<open>Characters\<close>

definition is_space :: "char \<Rightarrow> bool" where
  "is_space c \<longleftrightarrow> c \<in> {CHR 0x20, CHR 0x09, CHR 0x0A, CHR 0x0B, CHR 0x0C, CHR 0x0D}"

text \<open>The set \<open>" \t\r\n"\<close> the sources pass to \<open>find_first_not_of\<close>.\<close>

definition is_blank :: "char \<Rightarrow> bool" where
  "is_blank c \<longleftrightarrow> c \<in> {CHR 0x20, CHR 0x09, CHR 0x0D, CHR 0x0A}"

definition is_alpha :: "char \<Rightarrow> bool" where
  "is_alpha c \<longleftrightarrow> (let n = (of_char c :: nat) in 65 \<le> n \<and> n \<le> 90 \<or> 97 \<le> n \<and> n \<le> 122)"

definition is_alnum :: "char \<Rightarrow> bool" where
  "is_alnum c \<longleftrightarrow> is_alpha c \<or> (let n = (of_char c :: nat) in 48 \<le> n \<and> n \<le> 57)"

definition to_lower :: "char \<Rightarrow> char" where
  "to_lower c = (let n = (of_char c :: nat) in if 65 \<le> n \<and> n \<le> 90 then char_of (n + 32) else c)"

definition to_upper :: "char \<Rightarrow> char" where
  "to_upper c = (let n = (of_char c :: nat) in if 97 \<le> n \<and> n \<le> 122 then char_of (n - 32) else c)"

definition trim_by :: "(char \<Rightarrow> bool) \<Rightarrow> string \<Rightarrow> string" where
  "trim_by P s = rev (dropWhile P (rev (dropWhile P s)))"

lemma dropWhile_rev_keeps_hd:
  assumes "\<not> P c"
  shows "\<exists>t. rev (dropWhile P (rev (c # s))) = c # t"
proof (induction s rule: rev_induct)
  case Nil
  with assms show ?case by simp
next
  case (snoc x xs)
  then show ?case by (cases "P x") auto
qed

lemma trim_by_idem [simp]: "trim_by P (trim_by P s) = trim_by P s"
proof (cases "dropWhile P s")
  case (Cons c u)
  then have c: "\<not> P c" by (metis dropWhile_eq_Cons_conv)
  obtain t where t: "rev (dropWhile P (rev (c # u))) = c # t" using dropWhile_rev_keeps_hd [where P = P, OF c] by blast
  then have "dropWhile P (rev (c # u)) = rev (c # t)" by (metis rev_rev_ident)
  then have "dropWhile P (rev (c # t)) = rev (c # t)" by (metis dropWhile_idem)
  with Cons c t show ?thesis by (simp add: trim_by_def)
next
  case Nil
  then have "trim_by P s = []" unfolding trim_by_def by (simp only: rev.simps dropWhile.simps)
  then show ?thesis by (simp only:) (simp add: trim_by_def)
qed

lemma to_lower_idem [simp]: "to_lower (to_lower c) = to_lower c"
proof -
  have "(of_char (char_of (n + 32) :: char) :: nat) = n + 32" if "n \<le> 90" for n :: nat
    using that by simp
  then show ?thesis by (auto simp: to_lower_def Let_def)
qed

lemma is_space_lower: "is_space (to_lower c) \<longleftrightarrow> is_space c"
proof -
  have big: "\<not> is_space d" if "(of_char d :: nat) > 32" for d
    using that by (auto simp: is_space_def)
  show ?thesis
  proof (cases "65 \<le> (of_char c :: nat) \<and> (of_char c :: nat) \<le> 90")
    case True
    then have "(of_char (to_lower c) :: nat) = of_char c + 32" by (simp add: to_lower_def)
    with True big [of c] big [of "to_lower c"] show ?thesis by simp
  next
    case False
    then have "to_lower c = c" by (auto simp: to_lower_def Let_def)
    then show ?thesis by simp
  qed
qed

subsection \<open>Lists of fragments\<close>

text \<open>The loops \<open>if (i) sql += ", "; sql += \<dots>\<close>.\<close>

fun join :: "string \<Rightarrow> string list \<Rightarrow> string" where
  "join sep [] = []"
| "join sep [s] = s"
| "join sep (s # t # ss) = s @ sep @ join sep (t # ss)"

lemma join_Cons: "join sep (s # ss) = s @ concat (List.map (\<lambda>t. sep @ t) ss)"
  by (induction ss arbitrary: s) auto

text \<open>A connection: what \<open>DbExecutor::execute(sql, parameters)\<close> answers and the state it leaves.\<close>

type_synonym 's executor = "string \<Rightarrow> dbvalue list \<Rightarrow> ('s, query_result) action"

lemma quote_body_append: "quote_body (a @ b) = quote_body a @ quote_body b"
  by (induction a) auto

end
