(* ===== verification/Schema_Model.thy ===== *)
theory Schema_Model
  imports Dialects
begin

section \<open>Schemas and plans (include/metal/schema_types.hpp)\<close>

text \<open>
  The records the schema tools exchange: what a database holds (\<open>DatabaseSchema\<close>), what the mapped
  entities expect (\<open>ExpectedSchema\<close>, with the SQL the DDL generator rendered for each table), and the
  plan of changes between the two.
\<close>

record foreign_key_reference =
  fk_table :: string
  fk_column :: string
  fk_name :: "string option"
  fk_on_delete :: "string option"
  fk_on_update :: "string option"
  fk_deferrable :: bool
  fk_schema :: "string option"

record database_column =
  col_name :: string
  col_type :: string
  col_not_null :: bool
  col_unique :: bool
  col_unique_name :: "string option"
  col_default :: "string option"
  col_auto_increment :: bool
  col_references :: "foreign_key_reference option"
  col_check :: "string option"
  col_comment :: "string option"

text \<open>\<open>DatabaseIndexColumn\<close> has the column name only.\<close>

record database_index =
  ix_name :: string
  ix_columns :: "string list"
  ix_unique :: bool
  ix_where :: "string option"

record database_check =
  ck_name :: "string option"
  ck_expression :: string

record database_table =
  tb_name :: string
  tb_columns :: "database_column list"
  tb_primary_key :: "string list"
  tb_indexes :: "database_index list"
  tb_checks :: "database_check list"
  tb_comment :: "string option"
  tb_primary_key_name :: "string option"

record database_view =
  vw_name :: string
  vw_columns :: "database_column list"
  vw_definition :: "string option"
  vw_comment :: "string option"

record database_schema =
  ds_tables :: "database_table list"
  ds_views :: "database_view list"

record expected_table =
  et_table :: database_table
  et_create_table_sql :: string
  et_create_index_sql :: "string list"

record expected_schema =
  es_tables :: "expected_table list"

datatype schema_change_kind =
    CreateTable | DropTable | AddColumn | DropColumn | AlterColumn | AlterTable | AddIndex | DropIndex

record schema_change =
  ch_kind :: schema_change_kind
  ch_table :: string
  ch_description :: string
  ch_statements :: "string list"
  ch_safe :: bool

record schema_plan =
  pl_changes :: "schema_change list"
  pl_warnings :: "string list"

record introspect_options =
  io_schema :: "string option"
  io_include_tables :: "string list"
  io_exclude_tables :: "string list"
  io_include_views :: bool
  io_exclude_views :: "string list"

record schema_diff_options =
  df_allow_destructive :: bool

record synchronize_options =
  so_allow_destructive :: bool
  so_dry_run :: bool

subsection \<open>Building a plan\<close>

text \<open>
  The functions of the diff append to the plan they are given; here each returns what it appends, and
  \<open>plan_concat\<close> puts the parts after each other.
\<close>

definition empty_plan :: schema_plan where
  "empty_plan = \<lparr>pl_changes = [], pl_warnings = []\<rparr>"

definition plan_change :: "schema_change \<Rightarrow> schema_plan" where
  "plan_change c = \<lparr>pl_changes = [c], pl_warnings = []\<rparr>"

definition plan_warning :: "string \<Rightarrow> schema_plan" where
  "plan_warning w = \<lparr>pl_changes = [], pl_warnings = [w]\<rparr>"

definition plan_concat :: "schema_plan list \<Rightarrow> schema_plan" where
  "plan_concat ps = \<lparr>pl_changes = concat (List.map pl_changes ps), pl_warnings = concat (List.map pl_warnings ps)\<rparr>"

lemma plan_simps [simp]:
  "pl_changes empty_plan = []" "pl_warnings empty_plan = []"
  "pl_changes (plan_change c) = [c]" "pl_warnings (plan_change c) = []"
  "pl_changes (plan_warning w) = []" "pl_warnings (plan_warning w) = [w]"
  "pl_changes (plan_concat ps) = concat (List.map pl_changes ps)"
  "pl_warnings (plan_concat ps) = concat (List.map pl_warnings ps)"
  by (simp_all add: empty_plan_def plan_change_def plan_warning_def plan_concat_def)

text \<open>Every change of a plan satisfies a predicate: the shape of the lemmas on the parts of a diff.\<close>

definition plan_all :: "(schema_change \<Rightarrow> bool) \<Rightarrow> schema_plan \<Rightarrow> bool" where
  "plan_all P p \<longleftrightarrow> (\<forall>c \<in> set (pl_changes p). P c)"

lemma plan_all_simps [simp]:
  "plan_all P empty_plan"
  "plan_all P (plan_change c) \<longleftrightarrow> P c"
  "plan_all P (plan_warning w)"
  "plan_all P (plan_concat ps) \<longleftrightarrow> (\<forall>p \<in> set ps. plan_all P p)"
  by (auto simp: plan_all_def)

text \<open>A plan with nothing to do and nothing to say.\<close>

definition plan_silent :: "schema_plan \<Rightarrow> bool" where
  "plan_silent p \<longleftrightarrow> pl_changes p = [] \<and> pl_warnings p = []"

lemma plan_silent_simps [simp]:
  "plan_silent empty_plan"
  "\<not> plan_silent (plan_change c)"
  "\<not> plan_silent (plan_warning w)"
  "plan_silent (plan_concat ps) \<longleftrightarrow> (\<forall>p \<in> set ps. plan_silent p)"
  by (auto simp: plan_silent_def)

end
