(* ===== verification/Schema_Diff.thy ===== *)
theory Schema_Diff
  imports Schema_Model
begin

section \<open>Comparing schemas (include/metal/schema_diff.hpp)\<close>

text \<open>
  The normalisations, the comparisons and the SQL fragments first, then the differences of a column,
  of a SQLite and of a PostgreSQL table, the diff of two schemas and its execution over a
  connection. Each \<open>diff\<close> function returns the part of the plan it appends.
\<close>

subsection \<open>Normal forms\<close>

fun normalize_type_loop :: "string \<Rightarrow> string \<Rightarrow> bool \<Rightarrow> string" where
  "normalize_type_loop [] result pending = result"
| "normalize_type_loop (c # cs) result pending =
     (if is_space c then normalize_type_loop cs result (result \<noteq> [])
      else normalize_type_loop cs (result @ (if pending then [CHR 0x20] else []) @ [to_lower c]) False)"

definition normalize_schema_type :: "string \<Rightarrow> string" where
  "normalize_schema_type v = rev (dropWhile (\<lambda>c. c = CHR 0x20) (rev (normalize_type_loop v [] False)))"

text \<open>
  \<open>find_first_not_of\<close>, \<open>find_last_not_of\<close> and \<open>substr\<close>: the text without the blanks at its two ends
  (nothing when there is nothing else).
\<close>

definition normalize_check_expression :: "string \<Rightarrow> string" where
  "normalize_check_expression v = trim_by is_blank v"

definition normalize_schema_default :: "string option \<Rightarrow> string option" where
  "normalize_schema_default v = (case v of None \<Rightarrow> None | Some t \<Rightarrow> Some (trim_by is_blank t))"

definition normalize_optional_check_expression :: "string option \<Rightarrow> string option" where
  "normalize_optional_check_expression v = normalize_schema_default v"

definition normalize_reference_action :: "string option \<Rightarrow> string" where
  "normalize_reference_action v = (case v of None \<Rightarrow> ''NO ACTION''
     | Some s \<Rightarrow> if s = [] then ''NO ACTION'' else List.map to_upper s)"

subsection \<open>Comparisons\<close>

definition same_reference_definition :: "foreign_key_reference \<Rightarrow> foreign_key_reference \<Rightarrow> bool" where
  "same_reference_definition e a \<longleftrightarrow>
     fk_table e = fk_table a \<and> fk_column e = fk_column a \<and> fk_deferrable e = fk_deferrable a \<and>
     fk_schema e = fk_schema a \<and>
     normalize_reference_action (fk_on_delete e) = normalize_reference_action (fk_on_delete a) \<and>
     normalize_reference_action (fk_on_update e) = normalize_reference_action (fk_on_update a)"

definition same_reference :: "foreign_key_reference option \<Rightarrow> foreign_key_reference option \<Rightarrow> bool" where
  "same_reference expected actual =
     (case (expected, actual) of
        (Some e, Some a) \<Rightarrow>
          fk_table e = fk_table a \<and> fk_column e = fk_column a \<and> fk_name e = fk_name a \<and>
          fk_deferrable e = fk_deferrable a \<and> fk_schema e = fk_schema a \<and>
          normalize_reference_action (fk_on_delete e) = normalize_reference_action (fk_on_delete a) \<and>
          normalize_reference_action (fk_on_update e) = normalize_reference_action (fk_on_update a)
      | _ \<Rightarrow> expected = None \<and> actual = None)"

definition same_check :: "database_check \<Rightarrow> database_check \<Rightarrow> bool" where
  "same_check e a \<longleftrightarrow> ck_name e = ck_name a \<and>
     normalize_check_expression (ck_expression e) = normalize_check_expression (ck_expression a)"

text \<open>
  The inner loop of \<open>same_checks\<close>: the first actual check that is not matched yet and equals \<open>c\<close> is
  marked; nothing when there is none.
\<close>

fun match_check :: "database_check \<Rightarrow> (database_check \<times> bool) list \<Rightarrow> (database_check \<times> bool) list option" where
  "match_check c [] = None"
| "match_check c ((a, matched) # rest) =
     (if \<not> matched \<and> same_check c a then Some ((a, True) # rest)
      else case match_check c rest of None \<Rightarrow> None | Some rest' \<Rightarrow> Some ((a, matched) # rest'))"

fun match_checks :: "database_check list \<Rightarrow> (database_check \<times> bool) list \<Rightarrow> bool" where
  "match_checks [] as = True"
| "match_checks (c # cs) as = (case match_check c as of None \<Rightarrow> False | Some as' \<Rightarrow> match_checks cs as')"

definition same_checks :: "database_check list \<Rightarrow> database_check list \<Rightarrow> bool" where
  "same_checks expected actual =
     (if length expected \<noteq> length actual then False
      else match_checks expected (List.map (\<lambda>a. (a, False)) actual))"

definition find_column :: "database_table \<Rightarrow> string \<Rightarrow> database_column option" where
  "find_column t n = List.find (\<lambda>c. col_name c = n) (tb_columns t)"

definition find_index :: "database_table \<Rightarrow> string \<Rightarrow> database_index option" where
  "find_index t n = List.find (\<lambda>i. ix_name i = n) (tb_indexes t)"

text \<open>The loop over the columns compares position by position after the lengths have been compared.\<close>

definition same_index :: "database_index \<Rightarrow> database_index \<Rightarrow> bool" where
  "same_index e a =
     (if ix_unique e \<noteq> ix_unique a \<or> length (ix_columns e) \<noteq> length (ix_columns a) then False
      else list_all2 (\<lambda>x y. x = y) (ix_columns e) (ix_columns a) \<and> ix_where e = ix_where a)"

record column_diff =
  cd_type_changed :: bool
  cd_nullability_changed :: bool
  cd_unique_changed :: bool
  cd_unique_name_changed :: bool
  cd_default_changed :: bool
  cd_auto_increment_changed :: bool
  cd_check_changed :: bool
  cd_reference_changed :: bool

definition cd_any :: "column_diff \<Rightarrow> bool" where
  "cd_any d \<longleftrightarrow> cd_type_changed d \<or> cd_nullability_changed d \<or> cd_unique_changed d \<or> cd_unique_name_changed d \<or>
     cd_default_changed d \<or> cd_auto_increment_changed d \<or> cd_check_changed d \<or> cd_reference_changed d"

definition cd_postgres_scalar_mutation :: "column_diff \<Rightarrow> bool" where
  "cd_postgres_scalar_mutation d \<longleftrightarrow> cd_type_changed d \<or> cd_nullability_changed d \<or> cd_default_changed d \<or>
     cd_auto_increment_changed d"

definition diff_column :: "database_column \<Rightarrow> database_column \<Rightarrow> column_diff" where
  "diff_column e a =
     \<lparr>cd_type_changed = normalize_schema_type (col_type e) \<noteq> normalize_schema_type (col_type a),
      cd_nullability_changed = col_not_null e \<noteq> col_not_null a,
      cd_unique_changed = col_unique e \<noteq> col_unique a,
      cd_unique_name_changed = col_unique_name e \<noteq> col_unique_name a,
      cd_default_changed = normalize_schema_default (col_default e) \<noteq> normalize_schema_default (col_default a),
      cd_auto_increment_changed = col_auto_increment e \<noteq> col_auto_increment a,
      cd_check_changed =
        normalize_optional_check_expression (col_check e) \<noteq> normalize_optional_check_expression (col_check a),
      cd_reference_changed = \<not> same_reference (col_references e) (col_references a)\<rparr>"

subsection \<open>SQL fragments\<close>

definition render_reference_table :: "foreign_key_reference \<Rightarrow> dialect \<Rightarrow> string" where
  "render_reference_table r d =
     (case fk_schema r of None \<Rightarrow> [] | Some s \<Rightarrow> d_quote d s @ ''.'') @ d_quote d (fk_table r)"

definition on_actions :: "foreign_key_reference \<Rightarrow> string" where
  "on_actions r =
     (case fk_on_delete r of None \<Rightarrow> [] | Some a \<Rightarrow> '' ON DELETE '' @ a) @
     (case fk_on_update r of None \<Rightarrow> [] | Some a \<Rightarrow> '' ON UPDATE '' @ a) @
     (if fk_deferrable r then '' DEFERRABLE INITIALLY DEFERRED'' else [])"

definition render_reference_definition :: "foreign_key_reference \<Rightarrow> dialect \<Rightarrow> string" where
  "render_reference_definition r d =
     (case fk_name r of None \<Rightarrow> [] | Some n \<Rightarrow> '' CONSTRAINT '' @ d_quote d n) @
     '' REFERENCES '' @ render_reference_table r d @ '' ('' @ d_quote d (fk_column r) @ '')'' @ on_actions r"

definition render_column_definition :: "database_column \<Rightarrow> dialect \<Rightarrow> string" where
  "render_column_definition c d =
     d_quote d (col_name c) @ '' '' @ col_type c @
     (if col_not_null c then '' NOT NULL'' else []) @
     (if col_unique c
      then (case col_unique_name c of None \<Rightarrow> [] | Some n \<Rightarrow> '' CONSTRAINT '' @ d_quote d n) @ '' UNIQUE''
      else []) @
     (case col_default c of None \<Rightarrow> [] | Some v \<Rightarrow> '' DEFAULT '' @ v) @
     (case col_check c of None \<Rightarrow> [] | Some e \<Rightarrow> '' CHECK ('' @ e @ '')'') @
     (case col_references c of None \<Rightarrow> [] | Some r \<Rightarrow> render_reference_definition r d)"

definition render_index :: "database_table \<Rightarrow> database_index \<Rightarrow> dialect \<Rightarrow> string" where
  "render_index t i d =
     ''CREATE '' @ (if ix_unique i then ''UNIQUE '' else []) @
     ''INDEX IF NOT EXISTS '' @ d_quote d (ix_name i) @ '' ON '' @ d_quote d (tb_name t) @ '' ('' @
     join '', '' (List.map (d_quote d) (ix_columns i)) @ '')'' @
     (case ix_where i of None \<Rightarrow> [] | Some w \<Rightarrow> '' WHERE '' @ w) @ '';''"

definition alter_table :: "dialect \<Rightarrow> string \<Rightarrow> string" where
  "alter_table d n = ''ALTER TABLE '' @ d_quote d n"

definition drop_index_sql :: "dialect \<Rightarrow> string \<Rightarrow> string" where
  "drop_index_sql d n = ''DROP INDEX IF EXISTS '' @ d_quote d n @ '';''"

text \<open>\<open>options.allow_destructive ? vector{\<dots>} : vector{}\<close>\<close>

definition if_destructive :: "schema_diff_options \<Rightarrow> string list \<Rightarrow> string list" where
  "if_destructive opt ss = (if df_allow_destructive opt then ss else [])"

text \<open>One \<open>plan.changes.push_back(SchemaChange{\<dots>})\<close>.\<close>

definition push_change ::
  "schema_change_kind \<Rightarrow> string \<Rightarrow> string \<Rightarrow> string list \<Rightarrow> bool \<Rightarrow> schema_plan" where
  "push_change k t descr ss ok =
     plan_change \<lparr>ch_kind = k, ch_table = t, ch_description = descr, ch_statements = ss, ch_safe = ok\<rparr>"

subsection \<open>SQLite and generic tables\<close>

definition sqlite_expected_column ::
  "database_table \<Rightarrow> database_table \<Rightarrow> dialect \<Rightarrow> database_column \<Rightarrow> schema_plan" where
  "sqlite_expected_column e a d c =
     (case find_column a (col_name c) of
        None \<Rightarrow>
          if col_unique c
          then plan_concat
            [push_change AddColumn (tb_name e) (''Add unique column '' @ col_name c @ '' to '' @ tb_name e) [] False,
             plan_warning (''SQLite ADD COLUMN does not permit UNIQUE constraints; rebuild table '' @ tb_name e @
               '' to add unique column '' @ col_name c @ ''.'')]
          else push_change AddColumn (tb_name e) (''Add column '' @ col_name c @ '' to '' @ tb_name e)
            [alter_table d (tb_name e) @ '' ADD '' @ render_column_definition c d @ '';''] True
      | Some ac \<Rightarrow>
          if cd_any (diff_column c ac)
          then plan_warning (''SQLite ALTER COLUMN is not supported; rebuild table '' @ tb_name e @
            '' to change column '' @ col_name c @ ''.'')
          else empty_plan)"

definition sqlite_actual_column :: "database_table \<Rightarrow> database_column \<Rightarrow> schema_plan" where
  "sqlite_actual_column e c =
     (if find_column e (col_name c) \<noteq> None then empty_plan
      else plan_concat
        [push_change DropColumn (tb_name e) (''Drop column '' @ col_name c @ '' from '' @ tb_name e) [] False,
         plan_warning (''Dropping columns on SQLite requires table rebuild (column '' @ col_name c @ '' on '' @
           tb_name e @ '').'')])"

definition create_index_change :: "database_table \<Rightarrow> dialect \<Rightarrow> database_index \<Rightarrow> schema_plan" where
  "create_index_change e d i =
     push_change AddIndex (tb_name e) (''Create index '' @ ix_name i @ '' on '' @ tb_name e) [render_index e i d] True"

definition sqlite_expected_index ::
  "database_table \<Rightarrow> database_table \<Rightarrow> dialect \<Rightarrow> database_index \<Rightarrow> schema_plan" where
  "sqlite_expected_index e a d i =
     (case find_index a (ix_name i) of
        None \<Rightarrow> create_index_change e d i
      | Some ai \<Rightarrow>
          if \<not> same_index i ai
          then plan_warning (''SQLite index '' @ ix_name i @ '' on '' @ tb_name e @
            '' differs from the expected definition; drop/recreate it explicitly.'')
          else empty_plan)"

definition actual_index_change ::
  "database_table \<Rightarrow> dialect \<Rightarrow> schema_diff_options \<Rightarrow> database_index \<Rightarrow> schema_plan" where
  "actual_index_change e d opt i =
     (if find_index e (ix_name i) \<noteq> None then empty_plan
      else push_change DropIndex (tb_name e) (''Drop index '' @ ix_name i @ '' on '' @ tb_name e)
        (if_destructive opt [drop_index_sql d (ix_name i)]) False)"

definition diff_sqlite_table ::
  "database_table \<Rightarrow> database_table \<Rightarrow> dialect \<Rightarrow> schema_diff_options \<Rightarrow> schema_plan" where
  "diff_sqlite_table e a d opt = plan_concat (
     List.map (sqlite_expected_column e a d) (tb_columns e) @
     [if same_checks (tb_checks e) (tb_checks a) then empty_plan
      else plan_warning (''SQLite table CHECK constraints on '' @ tb_name e @
        '' differ from the expected definition; rebuild the table to change them.'')] @
     List.map (sqlite_actual_column e) (tb_columns a) @
     List.map (sqlite_expected_index e a d) (tb_indexes e) @
     List.map (actual_index_change e d opt) (tb_indexes a))"

subsection \<open>PostgreSQL: columns\<close>

definition render_postgres_scalar_alterations ::
  "database_table \<Rightarrow> database_column \<Rightarrow> column_diff \<Rightarrow> dialect \<Rightarrow> string list" where
  "render_postgres_scalar_alterations t e df d =
     (let prefix = alter_table d (tb_name t) @ '' ALTER COLUMN '' @ d_quote d (col_name e) @ '' '' in
      (if cd_type_changed df then [prefix @ ''TYPE '' @ col_type e @ '';''] else []) @
      (if cd_default_changed df
       then [case col_default e of Some v \<Rightarrow> prefix @ ''SET DEFAULT '' @ v @ '';'' | None \<Rightarrow> prefix @ ''DROP DEFAULT;'']
       else []) @
      (if cd_nullability_changed df
       then [prefix @ (if col_not_null e then ''SET'' else ''DROP'') @ '' NOT NULL;''] else []) @
      (if cd_auto_increment_changed df
       then [if col_auto_increment e then prefix @ ''ADD GENERATED BY DEFAULT AS IDENTITY;''
             else prefix @ ''DROP IDENTITY IF EXISTS;''] else []))"

definition postgres_column_constraint_name ::
  "database_table \<Rightarrow> database_column \<Rightarrow> string \<Rightarrow> string option \<Rightarrow> string" where
  "postgres_column_constraint_name t c suffix explicit =
     (case explicit of Some n \<Rightarrow> n | None \<Rightarrow> tb_name t @ ''_'' @ col_name c @ ''_'' @ suffix)"

definition postgres_drop_constraint :: "database_table \<Rightarrow> string \<Rightarrow> dialect \<Rightarrow> string" where
  "postgres_drop_constraint t n d = alter_table d (tb_name t) @ '' DROP CONSTRAINT '' @ d_quote d n @ '';''"

definition postgres_rename_constraint :: "database_table \<Rightarrow> string \<Rightarrow> string \<Rightarrow> dialect \<Rightarrow> string" where
  "postgres_rename_constraint t old new d =
     alter_table d (tb_name t) @ '' RENAME CONSTRAINT '' @ d_quote d old @ '' TO '' @ d_quote d new @ '';''"

definition postgres_add_unique_constraint :: "database_table \<Rightarrow> database_column \<Rightarrow> dialect \<Rightarrow> string" where
  "postgres_add_unique_constraint t c d =
     alter_table d (tb_name t) @ '' ADD CONSTRAINT '' @
     d_quote d (postgres_column_constraint_name t c ''key'' (col_unique_name c)) @
     '' UNIQUE ('' @ d_quote d (col_name c) @ '');''"

text \<open>\<open>*column.check\<close> is read under the test that it is present; the model gives the text as an argument.\<close>

definition postgres_add_check_constraint :: "database_table \<Rightarrow> database_column \<Rightarrow> string \<Rightarrow> dialect \<Rightarrow> string" where
  "postgres_add_check_constraint t c check d =
     alter_table d (tb_name t) @ '' ADD CONSTRAINT '' @
     d_quote d (postgres_column_constraint_name t c ''check'' None) @ '' CHECK ('' @ check @ '');''"

definition postgres_add_reference_constraint ::
  "database_table \<Rightarrow> database_column \<Rightarrow> foreign_key_reference \<Rightarrow> dialect \<Rightarrow> string" where
  "postgres_add_reference_constraint t c r d =
     alter_table d (tb_name t) @ '' ADD CONSTRAINT '' @
     d_quote d (postgres_column_constraint_name t c ''fkey'' (fk_name r)) @
     '' FOREIGN KEY ('' @ d_quote d (col_name c) @ '')'' @ '' REFERENCES '' @ render_reference_table r d @
     '' ('' @ d_quote d (fk_column r) @ '')'' @ on_actions r @ '';''"

definition diff_postgres_unique_constraint ::
  "database_table \<Rightarrow> database_column \<Rightarrow> database_column \<Rightarrow> column_diff \<Rightarrow> dialect \<Rightarrow> schema_diff_options \<Rightarrow>
     schema_plan" where
  "diff_postgres_unique_constraint t e a df d opt =
     (if \<not> cd_unique_changed df \<and> \<not> cd_unique_name_changed df then empty_plan
      else if col_unique e \<and> \<not> col_unique a then
        push_change AlterColumn (tb_name t) (''Add UNIQUE constraint on '' @ tb_name t @ ''.'' @ col_name e)
          [postgres_add_unique_constraint t e d] True
      else
        let actual_name = postgres_column_constraint_name t a ''key'' (col_unique_name a);
            expected_name = postgres_column_constraint_name t e ''key'' (col_unique_name e) in
        if \<not> col_unique e \<and> col_unique a then
          push_change AlterColumn (tb_name t) (''Drop UNIQUE constraint on '' @ tb_name t @ ''.'' @ col_name e)
            (if_destructive opt [postgres_drop_constraint t actual_name d]) False
        else if col_unique e \<and> col_unique a \<and> actual_name \<noteq> expected_name then
          push_change AlterColumn (tb_name t) (''Rename UNIQUE constraint on '' @ tb_name t @ ''.'' @ col_name e)
            [postgres_rename_constraint t actual_name expected_name d] True
        else empty_plan)"

definition diff_postgres_check_constraint ::
  "database_table \<Rightarrow> database_column \<Rightarrow> database_column \<Rightarrow> column_diff \<Rightarrow> dialect \<Rightarrow> schema_diff_options \<Rightarrow>
     schema_plan" where
  "diff_postgres_check_constraint t e a df d opt =
     (if \<not> cd_check_changed df then empty_plan
      else
        let name = postgres_column_constraint_name t e ''check'' None in
        case (col_check e, col_check a) of
          (Some ck, None) \<Rightarrow>
            push_change AlterColumn (tb_name t) (''Add CHECK constraint on '' @ tb_name t @ ''.'' @ col_name e)
              [postgres_add_check_constraint t e ck d] True
        | (None, Some _) \<Rightarrow>
            push_change AlterColumn (tb_name t) (''Drop CHECK constraint on '' @ tb_name t @ ''.'' @ col_name e)
              (if_destructive opt [postgres_drop_constraint t name d]) False
        | (Some ck, Some _) \<Rightarrow>
            push_change AlterColumn (tb_name t) (''Replace CHECK constraint on '' @ tb_name t @ ''.'' @ col_name e)
              [postgres_drop_constraint t name d, postgres_add_check_constraint t e ck d] True
        | (None, None) \<Rightarrow> empty_plan)"

definition diff_postgres_reference_constraint ::
  "database_table \<Rightarrow> database_column \<Rightarrow> database_column \<Rightarrow> column_diff \<Rightarrow> dialect \<Rightarrow> schema_diff_options \<Rightarrow>
     schema_plan" where
  "diff_postgres_reference_constraint t e a df d opt =
     (if \<not> cd_reference_changed df then empty_plan
      else case (col_references e, col_references a) of
          (Some re, None) \<Rightarrow>
            push_change AlterColumn (tb_name t) (''Add foreign key on '' @ tb_name t @ ''.'' @ col_name e)
              [postgres_add_reference_constraint t e re d] True
        | (None, Some ra) \<Rightarrow>
            push_change AlterColumn (tb_name t) (''Drop foreign key on '' @ tb_name t @ ''.'' @ col_name e)
              (if_destructive opt
                [postgres_drop_constraint t (postgres_column_constraint_name t a ''fkey'' (fk_name ra)) d]) False
        | (None, None) \<Rightarrow> empty_plan
        | (Some re, Some ra) \<Rightarrow>
            let actual_name = postgres_column_constraint_name t a ''fkey'' (fk_name ra);
                expected_name = postgres_column_constraint_name t e ''fkey'' (fk_name re) in
            if same_reference_definition re ra then
              (if actual_name \<noteq> expected_name
               then push_change AlterColumn (tb_name t) (''Rename foreign key on '' @ tb_name t @ ''.'' @ col_name e)
                 [postgres_rename_constraint t actual_name expected_name d] True
               else empty_plan)
            else
              push_change AlterColumn (tb_name t) (''Replace foreign key on '' @ tb_name t @ ''.'' @ col_name e)
                [postgres_drop_constraint t actual_name d, postgres_add_reference_constraint t e re d] True)"

subsection \<open>PostgreSQL: keys and table checks\<close>

definition postgres_primary_key_constraint_name :: "database_table \<Rightarrow> string" where
  "postgres_primary_key_constraint_name t =
     (case tb_primary_key_name t of Some n \<Rightarrow> n | None \<Rightarrow> tb_name t @ ''_pkey'')"

definition postgres_add_primary_key_constraint :: "database_table \<Rightarrow> dialect \<Rightarrow> string" where
  "postgres_add_primary_key_constraint t d =
     alter_table d (tb_name t) @ '' ADD CONSTRAINT '' @ d_quote d (postgres_primary_key_constraint_name t) @
     '' PRIMARY KEY ('' @ join '', '' (List.map (d_quote d) (tb_primary_key t)) @ '');''"

definition diff_postgres_primary_key ::
  "database_table \<Rightarrow> database_table \<Rightarrow> dialect \<Rightarrow> schema_diff_options \<Rightarrow> schema_plan" where
  "diff_postgres_primary_key e a d opt =
     (if tb_primary_key e = tb_primary_key a then empty_plan
      else if tb_primary_key a = [] then
        (if tb_primary_key e = [] then empty_plan
         else push_change AlterTable (tb_name e) (''Add primary key on '' @ tb_name e)
           [postgres_add_primary_key_constraint e d] True)
      else
        let drop_sql = postgres_drop_constraint a (postgres_primary_key_constraint_name a) d in
        if tb_primary_key e = [] then
          push_change AlterTable (tb_name e) (''Drop primary key on '' @ tb_name e)
            (if_destructive opt [drop_sql]) False
        else
          push_change AlterTable (tb_name e) (''Replace primary key on '' @ tb_name e)
            (if_destructive opt [drop_sql, postgres_add_primary_key_constraint e d]) False)"

definition postgres_table_check_constraint_name :: "database_table \<Rightarrow> database_check \<Rightarrow> string" where
  "postgres_table_check_constraint_name t c =
     (case ck_name c of Some n \<Rightarrow> n | None \<Rightarrow> tb_name t @ ''_check'')"

definition postgres_add_table_check_constraint :: "database_table \<Rightarrow> database_check \<Rightarrow> dialect \<Rightarrow> string" where
  "postgres_add_table_check_constraint t c d =
     alter_table d (tb_name t) @ '' ADD '' @
     (case ck_name c of Some n \<Rightarrow> ''CONSTRAINT '' @ d_quote d n @ '' '' | None \<Rightarrow> []) @
     ''CHECK ('' @ ck_expression c @ '');''"

text \<open>
  The candidates of one expected check: the loop over the actual checks that stops at one of the
  same name and remembers the first one of the same expression.
\<close>

fun scan_checks ::
  "database_check \<Rightarrow> nat \<Rightarrow> database_check list \<Rightarrow> bool list \<Rightarrow> nat option \<Rightarrow> nat option \<times> nat option" where
  "scan_checks w i (c # cs) (m # ms) same_expression =
     (if m then scan_checks w (Suc i) cs ms same_expression
      else if ck_name w \<noteq> None \<and> ck_name c = ck_name w then (Some i, same_expression)
      else scan_checks w (Suc i) cs ms
        (if same_expression = None \<and>
            normalize_check_expression (ck_expression c) = normalize_check_expression (ck_expression w)
         then Some i else same_expression))"
| "scan_checks w i _ _ same_expression = (None, same_expression)"

text \<open>One round of the loop over the expected checks: what it appends and the marks it leaves.\<close>

definition expected_check_step ::
  "database_table \<Rightarrow> database_table \<Rightarrow> dialect \<Rightarrow> database_check \<Rightarrow> bool list \<Rightarrow> schema_plan \<times> bool list" where
  "expected_check_step e a d w matched =
     (case scan_checks w 0 (tb_checks a) matched None of
        (Some i, _) \<Rightarrow>
          let c = tb_checks a ! i in
          (if normalize_check_expression (ck_expression c) = normalize_check_expression (ck_expression w)
           then empty_plan
           else push_change AlterTable (tb_name e)
             (''Replace table CHECK constraint '' @ the (ck_name w) @ '' on '' @ tb_name e)
             [postgres_drop_constraint a (postgres_table_check_constraint_name a c) d,
              postgres_add_table_check_constraint e w d] True,
           matched[i := True])
      | (None, Some i) \<Rightarrow>
          let actual_name = postgres_table_check_constraint_name a (tb_checks a ! i) in
          (case ck_name w of
             None \<Rightarrow> empty_plan
           | Some n \<Rightarrow>
               if actual_name \<noteq> n
               then push_change AlterTable (tb_name e) (''Rename table CHECK constraint on '' @ tb_name e)
                 [postgres_rename_constraint e actual_name n d] True
               else empty_plan,
           matched[i := True])
      | (None, None) \<Rightarrow>
          (push_change AlterTable (tb_name e) (''Add table CHECK constraint on '' @ tb_name e)
             [postgres_add_table_check_constraint e w d] True,
           matched))"

fun expected_checks_loop ::
  "database_table \<Rightarrow> database_table \<Rightarrow> dialect \<Rightarrow> database_check list \<Rightarrow> bool list \<Rightarrow> schema_plan list \<times> bool list" where
  "expected_checks_loop e a d [] matched = ([], matched)"
| "expected_checks_loop e a d (w # ws) matched =
     (let (p, matched') = expected_check_step e a d w matched;
          (ps, matched'') = expected_checks_loop e a d ws matched' in
      (p # ps, matched''))"

definition drop_check_change ::
  "database_table \<Rightarrow> database_table \<Rightarrow> dialect \<Rightarrow> schema_diff_options \<Rightarrow> database_check \<times> bool \<Rightarrow> schema_plan" where
  "drop_check_change e a d opt cm =
     (if snd cm then empty_plan
      else let name = postgres_table_check_constraint_name a (fst cm) in
        push_change AlterTable (tb_name e) (''Drop table CHECK constraint '' @ name @ '' from '' @ tb_name e)
          (if_destructive opt [postgres_drop_constraint a name d]) False)"

definition diff_postgres_table_checks ::
  "database_table \<Rightarrow> database_table \<Rightarrow> dialect \<Rightarrow> schema_diff_options \<Rightarrow> schema_plan" where
  "diff_postgres_table_checks e a d opt =
     (let (ps, matched) = expected_checks_loop e a d (tb_checks e) (replicate (length (tb_checks a)) False) in
      plan_concat (ps @ List.map (drop_check_change e a d opt) (zip (tb_checks a) matched)))"

subsection \<open>PostgreSQL tables and the whole schema\<close>

definition postgres_expected_column ::
  "database_table \<Rightarrow> database_table \<Rightarrow> dialect \<Rightarrow> schema_diff_options \<Rightarrow> database_column \<Rightarrow> schema_plan" where
  "postgres_expected_column e a d opt c =
     (case find_column a (col_name c) of
        None \<Rightarrow>
          push_change AddColumn (tb_name e) (''Add column '' @ col_name c @ '' to '' @ tb_name e)
            [alter_table d (tb_name e) @ '' ADD '' @ render_column_definition c d @ '';''] True
      | Some ac \<Rightarrow>
          let df = diff_column c ac; statements = render_postgres_scalar_alterations e c df d in
          plan_concat
            [if cd_postgres_scalar_mutation df \<and> statements \<noteq> []
             then push_change AlterColumn (tb_name e) (''Alter column '' @ col_name c @ '' on '' @ tb_name e)
               statements True
             else empty_plan,
             if cd_postgres_scalar_mutation df \<and> cd_auto_increment_changed df
             then plan_warning (''Altering PostgreSQL identity properties on '' @ tb_name e @ ''.'' @ col_name c @
               '' may fail if an existing sequence is attached; verify generated column state.'')
             else empty_plan,
             diff_postgres_unique_constraint e c ac df d opt,
             diff_postgres_check_constraint e c ac df d opt,
             diff_postgres_reference_constraint e c ac df d opt])"

definition postgres_actual_column ::
  "database_table \<Rightarrow> dialect \<Rightarrow> schema_diff_options \<Rightarrow> database_column \<Rightarrow> schema_plan" where
  "postgres_actual_column e d opt c =
     (if find_column e (col_name c) \<noteq> None then empty_plan
      else push_change DropColumn (tb_name e) (''Drop column '' @ col_name c @ '' from '' @ tb_name e)
        (if_destructive opt [alter_table d (tb_name e) @ '' DROP COLUMN '' @ d_quote d (col_name c) @ '';'']) False)"

definition postgres_expected_index ::
  "database_table \<Rightarrow> database_table \<Rightarrow> dialect \<Rightarrow> database_index \<Rightarrow> schema_plan" where
  "postgres_expected_index e a d i =
     (case find_index a (ix_name i) of
        None \<Rightarrow> create_index_change e d i
      | Some ai \<Rightarrow>
          if \<not> same_index i ai
          then push_change AddIndex (tb_name e) (''Recreate index '' @ ix_name i @ '' on '' @ tb_name e)
            [drop_index_sql d (ix_name i), render_index e i d] True
          else empty_plan)"

definition diff_postgres_table ::
  "database_table \<Rightarrow> database_table \<Rightarrow> dialect \<Rightarrow> schema_diff_options \<Rightarrow> schema_plan" where
  "diff_postgres_table e a d opt = plan_concat (
     List.map (postgres_expected_column e a d opt) (tb_columns e) @
     [diff_postgres_primary_key e a d opt, diff_postgres_table_checks e a d opt] @
     List.map (postgres_actual_column e d opt) (tb_columns a) @
     List.map (postgres_expected_index e a d) (tb_indexes e) @
     List.map (actual_index_change e d opt) (tb_indexes a))"

definition diff_existing_table ::
  "database_table \<Rightarrow> database_table \<Rightarrow> dialect \<Rightarrow> schema_diff_options \<Rightarrow> schema_plan" where
  "diff_existing_table e a d opt =
     (case d_family d of
        PostgreSQL \<Rightarrow> diff_postgres_table e a d opt
      | SQLite \<Rightarrow> diff_sqlite_table e a d opt
      | Generic \<Rightarrow> diff_sqlite_table e a d opt)"

text \<open>\<open>unordered_map::emplace\<close> keeps an entry that is there already.\<close>

fun actual_tables :: "database_table list \<Rightarrow> (string, database_table) amap \<Rightarrow> (string, database_table) amap" where
  "actual_tables [] m = m"
| "actual_tables (t # ts) m =
     actual_tables ts (if alookup m (tb_name t) = None then aput (tb_name t) t m else m)"

definition diff_wanted_table ::
  "(string, database_table) amap \<Rightarrow> dialect \<Rightarrow> schema_diff_options \<Rightarrow> expected_table \<Rightarrow> schema_plan" where
  "diff_wanted_table m d opt w =
     (case alookup m (tb_name (et_table w)) of
        None \<Rightarrow> push_change CreateTable (tb_name (et_table w)) (''Create table '' @ tb_name (et_table w))
          (et_create_table_sql w # et_create_index_sql w) True
      | Some a \<Rightarrow> diff_existing_table (et_table w) a d opt)"

definition diff_unwanted_table ::
  "expected_schema \<Rightarrow> dialect \<Rightarrow> schema_diff_options \<Rightarrow> database_table \<Rightarrow> schema_plan" where
  "diff_unwanted_table ex d opt a =
     (if list_ex (\<lambda>t. tb_name (et_table t) = tb_name a) (es_tables ex) then empty_plan
      else push_change DropTable (tb_name a) (''Drop table '' @ tb_name a)
        (if_destructive opt [''DROP TABLE IF EXISTS '' @ d_quote d (tb_name a) @ '';'']) False)"

definition diff_schema :: "expected_schema \<Rightarrow> database_schema \<Rightarrow> dialect \<Rightarrow> schema_diff_options \<Rightarrow> schema_plan" where
  "diff_schema ex ac d opt =
     (let m = actual_tables (ds_tables ac) [] in
      plan_concat (
        List.map (diff_wanted_table m d opt) (es_tables ex) @
        List.map (diff_unwanted_table ex d opt) (ds_tables ac)))"

subsection \<open>Execution\<close>

definition execute_statement :: "'s executor \<Rightarrow> string \<Rightarrow> ('s, unit) action" where
  "execute_statement ex sql =
     (if sql \<noteq> [] then act_bind (ex sql []) (\<lambda>_. act_return ()) else act_return ())"

definition execute_schema_plan ::
  "'s executor \<Rightarrow> schema_plan \<Rightarrow> synchronize_options \<Rightarrow> ('s, unit) action" where
  "execute_schema_plan ex p opt =
     (if so_dry_run opt then act_return ()
      else act_iter (\<lambda>c.
        if \<not> ch_safe c \<and> \<not> so_allow_destructive opt then act_return ()
        else act_iter (execute_statement ex) (ch_statements c)) (pl_changes p))"

definition synchronize_schema ::
  "'s executor \<Rightarrow> expected_schema \<Rightarrow> database_schema \<Rightarrow> dialect \<Rightarrow> synchronize_options \<Rightarrow>
     ('s, schema_plan) action" where
  "synchronize_schema ex expected actual d opt =
     (let p = diff_schema expected actual d \<lparr>df_allow_destructive = so_allow_destructive opt\<rparr> in
      act_bind (execute_schema_plan ex p opt) (\<lambda>_. act_return p))"

end
