(* ===== verification/Schema_Sync.thy ===== *)
theory Schema_Sync
  imports Schema_Diff
begin

section \<open>What a schema synchronisation does\<close>

text \<open>
  The lemmas on the diff of \<open>Schema_Diff\<close>: the comparisons against their declarative meaning, when a
  diff is silent, which changes it holds and what an execution of the plan sends to the database.
\<close>

subsection \<open>Normal forms\<close>

text \<open>The words of a type name: the reference definition of \<open>normalize_schema_type\<close>.\<close>

function words :: "string \<Rightarrow> string list" where
  "words s = (case dropWhile is_space s of [] \<Rightarrow> []
     | c # cs \<Rightarrow> (c # takeWhile (\<lambda>x. \<not> is_space x) cs) # words (dropWhile (\<lambda>x. \<not> is_space x) cs))"
  by pat_completeness auto
termination
proof (relation "measure length", goal_cases)
  case (2 s c cs)
  have "length (c # cs) \<le> length s" by (metis 2 length_dropWhile_le)
  then show ?case by (simp add: le_less_trans [OF length_dropWhile_le])
qed simp

declare words.simps [simp del]

lemma words_simps [simp]:
  "words [] = []"
  "is_space c \<Longrightarrow> words (c # cs) = words cs"
  "\<not> is_space c \<Longrightarrow> words (c # cs) =
     (c # takeWhile (\<lambda>x. \<not> is_space x) cs) # words (dropWhile (\<lambda>x. \<not> is_space x) cs)"
  by (simp add: words.simps, subst (1 2) words.simps, simp, subst words.simps, simp)

lemma normalize_type_word:
  "\<forall>c \<in> set w. \<not> is_space c \<Longrightarrow>
     normalize_type_loop (w @ cs) r False = normalize_type_loop cs (r @ List.map to_lower w) False"
  by (induction w arbitrary: r) auto

lemma normalize_type_rest:
  "r \<noteq> [] \<Longrightarrow> normalize_type_loop cs r True =
     r @ concat (List.map (\<lambda>w. CHR 0x20 # List.map to_lower w) (words cs))"
proof (induction cs arbitrary: r rule: length_induct)
  case (1 cs)
  show ?case
  proof (cases cs)
    case (Cons c t)
    show ?thesis
    proof (cases "is_space c")
      case True
      with 1 Cons show ?thesis by simp
    next
      case False
      define w u where "w = takeWhile (\<lambda>x. \<not> is_space x) t" and "u = dropWhile (\<lambda>x. \<not> is_space x) t"
      have t: "t = w @ u" and w: "\<forall>x \<in> set w. \<not> is_space x"
        by (auto simp: w_def u_def dest: set_takeWhileD)
      have step: "normalize_type_loop cs r True =
          normalize_type_loop u (r @ CHR 0x20 # List.map to_lower (c # w)) False"
        using False w by (simp add: Cons t normalize_type_word)
      show ?thesis
      proof (cases u)
        case Nil
        with step False show ?thesis by (simp add: Cons w_def [symmetric] u_def [symmetric])
      next
        case (Cons s v)
        then have s: "is_space s" using hd_dropWhile [of "\<lambda>x. \<not> is_space x" t] by (auto simp: u_def)
        have "length v < length cs" using t Cons \<open>cs = c # t\<close> by simp
        with 1 have IH: "normalize_type_loop v r' True =
            r' @ concat (List.map (\<lambda>w. CHR 0x20 # List.map to_lower w) (words v))" if "r' \<noteq> []" for r'
          using that by blast
        have "words cs = (c # w) # words v"
          using False s by (simp add: \<open>cs = c # t\<close> w_def [symmetric] u_def [symmetric] Cons)
        then show ?thesis using s by (simp add: step Cons IH)
      qed
    qed
  qed simp
qed

lemma normalize_type_loop_words:
  "normalize_type_loop s [] False = join '' '' (List.map (List.map to_lower) (words s))"
proof (induction s)
  case (Cons c t)
  show ?case
  proof (cases "is_space c")
    case False
    define w u where "w = takeWhile (\<lambda>x. \<not> is_space x) t" and "u = dropWhile (\<lambda>x. \<not> is_space x) t"
    have t: "t = w @ u" and w: "\<forall>x \<in> set w. \<not> is_space x"
      by (auto simp: w_def u_def dest: set_takeWhileD)
    have ws: "words (c # t) = (c # w) # words u" using False by (simp add: w_def u_def)
    have step: "normalize_type_loop (c # t) [] False = normalize_type_loop u (List.map to_lower (c # w)) False"
      using False w by (simp add: t normalize_type_word)
    show ?thesis
    proof (cases u)
      case (Cons s v)
      then have "is_space s" using hd_dropWhile [of "\<lambda>x. \<not> is_space x" t] by (auto simp: u_def)
      with step ws Cons show ?thesis by (simp add: normalize_type_rest join_Cons comp_def)
    qed (simp add: step [simplified] ws)
  qed (use Cons in simp)
qed simp

lemma words_ok: "w \<in> set (words s) \<Longrightarrow> w \<noteq> [] \<and> (\<forall>c \<in> set w. \<not> is_space c)"
proof (induction s rule: length_induct)
  case (1 s)
  show ?case
  proof (cases s)
    case (Cons c t)
    have shorter: "length (dropWhile (\<lambda>x. \<not> is_space x) t) < length s" "length t < length s"
      using Cons length_dropWhile_le [of "\<lambda>x. \<not> is_space x" t] by (simp_all add: le_imp_less_Suc)
    note rest = 1(1) [rule_format, OF shorter(1)] and tail = 1(1) [rule_format, OF shorter(2)]
    show ?thesis
    proof (cases "is_space c")
      case True
      with 1(2) Cons have "w \<in> set (words t)" by simp
      then show ?thesis by (rule tail)
    next
      case False
      with 1(2) Cons consider "w = c # takeWhile (\<lambda>x. \<not> is_space x) t"
        | "w \<in> set (words (dropWhile (\<lambda>x. \<not> is_space x) t))" by auto
      then show ?thesis
      proof cases
        case 1
        then show ?thesis using False by (auto dest: set_takeWhileD)
      next
        case 2
        then show ?thesis by (rule rest)
      qed
    qed
  qed (use 1 in simp)
qed

lemma join_words_last:
  assumes "\<forall>w \<in> set ws. w \<noteq> [] \<and> (\<forall>c \<in> set w. \<not> is_space c)" and "ws \<noteq> []"
  shows "join sep ws \<noteq> [] \<and> \<not> is_space (last (join sep ws))"
  using assms
proof (induction ws rule: induct_list012)
  case (3 x y zs)
  then show ?case by (simp add: last_append)
qed auto

lemma drop_back_none:
  "xs \<noteq> [] \<Longrightarrow> last xs \<noteq> c \<Longrightarrow> rev (dropWhile (\<lambda>d. d = c) (rev xs)) = xs"
  by (cases xs rule: rev_cases) auto

theorem normalize_schema_type_words:
  "normalize_schema_type s = join '' '' (List.map (List.map to_lower) (words s))"
proof -
  let ?ws = "List.map (List.map to_lower) (words s)"
  have ok: "\<forall>w \<in> set ?ws. w \<noteq> [] \<and> (\<forall>c \<in> set w. \<not> is_space c)"
    using words_ok [of _ s] by (auto simp: is_space_lower)
  have "rev (dropWhile (\<lambda>c. c = CHR 0x20) (rev (join '' '' ?ws))) = join '' '' ?ws"
  proof (cases "?ws = []")
    case False
    with ok have "join '' '' ?ws \<noteq> []" "\<not> is_space (last (join '' '' ?ws))"
      using join_words_last [of ?ws] by blast+
    then have "last (join '' '' ?ws) \<noteq> CHR 0x20" by (auto simp: is_space_def)
    with \<open>join '' '' ?ws \<noteq> []\<close> show ?thesis by (rule drop_back_none)
  qed simp
  then show ?thesis by (simp add: normalize_schema_type_def normalize_type_loop_words)
qed

subsection \<open>Table checks as multisets\<close>

text \<open>What \<open>same_check\<close> compares.\<close>

definition check_key :: "database_check \<Rightarrow> string option \<times> string" where
  "check_key c = (ck_name c, normalize_check_expression (ck_expression c))"

lemma same_check_key: "same_check e a \<longleftrightarrow> check_key e = check_key a"
  by (simp add: same_check_def check_key_def)

definition unmatched :: "(database_check \<times> bool) list \<Rightarrow> (string option \<times> string) multiset" where
  "unmatched as = mset (List.map (check_key \<circ> fst) (filter (\<lambda>p. \<not> snd p) as))"

lemma match_check_None: "match_check c as = None \<longleftrightarrow> check_key c \<notin># unmatched as"
  by (induction c as rule: match_check.induct)
    (auto simp: unmatched_def same_check_key split: option.splits)

lemma match_check_Some:
  "match_check c as = Some as' \<Longrightarrow> unmatched as = add_mset (check_key c) (unmatched as')"
  by (induction c as arbitrary: as' rule: match_check.induct)
    (auto simp: unmatched_def same_check_key split: if_splits option.splits)

lemma match_checks_iff: "match_checks es as \<longleftrightarrow> mset (List.map check_key es) \<subseteq># unmatched as"
proof (induction es as rule: match_checks.induct)
  case (2 c cs as)
  show ?case
  proof (cases "match_check c as")
    case None
    then have "check_key c \<notin># unmatched as" by (simp add: match_check_None)
    then show ?thesis using None by (auto dest: mset_subset_eq_insertD)
  next
    case (Some as')
    with 2 show ?thesis by (simp add: match_check_Some [OF Some])
  qed
qed simp

theorem same_checks_mset:
  "same_checks es as \<longleftrightarrow> mset (List.map check_key es) = mset (List.map check_key as)"
proof -
  have un: "unmatched (List.map (\<lambda>a. (a, False)) as) = mset (List.map check_key as)"
    by (simp add: unmatched_def comp_def)
  show ?thesis
  proof (cases "length es = length as")
    case True
    then have "size (mset (List.map check_key es)) = size (mset (List.map check_key as))" by simp
    then have "mset (List.map check_key es) \<subseteq># mset (List.map check_key as) \<longleftrightarrow>
        mset (List.map check_key es) = mset (List.map check_key as)"
      by (auto dest: mset_subset_size simp: subset_mset.le_less)
    with True show ?thesis by (simp add: same_checks_def match_checks_iff un)
  next
    case False
    then show ?thesis by (auto simp: same_checks_def dest: arg_cong [of _ _ size])
  qed
qed

subsection \<open>The tables a diff looks at\<close>

definition find_table :: "database_schema \<Rightarrow> string \<Rightarrow> database_table option" where
  "find_table ac n = List.find (\<lambda>t. tb_name t = n) (ds_tables ac)"

lemma alookup_actual_tables:
  "alookup (actual_tables ts m) n =
     (case alookup m n of Some t \<Rightarrow> Some t | None \<Rightarrow> List.find (\<lambda>t. tb_name t = n) ts)"
  by (induction ts m rule: actual_tables.induct) (auto split: option.splits)

lemma actual_tables_find [simp]: "alookup (actual_tables (ds_tables ac) []) n = find_table ac n"
  by (simp add: alookup_actual_tables find_table_def)

lemma find_name_Some: "List.find (\<lambda>x. f x = n) xs = Some x \<Longrightarrow> x \<in> set xs \<and> f x = n"
  by (auto simp: find_Some_iff)

lemma find_name_None: "List.find (\<lambda>x. f x = n) xs = None \<longleftrightarrow> n \<notin> f ` set xs"
  by (auto simp: find_None_iff)

lemma find_name_distinct: "distinct (List.map f xs) \<Longrightarrow> x \<in> set xs \<Longrightarrow> List.find (\<lambda>y. f y = f x) xs = Some x"
  by (induction xs) (auto simp: rev_image_eqI)

subsection \<open>When a diff is silent\<close>

text \<open>Two columns that differ in nothing \<open>diff_column\<close> compares.\<close>

definition column_matches :: "database_column \<Rightarrow> database_column \<Rightarrow> bool" where
  "column_matches e a \<longleftrightarrow>
     normalize_schema_type (col_type e) = normalize_schema_type (col_type a) \<and>
     col_not_null e = col_not_null a \<and> col_unique e = col_unique a \<and> col_unique_name e = col_unique_name a \<and>
     normalize_schema_default (col_default e) = normalize_schema_default (col_default a) \<and>
     col_auto_increment e = col_auto_increment a \<and>
     normalize_schema_default (col_check e) = normalize_schema_default (col_check a) \<and>
     same_reference (col_references e) (col_references a)"

lemma cd_any_diff [simp]: "cd_any (diff_column e a) \<longleftrightarrow> \<not> column_matches e a"
  by (auto simp: cd_any_def diff_column_def column_matches_def normalize_optional_check_expression_def)

lemma same_index_iff: "same_index e a \<longleftrightarrow>
    ix_unique e = ix_unique a \<and> ix_columns e = ix_columns a \<and> ix_where e = ix_where a"
  by (auto simp: same_index_def list_all2_eq [symmetric] list.rel_eq)

definition indexes_match :: "database_table \<Rightarrow> database_table \<Rightarrow> bool" where
  "indexes_match e a \<longleftrightarrow>
     (\<forall>i \<in> set (tb_indexes e). \<exists>ai. find_index a (ix_name i) = Some ai \<and>
        ix_unique i = ix_unique ai \<and> ix_columns i = ix_columns ai \<and> ix_where i = ix_where ai) \<and>
     ix_name ` set (tb_indexes a) \<subseteq> ix_name ` set (tb_indexes e)"

definition columns_match ::
  "(database_column \<Rightarrow> database_column \<Rightarrow> bool) \<Rightarrow> database_table \<Rightarrow> database_table \<Rightarrow> bool" where
  "columns_match P e a \<longleftrightarrow>
     (\<forall>c \<in> set (tb_columns e). \<exists>ac. find_column a (col_name c) = Some ac \<and> P c ac) \<and>
     col_name ` set (tb_columns a) \<subseteq> col_name ` set (tb_columns e)"

definition sqlite_table_matches :: "database_table \<Rightarrow> database_table \<Rightarrow> bool" where
  "sqlite_table_matches e a \<longleftrightarrow> columns_match column_matches e a \<and>
     mset (List.map check_key (tb_checks e)) = mset (List.map check_key (tb_checks a)) \<and> indexes_match e a"

definition schemas_match ::
  "(database_table \<Rightarrow> database_table \<Rightarrow> bool) \<Rightarrow> expected_schema \<Rightarrow> database_schema \<Rightarrow> bool" where
  "schemas_match P ex ac \<longleftrightarrow>
     (\<forall>w \<in> set (es_tables ex). \<exists>a. find_table ac (tb_name (et_table w)) = Some a \<and> P (et_table w) a) \<and>
     tb_name ` set (ds_tables ac) \<subseteq> (tb_name \<circ> et_table) ` set (es_tables ex)"

lemma push_change_not_silent [simp]: "\<not> plan_silent (push_change k t descr ss ok)"
  by (simp add: push_change_def)

lemma actual_index_silent [simp]:
  "plan_silent (actual_index_change e d opt i) \<longleftrightarrow> ix_name i \<in> ix_name ` set (tb_indexes e)"
  by (auto simp: actual_index_change_def find_index_def find_name_None)

lemma sqlite_index_silent [simp]:
  "plan_silent (sqlite_expected_index e a d i) \<longleftrightarrow>
     (\<exists>ai. find_index a (ix_name i) = Some ai \<and> same_index i ai)"
  by (auto simp: sqlite_expected_index_def create_index_change_def split: option.splits)

lemma postgres_index_silent [simp]:
  "plan_silent (postgres_expected_index e a d i) \<longleftrightarrow>
     (\<exists>ai. find_index a (ix_name i) = Some ai \<and> same_index i ai)"
  by (auto simp: postgres_expected_index_def create_index_change_def split: option.splits)

lemma sqlite_column_silent [simp]:
  "plan_silent (sqlite_expected_column e a d c) \<longleftrightarrow>
     (\<exists>ac. find_column a (col_name c) = Some ac \<and> column_matches c ac)"
  by (auto simp: sqlite_expected_column_def split: option.splits)

lemma sqlite_actual_column_silent [simp]:
  "plan_silent (sqlite_actual_column e c) \<longleftrightarrow> col_name c \<in> col_name ` set (tb_columns e)"
  by (auto simp: sqlite_actual_column_def find_column_def find_name_None)

lemma postgres_actual_column_silent [simp]:
  "plan_silent (postgres_actual_column e d opt c) \<longleftrightarrow> col_name c \<in> col_name ` set (tb_columns e)"
  by (auto simp: postgres_actual_column_def find_column_def find_name_None)

lemma sqlite_table_silent: "plan_silent (diff_sqlite_table e a d opt) \<longleftrightarrow> sqlite_table_matches e a"
  by (auto simp: diff_sqlite_table_def sqlite_table_matches_def columns_match_def indexes_match_def
      same_checks_mset same_index_iff ball_Un)

text \<open>The diff of two schemas is silent when the tables' diffs are.\<close>

lemma diff_schema_silent:
  "plan_silent (diff_schema ex ac d opt) \<longleftrightarrow>
     schemas_match (\<lambda>e a. plan_silent (diff_existing_table e a d opt)) ex ac"
proof -
  have w: "plan_silent (diff_wanted_table (actual_tables (ds_tables ac) []) d opt w) \<longleftrightarrow>
      (\<exists>a. find_table ac (tb_name (et_table w)) = Some a \<and> plan_silent (diff_existing_table (et_table w) a d opt))" for w
    by (auto simp: diff_wanted_table_def split: option.splits)
  have u: "plan_silent (diff_unwanted_table ex d opt a) \<longleftrightarrow> tb_name a \<in> (tb_name \<circ> et_table) ` set (es_tables ex)" for a
    by (auto simp: diff_unwanted_table_def list_ex_iff image_iff) metis+
  show ?thesis
    by (auto simp: diff_schema_def schemas_match_def w u ball_Un simp del: comp_apply)
qed

subsection \<open>PostgreSQL\<close>

definition postgres_reference_matches ::
  "database_table \<Rightarrow> database_column \<Rightarrow> database_column \<Rightarrow> bool" where
  "postgres_reference_matches t e a \<longleftrightarrow>
     (case (col_references e, col_references a) of
        (Some re, Some ra) \<Rightarrow> same_reference_definition re ra \<and>
          postgres_column_constraint_name t e ''fkey'' (fk_name re) =
          postgres_column_constraint_name t a ''fkey'' (fk_name ra)
      | _ \<Rightarrow> col_references e = None \<and> col_references a = None)"

text \<open>On PostgreSQL a name that is not given is the one the server would choose.\<close>

definition postgres_column_matches :: "database_table \<Rightarrow> database_column \<Rightarrow> database_column \<Rightarrow> bool" where
  "postgres_column_matches t e a \<longleftrightarrow>
     normalize_schema_type (col_type e) = normalize_schema_type (col_type a) \<and>
     col_not_null e = col_not_null a \<and> col_unique e = col_unique a \<and>
     (col_unique e \<longrightarrow> postgres_column_constraint_name t e ''key'' (col_unique_name e) =
        postgres_column_constraint_name t a ''key'' (col_unique_name a)) \<and>
     normalize_schema_default (col_default e) = normalize_schema_default (col_default a) \<and>
     col_auto_increment e = col_auto_increment a \<and>
     normalize_schema_default (col_check e) = normalize_schema_default (col_check a) \<and>
     postgres_reference_matches t e a"

lemma postgres_scalar_some:
  "cd_postgres_scalar_mutation df \<Longrightarrow> render_postgres_scalar_alterations t e df d \<noteq> []"
  by (auto simp: cd_postgres_scalar_mutation_def render_postgres_scalar_alterations_def Let_def)

lemma postgres_name_cong: "col_name e = col_name a \<Longrightarrow>
    postgres_column_constraint_name t e x n = postgres_column_constraint_name t a x n"
  by (cases n) (simp_all add: postgres_column_constraint_name_def)

lemma postgres_unique_silent:
  assumes "col_name e = col_name a"
  shows "plan_silent (diff_postgres_unique_constraint t e a (diff_column e a) d opt) \<longleftrightarrow>
       col_unique e = col_unique a \<and> (col_unique e \<longrightarrow>
         postgres_column_constraint_name t e ''key'' (col_unique_name e) =
         postgres_column_constraint_name t a ''key'' (col_unique_name a))"
  using postgres_name_cong [OF assms, of t]
  by (auto simp: diff_postgres_unique_constraint_def diff_column_def Let_def)

lemma postgres_check_silent:
  "plan_silent (diff_postgres_check_constraint t e a (diff_column e a) d opt) \<longleftrightarrow>
     normalize_schema_default (col_check e) = normalize_schema_default (col_check a)"
  by (auto simp: diff_postgres_check_constraint_def diff_column_def Let_def normalize_optional_check_expression_def
      split: option.splits)

lemma same_reference_SomeSome: "same_reference (Some e) (Some a) \<longleftrightarrow> fk_name e = fk_name a \<and> same_reference_definition e a"
  by (auto simp: same_reference_def same_reference_definition_def)

lemma postgres_reference_silent:
  assumes "col_name e = col_name a"
  shows "plan_silent (diff_postgres_reference_constraint t e a (diff_column e a) d opt) \<longleftrightarrow> postgres_reference_matches t e a"
  using postgres_name_cong [OF assms, of t]
  by (cases "col_references e"; cases "col_references a")
    (auto simp: diff_postgres_reference_constraint_def diff_column_def Let_def postgres_reference_matches_def
      same_reference_SomeSome same_reference_def [of None] same_reference_def [of _ None])

lemma postgres_column_silent:
  "plan_silent (postgres_expected_column e a d opt c) \<longleftrightarrow>
     (\<exists>ac. find_column a (col_name c) = Some ac \<and> postgres_column_matches e c ac)"
proof (cases "find_column a (col_name c)")
  case (Some ac)
  then have name: "col_name c = col_name ac" by (auto simp: find_column_def dest: find_name_Some)
  have scalar: "\<not> cd_postgres_scalar_mutation (diff_column c ac) \<longleftrightarrow>
      normalize_schema_type (col_type c) = normalize_schema_type (col_type ac) \<and> col_not_null c = col_not_null ac \<and>
      normalize_schema_default (col_default c) = normalize_schema_default (col_default ac) \<and>
      col_auto_increment c = col_auto_increment ac"
    by (auto simp: cd_postgres_scalar_mutation_def diff_column_def)
  have "plan_silent (postgres_expected_column e a d opt c) \<longleftrightarrow>
      \<not> cd_postgres_scalar_mutation (diff_column c ac) \<and>
      plan_silent (diff_postgres_unique_constraint e c ac (diff_column c ac) d opt) \<and>
      plan_silent (diff_postgres_check_constraint e c ac (diff_column c ac) d opt) \<and>
      plan_silent (diff_postgres_reference_constraint e c ac (diff_column c ac) d opt)"
    using Some postgres_scalar_some [of "diff_column c ac" e c d]
    by (simp add: postgres_expected_column_def Let_def)
  then show ?thesis using Some name
    by (auto simp: scalar postgres_unique_silent postgres_check_silent postgres_reference_silent postgres_column_matches_def)
qed (simp add: postgres_expected_column_def)

lemma postgres_primary_key_silent:
  "plan_silent (diff_postgres_primary_key e a d opt) \<longleftrightarrow> tb_primary_key e = tb_primary_key a"
  by (auto simp: diff_postgres_primary_key_def Let_def)

text \<open>
  Expected and actual table checks that need no change: a permutation of the actual ones that agrees
  in the expressions and, where an expected check has a name, in the name.
\<close>

definition check_agrees :: "database_table \<Rightarrow> database_check \<Rightarrow> database_check \<Rightarrow> bool" where
  "check_agrees a w c \<longleftrightarrow>
     normalize_check_expression (ck_expression w) = normalize_check_expression (ck_expression c) \<and>
     (ck_name w = None \<or> ck_name w = Some (postgres_table_check_constraint_name a c))"

definition postgres_checks_match :: "database_table \<Rightarrow> database_table \<Rightarrow> bool" where
  "postgres_checks_match e a \<longleftrightarrow>
     (\<exists>cs. mset cs = mset (tb_checks a) \<and> list_all2 (check_agrees a) (tb_checks e) cs)"

definition free_checks :: "database_check list \<Rightarrow> bool list \<Rightarrow> database_check multiset" where
  "free_checks cs ms = mset (List.map fst (filter (\<lambda>p. \<not> snd p) (zip cs ms)))"

lemma free_checks_simps [simp]:
  "free_checks [] ms = {#}"
  "free_checks (c # cs) (m # ms) = (if m then free_checks cs ms else add_mset c (free_checks cs ms))"
  by (simp_all add: free_checks_def)

lemma free_checks_start: "free_checks cs (replicate (length cs) False) = mset cs"
  by (induction cs) auto

lemma free_checks_mark:
  "length ms = length cs \<Longrightarrow> i < length cs \<Longrightarrow> \<not> ms ! i \<Longrightarrow>
     free_checks cs ms = add_mset (cs ! i) (free_checks cs (ms[i := True]))"
proof (induction cs arbitrary: ms i)
  case (Cons c cs)
  then obtain m ms' where "ms = m # ms'" by (cases ms) auto
  with Cons show ?case by (cases i) auto
qed simp

text \<open>The two indices \<open>scan_checks\<close> answers point at free checks of the same name or expression.\<close>

definition se_ok :: "database_check \<Rightarrow> database_check list \<Rightarrow> bool list \<Rightarrow> nat \<Rightarrow> bool" where
  "se_ok w cs ms i \<longleftrightarrow> i < length cs \<and> \<not> ms ! i \<and>
     normalize_check_expression (ck_expression (cs ! i)) = normalize_check_expression (ck_expression w)"

lemma scan_checks_sound:
  assumes "scan_checks w (length pre) cs ms se = (sn, se')" and "length ms = length cs"
    and "length pms = length pre" and "\<And>i. se = Some i \<Longrightarrow> se_ok w (pre @ cs) (pms @ ms) i"
  shows "\<And>i. sn = Some i \<Longrightarrow> i < length (pre @ cs) \<and> \<not> (pms @ ms) ! i \<and>
           ck_name w \<noteq> None \<and> ck_name ((pre @ cs) ! i) = ck_name w"
    and "\<And>i. se' = Some i \<Longrightarrow> se_ok w (pre @ cs) (pms @ ms) i"
proof -
  have "(\<forall>i. sn = Some i \<longrightarrow> i < length (pre @ cs) \<and> \<not> (pms @ ms) ! i \<and>
           ck_name w \<noteq> None \<and> ck_name ((pre @ cs) ! i) = ck_name w) \<and>
        (\<forall>i. se' = Some i \<longrightarrow> se_ok w (pre @ cs) (pms @ ms) i)"
    using assms
  proof (induction cs arbitrary: pre pms ms se)
    case Nil
    then show ?case by auto
  next
    case (Cons c cs)
    then obtain m ms' where ms: "ms = m # ms'" by (cases ms) auto
    note IH = Cons.IH [where pre = "pre @ [c]" and pms = "pms @ [m]" and ms = ms', simplified append_assoc append_Cons append_Nil]
    show ?case
    proof (cases m)
      case True
      with Cons.prems show ?thesis unfolding ms by (intro IH [where se = se]) auto
    next
      case m: False
      show ?thesis
      proof (cases "ck_name w \<noteq> None \<and> ck_name c = ck_name w")
        case True
        with Cons.prems m have "sn = Some (length pre)" "se' = se" by (simp_all add: ms)
        with True m Cons.prems(2-4) show ?thesis by (auto simp: ms nth_append)
      next
        case False
        let ?se = "if se = None \<and> normalize_check_expression (ck_expression c) = normalize_check_expression (ck_expression w)
          then Some (length pre) else se"
        have "se_ok w (pre @ c # cs) (pms @ m # ms') i" if "?se = Some i" for i
          using that Cons.prems(3,4) m by (auto simp: ms se_ok_def nth_append split: if_splits)
        with m False Cons.prems show ?thesis
          unfolding ms by (intro IH [where se = ?se]) auto
      qed
    qed
  qed
  then show "\<And>i. sn = Some i \<Longrightarrow> i < length (pre @ cs) \<and> \<not> (pms @ ms) ! i \<and>
           ck_name w \<noteq> None \<and> ck_name ((pre @ cs) ! i) = ck_name w"
    and "\<And>i. se' = Some i \<Longrightarrow> se_ok w (pre @ cs) (pms @ ms) i" by blast+
qed

lemmas scan_checks_start = scan_checks_sound [where pre = "[]" and pms = "[]" and se = None, simplified]

lemma expected_check_step_silent:
  assumes "expected_check_step e a d w ms = (p, ms')" and "plan_silent p" and "length ms = length (tb_checks a)"
  shows "length ms' = length (tb_checks a) \<and>
    (\<exists>c. check_agrees a w c \<and> free_checks (tb_checks a) ms = add_mset c (free_checks (tb_checks a) ms'))"
proof -
  obtain sn se where scan: "scan_checks w 0 (tb_checks a) ms None = (sn, se)" by fastforce
  note sound = scan_checks_start [OF scan assms(3)]
  show ?thesis
  proof (cases sn)
    case (Some i)
    with sound(1) have i: "i < length (tb_checks a)" "\<not> ms ! i" "ck_name w \<noteq> None"
      "ck_name (tb_checks a ! i) = ck_name w" by auto
    moreover have "check_agrees a w (tb_checks a ! i)" "ms' = ms[i := True]"
      using assms(1,2) scan Some i
      by (auto simp: expected_check_step_def Let_def check_agrees_def postgres_table_check_constraint_name_def split: if_splits)
    ultimately show ?thesis using assms(3) by (auto intro!: free_checks_mark)
  next
    case None
    show ?thesis
    proof (cases se)
      case (Some i)
      with sound(2) have i: "i < length (tb_checks a)" "\<not> ms ! i"
        "normalize_check_expression (ck_expression (tb_checks a ! i)) = normalize_check_expression (ck_expression w)"
        by (auto simp: se_ok_def)
      moreover have "check_agrees a w (tb_checks a ! i)" "ms' = ms[i := True]"
        using assms(1,2) scan None Some i
        by (auto simp: expected_check_step_def Let_def check_agrees_def split: if_splits option.splits)
      ultimately show ?thesis using assms(3) by (auto intro!: free_checks_mark)
    next
      case se: None
      with assms(1,2) scan None show ?thesis by (auto simp: expected_check_step_def)
    qed
  qed
qed

lemma expected_checks_loop_silent:
  assumes "expected_checks_loop e a d ws ms = (ps, ms')" and "\<forall>p \<in> set ps. plan_silent p"
    and "length ms = length (tb_checks a)"
  shows "length ms' = length (tb_checks a) \<and>
    (\<exists>cs. list_all2 (check_agrees a) ws cs \<and>
       free_checks (tb_checks a) ms = mset cs + free_checks (tb_checks a) ms')"
  using assms
proof (induction ws arbitrary: ms ps)
  case (Cons w ws)
  obtain p ms1 where step: "expected_check_step e a d w ms = (p, ms1)" by fastforce
  obtain ps1 where loop: "expected_checks_loop e a d ws ms1 = (ps1, ms')" and ps: "ps = p # ps1"
    using Cons.prems(1) step by (auto split: prod.splits)
  from expected_check_step_silent [OF step] Cons.prems(2,3) ps
  obtain c where c: "check_agrees a w c" "length ms1 = length (tb_checks a)"
    "free_checks (tb_checks a) ms = add_mset c (free_checks (tb_checks a) ms1)" by auto
  from Cons.IH [OF loop] Cons.prems(2) ps c(2) obtain cs where "length ms' = length (tb_checks a)"
    "list_all2 (check_agrees a) ws cs" "free_checks (tb_checks a) ms1 = mset cs + free_checks (tb_checks a) ms'" by auto
  with c show ?case by (auto intro!: exI [of _ "c # cs"])
qed auto

lemma postgres_checks_silent:
  assumes "plan_silent (diff_postgres_table_checks e a d opt)"
  shows "postgres_checks_match e a"
proof -
  obtain ps ms where loop: "expected_checks_loop e a d (tb_checks e) (replicate (length (tb_checks a)) False) = (ps, ms)"
    by fastforce
  with assms have ps: "\<forall>p \<in> set ps. plan_silent p"
    and drops: "\<forall>cm \<in> set (zip (tb_checks a) ms). plan_silent (drop_check_change e a d opt cm)"
    by (auto simp: diff_postgres_table_checks_def)
  from drops have "filter (\<lambda>p. \<not> snd p) (zip (tb_checks a) ms) = []"
    by (auto simp: drop_check_change_def Let_def filter_empty_conv split: if_splits)
  then have "free_checks (tb_checks a) ms = {#}" by (simp add: free_checks_def)
  with expected_checks_loop_silent [OF loop ps] show ?thesis
    by (auto simp: postgres_checks_match_def free_checks_start)
qed

lemma list_all2_agrees_exprs:
  "list_all2 (check_agrees a) ws cs \<Longrightarrow>
     List.map (\<lambda>c. normalize_check_expression (ck_expression c)) ws =
     List.map (\<lambda>c. normalize_check_expression (ck_expression c)) cs"
  by (induction rule: list_all2_induct) (auto simp: check_agrees_def)

definition postgres_table_matches :: "database_table \<Rightarrow> database_table \<Rightarrow> bool" where
  "postgres_table_matches e a \<longleftrightarrow> columns_match (postgres_column_matches e) e a \<and>
     tb_primary_key e = tb_primary_key a \<and> postgres_checks_match e a \<and> indexes_match e a"

lemma postgres_table_silent:
  "plan_silent (diff_postgres_table e a d opt) \<longleftrightarrow>
     columns_match (postgres_column_matches e) e a \<and> tb_primary_key e = tb_primary_key a \<and>
     plan_silent (diff_postgres_table_checks e a d opt) \<and> indexes_match e a"
  by (auto simp: diff_postgres_table_def columns_match_def indexes_match_def same_index_iff ball_Un
      postgres_column_silent postgres_primary_key_silent)

lemma postgres_table_sound: "plan_silent (diff_postgres_table e a d opt) \<Longrightarrow> postgres_table_matches e a"
  by (auto simp: postgres_table_silent postgres_table_matches_def intro: postgres_checks_silent)

lemma schemas_match_mono:
  "schemas_match P ex ac \<Longrightarrow> (\<And>e a. P e a \<Longrightarrow> Q e a) \<Longrightarrow> schemas_match Q ex ac"
  by (fastforce simp: schemas_match_def)

subsection \<open>A database that is what is expected\<close>

lemma scan_checks_skip:
  "scan_checks w i (pre @ cs) (replicate (length pre) True @ ms) se = scan_checks w (i + length pre) cs ms se"
  by (induction pre arbitrary: i) auto

lemma scan_checks_unnamed:
  "ck_name w = None \<Longrightarrow> scan_checks w i cs ms (Some j) = (None, Some j)"
  by (induction w i cs ms "Some j" rule: scan_checks.induct) auto

lemma expected_check_step_self:
  assumes "tb_checks a = pre @ w # post"
  shows "expected_check_step e a d w (replicate (length pre) True @ replicate (Suc (length post)) False) =
    (empty_plan, replicate (Suc (length pre)) True @ replicate (length post) False)"
proof -
  have mark: "(replicate (length pre) True @ replicate (Suc (length post)) False)[length pre := True] =
      replicate (Suc (length pre)) True @ replicate (length post) False"
    by (simp add: list_update_append replicate_app_Cons_same)
  have scan: "scan_checks w 0 (tb_checks a) (replicate (length pre) True @ replicate (Suc (length post)) False) None =
      (if ck_name w = None then (None, Some (length pre)) else (Some (length pre), None))"
    unfolding assms by (simp add: scan_checks_skip scan_checks_unnamed)
  have at: "tb_checks a ! length pre = w" by (simp add: assms)
  show ?thesis
    by (cases "ck_name w") (simp_all add: expected_check_step_def scan at mark Let_def del: replicate_Suc)
qed

lemma expected_checks_loop_self:
  "tb_checks a = pre @ ws \<Longrightarrow>
     expected_checks_loop e a d ws (replicate (length pre) True @ replicate (length ws) False) =
       (replicate (length ws) empty_plan, replicate (length pre + length ws) True)"
proof (induction ws arbitrary: pre)
  case (Cons w ws)
  from Cons.IH [of "pre @ [w]"] Cons.prems
  have "expected_checks_loop e a d ws (replicate (Suc (length pre)) True @ replicate (length ws) False) =
      (replicate (length ws) empty_plan, replicate (Suc (length pre) + length ws) True)" by simp
  with expected_check_step_self [OF Cons.prems, of e d] show ?case
    by (simp del: replicate_Suc) simp
qed simp

lemma postgres_checks_self: "tb_checks e = tb_checks a \<Longrightarrow> plan_silent (diff_postgres_table_checks e a d opt)"
  using expected_checks_loop_self [of a "[]" "tb_checks a" e d]
  by (auto simp: diff_postgres_table_checks_def drop_check_change_def set_zip)

lemma same_reference_refl [simp]: "same_reference r r"
  by (cases r) (simp_all add: same_reference_def)

lemma column_matches_refl [simp]: "column_matches c c"
  by (simp add: column_matches_def)

lemma postgres_column_matches_refl [simp]: "postgres_column_matches t c c"
  by (cases "col_references c")
    (simp_all add: postgres_column_matches_def postgres_reference_matches_def same_reference_definition_def)

text \<open>Tables, columns and indexes are found by their names.\<close>

definition table_names_ok :: "database_table \<Rightarrow> bool" where
  "table_names_ok t \<longleftrightarrow> distinct (List.map col_name (tb_columns t)) \<and> distinct (List.map ix_name (tb_indexes t))"

lemma columns_match_refl:
  "table_names_ok t \<Longrightarrow> (\<And>c. P c c) \<Longrightarrow> columns_match P t t"
  by (auto simp: columns_match_def table_names_ok_def find_column_def find_name_distinct)

lemma indexes_match_refl: "table_names_ok t \<Longrightarrow> indexes_match t t"
  by (auto simp: indexes_match_def table_names_ok_def find_index_def find_name_distinct)

lemma existing_table_self: "table_names_ok t \<Longrightarrow> plan_silent (diff_existing_table t t d opt)"
  by (auto simp: diff_existing_table_def sqlite_table_silent postgres_table_silent sqlite_table_matches_def
      columns_match_refl indexes_match_refl postgres_checks_self split: dialect_family.splits)

subsection \<open>The changes of a plan\<close>

text \<open>
  What every change of a diff satisfies: an unsafe change carries statements only when the caller
  allows destruction, a change that drops a table, a column or an index is unsafe.
\<close>

definition guarded :: "schema_diff_options \<Rightarrow> schema_change \<Rightarrow> bool" where
  "guarded opt c \<longleftrightarrow>
     (\<not> ch_safe c \<longrightarrow> ch_statements c = [] \<or> df_allow_destructive opt) \<and>
     (ch_kind c \<in> {DropTable, DropColumn, DropIndex} \<longrightarrow> \<not> ch_safe c)"

lemma guarded_push [simp]:
  "plan_all (guarded opt) (push_change k t descr ss ok) \<longleftrightarrow>
     (\<not> ok \<longrightarrow> ss = [] \<or> df_allow_destructive opt) \<and> (k \<in> {DropTable, DropColumn, DropIndex} \<longrightarrow> \<not> ok)"
  by (simp add: push_change_def guarded_def)

lemma if_destructive_empty [simp]: "if_destructive opt ss = [] \<or> df_allow_destructive opt"
  by (simp add: if_destructive_def)

text \<open>The diff of a table neither creates nor drops tables.\<close>

definition in_table :: "schema_diff_options \<Rightarrow> schema_change \<Rightarrow> bool" where
  "in_table opt c \<longleftrightarrow> guarded opt c \<and> ch_kind c \<notin> {CreateTable, DropTable}"

lemma in_table_push [simp]:
  "plan_all (in_table opt) (push_change k t descr ss ok) \<longleftrightarrow>
     k \<notin> {CreateTable, DropTable} \<and>
     (\<not> ok \<longrightarrow> ss = [] \<or> df_allow_destructive opt) \<and> (k \<in> {DropColumn, DropIndex} \<longrightarrow> \<not> ok)"
  by (auto simp: push_change_def guarded_def in_table_def)

lemma guarded_sqlite: "plan_all (in_table opt) (diff_sqlite_table e a d opt)"
  by (auto simp: diff_sqlite_table_def sqlite_expected_column_def sqlite_actual_column_def sqlite_expected_index_def
      actual_index_change_def create_index_change_def split: option.splits)

lemma guarded_expected_checks:
  "expected_checks_loop e a d ws ms = (ps, ms') \<Longrightarrow> p \<in> set ps \<Longrightarrow> plan_all (in_table opt) p"
proof (induction ws arbitrary: ms ps)
  case (Cons w ws)
  have "plan_all (in_table opt) (fst (expected_check_step e a d w ms))"
    by (auto simp: expected_check_step_def Let_def split: prod.splits option.splits)
  with Cons show ?case by (auto split: prod.splits)
qed simp

lemma guarded_postgres_checks: "plan_all (in_table opt) (diff_postgres_table_checks e a d opt)"
  by (auto simp: diff_postgres_table_checks_def drop_check_change_def Let_def
      intro: guarded_expected_checks split: prod.splits)

lemma guarded_postgres_constraints:
  "plan_all (in_table opt) (diff_postgres_unique_constraint t e a df d opt)"
  "plan_all (in_table opt) (diff_postgres_check_constraint t e a df d opt)"
  "plan_all (in_table opt) (diff_postgres_reference_constraint t e a df d opt)"
proof -
  show "plan_all (in_table opt) (diff_postgres_unique_constraint t e a df d opt)"
    by (simp add: diff_postgres_unique_constraint_def Let_def)
  show "plan_all (in_table opt) (diff_postgres_check_constraint t e a df d opt)"
    by (simp add: diff_postgres_check_constraint_def Let_def split: option.split)
  show "plan_all (in_table opt) (diff_postgres_reference_constraint t e a df d opt)"
    by (simp add: diff_postgres_reference_constraint_def Let_def split: option.split)
qed

lemma guarded_postgres_column: "plan_all (in_table opt) (postgres_expected_column e a d opt c)"
  by (simp add: postgres_expected_column_def Let_def guarded_postgres_constraints split: option.split)

lemma guarded_postgres: "plan_all (in_table opt) (diff_postgres_table e a d opt)"
  by (auto simp: diff_postgres_table_def postgres_actual_column_def postgres_expected_index_def
      actual_index_change_def create_index_change_def diff_postgres_primary_key_def Let_def
      guarded_postgres_checks guarded_postgres_column split: option.splits)

lemma in_table_diff: "plan_all (in_table opt) (diff_existing_table e a d opt)"
  by (simp add: diff_existing_table_def guarded_sqlite guarded_postgres split: dialect_family.split)

lemma in_table_guarded: "plan_all (in_table opt) p \<Longrightarrow> plan_all (guarded opt) p"
  by (simp add: plan_all_def in_table_def)

lemma guarded_diff: "plan_all (guarded opt) (diff_schema ex ac d opt)"
  by (auto simp: diff_schema_def diff_wanted_table_def diff_unwanted_table_def
      in_table_guarded [OF in_table_diff] split: option.splits)

definition changes_of_kind :: "schema_change_kind \<Rightarrow> schema_plan \<Rightarrow> schema_change list" where
  "changes_of_kind k p = filter (\<lambda>c. ch_kind c = k) (pl_changes p)"

lemma changes_of_kind_concat: "changes_of_kind k (plan_concat ps) = concat (List.map (changes_of_kind k) ps)"
  by (induction ps) (simp_all add: changes_of_kind_def)

lemma changes_of_kind_table:
  "k \<in> {CreateTable, DropTable} \<Longrightarrow> changes_of_kind k (diff_existing_table e a d opt) = []"
  using in_table_diff [of opt e a d] by (auto simp: changes_of_kind_def plan_all_def in_table_def filter_empty_conv)

lemma created_tables:
  "List.map ch_table (changes_of_kind CreateTable (diff_schema ex ac d opt)) =
     filter (\<lambda>n. find_table ac n = None) (List.map (tb_name \<circ> et_table) (es_tables ex))"
proof -
  have w: "List.map ch_table (changes_of_kind CreateTable (diff_wanted_table (actual_tables (ds_tables ac) []) d opt w)) =
      (if find_table ac (tb_name (et_table w)) = None then [tb_name (et_table w)] else [])" for w
    by (simp add: diff_wanted_table_def changes_of_kind_table split: option.split)
      (simp add: changes_of_kind_def push_change_def)
  have u: "changes_of_kind CreateTable (diff_unwanted_table ex d opt a) = []" for a
    by (simp add: diff_unwanted_table_def changes_of_kind_def push_change_def)
  have ws: "List.map ch_table (concat (List.map (\<lambda>w. changes_of_kind CreateTable
        (diff_wanted_table (actual_tables (ds_tables ac) []) d opt w)) ws)) =
      filter (\<lambda>n. find_table ac n = None) (List.map (tb_name \<circ> et_table) ws)" for ws
    by (induction ws) (simp_all add: w)
  show ?thesis by (simp add: diff_schema_def changes_of_kind_concat comp_def u ws [simplified comp_def])
qed

definition drop_table_change :: "dialect \<Rightarrow> schema_diff_options \<Rightarrow> database_table \<Rightarrow> schema_change" where
  "drop_table_change d opt t =
     \<lparr>ch_kind = DropTable, ch_table = tb_name t, ch_description = ''Drop table '' @ tb_name t,
      ch_statements = if_destructive opt [''DROP TABLE IF EXISTS '' @ d_quote d (tb_name t) @ '';''], ch_safe = False\<rparr>"

lemma dropped_tables:
  "changes_of_kind DropTable (diff_schema ex ac d opt) =
     List.map (drop_table_change d opt)
       (filter (\<lambda>t. tb_name t \<notin> (tb_name \<circ> et_table) ` set (es_tables ex)) (ds_tables ac))"
proof -
  have w: "changes_of_kind DropTable (diff_wanted_table m d opt w) = []" for m w
    by (simp add: diff_wanted_table_def changes_of_kind_table split: option.split)
      (simp add: changes_of_kind_def push_change_def)
  have listed: "list_ex (\<lambda>w. tb_name (et_table w) = tb_name t) (es_tables ex) \<longleftrightarrow>
      tb_name t \<in> (tb_name \<circ> et_table) ` set (es_tables ex)" for t
    by (auto simp: list_ex_iff image_iff) metis+
  have u: "changes_of_kind DropTable (diff_unwanted_table ex d opt t) =
      (if tb_name t \<in> (tb_name \<circ> et_table) ` set (es_tables ex) then [] else [drop_table_change d opt t])" for t
    by (simp add: diff_unwanted_table_def listed changes_of_kind_def push_change_def drop_table_change_def)
  have ts: "concat (List.map (\<lambda>t. changes_of_kind DropTable (diff_unwanted_table ex d opt t)) ts) =
     List.map (drop_table_change d opt)
       (filter (\<lambda>t. tb_name t \<notin> (tb_name \<circ> et_table) ` set (es_tables ex)) ts)" for ts
    by (induction ts) (simp_all add: u)
  show ?thesis by (simp add: diff_schema_def changes_of_kind_concat comp_def w ts [simplified comp_def])
qed

subsection \<open>Execution\<close>

definition run_statement :: "'s executor \<Rightarrow> string \<Rightarrow> ('s, unit) action" where
  "run_statement conn sql = act_bind (conn sql []) (\<lambda>_. act_return ())"

text \<open>The statements an execution sends, in order.\<close>

definition plan_statements :: "synchronize_options \<Rightarrow> schema_plan \<Rightarrow> string list" where
  "plan_statements opt p = (if so_dry_run opt then []
     else filter (\<lambda>sql. sql \<noteq> []) (concat (List.map ch_statements
       (filter (\<lambda>c. ch_safe c \<or> so_allow_destructive opt) (pl_changes p)))))"

lemma act_iter_append: "act_iter f (xs @ ys) = act_bind (act_iter f xs) (\<lambda>_. act_iter f ys)"
  by (induction xs) (auto simp: act_bind_def fun_eq_iff split: prod.splits sum.splits)

lemma act_iter_nested:
  "act_iter (\<lambda>c. act_iter f (g c)) cs = act_iter f (concat (List.map g cs))"
  by (induction cs) (simp_all add: act_iter_append)

lemma execute_statements:
  "act_iter (execute_statement conn) ss = act_iter (run_statement conn) (filter (\<lambda>sql. sql \<noteq> []) ss)"
  by (induction ss) (simp_all add: execute_statement_def run_statement_def)

lemma execute_schema_plan_statements:
  "execute_schema_plan conn p opt = act_iter (run_statement conn) (plan_statements opt p)"
proof -
  let ?g = "\<lambda>c. if ch_safe c \<or> so_allow_destructive opt then ch_statements c else []"
  have step: "(if \<not> ch_safe c \<and> \<not> so_allow_destructive opt then act_return ()
        else act_iter (execute_statement conn) (ch_statements c)) = act_iter (execute_statement conn) (?g c)" for c
    by simp
  have sel: "concat (List.map ?g cs) =
      concat (List.map ch_statements (filter (\<lambda>c. ch_safe c \<or> so_allow_destructive opt) cs))" for cs
    by (induction cs) auto
  show ?thesis
    unfolding execute_schema_plan_def plan_statements_def step act_iter_nested
    unfolding execute_statements sel by simp
qed

lemma act_iter_fails:
  "act_iter f xs s = (Inl e, s') \<Longrightarrow>
     \<exists>done x rest s1. xs = done @ x # rest \<and> act_iter f done s = (Inr (), s1) \<and> f x s1 = (Inl e, s')"
proof (induction xs arbitrary: s)
  case (Cons x xs)
  then consider "f x s = (Inl e, s')" | s1 where "f x s = (Inr (), s1)" "act_iter f xs s1 = (Inl e, s')"
    by (auto simp: result_simps)
  then show ?case
  proof cases
    case 1
    then show ?thesis by (auto intro!: exI [of _ "[]"])
  next
    case 2
    from Cons.IH [OF 2(2)] obtain done' y rest s2 where
      "xs = done' @ y # rest" "act_iter f done' s1 = (Inr (), s2)" "f y s2 = (Inl e, s')" by blast
    with 2(1) show ?thesis by (intro exI [of _ "x # done'"]) (auto simp: act_bind_run)
  qed
qed simp

subsection \<open>The properties\<close>

definition diff_options_of :: "synchronize_options \<Rightarrow> schema_diff_options" where
  "diff_options_of opt = \<lparr>df_allow_destructive = so_allow_destructive opt\<rparr>"

lemma synchronize_schema_run:
  "synchronize_schema conn ex ac d opt =
     act_bind (act_iter (run_statement conn) (plan_statements opt (diff_schema ex ac d (diff_options_of opt))))
       (\<lambda>_. act_return (diff_schema ex ac d (diff_options_of opt)))"
  by (simp add: synchronize_schema_def Let_def execute_schema_plan_statements diff_options_of_def)


definition demo_column :: "string \<Rightarrow> database_column" where
  "demo_column n = \<lparr>col_name = n, col_type = ''TEXT'', col_not_null = False, col_unique = False,
     col_unique_name = None, col_default = None, col_auto_increment = False, col_references = None,
     col_check = None, col_comment = None\<rparr>"

definition demo_table :: "string \<Rightarrow> string list \<Rightarrow> database_table" where
  "demo_table n cs = \<lparr>tb_name = n, tb_columns = List.map demo_column cs, tb_primary_key = [], tb_indexes = [],
     tb_checks = [], tb_comment = None, tb_primary_key_name = None\<rparr>"

definition demo_expected :: "string list \<Rightarrow> expected_schema" where
  "demo_expected cs = \<lparr>es_tables = [\<lparr>et_table = demo_table ''a'' cs, et_create_table_sql = ''CREATE a'',
     et_create_index_sql = []\<rparr>]\<rparr>"

definition demo_database :: database_schema where
  "demo_database = \<lparr>ds_tables = [demo_table ''a'' [''x'', ''y''], demo_table ''b'' [''x'']], ds_views = []\<rparr>"




lemma equal_schema_silent:
  assumes "distinct (List.map tb_name (ds_tables ac))" and "\<forall>t \<in> set (ds_tables ac). table_names_ok t"
    and "ds_tables ac = List.map et_table (es_tables ex)"
  shows "plan_silent (diff_schema ex ac d opt)"
proof -
  have "schemas_match (\<lambda>e a. plan_silent (diff_existing_table e a d opt)) ex ac"
    unfolding schemas_match_def
  proof (intro conjI ballI)
    fix w assume "w \<in> set (es_tables ex)"
    then have "et_table w \<in> set (ds_tables ac)" by (simp add: assms(3))
    with assms(1,2) show "\<exists>a. find_table ac (tb_name (et_table w)) = Some a \<and>
        plan_silent (diff_existing_table (et_table w) a d opt)"
      by (auto simp: find_table_def find_name_distinct existing_table_self)
  qed (auto simp: assms(3))
  then show ?thesis by (simp add: diff_schema_silent)
qed

text \<open>
  C39. On PostgreSQL a silent diff means what it says: every expected table is there with equal columns
  (the constraint names as the server would choose them), primary key, indexes and table checks, and
  there is nothing else. In the other direction a database that is what is expected, with names that
  are unique, gives a silent diff on every dialect: the expected tables are never reported against
  themselves.
\<close>

theorem postgres_diff_silent:
  assumes "d_family d = PostgreSQL"
  shows "(plan_silent (diff_schema ex ac d opt) \<longrightarrow> schemas_match postgres_table_matches ex ac) \<and>
    (distinct (List.map tb_name (ds_tables ac)) \<longrightarrow> (\<forall>t \<in> set (ds_tables ac). table_names_ok t) \<longrightarrow>
     ds_tables ac = List.map et_table (es_tables ex) \<longrightarrow> plan_silent (diff_schema ex ac d opt))"
proof (intro conjI impI)
  have pg: "diff_existing_table e a d opt = diff_postgres_table e a d opt" for e a
    using assms by (simp add: diff_existing_table_def)
  show "schemas_match postgres_table_matches ex ac" if "plan_silent (diff_schema ex ac d opt)"
    using that by (auto simp: diff_schema_silent pg intro: schemas_match_mono postgres_table_sound)
qed (rule equal_schema_silent)

theorem postgres_diff_silent_witness:
  "plan_silent (diff_schema (demo_expected [''x'', ''y'']) \<lparr>ds_tables = [demo_table ''a'' [''x'', ''y'']], ds_views = []\<rparr>
     postgres_dialect \<lparr>df_allow_destructive = True\<rparr>)"
  using postgres_diff_silent [of postgres_dialect "demo_expected [''x'', ''y'']"
      "\<lparr>ds_tables = [demo_table ''a'' [''x'', ''y'']], ds_views = []\<rparr>" "\<lparr>df_allow_destructive = True\<rparr>"]
  by (simp add: postgres_dialect_def demo_expected_def demo_table_def demo_column_def table_names_ok_def)

text \<open>
  A diff creates exactly the expected tables the database lacks and proposes to drop exactly the
  tables nobody expects, in their order; the proposal carries its statement only when destruction is allowed.
\<close>

theorem diff_creates_and_drops:
  "List.map ch_table (changes_of_kind CreateTable (diff_schema ex ac d opt)) =
     filter (\<lambda>n. find_table ac n = None) (List.map (tb_name \<circ> et_table) (es_tables ex)) \<and>
   changes_of_kind DropTable (diff_schema ex ac d opt) =
     List.map (drop_table_change d opt)
       (filter (\<lambda>t. tb_name t \<notin> (tb_name \<circ> et_table) ` set (es_tables ex)) (ds_tables ac))"
  by (rule conjI [OF created_tables dropped_tables])

text \<open>
  C40. A synchronisation that fails has sent the statements before the failing one and nothing after
  it; what they did stays, there is no transaction around the plan.
\<close>

theorem synchronize_stops_at_first_error:
  assumes "synchronize_schema conn ex ac d opt s = (Inl e, s')"
  shows "\<exists>sent sql rest s1. plan_statements opt (diff_schema ex ac d (diff_options_of opt)) = sent @ sql # rest \<and>
    act_iter (run_statement conn) sent s = (Inr (), s1) \<and> conn sql [] s1 = (Inl e, s')"
proof -
  from assms have "act_iter (run_statement conn) (plan_statements opt (diff_schema ex ac d (diff_options_of opt))) s = (Inl e, s')"
    by (simp add: synchronize_schema_run act_bind_Inl)
  from act_iter_fails [OF this] show ?thesis by (auto simp: run_statement_def result_simps)
qed

definition failing_conn :: "string list executor" where
  "failing_conn sql ps log = (if length log = 1 then (Inl (Backend_failure ''locked''), log)
     else (Inr \<lparr>qr_rows = [], qr_affected = 0, qr_last_id = 0\<rparr>, log @ [sql]))"

theorem synchronize_stops_at_first_error_witness:
  "\<exists>sent sql rest s1.
     plan_statements \<lparr>so_allow_destructive = True, so_dry_run = False\<rparr>
       (diff_schema (demo_expected [''x'', ''z'']) demo_database postgres_dialect
         (diff_options_of \<lparr>so_allow_destructive = True, so_dry_run = False\<rparr>)) = sent @ sql # rest \<and>
     act_iter (run_statement failing_conn) sent [] = (Inr (), s1) \<and>
     failing_conn sql [] s1 = (Inl (Backend_failure ''locked''),
       [''ALTER TABLE '' @ [dquote] @ ''a'' @ [dquote] @ '' ADD '' @ [dquote] @ ''z'' @ [dquote] @ '' TEXT;''])"
proof -
  have run: "synchronize_schema failing_conn (demo_expected [''x'', ''z'']) demo_database postgres_dialect
      \<lparr>so_allow_destructive = True, so_dry_run = False\<rparr> [] = (Inl (Backend_failure ''locked''),
       [''ALTER TABLE '' @ [dquote] @ ''a'' @ [dquote] @ '' ADD '' @ [dquote] @ ''z'' @ [dquote] @ '' TEXT;''])"
    by code_simp
  show ?thesis by (rule synchronize_stops_at_first_error [OF run])
qed

end
