(* ===== verification/Query_Model.thy ===== *)
theory Query_Model
  imports Dialects
begin

section \<open>SQL text and query nodes (include/metal/query/core_types.hpp)\<close>

text \<open>
  A piece of compiled SQL is a list of parts: text, and placeholders by number. The C++ code asks the
  dialect for the text of a placeholder at once; \<open>render\<close> does it at the end, so that the model can
  speak of the placeholders of a query. A \<open>PlaceholderOffsetDialect\<close> is the offset added to the numbers.
  Nodes held by \<open>shared_ptr\<close> are their values (a null pointer is not modelled); the C++ types of the
  entities (\<open>std::type_index\<close>) are numbers.
\<close>

datatype sql_part = Text string | Hole nat

type_synonym sql = "sql_part list"

definition lit :: "string \<Rightarrow> sql" where
  "lit s = [Text s]"

fun holes :: "sql \<Rightarrow> nat list" where
  "holes [] = []"
| "holes (Text s # q) = holes q"
| "holes (Hole i # q) = i # holes q"

lemma holes_append [simp]: "holes (a @ b) = holes a @ holes b"
  by (induction a rule: holes.induct) auto

lemma holes_lit [simp]: "holes (lit s) = []"
  by (simp add: lit_def)

fun render :: "dialect \<Rightarrow> sql \<Rightarrow> string result" where
  "render d [] = Inr []"
| "render d (Text s # q) = rbind (render d q) (\<lambda>t. Inr (s @ t))"
| "render d (Hole i # q) = rbind (d_placeholder d i) (\<lambda>p. rbind (render d q) (\<lambda>t. Inr (p @ t)))"

fun shift_part :: "nat \<Rightarrow> sql_part \<Rightarrow> sql_part" where
  "shift_part k (Text s) = Text s"
| "shift_part k (Hole i) = Hole (k + i)"

text \<open>Compiling against the offset dialect is compiling with the numbers shifted.\<close>

lemma render_offset: "render (offset_placeholders d k) q = render d (List.map (shift_part k) q)"
  by (induction d q rule: render.induct) (simp_all add: offset_placeholders_def)

text \<open>The loops that put a separator between the elements of a vector of SQL texts (\<open>join_sql\<close>).\<close>

fun join_sql :: "string \<Rightarrow> sql list \<Rightarrow> sql" where
  "join_sql sep [] = []"
| "join_sql sep [q] = q"
| "join_sql sep (q # r # qs) = q @ lit sep @ join_sql sep (r # qs)"

lemma holes_join [simp]: "holes (join_sql sep qs) = concat (List.map holes qs)"
  by (induction sep qs rule: join_sql.induct) auto

subsection \<open>Operators\<close>

datatype compare_op = OpEq | OpNe | OpGt | OpGe | OpLt | OpLe
datatype logic_op = OpAnd | OpOr
datatype arithmetic_op = OpAdd | OpSubtract | OpMultiply | OpDivide | OpModulo
datatype aggregate_kind = AggCount | AggSum | AggAvg | AggMin | AggMax | AggStddev | AggVariance
datatype set_operation_kind = SetUnion | SetUnionAll | SetIntersect | SetExcept

fun compare_token :: "compare_op \<Rightarrow> string" where
  "compare_token OpEq = ''=''"
| "compare_token OpNe = ''<>''"
| "compare_token OpGt = ''>''"
| "compare_token OpGe = ''>=''"
| "compare_token OpLt = ''<''"
| "compare_token OpLe = ''<=''"

fun arithmetic_token :: "arithmetic_op \<Rightarrow> string" where
  "arithmetic_token OpAdd = ''+''"
| "arithmetic_token OpSubtract = ''-''"
| "arithmetic_token OpMultiply = ''*''"
| "arithmetic_token OpDivide = ''/''"
| "arithmetic_token OpModulo = ''%''"

fun aggregate_token :: "aggregate_kind \<Rightarrow> string" where
  "aggregate_token AggCount = ''COUNT''"
| "aggregate_token AggSum = ''SUM''"
| "aggregate_token AggAvg = ''AVG''"
| "aggregate_token AggMin = ''MIN''"
| "aggregate_token AggMax = ''MAX''"
| "aggregate_token AggStddev = ''STDDEV''"
| "aggregate_token AggVariance = ''VARIANCE''"

fun set_operation_token :: "set_operation_kind \<Rightarrow> string" where
  "set_operation_token SetUnion = ''UNION''"
| "set_operation_token SetUnionAll = ''UNION ALL''"
| "set_operation_token SetIntersect = ''INTERSECT''"
| "set_operation_token SetExcept = ''EXCEPT''"

subsection \<open>Nodes\<close>

type_synonym type_index = nat

record column_ref =
  cr_owner :: type_index
  cr_column :: string

record aggregate_ref =
  ag_kind :: aggregate_kind
  ag_column :: "column_ref option"
  ag_distinct :: bool

text \<open>
  A compiled query, and the closure that compiles a nested one: it gets the dialect and the number of
  placeholders before it.
\<close>

record compiled_query =
  cq_sql :: sql
  cq_params :: "dbvalue list"

type_synonym subquery = "dialect \<Rightarrow> nat \<Rightarrow> compiled_query result"

text \<open>
  \<open>SFunction\<close>, \<open>SCase\<close> and \<open>SWindow\<close> are \<open>FunctionRef\<close>, \<open>CaseRef\<close> (branches and \<open>ELSE\<close>) and \<open>WindowRef\<close>
  (arguments, \<open>PARTITION BY\<close> and \<open>ORDER BY\<close> with its direction); the last flag of a condition is \<open>negated\<close>.
\<close>

datatype scalar =
    SColumn column_ref
  | SValue dbvalue
  | SArithmetic scalar arithmetic_op scalar
  | SAggregate aggregate_ref
  | SFunction string "scalar list"
  | SCase "(expr \<times> scalar) list" "scalar option"
  | SWindow string "scalar list" "column_ref list" "(column_ref \<times> bool) list"
and expr =
    EComparison scalar compare_op scalar
  | ENullCheck scalar bool
  | ELike scalar scalar bool
  | EBetween scalar scalar scalar bool
  | EInValues scalar "dbvalue list" bool
  | EInSubquery scalar subquery bool
  | EExists subquery bool
  | ELogical logic_op expr expr
  | ENot expr

text \<open>\<open>CompileContext\<close>; its parameters are the state of the actions.\<close>

record compile_context =
  cx_dialect :: dialect
  cx_offset :: nat
  cx_aliases :: "(type_index, string) amap"

text \<open>\<open>params.push_back(value); dialect.placeholder(params.size())\<close>\<close>

definition push_param :: "compile_context \<Rightarrow> dbvalue \<Rightarrow> (dbvalue list, sql) action" where
  "push_param c v ps = (Inr [Hole (cx_offset c + length (ps @ [v]))], ps @ [v])"

end
