(* ===== verification/Query_Functions.thy ===== *)
theory Query_Functions
  imports Query_Model
begin

section \<open>SQL functions (include/metal/query/sqlite_compiler.hpp, postgres_function_compiler.hpp)\<close>

text \<open>
  How a call of a portable function is written in the SQL of each dialect, from its compiled
  arguments: one branch per name, as in \<open>compile_function\<close> and \<open>compile_postgres_function\<close>.
  The order of the arguments in the text matters where placeholders are positional.
\<close>

definition upper_ascii :: "string \<Rightarrow> string" where
  "upper_ascii s = List.map to_upper s"

definition lower_ascii :: "string \<Rightarrow> string" where
  "lower_ascii s = List.map to_lower s"

definition identifier_error :: exn where
  "identifier_error = Invalid_argument ''MetalORM: SQL function name must be a simple identifier''"

definition validate_function_identifier :: "string \<Rightarrow> unit result" where
  "validate_function_identifier name =
     (if name = [] \<or> \<not> (is_alpha (hd name) \<or> hd name = CHR ''_'') then Inl identifier_error
      else if list_all (\<lambda>c. is_alnum c \<or> c = CHR ''_'') name then Inr () else Inl identifier_error)"

definition squote :: char where
  "squote = CHR 0x27"

subsection \<open>Arguments by number\<close>

definition no_arg :: "string \<Rightarrow> sql \<Rightarrow> sql list \<Rightarrow> sql result" where
  "no_arg msg q args = (case args of [] \<Rightarrow> Inr q | _ \<Rightarrow> Inl (Logic_error msg))"

definition one_arg :: "string \<Rightarrow> (sql \<Rightarrow> sql) \<Rightarrow> sql list \<Rightarrow> sql result" where
  "one_arg msg f args = (case args of [a] \<Rightarrow> Inr (f a) | _ \<Rightarrow> Inl (Logic_error msg))"

definition two_args :: "string \<Rightarrow> (sql \<Rightarrow> sql \<Rightarrow> sql) \<Rightarrow> sql list \<Rightarrow> sql result" where
  "two_args msg f args = (case args of [a, b] \<Rightarrow> Inr (f a b) | _ \<Rightarrow> Inl (Logic_error msg))"

definition wrap :: "string \<Rightarrow> sql \<Rightarrow> string \<Rightarrow> sql" where
  "wrap l q r = lit l @ q @ lit r"

definition call_sql :: "string \<Rightarrow> sql list \<Rightarrow> sql" where
  "call_sql f args = wrap (f @ ''('') (join_sql '', '' args) '')''"

subsection \<open>SQLite\<close>

definition date_parts :: "(string \<times> string) list" where
  "date_parts = [(''YEAR'', ''%Y''), (''MONTH'', ''%m''), (''DAY'', ''%d''), (''HOUR'', ''%H''), (''MINUTE'', ''%M''),
     (''SECOND'', ''%S''), (''DAY_OF_WEEK'', ''%w''), (''WEEK_OF_YEAR'', ''%W'')]"

definition extract_parts :: "(string \<times> string) list" where
  "extract_parts = [(''YEAR'', ''%Y''), (''MONTH'', ''%m''), (''DAY'', ''%d''), (''HOUR'', ''%H''), (''MINUTE'', ''%M''),
     (''SECOND'', ''%S''), (''DOW'', ''%w''), (''WEEK'', ''%W'')]"

definition strftime_int :: "string \<Rightarrow> sql \<Rightarrow> sql" where
  "strftime_int format a = wrap (''CAST(strftime('' @ [squote] @ format @ [squote] @ '', '') a '') AS INTEGER)''"

definition sqlite_date_shift :: "string \<Rightarrow> sql list \<Rightarrow> sql result" where
  "sqlite_date_shift name args = two_args ''MetalORM: DATE_ADD/DATE_SUB expects date and interval''
     (\<lambda>a b. wrap ''datetime('' a '', '' @
        wrap ([squote] @ (if starts_with name ''DATE_ADD_'' then ''+'' else ''-'') @ [squote] @ '' || '') b
          ('' || '' @ [squote] @ '' '' @ lower_ascii (drop 9 name) @ [squote] @ '')'')) args"

definition sqlite_date_trunc :: "string \<Rightarrow> sql list \<Rightarrow> sql result" where
  "sqlite_date_trunc name args =
     (if length args \<noteq> 1 then Inl (Logic_error ''MetalORM: DATE_TRUNC expects one date argument'')
      else let part = lower_ascii (drop 11 name) in
        if part \<noteq> ''year'' \<and> part \<noteq> ''month'' \<and> part \<noteq> ''day''
        then Inl (Logic_error ''MetalORM: SQLite DATE_TRUNC supports year, month and day'')
        else if part = ''day'' then Inr (wrap ''date('' (hd args) '')'')
        else Inr (wrap ''date('' (hd args) ('', '' @ [squote] @ ''start of '' @ part @ [squote] @ '')'')))"

definition sqlite_extract :: "string \<Rightarrow> sql list \<Rightarrow> sql result" where
  "sqlite_extract name args =
     (if length args \<noteq> 1 then Inl (Logic_error ''MetalORM: EXTRACT expects one date argument'')
      else case map_of extract_parts (drop 8 name) of
          Some format \<Rightarrow> Inr (strftime_int format (hd args))
        | None \<Rightarrow> Inl (Logic_error ''MetalORM: unsupported SQLite EXTRACT part''))"

definition sqlite_unix_timestamp :: "sql list \<Rightarrow> sql result" where
  "sqlite_unix_timestamp args =
     (case args of
        [] \<Rightarrow> Inr (lit (''CAST(strftime('' @ [squote] @ ''%s'' @ [squote] @ '', '' @ [squote] @ ''now'' @ [squote] @ '') AS INTEGER)''))
      | [a] \<Rightarrow> Inr (strftime_int ''%s'' a)
      | _ \<Rightarrow> Inl (Logic_error ''MetalORM: UNIX_TIMESTAMP expects zero or one argument''))"

definition sqlite_text_function :: "string \<Rightarrow> sql list \<Rightarrow> sql result option" where
  "sqlite_text_function name args =
     (if name = ''CONCAT'' then Some (Inr (if args = [] then lit [squote, squote] else wrap ''('' (join_sql '' || '' args) '')''))
      else if name = ''LEFT'' then Some (two_args ''MetalORM: LEFT expects two arguments''
        (\<lambda>a b. wrap ''substr('' a '', 1, '' @ wrap [] b '')'') args)
      else if name = ''RIGHT'' then Some (two_args ''MetalORM: RIGHT expects two arguments''
        (\<lambda>a b. wrap ''substr('' a '', -('' @ wrap [] b ''))'') args)
      else if name = ''ASCII'' then Some (one_arg ''MetalORM: ASCII expects one argument''
        (\<lambda>a. wrap ''unicode(substr('' a '', 1, 1))'') args)
      else if name = ''CHR'' then Some (one_arg ''MetalORM: CHR expects one argument'' (\<lambda>a. wrap ''char('' a '')'') args)
      else if name = ''BIT_LENGTH'' then Some (one_arg ''MetalORM: BIT_LENGTH expects one argument''
        (\<lambda>a. wrap ''(length(CAST('' a '' AS BLOB)) * 8)'') args)
      else if name = ''OCTET_LENGTH'' then Some (one_arg ''MetalORM: OCTET_LENGTH expects one argument''
        (\<lambda>a. wrap ''length(CAST('' a '' AS BLOB))'') args)
      else if name = ''POSITION'' \<or> name = ''LOCATE''
        then Some (two_args ''MetalORM: POSITION/LOCATE expects two arguments on SQLite''
          (\<lambda>a b. wrap ''instr('' b '', '' @ wrap [] a '')'') args)
      else if name = ''IF_NULL'' then Some (Inr (call_sql ''COALESCE'' args))
      else if name = ''GREATEST'' then Some (Inr (call_sql ''max'' args))
      else if name = ''LEAST'' then Some (Inr (call_sql ''min'' args))
      else None)"

definition sqlite_number_function :: "string \<Rightarrow> sql list \<Rightarrow> sql result option" where
  "sqlite_number_function name args =
     (if name = ''RANDOM'' \<or> name = ''RAND'' then Some (Inr (lit ''(abs(random()) / 9223372036854775808.0)''))
      else if name = ''MOD'' then Some (two_args ''MetalORM: MOD expects two arguments''
        (\<lambda>a b. wrap ''(('' a '') % ('' @ wrap [] b ''))'') args)
      else if name = ''COT'' then Some (one_arg ''MetalORM: COT expects one argument'' (\<lambda>a. wrap ''(1.0 / tan('' a ''))'') args)
      else if name = ''CBRT'' then Some (one_arg ''MetalORM: CBRT expects one argument''
        (\<lambda>a. wrap ''pow('' a '', 1.0 / 3.0)'') args)
      else None)"

definition sqlite_date_function :: "string \<Rightarrow> sql list \<Rightarrow> sql result option" where
  "sqlite_date_function name args =
     (case map_of date_parts name of
        Some format \<Rightarrow> Some (one_arg ''MetalORM: date-part function expects one argument'' (strftime_int format) args)
      | None \<Rightarrow>
     (if name = ''QUARTER'' then Some (one_arg ''MetalORM: QUARTER expects one argument''
        (\<lambda>a. wrap (''((CAST(strftime('' @ [squote] @ ''%m'' @ [squote] @ '', '') a '') AS INTEGER) + 2) / 3)'') args)
      else if name = ''DATE_DIFF'' then Some (two_args ''MetalORM: DATE_DIFF expects two arguments''
        (\<lambda>a b. wrap ''CAST(julianday('' a '') - julianday('' @ wrap [] b '') AS INTEGER)'') args)
      else if name = ''DATE_FORMAT'' then Some (two_args ''MetalORM: DATE_FORMAT expects two arguments''
        (\<lambda>a b. wrap ''strftime('' b '', '' @ wrap [] a '')'') args)
      else if name = ''UNIX_TIMESTAMP'' then Some (sqlite_unix_timestamp args)
      else if name = ''FROM_UNIXTIME'' then Some (one_arg ''MetalORM: FROM_UNIXTIME expects one argument''
        (\<lambda>a. wrap ''datetime('' a ('', '' @ [squote] @ ''unixepoch'' @ [squote] @ '')'')) args)
      else if name = ''END_OF_MONTH'' then Some (one_arg ''MetalORM: END_OF_MONTH expects one argument''
        (\<lambda>a. wrap ''date('' a ('', '' @ [squote] @ ''start of month'' @ [squote] @ '', '' @ [squote] @ ''+1 month'' @ [squote] @
           '', '' @ [squote] @ ''-1 day'' @ [squote] @ '')'')) args)
      else if starts_with name ''DATE_ADD_'' \<or> starts_with name ''DATE_SUB_'' then Some (sqlite_date_shift name args)
      else if starts_with name ''DATE_TRUNC_'' then Some (sqlite_date_trunc name args)
      else if starts_with name ''EXTRACT_'' then Some (sqlite_extract name args)
      else None))"

definition now_functions :: "(string \<times> string) list" where
  "now_functions =
     [(''NOW'', ''datetime('' @ [squote] @ ''now'' @ [squote] @ '', '' @ [squote] @ ''localtime'' @ [squote] @ '')''),
      (''CURRENT_DATE'', ''date('' @ [squote] @ ''now'' @ [squote] @ '', '' @ [squote] @ ''localtime'' @ [squote] @ '')''),
      (''CURRENT_TIME'', ''time('' @ [squote] @ ''now'' @ [squote] @ '', '' @ [squote] @ ''localtime'' @ [squote] @ '')''),
      (''UTC_NOW'', ''datetime('' @ [squote] @ ''now'' @ [squote] @ '')''),
      (''LOCAL_TIME'', ''time('' @ [squote] @ ''now'' @ [squote] @ '', '' @ [squote] @ ''localtime'' @ [squote] @ '')''),
      (''LOCAL_TIMESTAMP'', ''datetime('' @ [squote] @ ''now'' @ [squote] @ '', '' @ [squote] @ ''localtime'' @ [squote] @ '')'')]"

definition sqlite_json_function :: "string \<Rightarrow> sql list \<Rightarrow> sql result option" where
  "sqlite_json_function name args =
     (if name = ''JSON_PATH'' then Some (two_args ''MetalORM: JSON_PATH expects value and path''
        (\<lambda>a b. wrap ''json_extract('' a '', '' @ wrap [] b '')'') args)
      else if name = ''JSON_LENGTH'' then
        Some (if args = [] \<or> length args > 2 then Inl (Logic_error ''MetalORM: JSON_LENGTH expects one or two arguments'')
          else Inr (call_sql ''json_array_length'' args))
      else if name = ''JSON_ARRAYAGG'' then Some (one_arg ''MetalORM: JSON_ARRAYAGG expects one argument''
        (\<lambda>a. wrap ''json_group_array('' a '')'') args)
      else if name = ''TRUNCATE''
        then Some (Inl (Logic_error ''MetalORM: internal TRUNCATE renderer ordering failure''))
      else None)"

text \<open>The names are tested in the order of the source; the groups only name stretches of it.\<close>

definition first_of :: "'a option \<Rightarrow> 'a option \<Rightarrow> 'a option" where
  "first_of x y = (case x of None \<Rightarrow> y | Some _ \<Rightarrow> x)"

definition sqlite_function :: "string \<Rightarrow> sql list \<Rightarrow> sql result" where
  "sqlite_function fname args =
     (let name = upper_ascii fname in
      case first_of (map_option (\<lambda>s. Inr (lit s)) (map_of now_functions name))
        (first_of (sqlite_text_function name args)
        (first_of (sqlite_number_function name args)
        (first_of (sqlite_date_function name args) (sqlite_json_function name args)))) of
        Some r \<Rightarrow> r
      | None \<Rightarrow> Inr (call_sql fname args))"

text \<open>\<open>TRUNCATE\<close> gets the digits compiled twice, each with its own placeholders.\<close>

definition sqlite_truncate :: "sql \<Rightarrow> sql \<Rightarrow> sql \<Rightarrow> sql" where
  "sqlite_truncate v l r =
     wrap ''(CAST(('' v '') * pow(10.0, '' @ wrap [] l '') AS INTEGER) / pow(10.0, '' @ wrap [] r ''))''"

subsection \<open>PostgreSQL\<close>

text \<open>The local \<open>expect\<close>: the number of arguments, or the error that names it.\<close>

definition pg_arity :: "nat \<Rightarrow> string \<Rightarrow> string" where
  "pg_arity n name = ''MetalORM: '' @ name @ '' expects '' @ show_nat n @ '' argument'' @
     (if n = 1 then [] else ''s'') @ '' on PostgreSQL''"

definition pg_none :: "string \<Rightarrow> string \<Rightarrow> sql list \<Rightarrow> sql result" where
  "pg_none name s args = no_arg (pg_arity 0 name) (lit s) args"

definition pg_one :: "string \<Rightarrow> (sql \<Rightarrow> sql) \<Rightarrow> sql list \<Rightarrow> sql result" where
  "pg_one name f args = one_arg (pg_arity 1 name) f args"

definition pg_two :: "string \<Rightarrow> (sql \<Rightarrow> sql \<Rightarrow> sql) \<Rightarrow> sql list \<Rightarrow> sql result" where
  "pg_two name f args = two_args (pg_arity 2 name) f args"

definition pg_now_functions :: "(string \<times> string) list" where
  "pg_now_functions =
     [(''NOW'', ''NOW()''), (''CURRENT_DATE'', ''CURRENT_DATE''), (''CURRENT_TIME'', ''CURRENT_TIME''),
      (''UTC_NOW'', ''(NOW() AT TIME ZONE '' @ [squote] @ ''UTC'' @ [squote] @ '')''),
      (''LOCAL_TIME'', ''LOCALTIME''), (''LOCAL_TIMESTAMP'', ''LOCALTIMESTAMP'')]"

definition pg_extract_parts :: "(string \<times> string) list" where
  "pg_extract_parts = [(''YEAR'', ''YEAR''), (''MONTH'', ''MONTH''), (''DAY'', ''DAY''), (''HOUR'', ''HOUR''),
     (''MINUTE'', ''MINUTE''), (''SECOND'', ''SECOND''), (''DAY_OF_WEEK'', ''DOW''), (''WEEK_OF_YEAR'', ''WEEK''),
     (''QUARTER'', ''QUARTER'')]"

definition pg_group_concat :: "sql list \<Rightarrow> sql result" where
  "pg_group_concat args =
     (case args of
        [a] \<Rightarrow> Inr (wrap ''STRING_AGG('' a ('', '' @ [squote] @ '','' @ [squote] @ '')''))
      | [a, b] \<Rightarrow> Inr (wrap ''STRING_AGG('' a '', '' @ wrap [] b '')'')
      | _ \<Rightarrow> Inl (Logic_error ''MetalORM: GROUP_CONCAT expects one or two arguments on PostgreSQL''))"

definition pg_text_function :: "string \<Rightarrow> sql list \<Rightarrow> sql result option" where
  "pg_text_function name args =
     (if name = ''POSITION'' \<or> name = ''LOCATE'' then
        Some (pg_two name (\<lambda>a b. wrap ''POSITION('' a '' IN '' @ wrap [] b '')'') args)
      else if name = ''INSTR'' then Some (pg_two name (\<lambda>a b. wrap ''STRPOS('' a '', '' @ wrap [] b '')'') args)
      else if name = ''IF_NULL'' then Some (Inr (call_sql ''COALESCE'' args))
      else if name = ''GROUP_CONCAT'' then Some (pg_group_concat args)
      else if name = ''RANDOM'' \<or> name = ''RAND'' then Some (pg_none name ''RANDOM()'' args)
      else if name = ''TRUNCATE'' then Some (pg_two name (\<lambda>a b. wrap ''TRUNC('' a '', '' @ wrap [] b '')'') args)
      else None)"

definition pg_unix_timestamp :: "sql list \<Rightarrow> sql result" where
  "pg_unix_timestamp args =
     (case args of
        [] \<Rightarrow> Inr (lit ''EXTRACT(EPOCH FROM NOW())::BIGINT'')
      | [a] \<Rightarrow> Inr (wrap ''EXTRACT(EPOCH FROM '' a '')::BIGINT'')
      | _ \<Rightarrow> Inl (Logic_error ''MetalORM: UNIX_TIMESTAMP expects zero or one argument on PostgreSQL''))"

definition pg_date_shift :: "string \<Rightarrow> sql list \<Rightarrow> sql result" where
  "pg_date_shift name args = pg_two name
     (\<lambda>a b. wrap ''('' a (if starts_with name ''DATE_ADD_'' then '' + '' else '' - '') @
        wrap ''('' b ('' || '' @ [squote] @ '' '' @ lower_ascii (drop 9 name) @ [squote] @ '')::INTERVAL)'')) args"

definition pg_date_function :: "string \<Rightarrow> sql list \<Rightarrow> sql result option" where
  "pg_date_function name args =
     (case map_of pg_extract_parts name of
        Some part \<Rightarrow> Some (pg_one name (\<lambda>a. wrap (''EXTRACT('' @ part @ '' FROM '') a '')'') args)
      | None \<Rightarrow>
     (if name = ''DATE_DIFF'' then Some (pg_two name (\<lambda>a b. wrap ''('' a ''::DATE - '' @ wrap [] b ''::DATE)'') args)
      else if name = ''DATE_FORMAT'' then Some (pg_two name (\<lambda>a b. wrap ''TO_CHAR('' a '', '' @ wrap [] b '')'') args)
      else if name = ''UNIX_TIMESTAMP'' then Some (pg_unix_timestamp args)
      else if name = ''FROM_UNIXTIME'' then Some (pg_one name (\<lambda>a. wrap ''TO_TIMESTAMP('' a '')'') args)
      else if name = ''END_OF_MONTH'' then Some (pg_one name
        (\<lambda>a. wrap (''(DATE_TRUNC('' @ [squote] @ ''month'' @ [squote] @ '', '') a ('') + INTERVAL '' @ [squote] @ ''1 month'' @
           [squote] @ '' - INTERVAL '' @ [squote] @ ''1 day'' @ [squote] @ '')::DATE'')) args)
      else if starts_with name ''DATE_ADD_'' \<or> starts_with name ''DATE_SUB_'' then Some (pg_date_shift name args)
      else if starts_with name ''DATE_TRUNC_'' then Some (pg_one name
        (\<lambda>a. wrap (''DATE_TRUNC('' @ [squote] @ lower_ascii (drop 11 name) @ [squote] @ '', '') a '')'') args)
      else if starts_with name ''EXTRACT_'' then Some (pg_one name
        (\<lambda>a. wrap (''EXTRACT('' @ drop 8 name @ '' FROM '') a '')'') args)
      else None))"

definition pg_json_function :: "string \<Rightarrow> sql list \<Rightarrow> sql result option" where
  "pg_json_function name args =
     (if name = ''JSON_PATH'' then Some (pg_two name
        (\<lambda>a b. wrap ''(JSONB_PATH_QUERY_FIRST(('' a '')::JSONB, ('' @
           wrap [] b ('')::JSONPATH) #>> '' @ [squote] @ ''{}'' @ [squote] @ '')'')) args)
      else if name = ''JSON_LENGTH'' then Some (pg_one name (\<lambda>a. wrap ''JSONB_ARRAY_LENGTH(('' a '')::JSONB)'') args)
      else if name = ''JSON_ARRAYAGG'' then Some (pg_one name (\<lambda>a. wrap ''JSONB_AGG('' a '')'') args)
      else None)"

definition postgres_function :: "string \<Rightarrow> sql list \<Rightarrow> sql result" where
  "postgres_function fname args =
     (let name = upper_ascii fname in
      case first_of (map_option (\<lambda>s. pg_none name s args) (map_of pg_now_functions name))
        (first_of (pg_text_function name args)
        (first_of (pg_date_function name args) (pg_json_function name args))) of
        Some r \<Rightarrow> r
      | None \<Rightarrow> Inr (call_sql fname args))"

subsection \<open>The placeholders of a call\<close>

text \<open>The placeholders of the arguments appear in the text of the call once each, in their order.\<close>

definition in_order :: "sql list \<Rightarrow> sql result \<Rightarrow> bool" where
  "in_order args r \<longleftrightarrow> (\<forall>q. r = Inr q \<longrightarrow> holes q = concat (List.map holes args))"

definition in_order_opt :: "sql list \<Rightarrow> sql result option \<Rightarrow> bool" where
  "in_order_opt args r \<longleftrightarrow> (\<forall>x. r = Some x \<longrightarrow> in_order args x)"

lemma holes_wrap [simp]: "holes (wrap l q r) = holes q"
  by (simp add: wrap_def)

lemma holes_call [simp]: "holes (call_sql f args) = concat (List.map holes args)"
  by (simp add: call_sql_def)

named_theorems in_order_intros \<open>calls that keep the order of the placeholders\<close>

lemma in_order_Inl [in_order_intros]: "in_order args (Inl e)"
  by (simp add: in_order_def)

lemma in_order_call [in_order_intros]: "in_order args (Inr (call_sql f args))"
  by (simp add: in_order_def)

lemma in_order_no [in_order_intros]: "holes q = [] \<Longrightarrow> in_order args (no_arg m q args)"
  by (auto simp: in_order_def no_arg_def split: list.splits)

lemma in_order_one [in_order_intros]: "(\<And>a. holes (f a) = holes a) \<Longrightarrow> in_order args (one_arg m f args)"
  by (auto simp: in_order_def one_arg_def split: list.splits)

lemma in_order_two [in_order_intros]:
  "(\<And>a b. holes (f a b) = holes a @ holes b) \<Longrightarrow> in_order args (two_args m f args)"
  by (auto simp: in_order_def two_args_def split: list.splits)

lemma in_order_pg [in_order_intros]:
  "in_order args (pg_none n s args)"
  "(\<And>a. holes (f a) = holes a) \<Longrightarrow> in_order args (pg_one n f args)"
  "(\<And>a b. holes (g a b) = holes a @ holes b) \<Longrightarrow> in_order args (pg_two n g args)"
  by (simp_all add: pg_none_def pg_one_def pg_two_def in_order_intros)

lemma in_order_opt_intros [in_order_intros]:
  "in_order_opt args None"
  "in_order args r \<Longrightarrow> in_order_opt args (Some r)"
  "(b \<Longrightarrow> in_order_opt args x) \<Longrightarrow> (\<not> b \<Longrightarrow> in_order_opt args y) \<Longrightarrow> in_order_opt args (if b then x else y)"
  "in_order_opt args u \<Longrightarrow> in_order_opt args v \<Longrightarrow> in_order_opt args (first_of u v)"
  by (auto simp: in_order_opt_def first_of_def split: option.splits)

lemma in_order_result:
  "in_order_opt args u \<Longrightarrow> in_order args (case u of Some r \<Rightarrow> r | None \<Rightarrow> Inr (call_sql f args))"
  by (cases u) (auto simp: in_order_opt_def intro: in_order_intros)

lemma pg_text_in_order: "in_order_opt args (pg_text_function name args)"
proof -
  have "in_order args (pg_group_concat args)"
    by (auto simp: in_order_def pg_group_concat_def split: list.splits)
  then show ?thesis unfolding pg_text_function_def by (intro in_order_intros) simp_all
qed

lemma pg_date_in_order: "in_order_opt args (pg_date_function name args)"
proof -
  have "in_order args (pg_unix_timestamp args)"
    by (auto simp: in_order_def pg_unix_timestamp_def split: list.splits)
  moreover have "in_order args (pg_date_shift name args)"
    unfolding pg_date_shift_def by (intro in_order_intros) simp
  ultimately show ?thesis unfolding pg_date_function_def
    by (cases "map_of pg_extract_parts name"; simp only: option.case) ((intro in_order_intros; simp)+)
qed

lemma pg_json_in_order: "in_order_opt args (pg_json_function name args)"
  unfolding pg_json_function_def by (intro in_order_intros) simp_all

lemma pg_now_in_order: "in_order_opt args (map_option (\<lambda>s. pg_none name s args) t)"
  by (cases t) (simp_all add: in_order_intros)

lemma postgres_function_in_order: "in_order args (postgres_function f args)"
  unfolding postgres_function_def Let_def
  by (intro in_order_result in_order_intros pg_now_in_order pg_text_in_order pg_date_in_order pg_json_in_order)

text \<open>
  On SQLite the functions of the first list swap their two arguments, those of the second write
  no argument at all.
\<close>

definition swapping_functions :: "string list" where
  "swapping_functions = [''POSITION'', ''LOCATE'', ''DATE_FORMAT'']"

definition argless_functions :: "string list" where
  "argless_functions = [''NOW'', ''CURRENT_DATE'', ''CURRENT_TIME'', ''UTC_NOW'', ''LOCAL_TIME'', ''LOCAL_TIMESTAMP'',
     ''RANDOM'', ''RAND'']"

definition positional_call :: "string \<Rightarrow> nat \<Rightarrow> bool" where
  "positional_call f n \<longleftrightarrow>
     upper_ascii f \<notin> set swapping_functions \<and> (upper_ascii f \<in> set argless_functions \<longrightarrow> n = 0)"

lemma in_order_hd: "length args = 1 \<Longrightarrow> in_order args (Inr (wrap l (hd args) r))"
  by (cases args) (auto simp: in_order_def)

lemma sqlite_text_in_order:
  "name \<notin> {''POSITION'', ''LOCATE''} \<Longrightarrow> in_order_opt args (sqlite_text_function name args)"
  unfolding sqlite_text_function_def
  by (intro in_order_intros; simp add: in_order_def)

lemma sqlite_number_in_order:
  "name \<in> {''RANDOM'', ''RAND''} \<longrightarrow> args = [] \<Longrightarrow> in_order_opt args (sqlite_number_function name args)"
  unfolding sqlite_number_function_def
  by (intro in_order_intros; simp add: in_order_def)

lemma sqlite_date_in_order:
  assumes "name \<noteq> ''DATE_FORMAT''"
  shows "in_order_opt args (sqlite_date_function name args)"
proof -
  have u: "in_order args (sqlite_unix_timestamp args)"
    by (auto simp: in_order_def sqlite_unix_timestamp_def strftime_int_def split: list.splits)
  have s: "in_order args (sqlite_date_shift name args)"
    unfolding sqlite_date_shift_def by (intro in_order_intros) simp
  have t: "in_order args (sqlite_date_trunc name args)"
    by (simp add: sqlite_date_trunc_def Let_def in_order_intros in_order_hd)
  have e: "in_order args (sqlite_extract name args)"
    by (simp add: sqlite_extract_def in_order_intros in_order_hd strftime_int_def split: option.split)
  show ?thesis unfolding sqlite_date_function_def
    by (cases "map_of date_parts name"; simp only: option.case)
      ((intro in_order_intros u s t e; simp add: assms strftime_int_def)+)
qed

lemma sqlite_json_in_order: "in_order_opt args (sqlite_json_function name args)"
  unfolding sqlite_json_function_def by (intro in_order_intros) (simp_all add: in_order_def)

lemma sqlite_now_in_order:
  "map_of now_functions name \<noteq> None \<longrightarrow> args = [] \<Longrightarrow>
     in_order_opt args (map_option (\<lambda>s. Inr (lit s)) (map_of now_functions name))"
  by (auto simp: in_order_opt_def in_order_def)

lemma now_functions_argless: "map_of now_functions name \<noteq> None \<Longrightarrow> name \<in> set argless_functions"
  by (auto simp: now_functions_def argless_functions_def split: if_splits)

lemma sqlite_function_in_order:
  assumes "positional_call f (length args)"
  shows "in_order args (sqlite_function f args)"
proof -
  have "map_of now_functions (upper_ascii f) \<noteq> None \<longrightarrow> args = []"
    using assms now_functions_argless by (auto simp: positional_call_def)
  moreover have "upper_ascii f \<notin> {''POSITION'', ''LOCATE''}" "upper_ascii f \<noteq> ''DATE_FORMAT''"
    "upper_ascii f \<in> {''RANDOM'', ''RAND''} \<longrightarrow> args = []"
    using assms by (auto simp: positional_call_def swapping_functions_def argless_functions_def)
  ultimately show ?thesis unfolding sqlite_function_def Let_def
    by (intro in_order_result in_order_intros sqlite_now_in_order sqlite_text_in_order sqlite_number_in_order
        sqlite_date_in_order sqlite_json_in_order)
qed

end
