(* ===== verification/Query_Compiler.thy ===== *)
theory Query_Compiler
  imports Query_Functions
begin

section \<open>Compiling expressions (include/metal/query/sqlite_compiler.hpp)\<close>

text \<open>
  Both dialects share this compiler: a scalar or a condition becomes SQL text, the values it
  holds are pushed to the parameters of the context in the order the code visits them.
\<close>

definition scope_error :: exn where
  "scope_error = Logic_error ''MetalORM: SQL expression references an entity outside the query scope''"

definition alias_for :: "compile_context \<Rightarrow> type_index \<Rightarrow> string result" where
  "alias_for c owner = (case alookup (cx_aliases c) owner of None \<Rightarrow> Inl scope_error | Some a \<Rightarrow> Inr a)"

definition compile_column :: "compile_context \<Rightarrow> column_ref \<Rightarrow> sql result" where
  "compile_column c r = rbind (alias_for c (cr_owner r)) (\<lambda>a.
     Inr (lit (if a = [] then d_quote (cx_dialect c) (cr_column r)
       else d_quote (cx_dialect c) a @ ''.'' @ d_quote (cx_dialect c) (cr_column r))))"

definition compile_aggregate :: "compile_context \<Rightarrow> aggregate_ref \<Rightarrow> sql result" where
  "compile_aggregate c a =
     rbind (case ag_column a of None \<Rightarrow> Inr (lit ''*'') | Some r \<Rightarrow> compile_column c r) (\<lambda>q.
       Inr (wrap (aggregate_token (ag_kind a) @ ''('' @ (if ag_distinct a then ''DISTINCT '' else [])) q '')''))"

definition compile_window_order :: "compile_context \<Rightarrow> column_ref \<times> bool \<Rightarrow> sql result" where
  "compile_window_order c o' = rbind (compile_column c (fst o')) (\<lambda>q. Inr (q @ lit (if snd o' then '' ASC'' else '' DESC'')))"

text \<open>\<open>compile_window\<close> after its arguments.\<close>

definition compile_over :: "compile_context \<Rightarrow> string \<Rightarrow> sql list \<Rightarrow> column_ref list \<Rightarrow> (column_ref \<times> bool) list \<Rightarrow> sql result" where
  "compile_over c name args parts orders =
     rbind (rmap_list (compile_column c) parts) (\<lambda>ps. rbind (rmap_list (compile_window_order c) orders) (\<lambda>os.
       Inr (call_sql name args @ lit '' OVER ('' @
         (if parts \<noteq> [] then lit ''PARTITION BY '' @ join_sql '', '' ps else []) @
         (if orders \<noteq> [] then lit (if parts \<noteq> [] then '' '' else []) @ lit ''ORDER BY '' @ join_sql '', '' os else []) @
         lit '')'')))"

text \<open>The loop of \<open>IN (\<dots>)\<close> over a list of values.\<close>

fun push_params :: "compile_context \<Rightarrow> dbvalue list \<Rightarrow> (dbvalue list, sql list) action" where
  "push_params c [] = act_return []"
| "push_params c (v # vs) = act_bind (push_param c v) (\<lambda>q. act_bind (push_params c vs) (\<lambda>qs. act_return (q # qs)))"

text \<open>A nested query is compiled against the offset dialect, its parameters are appended.\<close>

definition compile_nested :: "compile_context \<Rightarrow> subquery \<Rightarrow> (dbvalue list, sql) action" where
  "compile_nested c sub ps =
     (case sub (cx_dialect c) (cx_offset c + length ps) of
        Inl e \<Rightarrow> (Inl e, ps)
      | Inr q \<Rightarrow> (Inr (cq_sql q), ps @ cq_params q))"

definition infix_sql :: "sql \<Rightarrow> string \<Rightarrow> sql \<Rightarrow> sql" where
  "infix_sql l op r = l @ lit op @ r"

function (sequential) compile_scalar :: "compile_context \<Rightarrow> scalar \<Rightarrow> (dbvalue list, sql) action"
  and compile_expression :: "compile_context \<Rightarrow> expr \<Rightarrow> (dbvalue list, sql) action"
  and compile_scalars :: "compile_context \<Rightarrow> scalar list \<Rightarrow> (dbvalue list, sql list) action"
  and compile_branches :: "compile_context \<Rightarrow> (expr \<times> scalar) list \<Rightarrow> (dbvalue list, sql) action"
  and compile_else :: "compile_context \<Rightarrow> scalar option \<Rightarrow> (dbvalue list, sql) action"
where
  "compile_scalar c (SColumn r) = act_lift (compile_column c r)"
| "compile_scalar c (SValue v) = push_param c v"
| "compile_scalar c (SArithmetic l op r) =
     act_bind (compile_scalar c l) (\<lambda>a. act_bind (compile_scalar c r) (\<lambda>b.
       act_return (lit ''('' @ infix_sql a ('' '' @ arithmetic_token op @ '' '') b @ lit '')'')))"
| "compile_scalar c (SAggregate a) = act_lift (compile_aggregate c a)"
| "compile_scalar c (SFunction f args) =
     act_bind (act_lift (validate_function_identifier f)) (\<lambda>_.
       if d_family (cx_dialect c) = PostgreSQL
       then act_bind (compile_scalars c args) (\<lambda>qs. act_lift (postgres_function f qs))
       else if upper_ascii f = ''TRUNCATE'' then
         (case args of
            [v, digits] \<Rightarrow>
              act_bind (compile_scalar c v) (\<lambda>a. act_bind (compile_scalar c digits) (\<lambda>l.
                act_bind (compile_scalar c digits) (\<lambda>r. act_return (sqlite_truncate a l r))))
          | _ \<Rightarrow> act_throw (Logic_error ''MetalORM: TRUNCATE expects value and digits''))
       else act_bind (compile_scalars c args) (\<lambda>qs. act_lift (sqlite_function f qs)))"
| "compile_scalar c (SCase branches els) =
     (if branches = [] then act_throw (Logic_error ''MetalORM: CASE requires at least one WHEN branch'')
      else act_bind (compile_branches c branches) (\<lambda>b. act_bind (compile_else c els) (\<lambda>e.
        act_return (lit ''CASE'' @ b @ e @ lit '' END''))))"
| "compile_scalar c (SWindow f args parts orders) =
     act_bind (act_lift (validate_function_identifier f)) (\<lambda>_.
       act_bind (compile_scalars c args) (\<lambda>qs. act_lift (compile_over c f qs parts orders)))"
| "compile_scalars c [] = act_return []"
| "compile_scalars c (s # ss) =
     act_bind (compile_scalar c s) (\<lambda>q. act_bind (compile_scalars c ss) (\<lambda>qs. act_return (q # qs)))"
| "compile_branches c [] = act_return []"
| "compile_branches c ((w, t) # bs) =
     act_bind (compile_expression c w) (\<lambda>a. act_bind (compile_scalar c t) (\<lambda>b.
       act_bind (compile_branches c bs) (\<lambda>rest. act_return (lit '' WHEN '' @ infix_sql a '' THEN '' b @ rest))))"
| "compile_else c None = act_return []"
| "compile_else c (Some s) = act_bind (compile_scalar c s) (\<lambda>q. act_return (lit '' ELSE '' @ q))"
| "compile_expression c (EComparison l op r) =
     act_bind (compile_scalar c l) (\<lambda>a. act_bind (compile_scalar c r) (\<lambda>b.
       act_return (infix_sql a ('' '' @ compare_token op @ '' '') b)))"
| "compile_expression c (ENullCheck s neg) =
     act_bind (compile_scalar c s) (\<lambda>q. act_return (q @ lit (if neg then '' IS NOT NULL'' else '' IS NULL'')))"
| "compile_expression c (ELike s p neg) =
     act_bind (compile_scalar c s) (\<lambda>a. act_bind (compile_scalar c p) (\<lambda>b.
       act_return (infix_sql a (if neg then '' NOT LIKE '' else '' LIKE '') b)))"
| "compile_expression c (EBetween s l u neg) =
     act_bind (compile_scalar c s) (\<lambda>a. act_bind (compile_scalar c l) (\<lambda>b. act_bind (compile_scalar c u) (\<lambda>d.
       act_return (infix_sql a (if neg then '' NOT BETWEEN '' else '' BETWEEN '') (infix_sql b '' AND '' d)))))"
| "compile_expression c (EInValues s vs neg) =
     (if vs = [] then act_return (lit (if neg then ''1 = 1'' else ''0 = 1''))
      else act_bind (compile_scalar c s) (\<lambda>a. act_bind (push_params c vs) (\<lambda>qs.
        act_return (a @ wrap (if neg then '' NOT IN ('' else '' IN ('') (join_sql '', '' qs) '')''))))"
| "compile_expression c (EInSubquery s sub neg) =
     act_bind (compile_scalar c s) (\<lambda>a. act_bind (compile_nested c sub) (\<lambda>q.
       act_return (a @ wrap (if neg then '' NOT IN ('' else '' IN ('') q '')'')))"
| "compile_expression c (EExists sub neg) =
     act_bind (compile_nested c sub) (\<lambda>q. act_return (wrap (if neg then ''NOT EXISTS ('' else ''EXISTS ('') q '')''))"
| "compile_expression c (ELogical op l r) =
     act_bind (compile_expression c l) (\<lambda>a. act_bind (compile_expression c r) (\<lambda>b.
       act_return (lit ''('' @ infix_sql a (case op of OpAnd \<Rightarrow> '' AND '' | OpOr \<Rightarrow> '' OR '') b @ lit '')'')))"
| "compile_expression c (ENot e) = act_bind (compile_expression c e) (\<lambda>q. act_return (wrap ''NOT ('' q '')''))"

  by pat_completeness auto
termination
  by (relation "measure (case_sum (case_sum (\<lambda>(c, x). size x) (\<lambda>(c, x). size x))
     (case_sum (\<lambda>(c, x). size_list size x)
       (case_sum (\<lambda>(c, x). size_list (size_prod size size) x) (\<lambda>(c, x). size_option size x))))") simp_all

subsection \<open>The parameters of the placeholders\<close>

text \<open>
  A compiled piece agrees with the parameters when it only appends to them and its placeholders, read
  from left to right, have the numbers of the parameters it appended. A driver that binds by position
  (SQLite's \<open>?\<close>) then binds every placeholder to the value it was compiled from, and so does
  PostgreSQL's \<open>$n\<close>.
\<close>

definition binds :: "nat \<Rightarrow> dbvalue list \<Rightarrow> nat list \<Rightarrow> dbvalue list \<Rightarrow> bool" where
  "binds k ps hs ps' \<longleftrightarrow> (\<exists>new. ps' = ps @ new) \<and> hs = [Suc (k + length ps) ..< Suc (k + length ps')]"

lemma binds_nil [simp]: "binds k ps [] ps"
  by (simp add: binds_def)

lemma binds_append: "binds k ps hs ps1 \<Longrightarrow> binds k ps1 hs' ps2 \<Longrightarrow> binds k ps (hs @ hs') ps2"
  using upt_add_eq_append [of "Suc (k + length ps)" "Suc (k + length ps1)" "length ps2 - length ps1"]
  by (auto simp: binds_def ac_simps simp del: upt_Suc)

lemma binds_push: "push_param c v ps = (Inr q, ps') \<Longrightarrow> binds (cx_offset c) ps (holes q) ps'"
  by (auto simp: push_param_def binds_def simp del: upt_Suc) simp

lemma binds_pushes:
  "push_params c vs ps = (Inr qs, ps') \<Longrightarrow> binds (cx_offset c) ps (concat (List.map holes qs)) ps'"
proof (induction vs arbitrary: ps qs)
  case (Cons v vs)
  then obtain q s' qs' where "push_param c v ps = (Inr q, s')" "push_params c vs s' = (Inr qs', ps')" "qs = q # qs'"
    by (auto simp: result_simps)
  with Cons.IH show ?case by (auto intro: binds_append [OF binds_push])
qed simp

text \<open>A nested query that is compiled for an offset numbers its placeholders from there.\<close>

definition subquery_ok :: "dialect_family \<Rightarrow> subquery \<Rightarrow> bool" where
  "subquery_ok fam sub \<longleftrightarrow> (\<forall>d k q. d_family d = fam \<longrightarrow> sub d k = Inr q \<longrightarrow>
     holes (cq_sql q) = [Suc k ..< Suc (k + length (cq_params q))])"

lemma binds_nested:
  "subquery_ok (d_family (cx_dialect c)) sub \<Longrightarrow> compile_nested c sub ps = (Inr q, ps') \<Longrightarrow> binds (cx_offset c) ps (holes q) ps'"
  by (auto simp: compile_nested_def subquery_ok_def binds_def add.assoc split: sum.splits simp del: upt_Suc)

text \<open>The calls of an expression keep the order of their arguments, its nested queries are well numbered.\<close>

fun positional_scalar :: "dialect_family \<Rightarrow> scalar \<Rightarrow> bool"
  and positional_expr :: "dialect_family \<Rightarrow> expr \<Rightarrow> bool"
where
  "positional_scalar fam (SArithmetic l op r) \<longleftrightarrow> positional_scalar fam l \<and> positional_scalar fam r"
| "positional_scalar fam (SFunction f args) \<longleftrightarrow>
     (fam = PostgreSQL \<or> positional_call f (length args)) \<and> list_all (positional_scalar fam) args"
| "positional_scalar fam (SCase bs els) \<longleftrightarrow>
     list_all (\<lambda>b. positional_expr fam (fst b) \<and> positional_scalar fam (snd b)) bs \<and>
     (case els of None \<Rightarrow> True | Some s \<Rightarrow> positional_scalar fam s)"
| "positional_scalar fam (SWindow f args ps os) \<longleftrightarrow> list_all (positional_scalar fam) args"
| "positional_scalar fam s \<longleftrightarrow> True"
| "positional_expr fam (EComparison l op r) \<longleftrightarrow> positional_scalar fam l \<and> positional_scalar fam r"
| "positional_expr fam (ENullCheck s n) \<longleftrightarrow> positional_scalar fam s"
| "positional_expr fam (ELike s p n) \<longleftrightarrow> positional_scalar fam s \<and> positional_scalar fam p"
| "positional_expr fam (EBetween s l u n) \<longleftrightarrow> positional_scalar fam s \<and> positional_scalar fam l \<and> positional_scalar fam u"
| "positional_expr fam (EInValues s vs n) \<longleftrightarrow> positional_scalar fam s"
| "positional_expr fam (EInSubquery s sub n) \<longleftrightarrow> positional_scalar fam s \<and> subquery_ok fam sub"
| "positional_expr fam (EExists sub n) \<longleftrightarrow> subquery_ok fam sub"
| "positional_expr fam (ELogical op l r) \<longleftrightarrow> positional_expr fam l \<and> positional_expr fam r"
| "positional_expr fam (ENot e) \<longleftrightarrow> positional_expr fam e"

subsection \<open>Placeholders and parameters agree\<close>

lemma compile_column_holes: "compile_column c r = Inr q \<Longrightarrow> holes q = []"
  by (auto simp: compile_column_def result_simps)

lemma compile_aggregate_holes: "compile_aggregate c a = Inr q \<Longrightarrow> holes q = []"
  by (auto simp: compile_aggregate_def result_simps compile_column_holes split: option.splits)

lemma rmap_list_holes:
  "(\<And>x q. f x = Inr q \<Longrightarrow> holes q = []) \<Longrightarrow> rmap_list f xs = Inr qs \<Longrightarrow> concat (List.map holes qs) = []"
  by (induction xs arbitrary: qs) (auto simp: result_simps)

lemma compile_over_holes:
  assumes "compile_over c f args parts orders = Inr q"
  shows "holes q = concat (List.map holes args)"
proof -
  have "compile_window_order c r = Inr q \<Longrightarrow> holes q = []" for r q
    by (auto simp: compile_window_order_def result_simps compile_column_holes)
  then have o': "rmap_list (compile_window_order c) orders = Inr os \<Longrightarrow> concat (List.map holes os) = []" for os
    by (rule rmap_list_holes)
  have p: "rmap_list (compile_column c) parts = Inr ps \<Longrightarrow> concat (List.map holes ps) = []" for ps
    by (rule rmap_list_holes [OF compile_column_holes])
  show ?thesis using assms by (auto simp: compile_over_def result_simps dest!: o' p simp del: concat_eq_Nil_conv)
qed

lemma holes_infix [simp]: "holes (infix_sql l op r) = holes l @ holes r"
  by (simp add: infix_sql_def)

lemma holes_truncate [simp]: "holes (sqlite_truncate v l r) = holes v @ holes l @ holes r"
  by (simp add: sqlite_truncate_def)

lemma function_in_order:
  assumes "fam = PostgreSQL \<or> positional_call f (length args)"
    and "(if fam = PostgreSQL then postgres_function f args else sqlite_function f args) = Inr q"
  shows "holes q = concat (List.map holes args)"
  using assms postgres_function_in_order [of args f] sqlite_function_in_order [of f args]
  by (auto simp: in_order_def split: if_splits)

lemmas compile_induct = compile_scalar_compile_expression_compile_scalars_compile_branches_compile_else.induct

lemma compile_scalars_length: "compile_scalars c ss ps = (Inr qs, ps') \<Longrightarrow> length qs = length ss"
  by (induction ss arbitrary: ps qs) (auto simp: result_simps)

lemma compile_binds:
  "compile_scalar c s ps = (Inr q, ps') \<Longrightarrow> positional_scalar (d_family (cx_dialect c)) s \<Longrightarrow>
     binds (cx_offset c) ps (holes q) ps'"
  "compile_expression c e ps = (Inr q, ps') \<Longrightarrow> positional_expr (d_family (cx_dialect c)) e \<Longrightarrow>
     binds (cx_offset c) ps (holes q) ps'"
  "compile_scalars c ss ps = (Inr qs, ps') \<Longrightarrow> list_all (positional_scalar (d_family (cx_dialect c))) ss \<Longrightarrow>
     binds (cx_offset c) ps (concat (List.map holes qs)) ps'"
  "compile_branches c bs ps = (Inr q, ps') \<Longrightarrow>
     list_all (\<lambda>b. positional_expr (d_family (cx_dialect c)) (fst b) \<and> positional_scalar (d_family (cx_dialect c)) (snd b)) bs \<Longrightarrow>
     binds (cx_offset c) ps (holes q) ps'"
  "compile_else c els ps = (Inr q, ps') \<Longrightarrow>
     (case els of None \<Rightarrow> True | Some s \<Rightarrow> positional_scalar (d_family (cx_dialect c)) s) \<Longrightarrow>
     binds (cx_offset c) ps (holes q) ps'"
proof (induction c s and c e and c ss and c bs and c els arbitrary: ps q ps' and ps q ps' and ps qs ps' and ps q ps' and ps q ps'
    rule: compile_induct)
  case (1 c r)
  then show ?case by (auto dest: compile_column_holes)
next
  case (2 c v)
  then show ?case by (auto intro: binds_push)
next
  case (3 c l op r)
  then show ?case by (auto simp: result_simps) (metis binds_append)
next
  case (4 c a)
  then show ?case by (auto dest: compile_aggregate_holes)
next
  case (5 c f args)
  let ?fam = "d_family (cx_dialect c)"
  have pos: "?fam = PostgreSQL \<or> positional_call f (length args)" and args: "list_all (positional_scalar ?fam) args"
    using "5.prems"(2) by auto
  have plain: "binds (cx_offset c) ps (holes q) ps'"
    if qs: "compile_scalars c args ps = (Inr qs, ps')"
      and q: "(if ?fam = PostgreSQL then postgres_function f qs else sqlite_function f qs) = Inr q"
      and IH: "binds (cx_offset c) ps (concat (List.map holes qs)) ps'" for qs
    using function_in_order [OF _ q] pos compile_scalars_length [OF qs] IH by simp
  consider (pg) "?fam = PostgreSQL" | (trunc) "?fam \<noteq> PostgreSQL" "upper_ascii f = ''TRUNCATE''"
    | (other) "?fam \<noteq> PostgreSQL" "upper_ascii f \<noteq> ''TRUNCATE''" by blast
  then show ?case
  proof cases
    case pg
    with "5.prems"(1) obtain qs where qs: "compile_scalars c args ps = (Inr qs, ps')" "postgres_function f qs = Inr q"
      by (auto simp: result_simps)
    with pg "5.IH"(1) args show ?thesis by (intro plain) auto
  next
    case other
    with "5.prems"(1) obtain qs where qs: "compile_scalars c args ps = (Inr qs, ps')" "sqlite_function f qs = Inr q"
      by (auto simp: result_simps)
    with other "5.IH" args show ?thesis by (intro plain) auto
  next
    case trunc
    with "5.prems"(1) obtain v digits where two: "args = [v, digits]"
      by (auto simp: result_simps split: list.splits)
    from trunc "5.prems"(1) obtain a b r ps1 ps2 where run: "compile_scalar c v ps = (Inr a, ps1)"
      "compile_scalar c digits ps1 = (Inr b, ps2)" "compile_scalar c digits ps2 = (Inr r, ps')"
      "q = sqlite_truncate a b r"
      by (auto simp: two result_simps)
    have "binds (cx_offset c) ps (holes a) ps1" "binds (cx_offset c) ps1 (holes b) ps2"
      "binds (cx_offset c) ps2 (holes r) ps'"
      using "5.IH"(2-4) run trunc args two by simp_all
    then show ?thesis using run(4) by (auto intro: binds_append)
  qed
next
  case (6 c branches els)
  then show ?case by (auto simp: result_simps split: if_splits) (metis binds_append)
next
  case (7 c f args parts orders)
  then show ?case by (auto simp: result_simps dest!: compile_over_holes)
next
  case (8 c) then show ?case by simp
next
  case (9 c s ss) then show ?case by (auto simp: result_simps) (metis binds_append)
next
  case (10 c) then show ?case by simp
next
  case (11 c w t bs) then show ?case by (auto simp: result_simps) (metis binds_append)
next
  case (12 c) then show ?case by simp
next
  case (13 c s) then show ?case by (auto simp: result_simps)
next
  case (14 c l op r) then show ?case by (auto simp: result_simps) (metis binds_append)
next
  case (15 c s neg) then show ?case by (auto simp: result_simps)
next
  case (16 c s p neg) then show ?case by (auto simp: result_simps) (metis binds_append)
next
  case (17 c s l u neg) then show ?case by (auto simp: result_simps) (metis binds_append)
next
  case (18 c s vs neg)
  then show ?case by (auto simp: result_simps split: if_splits) (metis binds_append binds_pushes)+
next
  case (19 c s sub neg) then show ?case by (auto simp: result_simps) (metis binds_append binds_nested)
next
  case (20 c sub neg) then show ?case by (auto simp: result_simps dest: binds_nested)
next
  case (21 c op l r) then show ?case by (auto simp: result_simps) (metis binds_append)
next
  case (22 c e) then show ?case by (auto simp: result_simps)
qed

text \<open>
  Compiling a condition numbers its placeholders in the order of the text: read from left to right
  they are the numbers of the parameters it pushed, one each, after the ones that were there (and the
  offset of the enclosing query). So a driver that binds by position and one that binds by number give
  every placeholder the value it stands for. On PostgreSQL this holds for every call of a function; on
  SQLite for the calls that write their arguments in order.
\<close>

theorem placeholders_match_parameters:
  assumes "compile_expression c e ps = (Inr q, ps')"
    and "positional_expr (d_family (cx_dialect c)) e"
  shows "(\<exists>new. ps' = ps @ new) \<and>
    holes q = [Suc (cx_offset c + length ps) ..< Suc (cx_offset c + length ps')]"
  using compile_binds(2) [OF assms] by (simp only: binds_def)

definition demo_context :: "dialect \<Rightarrow> compile_context" where
  "demo_context d = \<lparr>cx_dialect = d, cx_offset = 3, cx_aliases = [(0, ''u'')]\<rparr>"

definition demo_subquery :: subquery where
  "demo_subquery d k = Inr \<lparr>cq_sql = [Text ''SELECT id FROM t WHERE x = '', Hole (Suc k)], cq_params = [VBool True]\<rparr>"

definition demo_expression :: expr where
  "demo_expression = ELogical OpAnd
     (EBetween (SFunction ''LEFT'' [SColumn \<lparr>cr_owner = 0, cr_column = ''name''\<rparr>, SValue (VInt 2)])
        (SValue (VString ''a'')) (SValue (VString ''c'')) False)
     (EInSubquery (SColumn \<lparr>cr_owner = 0, cr_column = ''id''\<rparr>) demo_subquery True)"

theorem placeholders_match_parameters_witness:
  "\<exists>q. compile_expression (demo_context sqlite_dialect) demo_expression [] =
      (Inr q, [VInt 2, VString ''a'', VString ''c'', VBool True]) \<and> holes q = [4, 5, 6, 7]"
proof -
  let ?run = "compile_expression (demo_context sqlite_dialect) demo_expression []"
  have "\<not> isl (fst ?run)" by code_simp
  moreover have "snd ?run = [VInt 2, VString ''a'', VString ''c'', VBool True]" by code_simp
  ultimately have run: "?run = (Inr (projr (fst ?run)), [VInt 2, VString ''a'', VString ''c'', VBool True])"
    by (metis prod.collapse sum.collapse(2))
  have pos: "positional_expr (d_family (cx_dialect (demo_context sqlite_dialect))) demo_expression"
    by (simp add: demo_context_def demo_expression_def sqlite_dialect_def demo_subquery_def subquery_ok_def
        positional_call_def swapping_functions_def argless_functions_def upper_ascii_def to_upper_def)
  from placeholders_match_parameters [OF run pos] run show ?thesis
    by (intro exI [of _ "projr (fst ?run)"]) (simp add: demo_context_def upt_rec)
qed

text \<open>On SQLite \<open>POSITION\<close> writes its second argument first: bound by position, the two values change places.\<close>

lemma position_swaps_placeholders:
  "compile_scalar (demo_context sqlite_dialect)
     (SFunction ''POSITION'' [SValue (VString ''b''), SValue (VString ''abc'')]) [] =
   (Inr [Text ''instr('', Hole 5, Text '', '', Text [], Hole 4, Text '')''], [VString ''b'', VString ''abc''])"
  by code_simp

end
