(* ===== verification/Pool.thy ===== *)
theory Pool
  imports Orm_Prelude
begin

section \<open>The resource pool (include/metal/pool.hpp)\<close>

text \<open>
  The shared state of a pool and every critical section of the code (a block under \<open>state->mutex\<close>)
  as a function on it; then the threads that use the pool as a step relation, one step per critical
  section, call of the adapter or notification. The counters are natural numbers: the invariant
  of \<open>Pool_Safety\<close> shows that none is decremented at zero.
\<close>

record pool_options =
  po_max :: nat
  po_min :: nat
  po_idle_timeout :: int
  po_reap_interval :: int
  po_acquire_timeout :: int

definition normalize_options :: "pool_options \<Rightarrow> pool_options result" where
  "normalize_options opt =
     (if po_max opt = 0 then Inl (Invalid_argument ''MetalORM: pool options.max must be greater than zero'')
      else Inr (opt\<lparr>po_min := min (po_min opt) (po_max opt)\<rparr>))"

text \<open>An idle entry: the resource and when it was last used.\<close>

record 'r pool_state =
  ps_options :: pool_options
  ps_idle :: "('r \<times> int) list"
  ps_creating :: nat
  ps_leased :: nat
  ps_destroyed :: bool

definition total_live :: "'r pool_state \<Rightarrow> nat" where
  "total_live s = length (ps_idle s) + ps_leased s + ps_creating s"

subsection \<open>Critical sections\<close>

datatype 'r acquire_choice = PoolDestroyed | TakeIdle 'r | CreateNew | MustWait

definition acquire_enter :: "'r pool_state \<Rightarrow> 'r acquire_choice \<times> 'r pool_state" where
  "acquire_enter s =
     (if ps_destroyed s then (PoolDestroyed, s)
      else if ps_idle s \<noteq> [] then
        (TakeIdle (fst (last (ps_idle s))), s\<lparr>ps_idle := butlast (ps_idle s), ps_leased := Suc (ps_leased s)\<rparr>)
      else if total_live s < po_max (ps_options s) then (CreateNew, s\<lparr>ps_creating := Suc (ps_creating s)\<rparr>)
      else (MustWait, s))"

definition wait_ready :: "'r pool_state \<Rightarrow> bool" where
  "wait_ready s \<longleftrightarrow> ps_destroyed s \<or> ps_idle s \<noteq> [] \<or> total_live s < po_max (ps_options s)"

definition drop_lease :: "'r pool_state \<Rightarrow> 'r pool_state" where
  "drop_lease s = s\<lparr>ps_leased := ps_leased s - 1\<rparr>"

text \<open>After a successful validation: the lease is given back when the pool has been destroyed meanwhile.\<close>

definition lease_validated :: "'r pool_state \<Rightarrow> bool \<times> 'r pool_state" where
  "lease_validated s = (ps_destroyed s, if ps_destroyed s then drop_lease s else s)"

definition create_failed :: "'r pool_state \<Rightarrow> 'r pool_state" where
  "create_failed s = s\<lparr>ps_creating := ps_creating s - 1\<rparr>"

definition create_finished :: "'r pool_state \<Rightarrow> bool \<times> 'r pool_state" where
  "create_finished s =
     (let s' = s\<lparr>ps_creating := ps_creating s - 1\<rparr> in
      (ps_destroyed s, if ps_destroyed s then s' else s'\<lparr>ps_leased := Suc (ps_leased s')\<rparr>))"

definition release_resource :: "'r \<Rightarrow> int \<Rightarrow> 'r pool_state \<Rightarrow> bool \<times> 'r pool_state" where
  "release_resource r now s =
     (let s' = drop_lease s in
      (ps_destroyed s, if ps_destroyed s then s' else s'\<lparr>ps_idle := ps_idle s' @ [(r, now)]\<rparr>))"

text \<open>\<open>destroy()\<close>: nothing the second time, otherwise the idle resources, oldest first.\<close>

definition destroy_pool :: "'r pool_state \<Rightarrow> 'r list option \<times> 'r pool_state" where
  "destroy_pool s =
     (if ps_destroyed s then (None, s)
      else (Some (List.map fst (ps_idle s)), s\<lparr>ps_destroyed := True, ps_idle := []\<rparr>))"

subsection \<open>Warming and reaping\<close>

definition warm_enter :: "'r pool_state \<Rightarrow> bool \<times> 'r pool_state" where
  "warm_enter s =
     (if ps_destroyed s \<or> length (ps_idle s) \<ge> po_min (ps_options s) \<or> total_live s \<ge> po_max (ps_options s)
      then (False, s) else (True, s\<lparr>ps_creating := Suc (ps_creating s)\<rparr>))"

definition warm_created :: "'r \<Rightarrow> int \<Rightarrow> 'r pool_state \<Rightarrow> 'r pool_state" where
  "warm_created r now s = s\<lparr>ps_creating := ps_creating s - 1, ps_idle := ps_idle s @ [(r, now)]\<rparr>"

text \<open>
  The loop of the constructor. \<open>create\<close> is \<open>adapter.create\<close> over a state of its own: \<open>None\<close> for an
  exception or a null pointer; either ends the loop silently.
\<close>

function warm_minimum :: "('e \<Rightarrow> 'r option \<times> 'e) \<Rightarrow> int \<Rightarrow> 'e \<Rightarrow> 'r pool_state \<Rightarrow> 'r pool_state \<times> 'e" where
  "warm_minimum create now e s =
     (case warm_enter s of
        (False, s') \<Rightarrow> (s', e)
      | (True, s') \<Rightarrow>
          (case create e of
             (None, e') \<Rightarrow> (create_failed s', e')
           | (Some r, e') \<Rightarrow> warm_minimum create now e' (warm_created r now s')))"
  by pat_completeness auto
termination
  by (relation "measure (\<lambda>(create, now, e, s). po_min (ps_options s) - length (ps_idle s))")
    (auto simp: warm_enter_def warm_created_def split: if_splits)

declare warm_minimum.simps [simp del]

definition new_pool :: "('e \<Rightarrow> 'r option \<times> 'e) \<Rightarrow> int \<Rightarrow> 'e \<Rightarrow> pool_options \<Rightarrow> ('r pool_state \<times> 'e) result" where
  "new_pool create now e opt = rbind (normalize_options opt) (\<lambda>opt'.
     Inr (warm_minimum create now e
       \<lparr>ps_options = opt', ps_idle = [], ps_creating = 0, ps_leased = 0, ps_destroyed = False\<rparr>))"

text \<open>The reaper exists when there is an idle timeout; how long it sleeps between its rounds.\<close>

definition reaper_interval :: "pool_options \<Rightarrow> int option" where
  "reaper_interval opt =
     (if po_idle_timeout opt \<le> 0 then None
      else if po_reap_interval opt \<le> 0 then Some (max 1000 (po_idle_timeout opt div 2))
      else Some (po_reap_interval opt))"

fun reap_loop :: "int \<Rightarrow> int \<Rightarrow> nat \<Rightarrow> nat \<Rightarrow> ('r \<times> int) list \<Rightarrow> 'r list \<times> ('r \<times> int) list" where
  "reap_loop now timeout removable removed [] = ([], [])"
| "reap_loop now timeout removable removed (entry # idle) =
     (if now - snd entry \<ge> timeout \<and> removed < removable
      then let (expired, keep) = reap_loop now timeout removable (Suc removed) idle in (fst entry # expired, keep)
      else let (expired, keep) = reap_loop now timeout removable removed idle in (expired, entry # keep))"

definition reap :: "int \<Rightarrow> 'r pool_state \<Rightarrow> 'r list \<times> 'r pool_state" where
  "reap now s =
     (let removable = (if length (ps_idle s) > po_min (ps_options s)
        then length (ps_idle s) - po_min (ps_options s) else 0);
        (expired, keep) = reap_loop now (po_idle_timeout (ps_options s)) removable 0 (ps_idle s) in
      (expired, s\<lparr>ps_idle := keep\<rparr>))"

subsection \<open>Threads\<close>

text \<open>
  What a thread does after a critical section, outside the lock: destroying a resource (\<open>ADestroy\<close> may
  throw, which skips the rest; \<open>AQuiet\<close> swallows the exception) and waking waiters.
\<close>

datatype act = ADestroy nat | AQuiet nat | ANotifyOne | ANotifyAll

text \<open>
  Where a thread is: not in the pool, at the head of the loop of \<open>acquire\<close>, validating, creating, blocked on
  the condition variable, woken from it but without the lock, owner of a lease, or with actions left
  before it gets to another place. Resources are numbers, a new one has a new number.
\<close>

datatype pc =
    Outside
  | Enter
  | Validating nat
  | Creating
  | Waiting
  | Woken
  | Holding nat
  | Finishing "act list" pc

record pool_system =
  sy_pool :: "nat pool_state"
  sy_threads :: "pc list"
  sy_fresh :: nat

definition at :: "pool_system \<Rightarrow> nat \<Rightarrow> pc \<Rightarrow> bool" where
  "at s i p \<longleftrightarrow> i < length (sy_threads s) \<and> sy_threads s ! i = p"

definition move :: "pool_system \<Rightarrow> nat \<Rightarrow> pc \<Rightarrow> nat pool_state \<Rightarrow> pool_system" where
  "move s i p ps = s\<lparr>sy_threads := (sy_threads s)[i := p], sy_pool := ps\<rparr>"

fun wake :: "pc \<Rightarrow> pc" where
  "wake Waiting = Woken"
| "wake p = p"

text \<open>
  \<open>throws\<close> says whether \<open>adapter.destroy\<close> may throw. A waiting thread can also be woken spuriously or by its
  timeout; it looks at the condition again and waits, gives up or goes on.
\<close>

inductive pool_step :: "bool \<Rightarrow> pool_system \<Rightarrow> pool_system \<Rightarrow> bool" for throws where
  acquire: "at s i Outside \<Longrightarrow> pool_step throws s (move s i Enter (sy_pool s))"
| refused: "at s i Enter \<Longrightarrow> acquire_enter (sy_pool s) = (PoolDestroyed, ps) \<Longrightarrow>
    pool_step throws s (move s i Outside ps)"
| take_idle: "at s i Enter \<Longrightarrow> acquire_enter (sy_pool s) = (TakeIdle r, ps) \<Longrightarrow>
    pool_step throws s (move s i (Validating r) ps)"
| start_create: "at s i Enter \<Longrightarrow> acquire_enter (sy_pool s) = (CreateNew, ps) \<Longrightarrow>
    pool_step throws s (move s i Creating ps)"
| block: "at s i Enter \<Longrightarrow> acquire_enter (sy_pool s) = (MustWait, ps) \<Longrightarrow>
    pool_step throws s (move s i Waiting ps)"
| spurious: "at s i Waiting \<Longrightarrow> pool_step throws s (move s i Woken (sy_pool s))"
| proceed: "at s i Woken \<Longrightarrow> wait_ready (sy_pool s) \<Longrightarrow> pool_step throws s (move s i Enter (sy_pool s))"
| wait_again: "at s i Woken \<Longrightarrow> \<not> wait_ready (sy_pool s) \<Longrightarrow> pool_step throws s (move s i Waiting (sy_pool s))"
| timed_out: "at s i Woken \<Longrightarrow> \<not> wait_ready (sy_pool s) \<Longrightarrow> 0 < po_acquire_timeout (ps_options (sy_pool s)) \<Longrightarrow>
    pool_step throws s (move s i Outside (sy_pool s))"
| validate_throws: "at s i (Validating r) \<Longrightarrow>
    pool_step throws s (move s i (Finishing [AQuiet r, ANotifyOne] Outside) (drop_lease (sy_pool s)))"
| invalid: "at s i (Validating r) \<Longrightarrow>
    pool_step throws s (move s i (Finishing [ANotifyOne, ADestroy r] Enter) (drop_lease (sy_pool s)))"
| validated: "at s i (Validating r) \<Longrightarrow> lease_validated (sy_pool s) = (dead, ps) \<Longrightarrow>
    pool_step throws s (move s i (if dead then Finishing [ANotifyAll, ADestroy r] Outside else Holding r) ps)"
| creation_failed: "at s i Creating \<Longrightarrow>
    pool_step throws s (move s i (Finishing [ANotifyAll] Outside) (create_failed (sy_pool s)))"
| created: "at s i Creating \<Longrightarrow> create_finished (sy_pool s) = (dead, ps) \<Longrightarrow>
    pool_step throws s ((move s i (if dead then Finishing [ANotifyAll, ADestroy (sy_fresh s)] Outside
      else Finishing [ANotifyAll] (Holding (sy_fresh s))) ps)\<lparr>sy_fresh := Suc (sy_fresh s)\<rparr>)"
| release: "at s i (Holding r) \<Longrightarrow> release_resource r now (sy_pool s) = (dead, ps) \<Longrightarrow>
    pool_step throws s (move s i (Finishing ((if dead then [ADestroy r] else []) @ [ANotifyOne]) Outside) ps)"
| destroy_lease: "at s i (Holding r) \<Longrightarrow>
    pool_step throws s (move s i (Finishing [ADestroy r, ANotifyOne] Outside) (drop_lease (sy_pool s)))"
| destroy_all: "at s i Outside \<Longrightarrow> destroy_pool (sy_pool s) = (Some rs, ps) \<Longrightarrow>
    pool_step throws s (move s i (Finishing (ANotifyAll # List.map AQuiet rs) Outside) ps)"
| reaper: "at s i Outside \<Longrightarrow> \<not> ps_destroyed (sy_pool s) \<Longrightarrow> reap now (sy_pool s) = (rs, ps) \<Longrightarrow>
    pool_step throws s
      (move s i (Finishing (List.map AQuiet rs @ (if rs \<noteq> [] then [ANotifyAll] else [])) Outside) ps)"
| finished: "at s i (Finishing [] p) \<Longrightarrow> pool_step throws s (move s i p (sy_pool s))"
| destroyed_one: "at s i (Finishing (a # as) p) \<Longrightarrow> a = ADestroy r \<or> a = AQuiet r \<Longrightarrow>
    pool_step throws s (move s i (Finishing as p) (sy_pool s))"
| destroy_throws: "at s i (Finishing (ADestroy r # as) p) \<Longrightarrow> throws \<Longrightarrow>
    pool_step throws s (move s i Outside (sy_pool s))"
| notify_one: "at s i (Finishing (ANotifyOne # as) p) \<Longrightarrow> at s j Waiting \<Longrightarrow>
    pool_step throws s (move (move s j Woken (sy_pool s)) i (Finishing as p) (sy_pool s))"
| notify_none: "at s i (Finishing (ANotifyOne # as) p) \<Longrightarrow> Waiting \<notin> set (sy_threads s) \<Longrightarrow>
    pool_step throws s (move s i (Finishing as p) (sy_pool s))"
| notify_all: "at s i (Finishing (ANotifyAll # as) p) \<Longrightarrow>
    pool_step throws s (move (s\<lparr>sy_threads := List.map wake (sy_threads s)\<rparr>) i (Finishing as p) (sy_pool s))"

inductive_cases from_step: "pool_step throws s t"

text \<open>
  A pool after its constructor, with some threads that have not touched it yet and fresh resources
  from the given number on.
\<close>

definition pool_start :: "nat pool_state \<Rightarrow> nat \<Rightarrow> nat \<Rightarrow> pool_system" where
  "pool_start ps n fresh = \<lparr>sy_pool = ps, sy_threads = replicate n Outside, sy_fresh = fresh\<rparr>"

inductive pool_reachable :: "bool \<Rightarrow> pool_system \<Rightarrow> pool_system \<Rightarrow> bool" for throws s0 where
  initial: "pool_reachable throws s0 s0"
| step: "pool_reachable throws s0 s \<Longrightarrow> pool_step throws s t \<Longrightarrow> pool_reachable throws s0 t"

end
