(* ===== verification/Pool_Safety.thy ===== *)
theory Pool_Safety
  imports Pool "HOL-Library.Sublist"
begin

section \<open>What the pool guarantees\<close>

text \<open>
  The invariant of the pool over its threads, by rule induction over the reachable states: the
  counters are the numbers of leases and creations under way, never more than \<open>max\<close> resources live,
  every resource has one owner, and no wakeup is lost.
\<close>

subsection \<open>Sums over the threads\<close>

definition weight :: "(pc \<Rightarrow> 'a :: comm_monoid_add) \<Rightarrow> pc list \<Rightarrow> 'a" where
  "weight f ts = sum_list (List.map f ts)"

lemma weight_update: "i < length ts \<Longrightarrow> weight f (ts[i := p]) + f (ts ! i) = weight f ts + f p"
proof (induction ts arbitrary: i)
  case (Cons t ts)
  show ?case
  proof (cases i)
    case 0
    then show ?thesis by (simp add: weight_def ac_simps)
  next
    case (Suc j)
    with Cons have "weight f (ts[j := p]) + f (ts ! j) = weight f ts + f p" by simp
    with Suc show ?thesis by (simp add: weight_def add.assoc)
  qed
qed simp

lemma weight_ge: "i < length ts \<Longrightarrow> f (ts ! i) \<le> weight f ts" for f :: "pc \<Rightarrow> nat"
  by (simp add: weight_def member_le_sum_list)

lemma weight_wake: "(\<And>p. f (wake p) = f p) \<Longrightarrow> weight f (List.map wake ts) = weight f ts"
  by (simp add: weight_def comp_def)

fun w_lease :: "pc \<Rightarrow> nat" where
  "w_lease (Validating r) = 1"
| "w_lease (Holding r) = 1"
| "w_lease (Finishing as p) = w_lease p"
| "w_lease p = 0"

fun w_create :: "pc \<Rightarrow> nat" where
  "w_create Creating = 1"
| "w_create (Finishing as p) = w_create p"
| "w_create p = 0"

fun act_resources :: "act list \<Rightarrow> nat multiset" where
  "act_resources [] = {#}"
| "act_resources (ADestroy r # as) = add_mset r (act_resources as)"
| "act_resources (AQuiet r # as) = add_mset r (act_resources as)"
| "act_resources (a # as) = act_resources as"

fun owned :: "pc \<Rightarrow> nat multiset" where
  "owned (Validating r) = {#r#}"
| "owned (Holding r) = {#r#}"
| "owned (Finishing as p) = act_resources as + owned p"
| "owned p = {#}"

text \<open>Threads that will look at the pool or wake a waiter before they are done.\<close>

fun w_credit :: "pc \<Rightarrow> nat" where
  "w_credit Enter = 1"
| "w_credit Woken = 1"
| "w_credit (Finishing as p) = (if ANotifyOne \<in> set as \<or> ANotifyAll \<in> set as then 1 else 0)"
| "w_credit p = 0"

lemma act_resources_quiet [simp]: "act_resources (List.map AQuiet rs @ as) = mset rs + act_resources as"
  by (induction rs) auto

lemma act_resources_quiet' [simp]: "act_resources (List.map AQuiet rs) = mset rs"
  using act_resources_quiet [of rs "[]"] by simp

lemma wake_weights [simp]:
  "weight w_lease (List.map wake ts) = weight w_lease ts"
  "weight w_create (List.map wake ts) = weight w_create ts"
  "weight owned (List.map wake ts) = weight owned ts"
proof -
  have "w_lease (wake p) = w_lease p" "w_create (wake p) = w_create p" "owned (wake p) = owned p" for p
    by (cases p; simp)+
  then show "weight w_lease (List.map wake ts) = weight w_lease ts"
    "weight w_create (List.map wake ts) = weight w_create ts"
    "weight owned (List.map wake ts) = weight owned ts" by (simp_all add: weight_wake)
qed

lemma move_simps [simp]:
  "sy_pool (move s i p ps) = ps"
  "sy_fresh (move s i p ps) = sy_fresh s"
  "sy_threads (move s i p ps) = (sy_threads s)[i := p]"
  by (simp_all add: move_def)

lemma move_weights:
  assumes "at s i p0"
  shows "weight w_lease ((sy_threads s)[i := p]) + w_lease p0 = weight w_lease (sy_threads s) + w_lease p"
    and "weight w_create ((sy_threads s)[i := p]) + w_create p0 = weight w_create (sy_threads s) + w_create p"
    and "weight owned ((sy_threads s)[i := p]) + owned p0 = weight owned (sy_threads s) + owned p"
    and "weight w_credit ((sy_threads s)[i := p]) + w_credit p0 = weight w_credit (sy_threads s) + w_credit p"
  using assms weight_update [of i "sy_threads s" _ p] by (auto simp: at_def)

lemma at_wake: "at s i p \<Longrightarrow> wake p = p \<Longrightarrow> at (s\<lparr>sy_threads := List.map wake (sy_threads s)\<rparr>) i p"
  by (simp add: at_def)

lemma at_other: "at s i p \<Longrightarrow> at s j q \<Longrightarrow> p \<noteq> q \<Longrightarrow> at (move s j u ps) i p"
  by (auto simp: at_def move_def nth_list_update)

subsection \<open>Reaping\<close>

lemma reap_loop_mset:
  "reap_loop now timeout removable removed idle = (rs, keep) \<Longrightarrow>
     mset rs + mset (List.map fst keep) = mset (List.map fst idle)"
  by (induction idle arbitrary: removed rs keep) (auto simp: Let_def split: prod.splits if_splits)

lemma reap_loop_bound:
  "reap_loop now timeout removable removed idle = (rs, keep) \<Longrightarrow> removed \<le> removable \<Longrightarrow>
     length rs \<le> removable - removed \<and> length rs + length keep = length idle"
  by (induction idle arbitrary: removed rs keep) (fastforce simp: Let_def split: prod.splits if_splits)+

lemma reap_loop_expired:
  "reap_loop now timeout removable removed idle = (rs, keep) \<Longrightarrow>
     (\<forall>r \<in> set rs. \<exists>t. (r, t) \<in> set idle \<and> timeout \<le> now - t) \<and> subseq keep idle"
  by (induction idle arbitrary: removed rs keep) (fastforce simp: Let_def split: prod.splits if_splits)+

lemma reap_props:
  assumes "reap now ps = (rs, ps')"
  shows "mset rs + mset (List.map fst (ps_idle ps')) = mset (List.map fst (ps_idle ps))"
    and "ps' = ps\<lparr>ps_idle := ps_idle ps'\<rparr>"
    and "min (po_min (ps_options ps)) (length (ps_idle ps)) \<le> length (ps_idle ps')"
    and "length rs + length (ps_idle ps') = length (ps_idle ps)"
    and "\<forall>r \<in> set rs. \<exists>t. (r, t) \<in> set (ps_idle ps) \<and> po_idle_timeout (ps_options ps) \<le> now - t"
    and "subseq (ps_idle ps') (ps_idle ps)"
proof -
  let ?rem = "if length (ps_idle ps) > po_min (ps_options ps) then length (ps_idle ps) - po_min (ps_options ps) else 0"
  from assms have ps': "ps' = ps\<lparr>ps_idle := ps_idle ps'\<rparr>"
    and loop: "reap_loop now (po_idle_timeout (ps_options ps)) ?rem 0 (ps_idle ps) = (rs, ps_idle ps')"
    by (auto simp: reap_def Let_def split: prod.splits)
  show "mset rs + mset (List.map fst (ps_idle ps')) = mset (List.map fst (ps_idle ps))"
    by (rule reap_loop_mset [OF loop])
  show "ps' = ps\<lparr>ps_idle := ps_idle ps'\<rparr>" by (rule ps')
  from reap_loop_bound [OF loop]
  show "min (po_min (ps_options ps)) (length (ps_idle ps)) \<le> length (ps_idle ps')"
    and "length rs + length (ps_idle ps') = length (ps_idle ps)" by (auto split: if_splits)
  from reap_loop_expired [OF loop]
  show "\<forall>r \<in> set rs. \<exists>t. (r, t) \<in> set (ps_idle ps) \<and> po_idle_timeout (ps_options ps) \<le> now - t"
    and "subseq (ps_idle ps') (ps_idle ps)" by blast+
qed

subsection \<open>Counters and owners\<close>

definition all_resources :: "pool_system \<Rightarrow> nat multiset" where
  "all_resources s = mset (List.map fst (ps_idle (sy_pool s))) + weight owned (sy_threads s)"

definition pool_inv :: "pool_system \<Rightarrow> bool" where
  "pool_inv s \<longleftrightarrow>
     ps_leased (sy_pool s) = weight w_lease (sy_threads s) \<and>
     ps_creating (sy_pool s) = weight w_create (sy_threads s) \<and>
     total_live (sy_pool s) \<le> po_max (ps_options (sy_pool s)) \<and>
     (ps_destroyed (sy_pool s) \<longrightarrow> ps_idle (sy_pool s) = []) \<and>
     all_resources s \<subseteq># mset_set {..<sy_fresh s}"

lemmas critical_defs = acquire_enter_def wait_ready_def drop_lease_def lease_validated_def create_failed_def
  create_finished_def release_resource_def destroy_pool_def total_live_def Let_def

lemma mset_last_butlast: "xs \<noteq> [] \<Longrightarrow> mset (List.map f xs) = add_mset (f (last xs)) (mset (List.map f (butlast xs)))"
  by (cases xs rule: rev_cases) auto

lemma weight_positive:
  assumes "at s i p"
  shows "w_lease p \<le> weight w_lease (sy_threads s)" "w_create p \<le> weight w_create (sy_threads s)"
  using assms weight_ge [of i "sy_threads s"] by (auto simp: at_def)

lemma shrink_resources:
  assumes "at s i p0" and "owned p \<subseteq># owned p0"
  shows "all_resources (move s i p (sy_pool s)) \<subseteq># all_resources s"
proof -
  have "weight owned ((sy_threads s)[i := p]) + owned p0 = weight owned (sy_threads s) + owned p"
    by (rule move_weights(3) [OF assms(1)])
  also have "\<dots> \<subseteq># weight owned (sy_threads s) + owned p0" using assms(2) by simp
  finally show ?thesis by (simp add: all_resources_def)
qed

lemma fresh_subset: "A \<subseteq># mset_set {..<n} \<Longrightarrow> add_mset n A \<subseteq># mset_set {..<Suc n}"
  by (simp add: lessThan_Suc)

lemma enter_takes:
  assumes "acquire_enter ps = (TakeIdle r, ps')"
  obtains xs t where "ps_idle ps = xs @ [(r, t)]" and "ps' = ps\<lparr>ps_idle := xs, ps_leased := Suc (ps_leased ps)\<rparr>"
    and "\<not> ps_destroyed ps"
proof -
  from assms have ne: "ps_idle ps \<noteq> []" and r: "r = fst (last (ps_idle ps))" and d: "\<not> ps_destroyed ps"
    and ps': "ps' = ps\<lparr>ps_idle := butlast (ps_idle ps), ps_leased := Suc (ps_leased ps)\<rparr>"
    by (auto simp: acquire_enter_def split: if_splits)
  have "ps_idle ps = butlast (ps_idle ps) @ [(r, snd (last (ps_idle ps)))]" using ne r by simp
  then show thesis using ps' d by (rule that)
qed

lemma list_all_update: "list_all P ts \<Longrightarrow> P p \<Longrightarrow> list_all P (ts[i := p])"
  using set_update_subset_insert [of ts i p] by (auto simp: list_all_iff)

text \<open>A destruction that may throw is never between a thread and its lease.\<close>

fun fin_ok :: "pc \<Rightarrow> bool" where
  "fin_ok (Finishing as p) \<longleftrightarrow> p = Outside \<or> p = Enter \<or> (\<exists>r. p = Holding r) \<and> set as \<subseteq> {ANotifyAll}"
| "fin_ok p \<longleftrightarrow> True"

lemma fin_ok_wake [simp]: "fin_ok (wake p) = fin_ok p"
  by (cases p) auto

lemma at_fin_ok: "at s i p \<Longrightarrow> list_all fin_ok (sy_threads s) \<Longrightarrow> fin_ok p"
  by (auto simp: at_def list_all_length)

lemma fin_ok_step: "pool_step throws s t \<Longrightarrow> list_all fin_ok (sy_threads s) \<Longrightarrow> list_all fin_ok (sy_threads t)"
proof (induction rule: pool_step.induct)
  case (finished s i p)
  from at_fin_ok [OF finished(1) finished(2)] finished show ?case by (auto intro!: list_all_update)
next
  case (destroyed_one s i a as p r)
  from at_fin_ok [OF destroyed_one(1) destroyed_one(3)] destroyed_one show ?case by (auto intro!: list_all_update)
next
  case (notify_one s i as p j)
  from at_fin_ok [OF notify_one(1) notify_one(3)] notify_one show ?case by (auto intro!: list_all_update)
next
  case (notify_none s i as p)
  from at_fin_ok [OF notify_none(1) notify_none(3)] notify_none show ?case by (auto intro!: list_all_update)
next
  case (notify_all s i as p)
  from at_fin_ok [OF notify_all(1) notify_all(2)] notify_all show ?case by (auto intro!: list_all_update simp: list.pred_map comp_def)
qed (auto intro!: list_all_update)

lemma move_neutral:
  assumes "pool_inv s" and "at s i p0" and "w_lease p = w_lease p0" and "w_create p = w_create p0" and "owned p = owned p0"
  shows "pool_inv (move s i p (sy_pool s))"
  using assms(1,3-5) move_weights [OF assms(2), of p] by (auto simp: pool_inv_def all_resources_def)

lemma pool_inv_step: "pool_step throws s t \<Longrightarrow> list_all fin_ok (sy_threads s) \<Longrightarrow> pool_inv s \<Longrightarrow> pool_inv t"
proof (induction rule: pool_step.induct)
  case (take_idle s i r ps)
  from take_idle(2) obtain xs t where "ps_idle (sy_pool s) = xs @ [(r, t)]"
    "ps = (sy_pool s)\<lparr>ps_idle := xs, ps_leased := Suc (ps_leased (sy_pool s))\<rparr>" "\<not> ps_destroyed (sy_pool s)"
    by (rule enter_takes)
  with move_weights [OF take_idle(1), of "Validating r"] take_idle(4) show ?case
    by (simp add: pool_inv_def all_resources_def total_live_def)
next
  case (created s i dead ps)
  from weight_positive(2) [OF created(1)] have "0 < weight w_create (sy_threads s)" by simp
  with created move_weights [OF created(1), of "if dead then Finishing [ANotifyAll, ADestroy (sy_fresh s)] Outside
      else Finishing [ANotifyAll] (Holding (sy_fresh s))"] show ?case
    by (cases dead) (auto simp: pool_inv_def all_resources_def create_finished_def total_live_def Let_def
        fresh_subset split: if_splits)
next
  case (release s i r now dead ps)
  from weight_positive(1) [OF release(1)] have "0 < weight w_lease (sy_threads s)" by simp
  with release move_weights(1,2) [OF release(1), of "Finishing ((if dead then [ADestroy r] else []) @ [ANotifyOne]) Outside"]
    move_weights(3) [OF release(1), of "Finishing ((if dead then [ADestroy r] else []) @ [ANotifyOne]) Outside", symmetric]
  show ?case
    by (cases dead) (auto simp: pool_inv_def all_resources_def release_resource_def drop_lease_def total_live_def Let_def
        split: if_splits)
next
  case (reaper s i now rs ps)
  let ?acts = "List.map AQuiet rs @ (if rs \<noteq> [] then [ANotifyAll] else [])"
  have ps: "ps_leased ps = ps_leased (sy_pool s)" "ps_creating ps = ps_creating (sy_pool s)"
    "ps_options ps = ps_options (sy_pool s)" "ps_destroyed ps = ps_destroyed (sy_pool s)"
    by (subst reap_props(2) [OF reaper(3)], simp)+
  have "weight owned ((sy_threads s)[i := Finishing ?acts Outside]) = mset rs + weight owned (sy_threads s)"
    using move_weights(3) [OF reaper(1), of "Finishing ?acts Outside"] by (cases "rs = []") (simp_all add: ac_simps)
  then have "all_resources (move s i (Finishing ?acts Outside) ps) = all_resources s"
    using reap_props(1) [OF reaper(3)] by (simp add: all_resources_def del: mset_map) (simp add: ac_simps)
  with move_weights(1,2) [OF reaper(1), of "Finishing ?acts Outside"] reap_props(4) [OF reaper(3)] reaper(2,5) show ?case
    by (simp add: pool_inv_def total_live_def ps)
next
  case (destroy_all s i rs ps)
  from move_weights [OF destroy_all(1), of "Finishing (ANotifyAll # List.map AQuiet rs) Outside"] destroy_all(2,4) show ?case
    by (auto simp: pool_inv_def all_resources_def critical_defs ac_simps split: if_splits)
next
  case (notify_one s i as p j)
  from notify_one(1,2) have "at (move s j Woken (sy_pool s)) i (Finishing (ANotifyOne # as) p)"
    by (rule at_other) simp
  from move_weights [OF this, of "Finishing as p"] move_weights [OF notify_one(2), of Woken] notify_one(4) show ?case
    by (simp add: pool_inv_def all_resources_def total_live_def)
next
  case (notify_all s i as p)
  have "at (s\<lparr>sy_threads := List.map wake (sy_threads s)\<rparr>) i (Finishing (ANotifyAll # as) p)"
    by (rule at_wake [OF notify_all(1)]) simp
  from move_weights [OF this, of "Finishing as p"] notify_all(3) show ?case
    by (simp add: pool_inv_def all_resources_def total_live_def)
next
  case (start_create s i ps)
  from move_weights [OF start_create(1), of Creating] start_create(2,4) show ?case
    by (auto simp: pool_inv_def all_resources_def acquire_enter_def total_live_def split: if_splits)
next
  case (validated s i r dead ps)
  from weight_positive(1) [OF validated(1)] have "0 < weight w_lease (sy_threads s)" by simp
  with validated move_weights [OF validated(1), of "if dead then Finishing [ANotifyAll, ADestroy r] Outside else Holding r"]
  show ?case
    by (cases dead) (auto simp: pool_inv_def all_resources_def lease_validated_def drop_lease_def total_live_def split: if_splits)
next
  case (destroyed_one s i a as p r)
  have "all_resources (move s i (Finishing as p) (sy_pool s)) \<subseteq># all_resources s"
    using destroyed_one(2) by (intro shrink_resources [OF destroyed_one(1)]) auto
  with move_weights(1,2) [OF destroyed_one(1), of "Finishing as p"] destroyed_one(4) show ?case
    by (auto simp: pool_inv_def intro: subset_mset.trans)
next
  case (destroy_throws s i r as p)
  from at_fin_ok [OF destroy_throws(1,3)] have p: "p = Outside \<or> p = Enter" by auto
  have "all_resources (move s i Outside (sy_pool s)) \<subseteq># all_resources s"
    by (rule shrink_resources [OF destroy_throws(1)]) simp
  with move_weights(1,2) [OF destroy_throws(1), of Outside] p destroy_throws(4) show ?case
    by (auto simp: pool_inv_def intro: subset_mset.trans)
next
  case (validate_throws s i r)
  from weight_positive(1) [OF validate_throws(1)] move_weights [OF validate_throws(1), of "Finishing [AQuiet r, ANotifyOne] Outside"]
    validate_throws(3) show ?case
    by (auto simp: pool_inv_def all_resources_def drop_lease_def total_live_def)
next
  case (invalid s i r)
  from weight_positive(1) [OF invalid(1)] move_weights [OF invalid(1), of "Finishing [ANotifyOne, ADestroy r] Enter"]
    invalid(3) show ?case
    by (auto simp: pool_inv_def all_resources_def drop_lease_def total_live_def)
next
  case (destroy_lease s i r)
  from weight_positive(1) [OF destroy_lease(1)] move_weights [OF destroy_lease(1), of "Finishing [ADestroy r, ANotifyOne] Outside"]
    destroy_lease(3) show ?case
    by (auto simp: pool_inv_def all_resources_def drop_lease_def total_live_def)
next
  case (creation_failed s i)
  from weight_positive(2) [OF creation_failed(1)] move_weights [OF creation_failed(1), of "Finishing [ANotifyAll] Outside"]
    creation_failed(3) show ?case
    by (auto simp: pool_inv_def all_resources_def create_failed_def total_live_def)
qed (auto simp: acquire_enter_def intro!: move_neutral split: if_splits)

lemma start_weights [simp]:
  "weight w_lease (replicate n Outside) = 0"
  "weight w_create (replicate n Outside) = 0"
  "weight owned (replicate n Outside) = {#}"
  by (induction n) (simp_all add: weight_def)

text \<open>A pool as its constructor leaves it, over resources whose numbers are used up.\<close>

definition pool_ready :: "nat pool_state \<Rightarrow> nat \<Rightarrow> bool" where
  "pool_ready ps fresh \<longleftrightarrow> ps_leased ps = 0 \<and> ps_creating ps = 0 \<and> \<not> ps_destroyed ps \<and>
     length (ps_idle ps) \<le> po_max (ps_options ps) \<and> distinct (List.map fst (ps_idle ps)) \<and>
     (\<forall>r \<in> fst ` set (ps_idle ps). r < fresh)"

lemma distinct_mset_set: "distinct xs \<Longrightarrow> set xs \<subseteq> A \<Longrightarrow> finite A \<Longrightarrow> mset xs \<subseteq># mset_set A"
  by (metis mset_set_set subset_imp_msubset_mset_set)

lemma pool_inv_start: "pool_ready ps fresh \<Longrightarrow> pool_inv (pool_start ps n fresh)"
  by (auto simp: pool_inv_def pool_start_def pool_ready_def all_resources_def total_live_def
      simp del: mset_map intro!: distinct_mset_set)

lemma reachable_inv:
  assumes "pool_reachable throws (pool_start ps n fresh) s" and "pool_ready ps fresh"
  shows "list_all fin_ok (sy_threads s) \<and> pool_inv s"
  using assms(1)
proof (induction rule: pool_reachable.induct)
  case initial
  then show ?case using pool_inv_start [OF assms(2)] by (simp add: pool_start_def list_all_iff)
next
  case (step s t)
  then show ?case by (blast intro: fin_ok_step pool_inv_step)
qed

text \<open>The thread of a lease and what it owns.\<close>

lemma two_owners:
  assumes "at s i p" and "at s j q" and "i \<noteq> j"
  shows "owned p + owned q \<subseteq># weight owned (sy_threads s)"
proof -
  have "weight owned ((sy_threads s)[i := Outside]) + owned p = weight owned (sy_threads s)"
    using move_weights(3) [OF assms(1), of Outside] by simp
  moreover have "at (move s i Outside (sy_pool s)) j q" using assms by (auto simp: at_def)
  then have "weight owned (((sy_threads s)[i := Outside])[j := Outside]) + owned q = weight owned ((sy_threads s)[i := Outside])"
    using move_weights(3) [of "move s i Outside (sy_pool s)" j q Outside] by simp
  ultimately show ?thesis by (metis add.commute add.left_commute mset_subset_eq_add_left)
qed

lemma one_owner: "at s i p \<Longrightarrow> owned p \<subseteq># weight owned (sy_threads s)"
  using move_weights(3) [of s i p Outside] by (metis add_0_right mset_subset_eq_add_right owned.simps(4))

subsection \<open>No wakeup is lost\<close>

fun w_all :: "pc \<Rightarrow> nat" where
  "w_all (Finishing as p) = (if ANotifyAll \<in> set as then 1 else 0)"
| "w_all p = 0"

text \<open>
  While a thread waits, every resource that could be had is accounted for by a thread that will look at
  the pool or wake a waiter; in a destroyed pool somebody is about to wake all of them.
\<close>

definition wakeups_ok :: "pool_system \<Rightarrow> bool" where
  "wakeups_ok s \<longleftrightarrow> (Waiting \<in> set (sy_threads s) \<longrightarrow>
     (if ps_destroyed (sy_pool s) then 0 < weight w_all (sy_threads s)
      else po_max (ps_options (sy_pool s)) \<le>
        ps_leased (sy_pool s) + ps_creating (sy_pool s) + weight w_credit (sy_threads s)))"

lemma waiting_move: "Waiting \<in> set (ts[i := p]) \<Longrightarrow> p \<noteq> Waiting \<Longrightarrow> Waiting \<in> set ts"
  using set_update_subset_insert [of ts i p] by auto

lemma wakeups_move:
  assumes "wakeups_ok s" and "at s i p0" and "p \<noteq> Waiting"
    and "ps_destroyed ps = ps_destroyed (sy_pool s)" and "ps_options ps = ps_options (sy_pool s)"
    and "ps_destroyed ps \<Longrightarrow> w_all p0 \<le> w_all p"
    and "\<not> ps_destroyed ps \<Longrightarrow> ps_leased (sy_pool s) + ps_creating (sy_pool s) + w_credit p0 \<le>
      ps_leased ps + ps_creating ps + w_credit p"
  shows "wakeups_ok (move s i p ps)"
proof -
  have i: "i < length (sy_threads s)" "sy_threads s ! i = p0" using assms(2) by (auto simp: at_def)
  have wa: "weight w_all ((sy_threads s)[i := p]) + w_all p0 = weight w_all (sy_threads s) + w_all p"
    using weight_update [of i "sy_threads s" w_all p] i by simp
  have wc: "weight w_credit ((sy_threads s)[i := p]) + w_credit p0 = weight w_credit (sy_threads s) + w_credit p"
    by (rule move_weights(4) [OF assms(2)])
  show ?thesis
  proof (cases "Waiting \<in> set ((sy_threads s)[i := p])")
    case True
    then have "Waiting \<in> set (sy_threads s)" using assms(3) by (rule waiting_move)
    with assms(1,4-7) wa wc show ?thesis by (cases "ps_destroyed ps") (auto simp: wakeups_ok_def)
  qed (simp add: wakeups_ok_def)
qed

lemma wakeups_full: "\<not> ps_destroyed (sy_pool s) \<Longrightarrow> po_max (ps_options (sy_pool s)) \<le> ps_leased (sy_pool s) + ps_creating (sy_pool s)
    \<Longrightarrow> wakeups_ok s"
  by (simp add: wakeups_ok_def)

lemma wakeups_fresh [simp]: "wakeups_ok (s\<lparr>sy_fresh := n\<rparr>) = wakeups_ok s"
  by (simp add: wakeups_ok_def)

lemma wakeups_step:
  "pool_step False s t \<Longrightarrow> list_all fin_ok (sy_threads s) \<Longrightarrow> wakeups_ok s \<Longrightarrow> wakeups_ok t"
proof (induction rule: pool_step.induct)
  case (take_idle s i r ps)
  from take_idle(2) show ?case
    by (rule enter_takes) (use take_idle in \<open>auto intro!: wakeups_move [OF _ take_idle(1)]\<close>)
next
  case (start_create s i ps)
  then show ?case by (auto simp: acquire_enter_def intro!: wakeups_move [OF _ start_create(1)] split: if_splits)
next
  case (block s i ps)
  then show ?case by (intro wakeups_full) (auto simp: acquire_enter_def total_live_def split: if_splits)
next
  case (wait_again s i)
  then show ?case by (intro wakeups_full) (auto simp: wait_ready_def total_live_def)
next
  case (refused s i ps)
  then show ?case by (auto simp: acquire_enter_def intro!: wakeups_move [OF _ refused(1)] split: if_splits)
next
  case (timed_out s i)
  show ?case using timed_out(2) by (intro wakeups_full) (auto simp: wait_ready_def total_live_def)
next
  case (validated s i r dead ps)
  then show ?case
    by (auto simp: lease_validated_def drop_lease_def intro!: wakeups_move [OF _ validated(1)] split: if_splits)
next
  case (created s i dead ps)
  then show ?case
    by (auto simp: create_finished_def Let_def intro!: wakeups_move [OF _ created(1)] split: if_splits)
next
  case (release s i r now dead ps)
  then show ?case
    by (auto simp: release_resource_def drop_lease_def Let_def intro!: wakeups_move [OF _ release(1)] split: if_splits)
next
  case (destroy_all s i rs ps)
  let ?p = "Finishing (ANotifyAll # List.map AQuiet rs) Outside"
  from destroy_all(1) have "i < length (sy_threads s)" by (simp add: at_def)
  then have "0 < weight w_all ((sy_threads s)[i := ?p])"
    using weight_ge [of i "(sy_threads s)[i := ?p]" w_all] by simp
  with destroy_all(2) show ?case by (auto simp: wakeups_ok_def destroy_pool_def split: if_splits)
next
  case (reaper s i now rs ps)
  have ps: "ps_leased ps = ps_leased (sy_pool s)" "ps_creating ps = ps_creating (sy_pool s)"
    "ps_options ps = ps_options (sy_pool s)" "ps_destroyed ps = ps_destroyed (sy_pool s)"
    by (subst reap_props(2) [OF reaper(3)], simp)+
  show ?case by (rule wakeups_move [OF reaper(5) reaper(1)]) (simp_all add: ps)
next
  case (finished s i p)
  from at_fin_ok [OF finished(1,2)] show ?case by (intro wakeups_move [OF finished(3,1)]) auto
next
  case (notify_one s i as p j)
  have i: "at (move s j Woken (sy_pool s)) i (Finishing (ANotifyOne # as) p)"
    using notify_one(1,2) by (rule at_other) simp
  show ?case
  proof (cases "ps_destroyed (sy_pool s)")
    case True
    then show ?thesis
      by (intro wakeups_move [OF _ i] wakeups_move [OF notify_one(4,2)]) auto
  next
    case False
    have "Waiting \<in> set (sy_threads s)" using notify_one(2) by (auto simp: at_def in_set_conv_nth)
    then have "wakeups_ok (move (move s j Woken (sy_pool s)) i (Finishing as p) (sy_pool s))"
      using move_weights(4) [OF i, of "Finishing as p"] move_weights(4) [OF notify_one(2), of Woken] notify_one(2,4) False
      by (auto simp: wakeups_ok_def at_def)
    then show ?thesis by simp
  qed
next
  case (notify_none s i as p)
  have "Waiting \<notin> set ((sy_threads s)[i := Finishing as p])"
    using notify_none(2) waiting_move by blast
  then show ?case by (simp add: wakeups_ok_def)
next
  case (notify_all s i as p)
  have "Waiting \<noteq> wake q" for q by (cases q) auto
  then have "Waiting \<notin> set ((List.map wake (sy_threads s))[i := Finishing as p])"
    using waiting_move [of "List.map wake (sy_threads s)"] by auto
  then show ?case by (simp add: wakeups_ok_def)
next
  case (destroyed_one s i a as p r)
  then show ?case by (intro wakeups_move [OF _ destroyed_one(1)]) auto
qed (auto simp: drop_lease_def create_failed_def intro!: wakeups_move)

lemma reachable_wakeups:
  assumes "pool_reachable False (pool_start ps n fresh) s" and "pool_ready ps fresh"
  shows "wakeups_ok s"
  using assms(1)
proof (induction rule: pool_reachable.induct)
  case initial
  then show ?case by (auto simp: wakeups_ok_def pool_start_def)
next
  case (step s t)
  then show ?case using reachable_inv [OF step(1) assms(2)] by (blast intro: wakeups_step)
qed

lemma weight_witness: "0 < weight f ts \<Longrightarrow> \<exists>j < length ts. 0 < f (ts ! j)" for f :: "pc \<Rightarrow> nat"
proof (induction ts)
  case (Cons t ts)
  show ?case
  proof (cases "f t = 0")
    case True
    with Cons obtain j where "j < length ts" "0 < f (ts ! j)" by (auto simp: weight_def)
    then show ?thesis by (intro exI [of _ "Suc j"]) simp
  qed (auto intro!: exI [of _ 0])
qed (simp add: weight_def)

subsection \<open>The constructor\<close>

text \<open>Creation by a counter that fails where \<open>ok\<close> says so.\<close>

definition counting :: "(nat \<Rightarrow> bool) \<Rightarrow> nat \<Rightarrow> nat option \<times> nat" where
  "counting ok e = (if ok e then Some e else None, Suc e)"

lemma warm_minimum_ready:
  assumes "warm_minimum (counting ok) now e ps = (ps', e')" and "pool_ready ps e"
  shows "pool_ready ps' e' \<and> ps_options ps' = ps_options ps \<and>
    length (ps_idle ps') \<le> max (po_min (ps_options ps)) (length (ps_idle ps)) \<and>
    ((\<forall>k. ok k) \<longrightarrow> min (po_min (ps_options ps)) (po_max (ps_options ps)) \<le> length (ps_idle ps'))"
  using assms
proof (induction "counting ok" now e ps arbitrary: ps' e' rule: warm_minimum.induct)
  case (1 now e ps)
  show ?case
  proof (cases "fst (warm_enter ps)")
    case False
    with 1(2,3) show ?thesis
      by (auto simp: warm_minimum.simps [of _ _ e ps] warm_enter_def pool_ready_def total_live_def split: if_splits)
  next
    case True
    let ?s = "ps\<lparr>ps_creating := Suc (ps_creating ps)\<rparr>"
    from True have enter: "warm_enter ps = (True, ?s)" by (auto simp: warm_enter_def split: if_splits)
    show ?thesis
    proof (cases "ok e")
      case False
      with 1(2,3) enter show ?thesis
        by (auto simp: warm_minimum.simps [of _ _ e ps] counting_def create_failed_def pool_ready_def)
    next
      case ok: True
      have ready: "pool_ready (warm_created e now ?s) (Suc e)"
        using 1(3) True by (auto simp: pool_ready_def warm_created_def warm_enter_def total_live_def split: if_splits)
      have run: "warm_minimum (counting ok) now (Suc e) (warm_created e now ?s) = (ps', e')"
        using 1(2) enter ok by (simp add: warm_minimum.simps [of _ _ e ps] counting_def)
      have opts: "ps_options (warm_created e now ?s) = ps_options ps"
        "length (ps_idle (warm_created e now ?s)) = Suc (length (ps_idle ps))"
        by (simp_all add: warm_created_def)
      from 1(1) [OF _ _ _ _ run ready] enter ok have "pool_ready ps' e' \<and> ps_options ps' = ps_options ps \<and>
        length (ps_idle ps') \<le> max (po_min (ps_options ps)) (Suc (length (ps_idle ps))) \<and>
        ((\<forall>k. ok k) \<longrightarrow> min (po_min (ps_options ps)) (po_max (ps_options ps)) \<le> length (ps_idle ps'))"
        by (simp add: counting_def opts)
      moreover have "length (ps_idle ps) < po_min (ps_options ps)" using True by (auto simp: warm_enter_def split: if_splits)
      ultimately show ?thesis by auto
    qed
  qed
qed

subsection \<open>The properties\<close>

text \<open>
  C2. In every state the threads can bring a pool to, the number of resources that are idle, leased or
  being created never exceeds \<open>max\<close>, the two counters are the numbers of leases and of creations under
  way (so neither is ever decremented at zero), and a destroyed pool has no idle resource.
\<close>

theorem pool_never_exceeds_max:
  assumes "pool_reachable throws (pool_start ps n fresh) s" and "pool_ready ps fresh"
  shows "length (ps_idle (sy_pool s)) + ps_leased (sy_pool s) + ps_creating (sy_pool s) \<le> po_max (ps_options (sy_pool s)) \<and>
    ps_leased (sy_pool s) = weight w_lease (sy_threads s) \<and>
    ps_creating (sy_pool s) = weight w_create (sy_threads s) \<and>
    (ps_destroyed (sy_pool s) \<longrightarrow> ps_idle (sy_pool s) = [])"
  using reachable_inv [OF assms] by (simp add: pool_inv_def total_live_def)

text \<open>
  C8. A leased resource has one owner: two threads never hold the same resource, a held resource is not
  idle, and no other thread is about to destroy it.
\<close>

theorem lease_is_exclusive:
  assumes "pool_reachable throws (pool_start ps n fresh) s" and "pool_ready ps fresh"
    and "at s i (Holding r)"
  shows "r \<notin> fst ` set (ps_idle (sy_pool s)) \<and> (\<forall>j p. at s j p \<and> j \<noteq> i \<longrightarrow> r \<notin># owned p)"
proof -
  let ?idle = "mset (List.map fst (ps_idle (sy_pool s)))"
  from reachable_inv [OF assms(1,2)] have sub: "?idle + weight owned (sy_threads s) \<subseteq># mset_set {..<sy_fresh s}"
    by (simp add: pool_inv_def all_resources_def)
  have once: "count (?idle + weight owned (sy_threads s)) r \<le> 1"
    using mset_subset_eq_count [OF sub, of r] by (simp add: count_mset_set' split: if_splits)
  have own: "1 \<le> count (weight owned (sy_threads s)) r"
    using mset_subset_eq_count [OF one_owner [OF assms(3)], of r] by simp
  have "count ?idle r = 0" using once own unfolding count_union by linarith
  then have "r \<notin> fst ` set (ps_idle (sy_pool s))"
    by (metis count_eq_zero_iff set_map set_mset_mset)
  moreover have "r \<notin># owned p" if "at s j p" "j \<noteq> i" for j p
  proof
    assume "r \<in># owned p"
    then have "2 \<le> count ({#r#} + owned p) r" by (simp add: Suc_le_eq)
    also have "\<dots> \<le> count (weight owned (sy_threads s)) r"
      using mset_subset_eq_count [OF two_owners [OF assms(3) that(1)], of r] that(2) by simp
    finally show False using once unfolding count_union by linarith
  qed
  ultimately show ?thesis by blast
qed

text \<open>
  C30. No wakeup is lost: when destroying a resource does not throw and a thread waits in \<open>acquire\<close>
  although a resource could be had (or the pool has been destroyed), some thread is about to look at the
  pool or to notify; the waiters are never left behind in a pool where nothing moves.
\<close>

theorem no_lost_wakeup:
  assumes "pool_reachable False (pool_start ps n fresh) s" and "pool_ready ps fresh"
    and "at s i Waiting" and "wait_ready (sy_pool s)"
  shows "\<exists>j p. at s j p \<and> (p = Enter \<or> p = Woken \<or>
    (\<exists>as q. p = Finishing as q \<and> (ANotifyOne \<in> set as \<or> ANotifyAll \<in> set as)))"
proof -
  have "Waiting \<in> set (sy_threads s)" using assms(3) by (auto simp: at_def in_set_conv_nth)
  with reachable_wakeups [OF assms(1,2)] assms(4) reachable_inv [OF assms(1,2)]
  have "0 < weight w_all (sy_threads s) \<or> 0 < weight w_credit (sy_threads s)"
    by (cases "ps_idle (sy_pool s)") (auto simp: wakeups_ok_def wait_ready_def pool_inv_def total_live_def split: if_splits)
  then consider j where "j < length (sy_threads s)" "0 < w_all (sy_threads s ! j)"
    | j where "j < length (sy_threads s)" "0 < w_credit (sy_threads s ! j)"
    using weight_witness by blast
  then obtain j where j: "j < length (sy_threads s)" "0 < w_all (sy_threads s ! j) \<or> 0 < w_credit (sy_threads s ! j)"
    by cases blast+
  then have "sy_threads s ! j = Enter \<or> sy_threads s ! j = Woken \<or>
      (\<exists>as q. sy_threads s ! j = Finishing as q \<and> (ANotifyOne \<in> set as \<or> ANotifyAll \<in> set as))"
    by (cases "sy_threads s ! j") (auto split: if_splits)
  with j(1) show ?thesis by (auto simp: at_def)
qed

text \<open>
  One round of the reaper removes only entries that have been idle for the timeout, keeps the others in
  their order, and leaves at least \<open>min\<close> idle resources (or all, when there were fewer).
\<close>

theorem reaper_keeps_minimum:
  "case reap now ps of (rs, ps') \<Rightarrow>
     (\<forall>r \<in> set rs. \<exists>t. (r, t) \<in> set (ps_idle ps) \<and> po_idle_timeout (ps_options ps) \<le> now - t) \<and>
     subseq (ps_idle ps') (ps_idle ps) \<and>
     mset rs + mset (List.map fst (ps_idle ps')) = mset (List.map fst (ps_idle ps)) \<and>
     min (po_min (ps_options ps)) (length (ps_idle ps)) \<le> length (ps_idle ps')"
  using reap_props [of now ps] by (auto split: prod.splits simp del: mset_map)

definition demo_state :: "nat pool_state" where
  "demo_state = \<lparr>ps_options = \<lparr>po_max = 1, po_min = 0, po_idle_timeout = 10, po_reap_interval = 0, po_acquire_timeout = 0\<rparr>,
     ps_idle = [(0, 0), (7, 5), (8, 20)], ps_creating = 0, ps_leased = 0, ps_destroyed = False\<rparr>"

theorem reaper_keeps_minimum_witness:
  "snd (reap 20 demo_state) = demo_state\<lparr>ps_idle := [(8, 20)]\<rparr> \<and>
   (\<exists>t. (7, t) \<in> set (ps_idle demo_state) \<and> po_idle_timeout (ps_options demo_state) \<le> 20 - t)"
  using reaper_keeps_minimum [where ps = demo_state and now = 20]
  by (simp add: demo_state_def reap_def)

text \<open>A pool of one resource and two threads: the first gets the lease, the second waits.\<close>

definition one_slot :: "nat pool_state" where
  "one_slot = \<lparr>ps_options = \<lparr>po_max = 1, po_min = 0, po_idle_timeout = 0, po_reap_interval = 0, po_acquire_timeout = 0\<rparr>,
     ps_idle = [], ps_creating = 0, ps_leased = 0, ps_destroyed = False\<rparr>"

definition contended :: pool_system where
  "contended = \<lparr>sy_pool = one_slot\<lparr>ps_leased := 1\<rparr>, sy_threads = [Holding 0, Waiting], sy_fresh = 1\<rparr>"

lemma one_slot_ready: "pool_ready one_slot 0"
  by (simp add: pool_ready_def one_slot_def)

lemma reach_to:
  "pool_reachable throws s0 s \<Longrightarrow> pool_step throws s t \<Longrightarrow> t = u \<Longrightarrow> pool_reachable throws s0 u"
  by (blast intro: pool_reachable.step)

lemmas run_simps = at_def move_def one_slot_def acquire_enter_def create_finished_def total_live_def Let_def

lemma contended_reachable: "pool_reachable throws (pool_start one_slot 2 0) contended"
proof -
  let ?busy = "one_slot\<lparr>ps_creating := 1\<rparr>" and ?leased = "one_slot\<lparr>ps_leased := 1\<rparr>"
  have r0: "pool_reachable throws (pool_start one_slot 2 0) (pool_start one_slot 2 0)" by (rule pool_reachable.initial)
  have r1: "pool_reachable throws (pool_start one_slot 2 0) \<lparr>sy_pool = one_slot, sy_threads = [Enter, Outside], sy_fresh = 0\<rparr>"
    by (rule reach_to [OF r0], rule pool_step.acquire [of _ 0])
      (simp_all add: pool_start_def at_def move_def numeral_2_eq_2)
  have r2: "pool_reachable throws (pool_start one_slot 2 0) \<lparr>sy_pool = ?busy, sy_threads = [Creating, Outside], sy_fresh = 0\<rparr>"
    by (rule reach_to [OF r1], rule pool_step.start_create [of _ 0 ?busy]) (simp_all add: run_simps)
  have r3: "pool_reachable throws (pool_start one_slot 2 0)
      \<lparr>sy_pool = ?leased, sy_threads = [Finishing [ANotifyAll] (Holding 0), Outside], sy_fresh = 1\<rparr>"
    by (rule reach_to [OF r2], rule pool_step.created [of _ 0 False ?leased]) (simp_all add: run_simps)
  have r4: "pool_reachable throws (pool_start one_slot 2 0)
      \<lparr>sy_pool = ?leased, sy_threads = [Finishing [] (Holding 0), Outside], sy_fresh = 1\<rparr>"
    by (rule reach_to [OF r3], rule pool_step.notify_all [of _ 0]) (simp_all add: run_simps)
  have r5: "pool_reachable throws (pool_start one_slot 2 0)
      \<lparr>sy_pool = ?leased, sy_threads = [Holding 0, Outside], sy_fresh = 1\<rparr>"
    by (rule reach_to [OF r4], rule pool_step.finished [of _ 0]) (simp_all add: run_simps)
  have r6: "pool_reachable throws (pool_start one_slot 2 0)
      \<lparr>sy_pool = ?leased, sy_threads = [Holding 0, Enter], sy_fresh = 1\<rparr>"
    by (rule reach_to [OF r5], rule pool_step.acquire [of _ 1]) (simp_all add: run_simps)
  show ?thesis
    by (rule reach_to [OF r6], rule pool_step.block [of _ 1 ?leased]) (simp_all add: run_simps contended_def)
qed

theorem pool_never_exceeds_max_witness: "ps_leased (sy_pool contended) = weight w_lease (sy_threads contended)"
  using pool_never_exceeds_max [OF contended_reachable [of True] one_slot_ready] by blast

theorem lease_is_exclusive_witness: "0 \<notin># owned (sy_threads contended ! 1)"
proof -
  have h: "at contended 0 (Holding 0)" and w: "at contended 1 (sy_threads contended ! 1)"
    by (simp_all add: at_def contended_def)
  from lease_is_exclusive [OF contended_reachable [of True] one_slot_ready h] w show ?thesis
    by (metis zero_neq_one)
qed

definition released :: pool_system where
  "released = \<lparr>sy_pool = one_slot\<lparr>ps_idle := [(0, 9)]\<rparr>, sy_threads = [Finishing [ANotifyOne] Outside, Waiting], sy_fresh = 1\<rparr>"

theorem no_lost_wakeup_witness:
  "\<exists>j p. at released j p \<and> (p = Enter \<or> p = Woken \<or>
    (\<exists>as q. p = Finishing as q \<and> (ANotifyOne \<in> set as \<or> ANotifyAll \<in> set as)))"
proof -
  have r: "pool_reachable False (pool_start one_slot 2 0) released"
    by (rule reach_to [OF contended_reachable], rule pool_step.release [of _ 0 0 9 False "one_slot\<lparr>ps_idle := [(0, 9)]\<rparr>"])
      (simp_all add: run_simps contended_def released_def release_resource_def drop_lease_def)
  have w: "at released 1 Waiting" "wait_ready (sy_pool released)"
    by (simp_all add: released_def at_def wait_ready_def)
  show ?thesis by (rule no_lost_wakeup [OF r one_slot_ready w])
qed

text \<open>
  When destroying a resource throws, \<open>Lease::destroy\<close> skips its notification: the waiter below is never
  woken although the pool has room, and no thread is left to notify it.
\<close>

definition stranded :: pool_system where
  "stranded = \<lparr>sy_pool = one_slot, sy_threads = [Outside, Waiting], sy_fresh = 1\<rparr>"

lemma throwing_destroy_strands_waiter:
  "pool_reachable True (pool_start one_slot 2 0) stranded \<and> at stranded 1 Waiting \<and> wait_ready (sy_pool stranded)"
proof -
  have r: "pool_reachable True (pool_start one_slot 2 0)
      \<lparr>sy_pool = one_slot, sy_threads = [Finishing [ADestroy 0, ANotifyOne] Outside, Waiting], sy_fresh = 1\<rparr>"
    by (rule reach_to [OF contended_reachable], rule pool_step.destroy_lease [of _ 0])
      (simp_all add: run_simps contended_def drop_lease_def)
  have "pool_reachable True (pool_start one_slot 2 0) stranded"
    by (rule reach_to [OF r], rule pool_step.destroy_throws [of _ 0]) (simp_all add: run_simps stranded_def)
  then show ?thesis by (simp add: stranded_def at_def wait_ready_def one_slot_def total_live_def)
qed

end
