(* ===== verification/Pooled_Executor.thy ===== *)
theory Pooled_Executor
  imports Pool Values "HOL-Library.Multiset"
begin

section \<open>The pooled executor (include/metal/pooling.hpp, src/pooled_executor.cpp)\<close>

text \<open>
  A \<open>PooledExecutor\<close> borrows connections from a pool: one per call in \<open>Session\<close> mode, one kept between
  calls in \<open>Sticky\<close> mode, and one pinned for a whole transaction in both. The pool and the connections
  are an interface (the record \<open>pool_client\<close>) over a world of their own; every member function is
  an action on the executor and that world, under the executor's mutex, hence one step.
\<close>

datatype executor_mode = SessionMode | StickyMode

datatype conn_op =
    OExecute string "dbvalue list"
  | OBegin
  | OCommit
  | ORollback
  | OSavepoint string
  | OReleaseSavepoint string
  | ORollbackTo string

text \<open>\<open>Pool::acquire\<close>, \<open>Lease::release\<close>, \<open>Lease::destroy\<close> and the calls of a connection.\<close>

record ('w, 'r) pool_client =
  pc_acquire :: "('w, 'r) action"
  pc_release :: "'r \<Rightarrow> ('w, unit) action"
  pc_discard :: "'r \<Rightarrow> ('w, unit) action"
  pc_conn :: "'r \<Rightarrow> conn_op \<Rightarrow> ('w, query_result) action"

record 'r pooled =
  pe_transactions :: bool
  pe_savepoints :: bool
  pe_mode :: executor_mode
  pe_lease :: "'r option"
  pe_active :: bool

type_synonym ('w, 'r) pooled_world = "'r pooled \<times> 'w"

text \<open>An action of the world, and one whose exception is swallowed (\<open>catch (...) {}\<close>, destructors).\<close>

definition on_world :: "('w, 'a) action \<Rightarrow> (('w, 'r) pooled_world, 'a) action" where
  "on_world m pw = (case m (snd pw) of (x, w') \<Rightarrow> (x, (fst pw, w')))"

definition quietly :: "('s, 'a) action \<Rightarrow> ('s, unit) action" where
  "quietly m s = (Inr (), snd (m s))"

definition set_lease :: "'r option \<Rightarrow> (('w, 'r) pooled_world, unit) action" where
  "set_lease l pw = (Inr (), ((fst pw)\<lparr>pe_lease := l\<rparr>, snd pw))"

definition set_active :: "bool \<Rightarrow> (('w, 'r) pooled_world, unit) action" where
  "set_active b pw = (Inr (), ((fst pw)\<lparr>pe_active := b\<rparr>, snd pw))"

text \<open>\<open>try m catch (...) \<open>{ h; throw; }\<close>\<close>\<close>

definition on_error :: "('s, 'a) action \<Rightarrow> ('s, unit) action \<Rightarrow> ('s, 'a) action" where
  "on_error m h s = (case m s of (Inl e, s') \<Rightarrow> (Inl e, snd (h s')) | (Inr x, s') \<Rightarrow> (Inr x, s'))"

subsection \<open>Leases\<close>

definition ensure_lease :: "('w, 'r) pool_client \<Rightarrow> (('w, 'r) pooled_world, 'r) action" where
  "ensure_lease P pw =
     (case pe_lease (fst pw) of
        Some r \<Rightarrow> (Inr r, pw)
      | None \<Rightarrow> act_bind (on_world (pc_acquire P)) (\<lambda>r. act_bind (set_lease (Some r)) (\<lambda>_. act_return r)) pw)"

definition destroy_persistent :: "('w, 'r) pool_client \<Rightarrow> (('w, 'r) pooled_world, unit) action" where
  "destroy_persistent P = act_bind (set_active False) (\<lambda>_ pw.
     (case pe_lease (fst pw) of
        None \<Rightarrow> (Inr (), pw)
      | Some r \<Rightarrow> act_bind (quietly (on_world (pc_discard P r))) (\<lambda>_. set_lease None) pw))"

definition release_persistent :: "('w, 'r) pool_client \<Rightarrow> (('w, 'r) pooled_world, unit) action" where
  "release_persistent P pw =
     (case pe_lease (fst pw) of
        None \<Rightarrow> (Inr (), pw)
      | Some r \<Rightarrow> act_bind (quietly (on_world (pc_release P r))) (\<lambda>_. set_lease None) pw)"

subsection \<open>Statements\<close>

text \<open>The temporary lease of a call is returned by its destructor, also when the call throws.\<close>

definition with_temporary :: "('w, 'r) pool_client \<Rightarrow> ('r \<Rightarrow> ('w, 'a) action) \<Rightarrow> ('w, 'a) action" where
  "with_temporary P f = act_bind (pc_acquire P) (\<lambda>r w.
     (case f r w of (x, w') \<Rightarrow> (x, snd (pc_release P r w'))))"

definition pe_execute :: "('w, 'r) pool_client \<Rightarrow> string \<Rightarrow> dbvalue list \<Rightarrow> (('w, 'r) pooled_world, query_result) action" where
  "pe_execute P sql params pw =
     (if pe_mode (fst pw) = StickyMode \<or> pe_lease (fst pw) \<noteq> None
      then act_bind (ensure_lease P) (\<lambda>r. on_world (pc_conn P r (OExecute sql params))) pw
      else on_world (with_temporary P (\<lambda>r. pc_conn P r (OExecute sql params))) pw)"

subsection \<open>Transactions\<close>

definition no_transactions :: exn where
  "no_transactions = Logic_error ''MetalORM: pooled executor does not support transactions''"

definition pe_begin :: "('w, 'r) pool_client \<Rightarrow> (('w, 'r) pooled_world, unit) action" where
  "pe_begin P pw =
     (if \<not> pe_transactions (fst pw) then (Inl no_transactions, pw)
      else if pe_active (fst pw)
        then (Inl (Logic_error ''MetalORM: pooled executor transaction is already active''), pw)
      else act_bind (ensure_lease P) (\<lambda>r.
        on_error (act_bind (on_world (pc_conn P r OBegin)) (\<lambda>_. set_active True)) (destroy_persistent P)) pw)"

text \<open>The end of a transaction: the lease leaves the executor under the lock and is returned after it.\<close>

definition finish_transaction :: "('w, 'r) pool_client \<Rightarrow> 'r \<Rightarrow> conn_op \<Rightarrow> (('w, 'r) pooled_world, unit) action" where
  "finish_transaction P r op =
     act_bind (on_error (on_world (pc_conn P r op)) (destroy_persistent P)) (\<lambda>_.
       act_bind (set_active False) (\<lambda>_. act_bind (set_lease None) (\<lambda>_. on_world (pc_release P r))))"

definition pe_commit :: "('w, 'r) pool_client \<Rightarrow> (('w, 'r) pooled_world, unit) action" where
  "pe_commit P pw =
     (if \<not> pe_transactions (fst pw) then (Inl no_transactions, pw)
      else case (pe_active (fst pw), pe_lease (fst pw)) of
          (True, Some r) \<Rightarrow> finish_transaction P r OCommit pw
        | _ \<Rightarrow> (Inl (Logic_error ''MetalORM: commit_transaction called without an active transaction''), pw))"

definition pe_rollback :: "('w, 'r) pool_client \<Rightarrow> (('w, 'r) pooled_world, unit) action" where
  "pe_rollback P pw =
     (if \<not> pe_transactions (fst pw) then (Inl no_transactions, pw)
      else case (pe_active (fst pw), pe_lease (fst pw)) of
          (True, Some r) \<Rightarrow> finish_transaction P r ORollback pw
        | _ \<Rightarrow> (Inr (), pw))"

definition in_transaction :: "('w, 'r) pool_client \<Rightarrow> string \<Rightarrow> conn_op \<Rightarrow> (('w, 'r) pooled_world, unit) action" where
  "in_transaction P name op pw =
     (if \<not> pe_savepoints (fst pw)
      then (Inl (Logic_error ''MetalORM: savepoints are not supported by this pooled executor''), pw)
      else case (pe_active (fst pw), pe_lease (fst pw)) of
          (True, Some r) \<Rightarrow> act_bind (on_world (pc_conn P r op)) (\<lambda>_. act_return ()) pw
        | _ \<Rightarrow> (Inl (Logic_error (''MetalORM: '' @ name @ '' called without an active transaction'')), pw))"

definition pe_savepoint :: "('w, 'r) pool_client \<Rightarrow> string \<Rightarrow> (('w, 'r) pooled_world, unit) action" where
  "pe_savepoint P n = in_transaction P ''savepoint'' (OSavepoint n)"

definition pe_release_savepoint :: "('w, 'r) pool_client \<Rightarrow> string \<Rightarrow> (('w, 'r) pooled_world, unit) action" where
  "pe_release_savepoint P n = in_transaction P ''release_savepoint'' (OReleaseSavepoint n)"

definition pe_rollback_to :: "('w, 'r) pool_client \<Rightarrow> string \<Rightarrow> (('w, 'r) pooled_world, unit) action" where
  "pe_rollback_to P n = in_transaction P ''rollback_to_savepoint'' (ORollbackTo n)"

text \<open>The destructor.\<close>

definition pe_dispose :: "('w, 'r) pool_client \<Rightarrow> (('w, 'r) pooled_world, unit) action" where
  "pe_dispose P pw =
     (case pe_lease (fst pw) of
        None \<Rightarrow> (Inr (), pw)
      | Some r \<Rightarrow>
          if pe_active (fst pw)
          then quietly (act_bind (on_error (on_world (pc_conn P r ORollback)) (destroy_persistent P)) (\<lambda>_.
            act_bind (set_active False) (\<lambda>_. release_persistent P))) pw
          else release_persistent P pw)"

definition new_pooled :: "bool \<Rightarrow> bool \<Rightarrow> executor_mode \<Rightarrow> 'r pooled" where
  "new_pooled tx sp mode = \<lparr>pe_transactions = tx, pe_savepoints = sp, pe_mode = mode, pe_lease = None, pe_active = False\<rparr>"

text \<open>Every SQLite connection to \<open>:memory:\<close> is a database of its own.\<close>

definition sqlite_pool_options :: "string \<Rightarrow> pool_options \<Rightarrow> pool_options result" where
  "sqlite_pool_options filename opt =
     (if filename = '':memory:'' \<and> po_max opt > 1
      then Inl (Invalid_argument ''MetalORM: a SQLite :memory: pool cannot use max > 1 because each connection has an isolated database'')
      else normalize_options opt)"

text \<open>What the pool asks an idle SQLite connection before it lends it.\<close>

definition sqlite_validate :: "('w, query_result) action \<Rightarrow> 'w \<Rightarrow> bool \<times> 'w" where
  "sqlite_validate ask w = (case ask w of (Inl e, w') \<Rightarrow> (False, w') | (Inr q, w') \<Rightarrow> (qr_rows q \<noteq> [], w'))"

subsection \<open>Sequences of calls\<close>

datatype pooled_op =
    POExecute string "dbvalue list"
  | POBegin
  | POCommit
  | PORollback
  | POSavepoint string
  | POReleaseSavepoint string
  | PORollbackTo string
  | PODispose

fun pooled_call :: "('w, 'r) pool_client \<Rightarrow> pooled_op \<Rightarrow> ('w, 'r) pooled_world \<Rightarrow> ('w, 'r) pooled_world" where
  "pooled_call P (POExecute sql ps) pw = snd (pe_execute P sql ps pw)"
| "pooled_call P POBegin pw = snd (pe_begin P pw)"
| "pooled_call P POCommit pw = snd (pe_commit P pw)"
| "pooled_call P PORollback pw = snd (pe_rollback P pw)"
| "pooled_call P (POSavepoint n) pw = snd (pe_savepoint P n pw)"
| "pooled_call P (POReleaseSavepoint n) pw = snd (pe_release_savepoint P n pw)"
| "pooled_call P (PORollbackTo n) pw = snd (pe_rollback_to P n pw)"
| "pooled_call P PODispose pw = snd (pe_dispose P pw)"

fun pooled_calls :: "('w, 'r) pool_client \<Rightarrow> pooled_op list \<Rightarrow> ('w, 'r) pooled_world \<Rightarrow> ('w, 'r) pooled_world" where
  "pooled_calls P [] pw = pw"
| "pooled_calls P (op # ops) pw = pooled_calls P ops (pooled_call P op pw)"

end
