(* ===== verification/Pooled_Leases.thy ===== *)
theory Pooled_Leases
  imports Pooled_Executor
begin

section \<open>The leases of a pooled executor\<close>

text \<open>
  The contract of the pool and of its connections as a locale: which leases are out and which
  calls reached which connection. Inside it, what every sequence of calls of a pooled executor keeps; it
  is interpreted on the pool of \<open>Pool\<close>.
\<close>

locale lease_pool =
  fixes P :: "('w, 'r) pool_client"
    and out :: "'w \<Rightarrow> 'r multiset"
    and log :: "'w \<Rightarrow> ('r \<times> conn_op) list"
  assumes acquired: "pc_acquire P w = (Inr r, w') \<Longrightarrow> out w' = add_mset r (out w) \<and> log w' = log w"
    and not_acquired: "pc_acquire P w = (Inl e, w') \<Longrightarrow> out w' = out w \<and> log w' = log w"
    and released: "out (snd (pc_release P r w)) = out w - {#r#} \<and> log (snd (pc_release P r w)) = log w"
    and discarded: "out (snd (pc_discard P r w)) = out w - {#r#} \<and> log (snd (pc_discard P r w)) = log w"
    and called: "out (snd (pc_conn P r op w)) = out w \<and> log (snd (pc_conn P r op w)) = log w @ [(r, op)]"
begin

text \<open>The leases out are those of the others and the one the executor keeps.\<close>

definition kept :: "'r pooled \<Rightarrow> 'r multiset" where
  "kept p = (case pe_lease p of None \<Rightarrow> {#} | Some r \<Rightarrow> {#r#})"

definition lease_inv :: "'r multiset \<Rightarrow> ('w, 'r) pooled_world \<Rightarrow> bool" where
  "lease_inv others pw \<longleftrightarrow> out (snd pw) = others + kept (fst pw) \<and>
     (pe_active (fst pw) \<longrightarrow> pe_lease (fst pw) \<noteq> None) \<and>
     (pe_mode (fst pw) = SessionMode \<longrightarrow> pe_lease (fst pw) \<noteq> None \<longrightarrow> pe_active (fst pw))"

lemma called_snd: "pc_conn P r op w = (x, w') \<Longrightarrow> out w' = out w \<and> log w' = log w @ [(r, op)]"
  using called [of r op w] by simp

lemma released_snd: "pc_release P r w = (x, w') \<Longrightarrow> out w' = out w - {#r#} \<and> log w' = log w"
  using released [of r w] by simp

lemma discarded_snd: "pc_discard P r w = (x, w') \<Longrightarrow> out w' = out w - {#r#} \<and> log w' = log w"
  using discarded [of r w] by simp

lemmas pool_laws = acquired not_acquired called_snd released_snd discarded_snd

lemmas pe_defs = on_world_def quietly_def set_lease_def set_active_def on_error_def act_bind_def ensure_lease_def
  destroy_persistent_def release_persistent_def with_temporary_def finish_transaction_def

lemma inv_execute:
  assumes "lease_inv others pw"
  shows "lease_inv others (snd (pe_execute P sql ps pw))"
proof (cases "pe_lease (fst pw)")
  case None
  then show ?thesis using assms
    by (auto simp: pe_execute_def pe_defs lease_inv_def kept_def released split: prod.splits sum.splits dest!: pool_laws)
next
  case (Some r)
  then show ?thesis using assms
    by (auto simp: pe_execute_def pe_defs lease_inv_def kept_def split: prod.splits sum.splits dest!: pool_laws)
qed

lemma inv_begin:
  assumes "lease_inv others pw"
  shows "lease_inv others (snd (pe_begin P pw))"
proof (cases "pe_lease (fst pw)")
  case None
  then show ?thesis using assms
    by (auto simp: pe_begin_def pe_defs lease_inv_def kept_def split: prod.splits sum.splits dest!: pool_laws)
next
  case (Some r)
  then show ?thesis using assms
    by (auto simp: pe_begin_def pe_defs lease_inv_def kept_def split: prod.splits sum.splits dest!: pool_laws)
qed

lemma inv_finish:
  assumes "lease_inv others pw" and "pe_lease (fst pw) = Some r" and "pe_active (fst pw)"
  shows "lease_inv others (snd (finish_transaction P r op pw))"
  using assms
  by (auto simp: pe_defs lease_inv_def kept_def split: prod.splits sum.splits dest!: pool_laws)

lemma inv_commit: "lease_inv others pw \<Longrightarrow> lease_inv others (snd (pe_commit P pw))"
  by (simp add: pe_commit_def inv_finish split: bool.split option.split)

lemma inv_rollback: "lease_inv others pw \<Longrightarrow> lease_inv others (snd (pe_rollback P pw))"
  by (simp add: pe_rollback_def inv_finish split: bool.split option.split)

lemma inv_in_transaction: "lease_inv others pw \<Longrightarrow> lease_inv others (snd (in_transaction P name op pw))"
  by (auto simp: in_transaction_def pe_defs lease_inv_def kept_def split: bool.splits option.splits prod.splits sum.splits
      dest!: pool_laws)

lemma inv_dispose: "lease_inv others pw \<Longrightarrow> lease_inv others (snd (pe_dispose P pw))"
  by (auto simp: pe_dispose_def pe_defs lease_inv_def kept_def split: option.splits prod.splits sum.splits dest!: pool_laws)

lemma inv_call: "lease_inv others pw \<Longrightarrow> lease_inv others (pooled_call P op pw)"
  by (cases op) (simp_all add: inv_execute inv_begin inv_commit inv_rollback inv_dispose inv_in_transaction
      pe_savepoint_def pe_release_savepoint_def pe_rollback_to_def)

lemma inv_calls: "lease_inv others pw \<Longrightarrow> lease_inv others (pooled_calls P ops pw)"
  by (induction ops arbitrary: pw) (simp_all add: inv_call)

lemma calls_mode: "pe_mode (fst (pooled_call P op pw)) = pe_mode (fst pw)"
proof -
  have "pe_mode (fst (snd (finish_transaction P r op' pw))) = pe_mode (fst pw)" for r op'
    by (auto simp: pe_defs split: prod.splits sum.splits option.splits)
  then show ?thesis
    by (cases op) (auto simp: pe_execute_def pe_begin_def pe_commit_def pe_rollback_def pe_savepoint_def
        pe_release_savepoint_def pe_rollback_to_def in_transaction_def pe_dispose_def pe_defs
        split: bool.splits option.splits prod.splits sum.splits)
qed

lemma after_dispose: "pe_lease (fst (snd (pe_dispose P pw))) = None"
  by (auto simp: pe_dispose_def pe_defs split: option.splits prod.splits sum.splits)

text \<open>Inside a transaction every call goes to the connection that began it.\<close>

lemma pinned_call:
  assumes "pe_active (fst pw)" and "pe_lease (fst pw) = Some r" and "op \<notin> {POCommit, PORollback, PODispose}"
  shows "fst (pooled_call P op pw) = fst pw \<and>
    (\<exists>ops. log (snd (pooled_call P op pw)) = log (snd pw) @ List.map (\<lambda>o'. (r, o')) ops)"
proof -
  have one: "\<exists>ops. [(r, o')] = List.map (\<lambda>o'. (r, o')) ops" for o'
    by (intro exI [of _ "[o']"]) simp
  have tx: "fst (snd (in_transaction P name o' pw)) = fst pw \<and>
      (\<exists>ops. log (snd (snd (in_transaction P name o' pw))) = log (snd pw) @ List.map (\<lambda>o'. (r, o')) ops)" for name o'
    using assms(1,2) by (auto simp: in_transaction_def pe_defs one split: prod.splits sum.splits dest!: called_snd)
  show ?thesis using assms tx
    by (cases op) (auto simp: pe_execute_def pe_begin_def pe_savepoint_def pe_release_savepoint_def pe_rollback_to_def
        pe_defs one split: prod.splits sum.splits dest!: called_snd)
qed

lemma pinned_calls:
  "pe_active (fst pw) \<Longrightarrow> pe_lease (fst pw) = Some r \<Longrightarrow> set ops \<inter> {POCommit, PORollback, PODispose} = {} \<Longrightarrow>
     fst (pooled_calls P ops pw) = fst pw \<and>
     (\<exists>sent. log (snd (pooled_calls P ops pw)) = log (snd pw) @ List.map (\<lambda>o'. (r, o')) sent)"
proof (induction ops arbitrary: pw)
  case (Cons op ops)
  have op: "op \<notin> {POCommit, PORollback, PODispose}" using Cons.prems(3) by auto
  note call = pinned_call [OF Cons.prems(1,2) op]
  then obtain sent1 where s1: "log (snd (pooled_call P op pw)) = log (snd pw) @ List.map (\<lambda>o'. (r, o')) sent1" by blast
  from Cons.IH [of "pooled_call P op pw"] Cons.prems call obtain sent2 where
    "fst (pooled_calls P ops (pooled_call P op pw)) = fst pw"
    "log (snd (pooled_calls P ops (pooled_call P op pw))) =
       log (snd (pooled_call P op pw)) @ List.map (\<lambda>o'. (r, o')) sent2" by auto
  with s1 show ?case by (auto intro!: exI [of _ "sent1 @ sent2"])
qed (auto intro!: exI [of _ "[]"])

end

subsection \<open>The contract on the pool\<close>

text \<open>
  A pool nobody else uses, with an acquire timeout: \<open>acquire\<close> as the sequence of the critical sections of
  \<open>Pool\<close>, where waiting ends with the timeout. Validating and creating a connection and what a
  connection answers belong to an environment; destroying a connection does not throw.
\<close>

record 'e alone =
  al_pool :: "nat pool_state"
  al_env :: 'e
  al_out :: "nat multiset"
  al_log :: "(nat \<times> conn_op) list"

definition take_out :: "nat \<Rightarrow> 'e alone \<Rightarrow> 'e alone" where
  "take_out r w = w\<lparr>al_out := add_mset r (al_out w)\<rparr>"

definition take_back :: "nat \<Rightarrow> 'e alone \<Rightarrow> 'e alone" where
  "take_back r w = w\<lparr>al_out := al_out w - {#r#}\<rparr>"

function acquire_alone ::
  "(nat \<Rightarrow> 'e \<Rightarrow> bool result \<times> 'e) \<Rightarrow> ('e \<Rightarrow> nat result \<times> 'e) \<Rightarrow> ('e alone, nat) action" where
  "acquire_alone validate create w =
     (case acquire_enter (al_pool w) of
        (PoolDestroyed, ps) \<Rightarrow> (Inl (Runtime_error ''MetalORM: pool is destroyed''), w)
      | (MustWait, ps) \<Rightarrow> (Inl (Runtime_error ''MetalORM: pool acquire timeout''), w)
      | (TakeIdle r, ps) \<Rightarrow>
          (case validate r (al_env w) of
             (Inl e, env) \<Rightarrow> (Inl e, w\<lparr>al_pool := drop_lease ps, al_env := env\<rparr>)
           | (Inr False, env) \<Rightarrow> acquire_alone validate create (w\<lparr>al_pool := drop_lease ps, al_env := env\<rparr>)
           | (Inr True, env) \<Rightarrow> (Inr r, take_out r (w\<lparr>al_pool := snd (lease_validated ps), al_env := env\<rparr>)))
      | (CreateNew, ps) \<Rightarrow>
          (case create (al_env w) of
             (Inl e, env) \<Rightarrow> (Inl e, w\<lparr>al_pool := create_failed ps, al_env := env\<rparr>)
           | (Inr r, env) \<Rightarrow> (Inr r, take_out r (w\<lparr>al_pool := snd (create_finished ps), al_env := env\<rparr>))))"
  by pat_completeness auto
termination
  by (relation "measure (\<lambda>(v, c, w). length (ps_idle (al_pool w)))")
    (auto simp: acquire_enter_def drop_lease_def split: if_splits)

declare acquire_alone.simps [simp del]

definition release_alone :: "int \<Rightarrow> nat \<Rightarrow> ('e alone, unit) action" where
  "release_alone now r w = (Inr (), take_back r (w\<lparr>al_pool := snd (release_resource r now (al_pool w))\<rparr>))"

definition discard_alone :: "nat \<Rightarrow> ('e alone, unit) action" where
  "discard_alone r w = (Inr (), take_back r (w\<lparr>al_pool := drop_lease (al_pool w)\<rparr>))"

definition conn_alone :: "(nat \<Rightarrow> conn_op \<Rightarrow> 'e \<Rightarrow> query_result result \<times> 'e) \<Rightarrow> nat \<Rightarrow> conn_op \<Rightarrow> ('e alone, query_result) action" where
  "conn_alone answer r op w =
     (case answer r op (al_env w) of (x, env) \<Rightarrow> (x, w\<lparr>al_env := env, al_log := al_log w @ [(r, op)]\<rparr>))"

definition alone_client where
  "alone_client validate create answer now =
     \<lparr>pc_acquire = acquire_alone validate create, pc_release = release_alone now, pc_discard = discard_alone,
      pc_conn = conn_alone answer\<rparr>"

lemma acquire_alone_out:
  "acquire_alone validate create w = (x, w') \<Longrightarrow>
     al_out w' = (case x of Inl e \<Rightarrow> al_out w | Inr r \<Rightarrow> add_mset r (al_out w)) \<and> al_log w' = al_log w"
proof (induction validate create w arbitrary: x w' rule: acquire_alone.induct)
  case (1 validate create w)
  have retry: "al_out w' = (case x of Inl e \<Rightarrow> al_out w | Inr r \<Rightarrow> add_mset r (al_out w)) \<and> al_log w' = al_log w"
    if "acquire_enter (al_pool w) = (TakeIdle r, ps)" "validate r (al_env w) = (Inr False, env)"
      "acquire_alone validate create (w\<lparr>al_pool := drop_lease ps, al_env := env\<rparr>) = (x, w')" for r ps env
    using 1(1) [OF that(1) [symmetric] refl that(2) [symmetric] refl refl that(3)] by (cases x) simp_all
  from 1(2) show ?case
    by (subst (asm) acquire_alone.simps)
      (auto simp: take_out_def split: prod.splits acquire_choice.splits sum.splits bool.splits dest: retry)
qed

interpretation alone: lease_pool "alone_client validate create answer now" al_out al_log
  for validate :: "nat \<Rightarrow> 'e \<Rightarrow> bool result \<times> 'e" and create answer now
  by unfold_locales
    (auto simp: alone_client_def release_alone_def discard_alone_def conn_alone_def take_back_def
      dest!: acquire_alone_out split: prod.splits)

text \<open>The ghost multiset is what the pool counts: its lease counter is the number of leases out.\<close>

lemma acquire_alone_counts:
  "acquire_alone validate create w = (x, w') \<Longrightarrow> ps_leased (al_pool w) = size (al_out w) \<Longrightarrow>
     ps_leased (al_pool w') = size (al_out w')"
proof (induction validate create w arbitrary: x w' rule: acquire_alone.induct)
  case (1 validate create w)
  have retry: "ps_leased (al_pool w') = size (al_out w')"
    if "acquire_enter (al_pool w) = (TakeIdle r, ps)" "validate r (al_env w) = (Inr False, env)"
      "acquire_alone validate create (w\<lparr>al_pool := drop_lease ps, al_env := env\<rparr>) = (x, w')" for r ps env
    using 1(1) [OF that(1) [symmetric] refl that(2) [symmetric] refl refl that(3)] that(1) 1(3)
    by (auto simp: acquire_enter_def drop_lease_def split: if_splits)
  have again: "ps_leased (al_pool w') = size (al_out w')"
    if "\<not> ps_destroyed (al_pool w)" "ps_idle (al_pool w) \<noteq> []"
      "validate (fst (last (ps_idle (al_pool w)))) (al_env w) = (Inr False, env)"
      "acquire_alone validate create (w\<lparr>al_pool := al_pool w\<lparr>ps_idle := butlast (ps_idle (al_pool w)),
         ps_leased := size (al_out w)\<rparr>, al_env := env\<rparr>) = (x, w')" for env
    using retry [OF _ that(3)] that 1(3) by (simp add: acquire_enter_def drop_lease_def)
  from 1(2,3) show ?case
    by (subst (asm) acquire_alone.simps)
      (auto simp: take_out_def acquire_enter_def drop_lease_def lease_validated_def create_failed_def
        create_finished_def Let_def split: prod.splits acquire_choice.splits sum.splits bool.splits if_splits
        dest: again)
qed

subsection \<open>The properties\<close>

text \<open>
  C22. Whatever calls a pooled executor makes, and however they fail, it has never more than one lease of
  the pool out, the one it keeps; in \<open>Session\<close> mode it keeps one exactly while a transaction is
  active; after its destructor it has none.
\<close>

theorem pooled_executor_leases:
  fixes w :: "'e alone"
  shows "case pooled_calls (alone_client validate create answer now) ops (new_pooled tx sp mode, w) of (p, w') \<Rightarrow>
     al_out w' = al_out w + (case pe_lease p of None \<Rightarrow> {#} | Some r \<Rightarrow> {#r#}) \<and>
     (pe_active p \<longrightarrow> pe_lease p \<noteq> None) \<and>
     (pe_mode p = SessionMode \<longrightarrow> pe_lease p \<noteq> None \<longrightarrow> pe_active p) \<and>
     al_out (snd (snd (pe_dispose (alone_client validate create answer now) (p, w')))) = al_out w"
proof -
  let ?P = "alone_client validate create answer now"
  obtain p w' where run: "pooled_calls ?P ops (new_pooled tx sp mode, w) = (p, w')" by fastforce
  have "alone.lease_inv (al_out w) (new_pooled tx sp mode, w)"
    by (simp add: alone.lease_inv_def alone.kept_def new_pooled_def)
  from alone.inv_calls [OF this, of validate create answer now ops]
  have inv: "alone.lease_inv (al_out w) (p, w')" by (simp add: run)
  have "al_out (snd (snd (pe_dispose ?P (p, w')))) = al_out w"
    using alone.inv_dispose [OF inv, of validate create answer now] alone.after_dispose [of validate create answer now "(p, w')"]
    by (simp add: alone.lease_inv_def alone.kept_def)
  with inv show ?thesis by (simp add: run alone.lease_inv_def alone.kept_def)
qed


definition demo_pool_world :: "nat alone" where
  "demo_pool_world = \<lparr>al_pool = \<lparr>ps_options = \<lparr>po_max = 2, po_min = 0, po_idle_timeout = 0, po_reap_interval = 0,
       po_acquire_timeout = 5\<rparr>, ps_idle = [(3, 0)], ps_creating = 0, ps_leased = 0, ps_destroyed = False\<rparr>,
     al_env = 7, al_out = {#}, al_log = []\<rparr>"

definition demo_answer :: "nat \<Rightarrow> conn_op \<Rightarrow> nat \<Rightarrow> query_result result \<times> nat" where
  "demo_answer r op e = (if op = OExecute ''bad'' [] then Inl (Backend_failure ''bad'')
     else Inr \<lparr>qr_rows = [], qr_affected = 0, qr_last_id = 0\<rparr>, e)"

definition demo_begun :: "(nat alone, nat) pooled_world" where
  "demo_begun = pooled_calls (alone_client (\<lambda>r e. (Inr True, e)) (\<lambda>e. (Inr e, Suc e)) demo_answer 0)
     [POBegin] (new_pooled True True SessionMode, demo_pool_world)"


theorem pooled_executor_leases_witness: "al_out (snd demo_begun) = {#3#}"
proof -
  have l: "pe_lease (fst demo_begun) = Some 3" by code_simp
  have "al_out demo_pool_world = {#}" by (simp add: demo_pool_world_def)
  with l pooled_executor_leases [where w = demo_pool_world and ops = "[POBegin]" and tx = True and sp = True
      and mode = SessionMode and validate = "\<lambda>r e. (Inr True, e)" and create = "\<lambda>e. (Inr e, Suc e)"
      and answer = demo_answer and now = 0]
  show ?thesis by (simp add: demo_begun_def split: prod.splits)
qed

end
