(* ===== verification/Placeholders.thy ===== *)
theory Placeholders
  imports Query_Compiler
begin

section \<open>The placeholders of a compilation\<close>

text \<open>
  A compilation is a sequence of steps that write text and push parameters. The calculus here shows, step
  by step, that the placeholders of the text are the numbers of the parameters; the statements of
  \<open>Dml\<close> and the queries of \<open>Select_Query\<close> use it.
\<close>

fun act_map :: "('a \<Rightarrow> ('s, 'b) action) \<Rightarrow> 'a list \<Rightarrow> ('s, 'b list) action" where
  "act_map f [] = act_return []"
| "act_map f (x # xs) = act_bind (f x) (\<lambda>y. act_bind (act_map f xs) (\<lambda>ys. act_return (y # ys)))"

text \<open>
  \<open>numbered\<close>: a step that numbers the placeholders it writes as the parameters it pushes. It is kept by
  sequencing, so every step of the compilation has it.
\<close>

named_theorems numbered_intros \<open>the steps of the compilation that number their placeholders\<close>

definition numbered_after :: "nat \<Rightarrow> nat list \<Rightarrow> (dbvalue list, 'a) action \<Rightarrow> ('a \<Rightarrow> nat list) \<Rightarrow> bool" where
  "numbered_after k before m hs \<longleftrightarrow>
     (\<forall>ps x ps'. m ps = (Inr x, ps') \<longrightarrow> (\<exists>new. hs x = before @ new \<and> binds k ps new ps'))"

abbreviation numbered :: "nat \<Rightarrow> (dbvalue list, 'a) action \<Rightarrow> ('a \<Rightarrow> nat list) \<Rightarrow> bool" where
  "numbered k \<equiv> numbered_after k []"

abbreviation holes_of :: "sql list \<Rightarrow> nat list" where
  "holes_of qs \<equiv> concat (List.map holes qs)"

lemma numbered_def: "numbered k m hs \<longleftrightarrow> (\<forall>ps x ps'. m ps = (Inr x, ps') \<longrightarrow> binds k ps (hs x) ps')"
  by (simp add: numbered_after_def)

lemma numbered_return [numbered_intros]: "hs x = before \<Longrightarrow> numbered_after k before (act_return x) hs"
  by (simp add: numbered_after_def)

lemma numbered_throw [numbered_intros]: "numbered_after k before (act_throw e) hs"
  by (simp add: numbered_after_def)

lemma numbered_bind:
  assumes m: "numbered k m hs" and f: "\<And>x. numbered_after k (before @ hs x) (f x) ls"
  shows "numbered_after k before (act_bind m f) ls"
  unfolding numbered_after_def
proof (intro allI impI)
  fix ps y ps'
  assume "act_bind m f ps = (Inr y, ps')"
  then obtain x ps1 where run: "m ps = (Inr x, ps1)" "f x ps1 = (Inr y, ps')" by (auto simp: result_simps)
  from run(1) m have first: "binds k ps (hs x) ps1" by (auto simp: numbered_def)
  from run(2) f obtain new where "ls y = (before @ hs x) @ new" "binds k ps1 new ps'"
    by (auto simp: numbered_after_def) metis
  with first have "ls y = before @ (hs x @ new)" "binds k ps (hs x @ new) ps'" by (auto intro: binds_append)
  then show "\<exists>new. ls y = before @ new \<and> binds k ps new ps'" by blast
qed

lemma numbered_map: "(\<And>x. numbered k (f x) holes) \<Longrightarrow> numbered k (act_map f xs) holes_of"
proof (induction xs)
  case Nil
  then show ?case by (simp add: numbered_def)
next
  case (Cons x xs)
  then have "numbered k (f x) holes" "numbered k (act_map f xs) holes_of" by auto
  then show ?case by (auto intro!: numbered_bind numbered_return)
qed

lemma numbered_push [numbered_intros]: "cx_offset c = k \<Longrightarrow> numbered k (push_param c v) holes"
  by (auto simp: numbered_def dest: binds_push)

lemma numbered_pushes [numbered_intros]: "cx_offset c = k \<Longrightarrow> numbered k (push_params c vs) holes_of"
  by (auto simp: numbered_def dest: binds_pushes)

end
