(* ===== verification/Dml.thy ===== *)
theory Dml
  imports Placeholders
begin

section \<open>INSERT, UPDATE and DELETE (include/metal/dml.hpp)\<close>

text \<open>
  The statement nodes, the builders as functions on them, and the compilation to SQL with its
  parameters. \<open>UpdateNode\<close> has the fields of \<open>DeleteNode\<close> and the assignments, hence the record
  extension; the builders both classes have are defined once, on the common part.
\<close>

datatype dml_operand = DmlValue dbvalue | DmlExcluded string

record dml_assignment =
  da_column :: string
  da_value :: dml_operand

record dml_predicate =
  dp_column :: string
  dp_op :: compare_op
  dp_value :: dbvalue

record dml_in_predicate =
  di_column :: string
  di_values :: "dbvalue list"
  di_negated :: bool

type_synonym dml_where_compiler = "dialect \<Rightarrow> (dbvalue list, sql) action"

record dml_returning =
  dr_column :: string
  dr_alias :: "string option"

record dml_conflict_clause =
  dc_columns :: "string list"
  dc_constraint :: "string option"
  dc_do_nothing :: bool
  dc_assignments :: "dml_assignment list"
  dc_predicates :: "dml_predicate list"

record insert_node =
  in_table :: string
  in_columns :: "string list"
  in_rows :: "dml_assignment list list"
  in_select_source :: "(dialect \<Rightarrow> compiled_query result) option"
  in_conflict :: "dml_conflict_clause option"
  in_returning :: "dml_returning list"

record delete_node =
  dn_table :: string
  dn_predicates :: "dml_predicate list"
  dn_in_predicates :: "dml_in_predicate list"
  dn_extra_where :: "dml_where_compiler option"
  dn_returning :: "dml_returning list"

record update_node = delete_node +
  un_assignments :: "dml_assignment list"

subsection \<open>Builders\<close>

definition new_insert :: "string \<Rightarrow> insert_node" where
  "new_insert t = \<lparr>in_table = t, in_columns = [], in_rows = [], in_select_source = None, in_conflict = None, in_returning = []\<rparr>"

definition insert_columns :: "string list \<Rightarrow> insert_node \<Rightarrow> insert_node" where
  "insert_columns cs n = (if cs \<noteq> [] then n\<lparr>in_columns := cs\<rparr> else n)"

definition insert_values :: "dml_assignment list \<Rightarrow> insert_node \<Rightarrow> insert_node result" where
  "insert_values row n =
     (if in_select_source n \<noteq> None
      then Inl (Logic_error ''MetalORM: cannot mix INSERT ... VALUES with INSERT ... SELECT'')
      else if row = [] then Inr n
      else let n' = (if in_columns n = [] then n\<lparr>in_columns := List.map da_column row\<rparr> else n) in
        Inr (n'\<lparr>in_rows := in_rows n' @ [row]\<rparr>))"

fun insert_rows :: "dml_assignment list list \<Rightarrow> insert_node \<Rightarrow> insert_node result" where
  "insert_rows [] n = Inr n"
| "insert_rows (r # rs) n = rbind (insert_values r n) (insert_rows rs)"

text \<open>\<open>known\<close> is the column list the builder was made with.\<close>

definition insert_from_select ::
  "string list \<Rightarrow> (dialect \<Rightarrow> compiled_query result) \<Rightarrow> string list \<Rightarrow> insert_node \<Rightarrow> insert_node result" where
  "insert_from_select known query cs n =
     (if in_rows n \<noteq> []
      then Inl (Logic_error ''MetalORM: cannot mix INSERT ... VALUES with INSERT ... SELECT'')
      else let n1 = (if cs \<noteq> [] then n\<lparr>in_columns := cs\<rparr> else n);
               n2 = (if in_columns n1 = [] then n1\<lparr>in_columns := known\<rparr> else n1) in
        if in_columns n2 = [] then Inl (Logic_error ''MetalORM: INSERT ... SELECT requires destination columns'')
        else Inr (n2\<lparr>in_select_source := Some query\<rparr>))"

definition conflict_do_nothing :: "string list \<Rightarrow> string option \<Rightarrow> insert_node \<Rightarrow> insert_node" where
  "conflict_do_nothing cs con n = n\<lparr>in_conflict := Some \<lparr>dc_columns = cs, dc_constraint = con, dc_do_nothing = True,
     dc_assignments = [], dc_predicates = []\<rparr>\<rparr>"

definition conflict_do_update ::
  "string list \<Rightarrow> string option \<Rightarrow> dml_assignment list \<Rightarrow> dml_predicate list \<Rightarrow> insert_node \<Rightarrow> insert_node result" where
  "conflict_do_update cs con asg preds n =
     (if asg = [] then Inl (Logic_error ''MetalORM: ON CONFLICT DO UPDATE requires at least one assignment'')
      else Inr (n\<lparr>in_conflict := Some \<lparr>dc_columns = cs, dc_constraint = con, dc_do_nothing = False,
        dc_assignments = asg, dc_predicates = preds\<rparr>\<rparr>))"

definition conflict_constraint :: "string \<Rightarrow> string option result" where
  "conflict_constraint c =
     (if c = [] then Inl (Invalid_argument ''MetalORM: ON CONFLICT constraint name cannot be empty'') else Inr (Some c))"

definition returning_columns :: "string list \<Rightarrow> dml_returning list" where
  "returning_columns cs = List.map (\<lambda>c. \<lparr>dr_column = c, dr_alias = None\<rparr>) cs"

definition insert_returning :: "string list \<Rightarrow> insert_node \<Rightarrow> insert_node" where
  "insert_returning cs n = n\<lparr>in_returning := returning_columns cs\<rparr>"

definition new_delete :: "string \<Rightarrow> delete_node" where
  "new_delete t = \<lparr>dn_table = t, dn_predicates = [], dn_in_predicates = [], dn_extra_where = None, dn_returning = []\<rparr>"

definition new_update :: "string \<Rightarrow> update_node" where
  "new_update t = \<lparr>dn_table = t, dn_predicates = [], dn_in_predicates = [], dn_extra_where = None, dn_returning = [],
     un_assignments = []\<rparr>"

definition update_set :: "dml_assignment list \<Rightarrow> update_node \<Rightarrow> update_node" where
  "update_set asg n = n\<lparr>un_assignments := asg\<rparr>"

definition dml_where_predicates :: "dml_predicate list \<Rightarrow> 'a delete_node_scheme \<Rightarrow> 'a delete_node_scheme" where
  "dml_where_predicates ps n = n\<lparr>dn_predicates := ps, dn_in_predicates := [], dn_extra_where := None\<rparr>"

definition where_eq :: "string \<Rightarrow> dbvalue \<Rightarrow> 'a delete_node_scheme \<Rightarrow> 'a delete_node_scheme" where
  "where_eq c v n = n\<lparr>dn_predicates := dn_predicates n @ [\<lparr>dp_column = c, dp_op = OpEq, dp_value = v\<rparr>]\<rparr>"

definition where_in :: "string \<Rightarrow> dbvalue list \<Rightarrow> bool \<Rightarrow> 'a delete_node_scheme \<Rightarrow> 'a delete_node_scheme" where
  "where_in c vs neg n = n\<lparr>dn_in_predicates := dn_in_predicates n @ [\<lparr>di_column = c, di_values = vs, di_negated = neg\<rparr>]\<rparr>"

text \<open>
  A condition over the entity of the table (\<open>owner\<close>, with its table name): compiled without an alias. Its
  table has to be the one of the statement.
\<close>

definition dml_where :: "type_index \<Rightarrow> expr \<Rightarrow> dml_where_compiler" where
  "dml_where owner e d = compile_expression \<lparr>cx_dialect = d, cx_offset = 0, cx_aliases = [(owner, [])]\<rparr> e"

definition owner_error :: "string \<Rightarrow> exn" where
  "owner_error stmt = Logic_error (''MetalORM: '' @ stmt @ '' expression owner does not match target table'')"

definition where_expression ::
  "string \<Rightarrow> string \<Rightarrow> type_index \<Rightarrow> expr \<Rightarrow> 'a delete_node_scheme \<Rightarrow> 'a delete_node_scheme result" where
  "where_expression stmt table owner e n =
     (if dn_table n \<noteq> table then Inl (owner_error stmt)
      else Inr (n\<lparr>dn_predicates := [], dn_in_predicates := [], dn_extra_where := Some (dml_where owner e)\<rparr>))"

definition and_where ::
  "string \<Rightarrow> string \<Rightarrow> type_index \<Rightarrow> expr \<Rightarrow> 'a delete_node_scheme \<Rightarrow> 'a delete_node_scheme result" where
  "and_where stmt table owner e n =
     (if dn_table n \<noteq> table then Inl (owner_error stmt)
      else Inr (n\<lparr>dn_extra_where := Some (dml_where owner e)\<rparr>))"

subsection \<open>Compilation\<close>

definition dml_context :: "dialect \<Rightarrow> compile_context" where
  "dml_context d = \<lparr>cx_dialect = d, cx_offset = 0, cx_aliases = []\<rparr>"

definition compile_dml_operand :: "dialect \<Rightarrow> bool \<Rightarrow> dml_operand \<Rightarrow> (dbvalue list, sql) action" where
  "compile_dml_operand d allow_excluded x =
     (case x of
        DmlValue v \<Rightarrow> push_param (dml_context d) v
      | DmlExcluded c \<Rightarrow>
          if \<not> allow_excluded
          then act_throw (Logic_error ''MetalORM: excluded() is valid only inside ON CONFLICT DO UPDATE'')
          else act_return (lit (''excluded.'' @ d_quote d c)))"

definition compile_predicate :: "dialect \<Rightarrow> dml_predicate \<Rightarrow> (dbvalue list, sql) action" where
  "compile_predicate d p = act_bind (push_param (dml_context d) (dp_value p)) (\<lambda>q.
     act_return (lit (d_quote d (dp_column p) @ '' '' @ compare_token (dp_op p) @ '' '') @ q))"

definition append_dml_predicates :: "dialect \<Rightarrow> dml_predicate list \<Rightarrow> (dbvalue list, sql) action" where
  "append_dml_predicates d ps =
     (if ps = [] then act_return []
      else act_bind (act_map (compile_predicate d) ps) (\<lambda>qs. act_return (lit '' WHERE '' @ join_sql '' AND '' qs)))"

definition compile_in_predicate :: "dialect \<Rightarrow> dml_in_predicate \<Rightarrow> (dbvalue list, sql) action" where
  "compile_in_predicate d p =
     (if di_values p = [] then act_return (lit (if di_negated p then ''1'' else ''0''))
      else act_bind (push_params (dml_context d) (di_values p)) (\<lambda>qs.
        act_return (wrap (d_quote d (di_column p) @ (if di_negated p then '' NOT IN ('' else '' IN ('')) (join_sql '', '' qs) '')'')))"

definition sql_empty :: "sql \<Rightarrow> bool" where
  "sql_empty q \<longleftrightarrow> list_all (\<lambda>p. p = Text []) q"

definition compile_extra :: "dialect \<Rightarrow> dml_where_compiler \<Rightarrow> (dbvalue list, sql) action" where
  "compile_extra d w = act_bind (w d) (\<lambda>q.
     if sql_empty q then act_throw (Logic_error ''MetalORM: DML expression predicate compiled to an empty fragment'')
     else act_return (wrap ''('' q '')''))"

text \<open>\<open>append_dml_where\<close>: all terms, joined by \<open>AND\<close> in this order.\<close>

definition append_dml_where :: "dialect \<Rightarrow> 'a delete_node_scheme \<Rightarrow> (dbvalue list, sql) action" where
  "append_dml_where d n =
     (if dn_predicates n = [] \<and> dn_in_predicates n = [] \<and> dn_extra_where n = None then act_return []
      else act_bind (act_map (compile_predicate d) (dn_predicates n)) (\<lambda>ps.
        act_bind (act_map (compile_in_predicate d) (dn_in_predicates n)) (\<lambda>is.
        act_bind (case dn_extra_where n of None \<Rightarrow> act_return []
          | Some w \<Rightarrow> act_bind (compile_extra d w) (\<lambda>q. act_return [q])) (\<lambda>es.
        act_return (lit '' WHERE '' @ join_sql '' AND '' (ps @ is @ es))))))"

definition append_returning :: "dialect \<Rightarrow> dml_returning list \<Rightarrow> sql" where
  "append_returning d rs =
     (if rs = [] then []
      else lit ('' RETURNING '' @ join '', '' (List.map (\<lambda>r. d_quote d (dr_column r) @
        (case dr_alias r of None \<Rightarrow> [] | Some a \<Rightarrow> '' AS '' @ d_quote d a)) rs)))"

definition compile_assignment :: "dialect \<Rightarrow> bool \<Rightarrow> dml_assignment \<Rightarrow> (dbvalue list, sql) action" where
  "compile_assignment d allow a = act_bind (compile_dml_operand d allow (da_value a)) (\<lambda>q.
     act_return (lit (d_quote d (da_column a) @ '' = '') @ q))"

text \<open>One value of a row: the first assignment to the column, or an error.\<close>

definition compile_cell :: "dialect \<Rightarrow> dml_assignment list \<Rightarrow> string \<Rightarrow> (dbvalue list, sql) action" where
  "compile_cell d row c =
     (case List.find (\<lambda>a. da_column a = c) row of
        None \<Rightarrow> act_throw (Logic_error (''MetalORM: INSERT row is missing destination column '' @ [squote] @ c @ [squote]))
      | Some a \<Rightarrow> compile_dml_operand d False (da_value a))"

definition compile_row :: "dialect \<Rightarrow> string list \<Rightarrow> dml_assignment list \<Rightarrow> (dbvalue list, sql) action" where
  "compile_row d cs row = act_bind (act_map (compile_cell d row) cs) (\<lambda>qs. act_return (wrap ''('' (join_sql '', '' qs) '')''))"

definition compile_source :: "dialect \<Rightarrow> insert_node \<Rightarrow> (dbvalue list, sql) action" where
  "compile_source d n =
     (case in_select_source n of
        Some source \<Rightarrow> (\<lambda>ps. case source d of Inl e \<Rightarrow> (Inl e, ps) | Inr q \<Rightarrow> (Inr (cq_sql q), ps @ cq_params q))
      | None \<Rightarrow>
          if in_rows n = [] then act_throw (Logic_error ''MetalORM: INSERT ... VALUES requires at least one row'')
          else act_bind (act_map (compile_row d (in_columns n)) (in_rows n)) (\<lambda>qs.
            act_return (lit ''VALUES '' @ join_sql '', '' qs)))"

definition compile_conflict :: "dialect \<Rightarrow> dml_conflict_clause \<Rightarrow> (dbvalue list, sql) action" where
  "compile_conflict d c =
     act_bind (case dc_constraint c of
        Some k \<Rightarrow>
          if d_family d \<noteq> PostgreSQL
          then act_throw (Logic_error ''MetalORM: named ON CONFLICT constraints are supported only by PostgreSQL'')
          else act_return (lit ('' ON CONFLICT ON CONSTRAINT '' @ d_quote d k))
      | None \<Rightarrow>
          if dc_columns c = [] then act_throw (Logic_error ''MetalORM: ON CONFLICT requires conflict columns'')
          else act_return (lit ('' ON CONFLICT ('' @ join '', '' (List.map (d_quote d) (dc_columns c)) @ '')''))) (\<lambda>target.
     if dc_do_nothing c then act_return (target @ lit '' DO NOTHING'')
     else if dc_assignments c = []
       then act_throw (Logic_error ''MetalORM: ON CONFLICT DO UPDATE requires at least one assignment'')
     else act_bind (act_map (compile_assignment d True) (dc_assignments c)) (\<lambda>qs.
       act_bind (append_dml_predicates d (dc_predicates c)) (\<lambda>w.
         act_return (target @ lit '' DO UPDATE SET '' @ join_sql '', '' qs @ w))))"

definition compile_insert :: "dialect \<Rightarrow> insert_node \<Rightarrow> (dbvalue list, sql) action" where
  "compile_insert d n =
     act_bind
       (if in_columns n = [] then
          (if in_rows n = [] \<and> in_select_source n = None then act_return (lit '' DEFAULT VALUES'')
           else act_throw (Logic_error ''MetalORM: INSERT requires destination columns''))
        else act_bind (compile_source d n) (\<lambda>q.
          act_return (lit ('' ('' @ join '', '' (List.map (d_quote d) (in_columns n)) @ '') '') @ q))) (\<lambda>body.
     act_bind (case in_conflict n of None \<Rightarrow> act_return [] | Some c \<Rightarrow> compile_conflict d c) (\<lambda>c.
       act_return (lit (''INSERT INTO '' @ d_quote d (in_table n)) @ body @ c @
         append_returning d (in_returning n) @ lit '';'')))"

definition compile_update :: "dialect \<Rightarrow> update_node \<Rightarrow> (dbvalue list, sql) action" where
  "compile_update d n =
     (if un_assignments n = [] then act_throw (Logic_error ''MetalORM: UPDATE requires at least one assignment'')
      else act_bind (act_map (compile_assignment d False) (un_assignments n)) (\<lambda>qs.
        act_bind (append_dml_where d n) (\<lambda>w.
          act_return (lit (''UPDATE '' @ d_quote d (dn_table n) @ '' SET '') @ join_sql '', '' qs @ w @
            append_returning d (dn_returning n) @ lit '';''))))"

definition compile_delete :: "dialect \<Rightarrow> delete_node \<Rightarrow> (dbvalue list, sql) action" where
  "compile_delete d n = act_bind (append_dml_where d n) (\<lambda>w.
     act_return (lit (''DELETE FROM '' @ d_quote d (dn_table n)) @ w @ append_returning d (dn_returning n) @ lit '';''))"

text \<open>\<open>compile\<close> starts with no parameters.\<close>

definition compiled :: "(dbvalue list, sql) action \<Rightarrow> compiled_query result" where
  "compiled m = (case m [] of (Inl e, ps) \<Rightarrow> Inl e | (Inr q, ps) \<Rightarrow> Inr \<lparr>cq_sql = q, cq_params = ps\<rparr>)"

subsection \<open>Placeholders of a statement\<close>

lemma dml_context_offset [simp]: "cx_offset (dml_context d) = 0"
  by (simp add: dml_context_def)

lemma numbered_operand: "numbered 0 (compile_dml_operand d allow x) holes"
  by (auto simp: compile_dml_operand_def intro: numbered_intros split: dml_operand.split)

lemma numbered_predicate: "numbered 0 (compile_predicate d p) holes"
  unfolding compile_predicate_def by (rule numbered_bind [OF numbered_push]) (auto intro: numbered_return)

lemma numbered_in_predicate: "numbered 0 (compile_in_predicate d p) holes"
  unfolding compile_in_predicate_def
  by (auto intro!: numbered_return numbered_bind [OF numbered_pushes])

lemma numbered_extra: "numbered 0 (w d) holes \<Longrightarrow> numbered 0 (compile_extra d w) holes"
  unfolding compile_extra_def by (erule numbered_bind) (auto intro: numbered_intros)

lemma numbered_assignment: "numbered 0 (compile_assignment d allow a) holes"
  unfolding compile_assignment_def by (rule numbered_bind [OF numbered_operand]) (auto intro: numbered_return)

lemmas numbered_predicates = numbered_map [where f = "compile_predicate d" for d, OF numbered_predicate]

lemma numbered_dml_predicates: "numbered 0 (append_dml_predicates d ps) holes"
  unfolding append_dml_predicates_def
  by (auto intro!: numbered_return numbered_bind [OF numbered_predicates])

text \<open>A condition given as an expression is one over the entity of the table.\<close>

definition plain_where :: "dialect \<Rightarrow> dml_where_compiler option \<Rightarrow> bool" where
  "plain_where d w \<longleftrightarrow> w = None \<or> (\<exists>owner e. w = Some (dml_where owner e) \<and> positional_expr (d_family d) e)"

lemma numbered_dml_where: "positional_expr (d_family d) e \<Longrightarrow> numbered 0 (dml_where owner e d) holes"
  using compile_binds(2) [of "\<lparr>cx_dialect = d, cx_offset = 0, cx_aliases = [(owner, [])]\<rparr>" e]
  by (simp add: numbered_def dml_where_def)

lemma numbered_where:
  assumes "plain_where d (dn_extra_where n)"
  shows "numbered 0 (append_dml_where d n) holes"
proof -
  have "numbered 0 (case dn_extra_where n of None \<Rightarrow> act_return []
          | Some w \<Rightarrow> act_bind (compile_extra d w) (\<lambda>q. act_return [q])) holes_of"
    using assms by (auto simp: plain_where_def intro!: numbered_return numbered_bind [OF numbered_extra] numbered_dml_where)
  note parts = numbered_predicates numbered_map [where f = "compile_in_predicate d", OF numbered_in_predicate] this
  show ?thesis unfolding append_dml_where_def
    by (auto intro!: numbered_return numbered_bind [OF parts(1)] numbered_bind [OF parts(2)] numbered_bind [OF parts(3)])
qed

lemma numbered_row: "numbered 0 (compile_row d cs row) holes"
proof -
  have "numbered 0 (compile_cell d row c) holes" for c
    by (auto simp: compile_cell_def intro: numbered_intros numbered_operand split: option.split)
  then show ?thesis unfolding compile_row_def by (intro numbered_bind [OF numbered_map]) (auto intro: numbered_return)
qed

text \<open>The source of an \<open>INSERT ... SELECT\<close> is a compiled query, with its own numbers from 1.\<close>

definition source_ok :: "(dialect \<Rightarrow> compiled_query result) option \<Rightarrow> bool" where
  "source_ok s \<longleftrightarrow> (\<forall>f d q. s = Some f \<longrightarrow> f d = Inr q \<longrightarrow> holes (cq_sql q) = [1..<Suc (length (cq_params q))])"

lemma numbered_conflict: "numbered 0 (compile_conflict d c) holes"
proof -
  have target: "numbered 0 (case dc_constraint c of
        Some k \<Rightarrow>
          if d_family d \<noteq> PostgreSQL
          then act_throw (Logic_error ''MetalORM: named ON CONFLICT constraints are supported only by PostgreSQL'')
          else act_return (lit ('' ON CONFLICT ON CONSTRAINT '' @ d_quote d k))
      | None \<Rightarrow>
          if dc_columns c = [] then act_throw (Logic_error ''MetalORM: ON CONFLICT requires conflict columns'')
          else act_return (lit ('' ON CONFLICT ('' @ join '', '' (List.map (d_quote d) (dc_columns c)) @ '')''))) holes"
    by (auto intro: numbered_intros split: option.split)
  have "numbered 0 (act_map (compile_assignment d True) (dc_assignments c)) holes_of"
    by (rule numbered_map) (rule numbered_assignment)
  then show ?thesis unfolding compile_conflict_def
    by (intro numbered_bind [OF target])
      (auto intro!: numbered_return numbered_throw numbered_bind [OF numbered_dml_predicates] elim!: numbered_bind)
qed

lemma source_binds:
  assumes "source_ok (in_select_source n)" and "compile_source d n [] = (Inr q, ps)"
  shows "binds 0 [] (holes q) ps"
proof (cases "in_select_source n")
  case None
  have "numbered 0 (compile_source d n) holes" unfolding compile_source_def None
    by (auto intro!: numbered_throw numbered_return
        numbered_bind [OF numbered_map [where f = "compile_row d (in_columns n)", OF numbered_row]])
  with assms(2) show ?thesis by (auto simp: numbered_def)
next
  case (Some f)
  with assms show ?thesis by (auto simp: compile_source_def source_ok_def binds_def split: sum.splits)
qed

lemma compiled_Inr: "compiled m = Inr q \<longleftrightarrow> (\<exists>sql ps. m [] = (Inr sql, ps) \<and> q = \<lparr>cq_sql = sql, cq_params = ps\<rparr>)"
  by (auto simp: compiled_def split: prod.splits sum.splits)

lemma append_returning_holes [simp]: "holes (append_returning d rs) = []"
  by (simp add: append_returning_def)

lemma insert_holes:
  assumes "source_ok (in_select_source n)" and "compiled (compile_insert d n) = Inr q"
  shows "holes (cq_sql q) = [1..<Suc (length (cq_params q))]"
proof -
  from assms(2) obtain ps1 body where run: "compile_insert d n [] = (Inr (cq_sql q), cq_params q)"
    by (auto simp: compiled_Inr)
  have conf: "numbered 0 (case in_conflict n of None \<Rightarrow> act_return [] | Some c \<Rightarrow> compile_conflict d c) holes"
    by (auto intro: numbered_return numbered_conflict split: option.split)
  have "binds 0 [] (holes (cq_sql q)) (cq_params q)"
  proof (cases "in_columns n = []")
    case True
    with run obtain c where
      "(case in_conflict n of None \<Rightarrow> act_return [] | Some k \<Rightarrow> compile_conflict d k) [] = (Inr c, cq_params q)"
      "holes (cq_sql q) = holes c"
      by (auto simp: compile_insert_def result_simps split: if_splits dest!: sym [of _ "cq_sql q"])
    with conf show ?thesis by (auto simp: numbered_def)
  next
    case False
    with run obtain b c ps where parts: "compile_source d n [] = (Inr b, ps)"
      "(case in_conflict n of None \<Rightarrow> act_return [] | Some k \<Rightarrow> compile_conflict d k) ps = (Inr c, cq_params q)"
      "holes (cq_sql q) = holes b @ holes c"
      by (auto simp: compile_insert_def result_simps dest!: sym [of _ "cq_sql q"])
    have "binds 0 [] (holes b) ps" by (rule source_binds [OF assms(1) parts(1)])
    moreover have "binds 0 ps (holes c) (cq_params q)" using conf parts(2) by (auto simp: numbered_def)
    ultimately show ?thesis unfolding parts(3) by (rule binds_append)
  qed
  then show ?thesis by (simp add: binds_def)
qed

lemma update_holes:
  assumes "plain_where d (dn_extra_where n)" and "compiled (compile_update d n) = Inr q"
  shows "holes (cq_sql q) = [1..<Suc (length (cq_params q))]"
proof -
  have "numbered 0 (compile_update d n) holes" unfolding compile_update_def
    by (auto intro!: numbered_throw numbered_return numbered_bind [OF numbered_where [OF assms(1)]]
        numbered_bind [OF numbered_map [where f = "compile_assignment d False", OF numbered_assignment]])
  with assms(2) show ?thesis by (auto simp: compiled_Inr numbered_def binds_def)
qed

lemma delete_holes:
  assumes "plain_where d (dn_extra_where n)" and "compiled (compile_delete d n) = Inr q"
  shows "holes (cq_sql q) = [1..<Suc (length (cq_params q))]"
proof -
  have "numbered 0 (compile_delete d n) holes" unfolding compile_delete_def
    by (auto intro!: numbered_return numbered_bind [OF numbered_where [OF assms(1)]])
  with assms(2) show ?thesis by (auto simp: compiled_Inr numbered_def binds_def)
qed

subsection \<open>Parameters of a statement\<close>

definition operand_values :: "dml_assignment list \<Rightarrow> dbvalue list" where
  "operand_values asg = concat (List.map (\<lambda>a. case da_value a of DmlValue v \<Rightarrow> [v] | DmlExcluded _ \<Rightarrow> []) asg)"

lemma push_params_state: "push_params c vs ps = (Inr qs, ps') \<Longrightarrow> ps' = ps @ vs"
proof (induction vs arbitrary: ps qs)
  case (Cons v vs)
  then obtain rest where "push_params c vs (ps @ [v]) = (Inr rest, ps')" by (auto simp: result_simps push_param_def)
  from Cons.IH [OF this] show ?case by simp
qed simp

lemma act_map_state:
  assumes "\<And>x ps q ps'. f x ps = (Inr q, ps') \<Longrightarrow> ps' = ps @ g x"
  shows "act_map f xs ps = (Inr qs, ps') \<Longrightarrow> ps' = ps @ concat (List.map g xs)"
proof (induction xs arbitrary: ps qs)
  case (Cons x xs)
  then obtain q rest ps1 where run: "f x ps = (Inr q, ps1)" "act_map f xs ps1 = (Inr rest, ps')"
    by (auto simp: result_simps)
  from Cons.IH [OF run(2)] assms [OF run(1)] show ?case by simp
qed simp

lemma predicates_state:
  "act_map (compile_predicate d) xs ps = (Inr qs, ps') \<Longrightarrow> ps' = ps @ List.map dp_value xs"
  by (drule act_map_state [where g = "\<lambda>p. [dp_value p]", rotated])
    (auto simp: compile_predicate_def result_simps push_param_def concat_map_singleton)

lemma in_predicates_state:
  "act_map (compile_in_predicate d) xs ps = (Inr qs, ps') \<Longrightarrow> ps' = ps @ concat (List.map di_values xs)"
  by (erule act_map_state [rotated])
    (auto simp: compile_in_predicate_def result_simps dest: push_params_state split: if_splits)

lemma assignments_state:
  "act_map (compile_assignment d allow) asg ps = (Inr qs, ps') \<Longrightarrow> ps' = ps @ operand_values asg"
  unfolding operand_values_def
  by (erule act_map_state [rotated])
    (auto simp: compile_assignment_def compile_dml_operand_def result_simps push_param_def split: dml_operand.splits if_splits)

lemma where_state:
  "dn_extra_where n = None \<Longrightarrow> append_dml_where d n ps = (Inr q, ps') \<Longrightarrow>
     ps' = ps @ List.map dp_value (dn_predicates n) @ concat (List.map di_values (dn_in_predicates n))"
  by (auto simp: append_dml_where_def result_simps dest!: predicates_state in_predicates_state split: if_splits)

definition statement_values :: "dml_assignment list \<Rightarrow> 'a delete_node_scheme \<Rightarrow> dbvalue list" where
  "statement_values asg n =
     operand_values asg @ List.map dp_value (dn_predicates n) @ concat (List.map di_values (dn_in_predicates n))"

lemma update_params:
  "dn_extra_where n = None \<Longrightarrow> compiled (compile_update d n) = Inr q \<Longrightarrow>
     cq_params q = statement_values (un_assignments n) n"
  by (auto simp: compiled_Inr compile_update_def result_simps statement_values_def
      dest!: assignments_state where_state split: if_splits)

lemma delete_params:
  "dn_extra_where n = None \<Longrightarrow> compiled (compile_delete d n) = Inr q \<Longrightarrow> cq_params q = statement_values [] n"
  by (auto simp: compiled_Inr compile_delete_def result_simps statement_values_def operand_values_def dest!: where_state)


definition demo_insert :: insert_node where
  "demo_insert = \<lparr>in_table = ''t'', in_columns = [''a'', ''b''],
     in_rows = [[\<lparr>da_column = ''b'', da_value = DmlValue (VInt 1)\<rparr>, \<lparr>da_column = ''a'', da_value = DmlValue (VInt 2)\<rparr>]],
     in_select_source = None,
     in_conflict = Some \<lparr>dc_columns = [''a''], dc_constraint = None, dc_do_nothing = False,
       dc_assignments = [\<lparr>da_column = ''b'', da_value = DmlExcluded ''b''\<rparr>],
       dc_predicates = [\<lparr>dp_column = ''b'', dp_op = OpEq, dp_value = VInt 3\<rparr>]\<rparr>,
     in_returning = []\<rparr>"

definition demo_delete :: delete_node where
  "demo_delete = where_in ''b'' [VInt 5, VInt 6] False (where_eq ''a'' (VInt 4) (new_delete ''t''))"

definition demo_update :: update_node where
  "demo_update = where_eq ''a'' (VInt 4) (update_set [\<lparr>da_column = ''b'', da_value = DmlValue (VInt 7)\<rparr>] (new_update ''t''))"


end
