(* ===== verification/Collections.thy ===== *)
theory Collections
  imports Dml
begin

section \<open>Relation members (include/metal/collection.hpp, reference.hpp, polymorphic.hpp)\<close>

text \<open>
  The state of a relation member: what it holds now and the baseline it was loaded or accepted with. An
  entity is its address (\<open>key\<close>), which is what two \<open>shared_ptr\<close>s are compared by. The hooks and the
  loader a Session binds to a member are in the theories of the Session; here are the operations on the
  state itself.
\<close>

type_synonym key = nat

subsection \<open>Sequences of entities\<close>

record collection =
  co_loaded :: bool
  co_items :: "key list"
  co_baseline :: "key list"

definition empty_collection :: collection where
  "empty_collection = \<lparr>co_loaded = False, co_items = [], co_baseline = []\<rparr>"

definition co_attach :: "key \<Rightarrow> collection \<Rightarrow> collection" where
  "co_attach k c = c\<lparr>co_items := co_items c @ [k]\<rparr>"

text \<open>\<open>remove\<close> drops the first occurrence and tells whether there was one.\<close>

definition co_remove :: "key \<Rightarrow> collection \<Rightarrow> bool \<times> collection" where
  "co_remove k c = (if k \<in> set (co_items c) then (True, c\<lparr>co_items := remove1 k (co_items c)\<rparr>) else (False, c))"

definition co_clear :: "collection \<Rightarrow> collection" where
  "co_clear c = c\<lparr>co_items := []\<rparr>"

definition co_hydrate :: "key list \<Rightarrow> collection \<Rightarrow> collection" where
  "co_hydrate ks c = \<lparr>co_loaded = True, co_items = ks, co_baseline = ks\<rparr>"

definition co_added :: "collection \<Rightarrow> key list" where
  "co_added c = filter (\<lambda>k. k \<notin> set (co_baseline c)) (co_items c)"

definition co_removed :: "collection \<Rightarrow> key list" where
  "co_removed c = filter (\<lambda>k. k \<notin> set (co_items c)) (co_baseline c)"

definition co_accept :: "collection \<Rightarrow> collection" where
  "co_accept c = c\<lparr>co_baseline := co_items c\<rparr>"

definition co_dirty :: "collection \<Rightarrow> bool" where
  "co_dirty c \<longleftrightarrow> co_added c \<noteq> [] \<or> co_removed c \<noteq> []"

subsection \<open>Single references\<close>

text \<open>
  \<open>relation_reference\<close>, \<open>morph_one_reference\<close> and \<open>morph_to_reference\<close>. The alternative a morph_to variant
  is in is the type of the entity, \<open>monostate\<close> and the null pointer are \<open>None\<close>.
\<close>

record reference =
  rf_loaded :: bool
  rf_current :: "key option"
  rf_baseline :: "key option"

definition empty_reference :: reference where
  "empty_reference = \<lparr>rf_loaded = False, rf_current = None, rf_baseline = None\<rparr>"

definition rf_set :: "key option \<Rightarrow> reference \<Rightarrow> reference" where
  "rf_set k r = r\<lparr>rf_current := k, rf_loaded := True\<rparr>"

definition rf_dirty :: "reference \<Rightarrow> bool" where
  "rf_dirty r \<longleftrightarrow> rf_current r \<noteq> rf_baseline r"

definition rf_hydrate :: "key option \<Rightarrow> reference \<Rightarrow> reference" where
  "rf_hydrate k r = \<lparr>rf_loaded = True, rf_current = k, rf_baseline = k\<rparr>"

definition rf_added :: "reference \<Rightarrow> key option" where
  "rf_added r = (if rf_current r \<noteq> rf_baseline r then rf_current r else None)"

definition rf_removed :: "reference \<Rightarrow> key option" where
  "rf_removed r = (if rf_current r \<noteq> rf_baseline r then rf_baseline r else None)"

definition rf_accept :: "reference \<Rightarrow> reference" where
  "rf_accept r = r\<lparr>rf_baseline := rf_current r\<rparr>"

subsection \<open>Pivot patches\<close>

text \<open>\<open>pivot_patch\<close>: assignments to columns of the pivot row, one per column, in the order of their first setting.\<close>

type_synonym patch = "(string, dbvalue) amap"

definition patch_set :: "string \<Rightarrow> dbvalue \<Rightarrow> patch \<Rightarrow> patch" where
  "patch_set c v p = aput c v p"

definition patch_merge :: "patch \<Rightarrow> patch \<Rightarrow> patch" where
  "patch_merge other p = fold (\<lambda>(c, v). aput c v) other p"

definition patch_filtered :: "(string \<Rightarrow> bool) \<Rightarrow> patch \<Rightarrow> patch" where
  "patch_filtered P p = filter (\<lambda>e. P (fst e)) p"

subsection \<open>Many-to-many collections\<close>

text \<open>
  Two entities are the same for the collection when they are one object or have the same identity
  key (\<open>identity_key_\<close>, bound by the Session and given as an argument here: \<open>None\<close> when no function is
  bound, and \<open>Some f\<close> with \<open>f k = None\<close> for an entity without a key). \<open>pc_pivots\<close> maps an item to the
  columns of its pivot row, \<open>pc_patches\<close> to the changes not yet written.
\<close>

record pivot_collection = collection +
  pc_pivots :: "(key, patch) amap"
  pc_patches :: "(key, patch) amap"

type_synonym identity = "(key \<Rightarrow> string option) option"

definition same_entity :: "identity \<Rightarrow> key \<Rightarrow> key \<Rightarrow> bool" where
  "same_entity ident l r \<longleftrightarrow> l = r \<or>
     (case ident of None \<Rightarrow> False | Some f \<Rightarrow> f l \<noteq> None \<and> f r \<noteq> None \<and> f l = f r)"

definition find_equivalent :: "identity \<Rightarrow> key list \<Rightarrow> key \<Rightarrow> key option" where
  "find_equivalent ident items k = List.find (\<lambda>i. same_entity ident i k) items"

definition contains_equivalent :: "identity \<Rightarrow> key list \<Rightarrow> key \<Rightarrow> bool" where
  "contains_equivalent ident ks k \<longleftrightarrow> list_ex (\<lambda>c. same_entity ident c k) ks"

definition pc_added :: "identity \<Rightarrow> pivot_collection \<Rightarrow> key list" where
  "pc_added ident c = filter (\<lambda>k. \<not> contains_equivalent ident (co_baseline c) k) (co_items c)"

definition pc_removed :: "identity \<Rightarrow> pivot_collection \<Rightarrow> key list" where
  "pc_removed ident c = filter (\<lambda>k. \<not> contains_equivalent ident (co_items c) k) (co_baseline c)"

definition pc_updates :: "identity \<Rightarrow> pivot_collection \<Rightarrow> key list" where
  "pc_updates ident c =
     filter (\<lambda>k. alookup (pc_patches c) k \<noteq> None \<and> contains_equivalent ident (co_baseline c) k) (co_items c)"

definition pc_patch :: "identity \<Rightarrow> key \<Rightarrow> pivot_collection \<Rightarrow> patch option" where
  "pc_patch ident k c =
     (case find_equivalent ident (co_items c) k of None \<Rightarrow> None | Some i \<Rightarrow> alookup (pc_patches c) i)"

definition pc_pivot :: "identity \<Rightarrow> key \<Rightarrow> pivot_collection \<Rightarrow> patch option" where
  "pc_pivot ident k c =
     (case find_equivalent ident (co_items c) k of None \<Rightarrow> None | Some i \<Rightarrow> alookup (pc_pivots c) i)"

definition pc_dirty :: "identity \<Rightarrow> pivot_collection \<Rightarrow> bool" where
  "pc_dirty ident c \<longleftrightarrow> pc_added ident c \<noteq> [] \<or> pc_removed ident c \<noteq> [] \<or> pc_patches c \<noteq> []"

text \<open>\<open>defaults\<close>: the columns of a default-constructed pivot object.\<close>

definition apply_patch :: "patch \<Rightarrow> key \<Rightarrow> patch \<Rightarrow> pivot_collection \<Rightarrow> pivot_collection" where
  "apply_patch defaults k p c =
     (if p = [] then c
      else c\<lparr>pc_pivots := aput k (patch_merge p (case alookup (pc_pivots c) k of None \<Rightarrow> defaults | Some v \<Rightarrow> v)) (pc_pivots c),
        pc_patches := aput k (patch_merge p (case alookup (pc_patches c) k of None \<Rightarrow> [] | Some q \<Rightarrow> q)) (pc_patches c)\<rparr>)"

definition pc_attach :: "identity \<Rightarrow> patch \<Rightarrow> key \<Rightarrow> patch \<Rightarrow> pivot_collection \<Rightarrow> pivot_collection" where
  "pc_attach ident defaults k p c =
     (case find_equivalent ident (co_items c) k of
        Some i \<Rightarrow> apply_patch defaults i p c
      | None \<Rightarrow> let c' = apply_patch defaults k p c in c'\<lparr>co_items := co_items c' @ [k]\<rparr>)"

definition drop_first :: "('a \<Rightarrow> bool) \<Rightarrow> 'a list \<Rightarrow> 'a list" where
  "drop_first P xs = takeWhile (\<lambda>x. \<not> P x) xs @ tl (dropWhile (\<lambda>x. \<not> P x) xs)"

definition pc_detach :: "identity \<Rightarrow> key \<Rightarrow> pivot_collection \<Rightarrow> bool \<times> pivot_collection" where
  "pc_detach ident k c =
     (if find_equivalent ident (co_items c) k = None then (False, c)
      else (True, c\<lparr>co_items := drop_first (\<lambda>i. same_entity ident i k) (co_items c)\<rparr>))"

definition not_bound :: exn where
  "not_bound = Logic_error ''MetalORM: ID-based collection operation requires a Session-bound relation''"

definition detach_id :: "identity \<Rightarrow> string \<Rightarrow> pivot_collection \<Rightarrow> (bool \<times> pivot_collection) result" where
  "detach_id ident wanted c =
     (case ident of
        None \<Rightarrow> Inl not_bound
      | Some f \<Rightarrow>
          if \<not> list_ex (\<lambda>i. f i = Some wanted) (co_items c) then Inr (False, c)
          else Inr (True, c\<lparr>co_items := drop_first (\<lambda>i. f i = Some wanted) (co_items c)\<rparr>))"

text \<open>Loading: an entity equivalent to one already taken is skipped, with its pivot.\<close>

fun hydrate_pivots :: "identity \<Rightarrow> (key \<times> patch option) list \<Rightarrow> key list \<times> (key, patch) amap \<Rightarrow> key list \<times> (key, patch) amap" where
  "hydrate_pivots ident [] acc = acc"
| "hydrate_pivots ident ((k, p) # vs) (items, pivots) =
     (if find_equivalent ident items k \<noteq> None then hydrate_pivots ident vs (items, pivots)
      else hydrate_pivots ident vs (items @ [k],
        case p of None \<Rightarrow> pivots | Some row \<Rightarrow> if alookup pivots k = None then aput k row pivots else pivots))"

definition pc_hydrate :: "identity \<Rightarrow> (key \<times> patch option) list \<Rightarrow> pivot_collection" where
  "pc_hydrate ident vs = (case hydrate_pivots ident vs ([], []) of (items, pivots) \<Rightarrow>
     \<lparr>co_loaded = True, co_items = items, co_baseline = items, pc_pivots = pivots, pc_patches = []\<rparr>)"

definition pc_accept :: "pivot_collection \<Rightarrow> pivot_collection" where
  "pc_accept c = c\<lparr>co_baseline := co_items c, pc_patches := [],
     pc_pivots := filter (\<lambda>e. fst e \<in> set (co_items c)) (pc_pivots c)\<rparr>"

end
