(* ===== verification/Unit_Of_Work.thy ===== *)
theory Unit_Of_Work
  imports Collections Pooled_Executor
begin

section \<open>Entities and the unit of work (include/metal/unit_of_work.hpp, runtime_types.hpp, identity_map.hpp)\<close>

text \<open>
  The C++ types of entities are data here: what reflection and the annotations of \<open>mapping.hpp\<close> tell
  of a type is an \<open>entity_type\<close>, and members are named by their columns (the mapping is refused at
  compile time when two members share one). An entity object lives on the heap of the session at its
  address, with its column members, relation members and event queues.
\<close>

subsection \<open>Entity types\<close>

datatype relation_kind = BelongsTo | HasOne | HasMany | ManyToMany | MorphOne | MorphMany | MorphTo

text \<open>
  One relation annotation. Which fields mean something depends on the kind: the foreign key of
  \<open>BelongsTo\<close> is a column of the entity, that of \<open>HasOne\<close> and \<open>HasMany\<close> one of the target; \<open>rm_cases\<close> are
  the alternatives of \<open>MorphTo\<close> (type, target key, type value). \<open>et_queues\<close> counts the event queue members.
\<close>

record relation_meta =
  rm_kind :: relation_kind
  rm_target :: type_index
  rm_local_key :: string
  rm_foreign_key :: string
  rm_target_key :: string
  rm_pivot :: string
  rm_pivot_root :: string
  rm_pivot_target :: string
  rm_pivot_defaults :: patch
  rm_type_field :: string
  rm_id_field :: string
  rm_type_value :: string
  rm_cases :: "(type_index \<times> string \<times> string) list"
  rm_cascade_persist :: bool
  rm_cascade_remove :: bool

record entity_type =
  et_table :: string
  et_primary_key :: string
  et_generated :: bool
  et_columns :: "(string \<times> cpp_type) list"
  et_relations :: "relation_meta list"
  et_queues :: nat

datatype relation_member = MRef reference | MMany collection | MPivot pivot_collection

record 'e entity =
  en_type :: type_index
  en_columns :: "(string, cpp_value) amap"
  en_relations :: "relation_member list"
  en_queues :: "'e list list"

subsection \<open>Tracked entities and checkpoints\<close>

text \<open>
  A \<open>TrackedEntity\<close> without its function members: those are closures over the entity, hence functions
  of its address below (\<open>snapshot\<close>, \<open>restore_snapshot\<close>, \<open>get_pk\<close>, \<dots>).
\<close>

datatype entity_status = StNew | StManaged | StRemoved | StDetached

record tracked =
  te_status :: entity_status
  te_table :: string
  te_primary_key :: string
  te_generated :: bool
  te_original :: row

record 'e checkpoint_entry =
  ce_existed :: bool
  ce_tracked :: tracked
  ce_current :: row
  ce_runtime :: "relation_member list \<times> 'e list list"

record 'e checkpoint =
  cp_entries :: "(key, 'e checkpoint_entry) amap"
  cp_order :: "key list"

text \<open>
  The state of a Session: the heap of entities (\<open>ss_fresh\<close> is the next address), the tracked entities and
  their order, the checkpoints (the last one first), the identity map, the transaction counters, and the
  world outside, which the connection and the user's code act on. \<open>ss_held\<close> tells the entities
  something outside the unit of work keeps alive.
\<close>

record ('d, 'e) session =
  ss_heap :: "key \<Rightarrow> 'e entity"
  ss_fresh :: key
  ss_held :: "key \<Rightarrow> bool"
  ss_tracked :: "(key, tracked) amap"
  ss_order :: "key list"
  ss_checkpoints :: "'e checkpoint list"
  ss_identity :: "(type_index \<times> string, key) amap"
  ss_depth :: nat
  ss_savepoints :: nat
  ss_rollback_only :: bool
  ss_world :: 'd

type_synonym ('d, 'e, 'a) session_action = "(('d, 'e) session, 'a) action"

datatype hook_phase = BeforeInsert | AfterInsert | BeforeUpdate | AfterUpdate | BeforeDelete | AfterDelete

text \<open>
  What a Session is made with: the dialect, the connection and its capabilities, the mapped types, and the
  user's code: table hooks, interceptors and handlers of domain events. That code gets the Session, so it
  is an action on its state.
\<close>

record ('d, 'e) session_env =
  env_fp :: fp
  env_dialect :: dialect
  env_types :: "type_index \<Rightarrow> entity_type"
  env_transactions :: bool
  env_savepoints :: bool
  env_conn :: "conn_op \<Rightarrow> ('d, query_result) action"
  env_hook :: "hook_phase \<Rightarrow> key \<Rightarrow> ('d, 'e, unit) session_action"
  env_interceptors :: "(('d, 'e, unit) session_action \<times> ('d, 'e, unit) session_action) list"
  env_handlers :: "'e \<Rightarrow> ('d, 'e, unit) session_action list"

text \<open>Steps that cannot throw, reading the state, and calls of the connection.\<close>

definition act_modify :: "('s \<Rightarrow> 's) \<Rightarrow> ('s, unit) action" where
  "act_modify f s = (Inr (), f s)"

definition act_read :: "('s \<Rightarrow> 'a) \<Rightarrow> ('s, 'a) action" where
  "act_read f s = (Inr (f s), s)"

definition act_when :: "bool \<Rightarrow> ('s, unit) action \<Rightarrow> ('s, unit) action" where
  "act_when b m = (if b then m else act_return ())"

definition conn_call :: "('d, 'e) session_env \<Rightarrow> conn_op \<Rightarrow> ('d, 'e, query_result) session_action" where
  "conn_call E op s = (case env_conn E op (ss_world s) of (x, d) \<Rightarrow> (x, s\<lparr>ss_world := d\<rparr>))"

definition conn_do :: "('d, 'e) session_env \<Rightarrow> conn_op \<Rightarrow> ('d, 'e, unit) session_action" where
  "conn_do E op = act_bind (conn_call E op) (\<lambda>_. act_return ())"

text \<open>A compiled statement: the dialect's text with its parameters.\<close>

definition run_query :: "('d, 'e) session_env \<Rightarrow> compiled_query result \<Rightarrow> ('d, 'e, query_result) session_action" where
  "run_query E q = act_bind (act_lift q) (\<lambda>q. act_bind (act_lift (render (env_dialect E) (cq_sql q))) (\<lambda>sql.
     conn_call E (OExecute sql (cq_params q))))"

subsection \<open>Members of an entity\<close>

definition type_of :: "('d, 'e) session_env \<Rightarrow> ('d, 'e) session \<Rightarrow> key \<Rightarrow> entity_type" where
  "type_of E s k = env_types E (en_type (ss_heap s k))"

definition put_entity :: "key \<Rightarrow> 'e entity \<Rightarrow> ('d, 'e) session \<Rightarrow> ('d, 'e) session" where
  "put_entity k e s = s\<lparr>ss_heap := (ss_heap s)(k := e)\<rparr>"

definition get_member :: "('d, 'e) session \<Rightarrow> key \<Rightarrow> string \<Rightarrow> cpp_value" where
  "get_member s k c = (case alookup (en_columns (ss_heap s k)) c of Some v \<Rightarrow> v | None \<Rightarrow> CNone)"

definition set_member :: "key \<Rightarrow> string \<Rightarrow> cpp_value \<Rightarrow> ('d, 'e) session \<Rightarrow> ('d, 'e) session" where
  "set_member k c v s = put_entity k ((ss_heap s k)\<lparr>en_columns := aput c v (en_columns (ss_heap s k))\<rparr>) s"

definition column_type :: "entity_type \<Rightarrow> string \<Rightarrow> cpp_type" where
  "column_type t c = (case map_of (et_columns t) c of Some ty \<Rightarrow> ty | None \<Rightarrow> TString)"

text \<open>\<open>entity.[:Member:] = from_value<M>(v)\<close>\<close>

definition assign_member ::
  "('d, 'e) session_env \<Rightarrow> key \<Rightarrow> string \<Rightarrow> dbvalue \<Rightarrow> ('d, 'e, unit) session_action" where
  "assign_member E k c v s =
     (case from_value (env_fp E) (column_type (type_of E s k) c) v of
        Inl e \<Rightarrow> (Inl e, s)
      | Inr x \<Rightarrow> (Inr (), set_member k c x s))"

definition snapshot :: "('d, 'e) session_env \<Rightarrow> ('d, 'e) session \<Rightarrow> key \<Rightarrow> row" where
  "snapshot E s k = List.map (\<lambda>(c, t). (c, to_value (get_member s k c))) (et_columns (type_of E s k))"

definition restore_snapshot :: "('d, 'e) session_env \<Rightarrow> row \<Rightarrow> key \<Rightarrow> ('d, 'e, unit) session_action" where
  "restore_snapshot E values k s =
     act_iter (\<lambda>(c, t). case alookup values c of None \<Rightarrow> act_return () | Some v \<Rightarrow> assign_member E k c v)
       (et_columns (type_of E s k)) s"

text \<open>\<open>capture_runtime_restore\<close> copies the relation members and event queues; its result puts them back.\<close>

definition capture_runtime :: "('d, 'e) session \<Rightarrow> key \<Rightarrow> relation_member list \<times> 'e list list" where
  "capture_runtime s k = (en_relations (ss_heap s k), en_queues (ss_heap s k))"

definition restore_runtime :: "relation_member list \<times> 'e list list \<Rightarrow> key \<Rightarrow> ('d, 'e) session \<Rightarrow> ('d, 'e) session" where
  "restore_runtime saved k s =
     put_entity k ((ss_heap s k)\<lparr>en_relations := fst saved, en_queues := snd saved\<rparr>) s"

definition get_pk :: "('d, 'e) session_env \<Rightarrow> ('d, 'e) session \<Rightarrow> key \<Rightarrow> dbvalue" where
  "get_pk E s k = to_value (get_member s k (et_primary_key (type_of E s k)))"

definition set_pk :: "('d, 'e) session_env \<Rightarrow> key \<Rightarrow> dbvalue \<Rightarrow> ('d, 'e, unit) session_action" where
  "set_pk E k v s = assign_member E k (et_primary_key (type_of E s k)) v s"

subsection \<open>The identity map\<close>

text \<open>
  \<open>IdentityMap\<close>, one map for all types. Its entries are weak: an entry of an entity nothing keeps alive any
  more finds nothing. The unit of work keeps alive what it tracks and what its checkpoints hold.
\<close>

definition alive :: "('d, 'e) session \<Rightarrow> key \<Rightarrow> bool" where
  "alive s k \<longleftrightarrow> ss_held s k \<or> alookup (ss_tracked s) k \<noteq> None \<or>
     list_ex (\<lambda>cp. alookup (cp_entries cp) k \<noteq> None) (ss_checkpoints s)"

definition identity_get :: "('d, 'e) session_env \<Rightarrow> type_index \<Rightarrow> dbvalue \<Rightarrow> ('d, 'e) session \<Rightarrow> key option" where
  "identity_get E ty pk s =
     (case alookup (ss_identity s) (ty, value_key (env_fp E) pk) of
        None \<Rightarrow> None
      | Some k \<Rightarrow> if alive s k then Some k else None)"

definition identity_put :: "('d, 'e) session_env \<Rightarrow> type_index \<Rightarrow> dbvalue \<Rightarrow> key \<Rightarrow> ('d, 'e) session \<Rightarrow> ('d, 'e) session" where
  "identity_put E ty pk k s = s\<lparr>ss_identity := aput (ty, value_key (env_fp E) pk) k (ss_identity s)\<rparr>"

definition identity_erase :: "('d, 'e) session_env \<Rightarrow> type_index \<Rightarrow> dbvalue \<Rightarrow> ('d, 'e) session \<Rightarrow> ('d, 'e) session" where
  "identity_erase E ty pk s = s\<lparr>ss_identity := adel (ty, value_key (env_fp E) pk) (ss_identity s)\<rparr>"

definition identity_clear :: "('d, 'e) session \<Rightarrow> ('d, 'e) session" where
  "identity_clear s = s\<lparr>ss_identity := []\<rparr>"

definition has_identity_key :: "entity_type \<Rightarrow> dbvalue \<Rightarrow> bool" where
  "has_identity_key t pk \<longleftrightarrow> pk \<noteq> VNull \<and> (et_generated t \<longrightarrow> \<not> is_empty_generated_value pk)"

definition register_identity :: "('d, 'e) session_env \<Rightarrow> key \<Rightarrow> ('d, 'e) session \<Rightarrow> ('d, 'e) session" where
  "register_identity E k s =
     (if has_identity_key (type_of E s k) (get_pk E s k)
      then identity_put E (en_type (ss_heap s k)) (get_pk E s k) k s else s)"

subsection \<open>Tracking\<close>

definition uow_contains :: "('d, 'e) session \<Rightarrow> key \<Rightarrow> bool" where
  "uow_contains s k \<longleftrightarrow> alookup (ss_tracked s) k \<noteq> None"

definition uow_keys :: "('d, 'e) session \<Rightarrow> key list" where
  "uow_keys s = filter (uow_contains s) (ss_order s)"

definition capture_entry ::
  "('d, 'e) session_env \<Rightarrow> ('d, 'e) session \<Rightarrow> bool \<Rightarrow> key \<Rightarrow> tracked \<Rightarrow> 'e checkpoint_entry" where
  "capture_entry E s existed k t =
     \<lparr>ce_existed = existed, ce_tracked = t, ce_current = snapshot E s k, ce_runtime = capture_runtime s k\<rparr>"

definition note_new :: "('d, 'e) session_env \<Rightarrow> ('d, 'e) session \<Rightarrow> key \<Rightarrow> tracked \<Rightarrow> 'e checkpoint \<Rightarrow> 'e checkpoint" where
  "note_new E s k t cp =
     (if alookup (cp_entries cp) k = None
      then cp\<lparr>cp_entries := aput k (capture_entry E s False k t) (cp_entries cp)\<rparr> else cp)"

definition uow_track :: "('d, 'e) session_env \<Rightarrow> key \<Rightarrow> tracked \<Rightarrow> ('d, 'e) session \<Rightarrow> ('d, 'e) session" where
  "uow_track E k t s =
     s\<lparr>ss_checkpoints := List.map (note_new E s k t) (ss_checkpoints s),
       ss_tracked := aput k t (ss_tracked s),
       ss_order := (if uow_contains s k then ss_order s else ss_order s @ [k])\<rparr>"

definition uow_erase :: "key \<Rightarrow> ('d, 'e) session \<Rightarrow> ('d, 'e) session" where
  "uow_erase k s = s\<lparr>ss_tracked := adel k (ss_tracked s), ss_order := filter (\<lambda>j. j \<noteq> k) (ss_order s)\<rparr>"

definition uow_clear :: "('d, 'e) session \<Rightarrow> ('d, 'e) session" where
  "uow_clear s = s\<lparr>ss_tracked := [], ss_order := [], ss_checkpoints := []\<rparr>"

definition update_tracked :: "key \<Rightarrow> (tracked \<Rightarrow> tracked) \<Rightarrow> ('d, 'e) session \<Rightarrow> ('d, 'e) session" where
  "update_tracked k f s =
     (case alookup (ss_tracked s) k of None \<Rightarrow> s | Some t \<Rightarrow> s\<lparr>ss_tracked := aput k (f t) (ss_tracked s)\<rparr>)"

definition refresh_snapshot :: "('d, 'e) session_env \<Rightarrow> key \<Rightarrow> ('d, 'e) session \<Rightarrow> ('d, 'e) session" where
  "refresh_snapshot E k s = update_tracked k (\<lambda>t. t\<lparr>te_original := snapshot E s k\<rparr>) s"

definition set_status :: "key \<Rightarrow> entity_status \<Rightarrow> ('d, 'e) session \<Rightarrow> ('d, 'e) session" where
  "set_status k st = update_tracked k (\<lambda>t. t\<lparr>te_status := st\<rparr>)"

subsection \<open>Checkpoints\<close>

definition new_checkpoint :: "('d, 'e) session_env \<Rightarrow> ('d, 'e) session \<Rightarrow> 'e checkpoint" where
  "new_checkpoint E s =
     \<lparr>cp_entries = fold (\<lambda>k m. case alookup (ss_tracked s) k of None \<Rightarrow> m
          | Some t \<Rightarrow> if alookup m k = None then aput k (capture_entry E s True k t) m else m) (ss_order s) [],
      cp_order = ss_order s\<rparr>"

definition begin_checkpoint :: "('d, 'e) session_env \<Rightarrow> ('d, 'e) session \<Rightarrow> ('d, 'e) session" where
  "begin_checkpoint E s = s\<lparr>ss_checkpoints := new_checkpoint E s # ss_checkpoints s\<rparr>"

definition commit_checkpoint :: "('d, 'e, unit) session_action" where
  "commit_checkpoint s =
     (case ss_checkpoints s of
        [] \<Rightarrow> (Inl (Logic_error ''MetalORM: no UnitOfWork checkpoint to commit''), s)
      | cp # cps \<Rightarrow> (Inr (), s\<lparr>ss_checkpoints := cps\<rparr>))"

definition restore_entry ::
  "('d, 'e) session_env \<Rightarrow> key \<times> 'e checkpoint_entry \<Rightarrow> ('d, 'e, unit) session_action" where
  "restore_entry E = (\<lambda>(k, e).
     act_bind (restore_snapshot E (ce_current e) k) (\<lambda>_.
     act_bind (act_modify (restore_runtime (ce_runtime e) k)) (\<lambda>_.
     act_modify (\<lambda>s. s\<lparr>ss_tracked :=
       (if ce_existed e then aput k (ce_tracked e) (ss_tracked s) else adel k (ss_tracked s))\<rparr>))))"

definition rollback_checkpoint :: "('d, 'e) session_env \<Rightarrow> ('d, 'e, unit) session_action" where
  "rollback_checkpoint E s =
     (case ss_checkpoints s of
        [] \<Rightarrow> (Inl (Logic_error ''MetalORM: no UnitOfWork checkpoint to roll back''), s)
      | cp # cps \<Rightarrow>
          act_bind (act_modify (\<lambda>s. s\<lparr>ss_checkpoints := cps\<rparr>)) (\<lambda>_.
          act_bind (act_iter (restore_entry E) (cp_entries cp)) (\<lambda>_.
          act_modify (\<lambda>s. s\<lparr>ss_order := cp_order cp\<rparr>))) s)"

fun rollback_n :: "('d, 'e) session_env \<Rightarrow> nat \<Rightarrow> ('d, 'e, unit) session_action" where
  "rollback_n E 0 = act_return ()"
| "rollback_n E (Suc n) = act_bind (rollback_checkpoint E) (\<lambda>_. rollback_n E n)"

text \<open>Every round of the loop takes one checkpoint away, so there are as many rounds as checkpoints.\<close>

definition rollback_all_checkpoints :: "('d, 'e) session_env \<Rightarrow> ('d, 'e, unit) session_action" where
  "rollback_all_checkpoints E s = rollback_n E (length (ss_checkpoints s)) s"

text \<open>Loops over \<open>keys()\<close>: the keys are those at the start, one no longer tracked is skipped.\<close>

definition for_keys :: "(key \<Rightarrow> ('d, 'e, unit) session_action) \<Rightarrow> ('d, 'e, unit) session_action" where
  "for_keys f s = act_iter (\<lambda>k s. if uow_contains s k then f k s else (Inr (), s)) (uow_keys s) s"

definition register_all_identities :: "('d, 'e) session_env \<Rightarrow> ('d, 'e, unit) session_action" where
  "register_all_identities E = for_keys (\<lambda>k. act_modify (register_identity E k))"

definition dispatch_event :: "('d, 'e) session_env \<Rightarrow> 'e \<Rightarrow> ('d, 'e, unit) session_action" where
  "dispatch_event E e = act_iter (\<lambda>h. h) (env_handlers E e)"

definition clear_queue :: "key \<Rightarrow> nat \<Rightarrow> ('d, 'e) session \<Rightarrow> ('d, 'e) session" where
  "clear_queue k i s = put_entity k ((ss_heap s k)\<lparr>en_queues := (en_queues (ss_heap s k))[i := []]\<rparr>) s"

definition dispatch_queue :: "('d, 'e) session_env \<Rightarrow> key \<Rightarrow> nat \<Rightarrow> ('d, 'e, unit) session_action" where
  "dispatch_queue E k i s =
     act_bind (act_iter (dispatch_event E) (let qs = en_queues (ss_heap s k) in if i < length qs then qs ! i else [])) (\<lambda>_. act_modify (clear_queue k i)) s"

definition dispatch_domain_events :: "('d, 'e) session_env \<Rightarrow> ('d, 'e, unit) session_action" where
  "dispatch_domain_events E = for_keys (\<lambda>k s. act_iter (dispatch_queue E k) [0..<length (en_queues (ss_heap s k))] s)"

subsection \<open>Flushing\<close>

text \<open>
  The flush works on references to \<open>TrackedEntity\<close>s. A hook that makes the unit of work forget the entity (it
  clears the Session) leaves the reference dangling: the model stops there with \<open>dangling_entity\<close>.
\<close>

definition dangling_entity :: exn where
  "dangling_entity = Backend_failure ''use of an entity the unit of work no longer tracks''"

definition with_tracked :: "key \<Rightarrow> (tracked \<Rightarrow> ('d, 'e, 'a) session_action) \<Rightarrow> ('d, 'e, 'a) session_action" where
  "with_tracked k f s = (case alookup (ss_tracked s) k of None \<Rightarrow> (Inl dangling_entity, s) | Some t \<Rightarrow> f t s)"

text \<open>\<open>{name, current.at(name)}\<close> for every name.\<close>

definition assignments_of :: "row \<Rightarrow> string list \<Rightarrow> dml_assignment list" where
  "assignments_of current names =
     List.map (\<lambda>n. \<lparr>da_column = n, da_value = DmlValue (case alookup current n of Some v \<Rightarrow> v | None \<Rightarrow> VNull)\<rparr>) names"

definition insert_names :: "tracked \<Rightarrow> bool \<Rightarrow> row \<Rightarrow> string list" where
  "insert_names t needs_key current =
     sort (filter (\<lambda>n. \<not> (n = te_primary_key t \<and> needs_key)) (List.map fst current))"

definition insert_statement ::
  "dialect \<Rightarrow> tracked \<Rightarrow> bool \<Rightarrow> row \<Rightarrow> compiled_query result" where
  "insert_statement d t needs_key current =
     rbind (insert_values (assignments_of current (insert_names t needs_key current)) (new_insert (te_table t))) (\<lambda>n.
       compiled (compile_insert d
         (if needs_key \<and> d_keys d = Returning then insert_returning [te_primary_key t] n else n)))"

definition returned_key :: "tracked \<Rightarrow> query_result \<Rightarrow> dbvalue result" where
  "returned_key t r =
     (case qr_rows r of
        [] \<Rightarrow> Inl (Runtime_error ''MetalORM: INSERT RETURNING did not return the generated primary key'')
      | first # _ \<Rightarrow> (case alookup first (te_primary_key t) of
            None \<Rightarrow> Inl (Runtime_error (''MetalORM: INSERT RETURNING result is missing generated primary key '' @
              [squote] @ te_primary_key t @ [squote]))
          | Some v \<Rightarrow> Inr v))"

definition flush_insert :: "('d, 'e) session_env \<Rightarrow> key \<Rightarrow> ('d, 'e, unit) session_action" where
  "flush_insert E k =
     act_bind (env_hook E BeforeInsert k) (\<lambda>_. with_tracked k (\<lambda>t s.
       let needs_key = te_generated t \<and> is_empty_generated_value (get_pk E s k) in
       act_bind (run_query E (insert_statement (env_dialect E) t needs_key (snapshot E s k))) (\<lambda>r.
       act_bind (if \<not> needs_key then act_return ()
         else if d_keys (env_dialect E) = Returning
           then act_bind (act_lift (returned_key t r)) (set_pk E k)
           else set_pk E k (VInt (qr_last_id r))) (\<lambda>_.
       act_bind (act_modify (refresh_snapshot E k)) (\<lambda>_.
       act_bind (act_modify (set_status k StManaged)) (\<lambda>_.
       act_bind (act_modify (register_identity E k)) (\<lambda>_. env_hook E AfterInsert k))))) s))"

definition changed_names :: "tracked \<Rightarrow> row \<Rightarrow> string list" where
  "changed_names t current =
     sort (List.map fst (filter (\<lambda>(n, v). n \<noteq> te_primary_key t \<and>
       (case alookup (te_original t) n of None \<Rightarrow> True | Some v' \<Rightarrow> \<not> value_eq v' v)) current))"

definition update_statement ::
  "dialect \<Rightarrow> tracked \<Rightarrow> row \<Rightarrow> string list \<Rightarrow> dbvalue \<Rightarrow> compiled_query result" where
  "update_statement d t current changed pk =
     compiled (compile_update d (where_eq (te_primary_key t) pk
       (update_set (assignments_of current changed) (new_update (te_table t)))))"

definition flush_update :: "('d, 'e) session_env \<Rightarrow> key \<Rightarrow> ('d, 'e, unit) session_action" where
  "flush_update E k = with_tracked k (\<lambda>t s.
     let current = snapshot E s k; changed = changed_names t current in
     if changed = [] then (Inr (), s)
     else act_bind (env_hook E BeforeUpdate k) (\<lambda>_. with_tracked k (\<lambda>t s.
       act_bind (run_query E (update_statement (env_dialect E) t current changed (get_pk E s k))) (\<lambda>_.
       act_bind (act_modify (refresh_snapshot E k)) (\<lambda>_. env_hook E AfterUpdate k)) s)) s)"

definition delete_statement :: "dialect \<Rightarrow> tracked \<Rightarrow> dbvalue \<Rightarrow> compiled_query result" where
  "delete_statement d t pk = compiled (compile_delete d (where_eq (te_primary_key t) pk (new_delete (te_table t))))"

definition flush_delete :: "('d, 'e) session_env \<Rightarrow> key \<Rightarrow> ('d, 'e, unit) session_action" where
  "flush_delete E k =
     act_bind (env_hook E BeforeDelete k) (\<lambda>_. with_tracked k (\<lambda>t s.
       let pk = get_pk E s k in
       act_bind (run_query E (delete_statement (env_dialect E) t pk)) (\<lambda>_.
       act_bind (act_modify (\<lambda>s. identity_erase E (en_type (ss_heap s k)) pk s)) (\<lambda>_.
       act_bind (act_modify (set_status k StDetached)) (\<lambda>_.
       act_bind (act_modify (uow_erase k)) (\<lambda>_. env_hook E AfterDelete k)))) s))"

definition flush_entity :: "('d, 'e) session_env \<Rightarrow> key \<Rightarrow> ('d, 'e, unit) session_action" where
  "flush_entity E k = with_tracked k (\<lambda>t.
     case te_status t of
       StNew \<Rightarrow> flush_insert E k
     | StManaged \<Rightarrow> flush_update E k
     | StRemoved \<Rightarrow> flush_delete E k
     | StDetached \<Rightarrow> act_return ())"

definition uow_flush :: "('d, 'e) session_env \<Rightarrow> ('d, 'e, unit) session_action" where
  "uow_flush E = for_keys (flush_entity E)"

end
