(* ===== verification/Relation_Changes.thy ===== *)
theory Relation_Changes
  imports Unit_Of_Work
begin

section \<open>Tracking in a Session and relation changes (include/metal/orm.hpp, relation_change_processor.hpp)\<close>

text \<open>
  \<open>Session::track\<close>, \<open>persist\<close> and \<open>remove\<close>, and what the \<open>RelationChangeProcessor\<close> does before, between and
  after the two flushes of a commit. The templates over a relation member become functions of the
  entity's address, the position of the member and its \<open>relation_meta\<close>.
\<close>

subsection \<open>Persisting and removing\<close>

definition new_tracked :: "('d, 'e) session_env \<Rightarrow> ('d, 'e) session \<Rightarrow> key \<Rightarrow> entity_status \<Rightarrow> tracked" where
  "new_tracked E s k st = \<lparr>te_status = st, te_table = et_table (type_of E s k),
     te_primary_key = et_primary_key (type_of E s k), te_generated = et_generated (type_of E s k),
     te_original = (if st = StNew then [] else snapshot E s k)\<rparr>"

definition session_track :: "('d, 'e) session_env \<Rightarrow> key \<Rightarrow> entity_status \<Rightarrow> ('d, 'e) session \<Rightarrow> ('d, 'e) session" where
  "session_track E k st s = register_identity E k (uow_track E k (new_tracked E s k st) s)"

definition persist_entity :: "('d, 'e) session_env \<Rightarrow> key \<Rightarrow> ('d, 'e) session \<Rightarrow> ('d, 'e) session" where
  "persist_entity E k s =
     (case alookup (ss_tracked s) k of
        Some t \<Rightarrow> if te_status t = StRemoved then set_status k StManaged s else s
      | None \<Rightarrow> session_track E k (if has_identity_key (type_of E s k) (get_pk E s k) then StManaged else StNew) s)"

definition persist :: "('d, 'e) session_env \<Rightarrow> key option \<Rightarrow> ('d, 'e, unit) session_action" where
  "persist E entity s =
     (case entity of
        None \<Rightarrow> (Inl (Invalid_argument ''MetalORM: cannot persist a null entity''), s)
      | Some k \<Rightarrow> (Inr (), persist_entity E k s))"

definition remove_entity :: "key \<Rightarrow> ('d, 'e) session \<Rightarrow> ('d, 'e) session" where
  "remove_entity k s = (if uow_contains s k then set_status k StRemoved s else s)"

subsection \<open>Cascades\<close>

definition relation_identity :: "('d, 'e) session_env \<Rightarrow> ('d, 'e) session \<Rightarrow> relation_meta \<Rightarrow> key \<Rightarrow> string option" where
  "relation_identity E s m k =
     (let t = env_types E (rm_target m); v = to_value (get_member s k (rm_target_key m)) in
      if v = VNull then None
      else if rm_target_key m = et_primary_key t \<and> et_generated t \<and> is_empty_generated_value v then None
      else Some (value_key (env_fp E) v))"

definition bound :: "('d, 'e) session_env \<Rightarrow> ('d, 'e) session \<Rightarrow> relation_meta \<Rightarrow> identity" where
  "bound E s m = Some (relation_identity E s m)"

text \<open>Member \<open>i\<close> of an entity; it has as many as its type.\<close>

definition member_at :: "('d, 'e) session \<Rightarrow> key \<Rightarrow> nat \<Rightarrow> relation_member" where
  "member_at s k i = (let rs = en_relations (ss_heap s k) in if i < length rs then rs ! i else MRef empty_reference)"

definition opt_list :: "'a option \<Rightarrow> 'a list" where
  "opt_list x = (case x of None \<Rightarrow> [] | Some y \<Rightarrow> [y])"

text \<open>The targets a member with cascade persist passes on.\<close>

definition persist_targets :: "('d, 'e) session_env \<Rightarrow> ('d, 'e) session \<Rightarrow> relation_meta \<Rightarrow> relation_member \<Rightarrow> key list" where
  "persist_targets E s m r =
     (case r of
        MMany c \<Rightarrow> co_added c
      | MPivot c \<Rightarrow> pc_added (bound E s m) c
      | MRef x \<Rightarrow> opt_list (if rm_kind m = MorphTo then rf_current x else rf_added x))"

definition prepare_entity :: "('d, 'e) session_env \<Rightarrow> key \<Rightarrow> ('d, 'e) session \<Rightarrow> ('d, 'e) session" where
  "prepare_entity E k s =
     fold (\<lambda>(i, m) s. if rm_cascade_persist m
         then fold (\<lambda>target s. if uow_contains s target then s else persist_entity E target s)
           (persist_targets E s m (member_at s k i)) s
         else s)
       (enumerate 0 (et_relations (type_of E s k))) s"

text \<open>
  \<open>prepare\<close> goes round until every tracked entity was visited, those a cascade has just added too. A round
  visits at least one, and all are below \<open>ss_fresh\<close>, so that many rounds are enough
  (\<open>prepare_fuel_enough\<close>).
\<close>

fun prepare_round :: "('d, 'e) session_env \<Rightarrow> key list \<Rightarrow> key list \<Rightarrow> ('d, 'e) session \<Rightarrow> key list \<times> ('d, 'e) session" where
  "prepare_round E [] seen s = (seen, s)"
| "prepare_round E (k # ks) seen s =
     (if k \<in> set seen \<or> \<not> uow_contains s k then prepare_round E ks seen s
      else prepare_round E ks (k # seen) (prepare_entity E k s))"

fun prepare_rounds :: "('d, 'e) session_env \<Rightarrow> nat \<Rightarrow> key list \<Rightarrow> ('d, 'e) session \<Rightarrow> ('d, 'e) session" where
  "prepare_rounds E 0 seen s = s"
| "prepare_rounds E (Suc n) seen s =
     (if length seen < length (uow_keys s)
      then case prepare_round E (uow_keys s) seen s of (seen', s') \<Rightarrow>
        if length seen' = length seen then s' else prepare_rounds E n seen' s'
      else s)"

definition prepare :: "('d, 'e) session_env \<Rightarrow> ('d, 'e) session \<Rightarrow> ('d, 'e) session" where
  "prepare E s = prepare_rounds E (Suc (ss_fresh s)) [] s"

subsection \<open>Writing relation keys\<close>

definition missing_relation_key :: "entity_type \<Rightarrow> string \<Rightarrow> dbvalue \<Rightarrow> bool" where
  "missing_relation_key owner c v \<longleftrightarrow> v = VNull \<or> (c = et_primary_key owner \<and> et_generated owner \<and> is_empty_generated_value v)"

definition pivot_payload :: "patch \<Rightarrow> string \<Rightarrow> string \<Rightarrow> dml_assignment list" where
  "pivot_payload p root target =
     List.map (\<lambda>(c, v). \<lparr>da_column = c, da_value = DmlValue v\<rparr>) (filter (\<lambda>(c, v). c \<noteq> root \<and> c \<noteq> target) p)"

definition clear_nullable :: "('d, 'e) session_env \<Rightarrow> string \<Rightarrow> string \<Rightarrow> key \<Rightarrow> ('d, 'e, unit) session_action" where
  "clear_nullable E name c k s =
     (if is_optional (column_type (type_of E s k) c) then (Inr (), set_member k c CNone s)
      else (Inl (Runtime_error (''MetalORM: detaching '' @ name @ '' requires nullable relation fields or cascade remove'')), s))"

definition key_value :: "('d, 'e) session \<Rightarrow> key \<Rightarrow> string \<Rightarrow> dbvalue" where
  "key_value s k c = to_value (get_member s k c)"

definition fail_when :: "bool \<Rightarrow> string \<Rightarrow> ('s, unit) action" where
  "fail_when b msg = (if b then act_throw (Runtime_error msg) else act_return ())"

text \<open>\<open>UPDATE target SET foreign key = v WHERE primary key = pk\<close>, after which the target is clean.\<close>

definition link_statement :: "dialect \<Rightarrow> entity_type \<Rightarrow> string \<Rightarrow> dbvalue \<Rightarrow> dbvalue \<Rightarrow> compiled_query result" where
  "link_statement d t fk v pk =
     compiled (compile_update d (where_eq (et_primary_key t) pk
       (update_set [\<lparr>da_column = fk, da_value = DmlValue v\<rparr>] (new_update (et_table t)))))"

definition write_link :: "('d, 'e) session_env \<Rightarrow> relation_meta \<Rightarrow> key \<Rightarrow> dbvalue \<Rightarrow> dbvalue \<Rightarrow> ('d, 'e, unit) session_action" where
  "write_link E m target v pk =
     act_bind (run_query E (link_statement (env_dialect E) (env_types E (rm_target m)) (rm_foreign_key m) v pk)) (\<lambda>_.
       act_modify (refresh_snapshot E target))"

definition link_target :: "('d, 'e) session_env \<Rightarrow> relation_meta \<Rightarrow> dbvalue \<Rightarrow> dbvalue \<Rightarrow> key \<Rightarrow> ('d, 'e, unit) session_action" where
  "link_target E m root_key target_key target =
     act_bind (assign_member E target (rm_foreign_key m) root_key) (\<lambda>_. write_link E m target root_key target_key)"

text \<open>A target that left the relation: removed, set free, or an error when its foreign key cannot be NULL.\<close>

definition release_target :: "('d, 'e) session_env \<Rightarrow> relation_meta \<Rightarrow> string \<Rightarrow> key \<Rightarrow> ('d, 'e, unit) session_action" where
  "release_target E m name target s =
     (let t = type_of E s target in
      if rm_cascade_remove m then (Inr (), remove_entity target s)
      else if is_optional (column_type t (rm_foreign_key m))
        then act_bind (act_modify (set_member target (rm_foreign_key m) CNone)) (\<lambda>_.
          write_link E m target VNull (key_value s target (et_primary_key t))) s
      else (Inl (Runtime_error (''MetalORM: detaching from a non-nullable '' @ name @ '' requires cascade remove'')), s))"

definition flush_belongs_to :: "('d, 'e) session_env \<Rightarrow> relation_meta \<Rightarrow> reference \<Rightarrow> key \<Rightarrow> ('d, 'e, unit) session_action" where
  "flush_belongs_to E m r k s =
     (if \<not> rf_dirty r then (Inr (), s)
      else case rf_added r of
        Some target \<Rightarrow>
          let key = key_value s target (rm_target_key m) in
          act_bind (fail_when (missing_relation_key (env_types E (rm_target m)) (rm_target_key m) key)
            ''MetalORM: belongs_to target does not have a persisted relation key'')
            (\<lambda>_. assign_member E k (rm_foreign_key m) key) s
      | None \<Rightarrow> if rf_removed r = None then (Inr (), s) else clear_nullable E ''belongs_to'' (rm_foreign_key m) k s)"

definition flush_has_one :: "('d, 'e) session_env \<Rightarrow> relation_meta \<Rightarrow> reference \<Rightarrow> key \<Rightarrow> ('d, 'e, unit) session_action" where
  "flush_has_one E m r k s =
     (if \<not> rf_dirty r then (Inr (), s)
      else let root_key = key_value s k (rm_local_key m); t = env_types E (rm_target m) in
      act_bind (case rf_added r of None \<Rightarrow> act_return ()
        | Some target \<Rightarrow> (\<lambda>s. let target_key = key_value s target (et_primary_key t) in
            act_bind (fail_when (missing_relation_key (type_of E s k) (rm_local_key m) root_key)
              ''MetalORM: cannot flush has_one for a root without a persisted key'') (\<lambda>_.
            act_bind (fail_when (\<not> uow_contains s target)
              ''MetalORM: attached has_one target is not persisted; enable cascade persist or persist it explicitly'') (\<lambda>_.
            act_bind (fail_when (missing_relation_key t (et_primary_key t) target_key)
              ''MetalORM: attached has_one target does not have a persisted primary key'') (\<lambda>_.
            link_target E m root_key target_key target))) s)) (\<lambda>_.
      case rf_removed r of None \<Rightarrow> act_return () | Some previous \<Rightarrow> release_target E m ''has_one'' previous) s)"

definition flush_has_many :: "('d, 'e) session_env \<Rightarrow> relation_meta \<Rightarrow> collection \<Rightarrow> key \<Rightarrow> ('d, 'e, unit) session_action" where
  "flush_has_many E m c k s =
     (let root_key = key_value s k (rm_local_key m); t = env_types E (rm_target m) in
      act_bind (fail_when (missing_relation_key (type_of E s k) (rm_local_key m) root_key \<and> co_dirty c)
        ''MetalORM: cannot flush has_many for a root without a persisted key'') (\<lambda>_.
      act_bind (act_iter (\<lambda>target s. let target_key = key_value s target (et_primary_key t) in
          act_bind (fail_when (missing_relation_key t (et_primary_key t) target_key)
            ''MetalORM: attached has_many target is not persisted; enable cascade persist or persist it explicitly'') (\<lambda>_.
          link_target E m root_key target_key target) s) (co_added c)) (\<lambda>_.
      act_iter (release_target E m ''has_many'') (co_removed c))) s)"

subsection \<open>Many-to-many\<close>

definition pivot_assignments :: "relation_meta \<Rightarrow> dbvalue \<Rightarrow> dbvalue \<Rightarrow> patch option \<Rightarrow> dml_assignment list" where
  "pivot_assignments m root_key target_key p =
     [\<lparr>da_column = rm_pivot_root m, da_value = DmlValue root_key\<rparr>,
      \<lparr>da_column = rm_pivot_target m, da_value = DmlValue target_key\<rparr>] @
     (case p of None \<Rightarrow> [] | Some q \<Rightarrow> pivot_payload q (rm_pivot_root m) (rm_pivot_target m))"

definition pivot_predicates :: "relation_meta \<Rightarrow> dbvalue \<Rightarrow> dbvalue \<Rightarrow> dml_predicate list" where
  "pivot_predicates m root_key target_key =
     [\<lparr>dp_column = rm_pivot_root m, dp_op = OpEq, dp_value = root_key\<rparr>,
      \<lparr>dp_column = rm_pivot_target m, dp_op = OpEq, dp_value = target_key\<rparr>]"

definition pivot_insert :: "dialect \<Rightarrow> relation_meta \<Rightarrow> dbvalue \<Rightarrow> dbvalue \<Rightarrow> patch option \<Rightarrow> compiled_query result" where
  "pivot_insert d m root_key target_key p =
     rbind (insert_values (pivot_assignments m root_key target_key p) (new_insert (rm_pivot m))) (\<lambda>n.
       compiled (compile_insert d n))"

definition pivot_delete :: "dialect \<Rightarrow> relation_meta \<Rightarrow> dbvalue \<Rightarrow> dbvalue \<Rightarrow> compiled_query result" where
  "pivot_delete d m root_key target_key =
     compiled (compile_delete d (dml_where_predicates (pivot_predicates m root_key target_key) (new_delete (rm_pivot m))))"

definition add_pivot ::
  "('d, 'e) session_env \<Rightarrow> relation_meta \<Rightarrow> pivot_collection \<Rightarrow> dbvalue \<Rightarrow> key \<Rightarrow> ('d, 'e, unit) session_action" where
  "add_pivot E m c root_key target s =
     (let target_key = key_value s target (rm_target_key m) in
      act_bind (fail_when (missing_relation_key (env_types E (rm_target m)) (rm_target_key m) target_key)
        ''MetalORM: attached many_to_many target does not have a relation target key'') (\<lambda>_.
      act_bind (run_query E (pivot_insert (env_dialect E) m root_key target_key (pc_patch (bound E s m) target c))) (\<lambda>_.
      act_return ())) s)"

definition update_pivot ::
  "('d, 'e) session_env \<Rightarrow> relation_meta \<Rightarrow> pivot_collection \<Rightarrow> dbvalue \<Rightarrow> key \<Rightarrow> ('d, 'e, unit) session_action" where
  "update_pivot E m c root_key target s =
     (case pc_patch (bound E s m) target c of
        None \<Rightarrow> (Inr (), s)
      | Some p \<Rightarrow>
          let assignments = pivot_payload p (rm_pivot_root m) (rm_pivot_target m);
              target_key = key_value s target (rm_target_key m) in
          if p = [] \<or> assignments = [] then (Inr (), s)
          else act_bind (run_query E (compiled (compile_update (env_dialect E)
              (dml_where_predicates (pivot_predicates m root_key target_key)
                (update_set assignments (new_update (rm_pivot m))))))) (\<lambda>_. act_return ()) s)"

definition remove_pivot ::
  "('d, 'e) session_env \<Rightarrow> relation_meta \<Rightarrow> dbvalue \<Rightarrow> key \<Rightarrow> ('d, 'e, unit) session_action" where
  "remove_pivot E m root_key target s =
     (let target_key = key_value s target (rm_target_key m) in
      act_bind (run_query E (pivot_delete (env_dialect E) m root_key target_key)) (\<lambda>_ s.
        if \<not> rm_cascade_remove m then (Inr (), s)
        else if uow_contains s target then (Inr (), remove_entity target s)
        else act_bind (run_query E (compiled (compile_delete (env_dialect E)
          (where_eq (rm_target_key m) target_key (new_delete (et_table (env_types E (rm_target m)))))))) (\<lambda>_.
          act_return ()) s) s)"

definition flush_many_to_many :: "('d, 'e) session_env \<Rightarrow> relation_meta \<Rightarrow> pivot_collection \<Rightarrow> key \<Rightarrow> ('d, 'e, unit) session_action" where
  "flush_many_to_many E m c k s =
     (let root_key = key_value s k (rm_local_key m); ident = bound E s m in
      act_bind (fail_when (missing_relation_key (type_of E s k) (rm_local_key m) root_key \<and>
          (pc_added ident c \<noteq> [] \<or> pc_removed ident c \<noteq> []))
        ''MetalORM: cannot flush many_to_many for a root without a persisted key'') (\<lambda>_.
      act_bind (act_iter (add_pivot E m c root_key) (pc_added ident c)) (\<lambda>_.
      act_bind (act_iter (update_pivot E m c root_key) (pc_updates ident c)) (\<lambda>_.
      act_iter (remove_pivot E m root_key) (pc_removed ident c)))) s)"

subsection \<open>Polymorphic relations\<close>

definition link_morph :: "('d, 'e) session_env \<Rightarrow> relation_meta \<Rightarrow> string \<Rightarrow> dbvalue \<Rightarrow> key \<Rightarrow> ('d, 'e, unit) session_action" where
  "link_morph E m name root_key target s =
     act_bind (fail_when (\<not> uow_contains s target)
       (''MetalORM: attached '' @ name @ '' target is not persisted; enable cascade persist or persist it explicitly'')) (\<lambda>_.
     act_bind (assign_member E target (rm_id_field m) root_key) (\<lambda>_.
     assign_member E target (rm_type_field m) (VString (rm_type_value m)))) s"

definition release_morph :: "('d, 'e) session_env \<Rightarrow> relation_meta \<Rightarrow> string \<Rightarrow> key \<Rightarrow> ('d, 'e, unit) session_action" where
  "release_morph E m name target =
     (if rm_cascade_remove m then act_modify (remove_entity target)
      else act_bind (clear_nullable E name (rm_id_field m) target) (\<lambda>_. clear_nullable E name (rm_type_field m) target))"

definition flush_morph_one :: "('d, 'e) session_env \<Rightarrow> relation_meta \<Rightarrow> reference \<Rightarrow> key \<Rightarrow> ('d, 'e, unit) session_action" where
  "flush_morph_one E m r k s =
     (let root_key = key_value s k (rm_local_key m) in
      act_bind (case rf_added r of None \<Rightarrow> act_return ()
        | Some target \<Rightarrow>
            act_bind (fail_when (missing_relation_key (type_of E s k) (rm_local_key m) root_key)
              ''MetalORM: cannot flush morph_one for a root without a persisted key'') (\<lambda>_.
            link_morph E m ''morph_one'' root_key target)) (\<lambda>_.
      case rf_removed r of None \<Rightarrow> act_return () | Some previous \<Rightarrow> release_morph E m ''morph_one'' previous) s)"

definition flush_morph_many :: "('d, 'e) session_env \<Rightarrow> relation_meta \<Rightarrow> collection \<Rightarrow> key \<Rightarrow> ('d, 'e, unit) session_action" where
  "flush_morph_many E m c k s =
     (let root_key = key_value s k (rm_local_key m) in
      act_bind (fail_when (missing_relation_key (type_of E s k) (rm_local_key m) root_key \<and> co_dirty c)
        ''MetalORM: cannot flush morph_many for a root without a persisted key'') (\<lambda>_.
      act_bind (act_iter (link_morph E m ''morph_many'' root_key) (co_added c)) (\<lambda>_.
      act_iter (release_morph E m ''morph_many'') (co_removed c))) s)"

definition apply_morph_case ::
  "('d, 'e) session_env \<Rightarrow> relation_meta \<Rightarrow> key \<Rightarrow> key \<Rightarrow> type_index \<times> string \<times> string \<Rightarrow> ('d, 'e, unit) session_action" where
  "apply_morph_case E m k target = (\<lambda>(ty, target_key, type_value) s.
     let key = key_value s target target_key in
     act_bind (fail_when (missing_relation_key (env_types E ty) target_key key)
       ''MetalORM: morph_to target does not have a persisted relation key'') (\<lambda>_.
     act_bind (assign_member E k (rm_type_field m) (VString type_value)) (\<lambda>_.
     assign_member E k (rm_id_field m) key)) s)"

definition flush_morph_to :: "('d, 'e) session_env \<Rightarrow> relation_meta \<Rightarrow> reference \<Rightarrow> key \<Rightarrow> ('d, 'e, unit) session_action" where
  "flush_morph_to E m r k s =
     (if \<not> rf_dirty r then (Inr (), s)
      else case rf_current r of
        None \<Rightarrow> act_bind (clear_nullable E ''morph_to'' (rm_type_field m) k) (\<lambda>_.
          clear_nullable E ''morph_to'' (rm_id_field m) k) s
      | Some target \<Rightarrow>
          let cases = filter (\<lambda>c. fst c = en_type (ss_heap s target)) (rm_cases m) in
          act_bind (act_iter (apply_morph_case E m k target) cases) (\<lambda>_.
            fail_when (cases = []) ''MetalORM: morph_to target type is not declared by the relation'') s)"

subsection \<open>Processing and accepting\<close>

text \<open>The kind of a relation and the C++ type of its member agree, which the mapping checks at compile time.\<close>

definition flush_relation :: "('d, 'e) session_env \<Rightarrow> key \<Rightarrow> nat \<times> relation_meta \<Rightarrow> ('d, 'e, unit) session_action" where
  "flush_relation E k = (\<lambda>(i, m) s.
     case (rm_kind m, member_at s k i) of
       (BelongsTo, MRef r) \<Rightarrow> flush_belongs_to E m r k s
     | (HasOne, MRef r) \<Rightarrow> flush_has_one E m r k s
     | (HasMany, MMany c) \<Rightarrow> flush_has_many E m c k s
     | (ManyToMany, MPivot c) \<Rightarrow> flush_many_to_many E m c k s
     | (MorphOne, MRef r) \<Rightarrow> flush_morph_one E m r k s
     | (MorphMany, MMany c) \<Rightarrow> flush_morph_many E m c k s
     | (MorphTo, MRef r) \<Rightarrow> flush_morph_to E m r k s
     | _ \<Rightarrow> (Inr (), s))"

definition process_entity :: "('d, 'e) session_env \<Rightarrow> key \<Rightarrow> ('d, 'e, unit) session_action" where
  "process_entity E k s = act_iter (flush_relation E k) (enumerate 0 (et_relations (type_of E s k))) s"

definition accept_member :: "relation_member \<Rightarrow> relation_member" where
  "accept_member r = (case r of MRef x \<Rightarrow> MRef (rf_accept x) | MMany c \<Rightarrow> MMany (co_accept c) | MPivot c \<Rightarrow> MPivot (pc_accept c))"

definition accept_entity :: "key \<Rightarrow> ('d, 'e) session \<Rightarrow> ('d, 'e) session" where
  "accept_entity k s = put_entity k ((ss_heap s k)\<lparr>en_relations := List.map accept_member (en_relations (ss_heap s k))\<rparr>) s"

definition process_relations :: "('d, 'e) session_env \<Rightarrow> ('d, 'e, unit) session_action" where
  "process_relations E = for_keys (process_entity E)"

definition accept_relations :: "('d, 'e, unit) session_action" where
  "accept_relations = for_keys (\<lambda>k. act_modify (accept_entity k))"

end
