(* ===== verification/Session.thy ===== *)
theory Session
  imports Relation_Changes
begin

section \<open>Transactions of a Session (include/metal/orm.hpp)\<close>

text \<open>
  The commit pipeline, transactions with their savepoints and checkpoints, and the operations that end
  them. The function given to \<open>transaction\<close> is the user's code, an action on the Session like a hook;
  catching its exceptions and starting another transaction inside are its own business.
\<close>

definition act_ignore :: "('s, 'a) action \<Rightarrow> ('s, unit) action" where
  "act_ignore m = quietly m"

definition flush_pipeline :: "('d, 'e) session_env \<Rightarrow> ('d, 'e, unit) session_action" where
  "flush_pipeline E =
     act_bind (act_iter fst (env_interceptors E)) (\<lambda>_.
     act_bind (act_modify (prepare E)) (\<lambda>_.
     act_bind (uow_flush E) (\<lambda>_.
     act_bind (process_relations E) (\<lambda>_.
     act_bind (uow_flush E) (\<lambda>_.
     act_iter snd (env_interceptors E))))))"

definition rebuild_identity_map :: "('d, 'e) session_env \<Rightarrow> ('d, 'e, unit) session_action" where
  "rebuild_identity_map E = act_bind (act_modify identity_clear) (\<lambda>_. register_all_identities E)"

text \<open>\<open>if (unit_of_work_.has_checkpoint()) try { unit_of_work_.rollback_checkpoint(); } catch (...) {}\<close>\<close>

definition undo_checkpoint :: "('d, 'e) session_env \<Rightarrow> ('d, 'e, unit) session_action" where
  "undo_checkpoint E s = act_when (ss_checkpoints s \<noteq> []) (quietly (rollback_checkpoint E)) s"

definition commit_in_transaction :: exn where
  "commit_in_transaction = Logic_error ''MetalORM: commit() cannot be called inside Session::transaction(); the transaction scope flushes automatically''"

definition session_commit :: "('d, 'e) session_env \<Rightarrow> ('d, 'e, unit) session_action" where
  "session_commit E s =
     (if ss_depth s \<noteq> 0 then (Inl commit_in_transaction, s)
      else if \<not> env_transactions E
        then act_bind (flush_pipeline E) (\<lambda>_. act_bind accept_relations (\<lambda>_. dispatch_domain_events E)) s
      else act_bind (act_modify (begin_checkpoint E)) (\<lambda>_.
        act_bind (on_error
          (act_bind (conn_do E OBegin) (\<lambda>_.
           act_bind (flush_pipeline E) (\<lambda>_.
           act_bind accept_relations (\<lambda>_.
           act_bind (conn_do E OCommit) (\<lambda>_. commit_checkpoint)))))
          (act_bind (quietly (conn_do E ORollback)) (\<lambda>_.
           act_bind (undo_checkpoint E) (\<lambda>_. rebuild_identity_map E)))) (\<lambda>_.
        dispatch_domain_events E)) s)"

definition savepoint_name :: "nat \<Rightarrow> string" where
  "savepoint_name n = ''metalorm_sp_'' @ show_nat n"

definition throw_if_rollback_only :: "('d, 'e, unit) session_action" where
  "throw_if_rollback_only s =
     (if ss_rollback_only s
      then (Inl (Logic_error ''MetalORM: cannot commit transaction because an inner transaction failed''), s)
      else (Inr (), s))"

definition finish_transaction_scope :: "('d, 'e) session \<Rightarrow> ('d, 'e) session" where
  "finish_transaction_scope s =
     (let s' = s\<lparr>ss_depth := ss_depth s - 1\<rparr> in
      if ss_depth s' = 0 then s'\<lparr>ss_rollback_only := False, ss_savepoints := 0\<rparr> else s')"

definition rollback_transaction_scope :: "('d, 'e) session_env \<Rightarrow> bool \<Rightarrow> string \<Rightarrow> ('d, 'e, unit) session_action" where
  "rollback_transaction_scope E outermost name =
     act_bind (if outermost then quietly (conn_do E ORollback)
       else act_bind (act_modify (\<lambda>s. s\<lparr>ss_rollback_only := True\<rparr>)) (\<lambda>_. quietly (conn_do E (ORollbackTo name)))) (\<lambda>_.
     act_bind (undo_checkpoint E) (\<lambda>_.
     act_bind (rebuild_identity_map E) (\<lambda>_.
     act_modify finish_transaction_scope)))"

text \<open>What begins the transaction, with the name of the savepoint (none for the outermost).\<close>

definition open_scope :: "('d, 'e) session_env \<Rightarrow> ('d, 'e, string) session_action" where
  "open_scope E s =
     (if ss_depth s = 0
      then act_bind (act_modify (\<lambda>s. s\<lparr>ss_rollback_only := False\<rparr>)) (\<lambda>_.
        act_bind (conn_do E OBegin) (\<lambda>_. act_return [])) s
      else if \<not> env_savepoints E
        then (Inl (Logic_error ''MetalORM: nested Session::transaction() calls require savepoint support in this executor''), s)
      else let n = Suc (ss_savepoints s) in
        act_bind (act_modify (\<lambda>s. s\<lparr>ss_savepoints := n\<rparr>)) (\<lambda>_.
        act_bind (conn_do E (OSavepoint (savepoint_name n))) (\<lambda>_. act_return (savepoint_name n))) s)"

definition close_scope :: "('d, 'e) session_env \<Rightarrow> bool \<Rightarrow> string \<Rightarrow> ('d, 'e, unit) session_action" where
  "close_scope E outermost name =
     act_bind throw_if_rollback_only (\<lambda>_.
     act_bind (flush_pipeline E) (\<lambda>_.
     act_bind throw_if_rollback_only (\<lambda>_.
     act_bind accept_relations (\<lambda>_.
     act_bind (conn_do E (if outermost then OCommit else OReleaseSavepoint name)) (\<lambda>_.
     commit_checkpoint)))))"

definition transaction :: "('d, 'e) session_env \<Rightarrow> ('d, 'e, 'a) session_action \<Rightarrow> ('d, 'e, 'a) session_action" where
  "transaction E body s =
     (if \<not> env_transactions E then act_bind body (\<lambda>x. act_bind (session_commit E) (\<lambda>_. act_return x)) s
      else let outermost = (ss_depth s = 0) in
        act_bind (open_scope E) (\<lambda>name.
        act_bind (act_modify (\<lambda>s. (begin_checkpoint E s)\<lparr>ss_depth := Suc (ss_depth s)\<rparr>)) (\<lambda>_.
        act_bind (on_error (act_bind body (\<lambda>x. act_bind (close_scope E outermost name) (\<lambda>_. act_return x)))
          (rollback_transaction_scope E outermost name)) (\<lambda>x.
        act_bind (act_modify finish_transaction_scope) (\<lambda>_.
        act_bind (if outermost then dispatch_domain_events E else act_return ()) (\<lambda>_. act_return x))))) s)"

definition session_rollback :: "('d, 'e) session_env \<Rightarrow> ('d, 'e, unit) session_action" where
  "session_rollback E s =
     act_bind (act_when (env_transactions E \<and> ss_depth s \<noteq> 0) (quietly (conn_do E ORollback))) (\<lambda>_.
     act_bind (if ss_checkpoints s \<noteq> []
       then act_bind (rollback_all_checkpoints E) (\<lambda>_. rebuild_identity_map E)
       else act_modify (\<lambda>s. identity_clear (uow_clear s))) (\<lambda>_.
     act_modify (\<lambda>s. s\<lparr>ss_depth := 0, ss_savepoints := 0, ss_rollback_only := False\<rparr>))) s"

definition session_clear :: "('d, 'e) session \<Rightarrow> ('d, 'e) session" where
  "session_clear s = (identity_clear (uow_clear s))\<lparr>ss_depth := 0, ss_savepoints := 0, ss_rollback_only := False\<rparr>"

end
