(* ===== verification/Session_Frame.thy ===== *)
theory Session_Frame
  imports Session
begin

section \<open>What the operations of a Session keep\<close>

text \<open>
  \<open>session_ok\<close> is the invariant of the unit of work with its checkpoints, \<open>frame\<close> what any code may do
  between taking a checkpoint and ending it: it keeps the invariant, the checkpoints that were there only
  learn of entities tracked later, and types of entities stay. \<open>behaves\<close> is an action with that
  property. It is proved for every operation of the Session, and asked of the user's code.
\<close>

text \<open>Relation members hold addresses of entities that exist.\<close>

definition member_keys :: "relation_member \<Rightarrow> key list" where
  "member_keys r = (case r of
       MRef x \<Rightarrow> opt_list (rf_current x) @ opt_list (rf_baseline x)
     | MMany c \<Rightarrow> co_items c @ co_baseline c
     | MPivot c \<Rightarrow> co_items c @ co_baseline c)"

definition members_below :: "key \<Rightarrow> relation_member list \<Rightarrow> bool" where
  "members_below n rs \<longleftrightarrow> (\<forall>r \<in> set rs. \<forall>k \<in> set (member_keys r). k < n)"

definition entity_typed :: "('d, 'e) session_env \<Rightarrow> ('d, 'e) session \<Rightarrow> key \<Rightarrow> bool" where
  "entity_typed E s k \<longleftrightarrow> distinct (List.map fst (et_columns (type_of E s k))) \<and>
     members_below (ss_fresh s) (en_relations (ss_heap s k)) \<and>
     (\<forall>(c, t) \<in> set (et_columns (type_of E s k)). persistable t \<and> has_type (env_fp E) t (get_member s k c))"

definition entry_typed :: "('d, 'e) session_env \<Rightarrow> entity_type \<Rightarrow> row \<Rightarrow> bool" where
  "entry_typed E ty current \<longleftrightarrow>
     (\<forall>(c, t) \<in> set (et_columns ty). \<exists>x. persistable t \<and> has_type (env_fp E) t x \<and> alookup current c = Some (to_value x))"

definition checkpoint_ok :: "('d, 'e) session_env \<Rightarrow> ('d, 'e) session \<Rightarrow> 'e checkpoint \<Rightarrow> bool" where
  "checkpoint_ok E s cp \<longleftrightarrow> amap_ok (cp_entries cp) \<and> distinct (cp_order cp) \<and>
     (\<forall>k. k \<in> set (cp_order cp) \<longleftrightarrow> (\<exists>e. alookup (cp_entries cp) k = Some e \<and> ce_existed e)) \<and>
     (\<forall>k e. alookup (cp_entries cp) k = Some e \<longrightarrow> k < ss_fresh s \<and>
       entry_typed E (type_of E s k) (ce_current e) \<and> members_below (ss_fresh s) (fst (ce_runtime e))) \<and>
     (\<forall>k. uow_contains s k \<longrightarrow> alookup (cp_entries cp) k \<noteq> None)"

definition covers_inner :: "'e checkpoint \<Rightarrow> 'e checkpoint \<Rightarrow> bool" where
  "covers_inner inner outer \<longleftrightarrow> (\<forall>k \<in> set (cp_order inner). alookup (cp_entries outer) k \<noteq> None)"

definition session_ok :: "('d, 'e) session_env \<Rightarrow> ('d, 'e) session \<Rightarrow> bool" where
  "session_ok E s \<longleftrightarrow> (\<forall>k. entity_typed E s k) \<and> distinct (ss_order s) \<and>
     (\<forall>k. k \<in> set (ss_order s) \<longleftrightarrow> uow_contains s k) \<and> (\<forall>k. uow_contains s k \<longrightarrow> k < ss_fresh s) \<and>
     (\<forall>cp \<in> set (ss_checkpoints s). checkpoint_ok E s cp) \<and> sorted_wrt covers_inner (ss_checkpoints s)"

definition cp_ext :: "'e checkpoint \<Rightarrow> 'e checkpoint \<Rightarrow> bool" where
  "cp_ext cp cp' \<longleftrightarrow> cp_order cp' = cp_order cp \<and>
     (\<forall>k. case alookup (cp_entries cp) k of
        Some e \<Rightarrow> alookup (cp_entries cp') k = Some e
      | None \<Rightarrow> (\<forall>e. alookup (cp_entries cp') k = Some e \<longrightarrow> \<not> ce_existed e))"

definition base_frame :: "('d, 'e) session_env \<Rightarrow> ('d, 'e) session \<Rightarrow> ('d, 'e) session \<Rightarrow> bool" where
  "base_frame E s s' \<longleftrightarrow> session_ok E s' \<and> list_all2 cp_ext (ss_checkpoints s) (ss_checkpoints s') \<and>
     ss_fresh s \<le> ss_fresh s' \<and> (\<forall>k < ss_fresh s. en_type (ss_heap s' k) = en_type (ss_heap s k))"

definition frame :: "('d, 'e) session_env \<Rightarrow> ('d, 'e) session \<Rightarrow> ('d, 'e) session \<Rightarrow> bool" where
  "frame E s s' \<longleftrightarrow> base_frame E s s' \<and> ss_depth s' = ss_depth s \<and>
     (ss_depth s \<noteq> 0 \<longrightarrow> ss_rollback_only s \<longrightarrow> ss_rollback_only s')"

definition behaves :: "('d, 'e) session_env \<Rightarrow> ('d, 'e, 'a) session_action \<Rightarrow> bool" where
  "behaves E m \<longleftrightarrow> (\<forall>s. session_ok E s \<longrightarrow> frame E s (snd (m s)))"

definition steady :: "('d, 'e) session_env \<Rightarrow> (('d, 'e) session \<Rightarrow> ('d, 'e) session) \<Rightarrow> bool" where
  "steady E f \<longleftrightarrow> (\<forall>s. session_ok E s \<longrightarrow> frame E s (f s))"

text \<open>Rounding to \<open>float\<close> is idempotent.\<close>

definition fp_ok :: "fp \<Rightarrow> bool" where
  "fp_ok F \<longleftrightarrow> (\<forall>d. fp_narrow F (fp_narrow F d) = fp_narrow F d)"

definition env_behaves :: "('d, 'e) session_env \<Rightarrow> bool" where
  "env_behaves E \<longleftrightarrow> fp_ok (env_fp E) \<and> (\<forall>p k. behaves E (env_hook E p k)) \<and>
     (\<forall>i \<in> set (env_interceptors E). behaves E (fst i) \<and> behaves E (snd i)) \<and>
     (\<forall>e. \<forall>h \<in> set (env_handlers E e). behaves E h)"

named_theorems behaves_intros \<open>actions that keep the frame\<close>

subsection \<open>Composition\<close>

lemma cp_ext_refl [simp]: "cp_ext cp cp"
  by (simp add: cp_ext_def split: option.split)

lemma cp_ext_trans: "cp_ext a b \<Longrightarrow> cp_ext b c \<Longrightarrow> cp_ext a c"
  unfolding cp_ext_def
proof (intro conjI allI, goal_cases)
  case 1
  then show ?case by simp
next
  case (2 k)
  then show ?case
    by (cases "alookup (cp_entries a) k"; cases "alookup (cp_entries b) k")
      (auto dest!: spec [of _ k])
qed

lemma cp_ext_list_trans: "list_all2 cp_ext a b \<Longrightarrow> list_all2 cp_ext b c \<Longrightarrow> list_all2 cp_ext a c"
  by (rule list_all2_trans [OF cp_ext_trans])

lemma cp_ext_list_refl [simp]: "list_all2 cp_ext cps cps"
  by (simp add: list_all2_refl)

lemma base_frame_refl: "session_ok E s \<Longrightarrow> base_frame E s s"
  by (simp add: base_frame_def)

lemma base_frame_trans: "base_frame E a b \<Longrightarrow> base_frame E b c \<Longrightarrow> base_frame E a c"
  by (auto simp: base_frame_def intro: cp_ext_list_trans)

lemma frame_refl: "session_ok E s \<Longrightarrow> frame E s s"
  by (simp add: frame_def base_frame_refl)

lemma frame_trans: "frame E a b \<Longrightarrow> frame E b c \<Longrightarrow> frame E a c"
  by (auto simp: frame_def intro: base_frame_trans)

lemma frame_ok: "frame E s s' \<Longrightarrow> session_ok E s'"
  by (simp add: frame_def base_frame_def)

lemma behaves_return [behaves_intros]: "behaves E (act_return x)" "behaves E (act_throw e)" "behaves E (act_lift r)"
  by (simp_all add: behaves_def frame_refl)

lemma behaves_state [behaves_intros]: "session_ok E s \<Longrightarrow> frame E s (snd (x, s))"
  by (simp add: frame_refl)

lemma behaves_bind [behaves_intros]:
  assumes "behaves E m" and "\<And>x. behaves E (f x)"
  shows "behaves E (act_bind m f)"
  unfolding behaves_def
proof (intro allI impI)
  fix s
  assume ok: "session_ok E s"
  obtain r s1 where m: "m s = (r, s1)" by (cases "m s")
  with assms(1) ok have one: "frame E s s1" by (auto simp: behaves_def dest: spec [of _ s])
  show "frame E s (snd (act_bind m f s))"
  proof (cases r)
    case (Inl e)
    with m one show ?thesis by (simp add: act_bind_def)
  next
    case (Inr x)
    from assms(2) frame_ok [OF one] have "frame E s1 (snd (f x s1))" by (simp add: behaves_def)
    with one m Inr show ?thesis by (simp add: act_bind_def frame_trans [of E s s1])
  qed
qed

lemma behaves_iter [behaves_intros]: "(\<And>x. x \<in> set xs \<Longrightarrow> behaves E (f x)) \<Longrightarrow> behaves E (act_iter f xs)"
proof (induction xs)
  case (Cons x xs)
  then have "behaves E (act_bind (f x) (\<lambda>_. act_iter f xs))" by (intro behaves_bind) simp_all
  then show ?case by simp
qed (simp add: behaves_return)

lemma behaves_modify [behaves_intros]: "steady E f \<Longrightarrow> behaves E (act_modify f)"
  by (simp add: steady_def behaves_def act_modify_def)

lemma behaves_quietly [behaves_intros]: "behaves E m \<Longrightarrow> behaves E (quietly m)"
  by (simp add: behaves_def quietly_def)

lemma behaves_tracked [behaves_intros]: "(\<And>t. behaves E (f t)) \<Longrightarrow> behaves E (with_tracked k f)"
  by (auto simp: behaves_def with_tracked_def intro: frame_refl split: option.split)

text \<open>An action that looks at the state first.\<close>

lemma behaves_read: "(\<And>s. behaves E (f s)) \<Longrightarrow> behaves E (\<lambda>s. f s s)"
  by (simp add: behaves_def)

lemma behaves_for_keys [behaves_intros]: "(\<And>k. behaves E (f k)) \<Longrightarrow> behaves E (for_keys f)"
proof -
  assume f: "\<And>k. behaves E (f k)"
  have "behaves E (\<lambda>s. if uow_contains s k then f k s else (Inr (), s))" for k
    using f by (simp add: behaves_def frame_refl)
  then have "behaves E (act_iter (\<lambda>k s. if uow_contains s k then f k s else (Inr (), s)) ks)" for ks
    by (rule behaves_iter)
  then show "behaves E (for_keys f)" by (simp add: behaves_def for_keys_def)
qed

lemma steady_id: "steady E (\<lambda>s. s)"
  by (simp add: steady_def frame_refl)

lemma steady_comp: "steady E f \<Longrightarrow> steady E g \<Longrightarrow> steady E (\<lambda>s. g (f s))"
  unfolding steady_def
proof (intro allI impI)
  fix s
  assume f: "\<forall>s. session_ok E s \<longrightarrow> frame E s (f s)" and g: "\<forall>s. session_ok E s \<longrightarrow> frame E s (g s)"
    and ok: "session_ok E s"
  from f ok have one: "frame E s (f s)" by simp
  with g have "frame E (f s) (g (f s))" by (simp add: frame_ok)
  with one show "frame E s (g (f s))" by (rule frame_trans)
qed

lemma steady_fold: "(\<And>x. x \<in> set xs \<Longrightarrow> steady E (f x)) \<Longrightarrow> steady E (fold f xs)"
proof (induction xs)
  case (Cons x xs)
  then have "steady E (\<lambda>s. fold f xs (f x s))" by (intro steady_comp [of E "f x" "fold f xs"]) auto
  then show ?case by (simp add: steady_def)
qed (simp add: steady_def frame_refl)

subsection \<open>Steps that touch no bookkeeping\<close>

lemma entity_typed_heap: "ss_heap s' = ss_heap s \<Longrightarrow> ss_fresh s' = ss_fresh s \<Longrightarrow> entity_typed E s' k = entity_typed E s k"
  by (simp add: entity_typed_def type_of_def get_member_def)

lemma type_of_cong: "en_type (ss_heap s' k) = en_type (ss_heap s k) \<Longrightarrow> type_of E s' k = type_of E s k"
  by (simp add: type_of_def)

lemma frame_quiet:
  assumes "session_ok E s"
    and "ss_order s' = ss_order s" "ss_checkpoints s' = ss_checkpoints s" "ss_fresh s' = ss_fresh s"
    and "ss_depth s' = ss_depth s" "ss_rollback_only s' = ss_rollback_only s"
    and "\<And>k. uow_contains s' k = uow_contains s k"
    and "\<And>k. en_type (ss_heap s' k) = en_type (ss_heap s k)"
    and "\<And>k. entity_typed E s' k"
  shows "frame E s s'"
proof -
  have ty: "type_of E s' k = type_of E s k" for k by (rule type_of_cong) (rule assms(8))
  have cp: "checkpoint_ok E s' cp = checkpoint_ok E s cp" for cp
    by (simp add: checkpoint_ok_def ty assms(4,7))
  have "session_ok E s'" using assms(1) assms(9) by (simp add: session_ok_def cp assms(2-4,7))
  then show ?thesis by (simp add: frame_def base_frame_def assms(3-6,8))
qed

lemma frame_same_heap:
  assumes "session_ok E s" "ss_heap s' = ss_heap s" "ss_tracked s' = ss_tracked s"
    and "ss_order s' = ss_order s" "ss_checkpoints s' = ss_checkpoints s" "ss_fresh s' = ss_fresh s"
    and "ss_depth s' = ss_depth s" "ss_rollback_only s' = ss_rollback_only s"
  shows "frame E s s'"
  using assms by (intro frame_quiet) (auto simp: uow_contains_def entity_typed_heap [OF assms(2,6)] session_ok_def)

lemma put_entity_simps [simp]:
  "ss_order (put_entity k e s) = ss_order s" "ss_checkpoints (put_entity k e s) = ss_checkpoints s"
  "ss_fresh (put_entity k e s) = ss_fresh s" "ss_depth (put_entity k e s) = ss_depth s"
  "ss_rollback_only (put_entity k e s) = ss_rollback_only s" "ss_tracked (put_entity k e s) = ss_tracked s"
  "ss_heap (put_entity k e s) = (ss_heap s)(k := e)" "ss_identity (put_entity k e s) = ss_identity s"
  "ss_world (put_entity k e s) = ss_world s" "ss_held (put_entity k e s) = ss_held s"
  "ss_savepoints (put_entity k e s) = ss_savepoints s"
  by (simp_all add: put_entity_def)

lemma frame_put_entity:
  assumes ok: "session_ok E s" and ty: "en_type e = en_type (ss_heap s k)"
    and typed: "entity_typed E (put_entity k e s) k"
  shows "frame E s (put_entity k e s)"
proof (rule frame_quiet [OF ok])
  show "entity_typed E (put_entity k e s) j" for j
    using typed ok by (cases "j = k") (auto simp: entity_typed_def type_of_def get_member_def session_ok_def)
qed (use ty in \<open>auto simp: uow_contains_def\<close>)

lemma get_member_put [simp]: "get_member (put_entity k e s) k c = (case alookup (en_columns e) c of Some v \<Rightarrow> v | None \<Rightarrow> CNone)"
  by (simp add: get_member_def)

lemma get_set_member [simp]: "get_member (set_member k c v s) k' c' = (if k' = k \<and> c' = c then v else get_member s k' c')"
  by (simp add: get_member_def set_member_def)

lemma type_of_put [simp]: "en_type e = en_type (ss_heap s k) \<Longrightarrow> type_of E (put_entity k e s) j = type_of E s j"
  by (simp add: type_of_def)

lemma type_of_set_member [simp]: "type_of E (set_member k c v s) j = type_of E s j"
  by (simp add: set_member_def)

lemma set_member_simps [simp]:
  "ss_fresh (set_member k c v s) = ss_fresh s" "en_relations (ss_heap (set_member k c v s) j) = en_relations (ss_heap s j)"
  "en_queues (ss_heap (set_member k c v s) j) = en_queues (ss_heap s j)"
  "en_type (ss_heap (set_member k c v s) j) = en_type (ss_heap s j)" "ss_tracked (set_member k c v s) = ss_tracked s"
  "ss_order (set_member k c v s) = ss_order s" "ss_checkpoints (set_member k c v s) = ss_checkpoints s"
  by (simp_all add: set_member_def)

lemma typed_column:
  "distinct (List.map fst cols) \<Longrightarrow> (c, t) \<in> set cols \<Longrightarrow> (case map_of cols c of Some ty \<Rightarrow> ty | None \<Rightarrow> d) = t"
  by simp

lemma frame_set_member:
  assumes ok: "session_ok E s" and typed: "has_type (env_fp E) (column_type (type_of E s k) c) v"
  shows "frame E s (set_member k c v s)"
  unfolding set_member_def
proof (rule frame_put_entity [OF ok])
  let ?s = "put_entity k ((ss_heap s k)\<lparr>en_columns := aput c v (en_columns (ss_heap s k))\<rparr>) s"
  have s: "?s = set_member k c v s" by (simp add: set_member_def)
  from ok have k: "entity_typed E s k" by (simp add: session_ok_def)
  then have "column_type (type_of E s k) c' = t" if "(c', t) \<in> set (et_columns (type_of E s k))" for c' t
    using that by (simp add: column_type_def entity_typed_def)
  with k typed show "entity_typed E ?s k" unfolding s by (auto simp: entity_typed_def)
qed simp

lemma cast_int_range:
  assumes "0 < w"
  shows "has_type F (TInt sg w) (CInt (cast_int sg w i))"
proof (cases sg)
  case True
  let ?r = "(i + 2 ^ (w - 1)) mod 2 ^ w"
  from assms have "(2 :: int) ^ w = 2 * 2 ^ (w - 1)" by (cases w) simp_all
  moreover have "0 \<le> ?r" "?r < 2 ^ w" by simp_all
  ultimately show ?thesis using True by (auto simp: cast_int_def)
qed (simp add: cast_int_def)

lemma from_value_scalar_typed:
  assumes "fp_ok F" "persistable t" "\<forall>t'. t \<noteq> TOpt t'" "from_value F t v = Inr x"
  shows "has_type F t x"
proof (cases t)
  case (TInt sg w)
  with assms have "0 < w" by simp
  from cast_int_range [OF this] TInt assms(4) show ?thesis by (auto split: dbvalue.splits)
qed (use assms in \<open>auto simp: fp_ok_def split: dbvalue.splits\<close>)

lemma from_value_typed:
  assumes "fp_ok F" "persistable t" "from_value F t v = Inr x"
  shows "has_type F t x"
proof (cases t)
  case (TOpt t')
  with assms(2) have t': "persistable t'" "\<forall>t''. t' \<noteq> TOpt t''" by (cases t'; simp)+
  from assms(3) TOpt from_value_scalar_typed [OF assms(1) t'] show ?thesis
    by (auto simp: result_simps split: if_splits)
qed (use from_value_scalar_typed [OF assms(1,2) _ assms(3)] in auto)

lemma column_type_persistable:
  assumes "session_ok E s"
  shows "persistable (column_type (type_of E s k) c)"
proof (cases "map_of (et_columns (type_of E s k)) c")
  case (Some t)
  from assms have "entity_typed E s k" by (simp add: session_ok_def)
  with Some show ?thesis by (auto simp: entity_typed_def column_type_def dest!: map_of_SomeD)
qed (simp add: column_type_def)

lemma behaves_assign [behaves_intros]:
  assumes "env_behaves E"
  shows "behaves E (assign_member E k c v)"
proof -
  from assms have fp: "fp_ok (env_fp E)" by (simp add: env_behaves_def)
  have "frame E s (snd (assign_member E k c v s))" if ok: "session_ok E s" for s
    using from_value_typed [OF fp column_type_persistable [OF ok]] ok
    by (auto simp: assign_member_def intro: frame_refl frame_set_member split: sum.split)
  then show ?thesis by (simp add: behaves_def)
qed

lemma behaves_conn [behaves_intros]: "behaves E (conn_call E op)"
  by (auto simp: behaves_def conn_call_def intro: frame_same_heap split: prod.split)

lemma behaves_conn_do [behaves_intros]: "behaves E (conn_do E op)"
  by (simp add: conn_do_def behaves_bind behaves_conn behaves_return)

lemma behaves_query [behaves_intros]: "behaves E (run_query E q)"
  by (simp add: run_query_def behaves_bind behaves_conn behaves_return)

lemma update_tracked_simps [simp]:
  "ss_order (update_tracked k f s) = ss_order s" "ss_checkpoints (update_tracked k f s) = ss_checkpoints s"
  "ss_fresh (update_tracked k f s) = ss_fresh s" "ss_depth (update_tracked k f s) = ss_depth s"
  "ss_rollback_only (update_tracked k f s) = ss_rollback_only s" "ss_heap (update_tracked k f s) = ss_heap s"
  "ss_identity (update_tracked k f s) = ss_identity s" "ss_world (update_tracked k f s) = ss_world s"
  "uow_contains (update_tracked k f s) j = uow_contains s j"
  by (auto simp: update_tracked_def uow_contains_def split: option.split)

lemma steady_update_tracked: "session_ok E s \<Longrightarrow> frame E s (update_tracked k f s)"
  by (rule frame_quiet) (auto simp: session_ok_def entity_typed_heap [of "update_tracked k f s" s])

lemma steady_basic [behaves_intros]:
  "steady E (refresh_snapshot E k)" "steady E (set_status k st)" "steady E (register_identity E k)"
  "steady E identity_clear" "steady E (remove_entity k)"
proof -
  show "steady E (refresh_snapshot E k)" "steady E (set_status k st)" "steady E (remove_entity k)"
    by (auto simp: steady_def refresh_snapshot_def set_status_def remove_entity_def intro: steady_update_tracked frame_refl)
  show "steady E (register_identity E k)" "steady E identity_clear"
    by (auto simp: steady_def register_identity_def identity_put_def identity_clear_def intro: frame_refl frame_same_heap)
qed

text \<open>Relation members and event queues are not part of the invariant.\<close>

lemma frame_runtime:
  assumes "session_ok E s" "en_columns e = en_columns (ss_heap s k)" "en_type e = en_type (ss_heap s k)"
    and "members_below (ss_fresh s) (en_relations e)"
  shows "frame E s (put_entity k e s)"
proof (rule frame_put_entity [OF assms(1,3)])
  from assms(1) have "entity_typed E s k" by (simp add: session_ok_def)
  with assms(2-4) show "entity_typed E (put_entity k e s) k" by (auto simp: entity_typed_def get_member_def)
qed

lemma accept_below: "members_below n rs \<Longrightarrow> members_below n (List.map accept_member rs)"
  by (auto simp: members_below_def member_keys_def accept_member_def rf_accept_def co_accept_def pc_accept_def
      split: relation_member.splits)

lemma steady_runtime [behaves_intros]:
  "steady E (accept_entity k)" "steady E (clear_queue k i)"
  by (auto simp: steady_def accept_entity_def clear_queue_def session_ok_def entity_typed_def
      intro!: frame_runtime accept_below)

subsection \<open>Tracking\<close>

lemma snapshot_lookup:
  "distinct (List.map fst (et_columns (type_of E s k))) \<Longrightarrow> (c, t) \<in> set (et_columns (type_of E s k)) \<Longrightarrow>
     alookup (snapshot E s k) c = Some (to_value (get_member s k c))"
  unfolding alookup_def snapshot_def
  by (rule map_of_is_SomeI) (auto simp: o_def case_prod_unfold rev_image_eqI)

lemma snapshot_typed: "entity_typed E s k \<Longrightarrow> entry_typed E (type_of E s k) (snapshot E s k)"
  by (fastforce simp: entry_typed_def entity_typed_def snapshot_lookup)

lemma capture_ok:
  assumes "session_ok E s" "e = capture_entry E s ex k t"
  shows "entry_typed E (type_of E s k) (ce_current e)" "members_below (ss_fresh s) (fst (ce_runtime e))"
  using assms snapshot_typed [of E s k]
  by (auto simp: session_ok_def capture_entry_def capture_runtime_def entity_typed_def)

lemma note_new_ext: "cp_ext cp (note_new E s k t cp)"
  by (auto simp: cp_ext_def note_new_def capture_entry_def split: option.split)

lemma uow_track_simps [simp]:
  "uow_contains (uow_track E k t s) j \<longleftrightarrow> j = k \<or> uow_contains s j"
  "ss_fresh (uow_track E k t s) = ss_fresh s" "ss_heap (uow_track E k t s) = ss_heap s"
  "ss_depth (uow_track E k t s) = ss_depth s" "ss_rollback_only (uow_track E k t s) = ss_rollback_only s"
  "ss_checkpoints (uow_track E k t s) = List.map (note_new E s k t) (ss_checkpoints s)"
  "ss_order (uow_track E k t s) = (if uow_contains s k then ss_order s else ss_order s @ [k])"
  by (auto simp: uow_track_def uow_contains_def)

lemma note_new_ok:
  assumes ok: "session_ok E s" and k: "k < ss_fresh s" and cp: "checkpoint_ok E s cp"
  shows "checkpoint_ok E (uow_track E k t s) (note_new E s k t cp)"
proof -
  have ty: "type_of E (uow_track E k t s) j = type_of E s j" for j by (simp add: type_of_def)
  have new: "alookup (cp_entries (note_new E s k t cp)) j =
      (if j = k \<and> alookup (cp_entries cp) k = None then Some (capture_entry E s False k t) else alookup (cp_entries cp) j)" for j
    by (auto simp: note_new_def)
  have order: "cp_order (note_new E s k t cp) = cp_order cp" by (simp add: note_new_def)
  have "amap_ok (cp_entries (note_new E s k t cp))" using cp by (auto simp: note_new_def checkpoint_ok_def)
  then show ?thesis
    using cp k capture_ok [OF ok refl, where ex = False and k = k and t = t] unfolding checkpoint_ok_def
    by (auto simp: new order ty capture_entry_def split: if_splits)
qed

lemma covers_note: "covers_inner a b \<Longrightarrow> covers_inner (note_new E s k t a) (note_new E s k t b)"
  by (auto simp: covers_inner_def note_new_def)

lemma frame_track:
  assumes ok: "session_ok E s" and k: "k < ss_fresh s"
  shows "frame E s (uow_track E k t s)"
proof -
  let ?s = "uow_track E k t s"
  have "sorted_wrt covers_inner (List.map (note_new E s k t) (ss_checkpoints s))"
    using ok by (auto simp: session_ok_def sorted_wrt_map intro: sorted_wrt_mono_rel covers_note)
  moreover have "\<forall>cp \<in> set (ss_checkpoints ?s). checkpoint_ok E ?s cp"
    using ok note_new_ok [OF ok k] by (auto simp: session_ok_def)
  ultimately have "session_ok E ?s"
    using ok k by (auto simp: session_ok_def entity_typed_heap [of ?s s])
  moreover have "list_all2 cp_ext (ss_checkpoints s) (ss_checkpoints ?s)"
    by (simp add: list_all2_map2 list_all2_same note_new_ext)
  ultimately show ?thesis by (simp add: frame_def base_frame_def)
qed

lemma steady_basicD:
  assumes "session_ok E s"
  shows "frame E s (register_identity E k s)" "frame E s (set_status k st s)" "frame E s (remove_entity k s)"
  using steady_basic [of E] assms by (auto simp: steady_def)

lemma frame_session_track: "session_ok E s \<Longrightarrow> k < ss_fresh s \<Longrightarrow> frame E s (session_track E k st s)"
  unfolding session_track_def
  by (rule frame_trans [OF frame_track steady_basicD(1)]) (auto intro: frame_ok frame_track)

lemma frame_persist: "session_ok E s \<Longrightarrow> k < ss_fresh s \<Longrightarrow> frame E s (persist_entity E k s)"
  by (auto simp: persist_entity_def intro: frame_session_track steady_basicD frame_refl split: option.split)

lemma frame_erase: "session_ok E s \<Longrightarrow> frame E s (uow_erase k s)"
proof -
  assume ok: "session_ok E s"
  let ?s = "uow_erase k s"
  have contains: "uow_contains ?s j \<longleftrightarrow> j \<noteq> k \<and> uow_contains s j" for j
    by (auto simp: uow_erase_def uow_contains_def)
  have same: "ss_heap ?s = ss_heap s" "ss_fresh ?s = ss_fresh s" "ss_checkpoints ?s = ss_checkpoints s"
    "ss_order ?s = filter (\<lambda>j. j \<noteq> k) (ss_order s)" "ss_depth ?s = ss_depth s" "ss_rollback_only ?s = ss_rollback_only s"
    by (simp_all add: uow_erase_def)
  have "type_of E ?s j = type_of E s j" for j by (simp add: type_of_def same)
  then have "checkpoint_ok E s cp \<Longrightarrow> checkpoint_ok E ?s cp" for cp
    by (simp add: checkpoint_ok_def same contains)
  with ok have "session_ok E ?s"
    by (auto simp: session_ok_def same contains entity_typed_heap [OF same(1,2)])
  then show ?thesis by (simp add: frame_def base_frame_def same)
qed

subsection \<open>Flushing and relation changes\<close>

lemma behaves_bind_read [behaves_intros]:
  assumes "\<And>s. behaves E (A s)" and "\<And>s x. behaves E (B s x)"
  shows "behaves E (\<lambda>s. act_bind (A s) (B s) s)"
  using behaves_bind [OF assms] by (simp add: behaves_def)

lemma behaves_cond [behaves_intros]:
  "behaves E A \<Longrightarrow> behaves E B \<Longrightarrow> behaves E (\<lambda>s. if P s then A s else B s)"
  "behaves E A \<Longrightarrow> behaves E B \<Longrightarrow> behaves E (if b then A else B)"
  by (simp_all add: behaves_def)

lemma behaves_step [behaves_intros]: "steady E f \<Longrightarrow> behaves E (\<lambda>s. (r s, f s))"
  by (simp add: steady_def behaves_def)

lemma behaves_stay [behaves_intros]: "behaves E (\<lambda>s. (r s, s))"
  by (simp add: behaves_def frame_refl)

lemma behaves_option [behaves_intros]:
  "behaves E A \<Longrightarrow> (\<And>x. behaves E (B x)) \<Longrightarrow> behaves E (case o' of None \<Rightarrow> A | Some x \<Rightarrow> B x)"
  by (cases o') simp_all

lemma behaves_hook [behaves_intros]: "env_behaves E \<Longrightarrow> behaves E (env_hook E p k)"
  by (simp add: env_behaves_def)

lemma behaves_set_pk [behaves_intros]: "env_behaves E \<Longrightarrow> behaves E (set_pk E k v)"
  unfolding set_pk_def using behaves_assign [of E k _ v] by (simp add: behaves_def)

lemma steady_erase [behaves_intros]: "steady E (uow_erase k)" "steady E (\<lambda>s. identity_erase E (ty s) pk s)"
  by (auto simp: steady_def identity_erase_def intro: frame_erase frame_same_heap)

lemma behaves_flush_entity:
  assumes "env_behaves E"
  shows "behaves E (flush_insert E k)" "behaves E (flush_update E k)" "behaves E (flush_delete E k)"
  unfolding flush_insert_def flush_update_def flush_delete_def Let_def by (intro behaves_intros assms)+

lemma behaves_flush [behaves_intros]:
  assumes "env_behaves E"
  shows "behaves E (uow_flush E)"
proof -
  have "behaves E (flush_entity E k)" for k
    unfolding flush_entity_def
    by (intro behaves_tracked) (auto intro: behaves_flush_entity [OF assms] behaves_return split: entity_status.split)
  then show ?thesis unfolding uow_flush_def by (rule behaves_for_keys)
qed

lemma behaves_iter_read: "(\<And>x. behaves E (f x)) \<Longrightarrow> behaves E (\<lambda>s. act_iter f (xs s) s)"
  using behaves_iter [of _ E f] by (simp add: behaves_def)

lemma behaves_dispatch [behaves_intros]:
  assumes "env_behaves E"
  shows "behaves E (dispatch_domain_events E)"
proof -
  have event: "behaves E (dispatch_event E e)" for e
    unfolding dispatch_event_def using assms by (intro behaves_iter) (simp add: env_behaves_def)
  have "behaves E (dispatch_queue E k i)" for k i
    unfolding dispatch_queue_def Let_def by (intro behaves_bind_read behaves_iter behaves_intros event)
  then show ?thesis unfolding dispatch_domain_events_def by (intro behaves_for_keys behaves_iter_read)
qed

subsection \<open>Relation changes\<close>

lemma frame_fold:
  assumes "\<And>x s. x \<in> set xs \<Longrightarrow> P x s \<Longrightarrow> session_ok E s \<Longrightarrow> frame E s (f x s)"
    and "\<And>x y s s'. P x s \<Longrightarrow> frame E s s' \<Longrightarrow> P x s'"
  shows "session_ok E s \<Longrightarrow> (\<forall>x \<in> set xs. P x s) \<Longrightarrow> frame E s (fold f xs s)"
  using assms(1)
proof (induction xs arbitrary: s)
  case (Cons x xs)
  then have one: "frame E s (f x s)" by simp
  moreover have "frame E (f x s) (fold f xs (f x s))"
    by (rule Cons.IH [OF frame_ok [OF one]]) (use Cons.prems assms(2) one in auto)
  ultimately show ?case using frame_trans by auto
qed (simp add: frame_refl)

lemma frame_fresh: "frame E s s' \<Longrightarrow> ss_fresh s \<le> ss_fresh s'"
  by (simp add: frame_def base_frame_def)

lemma persist_targets_below:
  assumes "session_ok E s" "target \<in> set (persist_targets E s m (member_at s k i))"
  shows "target < ss_fresh s"
proof -
  have "set (persist_targets E s m r) \<subseteq> set (member_keys r)" for r
    by (auto simp: persist_targets_def member_keys_def co_added_def pc_added_def rf_added_def opt_list_def
        split: relation_member.splits option.splits)
  with assms(2) have *: "target \<in> set (member_keys (member_at s k i))" by blast
  show ?thesis
  proof (cases "i < length (en_relations (ss_heap s k))")
    case True
    then have "member_at s k i \<in> set (en_relations (ss_heap s k))" by (simp add: member_at_def)
    with * assms(1) show ?thesis by (fastforce simp: session_ok_def entity_typed_def members_below_def)
  next
    case False
    with * show ?thesis by (simp add: member_at_def member_keys_def empty_reference_def opt_list_def)
  qed
qed

lemma frame_persist_all:
  assumes "session_ok E s" "\<forall>k \<in> set ks. k < ss_fresh s"
  shows "frame E s (fold (\<lambda>target s. if uow_contains s target then s else persist_entity E target s) ks s)"
  using assms(2)
  by (intro frame_fold [where P = "\<lambda>k s. k < ss_fresh s"] assms(1))
    (auto intro: frame_persist frame_refl dest: frame_fresh)

lemma steady_prepare_entity: "steady E (prepare_entity E k)"
  unfolding steady_def
proof (intro allI impI)
  fix s
  assume ok: "session_ok E s"
  let ?step = "\<lambda>(i, m) s. if rm_cascade_persist m
         then fold (\<lambda>target s. if uow_contains s target then s else persist_entity E target s)
           (persist_targets E s m (member_at s k i)) s
         else s"
  have "steady E (fold ?step ims)" for ims
  proof (rule steady_fold)
    fix im
    show "steady E (?step im)"
      by (cases im) (auto simp: steady_def intro!: frame_persist_all frame_refl dest: persist_targets_below)
  qed
  with ok show "frame E s (prepare_entity E k s)" by (auto simp: prepare_entity_def steady_def)
qed

lemma frame_prepare_round: "session_ok E s \<Longrightarrow> frame E s (snd (prepare_round E ks seen s))"
proof (induction E ks seen s rule: prepare_round.induct)
  case (2 E k ks dn s)
  have one: "frame E s (prepare_entity E k s)" using steady_prepare_entity [of E k] "2.prems" by (simp add: steady_def)
  show ?case using 2 frame_trans [OF one] frame_ok [OF one] by auto
qed (simp add: frame_refl)

lemma frame_prepare_rounds: "session_ok E s \<Longrightarrow> frame E s (prepare_rounds E n seen s)"
proof (induction E n seen s rule: prepare_rounds.induct)
  case (2 E n dn s)
  obtain d s' where r: "prepare_round E (uow_keys s) dn s = (d, s')" by (cases "prepare_round E (uow_keys s) dn s")
  with frame_prepare_round [OF "2.prems", of "uow_keys s" dn] have one: "frame E s s'" by simp
  show ?case using "2.IH" [OF _ r [symmetric]] r one frame_trans [OF one] frame_ok [OF one] "2.prems"
    by (auto simp: frame_refl)
qed (simp add: frame_refl)

lemma steady_prepare [behaves_intros]: "steady E (prepare E)"
  by (simp add: steady_def prepare_def frame_prepare_rounds del: prepare_rounds.simps)

lemma behaves_fail [behaves_intros]: "behaves E (fail_when b msg)"
  by (auto simp: fail_when_def intro: behaves_return)

lemma has_type_optional: "is_optional t \<Longrightarrow> has_type F t CNone"
  by (cases t) (auto simp: is_optional_def)

lemma behaves_clear_nullable [behaves_intros]: "behaves E (clear_nullable E name c k)"
  by (auto simp: behaves_def clear_nullable_def intro: frame_refl frame_set_member has_type_optional)

lemma behaves_write_link [behaves_intros]: "behaves E (write_link E m target v pk)"
  unfolding write_link_def by (intro behaves_intros)

lemma behaves_link_target [behaves_intros]: "env_behaves E \<Longrightarrow> behaves E (link_target E m rk tk target)"
  unfolding link_target_def by (intro behaves_intros)

lemma behaves_release_target [behaves_intros]: "behaves E (release_target E m name target)"
proof -
  have clear: "frame E s (set_member target c CNone s)"
    if "session_ok E s" "is_optional (column_type (type_of E s target) c)" for s :: "('a, 'b) session" and c
    using that by (intro frame_set_member has_type_optional)
  have "frame E s (snd (act_bind (act_modify (set_member target c CNone)) (\<lambda>_. write_link E m target VNull v) s))"
    if "session_ok E s" "is_optional (column_type (type_of E s target) c)" for s c v
    using clear [OF that] behaves_write_link [of E m target VNull v] frame_trans frame_ok
    by (fastforce simp: act_bind_def act_modify_def behaves_def)
  then show ?thesis
    using steady_basicD(3) by (auto simp: behaves_def release_target_def Let_def intro: frame_refl)
qed

lemma behavesD: "behaves E m \<Longrightarrow> session_ok E s \<Longrightarrow> frame E s (snd (m s))"
  by (simp add: behaves_def)

lemma behavesI: "(\<And>s. session_ok E s \<Longrightarrow> frame E s (snd (m s))) \<Longrightarrow> behaves E m"
  by (simp add: behaves_def)

lemma behaves_flush_references:
  assumes "env_behaves E"
  shows "behaves E (flush_belongs_to E m r k)" "behaves E (flush_has_one E m r k)"
    "behaves E (flush_has_many E m c k)" "behaves E (flush_many_to_many E m p k)"
    "behaves E (flush_morph_one E m r k)" "behaves E (flush_morph_many E m c k)" "behaves E (flush_morph_to E m r k)"
proof -
  have link: "behaves E (link_morph E m name rk target)" for name rk target
    unfolding link_morph_def by (intro behaves_bind_read behaves_intros assms)
  have release: "behaves E (release_morph E m name target)" for name target
    unfolding release_morph_def by (intro behaves_intros)
  have pivot: "behaves E (add_pivot E m p rk target)" "behaves E (update_pivot E m p rk target)"
    "behaves E (remove_pivot E m rk target)" for rk target
    by (rule behavesI, simp add: add_pivot_def update_pivot_def remove_pivot_def Let_def split: option.split,
      auto intro!: behavesD behaves_intros frame_refl)+
  show "behaves E (flush_belongs_to E m r k)"
    by (rule behavesI) (auto simp: flush_belongs_to_def Let_def intro!: behavesD behaves_intros frame_refl assms split: option.split)
  show "behaves E (flush_has_one E m r k)"
    by (rule behavesI) (auto simp: flush_has_one_def Let_def intro!: behavesD behaves_intros frame_refl assms split: option.split)
  show "behaves E (flush_has_many E m c k)"
    unfolding flush_has_many_def Let_def by (intro behaves_bind_read behaves_intros assms)
  show "behaves E (flush_many_to_many E m p k)"
    unfolding flush_many_to_many_def Let_def by (intro behaves_bind_read behaves_iter behaves_intros pivot)
  show "behaves E (flush_morph_one E m r k)"
    unfolding flush_morph_one_def Let_def by (intro behaves_bind_read behaves_intros link release)
  show "behaves E (flush_morph_many E m c k)"
    unfolding flush_morph_many_def Let_def by (intro behaves_bind_read behaves_iter behaves_intros link release)
  have morph_case: "behaves E (apply_morph_case E m k target c)" for target c
    by (cases c) (auto simp: apply_morph_case_def Let_def intro!: behaves_bind_read behaves_intros assms)
  show "behaves E (flush_morph_to E m r k)"
    by (rule behavesI)
      (auto simp: flush_morph_to_def Let_def intro!: behavesD behaves_intros morph_case frame_refl split: option.split)
qed

lemma behaves_flush_relation: "env_behaves E \<Longrightarrow> behaves E (flush_relation E k im)"
  by (rule behavesI, cases im)
    (auto simp: flush_relation_def intro: behavesD behaves_flush_references frame_refl
      split: relation_kind.split relation_member.split)

lemma behaves_process [behaves_intros]: "env_behaves E \<Longrightarrow> behaves E (process_relations E)"
  unfolding process_relations_def process_entity_def
  by (intro behaves_for_keys behaves_iter_read behaves_flush_relation)

lemma behaves_accept [behaves_intros]: "behaves E accept_relations"
  unfolding accept_relations_def by (intro behaves_intros)

lemma behaves_rebuild [behaves_intros]: "behaves E (rebuild_identity_map E)"
  unfolding rebuild_identity_map_def register_all_identities_def by (intro behaves_intros)

lemma behaves_pipeline [behaves_intros]: "env_behaves E \<Longrightarrow> behaves E (flush_pipeline E)"
  unfolding flush_pipeline_def by (intro behaves_intros) (auto simp: env_behaves_def)

lemma behaves_rollback_only [behaves_intros]: "behaves E throw_if_rollback_only"
  by (simp add: behaves_def throw_if_rollback_only_def frame_refl)

end
