(* ===== verification/Session_Rollback.thy ===== *)
theory Session_Rollback
  imports Session_Frame
begin

section \<open>Checkpoints and failed transactions\<close>

text \<open>
  Taking a checkpoint keeps the invariant, rolling it back restores what was tracked and the members of
  every tracked entity, whatever well-behaved code did in between. The properties of transactions rest
  on these two facts.
\<close>

subsection \<open>Taking a checkpoint\<close>

lemma new_checkpoint_lookup:
  "alookup (cp_entries (new_checkpoint E s)) k =
     (if k \<in> set (ss_order s) then map_option (capture_entry E s True k) (alookup (ss_tracked s) k) else None)"
proof -
  let ?add = "\<lambda>k m. case alookup (ss_tracked s) k of None \<Rightarrow> m
          | Some t \<Rightarrow> if alookup m k = None then aput k (capture_entry E s True k t) m else m"
  have "alookup (fold ?add ks m) k =
      (case alookup m k of Some e \<Rightarrow> Some e
       | None \<Rightarrow> if k \<in> set ks then map_option (capture_entry E s True k) (alookup (ss_tracked s) k) else None)" for ks m
    by (induction ks arbitrary: m) (auto split: option.splits)
  then show ?thesis by (simp add: new_checkpoint_def)
qed

lemma new_checkpoint_amap: "amap_ok (cp_entries (new_checkpoint E s))"
proof -
  let ?add = "\<lambda>k m. case alookup (ss_tracked s) k of None \<Rightarrow> m
          | Some t \<Rightarrow> if alookup m k = None then aput k (capture_entry E s True k t) m else m"
  have "amap_ok m \<Longrightarrow> amap_ok (fold ?add ks m)" for ks m
    by (induction ks arbitrary: m) (auto split: option.split)
  then show ?thesis by (simp add: new_checkpoint_def)
qed

lemma checkpoint_ok_cong:
  assumes "ss_fresh s' = ss_fresh s" "ss_heap s' = ss_heap s" "\<And>k. uow_contains s' k = uow_contains s k"
  shows "checkpoint_ok E s' cp = checkpoint_ok E s cp"
  by (simp add: checkpoint_ok_def assms type_of_def)

lemma new_checkpoint_ok:
  assumes ok: "session_ok E s"
  shows "checkpoint_ok E s (new_checkpoint E s)"
proof -
  have order: "cp_order (new_checkpoint E s) = ss_order s" by (simp add: new_checkpoint_def)
  have tracked: "alookup (ss_tracked s) k \<noteq> None \<longleftrightarrow> k \<in> set (ss_order s)" for k
    using ok by (simp add: session_ok_def uow_contains_def)
  have exact: "alookup (cp_entries (new_checkpoint E s)) k = Some e \<longleftrightarrow>
      (\<exists>t. alookup (ss_tracked s) k = Some t \<and> e = capture_entry E s True k t)" for k e
    using tracked [of k] by (auto simp: new_checkpoint_lookup)
  have "k \<in> set (cp_order (new_checkpoint E s)) \<longleftrightarrow>
      (\<exists>e. alookup (cp_entries (new_checkpoint E s)) k = Some e \<and> ce_existed e)" for k
    using tracked [of k] by (auto simp: exact order capture_entry_def)
  moreover have "\<forall>k e. alookup (cp_entries (new_checkpoint E s)) k = Some e \<longrightarrow> k < ss_fresh s \<and>
       entry_typed E (type_of E s k) (ce_current e) \<and> members_below (ss_fresh s) (fst (ce_runtime e))"
    using ok capture_ok [OF ok refl] tracked unfolding session_ok_def uow_contains_def exact by fast
  moreover have "\<forall>k. uow_contains s k \<longrightarrow> alookup (cp_entries (new_checkpoint E s)) k \<noteq> None"
    using tracked by (auto simp: uow_contains_def new_checkpoint_lookup)
  moreover have "distinct (cp_order (new_checkpoint E s))" using ok by (simp add: session_ok_def order)
  ultimately show ?thesis unfolding checkpoint_ok_def using new_checkpoint_amap [of E s] by blast
qed

lemma begin_checkpoint_simps [simp]:
  "ss_checkpoints (begin_checkpoint E s) = new_checkpoint E s # ss_checkpoints s"
  "ss_heap (begin_checkpoint E s) = ss_heap s" "ss_fresh (begin_checkpoint E s) = ss_fresh s"
  "ss_tracked (begin_checkpoint E s) = ss_tracked s" "ss_order (begin_checkpoint E s) = ss_order s"
  "ss_depth (begin_checkpoint E s) = ss_depth s" "ss_rollback_only (begin_checkpoint E s) = ss_rollback_only s"
  by (simp_all add: begin_checkpoint_def)

lemma session_ok_transfer:
  assumes ok: "session_ok E s" and "ss_heap s' = ss_heap s" "ss_fresh s' = ss_fresh s" "ss_order s' = ss_order s"
    and "\<And>k. uow_contains s' k = uow_contains s k"
    and "\<forall>cp \<in> set (ss_checkpoints s'). checkpoint_ok E s cp" "sorted_wrt covers_inner (ss_checkpoints s')"
  shows "session_ok E s'"
  using assms by (simp add: session_ok_def entity_typed_heap [OF assms(2,3)] checkpoint_ok_cong [OF assms(3,2,5)])

lemma begin_checkpoint_ok:
  assumes ok: "session_ok E s"
  shows "session_ok E (begin_checkpoint E s)"
proof (rule session_ok_transfer [OF ok])
  have "covers_inner (new_checkpoint E s) cp" if "cp \<in> set (ss_checkpoints s)" for cp
    using that ok by (auto simp: covers_inner_def new_checkpoint_def session_ok_def checkpoint_ok_def)
  then show "sorted_wrt covers_inner (ss_checkpoints (begin_checkpoint E s))" using ok by (simp add: session_ok_def)
  show "\<forall>cp \<in> set (ss_checkpoints (begin_checkpoint E s)). checkpoint_ok E s cp"
    using ok new_checkpoint_ok [OF ok] by (simp add: session_ok_def)
qed (simp_all add: uow_contains_def)

text \<open>Ending a checkpoint without rolling it back.\<close>

lemma pop_checkpoint:
  assumes "base_frame E (begin_checkpoint E s) s'"
  obtains cp cps where "ss_checkpoints s' = cp # cps" "cp_ext (new_checkpoint E s) cp"
    "base_frame E s (s'\<lparr>ss_checkpoints := cps\<rparr>)"
proof -
  from assms obtain cp cps where cps: "ss_checkpoints s' = cp # cps" "cp_ext (new_checkpoint E s) cp"
    "list_all2 cp_ext (ss_checkpoints s) cps"
    by (auto simp: base_frame_def list_all2_Cons1)
  moreover have "session_ok E (s'\<lparr>ss_checkpoints := cps\<rparr>)"
    by (rule session_ok_transfer [of E s']) (use assms cps(1) in \<open>auto simp: base_frame_def session_ok_def uow_contains_def\<close>)
  ultimately show thesis using assms that by (simp add: base_frame_def)
qed

subsection \<open>Rolling a checkpoint back\<close>

text \<open>The state after the members of one entity were restored.\<close>

definition stored :: "('d, 'e) session_env \<Rightarrow> row \<Rightarrow> string \<times> cpp_type \<Rightarrow> cpp_value" where
  "stored E current = (\<lambda>(c, t). projr (from_value (env_fp E) t (the (alookup current c))))"

definition restore_members ::
  "('d, 'e) session_env \<Rightarrow> row \<Rightarrow> key \<Rightarrow> (string \<times> cpp_type) list \<Rightarrow> ('d, 'e) session \<Rightarrow> ('d, 'e) session" where
  "restore_members E current k cols s = fold (\<lambda>ct s. set_member k (fst ct) (stored E current ct) s) cols s"

lemma restore_members_simps [simp]:
  "ss_tracked (restore_members E v k cols s) = ss_tracked s" "ss_order (restore_members E v k cols s) = ss_order s"
  "ss_checkpoints (restore_members E v k cols s) = ss_checkpoints s"
  "ss_fresh (restore_members E v k cols s) = ss_fresh s" "ss_depth (restore_members E v k cols s) = ss_depth s"
  "ss_rollback_only (restore_members E v k cols s) = ss_rollback_only s"
  "ss_world (restore_members E v k cols s) = ss_world s"
  "en_type (ss_heap (restore_members E v k cols s) j) = en_type (ss_heap s j)"
  "en_relations (ss_heap (restore_members E v k cols s) j) = en_relations (ss_heap s j)"
  "en_queues (ss_heap (restore_members E v k cols s) j) = en_queues (ss_heap s j)"
  "j \<noteq> k \<Longrightarrow> ss_heap (restore_members E v k cols s) j = ss_heap s j"
  unfolding restore_members_def by (induction cols arbitrary: s) (simp_all add: set_member_def)

lemma restore_members_get:
  "distinct (List.map fst cols) \<Longrightarrow> (c, t) \<in> set cols \<Longrightarrow>
     get_member (restore_members E v k cols s) k c = stored E v (c, t)"
proof (induction cols arbitrary: s)
  case (Cons ct cols)
  have other: "c' \<notin> fst ` set cs \<Longrightarrow> get_member (restore_members E v k cs s) k c' = get_member s k c'"
    for cs c' s unfolding restore_members_def by (induction cs arbitrary: s) auto
  show ?case
  proof (cases "ct = (c, t)")
    case True
    with Cons.prems have "c \<notin> fst ` set cols" by simp
    from other [OF this, of "set_member k c (stored E v ct) s"] True show ?thesis by (simp add: restore_members_def)
  next
    case False
    with Cons.prems have "(c, t) \<in> set cols" "distinct (List.map fst cols)" by auto
    from Cons.IH [OF this(2,1)] show ?thesis by (simp add: restore_members_def)
  qed
qed simp

lemma stored_round_trip:
  "persistable t \<Longrightarrow> has_type (env_fp E) t x \<Longrightarrow> alookup v c = Some (to_value x) \<Longrightarrow> stored E v (c, t) = x"
  by (simp add: stored_def from_value_to_value_lemma)

lemma restore_snapshot_run:
  assumes typed: "entity_typed E s k" and current: "entry_typed E (type_of E s k) v"
  shows "restore_snapshot E v k s = (Inr (), restore_members E v k (et_columns (type_of E s k)) s)"
proof -
  let ?cols = "et_columns (type_of E s k)"
  have "act_iter (\<lambda>(c, t). case alookup v c of None \<Rightarrow> act_return () | Some v \<Rightarrow> assign_member E k c v) cols s'
      = (Inr (), restore_members E v k cols s')"
    if "set cols \<subseteq> set ?cols" "type_of E s' k = type_of E s k" for cols s'
    using that
  proof (induction cols arbitrary: s')
    case Nil
    then show ?case by (simp add: restore_members_def)
  next
    case (Cons ct cols)
    obtain c t where ct: "ct = (c, t)" by (cases ct)
    with Cons.prems have mem: "(c, t) \<in> set ?cols" by simp
    with current obtain x where x: "persistable t" "has_type (env_fp E) t x" "alookup v c = Some (to_value x)"
      by (auto simp: entry_typed_def)
    have "column_type (type_of E s' k) c = t"
      using mem typed Cons.prems(2) by (simp add: column_type_def entity_typed_def)
    then have step: "assign_member E k c (to_value x) s' = (Inr (), set_member k c x s')"
      using x by (simp add: assign_member_def from_value_to_value_lemma)
    have rest: "restore_members E v k (ct # cols) s' = restore_members E v k cols (set_member k c x s')"
      using x by (simp add: restore_members_def ct stored_round_trip)
    have "act_iter (\<lambda>(c, t). case alookup v c of None \<Rightarrow> act_return () | Some v \<Rightarrow> assign_member E k c v) cols (set_member k c x s')
        = (Inr (), restore_members E v k cols (set_member k c x s'))"
      by (rule Cons.IH) (use Cons.prems in auto)
    with step show ?case unfolding rest by (simp add: ct x act_bind_run)
  qed
  then show ?thesis by (simp add: restore_snapshot_def)
qed

text \<open>What an entry of a checkpoint does to the state.\<close>

definition entry_restored :: "('d, 'e) session_env \<Rightarrow> key \<Rightarrow> 'e checkpoint_entry \<Rightarrow> ('d, 'e) session \<Rightarrow> bool" where
  "entry_restored E k e s \<longleftrightarrow>
     (\<forall>(c, t) \<in> set (et_columns (type_of E s k)). get_member s k c = stored E (ce_current e) (c, t)) \<and>
     capture_runtime s k = ce_runtime e \<and>
     alookup (ss_tracked s) k = (if ce_existed e then Some (ce_tracked e) else None)"

definition same_books :: "('d, 'e) session \<Rightarrow> ('d, 'e) session \<Rightarrow> bool" where
  "same_books s s' \<longleftrightarrow> ss_order s' = ss_order s \<and> ss_checkpoints s' = ss_checkpoints s \<and> ss_fresh s' = ss_fresh s \<and>
     ss_depth s' = ss_depth s \<and> ss_rollback_only s' = ss_rollback_only s \<and>
     (\<forall>k. en_type (ss_heap s' k) = en_type (ss_heap s k))"

lemma same_books_trans: "same_books a b \<Longrightarrow> same_books b c \<Longrightarrow> same_books a c"
  by (simp add: same_books_def)

lemma same_books_type: "same_books s s' \<Longrightarrow> type_of E s' k = type_of E s k"
  by (simp add: same_books_def type_of_def)

lemma restore_entry_run:
  assumes typed: "\<forall>j. entity_typed E s j" and current: "entry_typed E (type_of E s k) (ce_current e)"
    and below: "members_below (ss_fresh s) (fst (ce_runtime e))"
  obtains s' where "restore_entry E (k, e) s = (Inr (), s')" "entry_restored E k e s'" "same_books s s'"
    "\<forall>j. j \<noteq> k \<longrightarrow> ss_heap s' j = ss_heap s j \<and> alookup (ss_tracked s') j = alookup (ss_tracked s) j"
    "\<forall>j. entity_typed E s' j"
proof -
  let ?cols = "et_columns (type_of E s k)"
  let ?m = "restore_members E (ce_current e) k ?cols s"
  let ?r = "restore_runtime (ce_runtime e) k ?m"
  let ?s = "?r\<lparr>ss_tracked := (if ce_existed e then aput k (ce_tracked e) (ss_tracked ?r) else adel k (ss_tracked ?r))\<rparr>"
  have run: "restore_entry E (k, e) s = (Inr (), ?s)"
    using typed restore_snapshot_run [OF _ current] by (simp add: restore_entry_def act_bind_def act_modify_def)
  have ty: "type_of E ?s j = type_of E s j" for j by (simp add: type_of_def restore_runtime_def)
  have get: "get_member ?s j c = get_member ?m j c" for j c
    by (simp add: get_member_def restore_runtime_def)
  have cols: "get_member ?s k c = stored E (ce_current e) (c, t)" if "(c, t) \<in> set ?cols" for c t
    unfolding get using typed that by (auto simp: entity_typed_def intro: restore_members_get)
  moreover have "capture_runtime ?s k = ce_runtime e" by (simp add: capture_runtime_def restore_runtime_def)
  moreover have "alookup (ss_tracked ?s) k = (if ce_existed e then Some (ce_tracked e) else None)" by simp
  ultimately have restored: "entry_restored E k e ?s" unfolding entry_restored_def ty by blast
  have books: "same_books s ?s" by (simp add: same_books_def restore_runtime_def)
  have others: "\<forall>j. j \<noteq> k \<longrightarrow> ss_heap ?s j = ss_heap s j \<and> alookup (ss_tracked ?s) j = alookup (ss_tracked s) j"
    by (simp add: restore_runtime_def)
  have "entity_typed E ?s j" for j
  proof (cases "j = k")
    case True
    have "persistable t \<and> has_type (env_fp E) t (get_member ?s k c)" if ct: "(c, t) \<in> set ?cols" for c t
    proof -
      from current ct obtain x where x: "persistable t" "has_type (env_fp E) t x"
        "alookup (ce_current e) c = Some (to_value x)" by (auto simp: entry_typed_def)
      then show ?thesis by (simp only: cols [OF ct] stored_round_trip [OF x] simp_thms)
    qed
    moreover have "distinct (List.map fst ?cols)" using typed by (simp add: entity_typed_def)
    moreover have "members_below (ss_fresh ?s) (en_relations (ss_heap ?s k))" using below by (simp add: restore_runtime_def)
    ultimately show ?thesis using True unfolding entity_typed_def ty by blast
  next
    case False
    then have heap: "ss_heap ?s j = ss_heap s j" using others by blast
    then have "get_member ?s j c = get_member s j c" for c by (simp only: get_member_def)
    moreover have "ss_fresh ?s = ss_fresh s" by (simp add: restore_runtime_def)
    moreover from typed have "entity_typed E s j" by blast
    ultimately show ?thesis unfolding entity_typed_def ty heap by simp
  qed
  with run restored books others that show thesis by blast
qed

lemma restore_entries_run:
  assumes "amap_ok entries" and "\<forall>j. entity_typed E s j"
    and "\<forall>(k, e) \<in> set entries. entry_typed E (type_of E s k) (ce_current e) \<and> members_below (ss_fresh s) (fst (ce_runtime e))"
  obtains s' where "act_iter (restore_entry E) entries s = (Inr (), s')"
    "\<forall>(k, e) \<in> set entries. entry_restored E k e s'" "same_books s s'" "\<forall>j. entity_typed E s' j"
    "\<forall>j. j \<notin> fst ` set entries \<longrightarrow> ss_heap s' j = ss_heap s j \<and> alookup (ss_tracked s') j = alookup (ss_tracked s) j"
  using assms
proof (induction entries arbitrary: s thesis)
  case Nil
  show ?case by (rule Nil.prems(1) [of s]) (use Nil.prems(3) in \<open>simp_all add: same_books_def\<close>)
next
  case (Cons ke entries)
  obtain k e where ke: "ke = (k, e)" by (cases ke)
  obtain s1 where s1: "restore_entry E (k, e) s = (Inr (), s1)" "entry_restored E k e s1" "same_books s s1"
    "\<forall>j. j \<noteq> k \<longrightarrow> ss_heap s1 j = ss_heap s j \<and> alookup (ss_tracked s1) j = alookup (ss_tracked s) j"
    "\<forall>j. entity_typed E s1 j"
    using restore_entry_run [of E s k e] Cons.prems ke by auto
  have ok: "amap_ok entries" "k \<notin> fst ` set entries" using Cons.prems(2) ke by (auto simp: amap_ok_def)
  have rest: "\<forall>(k, e) \<in> set entries. entry_typed E (type_of E s1 k) (ce_current e) \<and>
      members_below (ss_fresh s1) (fst (ce_runtime e))"
    using Cons.prems(4) same_books_type [OF s1(3)] s1(3) by (simp add: same_books_def)
  obtain s2 where s2: "act_iter (restore_entry E) entries s1 = (Inr (), s2)"
    "\<forall>(k, e) \<in> set entries. entry_restored E k e s2" "same_books s1 s2" "\<forall>j. entity_typed E s2 j"
    "\<forall>j. j \<notin> fst ` set entries \<longrightarrow> ss_heap s2 j = ss_heap s1 j \<and> alookup (ss_tracked s2) j = alookup (ss_tracked s1) j"
    using Cons.IH [OF _ ok(1) s1(5) rest] by blast
  have "ss_heap s2 k = ss_heap s1 k \<and> alookup (ss_tracked s2) k = alookup (ss_tracked s1) k" using s2(5) ok(2) by blast
  then have first: "entry_restored E k e s2"
    using s1(2) same_books_type [OF s2(3), of E k] by (simp add: entry_restored_def get_member_def capture_runtime_def)
  show ?case
  proof (rule Cons.prems(1))
    show "act_iter (restore_entry E) (ke # entries) s = (Inr (), s2)" using s1(1) s2(1) ke by (simp add: act_bind_def)
    show "same_books s s2" using s1(3) s2(3) by (rule same_books_trans)
  qed (use first s1 s2 ke in auto)
qed

lemma rollback_checkpoint_run:
  assumes ok: "session_ok E s" and cps: "ss_checkpoints s = cp # cps"
  obtains s' where "rollback_checkpoint E s = (Inr (), s')" "session_ok E s'"
    "ss_checkpoints s' = cps" "ss_order s' = cp_order cp" "ss_fresh s' = ss_fresh s"
    "ss_depth s' = ss_depth s" "ss_rollback_only s' = ss_rollback_only s"
    "\<forall>k. en_type (ss_heap s' k) = en_type (ss_heap s k)"
    "\<forall>k e. alookup (cp_entries cp) k = Some e \<longrightarrow> entry_restored E k e s'"
    "\<forall>k. uow_contains s' k \<longleftrightarrow> k \<in> set (cp_order cp)"
proof -
  let ?s0 = "s\<lparr>ss_checkpoints := cps\<rparr>"
  from ok cps have cp: "checkpoint_ok E s cp" by (simp add: session_ok_def)
  have typed: "\<forall>j. entity_typed E ?s0 j" using ok by (simp add: session_ok_def entity_typed_heap [of ?s0 s])
  have entries: "\<forall>(k, e) \<in> set (cp_entries cp). entry_typed E (type_of E ?s0 k) (ce_current e) \<and>
      members_below (ss_fresh ?s0) (fst (ce_runtime e))"
    using cp by (auto simp: checkpoint_ok_def type_of_def alookup_iff_in_set)
  from cp have amap: "amap_ok (cp_entries cp)" by (simp add: checkpoint_ok_def)
  obtain s1 where s1: "act_iter (restore_entry E) (cp_entries cp) ?s0 = (Inr (), s1)"
    "\<forall>(k, e) \<in> set (cp_entries cp). entry_restored E k e s1" "same_books ?s0 s1" "\<forall>j. entity_typed E s1 j"
    "\<forall>j. j \<notin> fst ` set (cp_entries cp) \<longrightarrow> ss_heap s1 j = ss_heap ?s0 j \<and> alookup (ss_tracked s1) j = alookup (ss_tracked ?s0) j"
    by (rule restore_entries_run [OF amap typed entries])
  let ?s = "s1\<lparr>ss_order := cp_order cp\<rparr>"
  have run: "rollback_checkpoint E s = (Inr (), ?s)"
    using s1(1) by (simp add: rollback_checkpoint_def cps act_bind_def act_modify_def)
  have entry: "entry_restored E k e s1" if "alookup (cp_entries cp) k = Some e" for k e
    using s1(2) alookup_in_set [OF that] by blast
  have same: "ss_fresh s1 = ss_fresh s" "ss_checkpoints s1 = cps" "\<forall>k. en_type (ss_heap s1 k) = en_type (ss_heap s k)"
    using s1(3) by (simp_all add: same_books_def)
  have tracked: "uow_contains s1 k \<longleftrightarrow> k \<in> set (cp_order cp)" for k
  proof (cases "alookup (cp_entries cp) k")
    case None
    then have "alookup (ss_tracked s1) k = alookup (ss_tracked s) k" using s1(5) by (simp add: alookup_None_iff)
    moreover have "\<not> uow_contains s k" "k \<notin> set (cp_order cp)" using cp None by (auto simp: checkpoint_ok_def)
    ultimately show ?thesis by (simp add: uow_contains_def)
  next
    case (Some e)
    from entry [OF Some] cp Some show ?thesis by (auto simp: entry_restored_def uow_contains_def checkpoint_ok_def)
  qed
  have covered: "alookup (cp_entries c) k \<noteq> None" if "c \<in> set cps" "k \<in> set (cp_order cp)" for c k
    using that ok cps by (simp add: session_ok_def covers_inner_def)
  have ty: "type_of E ?s k = type_of E s k" for k using same(3) by (simp add: type_of_def)
  have "checkpoint_ok E ?s c" if "c \<in> set cps" for c
  proof -
    from that ok cps have "checkpoint_ok E s c" by (simp add: session_ok_def)
    with covered [OF that] tracked show ?thesis
      unfolding checkpoint_ok_def ty by (simp add: same uow_contains_def)
  qed
  moreover have "\<forall>k. entity_typed E ?s k" using s1(4) by (simp add: entity_typed_heap [of ?s s1])
  moreover have "\<forall>k. uow_contains ?s k \<longleftrightarrow> k \<in> set (cp_order cp)" using tracked by (simp add: uow_contains_def)
  moreover have "\<forall>k \<in> set (cp_order cp). k < ss_fresh s" "distinct (cp_order cp)"
    using cp by (auto simp: checkpoint_ok_def)
  ultimately have "session_ok E ?s" using ok cps by (simp add: session_ok_def same)
  moreover have "\<forall>k e. alookup (cp_entries cp) k = Some e \<longrightarrow> entry_restored E k e ?s"
    using entry by (simp add: entry_restored_def type_of_def get_member_def capture_runtime_def)
  ultimately show thesis using that run same s1(3) tracked by (simp add: same_books_def uow_contains_def)
qed

text \<open>
  The unit of work is as it was: the same entities in the same order with the same status and original
  values, and the mapped members, relations and event queues of each of them.
\<close>

definition tracked_restored :: "('d, 'e) session_env \<Rightarrow> ('d, 'e) session \<Rightarrow> ('d, 'e) session \<Rightarrow> bool" where
  "tracked_restored E s s' \<longleftrightarrow> ss_order s' = ss_order s \<and>
     (\<forall>k. alookup (ss_tracked s') k = alookup (ss_tracked s) k) \<and>
     (\<forall>k. uow_contains s k \<longrightarrow> capture_runtime s' k = capture_runtime s k \<and>
       (\<forall>(c, t) \<in> set (et_columns (type_of E s k)). get_member s' k c = get_member s k c))"

lemma tracked_restored_refl: "tracked_restored E s s"
  by (auto simp: tracked_restored_def)

lemma rollback_restores:
  assumes ok: "session_ok E s" and frame: "base_frame E (begin_checkpoint E s) s1"
  obtains s2 where "rollback_checkpoint E s1 = (Inr (), s2)" "tracked_restored E s s2" "base_frame E s s2"
    "ss_depth s2 = ss_depth s1" "ss_rollback_only s2 = ss_rollback_only s1"
proof -
  from pop_checkpoint [OF frame] obtain cp cps where cp: "ss_checkpoints s1 = cp # cps"
    "cp_ext (new_checkpoint E s) cp" "base_frame E s (s1\<lparr>ss_checkpoints := cps\<rparr>)" .
  have ok1: "session_ok E s1" using frame by (simp add: base_frame_def)
  obtain s2 where s2: "rollback_checkpoint E s1 = (Inr (), s2)" "session_ok E s2"
    "ss_checkpoints s2 = cps" "ss_order s2 = cp_order cp" "ss_fresh s2 = ss_fresh s1"
    "ss_depth s2 = ss_depth s1" "ss_rollback_only s2 = ss_rollback_only s1"
    "\<forall>k. en_type (ss_heap s2 k) = en_type (ss_heap s1 k)"
    "\<forall>k e. alookup (cp_entries cp) k = Some e \<longrightarrow> entry_restored E k e s2"
    "\<forall>k. uow_contains s2 k \<longleftrightarrow> k \<in> set (cp_order cp)"
    by (rule rollback_checkpoint_run [OF ok1 cp(1)])
  have order: "cp_order cp = ss_order s" using cp(2) by (simp add: cp_ext_def new_checkpoint_def)
  have below: "k < ss_fresh s" if "uow_contains s k" for k using ok that by (simp add: session_ok_def)
  have entity: "alookup (ss_tracked s2) k = Some t \<and> capture_runtime s2 k = capture_runtime s k \<and>
      (\<forall>(c, ty) \<in> set (et_columns (type_of E s k)). get_member s2 k c = get_member s k c)"
    if t: "alookup (ss_tracked s) k = Some t" for k t
  proof -
    from t have k: "uow_contains s k" by (simp add: uow_contains_def)
    with ok t have "alookup (cp_entries (new_checkpoint E s)) k = Some (capture_entry E s True k t)"
      by (simp add: new_checkpoint_lookup session_ok_def)
    with cp(2) have "alookup (cp_entries cp) k = Some (capture_entry E s True k t)"
      by (simp add: cp_ext_def split: option.splits)
    with s2(9) have r: "entry_restored E k (capture_entry E s True k t) s2" by blast
    have "en_type (ss_heap s2 k) = en_type (ss_heap s k)"
      using s2(8) frame below [OF k] by (simp add: base_frame_def)
    then have ty: "type_of E s2 k = type_of E s k" by (simp add: type_of_def)
    have "stored E (snapshot E s k) (c, ty) = get_member s k c" if "(c, ty) \<in> set (et_columns (type_of E s k))" for c ty
    proof -
      from ok have "entity_typed E s k" by (simp add: session_ok_def)
      with that show ?thesis by (intro stored_round_trip snapshot_lookup) (auto simp: entity_typed_def)
    qed
    with r show ?thesis by (auto simp: entry_restored_def ty capture_entry_def)
  qed
  have "alookup (ss_tracked s2) k = alookup (ss_tracked s) k" for k
  proof (cases "alookup (ss_tracked s) k")
    case None
    with ok have "k \<notin> set (ss_order s)" by (simp add: session_ok_def uow_contains_def)
    with s2(10) order have "\<not> uow_contains s2 k" by simp
    with None show ?thesis by (simp add: uow_contains_def)
  qed (use entity in auto)
  moreover have "capture_runtime s2 k = capture_runtime s k \<and>
      (\<forall>(c, t) \<in> set (et_columns (type_of E s k)). get_member s2 k c = get_member s k c)" if "uow_contains s k" for k
  proof -
    from that obtain t where "alookup (ss_tracked s) k = Some t" by (auto simp: uow_contains_def)
    from entity [OF this] show ?thesis by blast
  qed
  ultimately have "tracked_restored E s s2" unfolding tracked_restored_def s2(4) order by blast
  moreover have "base_frame E s s2"
    using cp(3) s2(2,3,5,8) frame by (simp add: base_frame_def)
  ultimately show thesis using that s2 by blast
qed

subsection \<open>Scopes of transactions\<close>

definition same_core :: "('d, 'e) session \<Rightarrow> ('d, 'e) session \<Rightarrow> bool" where
  "same_core s s' \<longleftrightarrow> ss_heap s' = ss_heap s \<and> ss_tracked s' = ss_tracked s \<and> ss_order s' = ss_order s \<and>
     ss_checkpoints s' = ss_checkpoints s \<and> ss_fresh s' = ss_fresh s"

lemma same_core_ok: "same_core s s' \<Longrightarrow> session_ok E s \<Longrightarrow> session_ok E s'"
  by (rule session_ok_transfer) (auto simp: same_core_def uow_contains_def session_ok_def)

lemma same_core_frame: "same_core s s' \<Longrightarrow> session_ok E s \<Longrightarrow> base_frame E s s'"
  using same_core_ok by (auto simp: base_frame_def same_core_def)

lemma same_core_restored: "same_core s s' \<Longrightarrow> tracked_restored E s s'"
  by (auto simp: tracked_restored_def same_core_def capture_runtime_def get_member_def)

lemma conn_do_core:
  "same_core s (snd (conn_do E op s))" "ss_depth (snd (conn_do E op s)) = ss_depth s"
  "ss_rollback_only (snd (conn_do E op s)) = ss_rollback_only s"
  by (auto simp: conn_do_def conn_call_def act_bind_def same_core_def split: prod.split sum.split)

lemma same_core_trans: "same_core a b \<Longrightarrow> same_core b c \<Longrightarrow> same_core a c"
  by (simp add: same_core_def)

lemma act_bind_snd: "snd (act_bind m f s) = (case m s of (Inl e, s') \<Rightarrow> s' | (Inr x, s') \<Rightarrow> snd (f x s'))"
  by (auto simp: act_bind_def split: prod.split sum.split)

lemma open_scope_core:
  "same_core s (snd (open_scope E s))" "ss_depth (snd (open_scope E s)) = ss_depth s"
  "ss_depth s \<noteq> 0 \<Longrightarrow> ss_rollback_only (snd (open_scope E s)) = ss_rollback_only s"
proof -
  let ?a = "s\<lparr>ss_rollback_only := False\<rparr>" and ?b = "s\<lparr>ss_savepoints := Suc (ss_savepoints s)\<rparr>"
  have core: "same_core s ?a" "same_core s ?b" by (simp_all add: same_core_def)
  have run: "snd (open_scope E s) =
      (if ss_depth s = 0 then snd (conn_do E OBegin ?a)
       else if \<not> env_savepoints E then s
       else snd (conn_do E (OSavepoint (savepoint_name (Suc (ss_savepoints s)))) ?b))"
    by (auto simp: open_scope_def act_bind_snd act_modify_def Let_def split: prod.split sum.split)
  show "same_core s (snd (open_scope E s))"
    using core conn_do_core(1) [of ?a E OBegin]
      conn_do_core(1) [of ?b E "OSavepoint (savepoint_name (Suc (ss_savepoints s)))"] same_core_trans
    unfolding run by (auto simp: same_core_def)
  show "ss_depth (snd (open_scope E s)) = ss_depth s" "ss_depth s \<noteq> 0 \<Longrightarrow>
      ss_rollback_only (snd (open_scope E s)) = ss_rollback_only s"
    unfolding run by (simp_all add: conn_do_core)
qed

lemma base_frame_core: "base_frame E a b \<Longrightarrow> same_core b c \<Longrightarrow> base_frame E a c"
  using same_core_ok by (fastforce simp: base_frame_def same_core_def)

lemma restored_core: "tracked_restored E a b \<Longrightarrow> same_core b c \<Longrightarrow> tracked_restored E a c"
  by (simp add: tracked_restored_def same_core_def capture_runtime_def get_member_def)

definition books_kept :: "('d, 'e) session \<Rightarrow> ('d, 'e) session \<Rightarrow> bool" where
  "books_kept s s' \<longleftrightarrow> same_core s s' \<and> ss_depth s' = ss_depth s \<and> ss_rollback_only s' = ss_rollback_only s"

lemma books_kept_trans: "books_kept a b \<Longrightarrow> books_kept b c \<Longrightarrow> books_kept a c"
  by (auto simp: books_kept_def same_core_def)

lemma iter_books: "(\<And>x s. books_kept s (snd (f x s))) \<Longrightarrow> books_kept s (snd (act_iter f xs s))"
proof (induction xs arbitrary: s)
  case (Cons x xs)
  have one: "books_kept s (snd (f x s))" by (rule Cons.prems)
  obtain r s1 where r: "f x s = (r, s1)" by (cases "f x s")
  with one Cons.IH [of s1, OF Cons.prems] show ?case
    by (cases r) (auto simp: act_bind_def intro: books_kept_trans)
qed (simp add: books_kept_def same_core_def)

lemma rebuild_books: "books_kept s (snd (rebuild_identity_map E s))"
proof -
  have clear: "books_kept s (identity_clear s)" by (simp add: books_kept_def same_core_def identity_clear_def)
  have step: "books_kept s (snd (if uow_contains s k then act_modify (register_identity E k) s else (Inr (), s)))" for k s
    by (auto simp: books_kept_def same_core_def act_modify_def register_identity_def identity_put_def)
  have "books_kept s (snd (register_all_identities E s))" for s
    unfolding register_all_identities_def for_keys_def by (rule iter_books) (rule step)
  with clear show ?thesis
    by (auto simp: rebuild_identity_map_def act_bind_snd act_modify_def intro: books_kept_trans)
qed

lemma rollback_scope_run:
  assumes ok: "session_ok E s1" and frame: "base_frame E (begin_checkpoint E s1) s3"
    and depth: "ss_depth s3 = Suc (ss_depth s1)"
  shows "tracked_restored E s1 (snd (rollback_transaction_scope E outermost name s3)) \<and>
    base_frame E s1 (snd (rollback_transaction_scope E outermost name s3)) \<and>
    ss_depth (snd (rollback_transaction_scope E outermost name s3)) = ss_depth s1 \<and>
    (\<not> outermost \<longrightarrow> ss_depth s1 \<noteq> 0 \<longrightarrow> ss_rollback_only (snd (rollback_transaction_scope E outermost name s3)))"
proof -
  let ?rb = "s3\<lparr>ss_rollback_only := True\<rparr>"
  let ?a = "if outermost then snd (conn_do E ORollback s3) else snd (conn_do E (ORollbackTo name) ?rb)"
  have rb: "same_core s3 ?rb" by (simp add: same_core_def)
  have a: "same_core s3 ?a"
    using conn_do_core(1) [of s3 E ORollback] conn_do_core(1) [of ?rb E "ORollbackTo name"] same_core_trans [OF rb] by simp
  have a_books: "ss_depth ?a = Suc (ss_depth s1)" "\<not> outermost \<longrightarrow> ss_rollback_only ?a"
    using depth by (simp_all add: conn_do_core)
  from a base_frame_core [OF frame] have "base_frame E (begin_checkpoint E s1) ?a" by blast
  then obtain s4 where s4: "rollback_checkpoint E ?a = (Inr (), s4)" "tracked_restored E s1 s4" "base_frame E s1 s4"
    "ss_depth s4 = ss_depth ?a" "ss_rollback_only s4 = ss_rollback_only ?a"
    by (rule rollback_restores [OF ok])
  have "ss_checkpoints s3 \<noteq> []" using frame by (auto simp: base_frame_def)
  then have nonempty: "ss_checkpoints ?a \<noteq> []" using a by (simp add: same_core_def)
  obtain r s5 where r: "rebuild_identity_map E s4 = (Inr r, s5)"
  proof -
    have "\<not> isl (fst (act_iter (\<lambda>k s. if uow_contains s k then act_modify (register_identity E k) s else (Inr (), s)) ks s))" for ks s
      by (induction ks arbitrary: s) (simp_all add: act_bind_def act_modify_def)
    then have "\<not> isl (fst (rebuild_identity_map E s4))"
      by (simp add: rebuild_identity_map_def register_all_identities_def for_keys_def act_bind_def act_modify_def)
    then show thesis using that by (metis isl_def prod.collapse sum.exhaust)
  qed
  have undo: "undo_checkpoint E ?a = (Inr (), s4)"
    using nonempty s4(1) by (simp add: undo_checkpoint_def act_when_def quietly_def)
  have run: "snd (rollback_transaction_scope E outermost name s3) = finish_transaction_scope s5"
    using undo r by (auto simp: rollback_transaction_scope_def act_bind_def act_modify_def quietly_def split: if_splits)
  have books: "books_kept s4 s5" using rebuild_books [of s4 E] r by simp
  have fin: "same_core s5 (finish_transaction_scope s5)" "ss_depth (finish_transaction_scope s5) = ss_depth s5 - 1"
    "ss_depth s5 - 1 \<noteq> 0 \<Longrightarrow> ss_rollback_only (finish_transaction_scope s5) = ss_rollback_only s5"
    by (auto simp: finish_transaction_scope_def same_core_def Let_def)
  have core: "same_core s4 (finish_transaction_scope s5)" using books fin(1) same_core_trans by (auto simp: books_kept_def)
  show ?thesis unfolding run
    using core restored_core [OF s4(2)] base_frame_core [OF s4(3)] fin(2,3) books a_books s4(4,5)
    by (auto simp: books_kept_def)
qed

text \<open>
  What runs between the checkpoint and its end: the user's function and the closing of the scope up to the
  commit. It fails or reaches the end of the checkpoint, which then cannot fail.
\<close>

definition scope_work ::
  "('d, 'e) session_env \<Rightarrow> bool \<Rightarrow> string \<Rightarrow> ('d, 'e, 'a) session_action \<Rightarrow> ('d, 'e, 'a) session_action" where
  "scope_work E outermost name body = act_bind body (\<lambda>x.
     act_bind throw_if_rollback_only (\<lambda>_. act_bind (flush_pipeline E) (\<lambda>_.
     act_bind throw_if_rollback_only (\<lambda>_. act_bind accept_relations (\<lambda>_.
     act_bind (conn_do E (if outermost then OCommit else OReleaseSavepoint name)) (\<lambda>_. act_return x))))))"

lemma behaves_scope_work: "env_behaves E \<Longrightarrow> behaves E body \<Longrightarrow> behaves E (scope_work E outermost name body)"
  unfolding scope_work_def by (intro behaves_intros)

definition scope_start :: "('d, 'e) session_env \<Rightarrow> ('d, 'e) session \<Rightarrow> ('d, 'e) session" where
  "scope_start E s = (begin_checkpoint E s)\<lparr>ss_depth := Suc (ss_depth s)\<rparr>"

lemma scope_frame:
  assumes "session_ok E s1" "env_behaves E" "behaves E body"
  shows "base_frame E (begin_checkpoint E s1) (snd (scope_work E outermost name body (scope_start E s1))) \<and>
    ss_depth (snd (scope_work E outermost name body (scope_start E s1))) = Suc (ss_depth s1) \<and>
    (ss_rollback_only s1 \<longrightarrow> ss_rollback_only (snd (scope_work E outermost name body (scope_start E s1))))"
proof -
  have core: "same_core (begin_checkpoint E s1) (scope_start E s1)" by (simp add: scope_start_def same_core_def)
  have ok: "session_ok E (begin_checkpoint E s1)" by (rule begin_checkpoint_ok) (rule assms)
  have "frame E (scope_start E s1) (snd (scope_work E outermost name body (scope_start E s1)))"
    using behavesD [OF behaves_scope_work [OF assms(2,3)]] same_core_ok [OF core ok] by blast
  then show ?thesis using same_core_frame [OF core ok] base_frame_trans by (fastforce simp: frame_def scope_start_def)
qed

definition drop_checkpoint :: "('d, 'e) session \<Rightarrow> ('d, 'e) session" where
  "drop_checkpoint s = s\<lparr>ss_checkpoints := tl (ss_checkpoints s)\<rparr>"

lemma commit_checkpoint_run: "ss_checkpoints s \<noteq> [] \<Longrightarrow> commit_checkpoint s = (Inr (), drop_checkpoint s)"
  by (cases "ss_checkpoints s") (simp_all add: commit_checkpoint_def drop_checkpoint_def)

lemma act_bind_assoc: "act_bind (act_bind m f) g = act_bind m (\<lambda>x. act_bind (f x) g)"
  by (rule ext) (auto simp: act_bind_def split: prod.split sum.split)

lemma scope_unfold:
  assumes "ss_checkpoints (snd (scope_work E outermost name body s)) \<noteq> []"
  shows "act_bind body (\<lambda>x. act_bind (close_scope E outermost name) (\<lambda>_. act_return x)) s =
    (case scope_work E outermost name body s of
       (Inl e, s') \<Rightarrow> (Inl e, s') | (Inr x, s') \<Rightarrow> (Inr x, drop_checkpoint s'))"
proof -
  note assoc = act_bind_assoc
  have "act_bind body (\<lambda>x. act_bind (close_scope E outermost name) (\<lambda>_. act_return x)) s =
      act_bind (scope_work E outermost name body) (\<lambda>x. act_bind commit_checkpoint (\<lambda>_. act_return x)) s"
    by (simp add: close_scope_def scope_work_def assoc act_bind_return)
  also have "\<dots> = (case scope_work E outermost name body s of
       (Inl e, s') \<Rightarrow> (Inl e, s') | (Inr x, s') \<Rightarrow> (Inr x, drop_checkpoint s'))"
    using assms by (auto simp: act_bind_def commit_checkpoint_run split: prod.splits sum.splits)
  finally show ?thesis .
qed

lemma scope_checkpoints:
  "base_frame E (begin_checkpoint E s1) s3 \<Longrightarrow> ss_checkpoints s3 \<noteq> []"
  by (auto simp: base_frame_def)

text \<open>A transaction, by its outcome.\<close>

definition scope_end :: "('d, 'e) session_env \<Rightarrow> bool \<Rightarrow> 'a \<Rightarrow> ('d, 'e, 'a) session_action" where
  "scope_end E outermost x = act_bind (act_modify finish_transaction_scope) (\<lambda>_.
     act_bind (if outermost then dispatch_domain_events E else act_return ()) (\<lambda>_. act_return x))"

lemma transaction_cases:
  assumes "session_ok E s" "env_behaves E" "behaves E body" "env_transactions E"
  shows "transaction E body s =
    (case open_scope E s of
       (Inl e, s1) \<Rightarrow> (Inl e, s1)
     | (Inr name, s1) \<Rightarrow>
         (case scope_work E (ss_depth s = 0) name body (scope_start E s1) of
            (Inl e, s3) \<Rightarrow> (Inl e, snd (rollback_transaction_scope E (ss_depth s = 0) name s3))
          | (Inr x, s3) \<Rightarrow> scope_end E (ss_depth s = 0) x (drop_checkpoint s3)))"
proof (cases "open_scope E s")
  case (Pair r s1)
  show ?thesis
  proof (cases r)
    case (Inl e)
    with Pair assms(4) show ?thesis by (simp add: transaction_def act_bind_def)
  next
    case (Inr name)
    from Pair open_scope_core(1) [of s E] same_core_ok [OF _ assms(1)] have ok1: "session_ok E s1" by fastforce
    have "ss_checkpoints (snd (scope_work E (ss_depth s = 0) name body (scope_start E s1))) \<noteq> []"
      by (rule scope_checkpoints [OF conjunct1 [OF scope_frame [OF ok1 assms(2,3)]]])
    from scope_unfold [OF this] Pair Inr assms(4) show ?thesis
      by (simp add: transaction_def act_bind_def act_modify_def on_error_def scope_start_def scope_end_def Let_def
          split: prod.split sum.split)
  qed
qed


lemma drop_checkpoint_frame:
  assumes "base_frame E (begin_checkpoint E s1) s3"
  shows "base_frame E s1 (drop_checkpoint s3)"
  using pop_checkpoint [OF assms] by (metis drop_checkpoint_def list.sel(3))

lemma finish_scope_simps:
  "same_core s (finish_transaction_scope s)" "ss_depth (finish_transaction_scope s) = ss_depth s - 1"
  "ss_depth s - 1 \<noteq> 0 \<Longrightarrow> ss_rollback_only (finish_transaction_scope s) = ss_rollback_only s"
  by (auto simp: finish_transaction_scope_def same_core_def Let_def)

lemma scope_end_frame:
  assumes env: "env_behaves E" and base: "base_frame E (begin_checkpoint E s1) s3"
    and depth: "ss_depth s3 = Suc (ss_depth s1)" and rb: "ss_rollback_only s1 \<longrightarrow> ss_rollback_only s3"
  shows "frame E s1 (snd (scope_end E outermost x (drop_checkpoint s3)))"
proof -
  let ?f = "finish_transaction_scope (drop_checkpoint s3)"
  have drop: "ss_depth (drop_checkpoint s3) = ss_depth s3" "ss_rollback_only (drop_checkpoint s3) = ss_rollback_only s3"
    by (simp_all add: drop_checkpoint_def)
  have "base_frame E s1 ?f" using drop_checkpoint_frame [OF base] finish_scope_simps(1) base_frame_core by blast
  then have one: "frame E s1 ?f"
    using finish_scope_simps(2,3) [of "drop_checkpoint s3"] drop depth rb by (auto simp: frame_def)
  have "frame E ?f (snd (dispatch_domain_events E ?f))" by (rule behavesD [OF behaves_dispatch [OF env] frame_ok [OF one]])
  with one frame_trans [OF one] show ?thesis
    by (cases "dispatch_domain_events E ?f")
      (auto simp: scope_end_def act_bind_def act_modify_def split: sum.split)
qed

text \<open>So a transaction is itself well-behaved code, and transactions may be nested.\<close>

lemma behaves_transaction:
  assumes env: "env_behaves E" and body: "behaves E body" and tx: "env_transactions E"
  shows "behaves E (transaction E body)"
proof (rule behavesI)
  fix s
  assume ok: "session_ok E s"
  obtain r s1 where op: "open_scope E s = (r, s1)" by (cases "open_scope E s")
  have core: "same_core s s1" "ss_depth s1 = ss_depth s" "ss_depth s \<noteq> 0 \<Longrightarrow> ss_rollback_only s1 = ss_rollback_only s"
    using open_scope_core(1-3) [where s = s and E = E] op by simp_all
  then have one: "frame E s s1" using same_core_frame [OF core(1) ok] by (simp add: frame_def)
  note run = transaction_cases [OF ok env body tx]
  show "frame E s (snd (transaction E body s))"
  proof (cases r)
    case (Inl e)
    with run op one show ?thesis by simp
  next
    case (Inr name)
    obtain w s3 where w: "scope_work E (ss_depth s = 0) name body (scope_start E s1) = (w, s3)"
      by (cases "scope_work E (ss_depth s = 0) name body (scope_start E s1)")
    have work: "base_frame E (begin_checkpoint E s1) s3" "ss_depth s3 = Suc (ss_depth s1)"
      "ss_rollback_only s1 \<longrightarrow> ss_rollback_only s3"
      using scope_frame [OF frame_ok [OF one] env body, of "ss_depth s = 0" name] w by simp_all
    have "frame E s1 (snd (transaction E body s))"
    proof (cases w)
      case (Inl e)
      with rollback_scope_run [OF frame_ok [OF one] work(1,2), of "ss_depth s = 0" name] run op Inr w core(2)
      show ?thesis by (simp add: frame_def)
    next
      case (Inr x)
      with scope_end_frame [OF env work, of "ss_depth s = 0" x] run op w \<open>r = Inr name\<close>
      show ?thesis by simp
    qed
    with one show ?thesis by (rule frame_trans)
  qed
qed

lemma act_iter_no_throw:
  "(\<And>x s. x \<in> set xs \<Longrightarrow> \<exists>s'. f x s = (Inr (), s')) \<Longrightarrow> \<exists>s'. act_iter f xs s = (Inr (), s')"
proof (induction xs arbitrary: s)
  case (Cons x xs)
  obtain s1 where s1: "f x s = (Inr (), s1)" using Cons.prems [of x s] by auto
  obtain s2 where "act_iter f xs s1 = (Inr (), s2)" using Cons.IH [of s1] Cons.prems by force
  with s1 show ?case by (simp add: act_bind_def)
qed simp

definition handlers_quiet :: "('d, 'e) session_env \<Rightarrow> bool" where
  "handlers_quiet E \<longleftrightarrow> (\<forall>e. \<forall>h \<in> set (env_handlers E e). \<forall>s. \<not> isl (fst (h s)))"

lemma dispatch_no_throw:
  assumes "handlers_quiet E"
  shows "\<exists>s'. dispatch_domain_events E s = (Inr (), s')"
proof -
  have handler: "\<exists>s'. h s = (Inr (), s')" if "h \<in> set (env_handlers E e)" for h e s
  proof -
    from assms that have "\<not> isl (fst (h s))" by (simp add: handlers_quiet_def)
    then show ?thesis by (cases "h s"; cases "fst (h s)") auto
  qed
  have event: "\<exists>s'. dispatch_event E e s = (Inr (), s')" for e s
    unfolding dispatch_event_def by (rule act_iter_no_throw) (rule handler)
  have queue: "\<exists>s'. dispatch_queue E k i s = (Inr (), s')" for k i s
  proof -
    let ?es = "let qs = en_queues (ss_heap s k) in if i < length qs then qs ! i else []"
    obtain s' where "act_iter (dispatch_event E) ?es s = (Inr (), s')" using act_iter_no_throw [of ?es "dispatch_event E", OF event] by blast
    then show ?thesis by (simp add: dispatch_queue_def act_bind_def act_modify_def)
  qed
  show ?thesis unfolding dispatch_domain_events_def for_keys_def
    by (rule act_iter_no_throw) (auto intro: act_iter_no_throw queue)
qed

end
