(* ===== verification/Session_Transactions.thy ===== *)
theory Session_Transactions
  imports Session_Rollback
begin

section \<open>Failed transactions\<close>

text \<open>The properties of \<open>Session::transaction\<close>, and a small Session they are applied to.\<close>

lemma scope_end_no_throw: "handlers_quiet E \<Longrightarrow> \<not> isl (fst (scope_end E b x t))"
  using dispatch_no_throw [of E "finish_transaction_scope t"]
  by (auto simp: scope_end_def act_bind_def act_modify_def)

lemma failed_scope:
  assumes ok: "session_ok E s" and env: "env_behaves E" and body: "behaves E body" and tx: "env_transactions E"
    and quiet: "handlers_quiet E" and fails: "transaction E body s = (Inl e, s')"
  shows "(\<exists>s1. open_scope E s = (Inl e, s1) \<and> s' = s1) \<or>
    (\<exists>name s1 s3. open_scope E s = (Inr name, s1) \<and>
       scope_work E (ss_depth s = 0) name body (scope_start E s1) = (Inl e, s3) \<and>
       s' = snd (rollback_transaction_scope E (ss_depth s = 0) name s3))"
proof -
  show ?thesis
    using transaction_cases [OF ok env body tx] fails
    by (auto split: prod.splits sum.splits) (metis fst_conv isl_def scope_end_no_throw [OF quiet])
qed

lemma failed_scope_state:
  assumes ok: "session_ok E s" and env: "env_behaves E" and body: "behaves E body"
    and op: "open_scope E s = (Inr name, s1)"
    and work: "scope_work E (ss_depth s = 0) name body (scope_start E s1) = (w, s3)"
  shows "tracked_restored E s (snd (rollback_transaction_scope E (ss_depth s = 0) name s3))"
    "ss_depth s \<noteq> 0 \<Longrightarrow> ss_rollback_only (snd (rollback_transaction_scope E (ss_depth s = 0) name s3))"
proof -
  have core: "same_core s s1" "ss_depth s1 = ss_depth s"
    using open_scope_core(1,2) [where s = s and E = E] op by simp_all
  have ok1: "session_ok E s1" by (rule same_core_ok [OF core(1) ok])
  have frame: "base_frame E (begin_checkpoint E s1) s3" "ss_depth s3 = Suc (ss_depth s1)"
    using scope_frame [OF ok1 env body, of "ss_depth s = 0" name] work by simp_all
  note run = rollback_scope_run [OF ok1 frame, of "ss_depth s = 0" name]
  show "tracked_restored E s (snd (rollback_transaction_scope E (ss_depth s = 0) name s3))"
    using run core(1) same_core_restored [OF core(1), of E]
    by (simp add: tracked_restored_def same_core_def type_of_def capture_runtime_def get_member_def uow_contains_def)
  show "ss_depth s \<noteq> 0 \<Longrightarrow> ss_rollback_only (snd (rollback_transaction_scope E (ss_depth s = 0) name s3))"
    using run core(2) by simp
qed

text \<open>
  C1. A transaction that throws leaves the Session as it found it: the same entities are tracked, in
  the same order and with the same status and original values, their mapped members, relation members
  and event queues are what they were, the nesting depth is the same and the invariant of the unit of
  work holds. This is so wherever it fails (the user's function, a hook, a statement of the flush, a
  relation without key, the commit itself), at any depth, and whatever the user's code did to the
  entities meanwhile, as long as that code goes through the Session and no event handler throws after
  the commit.
\<close>

theorem failed_transaction_restores:
  assumes "session_ok E s" and "env_behaves E" and "behaves E body" and "env_transactions E"
    and "handlers_quiet E" and "transaction E body s = (Inl e, s')"
  shows "tracked_restored E s s' \<and> ss_depth s' = ss_depth s \<and> session_ok E s'"
proof -
  have "frame E s s'" using behavesD [OF behaves_transaction [OF assms(2-4)] assms(1)] assms(6) by simp
  then have rest: "ss_depth s' = ss_depth s" "session_ok E s'" by (simp_all add: frame_def base_frame_def)
  from failed_scope [OF assms] have "tracked_restored E s s'"
  proof (elim disjE exE conjE)
    fix s1
    assume "open_scope E s = (Inl e, s1)" "s' = s1"
    then show ?thesis using same_core_restored [OF open_scope_core(1) [where s = s and E = E], of E] by simp
  next
    fix name s1 s3
    assume "open_scope E s = (Inr name, s1)" and "s' = snd (rollback_transaction_scope E (ss_depth s = 0) name s3)"
      and "scope_work E (ss_depth s = 0) name body (scope_start E s1) = (Inl e, s3)"
    with failed_scope_state(1) [OF assms(1-3)] show ?thesis by blast
  qed
  with rest show ?thesis by blast
qed

text \<open>The Session of the witnesses: one managed user, and a connection that refuses to commit.\<close>

definition demo_types :: "type_index \<Rightarrow> entity_type" where
  "demo_types ty = (if ty = 1
     then \<lparr>et_table = ''users'', et_primary_key = ''id'', et_generated = True,
       et_columns = [(''id'', TInt True 64), (''name'', TString)], et_relations = [], et_queues = 0\<rparr>
     else \<lparr>et_table = [], et_primary_key = [], et_generated = False, et_columns = [], et_relations = [], et_queues = 0\<rparr>)"

definition no_rows :: query_result where
  "no_rows = \<lparr>qr_rows = [], qr_affected = 0, qr_last_id = 0\<rparr>"

definition demo_env :: "(conn_op list, nat) session_env" where
  "demo_env = \<lparr>env_fp = sample_fp, env_dialect = sqlite_dialect, env_types = demo_types,
     env_transactions = True, env_savepoints = True,
     env_conn = (\<lambda>op log. (if op = OCommit then Inl (Backend_failure ''disk full'') else Inr no_rows, log @ [op])),
     env_hook = (\<lambda>p k. act_return ()), env_interceptors = [], env_handlers = (\<lambda>e. [])\<rparr>"

definition demo_session :: "(conn_op list, nat) session" where
  "demo_session = \<lparr>ss_heap = (\<lambda>k. if k = 0
       then \<lparr>en_type = 1, en_columns = [(''id'', CInt 7), (''name'', CString ''ada'')], en_relations = [], en_queues = []\<rparr>
       else \<lparr>en_type = 0, en_columns = [], en_relations = [], en_queues = []\<rparr>),
     ss_fresh = 1, ss_held = (\<lambda>k. False),
     ss_tracked = [(0, \<lparr>te_status = StManaged, te_table = ''users'', te_primary_key = ''id'', te_generated = True,
       te_original = [(''id'', VInt 7), (''name'', VString ''ada'')]\<rparr>)],
     ss_order = [0], ss_checkpoints = [], ss_identity = [], ss_depth = 0, ss_savepoints = 0,
     ss_rollback_only = False, ss_world = []\<rparr>"

definition demo_rename :: "(conn_op list, nat, unit) session_action" where
  "demo_rename = assign_member demo_env 0 ''name'' (VString ''eve'')"

lemma demo_env_behaves: "env_behaves demo_env" "handlers_quiet demo_env" "env_transactions demo_env"
  by (simp_all add: env_behaves_def handlers_quiet_def demo_env_def behaves_return fp_ok_def sample_fp_def)

lemma demo_session_ok: "session_ok demo_env demo_session"
proof -
  have "entity_typed demo_env demo_session k" for k
    by (simp add: entity_typed_def type_of_def demo_env_def demo_session_def demo_types_def members_below_def get_member_def
        alookup_def)
  then show ?thesis
    by (simp add: session_ok_def demo_session_def uow_contains_def alookup_def)
qed

theorem failed_transaction_restores_witness:
  "\<exists>s'. transaction demo_env demo_rename demo_session = (Inl (Backend_failure ''disk full''), s') \<and>
     ss_world s' = [OBegin, OExecute ''UPDATE \"users\" SET \"name\" = ? WHERE \"id\" = ?;'' [VString ''eve'', VInt 7],
       OCommit, ORollback] \<and>
     get_member s' 0 ''name'' = CString ''ada'' \<and> ss_depth s' = 0"
proof -
  let ?run = "transaction demo_env demo_rename demo_session"
  have fst: "fst ?run = Inl (Backend_failure ''disk full'')" by code_simp
  have world: "ss_world (snd ?run) = [OBegin,
      OExecute ''UPDATE \"users\" SET \"name\" = ? WHERE \"id\" = ?;'' [VString ''eve'', VInt 7], OCommit, ORollback]"
    by code_simp
  have run: "?run = (Inl (Backend_failure ''disk full''), snd ?run)" by (subst fst [symmetric]) simp
  have "behaves demo_env demo_rename" unfolding demo_rename_def by (rule behaves_assign) (rule demo_env_behaves)
  from failed_transaction_restores [OF demo_session_ok demo_env_behaves(1) this demo_env_behaves(3,2) run]
  have restored: "tracked_restored demo_env demo_session (snd ?run)" "ss_depth (snd ?run) = 0"
    by (simp_all add: demo_session_def)
  have "(''name'', TString) \<in> set (et_columns (type_of demo_env demo_session 0))" "uow_contains demo_session 0" by code_simp+
  with restored(1) have "get_member (snd ?run) 0 ''name'' = get_member demo_session 0 ''name''"
    unfolding tracked_restored_def by blast
  also have "get_member demo_session 0 ''name'' = CString ''ada''" by code_simp
  finally show ?thesis using run world restored(2) by blast
qed

subsection \<open>Failures of nested transactions\<close>

definition doomed :: exn where
  "doomed = Logic_error ''MetalORM: cannot commit transaction because an inner transaction failed''"

lemma inner_failure_marks:
  assumes ok: "session_ok E s" and env: "env_behaves E" and inner: "behaves E inner" and tx: "env_transactions E"
    and depth: "ss_depth s \<noteq> 0" and op: "open_scope E s = (Inr name, s1)" and fails: "transaction E inner s = (Inl e, s')"
  shows "ss_rollback_only s'"
proof -
  obtain w s3 where w: "scope_work E (ss_depth s = 0) name inner (scope_start E s1) = (w, s3)"
    by (cases "scope_work E (ss_depth s = 0) name inner (scope_start E s1)")
  have "scope_end E False x t = (Inr x, finish_transaction_scope t)" for x :: 'c and t
    by (simp add: scope_end_def act_bind_def act_modify_def)
  with transaction_cases [OF ok env inner tx] op w fails depth
  have "s' = snd (rollback_transaction_scope E (ss_depth s = 0) name s3)"
    by (cases w) (auto simp: scope_end_def act_bind_def act_modify_def)
  with failed_scope_state(2) [OF ok env inner op w depth] show ?thesis by simp
qed

text \<open>
  C7. When a nested transaction fails after setting its savepoint, the outermost transaction around it
  never commits, even if the code around the nested one swallows the exception and goes on: after that
  code has ended, the outermost scope runs nothing but its rollback and throws (the exception of that code
  if it threw one, else that an inner transaction failed), and the unit of work is what it was before
  the outermost transaction.
\<close>

theorem inner_failure_dooms_outer:
  assumes "session_ok E s" and "env_behaves E" and "env_transactions E" and "ss_depth s = 0"
    and "behaves E pre" and "behaves E inner" and "behaves E post"
    and "open_scope E s = (Inr name, s1)" and "pre (scope_start E s1) = (Inr p, s2)"
    and "open_scope E s2 = (Inr name', s3)" and "transaction E inner s2 = (Inl e, s4)"
    and "post s4 = (r, s5)"
  shows "transaction E (act_bind pre (\<lambda>_. act_bind (quietly (transaction E inner)) (\<lambda>_. post))) s =
      (Inl (case r of Inl e' \<Rightarrow> e' | Inr _ \<Rightarrow> doomed), snd (rollback_transaction_scope E True name s5)) \<and>
    tracked_restored E s (snd (rollback_transaction_scope E True name s5))"
proof -
  let ?body = "act_bind pre (\<lambda>_. act_bind (quietly (transaction E inner)) (\<lambda>_. post))"
  have body: "behaves E ?body" by (intro behaves_intros behaves_transaction assms)
  have core: "same_core s s1" "ss_depth s1 = 0"
    using open_scope_core(1,2) [where s = s and E = E] assms(4,8) by simp_all
  have ok1: "session_ok E s1" by (rule same_core_ok [OF core(1) assms(1)])
  have start: "session_ok E (scope_start E s1)"
    by (rule same_core_ok [OF _ begin_checkpoint_ok [OF ok1]]) (simp add: same_core_def scope_start_def)
  have f2: "frame E (scope_start E s1) s2" using behavesD [OF assms(5) start] assms(9) by simp
  then have s2: "session_ok E s2" "ss_depth s2 = 1" using core(2) frame_ok [OF f2] by (auto simp: frame_def scope_start_def)
  have f4: "frame E s2 s4" using behavesD [OF behaves_transaction [OF assms(2,6,3)] s2(1)] assms(11) by simp
  have rb4: "ss_rollback_only s4" using inner_failure_marks [OF s2(1) assms(2,6,3) _ assms(10,11)] s2(2) by simp
  have "frame E s4 s5" using behavesD [OF assms(7) frame_ok [OF f4]] assms(12) by simp
  moreover have "ss_depth s4 = 1" using f4 s2(2) by (simp add: frame_def)
  ultimately have rb5: "ss_rollback_only s5" using rb4 by (simp add: frame_def)
  have run: "?body (scope_start E s1) = (r, s5)" using assms(9,11,12) by (simp add: act_bind_def quietly_def)
  have work: "scope_work E True name ?body (scope_start E s1) = (Inl (case r of Inl e' \<Rightarrow> e' | Inr _ \<Rightarrow> doomed), s5)"
  proof (cases r)
    case (Inl e')
    with run show ?thesis by (simp add: scope_work_def act_bind_run)
  next
    case (Inr x)
    with run have "scope_work E True name ?body (scope_start E s1) = act_bind throw_if_rollback_only
        (\<lambda>_. act_bind (flush_pipeline E) (\<lambda>_. act_bind throw_if_rollback_only (\<lambda>_. act_bind accept_relations (\<lambda>_.
          act_bind (conn_do E OCommit) (\<lambda>_. act_return x))))) s5"
      by (simp add: scope_work_def act_bind_run)
    with rb5 Inr show ?thesis by (simp add: act_bind_def throw_if_rollback_only_def doomed_def)
  qed
  have "tracked_restored E s (snd (rollback_transaction_scope E True name s5))"
    using failed_scope_state(1) [OF assms(1,2) body assms(8)] work assms(4) by simp
  with transaction_cases [OF assms(1,2) body assms(3)] assms(4,8) work show ?thesis by simp
qed

definition demo_inner :: "(conn_op list, nat, unit) session_action" where
  "demo_inner = act_bind demo_rename (\<lambda>_. act_throw (Backend_failure ''inner''))"

theorem inner_failure_dooms_outer_witness:
  "let run = transaction demo_env (act_bind demo_rename (\<lambda>_.
       act_bind (quietly (transaction demo_env demo_inner)) (\<lambda>_. act_return ()))) demo_session in
   fst run = Inl doomed \<and> tracked_restored demo_env demo_session (snd run) \<and>
   ss_world (snd run) = [OBegin, OSavepoint ''metalorm_sp_1'', ORollbackTo ''metalorm_sp_1'', ORollback]"
proof -
  let ?body = "act_bind demo_rename (\<lambda>_. act_bind (quietly (transaction demo_env demo_inner)) (\<lambda>_. act_return ()))"
  let ?o = "open_scope demo_env demo_session"
  let ?p = "demo_rename (scope_start demo_env (snd ?o))"
  let ?o2 = "open_scope demo_env (snd ?p)" and ?i = "transaction demo_env demo_inner (snd ?p)"
  have ok: "\<not> isl (fst ?o)" "\<not> isl (fst ?p)" "\<not> isl (fst ?o2)" "isl (fst ?i)" by code_simp+
  then have runs: "?o = (Inr (projr (fst ?o)), snd ?o)" "?p = (Inr (projr (fst ?p)), snd ?p)"
    "?o2 = (Inr (projr (fst ?o2)), snd ?o2)" "?i = (Inl (projl (fst ?i)), snd ?i)"
    by (metis prod.collapse sum.collapse)+
  have world: "ss_world (snd (transaction demo_env ?body demo_session)) =
      [OBegin, OSavepoint ''metalorm_sp_1'', ORollbackTo ''metalorm_sp_1'', ORollback]" by code_simp
  have depth: "ss_depth demo_session = 0" by code_simp
  have rename: "behaves demo_env demo_rename" unfolding demo_rename_def by (rule behaves_assign) (rule demo_env_behaves)
  then have inner: "behaves demo_env demo_inner" unfolding demo_inner_def by (intro behaves_intros)
  note result = inner_failure_dooms_outer [where post = "act_return ()", OF demo_session_ok demo_env_behaves(1,3) depth
      rename inner behaves_return(1) runs act_simps(1)]
  show ?thesis unfolding Let_def by (intro conjI world) (use result in \<open>simp_all\<close>)
qed

subsection \<open>The rounds of \<open>prepare\<close> end\<close>

lemma persist_entity_fresh [simp]: "ss_fresh (persist_entity E k s) = ss_fresh s"
  by (simp add: persist_entity_def session_track_def register_identity_def identity_put_def uow_track_def set_status_def
      update_tracked_def split: option.split)

lemma prepare_entity_fresh [simp]: "ss_fresh (prepare_entity E k s) = ss_fresh s"
proof -
  have inner: "ss_fresh (fold (\<lambda>t s. if uow_contains s t then s else persist_entity E t s) ts s) = ss_fresh s" for ts s
    by (induction ts arbitrary: s) simp_all
  have "ss_fresh (fold (\<lambda>(i, m) s. if rm_cascade_persist m
         then fold (\<lambda>target s. if uow_contains s target then s else persist_entity E target s)
           (persist_targets E s m (member_at s k i)) s
         else s) ims s) = ss_fresh s" for ims s
    by (induction ims arbitrary: s) (auto simp: inner split: prod.split)
  then show ?thesis by (simp add: prepare_entity_def)
qed

text \<open>The entities visited are different ones below \<open>ss_fresh\<close>, so there are at most that many.\<close>

definition visited_ok :: "key list \<Rightarrow> ('d, 'e) session \<Rightarrow> bool" where
  "visited_ok seen s \<longleftrightarrow> distinct seen \<and> (\<forall>k \<in> set seen. k < ss_fresh s)"

lemma visited_bound: "visited_ok seen s \<Longrightarrow> length seen \<le> ss_fresh s"
  using card_mono [of "{..<ss_fresh s}" "set seen"] by (auto simp: visited_ok_def distinct_card subset_eq)

lemma round_visits:
  "session_ok E s \<Longrightarrow> visited_ok seen s \<Longrightarrow> prepare_round E ks seen s = (seen', s') \<Longrightarrow>
     session_ok E s' \<and> visited_ok seen' s' \<and> ss_fresh s' = ss_fresh s \<and> length seen \<le> length seen'"
proof (induction E ks seen s rule: prepare_round.induct)
  case (2 E k ks seen s)
  show ?case
  proof (cases "k \<in> set seen \<or> \<not> uow_contains s k")
    case False
    have ok: "session_ok E (prepare_entity E k s)"
      using steady_prepare_entity [of E k] "2.prems"(1) by (auto simp: steady_def dest: frame_ok)
    moreover from "2.prems"(1,2) False have "visited_ok (k # seen) (prepare_entity E k s)"
      by (auto simp: visited_ok_def session_ok_def)
    moreover from "2.prems"(3) False have "prepare_round E ks (k # seen) (prepare_entity E k s) = (seen', s')" by simp
    ultimately show ?thesis using "2.IH"(2) [OF False ok] by auto
  qed (use 2 in auto)
qed auto

lemma prepare_rounds_enough:
  "session_ok E s \<Longrightarrow> visited_ok seen s \<Longrightarrow> ss_fresh s - length seen < n \<Longrightarrow>
     prepare_rounds E (n + m) seen s = prepare_rounds E n seen s"
proof (induction n arbitrary: seen s)
  case (Suc n)
  obtain seen' s' where r: "prepare_round E (uow_keys s) seen s = (seen', s')" by fastforce
  note v = round_visits [OF Suc.prems(1,2) r]
  show ?case
  proof (cases "length seen' = length seen")
    case False
    with v have "length seen < length seen'" by simp
    with v visited_bound [of seen' s'] Suc.prems(3) have "ss_fresh s' - length seen' < n" by auto
    with Suc.IH [of s' seen'] v r show ?thesis by simp
  qed (simp add: r)
qed simp

lemma prepare_fuel_enough:
  assumes "session_ok E s"
  shows "prepare_rounds E (Suc (ss_fresh s) + m) [] s = prepare E s"
  unfolding prepare_def by (rule prepare_rounds_enough) (use assms in \<open>simp_all add: visited_ok_def\<close>)

end
