(* ===== verification/Flush_Properties.thy ===== *)
theory Flush_Properties
  imports Session_Frame
begin

section \<open>What a flush leaves behind\<close>

text \<open>
  Without hooks the flush of one entity touches that entity and its entry only, so a loop over the keys
  settles them one after the other. An entity is settled when a flush has nothing to write for it.
\<close>

definition quiet_hooks :: "('d, 'e) session_env \<Rightarrow> bool" where
  "quiet_hooks E \<longleftrightarrow> (\<forall>p k. env_hook E p k = act_return ())"

definition settled :: "('d, 'e) session_env \<Rightarrow> ('d, 'e) session \<Rightarrow> key \<Rightarrow> bool" where
  "settled E s k \<longleftrightarrow> (case alookup (ss_tracked s) k of
       None \<Rightarrow> True
     | Some t \<Rightarrow> te_status t = StDetached \<or> te_status t = StManaged \<and> changed_names t (snapshot E s k) = [])"

text \<open>An entry as \<open>Session::track\<close> makes it, of an entity whose members other than the key hold no NaN.\<close>

definition regular :: "('d, 'e) session_env \<Rightarrow> ('d, 'e) session \<Rightarrow> key \<Rightarrow> bool" where
  "regular E s k \<longleftrightarrow> distinct (List.map fst (et_columns (type_of E s k))) \<and>
     (\<forall>t. alookup (ss_tracked s) k = Some t \<longrightarrow> te_primary_key t = et_primary_key (type_of E s k)) \<and>
     (\<forall>(c, ty) \<in> set (et_columns (type_of E s k)). c \<noteq> et_primary_key (type_of E s k) \<longrightarrow>
        value_eq (key_value s k c) (key_value s k c))"

definition only_touches :: "('d, 'e) session_env \<Rightarrow> key \<Rightarrow> ('d, 'e) session \<Rightarrow> ('d, 'e) session \<Rightarrow> bool" where
  "only_touches E k s s' \<longleftrightarrow>
     (\<forall>j. j \<noteq> k \<longrightarrow> ss_heap s' j = ss_heap s j \<and> alookup (ss_tracked s') j = alookup (ss_tracked s) j) \<and>
     en_type (ss_heap s' k) = en_type (ss_heap s k) \<and>
     (\<forall>c. c \<noteq> et_primary_key (type_of E s k) \<longrightarrow> get_member s' k c = get_member s k c)"

lemma only_touches_refl: "only_touches E k s s"
  by (simp add: only_touches_def)

lemma only_touches_trans: "only_touches E k a b \<Longrightarrow> only_touches E k b c \<Longrightarrow> only_touches E k a c"
  by (simp add: only_touches_def type_of_def)

lemma only_touches_same:
  "ss_heap s' = ss_heap s \<Longrightarrow> (\<And>j. j \<noteq> k \<Longrightarrow> alookup (ss_tracked s') j = alookup (ss_tracked s) j) \<Longrightarrow> only_touches E k s s'"
  by (simp add: only_touches_def get_member_def)

lemma conn_call_touches: "only_touches E k s (snd (conn_call E op s))"
  by (auto simp: conn_call_def intro: only_touches_same split: prod.split)

lemma run_query_touches: "run_query E q s = (r, s') \<Longrightarrow> only_touches E k s s'"
  using conn_call_touches [of E k]
  by (auto simp: run_query_def act_bind_def only_touches_refl split: sum.splits prod.splits)
    (metis snd_conv)+

lemma set_pk_touches: "set_pk E k v s = (r, s') \<Longrightarrow> only_touches E k s s'"
  by (auto simp: set_pk_def assign_member_def only_touches_refl split: sum.splits)
    (auto simp: only_touches_def set_member_def get_member_def)

lemma update_tracked_touches: "only_touches E k s (update_tracked k f s)"
  by (rule only_touches_same) (auto simp: update_tracked_def split: option.split)

lemma register_touches: "only_touches E k s (register_identity E k s)"
  by (rule only_touches_same) (auto simp: register_identity_def identity_put_def)

text \<open>A fresh snapshot has no changes.\<close>

lemma snapshot_settles:
  assumes "regular E s k" and "te_primary_key t = et_primary_key (type_of E s k)" and "te_original t = snapshot E s k"
  shows "changed_names t (snapshot E s k) = []"
proof -
  let ?cols = "et_columns (type_of E s k)"
  from assms(1) have d: "distinct (List.map fst ?cols)" by (simp add: regular_def)
  have "alookup (snapshot E s k) n = Some v \<and> (n \<noteq> et_primary_key (type_of E s k) \<longrightarrow> value_eq v v)"
    if "(n, v) \<in> set (snapshot E s k)" for n v
  proof -
    from that obtain ty where "(n, ty) \<in> set ?cols" "v = to_value (get_member s k n)" by (auto simp: snapshot_def)
    with assms(1) snapshot_lookup [OF d] show ?thesis by (auto simp: regular_def key_value_def)
  qed
  then have "filter (\<lambda>(n, v). n \<noteq> te_primary_key t \<and>
       (case alookup (te_original t) n of None \<Rightarrow> True | Some v' \<Rightarrow> \<not> value_eq v' v)) (snapshot E s k) = []"
    by (auto simp: filter_empty_conv assms(2,3))
  then show ?thesis by (simp add: changed_names_def)
qed

lemma regular_touched:
  assumes "regular E s k" "only_touches E k s s'" "alookup (ss_tracked s') k = Some t'"
    and "alookup (ss_tracked s) k = Some t" "te_primary_key t' = te_primary_key t"
  shows "regular E s' k"
proof -
  have ty: "type_of E s' k = type_of E s k" using assms(2) by (simp add: only_touches_def type_of_def)
  have "key_value s' k c = key_value s k c" if "c \<noteq> et_primary_key (type_of E s k)" for c
    using assms(2) that by (simp add: only_touches_def key_value_def)
  with assms show ?thesis unfolding regular_def ty by (auto split: prod.splits)
qed

lemma snapshot_heap: "ss_heap s' = ss_heap s \<Longrightarrow> snapshot E s' k = snapshot E s k"
  by (simp add: snapshot_def type_of_def get_member_def)

lemma refresh_entry:
  "alookup (ss_tracked s) k = Some t \<Longrightarrow>
     alookup (ss_tracked (refresh_snapshot E k s)) k = Some (t\<lparr>te_original := snapshot E s k\<rparr>)"
  "ss_heap (refresh_snapshot E k s) = ss_heap s"
  by (simp_all add: refresh_snapshot_def update_tracked_def split: option.split)

lemma run_query_tracked: "run_query E q s = (r, s') \<Longrightarrow> ss_tracked s' = ss_tracked s \<and> ss_heap s' = ss_heap s"
  by (auto simp: run_query_def conn_call_def act_bind_def split: sum.splits prod.splits)

lemma set_pk_tracked: "set_pk E k v s = (r, s') \<Longrightarrow> ss_tracked s' = ss_tracked s"
  by (auto simp: set_pk_def assign_member_def split: sum.splits)

text \<open>Taking a new snapshot of a managed entity settles it.\<close>

lemma refresh_settles:
  assumes "regular E s k" and t: "alookup (ss_tracked s) k = Some t" and "te_status t = StManaged"
  shows "settled E (refresh_snapshot E k s) k"
proof -
  have "snapshot E (refresh_snapshot E k s) k = snapshot E s k" by (rule snapshot_heap) (rule refresh_entry(2))
  moreover have "changed_names (t\<lparr>te_original := snapshot E s k\<rparr>) (snapshot E s k) = []"
    using assms(1) t by (intro snapshot_settles) (auto simp: regular_def)
  ultimately show ?thesis using refresh_entry(1) [OF t] assms(3) by (simp add: settled_def)
qed

lemma flush_update_settles:
  assumes quiet: "quiet_hooks E" and reg: "regular E s k" and t: "alookup (ss_tracked s) k = Some t"
    and managed: "te_status t = StManaged" and run: "flush_update E k s = (Inr (), s')"
  shows "settled E s' k \<and> only_touches E k s s' \<and> regular E s' k"
proof (cases "changed_names t (snapshot E s k) = []")
  case True
  with run t managed reg show ?thesis
    by (simp add: flush_update_def with_tracked_def settled_def only_touches_refl)
next
  case False
  with run t quiet obtain r s1 where q: "run_query E (update_statement (env_dialect E) t (snapshot E s k)
      (changed_names t (snapshot E s k)) (get_pk E s k)) s = (Inr r, s1)" "s' = refresh_snapshot E k s1"
    by (auto simp: flush_update_def with_tracked_def quiet_hooks_def act_bind_def act_modify_def Let_def split: sum.splits prod.splits)
  note same = run_query_tracked [OF q(1)]
  have one: "only_touches E k s s1" by (rule run_query_touches [OF q(1)])
  have reg1: "regular E s1 k" using regular_touched [OF reg one _ t refl] same t by simp
  have "settled E s' k" unfolding q(2) by (rule refresh_settles [OF reg1 _ managed]) (simp add: same t)
  moreover have two: "only_touches E k s1 s'" unfolding q(2) refresh_snapshot_def by (rule update_tracked_touches)
  moreover have "regular E s' k"
    by (rule regular_touched [OF reg1 two, of "t\<lparr>te_original := snapshot E s1 k\<rparr>" t])
      (use same t refresh_entry(1) [of s1 k t E] q(2) in auto)
  ultimately show ?thesis using only_touches_trans [OF one] by blast
qed

lemma flush_insert_settles:
  assumes quiet: "quiet_hooks E" and reg: "regular E s k" and t: "alookup (ss_tracked s) k = Some t"
    and run: "flush_insert E k s = (Inr (), s')"
  shows "settled E s' k \<and> only_touches E k s s' \<and> regular E s' k"
proof -
  let ?needs = "te_generated t \<and> is_empty_generated_value (get_pk E s k)"
  from run t quiet obtain r s1 s2 where q: "run_query E (insert_statement (env_dialect E) t ?needs (snapshot E s k)) s = (Inr r, s1)"
    and pk: "(if \<not> ?needs then act_return ()
         else if d_keys (env_dialect E) = Returning
           then act_bind (act_lift (returned_key t r)) (set_pk E k)
           else set_pk E k (VInt (qr_last_id r))) s1 = (Inr (), s2)"
    and s': "s' = register_identity E k (set_status k StManaged (refresh_snapshot E k s2))"
    by (auto simp: flush_insert_def with_tracked_def quiet_hooks_def act_bind_def act_modify_def Let_def
        split: sum.splits prod.splits)
  note same = run_query_tracked [OF q]
  have one: "only_touches E k s s1" by (rule run_query_touches [OF q])
  have two: "only_touches E k s1 s2 \<and> ss_tracked s2 = ss_tracked s1"
    using pk set_pk_touches set_pk_tracked
    by (auto simp: only_touches_refl act_bind_def split: if_splits sum.splits) blast+
  have t2: "alookup (ss_tracked s2) k = Some t" using two same t by simp
  have reg2: "regular E s2 k"
    by (rule regular_touched [OF reg only_touches_trans [OF one conjunct1 [OF two]] t2 t refl])
  let ?s3 = "refresh_snapshot E k s2"
  let ?t4 = "t\<lparr>te_original := snapshot E s2 k, te_status := StManaged\<rparr>"
  have t4: "alookup (ss_tracked s') k = Some ?t4"
    using refresh_entry(1) [OF t2, of E]
    by (simp add: s' set_status_def update_tracked_def register_identity_def identity_put_def)
  have heap: "ss_heap s' = ss_heap s2"
    by (simp add: s' set_status_def register_identity_def identity_put_def refresh_entry(2))
  have "changed_names ?t4 (snapshot E s2 k) = []" using reg2 t2 by (intro snapshot_settles) (auto simp: regular_def)
  then have "settled E s' k" using t4 snapshot_heap [OF heap] by (simp add: settled_def)
  moreover have touch: "only_touches E k s2 s'"
    unfolding s' refresh_snapshot_def set_status_def
    by (rule only_touches_trans [OF only_touches_trans [OF update_tracked_touches update_tracked_touches] register_touches])
  moreover have "regular E s' k" by (rule regular_touched [OF reg2 touch t4 t2]) simp
  ultimately show ?thesis using only_touches_trans [OF one] only_touches_trans [OF conjunct1 [OF two]] by blast
qed

lemma flush_delete_settles:
  assumes quiet: "quiet_hooks E" and t: "alookup (ss_tracked s) k = Some t"
    and run: "flush_delete E k s = (Inr (), s')"
  shows "settled E s' k \<and> only_touches E k s s' \<and> \<not> uow_contains s' k"
proof -
  let ?pk = "get_pk E s k"
  from run t quiet obtain r s1 where q: "run_query E (delete_statement (env_dialect E) t ?pk) s = (Inr r, s1)"
    and s': "s' = uow_erase k (set_status k StDetached (identity_erase E (en_type (ss_heap s1 k)) ?pk s1))"
    by (auto simp: flush_delete_def with_tracked_def quiet_hooks_def act_bind_def act_modify_def Let_def
        split: sum.splits prod.splits)
  have gone: "alookup (ss_tracked s') k = None" by (simp add: s' uow_erase_def)
  have "alookup (ss_tracked s') j = alookup (ss_tracked s1) j" if "j \<noteq> k" for j
    using that by (simp add: s' uow_erase_def set_status_def update_tracked_def identity_erase_def split: option.split)
  moreover have "ss_heap s' = ss_heap s1"
    by (simp add: s' uow_erase_def set_status_def identity_erase_def)
  ultimately have "only_touches E k s1 s'" by (intro only_touches_same)
  with gone only_touches_trans [OF run_query_touches [OF q]] show ?thesis by (simp add: settled_def uow_contains_def)
qed

lemma flush_entity_settles:
  assumes quiet: "quiet_hooks E" and reg: "uow_contains s k \<longrightarrow> regular E s k"
    and run: "(if uow_contains s k then flush_entity E k s else (Inr (), s)) = (Inr (), s')"
  shows "settled E s' k \<and> only_touches E k s s' \<and> (uow_contains s' k \<longrightarrow> regular E s' k)"
proof (cases "alookup (ss_tracked s) k")
  case None
  with run show ?thesis by (auto simp: uow_contains_def settled_def only_touches_refl)
next
  case (Some t)
  with run reg have run': "flush_entity E k s = (Inr (), s')" and reg': "regular E s k" by (simp_all add: uow_contains_def)
  show ?thesis
  proof (cases "te_status t")
    case StNew
    with run' Some flush_insert_settles [OF quiet reg' Some] show ?thesis by (simp add: flush_entity_def with_tracked_def)
  next
    case StManaged
    with run' Some flush_update_settles [OF quiet reg' Some] show ?thesis by (simp add: flush_entity_def with_tracked_def)
  next
    case StRemoved
    with run' Some flush_delete_settles [OF quiet Some] show ?thesis by (simp add: flush_entity_def with_tracked_def)
  next
    case StDetached
    with run' Some reg' show ?thesis by (auto simp: flush_entity_def with_tracked_def settled_def only_touches_refl)
  qed
qed

lemma touch_other:
  assumes "only_touches E k s s'" "j \<noteq> k"
  shows "settled E s' j = settled E s j" "uow_contains s' j = uow_contains s j" "regular E s' j = regular E s j"
proof -
  have same: "ss_heap s' j = ss_heap s j" "alookup (ss_tracked s') j = alookup (ss_tracked s) j"
    using assms by (simp_all add: only_touches_def)
  then have "snapshot E s' j = snapshot E s j" by (simp add: snapshot_def type_of_def get_member_def)
  with same show "settled E s' j = settled E s j" "uow_contains s' j = uow_contains s j" "regular E s' j = regular E s j"
    by (simp_all add: settled_def uow_contains_def regular_def type_of_def key_value_def get_member_def split: option.split)
qed

lemma flush_keys_settle:
  assumes "quiet_hooks E" and "distinct ks" and "\<forall>k. uow_contains s k \<longrightarrow> regular E s k"
    and "act_iter (\<lambda>k s. if uow_contains s k then flush_entity E k s else (Inr (), s)) ks s = (Inr (), s')"
  shows "(\<forall>k \<in> set ks. settled E s' k) \<and> (\<forall>k. k \<notin> set ks \<longrightarrow> settled E s' k = settled E s k)"
  using assms(2-4)
proof (induction ks arbitrary: s)
  case (Cons k ks)
  from Cons.prems(3) obtain s1 where one: "(if uow_contains s k then flush_entity E k s else (Inr (), s)) = (Inr (), s1)"
    and rest: "act_iter (\<lambda>k s. if uow_contains s k then flush_entity E k s else (Inr (), s)) ks s1 = (Inr (), s')"
    by (auto simp: act_bind_Inr)
  have k: "settled E s1 k" "only_touches E k s s1" "uow_contains s1 k \<longrightarrow> regular E s1 k"
    using flush_entity_settles [OF assms(1) _ one] Cons.prems(2) by blast+
  have "\<forall>j. uow_contains s1 j \<longrightarrow> regular E s1 j"
    using k touch_other(2,3) [OF k(2)] Cons.prems(2) by (metis (full_types))
  with Cons.IH [OF _ _ rest] Cons.prems(1)
  have "(\<forall>j \<in> set ks. settled E s' j) \<and> (\<forall>j. j \<notin> set ks \<longrightarrow> settled E s' j = settled E s1 j)" by simp
  moreover have "settled E s1 j = settled E s j" if "j \<noteq> k" for j by (rule touch_other(1) [OF k(2) that])
  ultimately show ?case using k(1) Cons.prems(1) by auto
qed simp

lemma settled_flush: "settled E s k \<Longrightarrow> uow_contains s k \<Longrightarrow> flush_entity E k s = (Inr (), s)"
  by (auto simp: settled_def uow_contains_def flush_entity_def with_tracked_def flush_update_def Let_def)

lemma settled_loop:
  "(\<forall>k. settled E s k) \<Longrightarrow>
     act_iter (\<lambda>k s. if uow_contains s k then flush_entity E k s else (Inr (), s)) ks s = (Inr (), s)"
  by (induction ks) (auto simp: act_bind_def settled_flush)

text \<open>
  C5. A flush that succeeds leaves nothing to write: every entity is settled (managed with no changed column, or
  no longer tracked), whether it was new, changed or removed before, so a second flush sends no statement
  and changes nothing. This is with hooks that do nothing, for entities tracked as \<open>Session::track\<close> tracks
  them and whose members hold no NaN (a NaN differs from itself, so its column is written by every flush).
\<close>

theorem flush_settles:
  assumes "session_ok E s" and "quiet_hooks E" and "\<forall>k. uow_contains s k \<longrightarrow> regular E s k"
    and "uow_flush E s = (Inr (), s')"
  shows "(\<forall>k. settled E s' k) \<and> uow_flush E s' = (Inr (), s')"
proof -
  have keys: "set (uow_keys s) = {k. uow_contains s k}" "distinct (uow_keys s)"
    using assms(1) by (auto simp: uow_keys_def session_ok_def)
  have "settled E s k" if "k \<notin> set (uow_keys s)" for k
    using that keys(1) by (simp add: settled_def uow_contains_def)
  with flush_keys_settle [OF assms(2) keys(2) assms(3)] assms(4) have "\<forall>k. settled E s' k"
    unfolding uow_flush_def for_keys_def by blast
  moreover from settled_loop [OF this] have "uow_flush E s' = (Inr (), s')" by (simp add: uow_flush_def for_keys_def)
  ultimately show ?thesis by blast
qed

text \<open>A Session with a new, a changed and a removed user.\<close>

definition flush_types :: "type_index \<Rightarrow> entity_type" where
  "flush_types ty = \<lparr>et_table = ''users'', et_primary_key = ''id'', et_generated = True,
     et_columns = [(''id'', TInt True 64), (''name'', TString)], et_relations = [], et_queues = 0\<rparr>"

definition flush_env :: "(conn_op list, nat) session_env" where
  "flush_env = \<lparr>env_fp = sample_fp, env_dialect = sqlite_dialect, env_types = flush_types,
     env_transactions = True, env_savepoints = True,
     env_conn = (\<lambda>op log. (Inr \<lparr>qr_rows = [], qr_affected = 1, qr_last_id = 9\<rparr>, log @ [op])),
     env_hook = (\<lambda>p k. act_return ()), env_interceptors = [], env_handlers = (\<lambda>e. [])\<rparr>"

definition flush_user :: "int \<Rightarrow> string \<Rightarrow> nat entity" where
  "flush_user i n = \<lparr>en_type = 0, en_columns = [(''id'', CInt i), (''name'', CString n)], en_relations = [], en_queues = []\<rparr>"

definition flush_entry :: "entity_status \<Rightarrow> row \<Rightarrow> tracked" where
  "flush_entry st r = \<lparr>te_status = st, te_table = ''users'', te_primary_key = ''id'', te_generated = True, te_original = r\<rparr>"

definition flush_session :: "(conn_op list, nat) session" where
  "flush_session = \<lparr>ss_heap = (\<lambda>k. if k = 0 then flush_user 0 ''new'' else if k = 1 then flush_user 5 ''eve'' else flush_user 6 ''bob''),
     ss_fresh = 3, ss_held = (\<lambda>k. False),
     ss_tracked = [(0, flush_entry StNew []), (1, flush_entry StManaged [(''id'', VInt 5), (''name'', VString ''ada'')]),
       (2, flush_entry StRemoved [(''id'', VInt 6), (''name'', VString ''bob'')])],
     ss_order = [0, 1, 2], ss_checkpoints = [], ss_identity = [], ss_depth = 0, ss_savepoints = 0,
     ss_rollback_only = False, ss_world = []\<rparr>"

lemma flush_session_ok: "session_ok flush_env flush_session"
proof -
  have "entity_typed flush_env flush_session k" for k
    by (simp add: entity_typed_def type_of_def flush_env_def flush_session_def flush_types_def members_below_def get_member_def
        alookup_def flush_user_def)
  then show ?thesis by (auto simp: session_ok_def flush_session_def uow_contains_def alookup_def split: if_splits)
qed

theorem flush_settles_witness:
  "\<exists>s'. uow_flush flush_env flush_session = (Inr (), s') \<and> uow_flush flush_env s' = (Inr (), s') \<and>
     ss_world s' = [OExecute ''INSERT INTO \"users\" (\"name\") VALUES (?);'' [VString ''new''],
       OExecute ''UPDATE \"users\" SET \"name\" = ? WHERE \"id\" = ?;'' [VString ''eve'', VInt 5],
       OExecute ''DELETE FROM \"users\" WHERE \"id\" = ?;'' [VInt 6]] \<and>
     get_pk flush_env s' 0 = VInt 9 \<and> uow_keys s' = [0, 1]"
proof -
  let ?run = "uow_flush flush_env flush_session"
  have ok: "fst ?run = Inr ()" by code_simp
  have run: "?run = (Inr (), snd ?run)" by (subst ok [symmetric]) simp
  have facts: "ss_world (snd ?run) = [OExecute ''INSERT INTO \"users\" (\"name\") VALUES (?);'' [VString ''new''],
       OExecute ''UPDATE \"users\" SET \"name\" = ? WHERE \"id\" = ?;'' [VString ''eve'', VInt 5],
       OExecute ''DELETE FROM \"users\" WHERE \"id\" = ?;'' [VInt 6]]"
    "get_pk flush_env (snd ?run) 0 = VInt 9" "uow_keys (snd ?run) = [0, 1]" by code_simp+
  have "quiet_hooks flush_env" by (simp add: quiet_hooks_def flush_env_def)
  moreover have "\<forall>k. uow_contains flush_session k \<longrightarrow> regular flush_env flush_session k"
    by (auto simp: regular_def flush_session_def flush_env_def flush_types_def type_of_def flush_entry_def flush_user_def
        key_value_def get_member_def alookup_def split: if_splits)
  ultimately have "uow_flush flush_env (snd ?run) = (Inr (), snd ?run)"
    using flush_settles [OF flush_session_ok _ _ run] by blast
  with run facts show ?thesis by blast
qed

end
