(* ===== verification/Relation_Loading.thy ===== *)
theory Relation_Loading
  imports Session
begin

section \<open>Loading entities and their relations (include/metal/orm.hpp)\<close>

text \<open>
  \<open>hydrate\<close> makes the entity of a row, or finds the one the identity map has. The batch loaders build
  one SELECT for all roots, and give every root the targets of the rows with its key.
\<close>

subsection \<open>Hydration\<close>

text \<open>A default-constructed member (\<open>std::make_shared<T>()\<close> initialises values).\<close>

fun default_member :: "cpp_type \<Rightarrow> cpp_value" where
  "default_member TString = CString []"
| "default_member TBlob = CBlob []"
| "default_member TBool = CBool False"
| "default_member (TInt sg w) = CInt 0"
| "default_member (TFloat dbl) = CFloat 0"
| "default_member (TOpt t) = CNone"

definition default_relation :: "relation_meta \<Rightarrow> relation_member" where
  "default_relation m = (case rm_kind m of
       HasMany \<Rightarrow> MMany empty_collection
     | MorphMany \<Rightarrow> MMany empty_collection
     | ManyToMany \<Rightarrow> MPivot \<lparr>co_loaded = False, co_items = [], co_baseline = [], pc_pivots = [], pc_patches = []\<rparr>
     | _ \<Rightarrow> MRef empty_reference)"

definition make_shared :: "('d, 'e) session_env \<Rightarrow> type_index \<Rightarrow> ('d, 'e, key) session_action" where
  "make_shared E ty s =
     (let k = ss_fresh s; t = env_types E ty in
      (Inr k, (put_entity k \<lparr>en_type = ty, en_columns = List.map (\<lambda>(c, ct). (c, default_member ct)) (et_columns t),
         en_relations = List.map default_relation (et_relations t), en_queues = replicate (et_queues t) []\<rparr> s)\<lparr>ss_fresh := Suc k\<rparr>))"

definition hydrate_members :: "('d, 'e) session_env \<Rightarrow> type_index \<Rightarrow> row \<Rightarrow> key \<Rightarrow> ('d, 'e, unit) session_action" where
  "hydrate_members E ty row k =
     act_iter (\<lambda>(c, t). case alookup row c of None \<Rightarrow> act_return () | Some v \<Rightarrow> assign_member E k c v)
       (et_columns (env_types E ty))"

definition hydrate :: "('d, 'e) session_env \<Rightarrow> type_index \<Rightarrow> row \<Rightarrow> ('d, 'e, key) session_action" where
  "hydrate E ty row s =
     (case Option.bind (alookup row (et_primary_key (env_types E ty))) (\<lambda>pk. identity_get E ty pk s) of
        Some k \<Rightarrow> (Inr k, s)
      | None \<Rightarrow>
          act_bind (make_shared E ty) (\<lambda>k.
          act_bind (hydrate_members E ty row k) (\<lambda>_.
          act_bind (act_modify (session_track E k StManaged)) (\<lambda>_. act_return k))) s)"

subsection \<open>The statements of the loaders\<close>

definition target_columns :: "dialect \<Rightarrow> entity_type \<Rightarrow> string \<Rightarrow> string" where
  "target_columns d t alias = join '', '' (List.map (\<lambda>(c, ct). alias @ ''.'' @ d_quote d c) (et_columns t))"

definition pivot_prefix :: string where
  "pivot_prefix = ''__metal_pivot_''"

definition pivot_columns :: "dialect \<Rightarrow> string list \<Rightarrow> string \<Rightarrow> string" where
  "pivot_columns d cs alias =
     concat (List.map (\<lambda>c. '', '' @ alias @ ''.'' @ d_quote d c @ '' AS '' @ d_quote d (pivot_prefix @ c)) cs)"

definition in_placeholders :: "dialect \<Rightarrow> nat \<Rightarrow> string result" where
  "in_placeholders d n = rbind (rmap_list (d_placeholder d) [1..<Suc n]) (\<lambda>ps. Inr (join '', '' ps))"

definition root_key_column :: string where
  "root_key_column = ''__metal_root_key''"

text \<open>\<open>SELECT\<close> the targets whose column \<open>c\<close> is among \<open>n\<close> keys, with that column as the root key.\<close>

definition children_sql :: "dialect \<Rightarrow> entity_type \<Rightarrow> string \<Rightarrow> nat \<Rightarrow> string \<Rightarrow> string result" where
  "children_sql d t c n tail = rbind (in_placeholders d n) (\<lambda>ps.
     Inr (''SELECT '' @ target_columns d t ''t'' @ '', t.'' @ d_quote d c @ '' AS '' @ quote_ansi_identifier root_key_column @
       '' FROM '' @ d_quote d (et_table t) @ '' t WHERE t.'' @ d_quote d c @ '' IN ('' @ ps @ '')'' @ tail))"

definition targets_sql :: "dialect \<Rightarrow> entity_type \<Rightarrow> string \<Rightarrow> nat \<Rightarrow> string result" where
  "targets_sql d t c n = rbind (in_placeholders d n) (\<lambda>ps.
     Inr (''SELECT '' @ target_columns d t ''t'' @ '' FROM '' @ d_quote d (et_table t) @ '' t WHERE t.'' @ d_quote d c @
       '' IN ('' @ ps @ '');''))"

definition pivot_sql :: "dialect \<Rightarrow> relation_meta \<Rightarrow> entity_type \<Rightarrow> nat \<Rightarrow> string result" where
  "pivot_sql d m t n = rbind (in_placeholders d n) (\<lambda>ps.
     Inr (''SELECT '' @ target_columns d t ''t'' @ pivot_columns d (List.map fst (rm_pivot_defaults m)) ''p'' @
       '', p.'' @ d_quote d (rm_pivot_root m) @ '' AS '' @ quote_ansi_identifier root_key_column @
       '' FROM '' @ d_quote d (et_table t) @ '' t JOIN '' @ d_quote d (rm_pivot m) @ '' p ON p.'' @ d_quote d (rm_pivot_target m) @
       '' = t.'' @ d_quote d (rm_target_key m) @ '' WHERE p.'' @ d_quote d (rm_pivot_root m) @ '' IN ('' @ ps @ '');''))"

definition morph_tail :: "relation_meta \<Rightarrow> dialect \<Rightarrow> string" where
  "morph_tail m d = '' AND t.'' @ d_quote d (rm_type_field m) @ '' = ?;''"

definition run_sql :: "('d, 'e) session_env \<Rightarrow> string result \<Rightarrow> dbvalue list \<Rightarrow> ('d, 'e, query_result) session_action" where
  "run_sql E sql params = act_bind (act_lift sql) (\<lambda>sql. conn_call E (OExecute sql params))"

subsection \<open>Distribution of rows\<close>

text \<open>
  \<open>roots_by_key\<close> maps the key of a root to the last root that has it; \<open>loaded\<close> maps a root to what it
  gets. The final loop moves \<open>loaded[root]\<close> into the member, which leaves an empty vector (or a null pointer)
  behind: a root that occurs twice gets it again.
\<close>

definition index_roots :: "('d, 'e) session_env \<Rightarrow> ('d, 'e) session \<Rightarrow> string \<Rightarrow> key list \<Rightarrow> (string, key) amap" where
  "index_roots E s c roots = fold (\<lambda>r m. aput (value_key (env_fp E) (key_value s r c)) r m) roots []"

definition root_of :: "('d, 'e) session_env \<Rightarrow> (string, key) amap \<Rightarrow> row \<Rightarrow> key option" where
  "root_of E index row =
     Option.bind (alookup row root_key_column) (\<lambda>v. alookup index (value_key (env_fp E) v))"

fun collect_rows ::
  "('d, 'e) session_env \<Rightarrow> type_index \<Rightarrow> (string, key) amap \<Rightarrow> row list \<Rightarrow> ('d, 'e, (key \<times> key \<times> row) list) session_action" where
  "collect_rows E ty index [] = act_return []"
| "collect_rows E ty index (row # rows) =
     (case root_of E index row of
        None \<Rightarrow> collect_rows E ty index rows
      | Some r \<Rightarrow> act_bind (hydrate E ty row) (\<lambda>k. act_bind (collect_rows E ty index rows) (\<lambda>rest. act_return ((r, k, row) # rest))))"

definition targets_of :: "key \<Rightarrow> (key \<times> key \<times> row) list \<Rightarrow> key list" where
  "targets_of r found = List.map (\<lambda>(_, k, _). k) (filter (\<lambda>f. fst f = r) found)"

definition set_relation :: "key \<Rightarrow> nat \<Rightarrow> relation_member \<Rightarrow> ('d, 'e) session \<Rightarrow> ('d, 'e) session" where
  "set_relation k i r s = put_entity k ((ss_heap s k)\<lparr>en_relations := (en_relations (ss_heap s k))[i := r]\<rparr>) s"

text \<open>\<open>(*root).[:Relation:]._metal_hydrate(std::move(loaded[root.get()]))\<close> for every root; \<open>seen\<close> are the
  roots already served.\<close>

fun hand_out :: "(key \<Rightarrow> bool \<Rightarrow> relation_member) \<Rightarrow> nat \<Rightarrow> key list \<Rightarrow> key list \<Rightarrow> ('d, 'e) session \<Rightarrow> ('d, 'e) session" where
  "hand_out f i seen [] s = s"
| "hand_out f i seen (r # rs) s = hand_out f i (r # seen) rs (set_relation r i (f r (r \<in> set seen)) s)"

definition root_keys :: "('d, 'e) session \<Rightarrow> string \<Rightarrow> key list \<Rightarrow> dbvalue list" where
  "root_keys s c roots = List.map (\<lambda>r. key_value s r c) roots"

subsection \<open>The batch loaders\<close>

definition load_has_many :: "('d, 'e) session_env \<Rightarrow> relation_meta \<Rightarrow> nat \<Rightarrow> key list \<Rightarrow> ('d, 'e, unit) session_action" where
  "load_has_many E m i roots s =
     (if roots = [] then (Inr (), s)
      else let keys = root_keys s (rm_local_key m) roots; index = index_roots E s (rm_local_key m) roots in
        act_bind (run_sql E (children_sql (env_dialect E) (env_types E (rm_target m)) (rm_foreign_key m) (length keys) '';'') keys) (\<lambda>r.
        act_bind (collect_rows E (rm_target m) index (qr_rows r)) (\<lambda>found.
        act_modify (hand_out (\<lambda>r again. MMany (co_hydrate (if again then [] else targets_of r found) empty_collection)) i [] roots))) s)"

text \<open>The last row wins.\<close>

definition last_target :: "key \<Rightarrow> (key \<times> key \<times> row) list \<Rightarrow> key option" where
  "last_target r found = (case targets_of r found of [] \<Rightarrow> None | ks \<Rightarrow> Some (List.last ks))"

definition load_has_one :: "('d, 'e) session_env \<Rightarrow> relation_meta \<Rightarrow> nat \<Rightarrow> key list \<Rightarrow> ('d, 'e, unit) session_action" where
  "load_has_one E m i roots s =
     (if roots = [] then (Inr (), s)
      else let keys = root_keys s (rm_local_key m) roots; index = index_roots E s (rm_local_key m) roots in
        act_bind (run_sql E (children_sql (env_dialect E) (env_types E (rm_target m)) (rm_foreign_key m) (length keys) '';'') keys) (\<lambda>r.
        act_bind (collect_rows E (rm_target m) index (qr_rows r)) (\<lambda>found.
        act_modify (hand_out (\<lambda>r again. MRef (rf_hydrate (if again then None else last_target r found) empty_reference)) i [] roots))) s)"

fun index_targets :: "('d, 'e) session_env \<Rightarrow> relation_meta \<Rightarrow> row list \<Rightarrow> (string, key) amap \<Rightarrow> ('d, 'e, (string, key) amap) session_action" where
  "index_targets E m [] acc = act_return acc"
| "index_targets E m (row # rows) acc = act_bind (hydrate E (rm_target m) row) (\<lambda>k s.
     index_targets E m rows (aput (value_key (env_fp E) (key_value s k (rm_target_key m))) k acc) s)"

definition load_belongs_to :: "('d, 'e) session_env \<Rightarrow> relation_meta \<Rightarrow> nat \<Rightarrow> key list \<Rightarrow> ('d, 'e, unit) session_action" where
  "load_belongs_to E m i roots s =
     (if roots = [] then (Inr (), s)
      else let keys = filter (\<lambda>v. v \<noteq> VNull) (root_keys s (rm_foreign_key m) roots) in
        act_bind (if keys = [] then act_return []
          else act_bind (run_sql E (targets_sql (env_dialect E) (env_types E (rm_target m)) (rm_target_key m) (length keys)) keys) (\<lambda>r.
            index_targets E m (qr_rows r) [])) (\<lambda>targets.
        act_modify (\<lambda>s. hand_out (\<lambda>r again. MRef (rf_hydrate
            (let raw = key_value s r (rm_foreign_key m) in
             if raw = VNull then None else alookup targets (value_key (env_fp E) raw)) empty_reference)) i [] roots s)) s)"

definition pivot_row :: "relation_meta \<Rightarrow> row \<Rightarrow> patch" where
  "pivot_row m row = List.map (\<lambda>(c, v). (c, case alookup row (pivot_prefix @ c) of None \<Rightarrow> v | Some w \<Rightarrow> w)) (rm_pivot_defaults m)"

definition load_many_to_many :: "('d, 'e) session_env \<Rightarrow> relation_meta \<Rightarrow> nat \<Rightarrow> key list \<Rightarrow> ('d, 'e, unit) session_action" where
  "load_many_to_many E m i roots s =
     (if roots = [] then (Inr (), s)
      else let keys = root_keys s (rm_local_key m) roots; index = index_roots E s (rm_local_key m) roots in
        act_bind (run_sql E (pivot_sql (env_dialect E) m (env_types E (rm_target m)) (length keys)) keys) (\<lambda>r.
        act_bind (collect_rows E (rm_target m) index (qr_rows r)) (\<lambda>found.
        act_modify (\<lambda>s. hand_out (\<lambda>r again. MPivot (pc_hydrate (bound E s m)
            (if again then [] else List.map (\<lambda>(_, k, row). (k, Some (pivot_row m row))) (filter (\<lambda>f. fst f = r) found)))) i [] roots s))) s)"

definition load_morph_one :: "('d, 'e) session_env \<Rightarrow> relation_meta \<Rightarrow> nat \<Rightarrow> key list \<Rightarrow> ('d, 'e, unit) session_action" where
  "load_morph_one E m i roots s =
     (if roots = [] then (Inr (), s)
      else let keys = root_keys s (rm_local_key m) roots; index = index_roots E s (rm_local_key m) roots in
        act_bind (run_sql E (children_sql (env_dialect E) (env_types E (rm_target m)) (rm_id_field m) (length keys)
          (morph_tail m (env_dialect E))) (keys @ [VString (rm_type_value m)])) (\<lambda>r.
        act_bind (collect_rows E (rm_target m) index (qr_rows r)) (\<lambda>found.
        act_modify (hand_out (\<lambda>r again. MRef (rf_hydrate (if again then None else last_target r found) empty_reference)) i [] roots))) s)"

definition load_morph_many :: "('d, 'e) session_env \<Rightarrow> relation_meta \<Rightarrow> nat \<Rightarrow> key list \<Rightarrow> ('d, 'e, unit) session_action" where
  "load_morph_many E m i roots s =
     (if roots = [] then (Inr (), s)
      else let keys = root_keys s (rm_local_key m) roots; index = index_roots E s (rm_local_key m) roots in
        act_bind (run_sql E (children_sql (env_dialect E) (env_types E (rm_target m)) (rm_id_field m) (length keys)
          (morph_tail m (env_dialect E))) (keys @ [VString (rm_type_value m)])) (\<lambda>r.
        act_bind (collect_rows E (rm_target m) index (qr_rows r)) (\<lambda>found.
        act_modify (hand_out (\<lambda>r again. MMany (co_hydrate (if again then [] else targets_of r found) empty_collection)) i [] roots))) s)"

text \<open>
  \<open>load_morph_to_batch\<close>: one query for every declared target type with roots of it. The type field is a
  string; \<open>morph_roots\<close> are the roots that name the type, by the key of their id field.
\<close>

fun morph_roots :: "('d, 'e) session_env \<Rightarrow> ('d, 'e) session \<Rightarrow> relation_meta \<Rightarrow> string \<Rightarrow> key list \<Rightarrow> (dbvalue \<times> key) list result" where
  "morph_roots E s m ty [] = Inr []"
| "morph_roots E s m ty (r # rs) =
     (if key_value s r (rm_type_field m) = VNull \<or> key_value s r (rm_id_field m) = VNull then morph_roots E s m ty rs
      else rbind (from_value (env_fp E) TString (key_value s r (rm_type_field m))) (\<lambda>x.
        if x \<noteq> CString ty then morph_roots E s m ty rs
        else rbind (morph_roots E s m ty rs) (\<lambda>rest. Inr ((key_value s r (rm_id_field m), r) # rest))))"

definition distinct_keys :: "('d, 'e) session_env \<Rightarrow> (dbvalue \<times> key) list \<Rightarrow> dbvalue list" where
  "distinct_keys E vs = fold (\<lambda>(v, _) acc.
     if value_key (env_fp E) v \<in> value_key (env_fp E) ` set acc then acc else acc @ [v]) vs []"

fun match_targets ::
  "('d, 'e) session_env \<Rightarrow> type_index \<Rightarrow> string \<Rightarrow> (dbvalue \<times> key) list \<Rightarrow> row list \<Rightarrow> (key, key) amap \<Rightarrow>
   ('d, 'e, (key, key) amap) session_action" where
  "match_targets E ty c wanted [] loaded = act_return loaded"
| "match_targets E ty c wanted (row # rows) loaded = act_bind (hydrate E ty row) (\<lambda>k s.
     match_targets E ty c wanted rows
       (fold (\<lambda>(v, r) m. if value_key (env_fp E) v = value_key (env_fp E) (key_value s k c) then aput r k m else m) wanted loaded) s)"

definition load_case ::
  "('d, 'e) session_env \<Rightarrow> relation_meta \<Rightarrow> key list \<Rightarrow> type_index \<times> string \<times> string \<Rightarrow> (key, key) amap \<Rightarrow>
   ('d, 'e, (key, key) amap) session_action" where
  "load_case E m roots = (\<lambda>(ty, c, name) loaded s.
     act_bind (act_lift (morph_roots E s m name roots)) (\<lambda>wanted.
       let keys = distinct_keys E wanted in
       if keys = [] then act_return loaded
       else act_bind (run_sql E (targets_sql (env_dialect E) (env_types E ty) c (length keys)) keys) (\<lambda>r.
         match_targets E ty c wanted (qr_rows r) loaded)) s)"

fun load_cases ::
  "('d, 'e) session_env \<Rightarrow> relation_meta \<Rightarrow> key list \<Rightarrow> (type_index \<times> string \<times> string) list \<Rightarrow> (key, key) amap \<Rightarrow>
   ('d, 'e, (key, key) amap) session_action" where
  "load_cases E m roots [] loaded = act_return loaded"
| "load_cases E m roots (c # cs) loaded = act_bind (load_case E m roots c loaded) (load_cases E m roots cs)"

definition load_morph_to :: "('d, 'e) session_env \<Rightarrow> relation_meta \<Rightarrow> nat \<Rightarrow> key list \<Rightarrow> ('d, 'e, unit) session_action" where
  "load_morph_to E m i roots s =
     (if roots = [] then (Inr (), s)
      else act_bind (load_cases E m roots (rm_cases m) []) (\<lambda>loaded.
        act_modify (hand_out (\<lambda>r again. MRef (rf_hydrate (if again then None else alookup loaded r) empty_reference)) i [] roots)) s)"

definition load_relation :: "('d, 'e) session_env \<Rightarrow> relation_meta \<Rightarrow> nat \<Rightarrow> key list \<Rightarrow> ('d, 'e, unit) session_action" where
  "load_relation E m i roots =
     (case rm_kind m of
        BelongsTo \<Rightarrow> load_belongs_to E m i roots
      | HasOne \<Rightarrow> load_has_one E m i roots
      | HasMany \<Rightarrow> load_has_many E m i roots
      | ManyToMany \<Rightarrow> load_many_to_many E m i roots
      | MorphOne \<Rightarrow> load_morph_one E m i roots
      | MorphMany \<Rightarrow> load_morph_many E m i roots
      | MorphTo \<Rightarrow> load_morph_to E m i roots)"

text \<open>A root that occurs twice in the batch is handed its targets first and an empty relation after.\<close>

lemma repeated_root_is_emptied:
  "hand_out f i [] [r, r] s = set_relation r i (f r True) (set_relation r i (f r False) s)"
  by simp

text \<open>
  The polymorphic loaders write the placeholder of the type value as \<open>?\<close> for every dialect: on PostgreSQL
  the statement has \<open>$1\<close> for the key and a \<open>?\<close> no driver binds.
\<close>

lemma morph_loader_mixes_placeholders:
  "children_sql postgres_dialect \<lparr>et_table = ''img'', et_primary_key = ''id'', et_generated = True,
       et_columns = [(''id'', TInt True 64)], et_relations = [], et_queues = 0\<rparr> ''owner_id'' 1
       (morph_tail \<lparr>rm_kind = MorphMany, rm_target = 1, rm_local_key = ''id'', rm_foreign_key = [], rm_target_key = [],
         rm_pivot = [], rm_pivot_root = [], rm_pivot_target = [], rm_pivot_defaults = [], rm_type_field = ''owner_type'',
         rm_id_field = ''owner_id'', rm_type_value = ''post'', rm_cases = [], rm_cascade_persist = False,
         rm_cascade_remove = False\<rparr> postgres_dialect) =
   Inr (''SELECT t.\"id\", t.\"owner_id\" AS \"__metal_root_key\" FROM \"img\" t WHERE t.\"owner_id\" IN ($1)'' @
     '' AND t.\"owner_type\" = ?;'')"
  by code_simp

end
