(* ===== verification/Relation_Members.thy ===== *)
theory Relation_Members
  imports Relation_Loading
begin

section \<open>Relation members bound to a Session (include/metal/orm.hpp, collection.hpp, reference.hpp, polymorphic.hpp)\<close>

text \<open>
  The operations user code calls on a relation member of a tracked entity: the state of the member and
  the hooks \<open>bind_relation_collections\<close> bound to it, which keep the key columns in step. The entity is
  \<open>k\<close>, the member the \<open>i\<close>-th relation of its type.
\<close>

definition relation_at :: "('d, 'e) session_env \<Rightarrow> ('d, 'e) session \<Rightarrow> key \<Rightarrow> nat \<Rightarrow> relation_meta" where
  "relation_at E s k i = et_relations (type_of E s k) ! i"

definition member_loaded :: "relation_member \<Rightarrow> bool" where
  "member_loaded r = (case r of MRef x \<Rightarrow> rf_loaded x | MMany c \<Rightarrow> co_loaded c | MPivot c \<Rightarrow> co_loaded c)"

definition load_member :: "('d, 'e) session_env \<Rightarrow> key \<Rightarrow> nat \<Rightarrow> ('d, 'e, unit) session_action" where
  "load_member E k i s =
     (if member_loaded (member_at s k i) then (Inr (), s) else load_relation E (relation_at E s k i) i [k] s)"

definition as_many :: "relation_member \<Rightarrow> collection" where
  "as_many r = (case r of MMany c \<Rightarrow> c | _ \<Rightarrow> empty_collection)"

definition as_reference :: "relation_member \<Rightarrow> reference" where
  "as_reference r = (case r of MRef x \<Rightarrow> x | _ \<Rightarrow> empty_reference)"

definition empty_pivots :: pivot_collection where
  "empty_pivots = \<lparr>co_loaded = False, co_items = [], co_baseline = [], pc_pivots = [], pc_patches = []\<rparr>"

definition as_pivots :: "relation_member \<Rightarrow> pivot_collection" where
  "as_pivots r = (case r of MPivot c \<Rightarrow> c | _ \<Rightarrow> empty_pivots)"

subsection \<open>Attach hooks\<close>

definition null_entity :: exn where
  "null_entity = Invalid_argument ''MetalORM: cannot attach a null entity''"

text \<open>The target gets the key of the root (and, of a polymorphic relation, the root's type value).\<close>

definition attach_target :: "('d, 'e) session_env \<Rightarrow> relation_meta \<Rightarrow> key \<Rightarrow> key \<Rightarrow> ('d, 'e, unit) session_action" where
  "attach_target E m k target s =
     (if rm_kind m \<in> {MorphOne, MorphMany}
      then act_bind (assign_member E target (rm_id_field m) (key_value s k (rm_local_key m))) (\<lambda>_.
        assign_member E target (rm_type_field m) (VString (rm_type_value m))) s
      else assign_member E target (rm_foreign_key m) (key_value s k (rm_local_key m)) s)"

text \<open>Of a \<open>belongs_to\<close> the root gets the key of the target, when it has one.\<close>

definition attach_owner :: "('d, 'e) session_env \<Rightarrow> relation_meta \<Rightarrow> key \<Rightarrow> key \<Rightarrow> ('d, 'e, unit) session_action" where
  "attach_owner E m k target s =
     (let t = env_types E (rm_target m); v = key_value s target (rm_target_key m) in
      if v = VNull \<or> (rm_target_key m = et_primary_key t \<and> et_generated t \<and> is_empty_generated_value v) then (Inr (), s)
      else assign_member E k (rm_foreign_key m) v s)"

definition collection_attach :: "('d, 'e) session_env \<Rightarrow> key \<Rightarrow> nat \<Rightarrow> key option \<Rightarrow> ('d, 'e, unit) session_action" where
  "collection_attach E k i value s =
     (case value of
        None \<Rightarrow> (Inl null_entity, s)
      | Some target \<Rightarrow>
          act_bind (attach_target E (relation_at E s k i) k target) (\<lambda>_.
          act_modify (\<lambda>s. set_relation k i (MMany (co_attach target (as_many (member_at s k i)))) s)) s)"

definition collection_remove :: "key \<Rightarrow> nat \<Rightarrow> key option \<Rightarrow> ('d, 'e, bool) session_action" where
  "collection_remove k i value s =
     (case value of
        None \<Rightarrow> (Inr False, s)
      | Some target \<Rightarrow> (case co_remove target (as_many (member_at s k i)) of
          (found, c) \<Rightarrow> (Inr found, set_relation k i (MMany c) s)))"

definition reference_set :: "('d, 'e) session_env \<Rightarrow> key \<Rightarrow> nat \<Rightarrow> key option \<Rightarrow> ('d, 'e, unit) session_action" where
  "reference_set E k i value s =
     (let m = relation_at E s k i in
      act_bind (case value of None \<Rightarrow> act_return ()
        | Some target \<Rightarrow> if rm_kind m = BelongsTo then attach_owner E m k target else attach_target E m k target) (\<lambda>_.
      act_modify (\<lambda>s. set_relation k i (MRef (rf_set value (as_reference (member_at s k i)))) s)) s)"

text \<open>\<open>reset\<close> clears the reference first and the foreign key of a \<open>belongs_to\<close> after it.\<close>

definition reference_reset :: "('d, 'e) session_env \<Rightarrow> key \<Rightarrow> nat \<Rightarrow> ('d, 'e, unit) session_action" where
  "reference_reset E k i s =
     (let m = relation_at E s k i in
      act_bind (act_modify (\<lambda>s. set_relation k i (MRef (rf_set None (as_reference (member_at s k i)))) s)) (\<lambda>_ s.
        if rm_kind m \<noteq> BelongsTo then (Inr (), s)
        else if is_optional (column_type (type_of E s k) (rm_foreign_key m)) then (Inr (), set_member k (rm_foreign_key m) CNone s)
        else (Inl (Runtime_error ''MetalORM: clearing belongs_to requires a nullable foreign key''), s)) s)"

text \<open>A \<open>morph_to\<close> that is set keeps its key columns until the flush; one that is cleared clears the nullable ones.\<close>

definition clear_optional :: "('d, 'e) session_env \<Rightarrow> key \<Rightarrow> string \<Rightarrow> ('d, 'e) session \<Rightarrow> ('d, 'e) session" where
  "clear_optional E k c s = (if is_optional (column_type (type_of E s k) c) then set_member k c CNone s else s)"

definition morph_to_set :: "('d, 'e) session_env \<Rightarrow> key \<Rightarrow> nat \<Rightarrow> key option \<Rightarrow> ('d, 'e) session \<Rightarrow> ('d, 'e) session" where
  "morph_to_set E k i value s =
     (let m = relation_at E s k i;
          s1 = set_relation k i (MRef (rf_set value (as_reference (member_at s k i)))) s in
      if value = None then clear_optional E k (rm_id_field m) (clear_optional E k (rm_type_field m) s1) else s1)"

subsection \<open>Many-to-many by identity\<close>

text \<open>The target with a key: the one of the identity map, or a new object with that key.\<close>

definition id_target :: "('d, 'e) session_env \<Rightarrow> relation_meta \<Rightarrow> dbvalue \<Rightarrow> ('d, 'e, key) session_action" where
  "id_target E m v s =
     (let ty = rm_target m; is_pk = (rm_target_key m = et_primary_key (env_types E ty)) in
      case (if is_pk then identity_get E ty v s else None) of
        Some k \<Rightarrow> (Inr k, s)
      | None \<Rightarrow>
          act_bind (make_shared E ty) (\<lambda>k.
          act_bind (assign_member E k (rm_target_key m) v) (\<lambda>_.
          act_bind (act_when is_pk (act_modify (session_track E k StManaged))) (\<lambda>_. act_return k))) s)"

definition pivot_attach ::
  "('d, 'e) session_env \<Rightarrow> relation_meta \<Rightarrow> patch \<Rightarrow> key \<Rightarrow> pivot_collection \<Rightarrow> ('d, 'e) session \<Rightarrow> pivot_collection" where
  "pivot_attach E m p target c s = pc_attach (bound E s m) (rm_pivot_defaults m) target p c"

definition find_identity :: "('d, 'e) session_env \<Rightarrow> ('d, 'e) session \<Rightarrow> relation_meta \<Rightarrow> string \<Rightarrow> key list \<Rightarrow> key option" where
  "find_identity E s m wanted items = List.find (\<lambda>k. relation_identity E s m k = Some wanted) items"

definition attach_id ::
  "('d, 'e) session_env \<Rightarrow> key \<Rightarrow> nat \<Rightarrow> dbvalue \<Rightarrow> patch \<Rightarrow> ('d, 'e, key) session_action" where
  "attach_id E k i v p s =
     (let m = relation_at E s k i; c = as_pivots (member_at s k i) in
      case find_identity E s m (value_key (env_fp E) v) (co_items c) of
        Some target \<Rightarrow> (Inr target, set_relation k i (MPivot (apply_patch (rm_pivot_defaults m) target p c)) s)
      | None \<Rightarrow>
          act_bind (id_target E m v) (\<lambda>target.
          act_bind (act_modify (\<lambda>s. set_relation k i (MPivot (pivot_attach E m p target (as_pivots (member_at s k i)) s)) s)) (\<lambda>_.
          act_return target)) s)"

fun sync_add :: "('d, 'e) session_env \<Rightarrow> key \<Rightarrow> nat \<Rightarrow> dbvalue list \<Rightarrow> ('d, 'e, unit) session_action" where
  "sync_add E k i [] = act_return ()"
| "sync_add E k i (v # vs) = act_bind (\<lambda>s.
     if find_identity E s (relation_at E s k i) (value_key (env_fp E) v) (co_items (as_pivots (member_at s k i))) \<noteq> None
     then (Inr (), s)
     else act_bind (attach_id E k i v []) (\<lambda>_. act_return ()) s) (\<lambda>_. sync_add E k i vs)"

definition sync_drop :: "('d, 'e) session_env \<Rightarrow> key \<Rightarrow> nat \<Rightarrow> dbvalue list \<Rightarrow> ('d, 'e) session \<Rightarrow> ('d, 'e) session" where
  "sync_drop E k i vs s =
     (let c = as_pivots (member_at s k i); m = relation_at E s k i in
      set_relation k i (MPivot (c\<lparr>co_items := filter (\<lambda>t. case relation_identity E s m t of
          None \<Rightarrow> True | Some key \<Rightarrow> key \<in> value_key (env_fp E) ` set vs) (co_items c)\<rparr>)) s)"

definition sync_by_ids :: "('d, 'e) session_env \<Rightarrow> key \<Rightarrow> nat \<Rightarrow> dbvalue list \<Rightarrow> ('d, 'e, unit) session_action" where
  "sync_by_ids E k i vs =
     act_bind (load_member E k i) (\<lambda>_.
     act_bind (sync_add E k i vs) (\<lambda>_. act_modify (sync_drop E k i vs)))"

end
