(* ===== verification/Identity_Properties.thy ===== *)
theory Identity_Properties
  imports Relation_Members Flush_Properties
begin

section \<open>One object per row\<close>

text \<open>
  The identity map is truthful when every entry leads to an entity of the entry's type with the entry's
  key. Hydration keeps it so, and finds the entities it has already made.
\<close>

definition execute_rows :: "('d, 'e) session_env \<Rightarrow> type_index \<Rightarrow> row list \<Rightarrow> ('d, 'e, key list) session_action" where
  "execute_rows E ty rows = act_map (hydrate E ty) rows"

definition truthful :: "('d, 'e) session_env \<Rightarrow> ('d, 'e) session \<Rightarrow> bool" where
  "truthful E s \<longleftrightarrow> (\<forall>ty key k. alookup (ss_identity s) (ty, key) = Some k \<longrightarrow>
     k < ss_fresh s \<and> en_type (ss_heap s k) = ty \<and> value_key (env_fp E) (get_pk E s k) = key)"

text \<open>A row with a primary key that the member holds unchanged and that identifies an entity.\<close>

definition keyed_row :: "('d, 'e) session_env \<Rightarrow> type_index \<Rightarrow> row \<Rightarrow> dbvalue \<Rightarrow> bool" where
  "keyed_row E ty row v \<longleftrightarrow> (let t = env_types E ty in
     alookup row (et_primary_key t) = Some v \<and> has_identity_key t v \<and>
     et_primary_key t \<in> fst ` set (et_columns t) \<and> distinct (List.map fst (et_columns t)) \<and>
     (\<exists>x. from_value (env_fp E) (column_type t (et_primary_key t)) v = Inr x \<and> to_value x = v))"

lemma alive_mono:
  assumes "alive s k" "\<And>j. uow_contains s j \<Longrightarrow> uow_contains s' j" "ss_held s' = ss_held s"
    and "\<And>cp j. cp \<in> set (ss_checkpoints s) \<Longrightarrow> alookup (cp_entries cp) j \<noteq> None \<Longrightarrow>
      \<exists>cp' \<in> set (ss_checkpoints s'). alookup (cp_entries cp') j \<noteq> None"
  shows "alive s' k"
  using assms unfolding alive_def uow_contains_def list_ex_iff by metis

lemma identity_get_put:
  "identity_get E ty v (identity_put E ty' v' k s) =
     (if ty' = ty \<and> value_key (env_fp E) v' = value_key (env_fp E) v then (if alive s k then Some k else None)
      else identity_get E ty v s)"
  by (auto simp: identity_get_def identity_put_def alive_def split: option.split)

text \<open>Assigning members changes the heap at one address only.\<close>

definition heap_step :: "key \<Rightarrow> ('d, 'e) session \<Rightarrow> ('d, 'e) session \<Rightarrow> bool" where
  "heap_step k s s' \<longleftrightarrow> (\<exists>e. s' = put_entity k e s \<and> en_type e = en_type (ss_heap s k))"

lemma heap_step_refl: "heap_step k s s"
  unfolding heap_step_def by (rule exI [of _ "ss_heap s k"]) (simp add: put_entity_def)

lemma heap_step_trans: "heap_step k a b \<Longrightarrow> heap_step k b c \<Longrightarrow> heap_step k a c"
  by (auto simp: heap_step_def put_entity_def)

lemma assign_member_step: "assign_member E k c v s = (r, s') \<Longrightarrow> heap_step k s s'"
  by (auto simp: assign_member_def heap_step_refl split: sum.splits) (auto simp: heap_step_def set_member_def)

lemma hydrate_iter:
  assumes "act_iter (\<lambda>(c, t). case alookup row c of None \<Rightarrow> act_return () | Some v \<Rightarrow> assign_member E k c v) cols s = (Inr (), s')"
    and "distinct (List.map fst cols)"
  shows "heap_step k s s' \<and> (\<forall>c v x. c \<in> fst ` set cols \<longrightarrow> alookup row c = Some v \<longrightarrow>
      from_value (env_fp E) (column_type (type_of E s k) c) v = Inr x \<longrightarrow> get_member s' k c = x) \<and>
    (\<forall>c. c \<notin> fst ` set cols \<longrightarrow> get_member s' k c = get_member s k c)"
  using assms
proof (induction cols arbitrary: s)
  case (Cons ct cols)
  obtain c t where ct: "ct = (c, t)" by (cases ct)
  from Cons.prems(1) obtain s1 where one: "(case alookup row c of None \<Rightarrow> act_return () | Some v \<Rightarrow> assign_member E k c v) s = (Inr (), s1)"
    and rest: "act_iter (\<lambda>(c, t). case alookup row c of None \<Rightarrow> act_return () | Some v \<Rightarrow> assign_member E k c v) cols s1 = (Inr (), s')"
    by (auto simp: ct act_bind_Inr)
  have step: "heap_step k s s1" using one by (auto simp: heap_step_refl intro: assign_member_step split: option.splits)
  have ty: "type_of E s1 k = type_of E s k" using step by (auto simp: heap_step_def type_of_def)
  have IH: "heap_step k s1 s' \<and> (\<forall>c v x. c \<in> fst ` set cols \<longrightarrow> alookup row c = Some v \<longrightarrow>
      from_value (env_fp E) (column_type (type_of E s1 k) c) v = Inr x \<longrightarrow> get_member s' k c = x) \<and>
    (\<forall>c. c \<notin> fst ` set cols \<longrightarrow> get_member s' k c = get_member s1 k c)"
    by (rule Cons.IH [OF rest]) (use Cons.prems(2) ct in simp)
  have c: "c \<notin> fst ` set cols" using Cons.prems(2) ct by simp
  have first: "get_member s1 k c = x" if "alookup row c = Some v"
    "from_value (env_fp E) (column_type (type_of E s k) c) v = Inr x" for v x
    using one that by (auto simp: assign_member_def)
  have other: "get_member s1 k c' = get_member s k c'" if "c' \<noteq> c" for c'
    using one that by (auto simp: assign_member_def split: option.splits sum.splits)
  show ?case using heap_step_trans [OF step] IH c first other ty ct by auto
qed (simp add: heap_step_refl)

lemma hydrate_new:
  assumes run: "hydrate E ty row s = (Inr k, s')" and row: "keyed_row E ty row v" and absent: "identity_get E ty v s = None"
  obtains s2 where "k = ss_fresh s" "s' = session_track E k StManaged s2" "ss_fresh s2 = Suc k"
    "en_type (ss_heap s2 k) = ty" "get_pk E s2 k = v" "\<forall>j. j \<noteq> k \<longrightarrow> ss_heap s2 j = ss_heap s j"
    "ss_identity s2 = ss_identity s" "ss_tracked s2 = ss_tracked s" "ss_checkpoints s2 = ss_checkpoints s" "ss_held s2 = ss_held s"
proof -
  let ?t = "env_types E ty"
  from row obtain x where x: "alookup row (et_primary_key ?t) = Some v" "et_primary_key ?t \<in> fst ` set (et_columns ?t)"
    "distinct (List.map fst (et_columns ?t))" "from_value (env_fp E) (column_type ?t (et_primary_key ?t)) v = Inr x" "to_value x = v"
    by (auto simp: keyed_row_def Let_def)
  obtain s1 where s1: "make_shared E ty s = (Inr (ss_fresh s), s1)" "en_type (ss_heap s1 (ss_fresh s)) = ty"
    "ss_fresh s1 = Suc (ss_fresh s)" "\<forall>j. j \<noteq> ss_fresh s \<longrightarrow> ss_heap s1 j = ss_heap s j" "ss_identity s1 = ss_identity s"
    "ss_tracked s1 = ss_tracked s" "ss_checkpoints s1 = ss_checkpoints s" "ss_held s1 = ss_held s"
    by (auto simp: make_shared_def Let_def)
  with run absent x(1) obtain s2 where s2: "hydrate_members E ty row (ss_fresh s) s1 = (Inr (), s2)" "k = ss_fresh s"
    "s' = session_track E k StManaged s2"
    by (auto simp: hydrate_def act_bind_def act_modify_def split: sum.splits prod.splits)
  from hydrate_iter [OF s2(1) [unfolded hydrate_members_def] x(3)] x s1(2)
  have step: "heap_step k s1 s2" "get_member s2 k (et_primary_key ?t) = x"
    by (auto simp: s2(2) type_of_def)
  from step(1) obtain e where e: "s2 = put_entity k e s1" "en_type e = en_type (ss_heap s1 k)" by (auto simp: heap_step_def)
  have "en_type (ss_heap s2 k) = ty" using e s1(2) s2(2) by simp
  moreover from this have "get_pk E s2 k = v" using step(2) x(5) by (simp add: get_pk_def type_of_def)
  ultimately show thesis using that [of s2] s1 s2 e by auto
qed

lemma session_track_simps [simp]:
  "ss_heap (session_track E k st s) = ss_heap s" "ss_fresh (session_track E k st s) = ss_fresh s"
  "ss_held (session_track E k st s) = ss_held s"
  "uow_contains (session_track E k st s) j \<longleftrightarrow> j = k \<or> uow_contains s j"
  by (auto simp: session_track_def register_identity_def identity_put_def uow_contains_def uow_track_def)

lemma session_track_identity:
  assumes "has_identity_key (type_of E s k) (get_pk E s k)"
  shows "ss_identity (session_track E k st s) =
      aput (en_type (ss_heap s k), value_key (env_fp E) (get_pk E s k)) k (ss_identity s)"
  using assms by (simp add: session_track_def register_identity_def identity_put_def uow_track_def type_of_def get_pk_def get_member_def)

lemma session_track_checkpoints:
  "cp \<in> set (ss_checkpoints s) \<Longrightarrow> alookup (cp_entries cp) j \<noteq> None \<Longrightarrow>
     \<exists>cp' \<in> set (ss_checkpoints (session_track E k st s)). alookup (cp_entries cp') j \<noteq> None"
  by (rule bexI [of _ "note_new E s k (new_tracked E s k st) cp"])
    (auto simp: session_track_def register_identity_def identity_put_def uow_track_def note_new_def)

lemma hydrate_finds:
  assumes run: "hydrate E ty row s = (Inr k, s')" and row: "keyed_row E ty row v" and truth: "truthful E s"
  shows "truthful E s' \<and> identity_get E ty v s' = Some k \<and>
    (\<forall>ty' v' k'. identity_get E ty' v' s = Some k' \<longrightarrow> identity_get E ty' v' s' = Some k')"
proof (cases "identity_get E ty v s")
  case (Some j)
  with run row truth show ?thesis by (auto simp: hydrate_def keyed_row_def Let_def)
next
  case None
  obtain s2 where s2: "k = ss_fresh s" "s' = session_track E k StManaged s2" "ss_fresh s2 = Suc k"
    "en_type (ss_heap s2 k) = ty" "get_pk E s2 k = v" "\<forall>j. j \<noteq> k \<longrightarrow> ss_heap s2 j = ss_heap s j"
    "ss_identity s2 = ss_identity s" "ss_tracked s2 = ss_tracked s" "ss_checkpoints s2 = ss_checkpoints s" "ss_held s2 = ss_held s"
    by (rule hydrate_new [OF run row None])
  have ident: "ss_identity s' = aput (ty, value_key (env_fp E) v) k (ss_identity s)"
    using session_track_identity [of E s2 k StManaged] s2(2,4,5,7) row by (simp add: keyed_row_def type_of_def Let_def)
  have same: "get_pk E s' j = get_pk E s j" "en_type (ss_heap s' j) = en_type (ss_heap s j)" if "j < ss_fresh s" for j
  proof -
    from that s2(1,6) have heap: "ss_heap s' j = ss_heap s j" by (simp add: s2(2))
    then show "en_type (ss_heap s' j) = en_type (ss_heap s j)" by (rule arg_cong)
    show "get_pk E s' j = get_pk E s j" unfolding get_pk_def get_member_def type_of_def heap by simp
  qed
  have self: "get_pk E s' k = v" "en_type (ss_heap s' k) = ty" "ss_fresh s' = Suc (ss_fresh s)"
    using s2(1-5) by (simp_all add: get_pk_def type_of_def get_member_def)
  have "truthful E s'" unfolding truthful_def ident
    using truth same self s2(1) by (auto simp: truthful_def less_Suc_eq)
  moreover have "uow_contains s' k" by (simp add: s2(2))
  then have "alive s' k" by (simp add: alive_def uow_contains_def)
  then have found: "identity_get E ty v s' = Some k" by (simp add: identity_get_def ident)
  moreover have "identity_get E ty' v' s' = Some k'" if old: "identity_get E ty' v' s = Some k'" for ty' v' k'
  proof -
    have "(ty', value_key (env_fp E) v') \<noteq> (ty, value_key (env_fp E) v)"
      using old None by (auto simp: identity_get_def split: option.splits if_splits)
    moreover from old have "alookup (ss_identity s) (ty', value_key (env_fp E) v') = Some k'" "alive s k'"
      by (auto simp: identity_get_def split: option.splits if_splits)
    moreover have "alive s' k'"
    proof (rule alive_mono [OF \<open>alive s k'\<close>])
      show "uow_contains s' j" if "uow_contains s j" for j
        using that s2(8) by (simp add: s2(2)) (simp add: uow_contains_def)
      show "\<exists>cp' \<in> set (ss_checkpoints s'). alookup (cp_entries cp') j \<noteq> None"
        if "cp \<in> set (ss_checkpoints s)" "alookup (cp_entries cp) j \<noteq> None" for cp j
        unfolding s2(2) using that s2(9) by (intro session_track_checkpoints) simp_all
    qed (simp add: s2(2,10))
    ultimately show ?thesis by (auto simp: identity_get_def ident)
  qed
  ultimately show ?thesis by blast
qed

lemma execute_rows_finds:
  assumes "act_map (hydrate E ty) rows s = (Inr ks, s')" "truthful E s" "list_all2 (keyed_row E ty) rows vs"
  shows "truthful E s' \<and> list_all2 (\<lambda>v k. identity_get E ty v s' = Some k) vs ks \<and>
    (\<forall>ty' v' k'. identity_get E ty' v' s = Some k' \<longrightarrow> identity_get E ty' v' s' = Some k')"
  using assms
proof (induction rows arbitrary: s ks vs)
  case (Cons row rows)
  from Cons.prems obtain k s1 rest v ws where one: "hydrate E ty row s = (Inr k, s1)"
    "act_map (hydrate E ty) rows s1 = (Inr rest, s')" "ks = k # rest" "vs = v # ws" "keyed_row E ty row v"
    "list_all2 (keyed_row E ty) rows ws"
    by (auto simp: act_bind_Inr list_all2_Cons1)
  note first = hydrate_finds [OF one(1,5) Cons.prems(2)]
  from Cons.IH [OF one(2) conjunct1 [OF first] one(6)] first one(3,4) show ?case by auto
qed simp

text \<open>
  C9. Loading rows gives one object per primary key: two rows of a result are the same entity exactly when
  their keys are the same key of the identity map, whether the entity was made for one of these rows or
  was there before. So a row that a query returns twice, or that two queries return, is one object, and
  different rows are never merged. The keys are ones the member holds unchanged.
\<close>

theorem one_object_per_key:
  assumes "execute_rows E ty rows s = (Inr ks, s')" and "truthful E s" and "list_all2 (keyed_row E ty) rows vs"
    and "i < length rows" and "j < length rows"
  shows "ks ! i = ks ! j \<longleftrightarrow> value_key (env_fp E) (vs ! i) = value_key (env_fp E) (vs ! j)"
proof -
  note found = execute_rows_finds [OF assms(1) [unfolded execute_rows_def] assms(2,3)]
  have len: "length vs = length rows" using assms(3) by (simp add: list_all2_lengthD)
  have at: "identity_get E ty (vs ! n) s' = Some (ks ! n)" if "n < length rows" for n
    using found that len by (auto simp: list_all2_conv_all_nth)
  have key: "value_key (env_fp E) (get_pk E s' (ks ! n)) = value_key (env_fp E) (vs ! n)" if "n < length rows" for n
    using at [OF that] found by (auto simp: truthful_def identity_get_def split: option.splits if_splits)
  show ?thesis
  proof
    assume "ks ! i = ks ! j"
    with key [OF assms(4)] key [OF assms(5)] show "value_key (env_fp E) (vs ! i) = value_key (env_fp E) (vs ! j)" by simp
  next
    assume "value_key (env_fp E) (vs ! i) = value_key (env_fp E) (vs ! j)"
    with at [OF assms(4)] at [OF assms(5)] show "ks ! i = ks ! j" by (simp add: identity_get_def)
  qed
qed

definition demo_row :: "u64 \<Rightarrow> string \<Rightarrow> row" where
  "demo_row i n = [(''name'', VString n), (''id'', VInt i)]"

lemma demo_row_keyed: "i \<noteq> 0 \<Longrightarrow> keyed_row flush_env 0 (demo_row i n) (VInt i)"
proof -
  assume "i \<noteq> 0"
  have "cast_int True 64 (sint i) = sint i"
    by (rule cast_int_id) (use sint_ge [of i] sint_lt [of i] in simp_all)
  with \<open>i \<noteq> 0\<close> show ?thesis
    by (simp add: keyed_row_def demo_row_def flush_env_def flush_types_def alookup_def has_identity_key_def column_type_def)
qed

theorem one_object_per_key_witness:
  "\<exists>s'. execute_rows flush_env 0 [demo_row 7 ''ada'', demo_row 8 ''bob'', demo_row 7 ''eve''] flush_session = (Inr [3, 4, 3], s') \<and>
     ([3, 4, 3] ! 0 = ([3, 4, 3] ! 2 :: nat)) = (value_key sample_fp (VInt 7) = value_key sample_fp (VInt 7))"
proof -
  let ?rows = "[demo_row 7 ''ada'', demo_row 8 ''bob'', demo_row 7 ''eve'']"
  let ?run = "execute_rows flush_env 0 ?rows flush_session"
  have ok: "fst ?run = Inr [3, 4, 3]" by code_simp
  have run: "?run = (Inr [3, 4, 3], snd ?run)" by (subst ok [symmetric]) simp
  have truth: "truthful flush_env flush_session" by (simp add: truthful_def flush_session_def)
  have keyed: "list_all2 (keyed_row flush_env 0) ?rows [VInt 7, VInt 8, VInt 7]" by (simp add: demo_row_keyed)
  have env: "env_fp flush_env = sample_fp" by (simp add: flush_env_def)
  from one_object_per_key [OF run truth keyed, of 0 2] run show ?thesis unfolding env by (intro exI [of _ "snd ?run"]) simp
qed

end
