(* ===== verification/Ddl.thy ===== *)
theory Ddl
  imports Schema_Model
begin

section \<open>The DDL generator (ddl.hpp, column_defaults.hpp, mapping_constraints.hpp, schema_expected.hpp)\<close>

text \<open>
  The templates of the generator read a mapping from the annotations of a C++ class at compile time;
  here the mapping is data: one \<open>column_mapping\<close> for each persistent member in the order of the class,
  with its annotations, and the table checks. An annotation the class may carry at most once is an
  option. A physical reference is given with the table and column its target resolves to. The text of
  a \<open>double\<close> with 17 digits, which the standard library prints, is a parameter.
\<close>

subsection \<open>Annotations\<close>

datatype default_annotation =
    Default_bool bool | Default_int int | Default_real u64
  | Default_text string | Default_sql string | Default_null

datatype referential_action = Unspecified | No_action | Restrict | Cascade | Set_null | Set_default

fun referential_action_sql :: "referential_action \<Rightarrow> string" where
  "referential_action_sql No_action = ''NO ACTION''"
| "referential_action_sql Restrict = ''RESTRICT''"
| "referential_action_sql Cascade = ''CASCADE''"
| "referential_action_sql Set_null = ''SET NULL''"
| "referential_action_sql Set_default = ''SET DEFAULT''"
| "referential_action_sql Unspecified = []"

record reference_annotation =
  ra_table :: string
  ra_column :: string
  ra_on_delete :: referential_action
  ra_on_update :: referential_action
  ra_constraint_name :: string
  ra_deferrable :: bool

text \<open>\<open>cm_unique\<close> is \<open>Some None\<close> for \<open>unique_t\<close> and \<open>Some (Some n)\<close> for \<open>named_unique<n>\<close>.\<close>

record column_mapping =
  cm_name :: string
  cm_type :: cpp_type
  cm_database_type :: "string option"
  cm_primary_key :: bool
  cm_generated :: bool
  cm_unique :: "string option option"
  cm_default :: "default_annotation option"
  cm_check :: "string option"
  cm_reference :: "reference_annotation option"

record table_mapping =
  mt_table :: string
  mt_columns :: "column_mapping list"
  mt_checks :: "database_check list"

definition primary_key_count :: "table_mapping \<Rightarrow> nat" where
  "primary_key_count t = length (filter cm_primary_key (mt_columns t))"

subsection \<open>Defaults\<close>

definition quote_sql_text :: "string \<Rightarrow> string" where
  "quote_sql_text v = [CHR 0x27] @ concat (List.map (\<lambda>c. if c = CHR 0x27 then [CHR 0x27, c] else [c]) v) @ [CHR 0x27]"

fun column_default_sql :: "(u64 \<Rightarrow> string) \<Rightarrow> default_annotation \<Rightarrow> string" where
  "column_default_sql real (Default_text t) = quote_sql_text t"
| "column_default_sql real (Default_sql e) = e"
| "column_default_sql real Default_null = ''NULL''"
| "column_default_sql real (Default_bool b) = (if b then ''1'' else ''0'')"
| "column_default_sql real (Default_int i) = show_int i"
| "column_default_sql real (Default_real d) = real d"

fun column_default_literal :: "default_annotation \<Rightarrow> dbvalue option" where
  "column_default_literal (Default_sql e) = None"
| "column_default_literal (Default_text t) = Some (VString t)"
| "column_default_literal Default_null = Some VNull"
| "column_default_literal (Default_bool b) = Some (VBool b)"
| "column_default_literal (Default_int i) = Some (VInt (word_of_int i))"
| "column_default_literal (Default_real d) = Some (VDouble d)"

subsection \<open>Types\<close>

fun sqlite_type_name :: "cpp_type \<Rightarrow> string" where
  "sqlite_type_name (TOpt t) = sqlite_type_name t"
| "sqlite_type_name (TInt sg w) = ''INTEGER''"
| "sqlite_type_name TBool = ''INTEGER''"
| "sqlite_type_name (TFloat dbl) = ''REAL''"
| "sqlite_type_name TString = ''TEXT''"
| "sqlite_type_name TBlob = ''BLOB''"

fun postgres_type_name :: "cpp_type \<Rightarrow> string" where
  "postgres_type_name (TOpt t) = postgres_type_name t"
| "postgres_type_name TBool = ''BOOLEAN''"
| "postgres_type_name (TInt sg w) = (if w \<le> 32 then ''INTEGER'' else ''BIGINT'')"
| "postgres_type_name (TFloat dbl) = ''DOUBLE PRECISION''"
| "postgres_type_name TString = ''TEXT''"
| "postgres_type_name TBlob = ''BYTEA''"

definition sqlite_column_type_name :: "column_mapping \<Rightarrow> string" where
  "sqlite_column_type_name c = (case cm_database_type c of Some n \<Rightarrow> n | None \<Rightarrow> sqlite_type_name (cm_type c))"

definition postgres_column_type_name :: "column_mapping \<Rightarrow> string" where
  "postgres_column_type_name c = (case cm_database_type c of Some n \<Rightarrow> n | None \<Rightarrow> postgres_type_name (cm_type c))"

definition column_type_name :: "dialect \<Rightarrow> column_mapping \<Rightarrow> string" where
  "column_type_name d c = (if d_family d = PostgreSQL then postgres_column_type_name c else sqlite_column_type_name c)"

subsection \<open>The text of a table\<close>

definition physical_reference_sql :: "dialect \<Rightarrow> reference_annotation \<Rightarrow> string" where
  "physical_reference_sql d r =
     (if ra_constraint_name r = [] then [] else '' CONSTRAINT '' @ d_quote d (ra_constraint_name r)) @
     '' REFERENCES '' @ d_quote d (ra_table r) @ '' ('' @ d_quote d (ra_column r) @ '')'' @
     (if referential_action_sql (ra_on_delete r) = [] then [] else '' ON DELETE '' @ referential_action_sql (ra_on_delete r)) @
     (if referential_action_sql (ra_on_update r) = [] then [] else '' ON UPDATE '' @ referential_action_sql (ra_on_update r)) @
     (if ra_deferrable r then '' DEFERRABLE INITIALLY DEFERRED'' else [])"

definition column_unique_sql :: "dialect \<Rightarrow> string option \<Rightarrow> string" where
  "column_unique_sql d u = (case u of Some n \<Rightarrow> '' CONSTRAINT '' @ d_quote d n @ '' UNIQUE'' | None \<Rightarrow> '' UNIQUE'')"

definition column_check_sql :: "string \<Rightarrow> string" where
  "column_check_sql e = '' CHECK ('' @ e @ '')''"

definition column_sql :: "(u64 \<Rightarrow> string) \<Rightarrow> dialect \<Rightarrow> nat \<Rightarrow> column_mapping \<Rightarrow> string" where
  "column_sql real d pk_count c =
     d_quote d (cm_name c) @ '' '' @ column_type_name d c @
     (if cm_generated c \<and> d_family d = PostgreSQL then '' GENERATED BY DEFAULT AS IDENTITY'' else []) @
     (if cm_primary_key c \<and> pk_count = 1 then '' PRIMARY KEY'' else []) @
     (if cm_generated c \<and> d_family d \<noteq> PostgreSQL then '' AUTOINCREMENT'' else []) @
     (if \<not> is_optional (cm_type c) \<and> (\<not> cm_primary_key c \<or> pk_count > 1) then '' NOT NULL'' else []) @
     (case cm_unique c of None \<Rightarrow> [] | Some u \<Rightarrow> column_unique_sql d u) @
     (case cm_default c of None \<Rightarrow> [] | Some v \<Rightarrow> '' DEFAULT '' @ column_default_sql real v) @
     (case cm_check c of None \<Rightarrow> [] | Some e \<Rightarrow> column_check_sql e) @
     (case cm_reference c of None \<Rightarrow> [] | Some r \<Rightarrow> physical_reference_sql d r)"

definition table_check_sql :: "dialect \<Rightarrow> database_check \<Rightarrow> string" where
  "table_check_sql d k =
     (case ck_name k of None \<Rightarrow> [] | Some n \<Rightarrow> ''CONSTRAINT '' @ d_quote d n @ '' '') @
     ''CHECK ('' @ ck_expression k @ '')''"

definition create_table_sql :: "(u64 \<Rightarrow> string) \<Rightarrow> dialect \<Rightarrow> table_mapping \<Rightarrow> string" where
  "create_table_sql real d t =
     (let pk_count = primary_key_count t in
      ''CREATE TABLE IF NOT EXISTS '' @ d_quote d (mt_table t) @ '' ('' @
      join '', '' (List.map (column_sql real d pk_count) (mt_columns t)) @
      (if pk_count > 1 then
         '', PRIMARY KEY ('' @ join '', '' (List.map (d_quote d \<circ> cm_name) (filter cm_primary_key (mt_columns t))) @ '')''
       else []) @
      concat (List.map (\<lambda>k. '', '' @ table_check_sql d k) (mt_checks t)) @
      '');'')"

subsection \<open>The schema the mapping expects\<close>

definition text_option :: "string \<Rightarrow> string option" where
  "text_option s = (if s = [] then None else Some s)"

definition expected_reference :: "reference_annotation \<Rightarrow> foreign_key_reference" where
  "expected_reference r =
     \<lparr>fk_table = ra_table r, fk_column = ra_column r, fk_name = text_option (ra_constraint_name r),
      fk_on_delete = text_option (referential_action_sql (ra_on_delete r)),
      fk_on_update = text_option (referential_action_sql (ra_on_update r)),
      fk_deferrable = ra_deferrable r, fk_schema = None\<rparr>"

definition expected_column :: "(u64 \<Rightarrow> string) \<Rightarrow> dialect \<Rightarrow> column_mapping \<Rightarrow> database_column" where
  "expected_column real d c =
     \<lparr>col_name = cm_name c, col_type = column_type_name d c, col_not_null = (\<not> is_optional (cm_type c)),
      col_unique = (cm_unique c \<noteq> None), col_unique_name = (case cm_unique c of None \<Rightarrow> None | Some u \<Rightarrow> u),
      col_default = map_option (column_default_sql real) (cm_default c),
      col_auto_increment = cm_generated c,
      col_references = map_option expected_reference (cm_reference c),
      col_check = cm_check c, col_comment = None\<rparr>"

definition expected_table_for :: "(u64 \<Rightarrow> string) \<Rightarrow> dialect \<Rightarrow> table_mapping \<Rightarrow> expected_table" where
  "expected_table_for real d t =
     \<lparr>et_table = \<lparr>tb_name = mt_table t, tb_columns = List.map (expected_column real d) (mt_columns t),
         tb_primary_key = List.map cm_name (filter cm_primary_key (mt_columns t)), tb_indexes = [],
         tb_checks = mt_checks t, tb_comment = None, tb_primary_key_name = None\<rparr>,
      et_create_table_sql = create_table_sql real d t, et_create_index_sql = []\<rparr>"

definition expected_schema_for :: "(u64 \<Rightarrow> string) \<Rightarrow> dialect \<Rightarrow> table_mapping list \<Rightarrow> expected_schema" where
  "expected_schema_for real d ts = \<lparr>es_tables = List.map (expected_table_for real d) ts\<rparr>"

definition expected_index_sql :: "dialect \<Rightarrow> string \<Rightarrow> database_index \<Rightarrow> string" where
  "expected_index_sql d table_name ix =
     ''CREATE '' @ (if ix_unique ix then ''UNIQUE '' else []) @
     ''INDEX IF NOT EXISTS '' @ d_quote d (ix_name ix) @ '' ON '' @ d_quote d table_name @ '' ('' @
     join '', '' (List.map (d_quote d) (ix_columns ix)) @ '')'' @
     (case ix_where ix of None \<Rightarrow> [] | Some w \<Rightarrow> '' WHERE '' @ w) @ '';''"

text \<open>The members of the index are the columns given; the table is the first of the entity's name.\<close>

fun push_index :: "string \<Rightarrow> database_index \<Rightarrow> string \<Rightarrow> expected_table list \<Rightarrow> expected_table list option" where
  "push_index table_name ix sql [] = None"
| "push_index table_name ix sql (e # es) =
     (if tb_name (et_table e) = table_name then
        Some (e\<lparr>et_table := (et_table e)\<lparr>tb_indexes := tb_indexes (et_table e) @ [ix]\<rparr>,
                et_create_index_sql := et_create_index_sql e @ [sql]\<rparr> # es)
      else map_option ((#) e) (push_index table_name ix sql es))"

definition add_expected_index ::
  "expected_schema \<Rightarrow> dialect \<Rightarrow> string \<Rightarrow> string \<Rightarrow> string list \<Rightarrow> bool \<Rightarrow> string option \<Rightarrow> expected_schema result" where
  "add_expected_index s d table_name name columns uniq where_sql =
     (let ix = \<lparr>ix_name = name, ix_columns = columns, ix_unique = uniq, ix_where = where_sql\<rparr> in
      case push_index table_name ix (expected_index_sql d table_name ix) (es_tables s) of
        None \<Rightarrow> Inl (Invalid_argument ''MetalORM: expected schema does not contain the indexed entity table'')
      | Some ts \<Rightarrow> Inr (s\<lparr>es_tables := ts\<rparr>))"

end
