(* ===== verification/Sqlite_Ddl.thy ===== *)
theory Sqlite_Ddl
  imports Schema_Model
begin

section \<open>The parser of SQLite table definitions (include/metal/sqlite_ddl_parser.hpp)\<close>

text \<open>
  SQLite keeps the text of a \<open>CREATE TABLE\<close> statement and its pragmas do not tell the names of
  constraints, the checks and whether a foreign key is deferred; the parser reads them from the text.
  Positions are indexes into the text, \<open>npos\<close> is \<open>None\<close>, a \<open>string_view\<close> is the text it views. The
  nesting depth is an \<open>int\<close> that never falls below zero; that it stays below \<open>2 ^ 31\<close> is the size of
  the text. Where a function moves the position it is given, the model returns the new one.
\<close>

definition trim_sql_view :: "string \<Rightarrow> string" where
  "trim_sql_view v = trim_by is_space v"

definition sql_identifier_char :: "char \<Rightarrow> bool" where
  "sql_identifier_char c \<longleftrightarrow> is_alnum c \<or> c = CHR ''_''"

definition sql_keyword_at :: "string \<Rightarrow> nat \<Rightarrow> string \<Rightarrow> bool" where
  "sql_keyword_at text pos keyword \<longleftrightarrow>
     pos + length keyword \<le> length text \<and>
     \<not> (pos > 0 \<and> sql_identifier_char (text ! (pos - 1))) \<and>
     \<not> (pos + length keyword < length text \<and> sql_identifier_char (text ! (pos + length keyword))) \<and>
     List.map to_upper (take (length keyword) (drop pos text)) = List.map to_upper keyword"

definition skip_sql_space :: "string \<Rightarrow> nat \<Rightarrow> nat" where
  "skip_sql_space text pos = pos + length (takeWhile is_space (drop pos text))"

text \<open>The loop inside a quoted identifier: what it has read is \<open>None\<close> when the closing quote is missing.\<close>

fun read_quoted :: "char \<Rightarrow> nat \<Rightarrow> string \<Rightarrow> string option \<times> nat" where
  "read_quoted close pos [] = (None, pos)"
| "read_quoted close pos (c # cs) =
     (if c = close then
        (case cs of
           d # ds \<Rightarrow>
             if d = close then map_prod (map_option ((#) close)) id (read_quoted close (pos + 2) ds)
             else (Some [], pos + 1)
         | [] \<Rightarrow> (Some [], pos + 1))
      else map_prod (map_option ((#) c)) id (read_quoted close (pos + 1) cs))"

definition word_end :: "char \<Rightarrow> bool" where
  "word_end c \<longleftrightarrow> is_space c \<or> c \<in> {CHR ''('', CHR '')'', CHR '',''}"

definition read_sql_identifier :: "string \<Rightarrow> nat \<Rightarrow> string option \<times> nat" where
  "read_sql_identifier text pos0 =
     (let pos = skip_sql_space text pos0 in
      if pos \<ge> length text then (None, pos)
      else
        let quote = text ! pos in
        if quote \<in> {dquote, CHR 0x60, CHR ''[''} then
          read_quoted (if quote = CHR ''['' then CHR '']'' else quote) (pos + 1) (drop (pos + 1) text)
        else
          let word = takeWhile (\<lambda>c. \<not> word_end c) (drop pos text) in
          (if word = [] then None else Some word, pos + length word))"

subsection \<open>Scanning SQL text\<close>

text \<open>
  Four loops of the parser walk over SQL text and share their treatment of quotes, brackets and
  comments: of the variables \<open>quote\<close>, \<open>bracket\<close>, \<open>line_comment\<close> and \<open>block_comment\<close> at most one is set,
  which is the mode. \<open>scan_char\<close> is one round: the new mode, whether the next character is passed over
  as well, and whether the character is plain, so that the loop looks at it.
\<close>

datatype scan_mode = Plain | Quoted char | Bracket | Line_comment | Block_comment

definition next_char :: "string \<Rightarrow> char" where
  "next_char cs = (case cs of [] \<Rightarrow> CHR 0x00 | c # _ \<Rightarrow> c)"

fun scan_char :: "scan_mode \<Rightarrow> char \<Rightarrow> char \<Rightarrow> scan_mode \<times> bool \<times> bool" where
  "scan_char Line_comment c n = (if c = CHR 0x0A \<or> c = CHR 0x0D then Plain else Line_comment, False, False)"
| "scan_char Block_comment c n = (if c = CHR ''*'' \<and> n = CHR ''/'' then (Plain, True, False) else (Block_comment, False, False))"
| "scan_char (Quoted q) c n =
     (if c = q then if n = q then (Quoted q, True, False) else (Plain, False, False) else (Quoted q, False, False))"
| "scan_char Bracket c n =
     (if c = CHR '']'' then if n = CHR '']'' then (Bracket, True, False) else (Plain, False, False) else (Bracket, False, False))"
| "scan_char Plain c n =
     (if c = CHR ''-'' \<and> n = CHR ''-'' then (Line_comment, True, False)
      else if c = CHR ''/'' \<and> n = CHR ''*'' then (Block_comment, True, False)
      else if c = CHR 0x27 \<or> c = dquote \<or> c = CHR 0x60 then (Quoted c, False, False)
      else if c = CHR ''['' then (Bracket, False, False)
      else (Plain, False, True))"

fun matching_paren_loop :: "scan_mode \<Rightarrow> nat \<Rightarrow> nat \<Rightarrow> string \<Rightarrow> nat option" where
  "matching_paren_loop m depth i [] = None"
| "matching_paren_loop m depth i (c # cs) =
     (case scan_char m c (next_char cs) of (m', skip, plain) \<Rightarrow>
        if skip then matching_paren_loop m' depth (i + 2) (tl cs)
        else if plain \<and> c = CHR ''('' then matching_paren_loop m' (depth + 1) (i + 1) cs
        else if plain \<and> c = CHR '')'' then
          (if depth - 1 = 0 then Some i else matching_paren_loop m' (depth - 1) (i + 1) cs)
        else matching_paren_loop m' depth (i + 1) cs)"

definition find_sql_matching_paren :: "string \<Rightarrow> nat \<Rightarrow> nat option" where
  "find_sql_matching_paren text open =
     (if open \<ge> length text \<or> text ! open \<noteq> CHR ''('' then None
      else matching_paren_loop Plain 1 (open + 1) (drop (open + 1) text))"

fun keyword_loop :: "string \<Rightarrow> string \<Rightarrow> scan_mode \<Rightarrow> nat \<Rightarrow> nat \<Rightarrow> string \<Rightarrow> nat option" where
  "keyword_loop text keyword m depth i [] = None"
| "keyword_loop text keyword m depth i (c # cs) =
     (case scan_char m c (next_char cs) of (m', skip, plain) \<Rightarrow>
        if skip then keyword_loop text keyword m' depth (i + 2) (tl cs)
        else if plain \<and> c = CHR ''('' then keyword_loop text keyword m' (depth + 1) (i + 1) cs
        else if plain \<and> c = CHR '')'' then keyword_loop text keyword m' (depth - 1) (i + 1) cs
        else if plain \<and> depth = 0 \<and> sql_keyword_at text i keyword then Some i
        else keyword_loop text keyword m' depth (i + 1) cs)"

definition find_sql_keyword_top_level :: "string \<Rightarrow> string \<Rightarrow> nat \<Rightarrow> nat option" where
  "find_sql_keyword_top_level text keyword start = keyword_loop text keyword Plain 0 start (drop start text)"

definition extract_check_expression :: "string \<Rightarrow> nat \<Rightarrow> string option" where
  "extract_check_expression segment check_pos =
     (let pos = skip_sql_space segment (check_pos + length ''CHECK'') in
      if pos \<ge> length segment \<or> segment ! pos \<noteq> CHR ''('' then None
      else case find_sql_matching_paren segment pos of
        None \<Rightarrow> None
      | Some close \<Rightarrow> Some (trim_sql_view (take (close - pos - 1) (drop (pos + 1) segment))))"

subsection \<open>The segments of a table body\<close>

text \<open>The search for the opening parenthesis knows quotes and brackets, but no comments and no doubled \<open>]\<close>.\<close>

fun body_open_loop :: "scan_mode \<Rightarrow> nat \<Rightarrow> string \<Rightarrow> nat option" where
  "body_open_loop m i [] = None"
| "body_open_loop m i (c # cs) =
     (case m of
        Quoted q \<Rightarrow>
          if c = q then if next_char cs = q then body_open_loop m (i + 2) (tl cs) else body_open_loop Plain (i + 1) cs
          else body_open_loop m (i + 1) cs
      | Bracket \<Rightarrow> body_open_loop (if c = CHR '']'' then Plain else Bracket) (i + 1) cs
      | _ \<Rightarrow>
          if c = CHR 0x27 \<or> c = dquote \<or> c = CHR 0x60 then body_open_loop (Quoted c) (i + 1) cs
          else if c = CHR ''['' then body_open_loop Bracket (i + 1) cs
          else if c = CHR ''('' then Some i
          else body_open_loop Plain (i + 1) cs)"

text \<open>The second loop collects what lies between the commas of the body that are in no parentheses.\<close>

fun split_loop :: "string \<Rightarrow> scan_mode \<Rightarrow> nat \<Rightarrow> nat \<Rightarrow> nat \<Rightarrow> string \<Rightarrow> string list" where
  "split_loop body m depth start i [] =
     (if start \<le> length body then [trim_sql_view (drop start body)] else [])"
| "split_loop body m depth start i (c # cs) =
     (case scan_char m c (next_char cs) of (m', skip, plain) \<Rightarrow>
        if skip then split_loop body m' depth start (i + 2) (tl cs)
        else if plain \<and> c = CHR ''('' then split_loop body m' (depth + 1) start (i + 1) cs
        else if plain \<and> c = CHR '')'' \<and> depth > 0 then split_loop body m' (depth - 1) start (i + 1) cs
        else if plain \<and> c = CHR '','' \<and> depth = 0 then
          trim_sql_view (take (i - start) (drop start body)) # split_loop body m' depth (i + 1) (i + 1) cs
        else split_loop body m' depth start (i + 1) cs)"

definition split_sqlite_table_body :: "string \<Rightarrow> string list" where
  "split_sqlite_table_body create_sql =
     (case body_open_loop Plain 0 create_sql of
        None \<Rightarrow> []
      | Some open \<Rightarrow>
          (case find_sql_matching_paren create_sql open of
             None \<Rightarrow> []
           | Some close \<Rightarrow>
               if close \<le> open then []
               else
                 let body = take (close - open - 1) (drop (open + 1) create_sql) in
                 split_loop body Plain 0 0 0 body))"

subsection \<open>Names of constraints\<close>

text \<open>A keyword is found at or after the position where the search starts, so the search below advances.\<close>

lemma keyword_loop_ge: "keyword_loop t kw m depth i cs = Some j \<Longrightarrow> i \<le> j"
proof (induction t kw m depth i cs rule: keyword_loop.induct)
  case (2 t kw m depth i c cs)
  obtain m' skip plain where e: "scan_char m c (next_char cs) = (m', skip, plain)" by (metis prod_cases3)
  with "2.prems" "2.IH" [OF e [symmetric] refl] show ?case by (force split: if_splits)
qed simp

lemma find_sql_keyword_ge: "find_sql_keyword_top_level text keyword start = Some j \<Longrightarrow> start \<le> j"
  unfolding find_sql_keyword_top_level_def by (rule keyword_loop_ge)

text \<open>
  \<open>constraint_name_for_reference\<close> and \<open>constraint_name_for_unique\<close> are the same loop: the name of the
  \<open>CONSTRAINT\<close> clause that stands directly before the position.
\<close>

function constraint_name_loop :: "string \<Rightarrow> nat \<Rightarrow> nat \<Rightarrow> string option" where
  "constraint_name_loop segment target search =
     (if search < target then
        case find_sql_keyword_top_level segment ''CONSTRAINT'' search of
          None \<Rightarrow> None
        | Some cpos \<Rightarrow>
            if cpos \<ge> target then None
            else
              (case read_sql_identifier segment (cpos + length ''CONSTRAINT'') of
                 (Some name, pos) \<Rightarrow>
                   if skip_sql_space segment pos = target then Some name
                   else constraint_name_loop segment target (cpos + length ''CONSTRAINT'')
               | (None, pos) \<Rightarrow> constraint_name_loop segment target (cpos + length ''CONSTRAINT''))
      else None)"
  by pat_completeness auto

termination
  by (relation "measure (\<lambda>(segment, target, search). target - search)") (auto dest!: find_sql_keyword_ge)

declare constraint_name_loop.simps [simp del]

definition constraint_name_for_reference :: "string \<Rightarrow> nat \<Rightarrow> string option" where
  "constraint_name_for_reference segment reference_pos = constraint_name_loop segment reference_pos 0"

definition constraint_name_for_unique :: "string \<Rightarrow> nat \<Rightarrow> string option" where
  "constraint_name_for_unique segment unique_pos = constraint_name_loop segment unique_pos 0"

definition sqlite_reference_is_deferred :: "string \<Rightarrow> nat \<Rightarrow> bool" where
  "sqlite_reference_is_deferred segment reference_pos =
     (let start = reference_pos + length ''REFERENCES'' in
      case find_sql_keyword_top_level segment ''DEFERRABLE'' start of
        None \<Rightarrow> False
      | Some deferrable_pos \<Rightarrow>
          if (case find_sql_keyword_top_level segment ''NOT'' start of
                None \<Rightarrow> False
              | Some not_pos \<Rightarrow> not_pos < deferrable_pos \<and>
                  skip_sql_space segment (not_pos + length ''NOT'') = deferrable_pos)
          then False
          else
            let pos = skip_sql_space segment (deferrable_pos + length ''DEFERRABLE'') in
            if \<not> sql_keyword_at segment pos ''INITIALLY'' then False
            else sql_keyword_at segment (skip_sql_space segment (pos + length ''INITIALLY'')) ''DEFERRED'')"

subsection \<open>What a definition says of its columns\<close>

text \<open>\<open>std::find_if\<close> over the columns and an update of the column found, if any.\<close>

fun update_first :: "('a \<Rightarrow> bool) \<Rightarrow> ('a \<Rightarrow> 'a) \<Rightarrow> 'a list \<Rightarrow> 'a list" where
  "update_first P f [] = []"
| "update_first P f (x # xs) = (if P x then f x # xs else x # update_first P f xs)"

definition on_column :: "database_table \<Rightarrow> string \<Rightarrow> (database_column \<Rightarrow> database_column) \<Rightarrow> database_table" where
  "on_column t name f = t\<lparr>tb_columns := update_first (\<lambda>c. col_name c = name) f (tb_columns t)\<rparr>"

definition apply_sqlite_reference_modifiers ::
  "database_table \<Rightarrow> string \<Rightarrow> string \<Rightarrow> nat \<Rightarrow> string option \<Rightarrow> database_table" where
  "apply_sqlite_reference_modifiers t name segment reference_pos constraint_name =
     on_column t name (\<lambda>c. case col_references c of
        None \<Rightarrow> c
      | Some r \<Rightarrow> c\<lparr>col_references := Some (r\<lparr>
          fk_name := (case constraint_name of None \<Rightarrow> constraint_name_for_reference segment reference_pos | n \<Rightarrow> n),
          fk_deferrable := sqlite_reference_is_deferred segment reference_pos\<rparr>)\<rparr>)"

text \<open>
  The beginning of the three functions' loop body: an optional \<open>CONSTRAINT\<close> with the name that follows
  it, and the position after the spaces behind it.
\<close>

definition table_constraint_start :: "string \<Rightarrow> string option \<times> nat" where
  "table_constraint_start segment =
     (let pos = skip_sql_space segment 0 in
      if sql_keyword_at segment pos ''CONSTRAINT'' then
        (case read_sql_identifier segment (pos + length ''CONSTRAINT'') of
           (name, pos') \<Rightarrow> (name, skip_sql_space segment pos'))
      else (None, pos))"

definition foreign_key_modifiers_of_segment :: "database_table \<Rightarrow> string \<Rightarrow> database_table" where
  "foreign_key_modifiers_of_segment t segment =
     (if segment = [] then t
      else case table_constraint_start segment of (constraint_name, pos) \<Rightarrow>
        if sql_keyword_at segment pos ''FOREIGN'' then
          (let pos = skip_sql_space segment (pos + length ''FOREIGN'') in
           if \<not> sql_keyword_at segment pos ''KEY'' then t
           else
             let pos = skip_sql_space segment (pos + length ''KEY'') in
             if pos \<ge> length segment \<or> segment ! pos \<noteq> CHR ''('' then t
             else case find_sql_matching_paren segment pos of
               None \<Rightarrow> t
             | Some child_close \<Rightarrow>
                 (case read_sql_identifier segment (pos + 1) of
                    (None, _) \<Rightarrow> t
                  | (Some child_column, child_pos) \<Rightarrow>
                      if skip_sql_space segment child_pos \<noteq> child_close then t
                      else case find_sql_keyword_top_level segment ''REFERENCES'' (child_close + 1) of
                        None \<Rightarrow> t
                      | Some reference_pos \<Rightarrow>
                          apply_sqlite_reference_modifiers t child_column segment reference_pos constraint_name))
        else case read_sql_identifier segment 0 of
            (None, _) \<Rightarrow> t
          | (Some name, pos) \<Rightarrow>
              (case find_sql_keyword_top_level segment ''REFERENCES'' pos of
                 None \<Rightarrow> t
               | Some reference_pos \<Rightarrow> apply_sqlite_reference_modifiers t name segment reference_pos None))"

definition parse_sqlite_foreign_key_modifiers :: "string \<Rightarrow> database_table \<Rightarrow> database_table" where
  "parse_sqlite_foreign_key_modifiers create_sql t =
     foldl foreign_key_modifiers_of_segment t (split_sqlite_table_body create_sql)"

definition apply_sqlite_column_unique :: "database_table \<Rightarrow> string \<Rightarrow> string option \<Rightarrow> database_table" where
  "apply_sqlite_column_unique t name constraint_name =
     on_column t name (\<lambda>c. c\<lparr>col_unique := True, col_unique_name := constraint_name\<rparr>)"

definition unique_of_segment :: "database_table \<Rightarrow> string \<Rightarrow> database_table" where
  "unique_of_segment t segment =
     (if segment = [] then t
      else case table_constraint_start segment of (constraint_name, pos) \<Rightarrow>
        if sql_keyword_at segment pos ''UNIQUE'' then
          (let pos = skip_sql_space segment (pos + length ''UNIQUE'') in
           if pos \<ge> length segment \<or> segment ! pos \<noteq> CHR ''('' then t
           else case find_sql_matching_paren segment pos of
             None \<Rightarrow> t
           | Some close \<Rightarrow>
               (case read_sql_identifier segment (pos + 1) of
                  (None, _) \<Rightarrow> t
                | (Some name, column_pos) \<Rightarrow>
                    if skip_sql_space segment column_pos \<noteq> close then t
                    else apply_sqlite_column_unique t name constraint_name))
        else case read_sql_identifier segment 0 of
            (None, _) \<Rightarrow> t
          | (Some name, pos) \<Rightarrow>
              (case find_sql_keyword_top_level segment ''UNIQUE'' pos of
                 None \<Rightarrow> t
               | Some unique_pos \<Rightarrow>
                   apply_sqlite_column_unique t name (constraint_name_for_unique segment unique_pos)))"

definition parse_sqlite_unique_constraints :: "string \<Rightarrow> database_table \<Rightarrow> database_table" where
  "parse_sqlite_unique_constraints create_sql t = foldl unique_of_segment t (split_sqlite_table_body create_sql)"

text \<open>
  A table check is added to the checks of the table, the first \<open>CHECK\<close> of a column's definition becomes
  the check of the column. Without \<open>CONSTRAINT\<close> the name is absent, as \<open>table_constraint_start\<close> has it.
\<close>

definition check_of_segment :: "database_table \<Rightarrow> string \<Rightarrow> database_table" where
  "check_of_segment t segment =
     (if segment = [] then t
      else case table_constraint_start segment of (constraint_name, pos) \<Rightarrow>
        if sql_keyword_at segment pos ''CHECK'' then
          (case extract_check_expression segment pos of
             None \<Rightarrow> t
           | Some expression \<Rightarrow>
               t\<lparr>tb_checks := tb_checks t @ [\<lparr>ck_name = constraint_name, ck_expression = expression\<rparr>]\<rparr>)
        else case read_sql_identifier segment 0 of
            (None, _) \<Rightarrow> t
          | (Some name, pos) \<Rightarrow>
              if \<not> list_ex (\<lambda>c. col_name c = name) (tb_columns t) then t
              else case find_sql_keyword_top_level segment ''CHECK'' pos of
                None \<Rightarrow> t
              | Some check_pos \<Rightarrow>
                  (case extract_check_expression segment check_pos of
                     None \<Rightarrow> t
                   | Some expression \<Rightarrow> on_column t name (\<lambda>c. c\<lparr>col_check := Some expression\<rparr>)))"

definition parse_sqlite_check_constraints :: "string \<Rightarrow> database_table \<Rightarrow> database_table" where
  "parse_sqlite_check_constraints create_sql t = foldl check_of_segment t (split_sqlite_table_body create_sql)"

end
