(* ===== verification/Sql_Scan.thy ===== *)
theory Sql_Scan
  imports Sqlite_Ddl
begin

section \<open>What the scanner sees of SQL text put together from parts\<close>

text \<open>
  The loops of the parser look at the characters outside quotes, brackets and comments only. Here the
  loops are split into the list of these characters with their positions and a fold over that list, and
  the list of a text put together from parts is put together from the lists of the parts. So a search
  over a whole definition is a search over its words, and a word found in its own text alone is found
  in the definition.
\<close>

fun plain_at :: "scan_mode \<Rightarrow> nat \<Rightarrow> string \<Rightarrow> (nat \<times> char) list" where
  "plain_at m i [] = []"
| "plain_at m i (c # cs) =
     (case scan_char m c (next_char cs) of (m', skip, plain) \<Rightarrow>
        if skip then plain_at m' (i + 2) (tl cs)
        else (if plain then [(i, c)] else []) @ plain_at m' (i + 1) cs)"

fun scan_end :: "scan_mode \<Rightarrow> string \<Rightarrow> scan_mode" where
  "scan_end m [] = m"
| "scan_end m (c # cs) =
     (case scan_char m c (next_char cs) of (m', skip, plain) \<Rightarrow> scan_end m' (if skip then tl cs else cs))"

text \<open>The loops as folds over the plain characters.\<close>

fun paren_scan :: "nat \<Rightarrow> (nat \<times> char) list \<Rightarrow> nat option" where
  "paren_scan d [] = None"
| "paren_scan d ((i, c) # es) =
     (if c = CHR ''('' then paren_scan (d + 1) es
      else if c = CHR '')'' then (if d - 1 = 0 then Some i else paren_scan (d - 1) es)
      else paren_scan d es)"

fun keyword_scan :: "string \<Rightarrow> string \<Rightarrow> nat \<Rightarrow> (nat \<times> char) list \<Rightarrow> nat option" where
  "keyword_scan t kw d [] = None"
| "keyword_scan t kw d ((i, c) # es) =
     (if c = CHR ''('' then keyword_scan t kw (d + 1) es
      else if c = CHR '')'' then keyword_scan t kw (d - 1) es
      else if d = 0 \<and> sql_keyword_at t i kw then Some i
      else keyword_scan t kw d es)"

fun split_scan :: "string \<Rightarrow> nat \<Rightarrow> nat \<Rightarrow> (nat \<times> char) list \<Rightarrow> string list" where
  "split_scan b d start [] = (if start \<le> length b then [trim_sql_view (drop start b)] else [])"
| "split_scan b d start ((i, c) # es) =
     (if c = CHR ''('' then split_scan b (d + 1) start es
      else if c = CHR '')'' \<and> d > 0 then split_scan b (d - 1) start es
      else if c = CHR '','' \<and> d = 0 then trim_sql_view (take (i - start) (drop start b)) # split_scan b d (i + 1) es
      else split_scan b d start es)"

lemma scan_char_skip: "scan_char m c n = (m', True, plain) \<Longrightarrow> \<not> plain"
  by (cases m) (auto split: if_splits)

lemma matching_paren_events: "matching_paren_loop m d i cs = paren_scan d (plain_at m i cs)"
proof (induction m d i cs rule: matching_paren_loop.induct)
  case (2 m d i c cs)
  obtain m' skip plain where e: "scan_char m c (next_char cs) = (m', skip, plain)" by (metis prod_cases3)
  from "2.IH" [OF e [symmetric] refl] show ?case by (auto simp: e)
qed simp

lemma keyword_events: "keyword_loop t kw m d i cs = keyword_scan t kw d (plain_at m i cs)"
proof (induction t kw m d i cs rule: keyword_loop.induct)
  case (2 t kw m d i c cs)
  obtain m' skip plain where e: "scan_char m c (next_char cs) = (m', skip, plain)" by (metis prod_cases3)
  from "2.IH" [OF e [symmetric] refl] show ?case by (auto simp: e)
qed simp

lemma split_events: "split_loop b m d start i cs = split_scan b d start (plain_at m i cs)"
proof (induction b m d start i cs rule: split_loop.induct)
  case (2 b m d start i c cs)
  obtain m' skip plain where e: "scan_char m c (next_char cs) = (m', skip, plain)" by (metis prod_cases3)
  from "2.IH" [OF e [symmetric] refl] show ?case by (auto simp: e)
qed simp

subsection \<open>Joining parts\<close>

text \<open>
  A part may be cut off from what follows when the next character does not finish a two-character
  token with the last one of the part: neither a quote, a bracket, nor a character of a comment.
\<close>

definition safe_next :: "char \<Rightarrow> bool" where
  "safe_next n \<longleftrightarrow> n \<notin> {CHR ''-'', CHR ''*'', CHR ''/'', CHR 0x27, dquote, CHR 0x60, CHR '']''}"

fun mode_ok :: "scan_mode \<Rightarrow> bool" where
  "mode_ok (Quoted q) = (q \<in> {CHR 0x27, dquote, CHR 0x60})"
| "mode_ok _ = True"

lemma next_char_simps [simp]: "next_char [] = CHR 0x00" "next_char (c # cs) = c"
  by (simp_all add: next_char_def)

lemma safe_simps [simp]: "safe_next (CHR 0x00)" "safe_next (CHR '' '')" "safe_next (CHR '')'')" "safe_next (CHR '','')"
  by (simp_all add: safe_next_def dquote_def)

lemma scan_char_plain:
  "c \<notin> {CHR ''-'', CHR ''/'', CHR 0x27, dquote, CHR 0x60, CHR ''[''} \<Longrightarrow> scan_char Plain c n = (Plain, False, True)"
  by simp

lemma scan_char_safe: "mode_ok m \<Longrightarrow> safe_next n \<Longrightarrow> safe_next n' \<Longrightarrow> scan_char m c n = scan_char m c n'"
  by (cases m) (auto simp: safe_next_def)

lemma scan_char_mode: "mode_ok m \<Longrightarrow> scan_char m c n = (m', skip, plain) \<Longrightarrow> mode_ok m'"
  by (cases m) (auto split: if_splits)

lemma scan_char_no_skip: "mode_ok m \<Longrightarrow> safe_next n \<Longrightarrow> scan_char m c n = (m', skip, plain) \<Longrightarrow> \<not> skip"
  by (cases m) (auto simp: safe_next_def split: if_splits)

lemma scan_append:
  assumes "mode_ok m" and "safe_next (next_char r)"
  shows "plain_at m i (p @ r) = plain_at m i p @ plain_at (scan_end m p) (i + length p) r \<and>
    scan_end m (p @ r) = scan_end (scan_end m p) r \<and> mode_ok (scan_end m p)"
  using assms
proof (induction m i p rule: plain_at.induct)
  case (2 m i c cs)
  show ?case
  proof (cases cs)
    case Nil
    obtain m' skip plain where e: "scan_char m c (next_char r) = (m', skip, plain)" by (metis prod_cases3)
    have "scan_char m c (next_char []) = (m', skip, plain)"
      using scan_char_safe [of m "next_char r" "CHR 0x00" c] "2.prems" e by simp
    moreover have "\<not> skip" "mode_ok m'"
      using scan_char_no_skip [OF "2.prems" e] scan_char_mode [OF "2.prems"(1) e] by simp_all
    ultimately show ?thesis using Nil e by simp
  next
    case (Cons d ds)
    obtain m' skip plain where e: "scan_char m c d = (m', skip, plain)" by (metis prod_cases3)
    note mode = scan_char_mode [OF "2.prems"(1) e]
    have e': "(m', skip, plain) = scan_char m c (next_char cs)" using e Cons by simp
    show ?thesis
    proof (cases skip)
      case True
      with "2.IH"(1) [OF e' refl True mode "2.prems"(2)] e Cons show ?thesis by simp
    next
      case False
      with "2.IH"(2) [OF e' refl False mode "2.prems"(2)] e Cons show ?thesis by simp
    qed
  qed
qed simp

lemma plain_at_append [simp]:
  "safe_next (next_char r) \<Longrightarrow> scan_end Plain p = Plain \<Longrightarrow>
     plain_at Plain i (p @ r) = plain_at Plain i p @ plain_at Plain (i + length p) r"
  using scan_append [of Plain r i p] by simp

lemma scan_end_append [simp]:
  "safe_next (next_char r) \<Longrightarrow> scan_end Plain p = Plain \<Longrightarrow> scan_end Plain (p @ r) = scan_end Plain r"
  using scan_append [of Plain r 0 p] by simp

lemma plain_at_shift: "plain_at m (k + i) p = List.map (\<lambda>(j, c). (k + j, c)) (plain_at m i p)"
proof (induction m i p rule: plain_at.induct)
  case (2 m i c cs)
  obtain m' skip plain where e: "scan_char m c (next_char cs) = (m', skip, plain)" by (metis prod_cases3)
  show ?case
  proof (cases skip)
    case True
    with "2.IH"(1) [OF e [symmetric] refl True] e show ?thesis by (simp only: plain_at.simps) (simp add: add.assoc)
  next
    case False
    with "2.IH"(2) [OF e [symmetric] refl False] e show ?thesis by (simp only: plain_at.simps) (simp add: add.assoc)
  qed
qed simp

lemma plain_at_zero: "plain_at m k p = List.map (\<lambda>(j, c). (k + j, c)) (plain_at m 0 p)"
  using plain_at_shift [of m k 0 p] by simp

lemma plain_at_range: "(j, c) \<in> set (plain_at m i p) \<Longrightarrow> i \<le> j \<and> j < i + length p"
proof (induction m i p rule: plain_at.induct)
  case (2 m i d cs)
  obtain m' skip plain where e: "scan_char m d (next_char cs) = (m', skip, plain)" by (metis prod_cases3)
  show ?case
  proof (cases skip)
    case True
    with "2.prems" e have *: "(j, c) \<in> set (plain_at m' (i + 2) (tl cs))" by simp
    with "2.IH"(1) [OF e [symmetric] refl True] show ?thesis by (cases cs) auto
  next
    case False
    with "2.IH"(2) [OF e [symmetric] refl False] "2.prems" e show ?thesis by (auto split: if_splits)
  qed
qed simp

subsection \<open>Nesting\<close>

text \<open>The depth after the events, \<open>None\<close> when a parenthesis closes that was not opened.\<close>

fun nest :: "nat \<Rightarrow> (nat \<times> char) list \<Rightarrow> nat option" where
  "nest d [] = Some d"
| "nest d ((i, c) # es) =
     (if c = CHR ''('' then nest (d + 1) es
      else if c = CHR '')'' then (if d = 0 then None else nest (d - 1) es)
      else nest d es)"

fun has_comma :: "nat \<Rightarrow> (nat \<times> char) list \<Rightarrow> bool" where
  "has_comma d [] = False"
| "has_comma d ((i, c) # es) =
     (if c = CHR ''('' then has_comma (d + 1) es
      else if c = CHR '')'' then has_comma (d - 1) es
      else c = CHR '','' \<and> d = 0 \<or> has_comma d es)"

lemma nest_append: "nest d (es @ fs) = Option.bind (nest d es) (\<lambda>d'. nest d' fs)"
  by (induction d es rule: nest.induct) auto

lemma nest_shift: "nest d (List.map (\<lambda>(j, c). (k + j, c)) es) = nest d es"
  by (induction d es rule: nest.induct) auto

lemma nest_deeper: "nest d es = Some d' \<Longrightarrow> nest (k + d) es = Some (k + d')"
  by (induction d es arbitrary: d' rule: nest.induct) (auto split: if_splits simp: Suc_diff_le)

lemma has_comma_append: "nest d es = Some d' \<Longrightarrow> has_comma d (es @ fs) \<longleftrightarrow> has_comma d es \<or> has_comma d' fs"
  by (induction d es rule: nest.induct) (auto split: if_splits)

lemma has_comma_shift: "has_comma d (List.map (\<lambda>(j, c). (k + j, c)) es) = has_comma d es"
  by (induction d es rule: has_comma.induct) auto

lemma has_comma_deep: "nest d es = Some d' \<Longrightarrow> \<not> has_comma (Suc (k + d)) es"
  by (induction d es rule: nest.induct) (auto split: if_splits simp: Suc_diff_le)

lemma paren_scan_skip: "nest d es = Some d' \<Longrightarrow> paren_scan (Suc d) (es @ fs) = paren_scan (Suc d') fs"
  by (induction d es rule: nest.induct) (auto split: if_splits)

lemma keyword_scan_append:
  "nest d es = Some d' \<Longrightarrow> keyword_scan t kw d (es @ fs) =
     (case keyword_scan t kw d es of Some i \<Rightarrow> Some i | None \<Rightarrow> keyword_scan t kw d' fs)"
  by (induction t kw d es rule: keyword_scan.induct) (auto split: if_splits)

lemma keyword_scan_deep: "nest d es = Some d' \<Longrightarrow> keyword_scan t kw (Suc (k + d)) es = None"
  by (induction d es rule: nest.induct) (auto split: if_splits simp: Suc_diff_le)

lemma split_scan_skip:
  "nest d es = Some d' \<Longrightarrow> \<not> has_comma d es \<Longrightarrow> split_scan b d start (es @ fs) = split_scan b d' start fs"
  by (induction b d start es rule: split_scan.induct) (auto split: if_splits)

subsection \<open>Balanced text\<close>

text \<open>
  Text that ends outside quotes, brackets and comments and closes exactly the parentheses it opens; as
  part of a list it also has no comma outside parentheses.
\<close>

definition balanced :: "string \<Rightarrow> bool" where
  "balanced p \<longleftrightarrow> scan_end Plain p = Plain \<and> nest 0 (plain_at Plain 0 p) = Some 0"

definition list_item :: "string \<Rightarrow> bool" where
  "list_item p \<longleftrightarrow> balanced p \<and> \<not> has_comma 0 (plain_at Plain 0 p)"

lemma balanced_nest: "balanced p \<Longrightarrow> nest d (plain_at Plain k p) = Some d"
  using nest_deeper [of 0 "plain_at Plain 0 p" 0 d] by (simp add: balanced_def plain_at_zero [of _ k] nest_shift)

lemma list_item_comma: "list_item p \<Longrightarrow> \<not> has_comma d (plain_at Plain k p)"
  using has_comma_deep [of 0 "plain_at Plain 0 p" 0 "d - 1"]
  by (cases d) (auto simp: list_item_def balanced_def plain_at_zero [of _ k] has_comma_shift)

lemma balanced_append:
  "balanced p \<Longrightarrow> balanced r \<Longrightarrow> safe_next (next_char r) \<Longrightarrow> balanced (p @ r)"
  using balanced_nest [of p 0 0] balanced_nest [of r 0 "length p"] by (simp add: balanced_def nest_append)

lemma list_item_append:
  "list_item p \<Longrightarrow> list_item r \<Longrightarrow> safe_next (next_char r) \<Longrightarrow> list_item (p @ r)"
  using balanced_append [of p r] list_item_comma [of r 0 "length p"] balanced_nest [of p 0 0]
  by (simp add: list_item_def balanced_def has_comma_append)

lemma balanced_parens:
  assumes "balanced e"
  shows "list_item ([CHR ''(''] @ e @ [CHR '')''])"
proof -
  have e: "plain_at Plain 0 ([CHR ''(''] @ e @ [CHR '')'']) =
      (0, CHR ''('') # plain_at Plain 1 e @ [(1 + length e, CHR '')'')]"
    "scan_end Plain ([CHR ''(''] @ e @ [CHR '')'']) = Plain"
    using assms by (simp_all add: balanced_def dquote_def)
  have n: "nest 1 (plain_at Plain 1 e) = Some 1" by (rule balanced_nest [OF assms])
  have c: "\<not> has_comma 1 (plain_at Plain 1 e)"
    using has_comma_deep [of 0 "plain_at Plain 1 e" 0 0] balanced_nest [OF assms, of 0 1] by simp
  show ?thesis using n c by (simp add: list_item_def balanced_def e nest_append has_comma_append del: append_Cons)
qed

lemma find_matching_paren:
  assumes "balanced e"
  shows "find_sql_matching_paren (a @ [CHR ''(''] @ e @ [CHR '')''] @ r) (length a) = Some (length a + 1 + length e)"
proof -
  have "plain_at Plain (length a + 1) (e @ [CHR '')''] @ r) =
      plain_at Plain (length a + 1) e @ (length a + 1 + length e, CHR '')'') # plain_at Plain (Suc (length a + 1 + length e)) r"
    using assms by (simp add: balanced_def dquote_def)
  then show ?thesis
    using paren_scan_skip [OF balanced_nest [OF assms], of 0 "length a + 1"]
    by (simp add: find_sql_matching_paren_def matching_paren_events nth_append)
qed

subsection \<open>Words at their borders\<close>

definition word_border :: "string \<Rightarrow> string \<Rightarrow> bool" where
  "word_border a b \<longleftrightarrow> (a = [] \<or> \<not> sql_identifier_char (last a)) \<and> (b = [] \<or> \<not> sql_identifier_char (hd b))"

text \<open>A keyword of the parser: capital letters.\<close>

definition sql_keyword :: "string \<Rightarrow> bool" where
  "sql_keyword kw \<longleftrightarrow> kw \<noteq> [] \<and> list_all (\<lambda>c. is_alpha c \<and> to_upper c = c) kw"

lemma identifier_char_upper: "sql_identifier_char (to_upper c) \<longleftrightarrow> sql_identifier_char c"
proof (cases "97 \<le> (of_char c :: nat) \<and> (of_char c :: nat) \<le> 122")
  case True
  then have "(of_char c - 32) mod 256 = (of_char c - 32 :: nat)" by (intro mod_less) linarith
  with True have "(of_char (to_upper c) :: nat) = of_char c - 32" by (simp add: to_upper_def)
  then have "65 \<le> (of_char (to_upper c) :: nat) \<and> (of_char (to_upper c) :: nat) \<le> 90" using True by linarith
  with True show ?thesis by (simp add: sql_identifier_char_def is_alnum_def is_alpha_def Let_def)
next
  case False
  then have "to_upper c = c" by (auto simp: to_upper_def Let_def)
  then show ?thesis by simp
qed

lemma keyword_at_inside:
  assumes "word_border a b" and "sql_keyword kw" and "j < length p"
  shows "sql_keyword_at (a @ p @ b) (length a + j) kw \<longleftrightarrow> sql_keyword_at p j kw"
proof (cases "j + length kw \<le> length p")
  case True
  have first: "0 < length a + j \<and> sql_identifier_char ((a @ p @ b) ! (length a + j - 1)) \<longleftrightarrow>
      0 < j \<and> sql_identifier_char (p ! (j - 1))"
    using assms(1,3) by (cases j) (auto simp: word_border_def nth_append last_conv_nth)
  have behind: "length a + j + length kw < length (a @ p @ b) \<and> sql_identifier_char ((a @ p @ b) ! (length a + j + length kw)) \<longleftrightarrow>
      j + length kw < length p \<and> sql_identifier_char (p ! (j + length kw))"
  proof (cases "j + length kw = length p")
    case True
    then have "length a + j + length kw = length a + length p" by simp
    with True assms(1) show ?thesis by (auto simp: word_border_def nth_append hd_conv_nth)
  next
    case False
    with \<open>j + length kw \<le> length p\<close> show ?thesis by (auto simp: nth_append)
  qed
  have "take (length kw) (drop (length a + j) (a @ p @ b)) = take (length kw) (drop j p)"
    using True by simp
  with first behind True show ?thesis by (simp add: sql_keyword_at_def)
next
  case False
  have "\<not> sql_keyword_at (a @ p @ b) (length a + j) kw"
  proof
    assume at: "sql_keyword_at (a @ p @ b) (length a + j) kw"
    let ?k = "length p - j"
    have k: "?k < length kw" and b: "b \<noteq> []"
      using False assms(3) at by (auto simp: sql_keyword_at_def)
    let ?t = "take (length kw) (drop (length a + j) (a @ p @ b))"
    have "?k < length ?t" using k at by (auto simp: sql_keyword_at_def)
    then have "to_upper (?t ! ?k) = List.map to_upper ?t ! ?k" by (simp only: nth_map)
    also have "List.map to_upper ?t = List.map to_upper kw" using at by (simp only: sql_keyword_at_def)
    also have "\<dots> ! ?k = to_upper (kw ! ?k)" using k by simp
    also have "?t ! ?k = hd b" using k assms(3) b at by (simp add: nth_append hd_conv_nth)
    finally have "to_upper (hd b) = to_upper (kw ! ?k)" .
    moreover have "sql_identifier_char (kw ! ?k)"
      using assms(2) k by (simp add: sql_keyword_def list_all_length sql_identifier_char_def is_alnum_def)
    ultimately have "sql_identifier_char (hd b)" using identifier_char_upper by metis
    with assms(1) b show False by (simp add: word_border_def)
  qed
  with False show ?thesis by (auto simp: sql_keyword_at_def)
qed

lemma keyword_scan_inside:
  assumes "word_border a b" and "sql_keyword kw" and "\<forall>(j, c) \<in> set es. j < length p"
  shows "keyword_scan (a @ p @ b) kw d (List.map (\<lambda>(j, c). (length a + j, c)) es) =
    map_option ((+) (length a)) (keyword_scan p kw d es)"
  using assms(3)
proof (induction es arbitrary: d)
  case (Cons e es)
  obtain i c where "e = (i, c)" by force
  with Cons keyword_at_inside [OF assms(1,2), of i p] show ?case by simp
qed simp

text \<open>A keyword search that starts at a part goes through the part, or ends in it.\<close>

lemma find_keyword_part:
  assumes "balanced p" and "word_border a b" and "safe_next (next_char b)" and "sql_keyword kw"
  shows "find_sql_keyword_top_level (a @ p @ b) kw (length a) =
    (case find_sql_keyword_top_level p kw 0 of
       Some j \<Rightarrow> Some (length a + j)
     | None \<Rightarrow> find_sql_keyword_top_level (a @ p @ b) kw (length (a @ p)))"
proof -
  have r: "\<forall>(j, c) \<in> set (plain_at Plain 0 p). j < length p" using plain_at_range [where i = 0] by fastforce
  have "plain_at Plain (length a) (p @ b) = plain_at Plain (length a) p @ plain_at Plain (length a + length p) b"
    using assms by (simp add: balanced_def)
  then show ?thesis
    using balanced_nest [OF assms(1), of 0 "length a"] keyword_scan_inside [OF assms(2,4) r, of 0]
    by (simp add: find_sql_keyword_top_level_def keyword_events keyword_scan_append plain_at_zero [of _ "length a" p]
        split: option.split)
qed

subsection \<open>Quoted identifiers and quoted text\<close>

text \<open>Inside quotes nothing is plain; a doubled quote does not end them.\<close>

lemma scan_quote_body:
  "safe_next (next_char r) \<Longrightarrow>
     plain_at (Quoted dquote) i (quote_body s @ dquote # r) = plain_at Plain (i + length (quote_body s) + 1) r \<and>
     scan_end (Quoted dquote) (quote_body s @ dquote # r) = scan_end Plain r"
proof (induction s arbitrary: i)
  case Nil
  then show ?case by (auto simp: safe_next_def)
next
  case (Cons c s)
  then show ?case by (simp add: eval_nat_numeral)
qed

lemma scan_quoted_identifier [simp]:
  "plain_at Plain i (quote_ansi_identifier s) = []" "scan_end Plain (quote_ansi_identifier s) = Plain"
  using scan_quote_body [of "[]" "i + 1" s]
  by (simp_all add: quote_ansi_identifier_def dquote_def)

lemma quoted_identifier_item: "list_item (quote_ansi_identifier s)"
  by (simp add: list_item_def balanced_def)

lemma find_keyword_quoted [simp]: "find_sql_keyword_top_level (quote_ansi_identifier s) kw 0 = None"
  by (simp add: find_sql_keyword_top_level_def keyword_events)

text \<open>A quoted identifier is read back as the identifier, up to the closing quote.\<close>

lemma read_quote_body:
  "next_char r \<noteq> dquote \<Longrightarrow>
     read_quoted dquote i (quote_body s @ dquote # r) = (Some s, i + length (quote_body s) + 1)"
proof (induction s arbitrary: i)
  case Nil
  then show ?case by (cases r) auto
qed auto

lemma read_quoted_identifier:
  assumes "next_char r \<noteq> dquote"
  shows "read_sql_identifier (a @ quote_ansi_identifier s @ r) (length a) =
    (Some s, length a + length (quote_ansi_identifier s))"
  using read_quote_body [OF assms, of "Suc (length a)" s]
  by (simp add: read_sql_identifier_def skip_sql_space_def quote_ansi_identifier_def nth_append is_space_def dquote_def)

end
