(* ===== verification/Ddl_Words.thy ===== *)
theory Ddl_Words
  imports Ddl Sql_Scan
begin

section \<open>Generated definitions as lists of words\<close>

text \<open>
  What the generator writes for a column is the quoted name followed by words, each after one space. A
  word is a keyword, a quoted name, text in parentheses, or the type or default of the mapping.
\<close>

definition spaced :: "string list \<Rightarrow> string" where
  "spaced ws = concat (List.map ((#) (CHR '' '')) ws)"

lemma spaced_simps [simp]:
  "spaced [] = []" "spaced (w # ws) = CHR '' '' # w @ spaced ws" "spaced (us @ vs) = spaced us @ spaced vs"
  by (simp_all add: spaced_def)

lemma spaced_next [simp]: "safe_next (next_char (spaced ws))" "next_char (spaced ws) \<noteq> dquote"
  by (cases ws; simp add: dquote_def)+

lemma spaced_border: "word_border (a @ [CHR '' '']) (spaced ws)"
  by (cases ws) (simp_all add: word_border_def sql_identifier_char_def is_alnum_def is_alpha_def)

lemma list_item_space: "list_item w \<Longrightarrow> list_item (CHR '' '' # w)"
  using balanced_nest [of w 0 "Suc 0"] list_item_comma [of w 0 "Suc 0"]
  by (simp add: list_item_def balanced_def dquote_def)

lemma list_item_spaced: "list_all list_item ws \<Longrightarrow> list_item (spaced ws)"
proof (induction ws)
  case Nil
  then show ?case by (simp add: list_item_def balanced_def)
next
  case (Cons w ws)
  then have "list_item ((CHR '' '' # w) @ spaced ws)" by (intro list_item_append list_item_space) simp_all
  then show ?case by simp
qed

lemma keyword_not_at:
  assumes "sql_keyword kw" and "sql_keyword_at t j kw"
  shows "j < length t \<and> is_alpha (t ! j)"
proof -
  obtain k ks where kw: "kw = k # ks" "is_alpha k" "to_upper k = k"
    using assms(1) by (cases kw) (auto simp: sql_keyword_def)
  with assms(2) have j: "j < length t" by (simp add: sql_keyword_at_def)
  then obtain c cs where d: "drop j t = c # cs" by (metis drop_eq_Nil leD neq_Nil_conv)
  then have c: "c = t ! j" by (metis hd_drop_conv_nth j list.sel(1))
  have "to_upper c = k" using assms(2) kw(1,3) d by (auto simp: sql_keyword_at_def)
  with kw(2) have "is_alpha (to_upper c)" by simp
  then have "is_alpha c" by (auto simp: is_alpha_def to_upper_def Let_def split: if_splits)
  with j c show ?thesis by simp
qed

lemma find_keyword_space:
  assumes "sql_keyword kw"
  shows "find_sql_keyword_top_level (a @ CHR '' '' # r) kw (length a) =
    find_sql_keyword_top_level (a @ CHR '' '' # r) kw (Suc (length a))"
proof -
  have "\<not> sql_keyword_at (a @ CHR '' '' # r) (length a) kw"
    using keyword_not_at [OF assms, of "a @ CHR '' '' # r" "length a"] by (auto simp: is_alpha_def)
  then show ?thesis by (simp add: find_sql_keyword_top_level_def dquote_def)
qed

text \<open>A word in which the search for a keyword finds nothing and goes on behind it.\<close>

definition lacks :: "string \<Rightarrow> string \<Rightarrow> bool" where
  "lacks kw w \<longleftrightarrow> balanced w \<and> find_sql_keyword_top_level w kw 0 = None"

lemma find_keyword_words:
  assumes "sql_keyword kw" and "list_all (lacks kw) us"
  shows "find_sql_keyword_top_level (a @ spaced us @ spaced vs) kw (length a) =
    find_sql_keyword_top_level (a @ spaced us @ spaced vs) kw (length a + length (spaced us))"
  using assms(2)
proof (induction us arbitrary: a)
  case (Cons u us)
  have "find_sql_keyword_top_level ((a @ [CHR '' '']) @ u @ spaced (us @ vs)) kw (length (a @ [CHR '' ''])) =
      find_sql_keyword_top_level ((a @ [CHR '' '']) @ u @ spaced (us @ vs)) kw (length ((a @ [CHR '' '']) @ u))"
    by (subst find_keyword_part) (use Cons.prems assms(1) in \<open>simp_all add: spaced_border lacks_def del: spaced_simps\<close>)
  then show ?case
    using Cons.IH [of "a @ CHR '' '' # u"] Cons.prems find_keyword_space [OF assms(1), of a "u @ spaced us @ spaced vs"]
    by (simp add: ac_simps)
qed simp

lemma alpha_plain:
  "is_alpha c \<Longrightarrow> c \<notin> {CHR ''-'', CHR ''/'', CHR 0x27, dquote, CHR 0x60, CHR ''['', CHR ''('', CHR '')'', CHR '',''}"
  by (auto simp: is_alpha_def dquote_def)

lemma find_keyword_itself:
  assumes "sql_keyword kw"
  shows "find_sql_keyword_top_level kw kw 0 = Some 0"
proof -
  obtain k ks where kw: "kw = k # ks" "is_alpha k" using assms by (cases kw) (auto simp: sql_keyword_def)
  with scan_char_plain [of k "next_char ks"] alpha_plain [OF kw(2)] show ?thesis
    by (simp add: find_sql_keyword_top_level_def sql_keyword_at_def del: scan_char.simps)
qed

lemma balanced_word:
  assumes "list_all is_alpha w"
  shows "scan_end Plain w = Plain \<and> (\<forall>i d. nest d (plain_at Plain i w) = Some d \<and> \<not> has_comma d (plain_at Plain i w))"
  using assms
proof (induction w)
  case (Cons c cs)
  then have "is_alpha c" by simp
  with Cons scan_char_plain [of c "next_char cs"] alpha_plain [of c] show ?case by (simp del: scan_char.simps)
qed simp

lemma list_item_word: "list_all is_alpha w \<Longrightarrow> list_item w"
  using balanced_word [of w] by (simp add: list_item_def balanced_def)

lemma balanced_keyword: "sql_keyword kw \<Longrightarrow> balanced kw"
  using list_item_word [of kw] by (simp add: list_item_def sql_keyword_def list_all_iff)

text \<open>In a word of letters a keyword is found only when the word is the keyword.\<close>

lemma keyword_at_alpha:
  assumes "list_all is_alpha w" and "sql_keyword_at w j kw" and "j < length w"
  shows "j = 0 \<and> List.map to_upper w = List.map to_upper kw"
proof -
  have letter: "i < length w \<Longrightarrow> sql_identifier_char (w ! i)" for i
    using assms(1) by (simp add: list_all_length sql_identifier_char_def is_alnum_def)
  have at: "j + length kw \<le> length w" "\<not> (j > 0 \<and> sql_identifier_char (w ! (j - 1)))"
      "\<not> (j + length kw < length w \<and> sql_identifier_char (w ! (j + length kw)))"
      "List.map to_upper (take (length kw) (drop j w)) = List.map to_upper kw"
    using assms(2) by (simp_all add: sql_keyword_at_def)
  have j: "j = 0" using at(2) letter [of "j - 1"] assms(3) by (cases j) auto
  moreover have "length kw = length w" using at(1,3) letter [of "j + length kw"] j by (cases "length kw < length w") auto
  ultimately show ?thesis using at(4) by simp
qed

lemma lacks_word:
  assumes "list_all is_alpha w" and "List.map to_upper w \<noteq> List.map to_upper kw"
  shows "lacks kw w"
proof -
  have "keyword_scan w kw d es = None" if "\<forall>(j, c) \<in> set es. j < length w" for d es
    using that keyword_at_alpha [OF assms(1)] assms(2)
    by (induction es arbitrary: d) auto
  moreover have "\<forall>(j, c) \<in> set (plain_at Plain 0 w). j < length w" using plain_at_range [where i = 0] by fastforce
  ultimately show ?thesis
    using list_item_word [OF assms(1)] by (simp add: lacks_def list_item_def find_sql_keyword_top_level_def keyword_events)
qed

lemma find_keyword_found:
  assumes "sql_keyword kw" and "list_all (lacks kw) us"
  shows "find_sql_keyword_top_level (a @ spaced us @ spaced (kw # vs)) kw (length a) = Some (length a + length (spaced us) + 1)"
proof -
  have "find_sql_keyword_top_level ((a @ spaced us @ [CHR '' '']) @ kw @ spaced vs) kw (length (a @ spaced us @ [CHR '' ''])) =
      Some (length (a @ spaced us @ [CHR '' '']))"
    by (subst find_keyword_part)
      (use assms(1) spaced_border [of "a @ spaced us"] in \<open>simp_all add: find_keyword_itself balanced_keyword del: spaced_simps\<close>)
  then show ?thesis
    using find_keyword_words [OF assms, of a "kw # vs"] find_keyword_space [OF assms(1), of "a @ spaced us" "kw @ spaced vs"]
    by simp
qed

lemma find_keyword_missing:
  assumes "sql_keyword kw" and "list_all (lacks kw) us"
  shows "find_sql_keyword_top_level (a @ spaced us) kw (length a) = None"
  using find_keyword_words [OF assms, of a "[]"] by (simp add: find_sql_keyword_top_level_def)

subsection \<open>Reading after a space\<close>

text \<open>A word that can follow a space: it has a first character, which is no space.\<close>

definition solid :: "string \<Rightarrow> bool" where
  "solid w \<longleftrightarrow> w \<noteq> [] \<and> \<not> is_space (hd w)"

lemma solid_quoted [simp]: "solid (quote_ansi_identifier n)"
  by (simp add: solid_def quote_ansi_identifier_def is_space_def dquote_def)

lemma skip_one_space [simp]: "solid w \<Longrightarrow> skip_sql_space (a @ CHR '' '' # w @ r) (length a) = Suc (length a)"
  by (cases w) (simp_all add: solid_def skip_sql_space_def is_space_def)

lemma skip_no_space: "solid w \<Longrightarrow> skip_sql_space (a @ w @ r) (length a) = length a"
  by (cases w) (simp_all add: solid_def skip_sql_space_def)

lemma solid_keyword: "sql_keyword kw \<Longrightarrow> solid kw"
  by (cases kw) (auto simp: sql_keyword_def solid_def is_alpha_def is_space_def)

lemma read_spaced_name:
  "read_sql_identifier (a @ CHR '' '' # quote_ansi_identifier n @ spaced vs) (length a) =
     (Some n, Suc (length a) + length (quote_ansi_identifier n))"
proof -
  let ?t = "a @ CHR '' '' # quote_ansi_identifier n @ spaced vs"
  have "read_sql_identifier ?t (length a) = read_sql_identifier ?t (Suc (length a))"
    using skip_no_space [of "quote_ansi_identifier n" "a @ [CHR '' '']" "spaced vs"]
    by (simp add: read_sql_identifier_def)
  then show ?thesis using read_quoted_identifier [of "spaced vs" "a @ [CHR '' '']" n] by simp
qed

lemma keyword_at_word:
  assumes "sql_keyword kw" and "w \<noteq> []"
  shows "sql_keyword_at (a @ CHR '' '' # w @ spaced vs) (Suc (length a)) kw \<longleftrightarrow> sql_keyword_at w 0 kw"
  using keyword_at_inside [OF spaced_border assms(1), of 0 w a vs] assms(2) by simp

lemma keyword_at_itself [simp]: "sql_keyword_at kw 0 kw"
  by (simp add: sql_keyword_at_def)

subsection \<open>Names of constraints\<close>

lemma constraint_keyword: "sql_keyword ''CONSTRAINT''"
  by (simp add: sql_keyword_def is_alpha_def to_upper_def)

text \<open>The search starts anew at the same place when nothing was passed.\<close>

lemma constraint_name_start:
  assumes "find_sql_keyword_top_level t ''CONSTRAINT'' i = find_sql_keyword_top_level t ''CONSTRAINT'' j"
    and "i < target" and "j < target"
  shows "constraint_name_loop t target i = constraint_name_loop t target j"
  using assms by (simp add: constraint_name_loop.simps [of t target])

lemma constraint_name_missing:
  assumes "list_all (lacks ''CONSTRAINT'') us" and "target \<le> Suc (length a + length (spaced us))"
  shows "constraint_name_loop (a @ spaced us @ spaced vs) target (length a) = None"
proof -
  have "find_sql_keyword_top_level (a @ spaced us @ spaced vs) ''CONSTRAINT'' (length a) =
      find_sql_keyword_top_level (a @ spaced us @ spaced vs) ''CONSTRAINT'' (length a + length (spaced us))" (is "_ = ?f")
    using find_keyword_words constraint_keyword assms(1) by blast
  moreover have "?f = Some j \<Longrightarrow> target \<le> j" for j
    using find_sql_keyword_ge [of "a @ spaced us @ spaced vs" "''CONSTRAINT''" "Suc (length a + length (spaced us))" j]
      find_keyword_space [OF constraint_keyword, of "a @ spaced us"] assms(2)
    by (cases vs) (auto simp: find_sql_keyword_top_level_def)
  ultimately show ?thesis by (subst constraint_name_loop.simps) (auto split: option.split)
qed

lemma constraint_name_unfold:
  assumes "find_sql_keyword_top_level t ''CONSTRAINT'' i = Some cpos" and "i < target" and "cpos < target"
    and "j = cpos + length ''CONSTRAINT''" and "read_sql_identifier t j = (Some n, pos)" and "skip_sql_space t pos = k"
  shows "constraint_name_loop t target i = (if k = target then Some n else constraint_name_loop t target j)"
  using assms by (subst constraint_name_loop.simps) (simp del: list.size)

lemma constraint_name_step:
  assumes "list_all (lacks ''CONSTRAINT'') us" and "solid v"
    and target: "length (a @ spaced (us @ [''CONSTRAINT'', quote_ansi_identifier n])) < target"
  shows "constraint_name_loop (a @ spaced (us @ [''CONSTRAINT'', quote_ansi_identifier n]) @ spaced (v # vs)) target (length a) =
    (if target = Suc (length (a @ spaced (us @ [''CONSTRAINT'', quote_ansi_identifier n]))) then Some n
     else constraint_name_loop (a @ spaced (us @ [''CONSTRAINT'', quote_ansi_identifier n]) @ spaced (v # vs)) target
       (length (a @ spaced (us @ [''CONSTRAINT'']))))"
proof -
  let ?ws = "us @ [''CONSTRAINT'', quote_ansi_identifier n]"
  let ?t = "a @ spaced ?ws @ spaced (v # vs)"
  have f: "find_sql_keyword_top_level ?t ''CONSTRAINT'' (length a) = Some (length a + length (spaced us) + 1)"
    using find_keyword_found [OF constraint_keyword, OF assms(1), of a "quote_ansi_identifier n # v # vs"]
    by simp
  have r: "read_sql_identifier ?t (length (a @ spaced (us @ [''CONSTRAINT'']))) = (Some n, length (a @ spaced ?ws))"
    using read_spaced_name [of "a @ spaced (us @ [''CONSTRAINT''])" n "v # vs"] by simp
  have k: "skip_sql_space ?t (length (a @ spaced ?ws)) = Suc (length (a @ spaced ?ws))"
    using skip_one_space [OF assms(2), of "a @ spaced ?ws" "spaced vs"] by simp
  have j: "length (a @ spaced (us @ [''CONSTRAINT''])) = length a + length (spaced us) + 1 + length ''CONSTRAINT''"
    and l: "length a < target" "length a + length (spaced us) + 1 < target"
    using target by simp_all
  show ?thesis unfolding constraint_name_unfold [OF f l j r k] by auto
qed

end
