(* ===== verification/Ddl_Round_Trip.thy ===== *)
theory Ddl_Round_Trip
  imports Ddl_Words
begin

section \<open>The parser reads back what the generator writes\<close>

text \<open>
  A table made by \<open>create_table_sql\<close> on SQLite and read back by the three parsers gets the unique flags,
  constraint names, checks and deferred foreign keys of its mapping, whatever the names of the mapping
  contain. The texts a mapping gives as SQL (a declared type, a raw default, a check) are to be balanced
  and, outside their parentheses and quotes, without the keywords the parser looks for.
\<close>

subsection \<open>Texts of a mapping\<close>

definition searched_keywords :: "string list" where
  "searched_keywords = [''CONSTRAINT'', ''UNIQUE'', ''CHECK'', ''REFERENCES'']"

definition plain_word :: "string \<Rightarrow> bool" where
  "plain_word w \<longleftrightarrow> list_item w \<and> list_all (\<lambda>kw. lacks kw w) searched_keywords"

definition given_text_ok :: "string \<Rightarrow> bool" where
  "given_text_ok w \<longleftrightarrow> plain_word w \<and> w \<noteq> [] \<and> \<not> is_space (last w)"

definition default_ok :: "(u64 \<Rightarrow> string) \<Rightarrow> default_annotation \<Rightarrow> bool" where
  "default_ok real v = (case v of Default_sql e \<Rightarrow> given_text_ok e | Default_real d \<Rightarrow> given_text_ok (real d) | _ \<Rightarrow> True)"

definition column_ok :: "(u64 \<Rightarrow> string) \<Rightarrow> column_mapping \<Rightarrow> bool" where
  "column_ok real c \<longleftrightarrow>
     (case cm_database_type c of None \<Rightarrow> True | Some n \<Rightarrow> given_text_ok n) \<and>
     (case cm_default c of None \<Rightarrow> True | Some v \<Rightarrow> default_ok real v) \<and>
     (case cm_check c of None \<Rightarrow> True | Some e \<Rightarrow> balanced e)"

definition mapping_ok :: "(u64 \<Rightarrow> string) \<Rightarrow> table_mapping \<Rightarrow> bool" where
  "mapping_ok real t \<longleftrightarrow>
     list_all (column_ok real) (mt_columns t) \<and> list_all (\<lambda>k. balanced (ck_expression k)) (mt_checks t) \<and>
     mt_columns t \<noteq> [] \<and> distinct (List.map cm_name (mt_columns t))"

lemma searched_sql_keyword: "kw \<in> set searched_keywords \<Longrightarrow> sql_keyword kw"
  by (auto simp: searched_keywords_def sql_keyword_def is_alpha_def to_upper_def)

subsection \<open>The words of a column\<close>

definition type_words :: "nat \<Rightarrow> column_mapping \<Rightarrow> string list" where
  "type_words n c = [sqlite_column_type_name c] @
     (if cm_primary_key c \<and> n = 1 then [''PRIMARY'', ''KEY''] else []) @
     (if cm_generated c then [''AUTOINCREMENT''] else []) @
     (if \<not> is_optional (cm_type c) \<and> (\<not> cm_primary_key c \<or> n > 1) then [''NOT'', ''NULL''] else [])"

definition unique_words :: "column_mapping \<Rightarrow> string list" where
  "unique_words c = (case cm_unique c of None \<Rightarrow> [] | Some None \<Rightarrow> [''UNIQUE'']
     | Some (Some n) \<Rightarrow> [''CONSTRAINT'', quote_ansi_identifier n, ''UNIQUE''])"

definition default_words :: "(u64 \<Rightarrow> string) \<Rightarrow> column_mapping \<Rightarrow> string list" where
  "default_words real c = (case cm_default c of None \<Rightarrow> [] | Some v \<Rightarrow> [''DEFAULT'', column_default_sql real v])"

definition in_parens :: "string \<Rightarrow> string" where
  "in_parens e = [CHR ''(''] @ e @ [CHR '')'']"

definition check_words :: "column_mapping \<Rightarrow> string list" where
  "check_words c = (case cm_check c of None \<Rightarrow> [] | Some e \<Rightarrow> [''CHECK'', in_parens e])"

definition action_words :: "reference_annotation \<Rightarrow> string list" where
  "action_words r = [quote_ansi_identifier (ra_table r), in_parens (quote_ansi_identifier (ra_column r))] @
     (if ra_on_delete r = Unspecified then [] else [''ON'', ''DELETE'', referential_action_sql (ra_on_delete r)]) @
     (if ra_on_update r = Unspecified then [] else [''ON'', ''UPDATE'', referential_action_sql (ra_on_update r)])"

definition deferred_words :: "reference_annotation \<Rightarrow> string list" where
  "deferred_words r = (if ra_deferrable r then [''DEFERRABLE'', ''INITIALLY'', ''DEFERRED''] else [])"

definition name_words :: "reference_annotation \<Rightarrow> string list" where
  "name_words r = (if ra_constraint_name r = [] then [] else [''CONSTRAINT'', quote_ansi_identifier (ra_constraint_name r)])"

definition reference_words :: "column_mapping \<Rightarrow> string list" where
  "reference_words c = (case cm_reference c of None \<Rightarrow> []
     | Some r \<Rightarrow> name_words r @ ''REFERENCES'' # action_words r @ deferred_words r)"

definition column_words :: "(u64 \<Rightarrow> string) \<Rightarrow> nat \<Rightarrow> column_mapping \<Rightarrow> string list" where
  "column_words real n c =
     type_words n c @ unique_words c @ default_words real c @ check_words c @ reference_words c"

lemma action_empty: "referential_action_sql a = [] \<longleftrightarrow> a = Unspecified"
  by (cases a) simp_all

lemma sqlite_dialect_simps [simp]:
  "d_quote sqlite_dialect = quote_ansi_identifier" "d_family sqlite_dialect = SQLite"
  "column_type_name sqlite_dialect c = sqlite_column_type_name c"
  by (simp_all add: sqlite_dialect_def column_type_name_def)

lemma column_sql_words:
  "column_sql real sqlite_dialect n c = quote_ansi_identifier (cm_name c) @ spaced (column_words real n c)"
proof -
  have "(case cm_unique c of None \<Rightarrow> [] | Some u \<Rightarrow> column_unique_sql sqlite_dialect u) = spaced (unique_words c)"
    by (auto simp: unique_words_def column_unique_sql_def split: option.split)
  moreover have "(case cm_default c of None \<Rightarrow> [] | Some v \<Rightarrow> '' DEFAULT '' @ column_default_sql real v) = spaced (default_words real c)"
    by (auto simp: default_words_def split: option.split)
  moreover have "(case cm_check c of None \<Rightarrow> [] | Some e \<Rightarrow> column_check_sql e) = spaced (check_words c)"
    by (auto simp: check_words_def column_check_sql_def in_parens_def split: option.split)
  moreover have "(case cm_reference c of None \<Rightarrow> [] | Some r \<Rightarrow> physical_reference_sql sqlite_dialect r) = spaced (reference_words c)"
    by (auto simp: reference_words_def physical_reference_sql_def name_words_def action_words_def deferred_words_def
        in_parens_def action_empty split: option.split)
  ultimately show ?thesis
    by (simp add: column_sql_def column_words_def type_words_def)
qed

subsection \<open>Every word is an item, and lacks what it should\<close>

lemma lacks_quiet:
  assumes "list_item w" and "sql_keyword kw" and "\<forall>c \<in> set w. \<not> is_alpha c"
  shows "lacks kw w"
proof -
  have "keyword_scan w kw d es = None" for d es
    using keyword_not_at [OF assms(2)] assms(3)
    by (induction es arbitrary: d) (auto, metis nth_mem)
  with assms(1) show ?thesis
    by (simp add: lacks_def list_item_def find_sql_keyword_top_level_def keyword_events)
qed

lemma plain_word_quoted [simp]: "plain_word (quote_ansi_identifier n)"
  using quoted_identifier_item [of n] by (simp add: plain_word_def lacks_def list_item_def list_all_iff)

lemma lacks_quoted [simp]: "lacks kw (quote_ansi_identifier n)"
  using quoted_identifier_item [of n] by (simp add: lacks_def list_item_def)

lemma lacks_parens:
  assumes "balanced e"
  shows "lacks kw (in_parens e)"
proof -
  have "plain_at Plain 0 (in_parens e) = (0, CHR ''('') # plain_at Plain 1 e @ [(1 + length e, CHR '')'')]"
    using assms by (simp add: in_parens_def balanced_def dquote_def)
  then have "find_sql_keyword_top_level (in_parens e) kw 0 = None"
    using keyword_scan_deep [OF balanced_nest [OF assms, of 0 1], of "in_parens e" kw 0] balanced_nest [OF assms, of 1 1]
    by (simp add: find_sql_keyword_top_level_def keyword_events keyword_scan_append)
  with balanced_parens [OF assms] show ?thesis by (simp add: lacks_def list_item_def in_parens_def)
qed

lemma plain_word_parens: "balanced e \<Longrightarrow> plain_word (in_parens e)"
  using balanced_parens [of e] lacks_parens [of e] by (simp add: plain_word_def in_parens_def list_all_iff)

lemma balanced_quoted [simp]: "balanced (quote_ansi_identifier n)"
  using quoted_identifier_item [of n] by (simp add: list_item_def)

lemma scan_text_body:
  "plain_at (Quoted (CHR 0x27)) i (concat (List.map (\<lambda>c. if c = CHR 0x27 then [CHR 0x27, c] else [c]) v) @ [CHR 0x27]) = [] \<and>
   scan_end (Quoted (CHR 0x27)) (concat (List.map (\<lambda>c. if c = CHR 0x27 then [CHR 0x27, c] else [c]) v) @ [CHR 0x27]) = Plain"
  by (induction v arbitrary: i) (auto simp: eval_nat_numeral)

lemma scan_text [simp]: "plain_at Plain i (quote_sql_text v) = []" "scan_end Plain (quote_sql_text v) = Plain"
  using scan_text_body [of "i + 1" v] by (simp_all add: quote_sql_text_def)

lemma plain_word_text: "plain_word (quote_sql_text v)"
  by (simp add: plain_word_def lacks_def list_item_def balanced_def list_all_iff find_sql_keyword_top_level_def keyword_events)

definition decimal :: "char \<Rightarrow> bool" where
  "decimal c \<longleftrightarrow> (let n = (of_char c :: nat) in 48 \<le> n \<and> n \<le> 57)"

lemma scan_digits:
  "list_all decimal s \<Longrightarrow> scan_end Plain s = Plain \<and>
     (\<forall>i d. nest d (plain_at Plain i s) = Some d \<and> \<not> has_comma d (plain_at Plain i s))"
proof (induction s)
  case (Cons c cs)
  then have "c \<notin> {CHR ''-'', CHR ''/'', CHR 0x27, dquote, CHR 0x60, CHR ''['', CHR ''('', CHR '')'', CHR '',''}"
    by (auto simp: decimal_def dquote_def)
  with Cons scan_char_plain [of c "next_char cs"] show ?case by (simp del: scan_char.simps)
qed simp

lemma show_nat_decimal: "list_all decimal (show_nat n)"
  unfolding list_all_iff decimal_def by (auto dest!: show_nat_digits)

lemma list_item_number: "list_item (show_int i)"
proof (cases "i < 0")
  case True
  let ?s = "show_nat (nat (- i))"
  have "next_char ?s \<noteq> CHR ''-''"
    using show_nat_decimal [of "nat (- i)"] by (cases ?s) (auto simp: decimal_def)
  then show ?thesis
    using scan_digits [OF show_nat_decimal, of "nat (- i)"] True
    by (simp add: list_item_def balanced_def show_int_def dquote_def)
next
  case False
  then show ?thesis
    using scan_digits [OF show_nat_decimal, of "nat i"] by (simp add: list_item_def balanced_def show_int_def)
qed

lemma number_chars: "c \<in> set (show_int i) \<Longrightarrow> c = CHR ''-'' \<or> decimal c"
  using show_nat_decimal by (auto simp: show_int_def list_all_iff split: if_splits)

lemma decimal_classes: "decimal c \<Longrightarrow> \<not> is_alpha c \<and> \<not> is_space c"
  by (auto simp: decimal_def is_alpha_def is_space_def Let_def)

lemma plain_word_number: "plain_word (show_int i)"
proof -
  have "\<forall>c \<in> set (show_int i). \<not> is_alpha c"
    using number_chars decimal_classes by (fastforce simp: is_alpha_def)
  then show ?thesis
    using lacks_quiet [OF list_item_number searched_sql_keyword] list_item_number
    by (simp add: plain_word_def list_all_iff)
qed

lemma lacks_spaced:
  assumes "sql_keyword kw" and "lacks kw w" and "list_item w" and "list_all (lacks kw) ws" and "list_all list_item ws"
  shows "lacks kw (w @ spaced ws)"
proof -
  have "find_sql_keyword_top_level (w @ spaced ws) kw 0 = None"
    using find_keyword_part [of w "[]" "spaced ws" kw] find_keyword_missing [OF assms(1,4), of w] assms(1,2)
    by (cases ws) (simp_all add: lacks_def word_border_def sql_identifier_char_def is_alnum_def is_alpha_def)
  moreover have "list_item (w @ spaced ws)" using assms(3,5) by (intro list_item_append list_item_spaced) simp_all
  ultimately show ?thesis by (simp add: lacks_def list_item_def)
qed

lemma plain_word_alpha:
  assumes "list_all is_alpha w" and "List.map to_upper w \<notin> set searched_keywords"
  shows "plain_word w"
proof -
  have "kw \<in> set searched_keywords \<Longrightarrow> List.map to_upper kw = kw" for kw
    by (auto simp: searched_keywords_def to_upper_def)
  with assms(2) have "kw \<in> set searched_keywords \<Longrightarrow> lacks kw w" for kw
    by (intro lacks_word [OF assms(1)]) metis
  then show ?thesis using list_item_word [OF assms(1)] by (simp add: plain_word_def list_all_iff)
qed

lemma plain_word_spaced: "plain_word w \<Longrightarrow> list_all plain_word ws \<Longrightarrow> plain_word (w @ spaced ws)"
  using lacks_spaced [OF searched_sql_keyword] list_item_append [OF _ list_item_spaced, of w ws]
  by (simp add: plain_word_def list_all_iff)

lemmas word_simps = searched_keywords_def is_alpha_def to_upper_def Let_def

lemma plain_words_fixed:
  "plain_word ''INTEGER''" "plain_word ''REAL''" "plain_word ''TEXT''" "plain_word ''BLOB''" "plain_word ''NULL''"
  "plain_word ''NOT''" "plain_word ''PRIMARY''" "plain_word ''KEY''" "plain_word ''AUTOINCREMENT''" "plain_word ''DEFAULT''"
  by (rule plain_word_alpha; simp add: word_simps)+

lemma plain_digits: "plain_word ''1''" "plain_word ''0''"
proof -
  have "show_int 1 = ''1''" "show_int 0 = ''0''" by code_simp+
  with plain_word_number [of 1] plain_word_number [of 0] show "plain_word ''1''" "plain_word ''0''" by simp_all
qed

lemma plain_word_type: "column_ok real c \<Longrightarrow> plain_word (sqlite_column_type_name c)"
proof -
  have "plain_word (sqlite_type_name t)" for t by (induction t) (simp_all add: plain_words_fixed)
  then show "column_ok real c \<Longrightarrow> plain_word (sqlite_column_type_name c)"
    by (auto simp: column_ok_def sqlite_column_type_name_def given_text_ok_def split: option.splits)
qed

lemma plain_word_default: "default_ok real v \<Longrightarrow> plain_word (column_default_sql real v)"
  by (cases v) (simp_all add: default_ok_def given_text_ok_def plain_words_fixed plain_digits plain_word_text plain_word_number)

lemma plain_type_words: "column_ok real c \<Longrightarrow> list_all plain_word (type_words n c)"
  by (simp add: type_words_def plain_word_type plain_words_fixed)

lemma plain_default_words: "column_ok real c \<Longrightarrow> list_all plain_word (default_words real c)"
  by (auto simp: default_words_def column_ok_def plain_words_fixed plain_word_default split: option.splits)

text \<open>The keywords of the generator among themselves.\<close>

lemma keywords_lack:
  "lacks ''UNIQUE'' ''CONSTRAINT''" "lacks ''CHECK'' ''CONSTRAINT''" "lacks ''REFERENCES'' ''CONSTRAINT''"
  "lacks ''CONSTRAINT'' ''UNIQUE''" "lacks ''CHECK'' ''UNIQUE''" "lacks ''REFERENCES'' ''UNIQUE''"
  "lacks ''CONSTRAINT'' ''CHECK''" "lacks ''UNIQUE'' ''CHECK''" "lacks ''REFERENCES'' ''CHECK''"
  "lacks ''CONSTRAINT'' ''REFERENCES''" "lacks ''UNIQUE'' ''REFERENCES''" "lacks ''CHECK'' ''REFERENCES''"
  by (rule lacks_word; simp add: word_simps)+

lemma list_item_keywords: "list_item ''CONSTRAINT''" "list_item ''UNIQUE''" "list_item ''CHECK''" "list_item ''REFERENCES''"
  by (rule list_item_word; simp add: word_simps)+

lemma actions_plain:
  assumes "a \<noteq> Unspecified"
  shows "plain_word (referential_action_sql a)"
proof -
  have "plain_word ''NO''" "plain_word ''ACTION''" "plain_word ''SET''" "plain_word ''RESTRICT''" "plain_word ''CASCADE''"
    by (rule plain_word_alpha; simp add: word_simps)+
  with plain_word_spaced [of "''NO''" "[''ACTION'']"] plain_word_spaced [of "''SET''" "[''NULL'']"]
    plain_word_spaced [of "''SET''" "[''DEFAULT'']"] plain_words_fixed assms
  show ?thesis by (cases a) simp_all
qed

subsection \<open>The definition of a column\<close>

lemma plain_word_lacks: "list_all plain_word ws \<Longrightarrow> kw \<in> set searched_keywords \<Longrightarrow> list_all (lacks kw) ws"
  by (auto simp: plain_word_def list_all_iff)

lemma plain_reference_words_fixed:
  "plain_word ''ON''" "plain_word ''DELETE''" "plain_word ''UPDATE''" "plain_word ''DEFERRABLE''"
  "plain_word ''INITIALLY''" "plain_word ''DEFERRED''"
  by (rule plain_word_alpha; simp add: word_simps)+

lemma plain_action_words: "list_all plain_word (action_words r @ deferred_words r)"
  by (auto simp: action_words_def deferred_words_def plain_reference_words_fixed actions_plain plain_word_parens)

lemmas word_lists = unique_words_def check_words_def reference_words_def name_words_def

lemma unique_lacks: "kw \<in> {''CHECK'', ''REFERENCES''} \<Longrightarrow> list_all (lacks kw) (unique_words c)"
  by (auto simp: unique_words_def keywords_lack split: option.split)

lemma check_lacks:
  "column_ok real c \<Longrightarrow> kw \<in> {''CONSTRAINT'', ''UNIQUE'', ''REFERENCES''} \<Longrightarrow> list_all (lacks kw) (check_words c)"
  by (auto simp: check_words_def keywords_lack lacks_parens column_ok_def split: option.splits)

lemma reference_lacks: "kw \<in> {''UNIQUE'', ''CHECK''} \<Longrightarrow> list_all (lacks kw) (reference_words c)"
  using plain_word_lacks [OF plain_action_words, of kw]
  by (auto simp: reference_words_def name_words_def keywords_lack searched_keywords_def split: option.split)

lemma name_lacks: "list_all (lacks ''REFERENCES'') (name_words r)"
  by (auto simp: name_words_def keywords_lack)

lemma fixed_lacks:
  "column_ok real c \<Longrightarrow> kw \<in> set searched_keywords \<Longrightarrow> list_all (lacks kw) (type_words n c)"
  "column_ok real c \<Longrightarrow> kw \<in> set searched_keywords \<Longrightarrow> list_all (lacks kw) (default_words real c)"
  using plain_word_lacks plain_type_words plain_default_words by blast+

lemma searched_sql_keywords:
  "sql_keyword ''CONSTRAINT''" "sql_keyword ''UNIQUE''" "sql_keyword ''CHECK''" "sql_keyword ''REFERENCES''"
  by (simp_all add: searched_sql_keyword searched_keywords_def)

text \<open>The beginning of every loop body on a definition that starts with a quoted name.\<close>

lemma quoted_not_keyword: "sql_keyword kw \<Longrightarrow> \<not> sql_keyword_at (quote_ansi_identifier n @ r) 0 kw"
  using keyword_not_at [of kw "quote_ansi_identifier n @ r" 0]
  by (auto simp: quote_ansi_identifier_def is_alpha_def dquote_def)

lemma quoted_not_empty [simp]: "quote_ansi_identifier n \<noteq> []"
  by (simp add: quote_ansi_identifier_def)

lemma quoted_start: "table_constraint_start (quote_ansi_identifier n @ r) = (None, 0)"
proof -
  have "skip_sql_space (quote_ansi_identifier n @ r) 0 = 0"
    using skip_no_space [OF solid_quoted, of "[]" n r] by simp
  then show "table_constraint_start (quote_ansi_identifier n @ r) = (None, 0)"
    by (simp add: table_constraint_start_def quoted_not_keyword searched_sql_keywords)
qed

lemma quoted_read:
  "read_sql_identifier (quote_ansi_identifier n @ spaced ws) 0 = (Some n, length (quote_ansi_identifier n))"
  using read_quoted_identifier [of "spaced ws" "[]" n] by simp

lemma quoted_name_loop:
  assumes "length (quote_ansi_identifier n) < target"
  shows "constraint_name_loop (quote_ansi_identifier n @ spaced ws) target 0 =
    constraint_name_loop (quote_ansi_identifier n @ spaced ws) target (length (quote_ansi_identifier n))"
proof (rule constraint_name_start)
  show "find_sql_keyword_top_level (quote_ansi_identifier n @ spaced ws) ''CONSTRAINT'' 0 =
      find_sql_keyword_top_level (quote_ansi_identifier n @ spaced ws) ''CONSTRAINT'' (length (quote_ansi_identifier n))"
    using find_keyword_part [of "quote_ansi_identifier n" "[]" "spaced ws" "''CONSTRAINT''"] searched_sql_keywords
    by (cases ws) (simp_all add: word_border_def sql_identifier_char_def is_alnum_def is_alpha_def)
qed (use assms in auto)

subsubsection \<open>Unique\<close>

lemma unique_of_column:
  assumes ok: "column_ok real c"
  shows "unique_of_segment t (column_sql real sqlite_dialect n c) =
    (case cm_unique c of None \<Rightarrow> t | Some u \<Rightarrow> apply_sqlite_column_unique t (cm_name c) u)"
proof -
  let ?q = "quote_ansi_identifier (cm_name c)" and ?ty = "type_words n c"
  let ?rest = "default_words real c @ check_words c @ reference_words c"
  let ?u = "''UNIQUE''"
  have "list_all (lacks ?u) ?rest" and ty: "list_all (lacks ?u) ?ty" "list_all (lacks ''CONSTRAINT'') ?ty"
    using fixed_lacks [OF ok] check_lacks [OF ok] reference_lacks by (simp_all add: searched_keywords_def)
  note found = find_keyword_found [OF searched_sql_keywords(2)] and missing = find_keyword_missing [OF searched_sql_keywords(2)]
  show ?thesis
  proof (cases "cm_unique c")
    case None
    with missing [of "?ty @ ?rest" ?q] ty \<open>list_all (lacks ?u) ?rest\<close> show ?thesis
      by (simp add: column_sql_words column_words_def unique_words_def unique_of_segment_def quoted_start quoted_read
          quoted_not_keyword searched_sql_keywords del: spaced_simps)
  next
    case (Some u)
    show ?thesis
    proof (cases u)
      case None
      let ?t = "?q @ spaced (?ty @ ?u # ?rest)"
      have "find_sql_keyword_top_level ?t ?u (length ?q) = Some (Suc (length ?q + length (spaced ?ty)))"
        using found [OF ty(1), of ?q ?rest] by simp
      moreover have "constraint_name_for_unique ?t (Suc (length ?q + length (spaced ?ty))) = None"
        unfolding constraint_name_for_unique_def
        by (subst quoted_name_loop) (use constraint_name_missing [OF ty(2), of _ ?q "?u # ?rest"] in simp_all)
      ultimately show ?thesis using Some None
        by (simp add: column_sql_words column_words_def unique_words_def unique_of_segment_def quoted_start quoted_read
            quoted_not_keyword searched_sql_keywords del: spaced_simps)
    next
      case (Some m)
      let ?ws = "?ty @ [''CONSTRAINT'', quote_ansi_identifier m]"
      let ?t = "?q @ spaced (?ws @ ?u # ?rest)" and ?pos = "Suc (length (?q @ spaced ?ws))"
      have "find_sql_keyword_top_level ?t ?u (length ?q) = Some ?pos"
        using found [of ?ws ?q ?rest] ty by (simp add: keywords_lack)
      moreover have "constraint_name_for_unique ?t ?pos = Some m"
        unfolding constraint_name_for_unique_def
        by (subst quoted_name_loop)
          (use constraint_name_step [OF ty(2) solid_keyword [OF searched_sql_keywords(2)], of ?q m ?pos ?rest] in simp_all)
      ultimately show ?thesis using Some \<open>cm_unique c = Some u\<close>
        by (simp add: column_sql_words column_words_def unique_words_def unique_of_segment_def quoted_start quoted_read
            quoted_not_keyword searched_sql_keywords del: spaced_simps)
    qed
  qed
qed

subsubsection \<open>Check\<close>

lemma extract_check:
  assumes "balanced e"
  shows "extract_check_expression (x @ ''CHECK'' @ CHR '' '' # in_parens e @ r) (length x) = Some (trim_sql_view e)"
proof -
  let ?a = "x @ ''CHECK '' :: string"
  have eq: "x @ ''CHECK'' @ CHR '' '' # in_parens e @ r = ?a @ [CHR ''(''] @ e @ [CHR '')''] @ r"
    by (simp add: in_parens_def)
  have "skip_sql_space ((x @ ''CHECK'') @ CHR '' '' # in_parens e @ r) (length (x @ ''CHECK'')) = Suc (length (x @ ''CHECK''))"
    by (rule skip_one_space) (simp add: solid_def in_parens_def is_space_def)
  then have "skip_sql_space (?a @ [CHR ''(''] @ e @ [CHR '')''] @ r) (length x + length ''CHECK'') = length ?a"
    by (simp add: in_parens_def)
  moreover have "(?a @ [CHR ''(''] @ e @ [CHR '')''] @ r) ! length ?a = CHR ''(''" by (simp only: nth_append_length append_Cons)
  moreover have "length ?a < length (?a @ [CHR ''(''] @ e @ [CHR '')''] @ r)" by simp
  moreover have "drop (length ?a + 1) (?a @ [CHR ''(''] @ e @ [CHR '')''] @ r) = e @ [CHR '')''] @ r" by simp
  moreover note find_matching_paren [OF assms, of ?a r]
  ultimately show ?thesis
    unfolding eq extract_check_expression_def Let_def
    by (simp del: append.simps append_assoc length_append list.size)
qed

lemma check_of_column:
  assumes ok: "column_ok real c" and col: "list_ex (\<lambda>k. col_name k = cm_name c) (tb_columns t)"
  shows "check_of_segment t (column_sql real sqlite_dialect n c) =
    (case cm_check c of None \<Rightarrow> t
     | Some e \<Rightarrow> on_column t (cm_name c) (\<lambda>k. k\<lparr>col_check := Some (trim_sql_view e)\<rparr>))"
proof -
  let ?q = "quote_ansi_identifier (cm_name c)" and ?k = "''CHECK''"
  let ?us = "type_words n c @ unique_words c @ default_words real c"
  have us: "list_all (lacks ?k) ?us"
    using fixed_lacks [OF ok] unique_lacks by (simp add: searched_keywords_def)
  show ?thesis
  proof (cases "cm_check c")
    case None
    with find_keyword_missing [OF searched_sql_keywords(3), of "?us @ reference_words c" ?q] us reference_lacks col
    show ?thesis
      by (simp add: column_sql_words column_words_def check_words_def check_of_segment_def quoted_start quoted_read
          quoted_not_keyword searched_sql_keywords del: spaced_simps)
  next
    case (Some e)
    let ?r = "spaced (reference_words c)"
    let ?t = "?q @ spaced ?us @ spaced (?k # in_parens e # reference_words c)"
    have "balanced e" using ok Some by (simp add: column_ok_def)
    from extract_check [OF this, of "?q @ spaced ?us @ '' ''" ?r]
    have "extract_check_expression ?t (length ?q + length (spaced ?us) + 1) = Some (trim_sql_view e)" by simp
    moreover have "find_sql_keyword_top_level ?t ?k (length ?q) = Some (length ?q + length (spaced ?us) + 1)"
      by (rule find_keyword_found [OF searched_sql_keywords(3) us])
    moreover have "column_sql real sqlite_dialect n c = ?t"
      using Some by (simp add: column_sql_words column_words_def check_words_def)
    moreover have "read_sql_identifier ?t 0 = (Some (cm_name c), length ?q)" "table_constraint_start ?t = (None, 0)"
        "\<not> sql_keyword_at ?t 0 ?k"
      using quoted_read [of "cm_name c" "?us @ ?k # in_parens e # reference_words c"] quoted_start [of "cm_name c"]
        quoted_not_keyword [OF searched_sql_keywords(3), of "cm_name c"] by simp_all
    ultimately show ?thesis using Some col by (simp add: check_of_segment_def del: spaced_simps)
  qed
qed

subsubsection \<open>References\<close>

lemma deferred_keywords: "sql_keyword ''DEFERRABLE''" "sql_keyword ''NOT''" "sql_keyword ''INITIALLY''" "sql_keyword ''DEFERRED''"
  by (simp_all add: sql_keyword_def is_alpha_def to_upper_def)

lemma action_words_lack:
  assumes "kw \<in> {''DEFERRABLE'', ''NOT''}"
  shows "list_all (lacks kw) (action_words r)"
proof -
  have word: "lacks kw w" if "list_all is_alpha w" "List.map to_upper w \<notin> {''DEFERRABLE'', ''NOT''}" for w
    using assms that by (intro lacks_word) (auto simp: to_upper_def)
  have kw: "sql_keyword kw" using assms by (auto simp: deferred_keywords)
  have "lacks kw ''ON''" "lacks kw ''DELETE''" "lacks kw ''UPDATE''" "lacks kw ''RESTRICT''" "lacks kw ''CASCADE''"
    by (rule word; simp add: word_simps)+
  moreover have "lacks kw (''NO'' @ spaced [''ACTION''])" "lacks kw (''SET'' @ spaced [''NULL''])" "lacks kw (''SET'' @ spaced [''DEFAULT''])"
    by (rule lacks_spaced [OF kw]; simp add: word list_item_word is_alpha_def to_upper_def)+
  moreover have "a \<noteq> Unspecified \<Longrightarrow> lacks kw (referential_action_sql a)" for a
    using calculation by (cases a) simp_all
  ultimately show ?thesis by (auto simp: action_words_def lacks_parens)
qed

lemma deferred_words_lack: "list_all (lacks ''NOT'') (deferred_words r)"
proof -
  have "lacks ''NOT'' ''DEFERRABLE''" "lacks ''NOT'' ''INITIALLY''" "lacks ''NOT'' ''DEFERRED''"
    by (rule lacks_word; simp add: word_simps)+
  then show ?thesis by (simp add: deferred_words_def)
qed

lemma reference_deferred:
  "sqlite_reference_is_deferred (x @ ''REFERENCES'' @ spaced (action_words r @ deferred_words r)) (length x) = ra_deferrable r"
proof -
  let ?a = "x @ ''REFERENCES''" and ?as = "action_words r"
  let ?t = "?a @ spaced ?as @ spaced (deferred_words r)"
  have no_not: "find_sql_keyword_top_level ?t ''NOT'' (length ?a) = None"
    using find_keyword_missing [OF deferred_keywords(2), of "?as @ deferred_words r" ?a] action_words_lack [of "''NOT''" r]
      deferred_words_lack [of r] by simp
  have start: "length x + length ''REFERENCES'' = length ?a" by simp
  have eq: "x @ ''REFERENCES'' @ spaced (action_words r @ deferred_words r) = ?t" by simp
  have lack: "list_all (lacks ''DEFERRABLE'') ?as" by (simp add: action_words_lack)
  show ?thesis
  proof (cases "ra_deferrable r")
    case False
    with find_keyword_missing [OF deferred_keywords(1) lack, of ?a] show ?thesis
      unfolding eq sqlite_reference_is_deferred_def Let_def start
      by (simp add: deferred_words_def del: append_assoc append.simps length_append list.size)
  next
    case True
    let ?p1 = "?a @ spaced (?as @ [''DEFERRABLE''])" and ?p2 = "?a @ spaced (?as @ [''DEFERRABLE'', ''INITIALLY''])"
    have t1: "?t = ?p1 @ CHR '' '' # ''INITIALLY'' @ spaced [''DEFERRED'']" and t2: "?t = ?p2 @ CHR '' '' # ''DEFERRED'' @ spaced []"
      using True by (simp_all add: deferred_words_def)
    have "find_sql_keyword_top_level ?t ''DEFERRABLE'' (length ?a) = Some (length ?a + length (spaced ?as) + 1)"
      using find_keyword_found [OF deferred_keywords(1) lack, of ?a "[''INITIALLY'', ''DEFERRED'']"] True
      by (simp add: deferred_words_def)
    moreover have "length ?a + length (spaced ?as) + 1 + length ''DEFERRABLE'' = length ?p1" by simp
    moreover have "skip_sql_space ?t (length ?p1) = Suc (length ?p1)"
      unfolding t1 by (rule skip_one_space) (rule solid_keyword [OF deferred_keywords(3)])
    moreover have "sql_keyword_at ?t (Suc (length ?p1)) ''INITIALLY''"
      unfolding t1 by (subst keyword_at_word) (simp_all add: deferred_keywords)
    moreover have "Suc (length ?p1) + length ''INITIALLY'' = length ?p2" by simp
    moreover have "skip_sql_space ?t (length ?p2) = Suc (length ?p2)"
      unfolding t2 by (rule skip_one_space) (rule solid_keyword [OF deferred_keywords(4)])
    moreover have "sql_keyword_at ?t (Suc (length ?p2)) ''DEFERRED''"
      unfolding t2 by (subst keyword_at_word) (simp_all add: deferred_keywords)
    ultimately show ?thesis using no_not True
      unfolding eq sqlite_reference_is_deferred_def Let_def start
      by (simp del: append_assoc append.simps length_append list.size spaced_simps)
  qed
qed

lemma constraint_name_before:
  assumes "list_all (lacks ''CONSTRAINT'') us"
  shows "constraint_name_loop (a @ spaced (us @ name_words r @ ''REFERENCES'' # vs))
      (Suc (length (a @ spaced (us @ name_words r)))) (length a) = text_option (ra_constraint_name r)"
proof (cases "ra_constraint_name r = []")
  case True
  with constraint_name_missing [OF assms, of "Suc (length (a @ spaced us))" a "''REFERENCES'' # vs"]
  show ?thesis by (simp add: name_words_def text_option_def)
next
  case False
  with constraint_name_step [OF assms solid_keyword [OF searched_sql_keywords(4)],
      of a "ra_constraint_name r" "Suc (length (a @ spaced (us @ name_words r)))" vs]
  show ?thesis by (simp add: name_words_def text_option_def)
qed

lemma reference_name:
  fixes c :: column_mapping
  defines "pre \<equiv> \<lambda>real n. type_words n c @ unique_words c @ default_words real c @ check_words c"
  assumes ok: "column_ok real c"
  shows "constraint_name_for_reference
      (quote_ansi_identifier (cm_name c) @ spaced (pre real n @ name_words r @ ''REFERENCES'' # vs))
      (Suc (length (quote_ansi_identifier (cm_name c) @ spaced (pre real n @ name_words r)))) =
    text_option (ra_constraint_name r)"
proof -
  let ?q = "quote_ansi_identifier (cm_name c)" and ?ty = "type_words n c"
  let ?rest = "default_words real c @ check_words c"
  let ?target = "Suc (length (?q @ spaced (pre real n @ name_words r)))"
  have ty: "list_all (lacks ''CONSTRAINT'') ?ty" and rest: "list_all (lacks ''CONSTRAINT'') ?rest"
    using fixed_lacks [OF ok] check_lacks [OF ok] by (simp_all add: searched_keywords_def)
  have "constraint_name_loop (?q @ spaced (pre real n @ name_words r @ ''REFERENCES'' # vs)) ?target (length ?q) =
      text_option (ra_constraint_name r)"
  proof (cases "\<exists>m. cm_unique c = Some (Some m)")
    case False
    then have "list_all (lacks ''CONSTRAINT'') (unique_words c)"
      by (auto simp: unique_words_def keywords_lack split: option.split)
    with ty rest constraint_name_before [of "pre real n" ?q r vs] show ?thesis by (simp add: pre_def)
  next
    case True
    then obtain m where m: "cm_unique c = Some (Some m)" by blast
    let ?ws = "?ty @ [''CONSTRAINT'', quote_ansi_identifier m]"
    let ?vs = "?rest @ name_words r @ ''REFERENCES'' # vs"
    have u: "unique_words c = [''CONSTRAINT'', quote_ansi_identifier m, ''UNIQUE'']" using m by (simp add: unique_words_def)
    have "?q @ spaced (pre real n @ name_words r @ ''REFERENCES'' # vs) = ?q @ spaced ?ws @ spaced (''UNIQUE'' # ?vs)"
      by (simp add: pre_def u)
    moreover have "constraint_name_loop (?q @ spaced ?ws @ spaced (''UNIQUE'' # ?vs)) ?target (length ?q) =
        constraint_name_loop (?q @ spaced ?ws @ spaced (''UNIQUE'' # ?vs)) ?target (length (?q @ spaced (?ty @ [''CONSTRAINT''])))"
      by (subst constraint_name_step [OF ty solid_keyword [OF searched_sql_keywords(2)]]) (simp_all add: pre_def u)
    moreover have "constraint_name_loop (?q @ spaced ?ws @ spaced (''UNIQUE'' # ?vs)) ?target (length (?q @ spaced (?ty @ [''CONSTRAINT'']))) =
        text_option (ra_constraint_name r)"
      using constraint_name_before [of "[quote_ansi_identifier m, ''UNIQUE''] @ ?rest" "?q @ spaced (?ty @ [''CONSTRAINT''])" r vs] rest
      by (simp add: keywords_lack pre_def u)
    ultimately show ?thesis by simp
  qed
  then show ?thesis
    unfolding constraint_name_for_reference_def by (subst quoted_name_loop) simp_all
qed

lemma references_of_column:
  assumes ok: "column_ok real c"
  shows "foreign_key_modifiers_of_segment t (column_sql real sqlite_dialect n c) =
    (case cm_reference c of None \<Rightarrow> t
     | Some r \<Rightarrow> on_column t (cm_name c) (\<lambda>k. case col_references k of None \<Rightarrow> k
         | Some f \<Rightarrow> k\<lparr>col_references := Some (f\<lparr>fk_name := text_option (ra_constraint_name r), fk_deferrable := ra_deferrable r\<rparr>)\<rparr>))"
proof -
  let ?q = "quote_ansi_identifier (cm_name c)" and ?k = "''REFERENCES''"
  let ?pre = "type_words n c @ unique_words c @ default_words real c @ check_words c"
  have pre: "list_all (lacks ?k) ?pre"
    using fixed_lacks [OF ok] unique_lacks check_lacks [OF ok] by (simp add: searched_keywords_def)
  have for_key: "sql_keyword ''FOREIGN''" by (simp add: sql_keyword_def is_alpha_def to_upper_def)
  show ?thesis
  proof (cases "cm_reference c")
    case None
    with find_keyword_missing [OF searched_sql_keywords(4) pre, of ?q] show ?thesis
      by (simp add: column_sql_words column_words_def reference_words_def foreign_key_modifiers_of_segment_def quoted_start
          quoted_read quoted_not_keyword for_key del: spaced_simps)
  next
    case (Some r)
    let ?us = "?pre @ name_words r" and ?vs = "action_words r @ deferred_words r"
    let ?t = "?q @ spaced (?us @ ?k # ?vs)" and ?pos = "Suc (length (?q @ spaced ?us))"
    have t: "column_sql real sqlite_dialect n c = ?t"
      using Some by (simp add: column_sql_words column_words_def reference_words_def)
    have "find_sql_keyword_top_level ?t ?k (length ?q) = Some ?pos"
      using find_keyword_found [OF searched_sql_keywords(4), of ?us ?q ?vs] pre name_lacks by simp
    moreover have "constraint_name_for_reference ?t ?pos = text_option (ra_constraint_name r)"
      using reference_name [OF ok, of n r ?vs] by simp
    moreover have "sqlite_reference_is_deferred ?t ?pos = ra_deferrable r"
      using reference_deferred [of "?q @ spaced ?us @ '' ''" r] by simp
    ultimately show ?thesis using Some
      by (simp add: t foreign_key_modifiers_of_segment_def quoted_start quoted_read quoted_not_keyword for_key
          apply_sqlite_reference_modifiers_def cong: option.case_cong del: spaced_simps)
  qed
qed

subsection \<open>The segments of a table\<close>

definition tight :: "string \<Rightarrow> bool" where
  "tight w \<longleftrightarrow> w \<noteq> [] \<and> \<not> is_space (hd w) \<and> \<not> is_space (last w)"

lemma trim_tight: "tight w \<Longrightarrow> trim_sql_view w = w" "tight w \<Longrightarrow> trim_sql_view (CHR '' '' # w) = w"
proof -
  assume w: "tight w"
  then have "dropWhile is_space w = w" by (cases w) (simp_all add: tight_def)
  moreover from w have "dropWhile is_space (rev w) = rev w" by (cases w rule: rev_cases) (simp_all add: tight_def)
  ultimately show "trim_sql_view w = w" "trim_sql_view (CHR '' '' # w) = w"
    by (simp_all add: trim_sql_view_def trim_by_def is_space_def)
qed

definition ends_tight :: "string \<Rightarrow> bool" where
  "ends_tight w \<longleftrightarrow> w \<noteq> [] \<and> \<not> is_space (last w)"

lemma tight_spaced:
  assumes "list_all ends_tight ws" and "tight w"
  shows "tight (w @ spaced ws)"
proof (cases ws rule: rev_cases)
  case Nil
  with assms show ?thesis by simp
next
  case (snoc vs v)
  with assms show ?thesis by (simp add: tight_def ends_tight_def)
qed

lemma split_segments:
  assumes "ss \<noteq> []" and "list_all list_item ss" and "list_all tight ss" and "pad = [] \<or> pad = '' ''"
    and "b = a @ pad @ join '', '' ss"
  shows "split_scan b 0 (length a) (plain_at Plain (length a) (pad @ join '', '' ss)) = ss"
  using assms
proof (induction ss arbitrary: a pad)
  case (Cons s ss)
  let ?e = "plain_at Plain (length a) (pad @ s)"
  have item: "list_item (pad @ s)"
    using Cons.prems(2,4) list_item_space [of s] by auto
  then have e: "nest 0 ?e = Some 0" "\<not> has_comma 0 ?e" "scan_end Plain (pad @ s) = Plain"
    using balanced_nest [of "pad @ s"] list_item_comma [of "pad @ s"] by (simp_all add: list_item_def balanced_def)
  have trim: "trim_sql_view (pad @ s) = s" using Cons.prems(3,4) trim_tight [of s] by auto
  show ?case
  proof (cases ss)
    case Nil
    with split_scan_skip [OF e(1,2), of b "length a" "[]"] Cons.prems(5) trim show ?thesis by simp
  next
    case (Cons s' ss')
    let ?rest = "join '', '' ss" and ?a = "a @ pad @ s @ '',''"
    have split: "pad @ join '', '' (s # ss) = (pad @ s) @ CHR '','' # '' '' @ ?rest" using Cons by simp
    have "plain_at Plain (length a) (pad @ join '', '' (s # ss)) =
        ?e @ (length (a @ pad @ s), CHR '','') # plain_at Plain (length ?a) ('' '' @ ?rest)"
      unfolding split by (subst plain_at_append [OF _ e(3)]) (simp_all add: dquote_def add.assoc)
    moreover have "split_scan b 0 (length ?a) (plain_at Plain (length ?a) ('' '' @ ?rest)) = ss"
      by (rule Cons.IH) (use Cons.prems Cons in simp_all)
    moreover have "take (length (a @ pad @ s) - length a) (drop (length a) b) = pad @ s"
      using Cons.prems(5) Cons by simp
    ultimately show ?thesis
      using split_scan_skip [OF e(1,2), of b "length a"] trim by simp
  qed
qed simp

lemma list_item_join: "list_all list_item ss \<Longrightarrow> balanced (join '', '' ss)"
proof (induction ss rule: induct_list012)
  case (3 s t ss)
  then have "balanced (join '', '' (t # ss))" by simp
  then have "balanced ('', '' @ join '', '' (t # ss))"
    using balanced_nest [of "join '', '' (t # ss)" 0 2]
    by (simp add: balanced_def dquote_def numeral_2_eq_2 del: join.simps)
  then have "balanced (s @ '', '' @ join '', '' (t # ss))"
    using 3 by (intro balanced_append [of s "'', '' @ _"]) (simp_all add: list_item_def)
  then show ?case by simp
next
  case 1
  show ?case by code_simp
qed (simp add: list_item_def)

text \<open>The segments the generator writes between the commas of the body.\<close>

definition key_segment :: "table_mapping \<Rightarrow> string" where
  "key_segment t = ''PRIMARY'' @ spaced [''KEY'',
     in_parens (join '', '' (List.map (quote_ansi_identifier \<circ> cm_name) (filter cm_primary_key (mt_columns t))))]"

definition table_segments :: "(u64 \<Rightarrow> string) \<Rightarrow> table_mapping \<Rightarrow> string list" where
  "table_segments real t =
     List.map (column_sql real sqlite_dialect (primary_key_count t)) (mt_columns t) @
     (if primary_key_count t > 1 then [key_segment t] else []) @
     List.map (table_check_sql sqlite_dialect) (mt_checks t)"

definition table_head :: "table_mapping \<Rightarrow> string" where
  "table_head t = ''CREATE TABLE IF NOT EXISTS '' @ quote_ansi_identifier (mt_table t) @ '' ''"

lemma join_append: "us \<noteq> [] \<Longrightarrow> join sep (us @ vs) = join sep us @ concat (List.map (\<lambda>v. sep @ v) vs)"
  by (cases us) (simp_all add: join_Cons)

lemma create_table_segments:
  assumes "mt_columns t \<noteq> []"
  shows "create_table_sql real sqlite_dialect t =
    table_head t @ [CHR ''(''] @ join '', '' (table_segments real t) @ [CHR '')''] @ '';''"
  using assms
  by (simp add: create_table_sql_def table_head_def table_segments_def join_append Let_def key_segment_def in_parens_def
      comp_def)

lemma list_item_column: "column_ok real c \<Longrightarrow> list_item (column_sql real sqlite_dialect n c)"
proof -
  assume ok: "column_ok real c"
  have p: "list_all list_item ws" if "list_all plain_word ws" for ws
    using that by (auto simp: plain_word_def list_all_iff)
  have "list_all list_item (unique_words c)" "list_all list_item (name_words r)" for r
    by (auto simp: unique_words_def name_words_def list_item_keywords quoted_identifier_item split: option.split)
  moreover have "list_all list_item (check_words c)"
    using ok by (auto simp: check_words_def column_ok_def list_item_keywords plain_word_parens [unfolded plain_word_def]
        split: option.splits)
  ultimately have "list_all list_item (column_words real n c)"
    using p [OF plain_type_words [OF ok]] p [OF plain_default_words [OF ok]] p [OF plain_action_words]
    by (auto simp: column_words_def reference_words_def list_item_keywords split: option.split)
  then show ?thesis
    unfolding column_sql_words by (intro list_item_append quoted_identifier_item list_item_spaced) simp_all
qed

lemma ends_tight_fixed:
  "ends_tight (quote_ansi_identifier n)" "ends_tight (in_parens e)" "ends_tight (quote_sql_text v)"
  "a \<noteq> Unspecified \<Longrightarrow> ends_tight (referential_action_sql a)" "ends_tight (sqlite_type_name ty)"
  by (simp add: ends_tight_def quote_ansi_identifier_def is_space_def dquote_def in_parens_def quote_sql_text_def)+
    ((cases a; simp add: ends_tight_def is_space_def), (induction ty; simp add: ends_tight_def is_space_def))

lemma ends_tight_number: "ends_tight (show_int i)"
proof -
  have "\<not> is_space c" if "c \<in> set (show_int i)" for c
    using number_chars [OF that] decimal_classes by (auto simp: is_space_def)
  moreover have "show_int i \<noteq> []" by (simp add: show_int_def show_nat_not_Nil)
  ultimately show ?thesis by (simp add: ends_tight_def)
qed

lemma tight_column:
  assumes ok: "column_ok real c"
  shows "tight (column_sql real sqlite_dialect n c)"
proof -
  have ty: "ends_tight (sqlite_column_type_name c)"
    using ok ends_tight_fixed(5) [of "cm_type c"]
    by (cases "cm_database_type c")
      (simp_all add: sqlite_column_type_name_def column_ok_def given_text_ok_def ends_tight_def)
  have "default_ok real v \<Longrightarrow> ends_tight (column_default_sql real v)" for v
    by (cases v) (simp_all add: default_ok_def given_text_ok_def ends_tight_fixed ends_tight_number, simp_all add: ends_tight_def is_space_def)
  then have "list_all ends_tight (default_words real c)"
    using ok by (auto simp: default_words_def column_ok_def split: option.splits) (simp_all add: ends_tight_def is_space_def)
  moreover have "list_all ends_tight (type_words n c)"
    using ty by (simp add: type_words_def) (simp add: ends_tight_def is_space_def)
  moreover have "list_all ends_tight (unique_words c)" "list_all ends_tight (check_words c)" "list_all ends_tight (reference_words c)"
    by (simp_all add: unique_words_def check_words_def reference_words_def name_words_def action_words_def deferred_words_def
        ends_tight_fixed split: option.split) (simp_all add: ends_tight_def is_space_def)
  ultimately have "list_all ends_tight (column_words real n c)" by (simp add: column_words_def)
  then show ?thesis
    unfolding column_sql_words by (rule tight_spaced) (simp add: tight_def quote_ansi_identifier_def is_space_def dquote_def)
qed

lemma table_check_words:
  "table_check_sql sqlite_dialect k =
     (case ck_name k of None \<Rightarrow> ''CHECK'' @ spaced [in_parens (ck_expression k)]
      | Some m \<Rightarrow> ''CONSTRAINT'' @ spaced [quote_ansi_identifier m, ''CHECK'', in_parens (ck_expression k)])"
  by (simp add: table_check_sql_def in_parens_def split: option.split)

lemma table_segments_ok:
  assumes "mapping_ok real t"
  shows "list_all list_item (table_segments real t)" "list_all tight (table_segments real t)" "table_segments real t \<noteq> []"
proof -
  have word: "list_item (w @ spaced ws)" if "list_item w" "list_all list_item ws" for w ws
    using that by (intro list_item_append list_item_spaced) simp_all
  have tight: "tight (w @ spaced ws)" if "tight w" "list_all ends_tight ws" for w ws
    using that by (simp add: tight_spaced)
  have names: "list_all list_item (List.map (quote_ansi_identifier \<circ> cm_name) cs)" for cs
    by (simp add: list_all_iff quoted_identifier_item)
  have fixed: "list_item ''PRIMARY''" "list_item ''KEY''" "tight ''PRIMARY''" "ends_tight ''KEY''" "tight ''CHECK''"
      "tight ''CONSTRAINT''" "ends_tight ''CHECK''"
    using plain_words_fixed(7,8) by (simp_all add: plain_word_def tight_def ends_tight_def is_space_def)
  have parens: "list_item (in_parens e)" if "balanced e" for e
    using plain_word_parens [OF that] by (simp add: plain_word_def)
  have key: "list_item (key_segment t)" "tight (key_segment t)"
    unfolding key_segment_def
    by (rule word tight; simp only: list.pred_inject simp_thms fixed ends_tight_fixed(2) parens [OF list_item_join [OF names]])+
  have check: "list_item (table_check_sql sqlite_dialect k)" "tight (table_check_sql sqlite_dialect k)"
    if "balanced (ck_expression k)" for k
    unfolding table_check_words
    using that parens fixed list_item_keywords quoted_identifier_item ends_tight_fixed(1,2)
    by (auto intro!: word tight simp del: spaced_simps append.simps split: option.split)
  show "list_all list_item (table_segments real t)" "list_all tight (table_segments real t)"
    using assms key check list_item_column tight_column
    by (auto simp: table_segments_def mapping_ok_def list_all_iff)
  show "table_segments real t \<noteq> []" using assms by (simp add: table_segments_def mapping_ok_def)
qed

text \<open>The parenthesis of the body is found behind the quoted name.\<close>

lemma body_open_quoted:
  "next_char r \<noteq> dquote \<Longrightarrow>
     body_open_loop (Quoted dquote) i (quote_body n @ dquote # r) = body_open_loop Plain (i + length (quote_body n) + 1) r"
  by (induction n arbitrary: i) (auto simp: eval_nat_numeral)

lemma body_open_head:
  "body_open_loop Plain 0 (table_head t @ CHR ''('' # r) = Some (length (table_head t))"
proof -
  have "body_open_loop Plain 0 (''CREATE TABLE IF NOT EXISTS '' @ x) = body_open_loop Plain 27 x" for x
    by (simp add: dquote_def eval_nat_numeral)
  moreover have "body_open_loop Plain 27 (quote_ansi_identifier (mt_table t) @ '' ('' @ r) =
      Some (27 + length (quote_ansi_identifier (mt_table t)) + 1)"
    using body_open_quoted [of "'' ('' @ r" 28 "mt_table t"] by (simp add: quote_ansi_identifier_def dquote_def)
  ultimately show ?thesis by (simp add: table_head_def)
qed

lemma split_created_table:
  assumes ok: "mapping_ok real t"
  shows "split_sqlite_table_body (create_table_sql real sqlite_dialect t) = table_segments real t"
proof -
  let ?body = "join '', '' (table_segments real t)" and ?h = "table_head t"
  let ?sql = "?h @ [CHR ''(''] @ ?body @ [CHR '')''] @ '';''"
  note segments = table_segments_ok [OF ok]
  have sql: "create_table_sql real sqlite_dialect t = ?sql"
    using create_table_segments [of t] ok by (simp add: mapping_ok_def)
  have "body_open_loop Plain 0 ?sql = Some (length ?h)" using body_open_head [of t] by simp
  moreover have "find_sql_matching_paren ?sql (length ?h) = Some (length ?h + 1 + length ?body)"
    by (rule find_matching_paren [OF list_item_join [OF segments(1)]])
  moreover have "take (length ?h + 1 + length ?body - length ?h - 1) (drop (length ?h + 1) ?sql) = ?body" by simp
  moreover have "split_loop ?body Plain 0 0 0 ?body = table_segments real t"
    using split_segments [OF segments(3,1,2), of "[]" ?body "[]"] by (simp add: split_events)
  ultimately show ?thesis unfolding sql by (simp add: split_sqlite_table_body_def Let_def)
qed

subsection \<open>Segments that are no columns\<close>

lemma read_word:
  assumes "list_all is_alpha w" and "w \<noteq> []"
  shows "read_sql_identifier (w @ spaced ws) 0 = (Some w, length w)"
proof -
  have stop: "is_alpha c \<Longrightarrow> \<not> word_end c \<and> \<not> is_space c \<and> c \<notin> {dquote, CHR 0x60, CHR ''[''}" for c
    by (auto simp: word_end_def is_space_def is_alpha_def dquote_def)
  obtain c cs where w: "w = c # cs" "is_alpha c" using assms by (cases w) auto
  have "takeWhile (\<lambda>c. \<not> word_end c) (w @ spaced ws) = w"
    using assms(1) stop by (cases ws) (auto simp: list_all_iff word_end_def is_space_def takeWhile_tail)
  then show ?thesis using w stop [OF w(2)] by (simp add: read_sql_identifier_def skip_sql_space_def Let_def)
qed

lemma keyword_at_start:
  assumes "sql_keyword kw" and "w \<noteq> []"
  shows "sql_keyword_at (w @ spaced ws) 0 kw \<longleftrightarrow> sql_keyword_at w 0 kw"
  using keyword_at_inside [of "[]" "spaced ws" kw 0 w] assms
  by (cases ws) (simp_all add: word_border_def sql_identifier_char_def is_alnum_def is_alpha_def)

lemma skip_word: "sql_keyword w \<Longrightarrow> skip_sql_space (w @ r) 0 = 0"
  using skip_no_space [OF solid_keyword, of w "[]" r] by simp

text \<open>A segment that starts with a keyword other than \<open>CONSTRAINT\<close>, or with a named constraint.\<close>

lemma word_start:
  assumes "sql_keyword w" and "\<not> sql_keyword_at w 0 ''CONSTRAINT''"
  shows "table_constraint_start (w @ spaced ws) = (None, 0)"
proof -
  have "w \<noteq> []" using assms(1) by (auto simp: sql_keyword_def)
  then show ?thesis
    using assms skip_word [OF assms(1), of "spaced ws"] keyword_at_start [OF searched_sql_keywords(1), of w ws]
    by (simp add: table_constraint_start_def Let_def)
qed

lemma named_start:
  assumes "solid v"
  shows "table_constraint_start (''CONSTRAINT'' @ spaced (quote_ansi_identifier n # v # vs)) =
    (Some n, Suc (length (''CONSTRAINT'' @ spaced [quote_ansi_identifier n])))"
proof -
  let ?c = "''CONSTRAINT'' :: string" and ?q = "quote_ansi_identifier n"
  have "read_sql_identifier (?c @ spaced (?q # v # vs)) (length ?c) = (Some n, length (?c @ spaced [?q]))"
    using read_spaced_name [of ?c n "v # vs"] by (simp only: spaced_simps) simp
  moreover have "skip_sql_space (?c @ spaced (?q # v # vs)) (length (?c @ spaced [?q])) = Suc (length (?c @ spaced [?q]))"
    using skip_one_space [OF assms, of "?c @ spaced [?q]" "spaced vs"] by (simp only: spaced_simps) simp
  moreover have "skip_sql_space (?c @ spaced (?q # v # vs)) 0 = 0" by (rule skip_word [OF searched_sql_keywords(1)])
  moreover have "sql_keyword_at (?c @ spaced (?q # v # vs)) 0 ?c"
    by (subst keyword_at_start) (simp_all add: searched_sql_keywords)
  ultimately show ?thesis
    unfolding table_constraint_start_def Let_def by (simp only: if_True prod.case add_0)
qed

lemma named_keyword:
  assumes "sql_keyword kw" and "v \<noteq> []"
  shows "sql_keyword_at (''CONSTRAINT'' @ spaced (quote_ansi_identifier n # v # vs))
      (Suc (length (''CONSTRAINT'' @ spaced [quote_ansi_identifier n]))) kw \<longleftrightarrow> sql_keyword_at v 0 kw"
  using keyword_at_word [OF assms, of "''CONSTRAINT'' @ spaced [quote_ansi_identifier n]" vs]
  by (simp only: spaced_simps) simp

lemma further_keywords: "sql_keyword ''FOREIGN''" "sql_keyword ''PRIMARY''"
  by (simp_all add: sql_keyword_def is_alpha_def to_upper_def)

lemma keywords_differ:
  "\<not> sql_keyword_at ''CHECK'' 0 ''CONSTRAINT''" "\<not> sql_keyword_at ''CHECK'' 0 ''UNIQUE''"
  "\<not> sql_keyword_at ''CHECK'' 0 ''FOREIGN''" "\<not> sql_keyword_at ''PRIMARY'' 0 ''CONSTRAINT''"
  "\<not> sql_keyword_at ''PRIMARY'' 0 ''UNIQUE''" "\<not> sql_keyword_at ''PRIMARY'' 0 ''FOREIGN''"
  "\<not> sql_keyword_at ''PRIMARY'' 0 ''CHECK''"
  by (simp_all add: sql_keyword_at_def to_upper_def)

lemma keyword_alpha: "sql_keyword w \<Longrightarrow> list_all is_alpha w" "sql_keyword w \<Longrightarrow> w \<noteq> []"
  by (simp_all add: sql_keyword_def list_all_iff)

lemma further_segment_unique:
  "sql_keyword w \<Longrightarrow> \<not> sql_keyword_at w 0 ''CONSTRAINT'' \<Longrightarrow> \<not> sql_keyword_at w 0 ''UNIQUE'' \<Longrightarrow>
     list_all (lacks ''UNIQUE'') ws \<Longrightarrow> unique_of_segment t (w @ spaced ws) = t"
  using keyword_alpha [of w]
  by (simp add: unique_of_segment_def word_start read_word keyword_at_start searched_sql_keywords find_keyword_missing)

lemma further_segment_references:
  "sql_keyword w \<Longrightarrow> \<not> sql_keyword_at w 0 ''CONSTRAINT'' \<Longrightarrow> \<not> sql_keyword_at w 0 ''FOREIGN'' \<Longrightarrow>
     list_all (lacks ''REFERENCES'') ws \<Longrightarrow> foreign_key_modifiers_of_segment t (w @ spaced ws) = t"
  using keyword_alpha [of w]
  by (simp add: foreign_key_modifiers_of_segment_def word_start read_word keyword_at_start searched_sql_keywords
      further_keywords find_keyword_missing)

lemma key_segment_ignored:
  "unique_of_segment d (key_segment t) = d" "foreign_key_modifiers_of_segment d (key_segment t) = d"
  "check_of_segment d (key_segment t) = d"
proof -
  let ?k = "in_parens (join '', '' (List.map (quote_ansi_identifier \<circ> cm_name) (filter cm_primary_key (mt_columns t))))"
  have "list_all list_item (List.map (quote_ansi_identifier \<circ> cm_name) cs)" for cs
    by (simp add: list_all_iff quoted_identifier_item)
  then have p: "lacks kw ?k" for kw by (rule lacks_parens [OF list_item_join])
  have k: "kw \<in> set searched_keywords \<Longrightarrow> lacks kw ''KEY''" for kw
    using plain_words_fixed(8) by (auto simp: plain_word_def list_all_iff)
  show "unique_of_segment d (key_segment t) = d"
    unfolding key_segment_def
    by (rule further_segment_unique) (simp_all add: further_keywords keywords_differ p k searched_keywords_def del: map_map)
  show "foreign_key_modifiers_of_segment d (key_segment t) = d"
    unfolding key_segment_def
    by (rule further_segment_references) (simp_all add: further_keywords keywords_differ p k searched_keywords_def)
  have "find_sql_keyword_top_level (''PRIMARY'' @ spaced [''KEY'', ?k]) ''CHECK'' (length ''PRIMARY'') = None"
    by (rule find_keyword_missing [OF searched_sql_keywords(3)]) (simp add: p k searched_keywords_def)
  then show "check_of_segment d (key_segment t) = d"
    unfolding key_segment_def
    using keyword_alpha [OF further_keywords(2)]
    by (simp add: check_of_segment_def word_start [OF further_keywords(2)] read_word keyword_at_start searched_sql_keywords
        keywords_differ del: spaced_simps append.simps list.size)
qed

lemma table_check_ignored:
  assumes "balanced (ck_expression k)"
  shows "unique_of_segment d (table_check_sql sqlite_dialect k) = d"
    "foreign_key_modifiers_of_segment d (table_check_sql sqlite_dialect k) = d"
proof -
  let ?p = "in_parens (ck_expression k)"
  have p: "lacks kw ?p" for kw by (rule lacks_parens [OF assms])
  show "unique_of_segment d (table_check_sql sqlite_dialect k) = d"
  proof (cases "ck_name k")
    case None
    then show ?thesis
      unfolding table_check_words
      using further_segment_unique [OF searched_sql_keywords(3) keywords_differ(1,2), of "[?p]" d] p by simp
  next
    case (Some n)
    let ?t = "''CONSTRAINT'' @ spaced [quote_ansi_identifier n, ''CHECK'', ?p]"
    have "find_sql_keyword_top_level ?t ''UNIQUE'' (length ''CONSTRAINT'') = None"
      by (rule find_keyword_missing [OF searched_sql_keywords(2)]) (simp add: p keywords_lack)
    then have "unique_of_segment d ?t = d"
      using named_keyword [OF searched_sql_keywords(2), of "''CHECK''" n "[?p]"] keywords_differ(2)
        named_start [OF solid_keyword [OF searched_sql_keywords(3)], of n "[?p]"]
        read_word [OF keyword_alpha [OF searched_sql_keywords(1)], of "[quote_ansi_identifier n, ''CHECK'', ?p]"]
      by (simp add: unique_of_segment_def del: spaced_simps append.simps list.size)
    then show ?thesis using Some by (simp add: table_check_words del: spaced_simps append.simps)
  qed
  show "foreign_key_modifiers_of_segment d (table_check_sql sqlite_dialect k) = d"
  proof (cases "ck_name k")
    case None
    then show ?thesis
      unfolding table_check_words
      using further_segment_references [OF searched_sql_keywords(3) keywords_differ(1,3), of "[?p]" d] p by simp
  next
    case (Some n)
    let ?t = "''CONSTRAINT'' @ spaced [quote_ansi_identifier n, ''CHECK'', ?p]"
    have "find_sql_keyword_top_level ?t ''REFERENCES'' (length ''CONSTRAINT'') = None"
      by (rule find_keyword_missing [OF searched_sql_keywords(4)]) (simp add: p keywords_lack)
    then have "foreign_key_modifiers_of_segment d ?t = d"
      using named_keyword [OF further_keywords(1), of "''CHECK''" n "[?p]"] keywords_differ(3)
        named_start [OF solid_keyword [OF searched_sql_keywords(3)], of n "[?p]"]
        read_word [OF keyword_alpha [OF searched_sql_keywords(1)], of "[quote_ansi_identifier n, ''CHECK'', ?p]"]
      by (simp add: foreign_key_modifiers_of_segment_def del: spaced_simps append.simps list.size)
    then show ?thesis using Some by (simp add: table_check_words del: spaced_simps append.simps)
  qed
qed

lemma check_of_table_check:
  assumes "balanced (ck_expression k)"
  shows "check_of_segment d (table_check_sql sqlite_dialect k) =
    d\<lparr>tb_checks := tb_checks d @ [\<lparr>ck_name = ck_name k, ck_expression = trim_sql_view (ck_expression k)\<rparr>]\<rparr>"
proof (cases "ck_name k")
  case None
  let ?t = "''CHECK'' @ spaced [in_parens (ck_expression k)]"
  have "extract_check_expression ?t 0 = Some (trim_sql_view (ck_expression k))"
    using extract_check [OF assms, of "[]" "[]"] by simp
  moreover have "sql_keyword_at ?t 0 ''CHECK''" by (subst keyword_at_start) (simp_all add: searched_sql_keywords)
  ultimately have "check_of_segment d ?t =
      d\<lparr>tb_checks := tb_checks d @ [\<lparr>ck_name = None, ck_expression = trim_sql_view (ck_expression k)\<rparr>]\<rparr>"
    using word_start [OF searched_sql_keywords(3) keywords_differ(1), of "[in_parens (ck_expression k)]"]
    by (simp add: check_of_segment_def del: spaced_simps append.simps)
  then show ?thesis using None by (simp add: table_check_words del: spaced_simps append.simps)
next
  case (Some n)
  let ?x = "''CONSTRAINT'' @ spaced [quote_ansi_identifier n]"
  let ?t = "''CONSTRAINT'' @ spaced [quote_ansi_identifier n, ''CHECK'', in_parens (ck_expression k)]"
  have "extract_check_expression ?t (Suc (length ?x)) = Some (trim_sql_view (ck_expression k))"
    using extract_check [OF assms, of "?x @ '' ''" "[]"] by simp
  moreover have "sql_keyword_at ?t (Suc (length ?x)) ''CHECK''" by (subst named_keyword) (simp_all add: searched_sql_keywords)
  ultimately have "check_of_segment d ?t =
      d\<lparr>tb_checks := tb_checks d @ [\<lparr>ck_name = Some n, ck_expression = trim_sql_view (ck_expression k)\<rparr>]\<rparr>"
    using named_start [OF solid_keyword [OF searched_sql_keywords(3)], of n "[in_parens (ck_expression k)]"]
    by (simp add: check_of_segment_def del: spaced_simps append.simps list.size)
  then show ?thesis using Some by (simp add: table_check_words del: spaced_simps append.simps)
qed

subsection \<open>The whole table\<close>

lemma update_first_middle:
  "\<forall>x \<in> set xs. \<not> P x \<Longrightarrow> P y \<Longrightarrow> update_first P f (xs @ y # ys) = xs @ f y # ys"
  by (induction xs) auto

lemma foldl_columns_from:
  assumes "\<And>c d. c \<in> set cs \<Longrightarrow> List.map col_name (tb_columns d) = names \<Longrightarrow> step d (sql c) = on_column d (cm_name c) (f c)"
    and "\<And>c k. col_name (f c k) = col_name k" and "distinct names"
    and "tb_columns d = ks @ ls" and "List.map col_name ls = List.map cm_name cs" and "List.map col_name (ks @ ls) = names"
  shows "foldl step d (List.map sql cs) = d\<lparr>tb_columns := ks @ List.map2 f cs ls\<rparr>"
  using assms
proof (induction cs arbitrary: d ks ls)
  case (Cons c cs)
  then obtain l ls' where ls: "ls = l # ls'" "col_name l = cm_name c" by auto
  have "List.map col_name ks @ cm_name c # List.map col_name ls' = names" using Cons.prems(6) ls by simp
  then have "cm_name c \<notin> col_name ` set ks" using Cons.prems(3) by auto
  then have fresh: "\<forall>k \<in> set ks. col_name k \<noteq> cm_name c" by (metis imageI)
  have step: "step d (sql c) = d\<lparr>tb_columns := ks @ f c l # ls'\<rparr>"
    using Cons.prems(1) [of c d] Cons.prems(4,6) ls update_first_middle [of ks "\<lambda>k. col_name k = cm_name c" l "f c" ls'] fresh
    by (simp add: on_column_def)
  have "foldl step (step d (sql c)) (List.map sql cs) =
      (step d (sql c))\<lparr>tb_columns := (ks @ [f c l]) @ List.map2 f cs ls'\<rparr>"
    by (rule Cons.IH) (use Cons.prems ls step in auto)
  then show ?case using ls step by simp
qed simp

lemmas foldl_columns = foldl_columns_from [where ks = "[]", simplified]

text \<open>What a mapped column adds to the column the pragmas report.\<close>

definition with_unique :: "column_mapping \<Rightarrow> database_column \<Rightarrow> database_column" where
  "with_unique c k = (case cm_unique c of None \<Rightarrow> k | Some u \<Rightarrow> k\<lparr>col_unique := True, col_unique_name := u\<rparr>)"

definition with_check :: "column_mapping \<Rightarrow> database_column \<Rightarrow> database_column" where
  "with_check c k = (case cm_check c of None \<Rightarrow> k | Some e \<Rightarrow> k\<lparr>col_check := Some (trim_sql_view e)\<rparr>)"

definition with_reference :: "column_mapping \<Rightarrow> database_column \<Rightarrow> database_column" where
  "with_reference c k =
     (case (cm_reference c, col_references k) of
        (Some r, Some f) \<Rightarrow>
          k\<lparr>col_references := Some (f\<lparr>fk_name := text_option (ra_constraint_name r), fk_deferrable := ra_deferrable r\<rparr>)\<rparr>
      | _ \<Rightarrow> k)"

lemma with_names [simp]:
  "col_name (with_unique c k) = col_name k" "col_name (with_check c k) = col_name k" "col_name (with_reference c k) = col_name k"
  by (simp_all add: with_unique_def with_check_def with_reference_def split: option.split)

lemma with_functions:
  "with_unique c = (case cm_unique c of None \<Rightarrow> (\<lambda>k. k) | Some u \<Rightarrow> (\<lambda>k. k\<lparr>col_unique := True, col_unique_name := u\<rparr>))"
  "with_check c = (case cm_check c of None \<Rightarrow> (\<lambda>k. k) | Some e \<Rightarrow> (\<lambda>k. k\<lparr>col_check := Some (trim_sql_view e)\<rparr>))"
  "with_reference c = (case cm_reference c of None \<Rightarrow> (\<lambda>k. k)
     | Some r \<Rightarrow> (\<lambda>k. case col_references k of None \<Rightarrow> k
         | Some f \<Rightarrow> k\<lparr>col_references := Some (f\<lparr>fk_name := text_option (ra_constraint_name r), fk_deferrable := ra_deferrable r\<rparr>)\<rparr>))"
  by (auto simp: with_unique_def with_check_def with_reference_def fun_eq_iff split: option.split)

lemma on_column_same: "on_column d n (\<lambda>k. k) = d"
proof -
  have "update_first P (\<lambda>k. k) xs = xs" for P and xs :: "database_column list" by (induction xs) auto
  then show ?thesis by (simp add: on_column_def)
qed

definition trimmed_check :: "database_check \<Rightarrow> database_check" where
  "trimmed_check k = k\<lparr>ck_expression := trim_sql_view (ck_expression k)\<rparr>"

lemma foldl_ignored: "(\<And>d x. x \<in> set xs \<Longrightarrow> step d x = d) \<Longrightarrow> foldl step d xs = d"
  by (induction xs) auto

lemma foldl_table_checks:
  "list_all (\<lambda>k. balanced (ck_expression k)) ks \<Longrightarrow>
     foldl check_of_segment d (List.map (table_check_sql sqlite_dialect) ks) =
     d\<lparr>tb_checks := tb_checks d @ List.map trimmed_check ks\<rparr>"
  by (induction ks arbitrary: d) (simp_all add: check_of_table_check trimmed_check_def)

lemma parsers_of_created_table:
  assumes ok: "mapping_ok real t" and names: "List.map col_name (tb_columns d) = List.map cm_name (mt_columns t)"
  shows "parse_sqlite_unique_constraints (create_table_sql real sqlite_dialect t) d =
      d\<lparr>tb_columns := List.map2 with_unique (mt_columns t) (tb_columns d)\<rparr>"
    "parse_sqlite_check_constraints (create_table_sql real sqlite_dialect t) d =
      d\<lparr>tb_columns := List.map2 with_check (mt_columns t) (tb_columns d),
        tb_checks := tb_checks d @ List.map trimmed_check (mt_checks t)\<rparr>"
    "parse_sqlite_foreign_key_modifiers (create_table_sql real sqlite_dialect t) d =
      d\<lparr>tb_columns := List.map2 with_reference (mt_columns t) (tb_columns d)\<rparr>"
proof -
  let ?sql = "column_sql real sqlite_dialect (primary_key_count t)"
  let ?more = "(if primary_key_count t > 1 then [key_segment t] else []) @ List.map (table_check_sql sqlite_dialect) (mt_checks t)"
  have cols: "\<And>c. c \<in> set (mt_columns t) \<Longrightarrow> column_ok real c"
    and checks: "\<And>k. k \<in> set (mt_checks t) \<Longrightarrow> balanced (ck_expression k)"
    and dist: "distinct (List.map cm_name (mt_columns t))"
    using ok by (auto simp: mapping_ok_def list_all_iff)
  have segments: "foldl step d (table_segments real t) = foldl step (foldl step d (List.map ?sql (mt_columns t))) ?more" for step d
    by (simp add: table_segments_def)
  have step: "unique_of_segment d' (?sql c) = on_column d' (cm_name c) (with_unique c)" if "c \<in> set (mt_columns t)" for d' c
    using unique_of_column [OF cols [OF that]]
    by (cases "cm_unique c")
      (simp_all add: with_functions apply_sqlite_column_unique_def on_column_same)
  have columns: "foldl unique_of_segment d (List.map ?sql (mt_columns t)) =
      d\<lparr>tb_columns := List.map2 with_unique (mt_columns t) (tb_columns d)\<rparr>"
    by (rule foldl_columns [where names = "List.map cm_name (mt_columns t)"]) (use step dist names in simp_all)
  have "foldl unique_of_segment d' ?more = d'" for d'
    by (rule foldl_ignored) (auto simp: key_segment_ignored table_check_ignored checks split: if_splits)
  with columns show "parse_sqlite_unique_constraints (create_table_sql real sqlite_dialect t) d =
      d\<lparr>tb_columns := List.map2 with_unique (mt_columns t) (tb_columns d)\<rparr>"
    by (simp add: parse_sqlite_unique_constraints_def split_created_table [OF ok] segments)
  have step: "foreign_key_modifiers_of_segment d' (?sql c) = on_column d' (cm_name c) (with_reference c)"
    if "c \<in> set (mt_columns t)" for d' c
    using references_of_column [OF cols [OF that]]
    by (cases "cm_reference c") (simp_all add: with_functions on_column_same)
  have columns: "foldl foreign_key_modifiers_of_segment d (List.map ?sql (mt_columns t)) =
      d\<lparr>tb_columns := List.map2 with_reference (mt_columns t) (tb_columns d)\<rparr>"
    by (rule foldl_columns [where names = "List.map cm_name (mt_columns t)"]) (use step dist names in simp_all)
  have "foldl foreign_key_modifiers_of_segment d' ?more = d'" for d'
    by (rule foldl_ignored) (auto simp: key_segment_ignored table_check_ignored checks split: if_splits)
  with columns show "parse_sqlite_foreign_key_modifiers (create_table_sql real sqlite_dialect t) d =
      d\<lparr>tb_columns := List.map2 with_reference (mt_columns t) (tb_columns d)\<rparr>"
    by (simp add: parse_sqlite_foreign_key_modifiers_def split_created_table [OF ok] segments)
  have step: "check_of_segment d' (?sql c) = on_column d' (cm_name c) (with_check c)"
    if "c \<in> set (mt_columns t)" "List.map col_name (tb_columns d') = List.map cm_name (mt_columns t)" for d' c
  proof -
    have "cm_name c \<in> set (List.map col_name (tb_columns d'))" using that by simp
    then have "list_ex (\<lambda>k. col_name k = cm_name c) (tb_columns d')" by (auto simp: list_ex_iff)
    from check_of_column [OF cols [OF that(1)] this] show ?thesis
      by (cases "cm_check c") (simp_all add: with_functions on_column_same)
  qed
  have columns: "foldl check_of_segment d (List.map ?sql (mt_columns t)) =
      d\<lparr>tb_columns := List.map2 with_check (mt_columns t) (tb_columns d)\<rparr>"
    by (rule foldl_columns [where names = "List.map cm_name (mt_columns t)"]) (use step dist names in simp_all)
  have "foldl check_of_segment d' ?more = d'\<lparr>tb_checks := tb_checks d' @ List.map trimmed_check (mt_checks t)\<rparr>" for d'
    using foldl_table_checks [of "mt_checks t" d'] ok by (simp add: key_segment_ignored mapping_ok_def)
  with columns show "parse_sqlite_check_constraints (create_table_sql real sqlite_dialect t) d =
      d\<lparr>tb_columns := List.map2 with_check (mt_columns t) (tb_columns d),
        tb_checks := tb_checks d @ List.map trimmed_check (mt_checks t)\<rparr>"
    by (simp add: parse_sqlite_check_constraints_def split_created_table [OF ok] segments)
qed

end
