(* ===== verification/Schema_Introspection.thy ===== *)
theory Schema_Introspection
  imports Sqlite_Ddl
begin

section \<open>Introspection of a SQLite database (include/metal/schema_introspection.hpp)\<close>

text \<open>
  \<open>introspect_sqlite\<close> asks the database for its tables, columns, keys and indexes and completes what the
  pragmas leave out from the text of the tables. The database is a parameter (a \<open>DbExecutor\<close>), every
  query an action that may throw; \<open>std::unordered_map\<close> is an association map.
\<close>

subsection \<open>Loops with an accumulator\<close>

fun act_fold :: "('a \<Rightarrow> 'x \<Rightarrow> ('s, 'a) action) \<Rightarrow> 'a \<Rightarrow> 'x list \<Rightarrow> ('s, 'a) action" where
  "act_fold f a [] = act_return a"
| "act_fold f a (x # xs) = act_bind (f a x) (\<lambda>b. act_fold f b xs)"

fun fold_result :: "('a \<Rightarrow> 'x \<Rightarrow> 'a result) \<Rightarrow> 'a \<Rightarrow> 'x list \<Rightarrow> 'a result" where
  "fold_result f a [] = Inr a"
| "fold_result f a (x # xs) = rbind (f a x) (\<lambda>b. fold_result f b xs)"

subsection \<open>Values of rows\<close>

definition row_string :: "row \<Rightarrow> string \<Rightarrow> string option result" where
  "row_string row key =
     (case alookup row key of
        None \<Rightarrow> Inr None
      | Some VNull \<Rightarrow> Inr None
      | Some (VString s) \<Rightarrow> Inr (Some s)
      | Some _ \<Rightarrow> Inl conversion_error)"

definition row_int :: "fp \<Rightarrow> row \<Rightarrow> string \<Rightarrow> int \<Rightarrow> int result" where
  "row_int F row key fallback =
     (case alookup row key of
        None \<Rightarrow> Inr fallback
      | Some VNull \<Rightarrow> Inr fallback
      | Some v \<Rightarrow> rbind (from_value F (TInt True 64) v) (\<lambda>x. case x of CInt i \<Rightarrow> Inr i | _ \<Rightarrow> Inl conversion_error))"

definition contains_name :: "string list \<Rightarrow> string \<Rightarrow> bool" where
  "contains_name values name \<longleftrightarrow> name \<in> set values"

definition include_table :: "string \<Rightarrow> introspect_options \<Rightarrow> bool" where
  "include_table name opt \<longleftrightarrow>
     \<not> (io_include_tables opt \<noteq> [] \<and> \<not> contains_name (io_include_tables opt) name) \<and>
     \<not> contains_name (io_exclude_tables opt) name"

definition include_view :: "string \<Rightarrow> introspect_options \<Rightarrow> bool" where
  "include_view name opt \<longleftrightarrow> \<not> contains_name (io_exclude_views opt) name"

definition uppercase :: "string \<Rightarrow> string" where
  "uppercase v = List.map to_upper v"

definition normalize_action :: "string option \<Rightarrow> string option" where
  "normalize_action action =
     (case action of
        None \<Rightarrow> None
      | Some a \<Rightarrow>
          let normalized = uppercase a in
          if normalized \<in> {''NO ACTION'', ''RESTRICT'', ''CASCADE'', ''SET NULL'', ''SET DEFAULT''} then Some normalized
          else None)"

text \<open>\<open>std::string::find\<close>\<close>

fun find_text :: "string \<Rightarrow> nat \<Rightarrow> string \<Rightarrow> nat option" where
  "find_text needle i s =
     (if starts_with s needle then Some i
      else case s of [] \<Rightarrow> None | c # cs \<Rightarrow> find_text needle (i + 1) cs)"

declare find_text.simps [simp del]

definition partial_index_where :: "string \<Rightarrow> string option" where
  "partial_index_where create_sql =
     (case find_text '' WHERE '' 0 (uppercase create_sql) of
        None \<Rightarrow> None
      | Some pos \<Rightarrow> Some (drop (pos + 7) create_sql))"

subsection \<open>Comments\<close>

record schema_comments =
  sc_tables :: "(string, string) amap"
  sc_columns :: "(string, string) amap"

definition no_comments :: schema_comments where
  "no_comments = \<lparr>sc_tables = [], sc_columns = []\<rparr>"

definition comment_row :: "schema_comments \<Rightarrow> row \<Rightarrow> schema_comments result" where
  "comment_row cs row =
     rbind (row_string row ''object_type'') (\<lambda>object_type.
     rbind (row_string row ''table_name'') (\<lambda>table_name.
     rbind (row_string row ''comment'') (\<lambda>comment.
       case (object_type, table_name, comment) of
         (Some kind, Some table, Some text) \<Rightarrow>
           if text = [] then Inr cs
           else if uppercase kind = ''TABLE'' then Inr (cs\<lparr>sc_tables := aput table text (sc_tables cs)\<rparr>)
           else if uppercase kind = ''COLUMN'' then
             rbind (row_string row ''column_name'') (\<lambda>column. case column of
                 None \<Rightarrow> Inr cs
               | Some c \<Rightarrow> Inr (cs\<lparr>sc_columns := aput (table @ ''.'' @ c) text (sc_columns cs)\<rparr>))
           else Inr cs
       | _ \<Rightarrow> Inr cs)))"

definition comments_exist_sql :: string where
  "comments_exist_sql = ''SELECT name FROM sqlite_master WHERE type='' @ [CHR 0x27] @ ''table'' @ [CHR 0x27] @
     '' AND name='' @ [CHR 0x27] @ ''schema_comments'' @ [CHR 0x27] @ '' LIMIT 1;''"

definition comments_sql :: string where
  "comments_sql = ''SELECT object_type, table_name, column_name, comment FROM schema_comments;''"

definition load_comments :: "'s executor \<Rightarrow> ('s, schema_comments) action" where
  "load_comments exec =
     act_bind (exec comments_exist_sql []) (\<lambda>exists.
       if qr_rows exists = [] then act_return no_comments
       else act_bind (exec comments_sql []) (\<lambda>rows. act_lift (fold_result comment_row no_comments (qr_rows rows))))"

subsection \<open>Columns\<close>

definition table_info_sql :: string where
  "table_info_sql = ''SELECT cid, name, type, '' @ [dquote] @ ''notnull'' @ [dquote] @
     '', dflt_value, pk FROM pragma_table_info(?) ORDER BY cid;''"

definition column_comment :: "schema_comments \<Rightarrow> string \<Rightarrow> string \<Rightarrow> string option" where
  "column_comment cs table column = alookup (sc_columns cs) (table @ ''.'' @ column)"

definition new_column :: "string \<Rightarrow> database_column" where
  "new_column name = \<lparr>col_name = name, col_type = [], col_not_null = False, col_unique = False, col_unique_name = None,
     col_default = None, col_auto_increment = False, col_references = None, col_check = None, col_comment = None\<rparr>"

definition value_or :: "'a option \<Rightarrow> 'a \<Rightarrow> 'a" where
  "value_or v d = (case v of None \<Rightarrow> d | Some x \<Rightarrow> x)"

definition table_column ::
  "fp \<Rightarrow> schema_comments \<Rightarrow> string \<Rightarrow> bool \<Rightarrow> database_column list \<Rightarrow> row \<Rightarrow> database_column list result" where
  "table_column F cs table has_autoincrement columns info =
     rbind (row_string info ''name'') (\<lambda>column_name. case column_name of
         None \<Rightarrow> Inr columns
       | Some name \<Rightarrow>
           rbind (row_int F info ''pk'' 0) (\<lambda>pk_order.
           rbind (row_string info ''type'') (\<lambda>ty.
           rbind (row_int F info ''notnull'' 0) (\<lambda>not_null.
           rbind (row_string info ''dflt_value'') (\<lambda>default_value.
             Inr (columns @ [(new_column name)\<lparr>col_type := value_or ty [],
               col_not_null := (not_null = 1 \<or> pk_order > 0), col_default := default_value,
               col_auto_increment := (has_autoincrement \<and> pk_order > 0),
               col_comment := column_comment cs table name\<rparr>]))))))"

definition view_column ::
  "fp \<Rightarrow> schema_comments \<Rightarrow> string \<Rightarrow> database_column list \<Rightarrow> row \<Rightarrow> database_column list result" where
  "view_column F cs view columns info =
     rbind (row_string info ''name'') (\<lambda>column_name. case column_name of
         None \<Rightarrow> Inr columns
       | Some name \<Rightarrow>
           rbind (row_string info ''type'') (\<lambda>ty.
           rbind (row_int F info ''notnull'' 0) (\<lambda>not_null.
             Inr (columns @ [(new_column name)\<lparr>col_type := value_or ty [], col_not_null := (not_null = 1),
               col_comment := column_comment cs view name\<rparr>]))))"

subsection \<open>Keys\<close>

text \<open>
  \<open>std::sort\<close> on pairs orders by the first component and then by the second: equal pairs are not told
  apart, so a stable sort by the second followed by one by the first has the same result.
\<close>

definition primary_key_entry :: "fp \<Rightarrow> (int \<times> string) list \<Rightarrow> row \<Rightarrow> (int \<times> string) list result" where
  "primary_key_entry F key info =
     rbind (row_int F info ''pk'' 0) (\<lambda>order.
     rbind (row_string info ''name'') (\<lambda>name. case name of
         Some n \<Rightarrow> if order > 0 then Inr (key @ [(order, n)]) else Inr key
       | None \<Rightarrow> Inr key))"

definition sorted_key :: "(int \<times> string) list \<Rightarrow> string list" where
  "sorted_key key = List.map snd (sort_key fst (sort_key snd key))"

definition foreign_key_list_sql :: string where
  "foreign_key_list_sql = ''SELECT id, seq, '' @ [dquote] @ ''table'' @ [dquote] @ '', '' @ [dquote] @ ''from'' @ [dquote] @
     '', '' @ [dquote] @ ''to'' @ [dquote] @ '', on_update, on_delete FROM pragma_foreign_key_list(?) ORDER BY id, seq;''"

definition foreign_key_row :: "database_table \<Rightarrow> row \<Rightarrow> database_table result" where
  "foreign_key_row t fk =
     rbind (row_string fk ''from'') (\<lambda>from.
     rbind (row_string fk ''table'') (\<lambda>target_table.
     rbind (row_string fk ''to'') (\<lambda>target_column.
       case (from, target_table, target_column) of
         (Some f, Some tt, Some tc) \<Rightarrow>
           if \<not> list_ex (\<lambda>c. col_name c = f) (tb_columns t) then Inr t
           else
             rbind (row_string fk ''on_delete'') (\<lambda>on_delete.
             rbind (row_string fk ''on_update'') (\<lambda>on_update.
               Inr (on_column t f (\<lambda>c. c\<lparr>col_references := Some \<lparr>fk_table = tt, fk_column = tc, fk_name = None,
                 fk_on_delete = normalize_action on_delete, fk_on_update = normalize_action on_update,
                 fk_deferrable = False, fk_schema = None\<rparr>\<rparr>))))
       | _ \<Rightarrow> Inr t)))"

subsection \<open>Indexes\<close>

definition index_list_sql :: string where
  "index_list_sql = ''SELECT seq, name, '' @ [dquote] @ ''unique'' @ [dquote] @
     '', origin, partial FROM pragma_index_list(?) ORDER BY seq;''"

definition index_info_sql :: string where
  "index_info_sql = ''SELECT seqno, cid, name FROM pragma_index_info(?) ORDER BY seqno;''"

definition index_text_sql :: string where
  "index_text_sql = ''SELECT sql FROM sqlite_master WHERE type='' @ [CHR 0x27] @ ''index'' @ [CHR 0x27] @ '' AND name=? LIMIT 1;''"

definition index_column :: "string list \<Rightarrow> row \<Rightarrow> string list result" where
  "index_column columns info =
     rbind (row_string info ''name'') (\<lambda>c. case c of None \<Rightarrow> Inr columns | Some n \<Rightarrow> Inr (columns @ [n]))"

definition index_where :: "'s executor \<Rightarrow> string \<Rightarrow> ('s, string option) action" where
  "index_where exec name =
     act_bind (exec index_text_sql [VString name]) (\<lambda>sql. case qr_rows sql of
         [] \<Rightarrow> act_return None
       | row # _ \<Rightarrow> act_bind (act_lift (row_string row ''sql'')) (\<lambda>d. act_return (case d of
             None \<Rightarrow> None | Some definition_sql \<Rightarrow> partial_index_where definition_sql)))"

definition table_index :: "fp \<Rightarrow> 's executor \<Rightarrow> database_table \<Rightarrow> row \<Rightarrow> ('s, database_table) action" where
  "table_index F exec t idx =
     act_bind (act_lift (row_string idx ''name'')) (\<lambda>index_name.
     act_bind (act_lift (row_string idx ''origin'')) (\<lambda>origin.
       case index_name of
         None \<Rightarrow> act_return t
       | Some name \<Rightarrow>
           if value_or origin [] = ''pk'' \<or> starts_with name ''sqlite_autoindex_'' then act_return t
           else
             act_bind (act_lift (row_int F idx ''unique'' 0)) (\<lambda>uniq.
             act_bind (exec index_info_sql [VString name]) (\<lambda>infos.
             act_bind (act_lift (fold_result index_column [] (qr_rows infos))) (\<lambda>columns.
             act_bind (act_lift (row_int F idx ''partial'' 0)) (\<lambda>partial.
             act_bind (if partial = 1 then index_where exec name else act_return None) (\<lambda>where_sql.
               act_return (t\<lparr>tb_indexes := tb_indexes t @
                 [\<lparr>ix_name = name, ix_columns = columns, ix_unique = (uniq = 1), ix_where = where_sql\<rparr>]\<rparr>))))))))"

subsection \<open>Tables and views\<close>

definition new_table :: "string \<Rightarrow> database_table" where
  "new_table name = \<lparr>tb_name = name, tb_columns = [], tb_primary_key = [], tb_indexes = [], tb_checks = [],
     tb_comment = None, tb_primary_key_name = None\<rparr>"

definition introspect_table ::
  "fp \<Rightarrow> 's executor \<Rightarrow> schema_comments \<Rightarrow> string \<Rightarrow> string \<Rightarrow> ('s, database_table) action" where
  "introspect_table F exec cs name create_sql =
     (let has_autoincrement = find_text ''AUTOINCREMENT'' 0 (uppercase create_sql) \<noteq> None in
      act_bind (exec table_info_sql [VString name]) (\<lambda>infos.
      act_bind (act_lift (fold_result (table_column F cs name has_autoincrement) [] (qr_rows infos))) (\<lambda>columns.
        let t = (new_table name)\<lparr>tb_comment := alookup (sc_tables cs) name, tb_columns := columns\<rparr>;
            t = parse_sqlite_check_constraints create_sql (parse_sqlite_unique_constraints create_sql t) in
        act_bind (act_lift (fold_result (primary_key_entry F) [] (qr_rows infos))) (\<lambda>key.
        act_bind (exec foreign_key_list_sql [VString name]) (\<lambda>fks.
        act_bind (act_lift (fold_result foreign_key_row (t\<lparr>tb_primary_key := sorted_key key\<rparr>) (qr_rows fks))) (\<lambda>t.
        act_bind (exec index_list_sql [VString name]) (\<lambda>indexes.
          act_fold (table_index F exec) (parse_sqlite_foreign_key_modifiers create_sql t) (qr_rows indexes))))))))"

definition introspect_table_row ::
  "fp \<Rightarrow> 's executor \<Rightarrow> introspect_options \<Rightarrow> schema_comments \<Rightarrow> database_schema \<Rightarrow> row \<Rightarrow> ('s, database_schema) action" where
  "introspect_table_row F exec opt cs schema row =
     act_bind (act_lift (row_string row ''name'')) (\<lambda>name. case name of
         None \<Rightarrow> act_return schema
       | Some n \<Rightarrow>
           if \<not> include_table n opt then act_return schema
           else
             act_bind (act_lift (row_string row ''sql'')) (\<lambda>sql.
             act_bind (introspect_table F exec cs n (value_or sql [])) (\<lambda>t.
               act_return (schema\<lparr>ds_tables := ds_tables schema @ [t]\<rparr>))))"

definition introspect_view_row ::
  "fp \<Rightarrow> 's executor \<Rightarrow> introspect_options \<Rightarrow> schema_comments \<Rightarrow> database_schema \<Rightarrow> row \<Rightarrow> ('s, database_schema) action" where
  "introspect_view_row F exec opt cs schema row =
     act_bind (act_lift (row_string row ''name'')) (\<lambda>name. case name of
         None \<Rightarrow> act_return schema
       | Some n \<Rightarrow>
           if \<not> include_view n opt then act_return schema
           else
             act_bind (act_lift (row_string row ''sql'')) (\<lambda>sql.
             act_bind (exec table_info_sql [VString n]) (\<lambda>infos.
             act_bind (act_lift (fold_result (view_column F cs n) [] (qr_rows infos))) (\<lambda>columns.
               act_return (schema\<lparr>ds_views := ds_views schema @ [\<lparr>vw_name = n, vw_columns = columns,
                 vw_definition = sql, vw_comment = alookup (sc_tables cs) n\<rparr>]\<rparr>)))))"

definition tables_sql :: string where
  "tables_sql = ''SELECT name, sql FROM sqlite_master WHERE type='' @ [CHR 0x27] @ ''table'' @ [CHR 0x27] @
     '' AND name NOT LIKE '' @ [CHR 0x27] @ ''sqlite_%'' @ [CHR 0x27] @ '' ORDER BY name;''"

definition views_sql :: string where
  "views_sql = ''SELECT name, sql FROM sqlite_master WHERE type='' @ [CHR 0x27] @ ''view'' @ [CHR 0x27] @ '' ORDER BY name;''"

definition introspect_sqlite :: "fp \<Rightarrow> 's executor \<Rightarrow> introspect_options \<Rightarrow> ('s, database_schema) action" where
  "introspect_sqlite F exec opt =
     act_bind (load_comments exec) (\<lambda>cs.
     act_bind (exec tables_sql []) (\<lambda>master.
     act_bind (act_fold (introspect_table_row F exec opt cs) \<lparr>ds_tables = [], ds_views = []\<rparr> (qr_rows master)) (\<lambda>schema.
       if \<not> io_include_views opt then act_return schema
       else act_bind (exec views_sql []) (\<lambda>views.
         act_fold (introspect_view_row F exec opt cs) schema (qr_rows views)))))"

end
