(* ===== verification/Schema_Round_Trip.thy ===== *)
theory Schema_Round_Trip
  imports Ddl_Round_Trip Schema_Introspection Schema_Sync
begin

section \<open>A created table is introspected as it was mapped\<close>

text \<open>
  The generator, the introspection with its parser and the diff together: when SQLite holds the tables
  the generator wrote, introspection returns a schema in which the diff finds nothing to do. What
  SQLite's catalog and pragmas answer for a table it created is stated as the predicate
  \<open>sqlite_reports\<close>; it says nothing of the text of the constraints, which the program reads itself.
\<close>

subsection \<open>What SQLite answers\<close>

definition reported_action :: "referential_action \<Rightarrow> string" where
  "reported_action a = (if a = Unspecified then ''NO ACTION'' else referential_action_sql a)"

text \<open>
  \<open>pragma_table_info\<close>: the declared name and type, whether \<open>NOT NULL\<close> is declared, the text of the default
  and a positive number for a column of the primary key.
\<close>

definition info_reports :: "(u64 \<Rightarrow> string) \<Rightarrow> table_mapping \<Rightarrow> column_mapping \<Rightarrow> row \<Rightarrow> bool" where
  "info_reports real t c row \<longleftrightarrow>
     alookup row ''name'' = Some (VString (cm_name c)) \<and>
     alookup row ''type'' = Some (VString (sqlite_column_type_name c)) \<and>
     alookup row ''notnull'' =
       Some (VInt (if \<not> is_optional (cm_type c) \<and> (\<not> cm_primary_key c \<or> primary_key_count t > 1) then 1 else 0)) \<and>
     alookup row ''dflt_value'' =
       Some (case cm_default c of None \<Rightarrow> VNull | Some v \<Rightarrow> VString (column_default_sql real v)) \<and>
     (case alookup row ''pk'' of Some (VInt p) \<Rightarrow> (sint p > 0) = cm_primary_key c | _ \<Rightarrow> False)"

text \<open>\<open>pragma_foreign_key_list\<close>: one row for each column with a reference, in any order.\<close>

definition reference_reports :: "column_mapping \<Rightarrow> row \<Rightarrow> bool" where
  "reference_reports c row \<longleftrightarrow>
     (case cm_reference c of
        None \<Rightarrow> False
      | Some r \<Rightarrow>
          alookup row ''from'' = Some (VString (cm_name c)) \<and>
          alookup row ''table'' = Some (VString (ra_table r)) \<and>
          alookup row ''to'' = Some (VString (ra_column r)) \<and>
          alookup row ''on_delete'' = Some (VString (reported_action (ra_on_delete r))) \<and>
          alookup row ''on_update'' = Some (VString (reported_action (ra_on_update r))))"

text \<open>\<open>pragma_index_list\<close>: the indexes SQLite makes for unique constraints and keys have reserved names.\<close>

definition automatic_index :: "row \<Rightarrow> bool" where
  "automatic_index row \<longleftrightarrow>
     (case (alookup row ''name'', alookup row ''origin'') of
        (Some (VString n), Some (VString og)) \<Rightarrow> og = ''pk'' \<or> starts_with n ''sqlite_autoindex_''
      | _ \<Rightarrow> False)"

definition rows_result :: "row list \<Rightarrow> query_result" where
  "rows_result rs = \<lparr>qr_rows = rs, qr_affected = 0, qr_last_id = 0\<rparr>"

definition answers :: "'s executor \<Rightarrow> string \<Rightarrow> dbvalue list \<Rightarrow> row list \<Rightarrow> bool" where
  "answers exec sql ps rows \<longleftrightarrow> (\<forall>s. exec sql ps s = (Inr (rows_result rows), s))"

definition table_reported ::
  "(u64 \<Rightarrow> string) \<Rightarrow> 's executor \<Rightarrow> table_mapping \<Rightarrow> row list \<Rightarrow> row list \<Rightarrow> row list \<Rightarrow> bool" where
  "table_reported real exec t infos fks ixs \<longleftrightarrow>
     answers exec table_info_sql [VString (mt_table t)] infos \<and> list_all2 (info_reports real t) (mt_columns t) infos \<and>
     answers exec foreign_key_list_sql [VString (mt_table t)] fks \<and>
     list_all (\<lambda>row. list_ex (\<lambda>c. reference_reports c row) (mt_columns t)) fks \<and>
     list_all (\<lambda>c. cm_reference c = None \<or> list_ex (reference_reports c) fks) (mt_columns t) \<and>
     answers exec index_list_sql [VString (mt_table t)] ixs \<and> list_all automatic_index ixs"

definition sqlite_reports :: "(u64 \<Rightarrow> string) \<Rightarrow> 's executor \<Rightarrow> table_mapping list \<Rightarrow> bool" where
  "sqlite_reports real exec ts \<longleftrightarrow>
     answers exec comments_exist_sql [] [] \<and>
     (\<exists>rows. answers exec tables_sql [] rows \<and>
        list_all2 (\<lambda>t row. alookup row ''name'' = Some (VString (mt_table t)) \<and>
          alookup row ''sql'' = Some (VString (create_table_sql real sqlite_dialect t))) ts rows) \<and>
     (\<forall>t \<in> set ts. \<exists>infos fks ixs. table_reported real exec t infos fks ixs)"

subsection \<open>Mappings the schema can express\<close>

text \<open>
  No optional primary key (SQLite's and the mapping's idea of its nullability differ), a generated column
  only as the single primary key (as the generator demands), no other text that contains \<open>AUTOINCREMENT\<close>
  (the introspection searches the whole text for it), and checks that begin and end with no other
  white space than blanks.
\<close>

definition schema_exact :: "(u64 \<Rightarrow> string) \<Rightarrow> table_mapping \<Rightarrow> bool" where
  "schema_exact real t \<longleftrightarrow>
     list_all (\<lambda>c. \<not> (cm_primary_key c \<and> is_optional (cm_type c))) (mt_columns t) \<and>
     (if list_ex cm_generated (mt_columns t)
      then list_all (\<lambda>c. cm_generated c = cm_primary_key c) (mt_columns t)
      else find_text ''AUTOINCREMENT'' 0 (uppercase (create_table_sql real sqlite_dialect t)) = None) \<and>
     list_all (\<lambda>c. case cm_check c of None \<Rightarrow> True
        | Some e \<Rightarrow> trim_by is_blank (trim_sql_view e) = trim_by is_blank e) (mt_columns t) \<and>
     list_all (\<lambda>k. trim_by is_blank (trim_sql_view (ck_expression k)) = trim_by is_blank (ck_expression k)) (mt_checks t)"

subsection \<open>Reading the answers\<close>

lemma answersD: "answers exec sql ps rows \<Longrightarrow> exec sql ps s = (Inr (rows_result rows), s)"
  by (simp add: answers_def)

lemma rows_result_rows [simp]: "qr_rows (rows_result rows) = rows"
  by (simp add: rows_result_def)

lemma row_string_simps:
  "alookup row key = Some (VString v) \<Longrightarrow> row_string row key = Inr (Some v)"
  "alookup row key = Some VNull \<Longrightarrow> row_string row key = Inr None"
  by (simp_all add: row_string_def)

lemma row_int_simps: "alookup row key = Some (VInt i) \<Longrightarrow> row_int F row key fallback = Inr (sint i)"
proof -
  have "cast_int True 64 (sint i) = sint i" for i :: u64
    using sint_ge [of i] sint_lt [of i] by (intro cast_int_id) simp_all
  then show "alookup row key = Some (VInt i) \<Longrightarrow> row_int F row key fallback = Inr (sint i)" by (simp add: row_int_def)
qed

text \<open>The column the pragma reports for a mapped column.\<close>

definition reported_column :: "(u64 \<Rightarrow> string) \<Rightarrow> bool \<Rightarrow> column_mapping \<Rightarrow> database_column" where
  "reported_column real auto c = (new_column (cm_name c))\<lparr>col_type := sqlite_column_type_name c,
     col_not_null := (\<not> is_optional (cm_type c) \<or> cm_primary_key c),
     col_default := map_option (column_default_sql real) (cm_default c),
     col_auto_increment := (auto \<and> cm_primary_key c), col_comment := None\<rparr>"

lemma table_column_reported:
  assumes "info_reports real t c row" and "cm_primary_key c \<Longrightarrow> \<not> is_optional (cm_type c)"
  shows "table_column F no_comments n auto columns row = Inr (columns @ [reported_column real auto c])"
proof -
  obtain p where p: "alookup row ''pk'' = Some (VInt p)" "(sint p > 0) = cm_primary_key c"
    using assms(1) by (auto simp: info_reports_def split: option.splits dbvalue.splits)
  have "row_string row ''dflt_value'' = Inr (map_option (column_default_sql real) (cm_default c))"
    using assms(1) by (cases "cm_default c") (simp_all add: info_reports_def row_string_simps)
  with assms p show ?thesis
    by (simp add: table_column_def info_reports_def row_string_simps row_int_simps reported_column_def column_comment_def
        no_comments_def value_or_def)
qed

lemma table_columns_reported:
  assumes "list_all2 (info_reports real t) cs rows" and "\<forall>c \<in> set cs. cm_primary_key c \<longrightarrow> \<not> is_optional (cm_type c)"
  shows "fold_result (table_column F no_comments n auto) columns rows = Inr (columns @ List.map (reported_column real auto) cs)"
  using assms
  by (induction cs rows arbitrary: columns rule: list_all2_induct) (simp_all add: table_column_reported)

lemma primary_key_reported:
  assumes "list_all2 (info_reports real t) cs rows"
  shows "\<exists>k'. fold_result (primary_key_entry F) key rows = Inr k'"
  using assms
proof (induction cs rows arbitrary: key rule: list_all2_induct)
  case (Cons c cs row rows)
  obtain p where "alookup row ''pk'' = Some (VInt p)"
    using Cons(1) by (auto simp: info_reports_def split: option.splits dbvalue.splits)
  with Cons(1,3) show ?case
    by (simp add: info_reports_def primary_key_entry_def row_int_simps row_string_simps)
qed simp

text \<open>The references of the rows reach their columns.\<close>

definition reported_reference :: "reference_annotation \<Rightarrow> foreign_key_reference" where
  "reported_reference r = \<lparr>fk_table = ra_table r, fk_column = ra_column r, fk_name = None,
     fk_on_delete = Some (reported_action (ra_on_delete r)), fk_on_update = Some (reported_action (ra_on_update r)),
     fk_deferrable = False, fk_schema = None\<rparr>"

definition set_reference :: "string set \<Rightarrow> column_mapping \<Rightarrow> database_column \<Rightarrow> database_column" where
  "set_reference S c k = (case cm_reference c of
     Some r \<Rightarrow> if cm_name c \<in> S then k\<lparr>col_references := Some (reported_reference r)\<rparr> else k | None \<Rightarrow> k)"

lemma normalize_reported [simp]: "normalize_action (Some (reported_action a)) = Some (reported_action a)"
  by (cases a) (simp_all add: normalize_action_def reported_action_def uppercase_def to_upper_def)

lemma on_column_nth:
  fixes d :: database_table and cs :: "column_mapping list"
  assumes "List.map col_name (tb_columns d) = List.map cm_name cs" and "distinct (List.map cm_name cs)" and "c \<in> set cs"
  shows "on_column d (cm_name c) f = d\<lparr>tb_columns := List.map2 (\<lambda>c' k. if cm_name c' = cm_name c then f k else k) cs (tb_columns d)\<rparr>"
proof -
  have "update_first (\<lambda>k. col_name k = cm_name c) f ks = List.map2 (\<lambda>c' k. if cm_name c' = cm_name c then f k else k) cs ks"
    if "List.map col_name ks = List.map cm_name cs" "distinct (List.map cm_name cs)"
    for ks :: "database_column list" and cs :: "column_mapping list"
    using that
  proof (induction ks arbitrary: cs)
    case (Cons k ks)
    then obtain c' cs' where cs: "cs = c' # cs'" "col_name k = cm_name c'" "List.map col_name ks = List.map cm_name cs'" by auto
    have rest: "List.map2 (\<lambda>c' k. if cm_name c' = cm_name c then f k else k) cs' ks = ks"
      if "cm_name c \<notin> set (List.map cm_name cs')"
      using that cs(3) by (induction cs' ks rule: list_induct2') auto
    show ?case
    proof (cases "cm_name c' = cm_name c")
      case True
      then have "cm_name c \<notin> set (List.map cm_name cs')" using Cons.prems(2) cs(1) by simp
      from rest [OF this] True show ?thesis using cs by simp
    next
      case False
      with Cons.IH [of cs'] Cons.prems cs show ?thesis by simp
    qed
  qed simp
  with assms show ?thesis by (simp add: on_column_def)
qed

definition reported_names :: "column_mapping list \<Rightarrow> row list \<Rightarrow> string set" where
  "reported_names cs rows = {n. \<exists>c \<in> set cs. cm_name c = n \<and> list_ex (reference_reports c) rows}"

lemma set_reference_insert:
  assumes "distinct (List.map cm_name cs)" and "c \<in> set cs" and "cm_reference c = Some r" and "set cs' \<subseteq> set cs"
  shows "List.map2 (\<lambda>c' k. if cm_name c' = cm_name c then k\<lparr>col_references := Some (reported_reference r)\<rparr> else k) cs'
      (List.map2 (set_reference S) cs' ks) = List.map2 (set_reference (insert (cm_name c) S)) cs' ks"
  using assms(4)
proof (induction cs' ks rule: list_induct2')
  case (4 c' cs' k ks)
  have "cm_name c' = cm_name c \<Longrightarrow> c' = c" using 4(2) assms(1,2) by (auto simp: distinct_map inj_on_def)
  with 4 assms(3) show ?case by (auto simp: set_reference_def split: option.splits)
qed simp_all

lemma set_reference_names:
  "List.map col_name ks = List.map cm_name cs \<Longrightarrow> List.map col_name (List.map2 (set_reference S) cs ks) = List.map cm_name cs"
  by (induction cs ks rule: list_induct2') (auto simp: set_reference_def split: option.splits)

lemma foreign_key_row_reported:
  assumes dist: "distinct (List.map cm_name cs)" and c: "c \<in> set cs" "reference_reports c row"
    and "tb_columns d = List.map2 (set_reference S) cs ks" and "List.map col_name ks = List.map cm_name cs"
  shows "foreign_key_row d row = Inr (d\<lparr>tb_columns := List.map2 (set_reference (insert (cm_name c) S)) cs ks\<rparr>)"
proof -
  obtain r where r: "cm_reference c = Some r" using c(2) by (auto simp: reference_reports_def split: option.splits)
  have names: "List.map col_name (tb_columns d) = List.map cm_name cs"
    using set_reference_names [OF assms(5)] assms(4) by simp
  with c(1) have "cm_name c \<in> set (List.map col_name (tb_columns d))" by simp
  then have "list_ex (\<lambda>k. col_name k = cm_name c) (tb_columns d)" by (auto simp: list_ex_iff)
  moreover have "on_column d (cm_name c) (\<lambda>k. k\<lparr>col_references := Some (reported_reference r)\<rparr>) =
      d\<lparr>tb_columns := List.map2 (set_reference (insert (cm_name c) S)) cs ks\<rparr>"
    unfolding on_column_nth [OF names dist c(1)] assms(4)
    using set_reference_insert [OF dist c(1) r] by simp
  ultimately show ?thesis
    using c(2) r by (simp add: reference_reports_def foreign_key_row_def row_string_simps reported_reference_def)
qed

lemma foreign_keys_reported:
  assumes dist: "distinct (List.map cm_name cs)" and "list_all (\<lambda>row. list_ex (\<lambda>c. reference_reports c row) cs) rows"
    and "tb_columns d = List.map2 (set_reference S) cs ks" and names: "List.map col_name ks = List.map cm_name cs"
  shows "fold_result foreign_key_row d rows =
    Inr (d\<lparr>tb_columns := List.map2 (set_reference (reported_names cs rows \<union> S)) cs ks\<rparr>)"
  using assms(2,3)
proof (induction rows arbitrary: d S)
  case Nil
  then show ?case by (simp add: reported_names_def)
next
  case (Cons row rows)
  obtain c where c: "c \<in> set cs" "reference_reports c row" using Cons.prems(1) by (auto simp: list_ex_iff)
  have only: "c' = c" if "c' \<in> set cs" "reference_reports c' row" for c'
  proof -
    have "cm_name c' = cm_name c" using that(2) c(2) by (auto simp: reference_reports_def split: option.splits)
    with that(1) c(1) dist show ?thesis by (simp add: distinct_map inj_on_def)
  qed
  have set: "reported_names cs (row # rows) \<union> S = reported_names cs rows \<union> insert (cm_name c) S"
    using c by (auto simp: reported_names_def dest: only)
  show ?case
    using foreign_key_row_reported [OF dist c Cons.prems(2) names]
      Cons.IH [of "d\<lparr>tb_columns := List.map2 (set_reference (insert (cm_name c) S)) cs ks\<rparr>" "insert (cm_name c) S"] Cons.prems(1)
    by (simp add: set)
qed

subsection \<open>The introspected table matches the expected one\<close>

definition introspected_column :: "(u64 \<Rightarrow> string) \<Rightarrow> bool \<Rightarrow> string set \<Rightarrow> column_mapping \<Rightarrow> database_column" where
  "introspected_column real auto S c =
     with_reference c (set_reference S c (with_check c (with_unique c (reported_column real auto c))))"

lemma introspected_name [simp]: "col_name (introspected_column real auto S c) = cm_name c"
  by (simp add: introspected_column_def set_reference_def reported_column_def new_column_def split: option.split)

lemma reported_action_normal: "normalize_reference_action (text_option (referential_action_sql a)) =
    normalize_reference_action (Some (reported_action a))"
  by (cases a) (simp_all add: normalize_reference_action_def text_option_def reported_action_def to_upper_def)

lemma introspected_column_matches:
  assumes "cm_primary_key c \<longrightarrow> \<not> is_optional (cm_type c)" and "(auto \<and> cm_primary_key c) = cm_generated c"
    and "cm_reference c \<noteq> None \<longrightarrow> cm_name c \<in> S"
    and "case cm_check c of None \<Rightarrow> True | Some e \<Rightarrow> trim_by is_blank (trim_sql_view e) = trim_by is_blank e"
  shows "column_matches (expected_column real sqlite_dialect c) (introspected_column real auto S c)"
proof -
  have "same_reference (col_references (expected_column real sqlite_dialect c)) (col_references (introspected_column real auto S c))"
  proof (cases "cm_reference c")
    case None
    then show ?thesis
      by (simp add: expected_column_def introspected_column_def with_functions set_reference_def reported_column_def
          new_column_def same_reference_def split: option.split)
  next
    case (Some r)
    with assms(3) show ?thesis
      using reported_action_normal [of "ra_on_delete r"] reported_action_normal [of "ra_on_update r"]
      by (simp add: expected_column_def introspected_column_def with_reference_def set_reference_def
          same_reference_def expected_reference_def reported_reference_def)
  qed
  moreover have "col_unique (introspected_column real auto S c) = (cm_unique c \<noteq> None)"
    "col_unique_name (introspected_column real auto S c) = (case cm_unique c of None \<Rightarrow> None | Some u \<Rightarrow> u)"
    "col_check (introspected_column real auto S c) = map_option trim_sql_view (cm_check c)"
    "col_type (introspected_column real auto S c) = sqlite_column_type_name c"
    "col_not_null (introspected_column real auto S c) = (\<not> is_optional (cm_type c) \<or> cm_primary_key c)"
    "col_default (introspected_column real auto S c) = map_option (column_default_sql real) (cm_default c)"
    "col_auto_increment (introspected_column real auto S c) = (auto \<and> cm_primary_key c)"
    by (simp_all add: introspected_column_def with_unique_def with_check_def with_reference_def set_reference_def
        reported_column_def new_column_def split: option.split)
  ultimately show ?thesis using assms
    by (cases "cm_check c")
      (auto simp: column_matches_def expected_column_def normalize_schema_default_def split: option.splits)
qed

definition introspected_table :: "(u64 \<Rightarrow> string) \<Rightarrow> bool \<Rightarrow> string set \<Rightarrow> string list \<Rightarrow> table_mapping \<Rightarrow> database_table" where
  "introspected_table real auto S key t = (new_table (mt_table t))\<lparr>
     tb_columns := List.map (introspected_column real auto S) (mt_columns t),
     tb_checks := List.map trimmed_check (mt_checks t), tb_primary_key := key\<rparr>"

lemma find_column_map:
  assumes "distinct (List.map cm_name cs)" and "c \<in> set cs" and "\<And>c. col_name (f c) = cm_name c"
  shows "List.find (\<lambda>k. col_name k = cm_name c) (List.map f cs) = Some (f c)"
  using assms(1,2)
proof (induction cs)
  case (Cons c' cs)
  show ?case
  proof (cases "c = c'")
    case False
    with Cons.prems have "cm_name c' \<noteq> cm_name c" by (auto simp: image_iff)
    with False Cons show ?thesis by (simp add: assms(3))
  qed (simp add: assms(3))
qed simp

lemma introspected_table_matches:
  assumes ok: "mapping_ok real t" and exact: "schema_exact real t"
    and auto: "\<forall>c \<in> set (mt_columns t). (auto \<and> cm_primary_key c) = cm_generated c"
    and S: "\<forall>c \<in> set (mt_columns t). cm_reference c \<noteq> None \<longrightarrow> cm_name c \<in> S"
  shows "sqlite_table_matches (et_table (expected_table_for real sqlite_dialect t)) (introspected_table real auto S key t)"
proof -
  let ?e = "et_table (expected_table_for real sqlite_dialect t)" and ?a = "introspected_table real auto S key t"
  have "columns_match column_matches ?e ?a"
    unfolding columns_match_def
  proof (intro conjI ballI)
    fix k assume "k \<in> set (tb_columns ?e)"
    then obtain c where c: "c \<in> set (mt_columns t)" "k = expected_column real sqlite_dialect c"
      by (auto simp: expected_table_for_def)
    then have name: "col_name k = cm_name c" by (simp add: expected_column_def)
    have dist: "distinct (List.map cm_name (mt_columns t))" using ok by (simp add: mapping_ok_def)
    have "find_column ?a (col_name k) = Some (introspected_column real auto S c)"
      using find_column_map [OF dist c(1), of "introspected_column real auto S"]
      by (simp add: find_column_def introspected_table_def name)
    moreover have "column_matches k (introspected_column real auto S c)"
      unfolding c(2)
      by (rule introspected_column_matches) (use c(1) exact auto S in \<open>auto simp: schema_exact_def list_all_iff\<close>)
    ultimately show "\<exists>ac. find_column ?a (col_name k) = Some ac \<and> column_matches k ac" by blast
  qed (simp add: introspected_table_def expected_table_for_def expected_column_def image_image)
  moreover have "List.map check_key (tb_checks ?e) = List.map check_key (tb_checks ?a)"
    using exact
    by (auto simp: expected_table_for_def introspected_table_def schema_exact_def list_all_iff check_key_def
        trimmed_check_def normalize_check_expression_def)
  moreover have "indexes_match ?e ?a"
    by (simp add: indexes_match_def expected_table_for_def introspected_table_def new_table_def)
  ultimately show ?thesis by (simp add: sqlite_table_matches_def)
qed

subsection \<open>The introspection runs\<close>

lemma answers_bind:
  "answers exec sql ps rows \<Longrightarrow> act_bind (exec sql ps) f s = f (rows_result rows) s"
  by (simp add: act_bind_def answersD)

lemma act_lift_bind: "act_bind (act_lift (Inr x)) f s = f x s"
  by (simp add: act_bind_def)

lemma automatic_indexes:
  "list_all automatic_index rows \<Longrightarrow> act_fold (table_index F exec) t rows s = (Inr t, s)"
proof (induction rows)
  case (Cons row rows)
  then have "automatic_index row" by simp
  then have "\<exists>n og. alookup row ''name'' = Some (VString n) \<and> alookup row ''origin'' = Some (VString og) \<and>
      (og = ''pk'' \<or> starts_with n ''sqlite_autoindex_'')"
    unfolding automatic_index_def
    by (cases "alookup row ''name''"; cases "alookup row ''origin''"; cases "the (alookup row ''name'')";
        cases "the (alookup row ''origin'')"; simp)
  then obtain n og where "alookup row ''name'' = Some (VString n)" "alookup row ''origin'' = Some (VString og)"
      "og = ''pk'' \<or> starts_with n ''sqlite_autoindex_''" by blast
  then have "table_index F exec t row s = (Inr t, s)"
    by (simp add: table_index_def row_string_simps act_lift_bind value_or_def)
  with Cons show ?case by (simp add: act_bind_def)
qed simp

lemma map2_self: "List.map2 g xs (List.map f xs) = List.map (\<lambda>x. g x (f x)) xs"
  by (induction xs) auto

lemma reported_column_name [simp]: "col_name (reported_column real auto c) = cm_name c"
  by (simp add: reported_column_def new_column_def)

lemma set_reference_none: "set_reference {} = (\<lambda>c k. k)"
  by (auto simp: set_reference_def fun_eq_iff split: option.split)

lemma introspect_created_run:
  assumes ok: "mapping_ok real t" and reported: "table_reported real exec t infos fks ixs"
    and pk: "\<forall>c \<in> set (mt_columns t). cm_primary_key c \<longrightarrow> \<not> is_optional (cm_type c)"
    and auto: "(find_text ''AUTOINCREMENT'' 0 (uppercase (create_table_sql real sqlite_dialect t)) \<noteq> None) = auto"
  shows "\<exists>key. introspect_table F exec no_comments (mt_table t) (create_table_sql real sqlite_dialect t) s =
    (Inr (introspected_table real auto (reported_names (mt_columns t) fks) key t), s)"
proof -
  let ?sql = "create_table_sql real sqlite_dialect t" and ?cs = "mt_columns t" and ?S = "reported_names (mt_columns t) fks"
  have r: "answers exec table_info_sql [VString (mt_table t)] infos" "list_all2 (info_reports real t) ?cs infos"
      "answers exec foreign_key_list_sql [VString (mt_table t)] fks"
      "list_all (\<lambda>row. list_ex (\<lambda>c. reference_reports c row) ?cs) fks"
      "answers exec index_list_sql [VString (mt_table t)] ixs" "list_all automatic_index ixs"
    using reported by (simp_all add: table_reported_def)
  have dist: "distinct (List.map cm_name ?cs)" using ok by (simp add: mapping_ok_def)
  let ?t = "\<lambda>f. (new_table (mt_table t))\<lparr>tb_comment := None, tb_columns := List.map f ?cs\<rparr>"
  let ?k1 = "\<lambda>c. with_unique c (reported_column real auto c)"
  let ?k2 = "\<lambda>c. with_check c (?k1 c)"
  let ?t2 = "(?t ?k2)\<lparr>tb_checks := List.map trimmed_check (mt_checks t)\<rparr>"
  obtain key where key: "fold_result (primary_key_entry F) [] infos = Inr key" using primary_key_reported [OF r(2)] by blast
  let ?t3 = "?t2\<lparr>tb_primary_key := sorted_key key\<rparr>"
  let ?t4 = "?t3\<lparr>tb_columns := List.map (\<lambda>c. set_reference ?S c (?k2 c)) ?cs\<rparr>"
  have columns: "fold_result (table_column F no_comments (mt_table t) auto) [] infos = Inr (List.map (reported_column real auto) ?cs)"
    using table_columns_reported [OF r(2) pk] by simp
  have unique: "parse_sqlite_unique_constraints ?sql (?t (reported_column real auto)) = ?t ?k1"
    by (subst parsers_of_created_table(1) [OF ok]) (simp_all add: map2_self)
  have check: "parse_sqlite_check_constraints ?sql (?t ?k1) = ?t2"
    by (subst parsers_of_created_table(2) [OF ok]) (simp_all add: map2_self new_table_def)
  have references: "fold_result foreign_key_row ?t3 fks = Inr ?t4"
    by (subst foreign_keys_reported [OF dist r(4), where S = "{}" and ks = "List.map ?k2 ?cs"])
      (simp_all add: set_reference_none map2_self)
  have final: "parse_sqlite_foreign_key_modifiers ?sql ?t4 = introspected_table real auto ?S (sorted_key key) t"
    by (subst parsers_of_created_table(3) [OF ok])
      (simp_all add: map2_self introspected_table_def introspected_column_def new_table_def set_reference_def
        split: option.split)
  have "introspect_table F exec no_comments (mt_table t) ?sql s = (Inr (introspected_table real auto ?S (sorted_key key) t), s)"
    unfolding introspect_table_def Let_def auto
    using columns unique check key references final
    by (simp add: answers_bind [OF r(1)] answers_bind [OF r(3)] answers_bind [OF r(5)] act_lift_bind
        automatic_indexes [OF r(6)] no_comments_def)
  then show ?thesis by blast
qed

text \<open>The text of a table with a generated column contains \<open>AUTOINCREMENT\<close>.\<close>

lemma find_text_inside: "find_text needle i (a @ needle @ b) \<noteq> None"
proof (induction a arbitrary: i)
  case Nil
  then show ?case by (subst find_text.simps) simp
next
  case (Cons c a)
  then show ?case by (subst find_text.simps) simp
qed

lemma join_contains: "x \<in> set xs \<Longrightarrow> \<exists>a b. join sep xs = a @ x @ b"
proof (induction xs)
  case (Cons y ys)
  show ?case
  proof (cases "x = y")
    case True
    then show ?thesis by (metis join_Cons append_Nil)
  next
    case False
    then obtain a b where "join sep ys = a @ x @ b" using Cons by auto
    moreover obtain z zs where "ys = z # zs" using False Cons.prems by (cases ys) auto
    ultimately have "join sep (y # ys) = (y @ sep @ a) @ x @ b" by simp
    then show ?thesis by blast
  qed
qed simp

lemma generated_text:
  assumes "c \<in> set (mt_columns t)" and "cm_generated c"
  shows "find_text ''AUTOINCREMENT'' 0 (uppercase (create_table_sql real sqlite_dialect t)) \<noteq> None"
proof -
  let ?x = "''AUTOINCREMENT'' :: string"
  have up: "uppercase ?x = ?x" by (simp add: uppercase_def to_upper_def)
  have "?x \<in> set (column_words real (primary_key_count t) c)" using assms(2) by (simp add: column_words_def type_words_def)
  then obtain us vs where "column_words real (primary_key_count t) c = us @ ?x # vs" by (blast dest: split_list)
  then have "column_sql real sqlite_dialect (primary_key_count t) c =
      (quote_ansi_identifier (cm_name c) @ spaced us @ '' '') @ ?x @ spaced vs"
    by (simp add: column_sql_words)
  then obtain a b where ab: "column_sql real sqlite_dialect (primary_key_count t) c = a @ ?x @ b" by blast
  have "column_sql real sqlite_dialect (primary_key_count t) c \<in> set (table_segments real t)"
    using assms(1) by (simp add: table_segments_def)
  then obtain a' b' where "join '', '' (table_segments real t) = a' @ (a @ ?x @ b) @ b'"
    using join_contains ab by metis
  then have "create_table_sql real sqlite_dialect t = (table_head t @ [CHR ''(''] @ a' @ a) @ ?x @ (b @ b' @ [CHR '')''] @ '';'')"
    using create_table_segments [of t real] assms(1) by (cases "mt_columns t") auto
  then have "uppercase (create_table_sql real sqlite_dialect t) =
      uppercase (table_head t @ [CHR ''(''] @ a' @ a) @ ?x @ uppercase (b @ b' @ [CHR '')''] @ '';'')"
    using up by (simp add: uppercase_def)
  then show ?thesis using find_text_inside by metis
qed

lemma introspect_created_table:
  assumes ok: "mapping_ok real t" and exact: "schema_exact real t" and reported: "table_reported real exec t infos fks ixs"
  shows "\<exists>a. introspect_table F exec no_comments (mt_table t) (create_table_sql real sqlite_dialect t) s = (Inr a, s) \<and>
    tb_name a = mt_table t \<and> sqlite_table_matches (et_table (expected_table_for real sqlite_dialect t)) a"
proof -
  let ?auto = "find_text ''AUTOINCREMENT'' 0 (uppercase (create_table_sql real sqlite_dialect t)) \<noteq> None"
  have pk: "\<forall>c \<in> set (mt_columns t). cm_primary_key c \<longrightarrow> \<not> is_optional (cm_type c)"
    using exact by (auto simp: schema_exact_def list_all_iff)
  have auto: "\<forall>c \<in> set (mt_columns t). (?auto \<and> cm_primary_key c) = cm_generated c"
  proof (cases "list_ex cm_generated (mt_columns t)")
    case True
    then obtain c where "c \<in> set (mt_columns t)" "cm_generated c" by (auto simp: list_ex_iff)
    with generated_text [of c t real] True exact show ?thesis by (auto simp: schema_exact_def list_all_iff)
  next
    case False
    with exact show ?thesis by (auto simp: schema_exact_def list_ex_iff)
  qed
  have S: "\<forall>c \<in> set (mt_columns t). cm_reference c \<noteq> None \<longrightarrow> cm_name c \<in> reported_names (mt_columns t) fks"
    using reported by (auto simp: table_reported_def list_all_iff reported_names_def)
  obtain key where "introspect_table F exec no_comments (mt_table t) (create_table_sql real sqlite_dialect t) s =
      (Inr (introspected_table real ?auto (reported_names (mt_columns t) fks) key t), s)"
    using introspect_created_run [OF ok reported pk refl] by blast
  moreover have "tb_name (introspected_table real auto S key t) = mt_table t" for auto S key
    by (simp add: introspected_table_def new_table_def)
  ultimately show ?thesis using introspected_table_matches [OF ok exact auto S] by blast
qed

subsection \<open>The whole schema\<close>

definition whole_database :: introspect_options where
  "whole_database = \<lparr>io_schema = None, io_include_tables = [], io_exclude_tables = [], io_include_views = False,
     io_exclude_views = []\<rparr>"

definition introspected_as :: "(u64 \<Rightarrow> string) \<Rightarrow> table_mapping \<Rightarrow> database_table \<Rightarrow> bool" where
  "introspected_as real t a \<longleftrightarrow>
     tb_name a = mt_table t \<and> sqlite_table_matches (et_table (expected_table_for real sqlite_dialect t)) a"

lemma introspect_rows:
  assumes "list_all2 (\<lambda>t row. alookup row ''name'' = Some (VString (mt_table t)) \<and>
      alookup row ''sql'' = Some (VString (create_table_sql real sqlite_dialect t))) ts rows"
    and "\<forall>t \<in> set ts. mapping_ok real t \<and> schema_exact real t \<and> (\<exists>infos fks ixs. table_reported real exec t infos fks ixs)"
  shows "\<exists>as. act_fold (introspect_table_row F exec whole_database no_comments) schema rows s =
      (Inr (schema\<lparr>ds_tables := ds_tables schema @ as\<rparr>), s) \<and> list_all2 (introspected_as real) ts as"
  using assms
proof (induction ts rows arbitrary: schema rule: list_all2_induct)
  case (Cons t ts row rows)
  then obtain infos fks ixs where t: "mapping_ok real t" "schema_exact real t" "table_reported real exec t infos fks ixs" by auto
  then obtain a where a: "introspect_table F exec no_comments (mt_table t) (create_table_sql real sqlite_dialect t) s = (Inr a, s)"
      "introspected_as real t a"
    unfolding introspected_as_def using introspect_created_table [OF t, of F s] by blast
  have "row_string row ''name'' = Inr (Some (mt_table t))"
    "row_string row ''sql'' = Inr (Some (create_table_sql real sqlite_dialect t))"
    "include_table (mt_table t) whole_database"
    using Cons(1) by (simp_all add: row_string_simps include_table_def whole_database_def contains_name_def)
  then have row: "introspect_table_row F exec whole_database no_comments schema row s = (Inr (schema\<lparr>ds_tables := ds_tables schema @ [a]\<rparr>), s)"
    using a(1) by (simp add: introspect_table_row_def act_bind_def value_or_def)
  obtain as where "act_fold (introspect_table_row F exec whole_database no_comments) (schema\<lparr>ds_tables := ds_tables schema @ [a]\<rparr>) rows s =
      (Inr (schema\<lparr>ds_tables := ds_tables schema @ a # as\<rparr>), s)" "list_all2 (introspected_as real) ts as"
    using Cons.IH [of "schema\<lparr>ds_tables := ds_tables schema @ [a]\<rparr>"] Cons.prems by auto
  with row a(2) show ?case by (intro exI [of _ "a # as"]) (simp add: act_bind_def)
qed simp

lemma introspected_find:
  assumes "list_all2 (introspected_as real) ts as" and "distinct (List.map mt_table ts)" and "t \<in> set ts"
  shows "\<exists>a. List.find (\<lambda>a. tb_name a = mt_table t) as = Some a \<and> introspected_as real t a"
  using assms
proof (induction ts as rule: list_all2_induct)
  case (Cons t' ts a as)
  have name: "tb_name a = mt_table t'" using Cons(1) by (simp add: introspected_as_def)
  show ?case
  proof (cases "t = t'")
    case False
    then have t: "t \<in> set ts" using Cons.prems(2) by simp
    have "mt_table t' \<notin> mt_table ` set ts" using Cons.prems(1) by simp
    with t have "tb_name a \<noteq> mt_table t" unfolding name by (metis imageI)
    with Cons.IH [OF _ t] Cons.prems(1) show ?thesis by simp
  next
    case True
    with name Cons(1) show ?thesis by simp
  qed
qed simp

lemma introspected_schema_matches:
  assumes "list_all2 (introspected_as real) ts as" and "distinct (List.map mt_table ts)"
  shows "schemas_match sqlite_table_matches (expected_schema_for real sqlite_dialect ts) \<lparr>ds_tables = as, ds_views = []\<rparr>"
proof -
  have "tb_name ` set as \<subseteq> mt_table ` set ts"
    using assms(1) by (induction ts as rule: list_all2_induct) (auto simp: introspected_as_def)
  moreover have "\<exists>a. find_table \<lparr>ds_tables = as, ds_views = []\<rparr> (mt_table t) = Some a \<and>
      sqlite_table_matches (et_table (expected_table_for real sqlite_dialect t)) a" if "t \<in> set ts" for t
    using introspected_find [OF assms that] by (auto simp: find_table_def introspected_as_def)
  moreover have "tb_name (et_table (expected_table_for real sqlite_dialect t)) = mt_table t" for t
    by (simp add: expected_table_for_def)
  ultimately show ?thesis
    by (auto simp: schemas_match_def expected_schema_for_def image_image)
qed


text \<open>Two tables with a generated key, a named unique column, defaults, checks and a deferred reference.\<close>

definition demo_users :: table_mapping where
  "demo_users = \<lparr>mt_table = ''users'', mt_columns =
     [\<lparr>cm_name = ''id'', cm_type = TInt True 64, cm_database_type = None, cm_primary_key = True, cm_generated = True,
        cm_unique = None, cm_default = None, cm_check = None, cm_reference = None\<rparr>,
      \<lparr>cm_name = ''e(mail'', cm_type = TOpt TString, cm_database_type = Some ''VARCHAR(80)'', cm_primary_key = False,
        cm_generated = False, cm_unique = Some (Some ''u q''), cm_default = Some (Default_text ''a, UNIQUE''),
        cm_check = Some ''length(x) > 3'', cm_reference = None\<rparr>],
     mt_checks = [\<lparr>ck_name = Some ''c'', ck_expression = ''id > 0, 1''\<rparr>]\<rparr>"

definition demo_posts :: table_mapping where
  "demo_posts = \<lparr>mt_table = ''posts'', mt_columns =
     [\<lparr>cm_name = ''author'', cm_type = TInt True 64, cm_database_type = None, cm_primary_key = False, cm_generated = False,
        cm_unique = Some None, cm_default = Some (Default_int 0), cm_check = None,
        cm_reference = Some \<lparr>ra_table = ''users'', ra_column = ''id'', ra_on_delete = Set_null, ra_on_update = Unspecified,
          ra_constraint_name = ''fk'', ra_deferrable = True\<rparr>\<rparr>],
     mt_checks = []\<rparr>"

definition demo_real :: "u64 \<Rightarrow> string" where
  "demo_real d = ''1.5''"

definition demo_info :: "string \<Rightarrow> string \<Rightarrow> u64 \<Rightarrow> dbvalue \<Rightarrow> u64 \<Rightarrow> row" where
  "demo_info n ty not_null v pk = [(''name'', VString n), (''type'', VString ty), (''notnull'', VInt not_null),
     (''dflt_value'', v), (''pk'', VInt pk)]"

definition demo_catalog :: "string \<Rightarrow> dbvalue list \<Rightarrow> row list" where
  "demo_catalog sql ps =
     (if sql = tables_sql then
        List.map (\<lambda>t. [(''name'', VString (mt_table t)), (''sql'', VString (create_table_sql demo_real sqlite_dialect t))])
          [demo_posts, demo_users]
      else if sql = table_info_sql then
        if ps = [VString ''users''] then
          [demo_info ''id'' ''INTEGER'' 0 VNull 1,
           demo_info ''e(mail'' ''VARCHAR(80)'' 0 (VString (quote_sql_text ''a, UNIQUE'')) 0]
        else [demo_info ''author'' ''INTEGER'' 1 (VString ''0'') 0]
      else if sql = foreign_key_list_sql \<and> ps = [VString ''posts''] then
        [[(''from'', VString ''author''), (''table'', VString ''users''), (''to'', VString ''id''),
          (''on_delete'', VString ''SET NULL''), (''on_update'', VString ''NO ACTION'')]]
      else if sql = index_list_sql then
        [[(''name'', VString ''sqlite_autoindex_users_1''), (''origin'', VString ''u''), (''unique'', VInt 1)]]
      else [])"

definition demo_sqlite :: "unit executor" where
  "demo_sqlite sql ps s = (Inr (rows_result (demo_catalog sql ps)), s)"

lemma demo_answers: "answers demo_sqlite sql ps (demo_catalog sql ps)"
  by (simp add: answers_def demo_sqlite_def)

lemma demo_reported:
  "\<exists>infos fks ixs. table_reported demo_real demo_sqlite demo_users infos fks ixs"
  "\<exists>infos fks ixs. table_reported demo_real demo_sqlite demo_posts infos fks ixs"
proof -
  have "list_all2 (info_reports demo_real t) (mt_columns t) (demo_catalog table_info_sql [VString (mt_table t)]) \<and>
      list_all (\<lambda>row. list_ex (\<lambda>c. reference_reports c row) (mt_columns t)) (demo_catalog foreign_key_list_sql [VString (mt_table t)]) \<and>
      list_all (\<lambda>c. cm_reference c = None \<or> list_ex (reference_reports c) (demo_catalog foreign_key_list_sql [VString (mt_table t)]))
        (mt_columns t) \<and>
      list_all automatic_index (demo_catalog index_list_sql [VString (mt_table t)])"
    if "t \<in> {demo_users, demo_posts}" for t
    using that by (elim insertE emptyE; hypsubst; code_simp)
  then show "\<exists>infos fks ixs. table_reported demo_real demo_sqlite demo_users infos fks ixs"
    "\<exists>infos fks ixs. table_reported demo_real demo_sqlite demo_posts infos fks ixs"
    unfolding table_reported_def using demo_answers by blast+
qed


end
