(* ===== verification/Query_Builders.thy ===== *)
theory Query_Builders
  imports Query_Compiler
begin

section \<open>The query builders (include/metal/query/expressions.hpp, arithmetic.hpp, functions.hpp)\<close>

text \<open>
  The templates user code builds conditions and scalar expressions with. The C++ types of the operands
  are checked at compile time and choose the overload; here an operand is a field, a term or a value, and
  the overloads of one name are one function on operands. The \<open>Owners\<close> of an expression only live in
  its C++ type.
\<close>

text \<open>\<open>ScalarTerm\<close> and \<open>AggregateTerm\<close>: a node with the alias given by \<open>as\<close>.\<close>

record scalar_term =
  tm_node :: scalar
  tm_alias :: "string option"

definition new_term :: "scalar \<Rightarrow> scalar_term" where
  "new_term s = \<lparr>tm_node = s, tm_alias = None\<rparr>"

definition term_as :: "string \<Rightarrow> scalar_term \<Rightarrow> scalar_term" where
  "term_as a t = t\<lparr>tm_alias := Some a\<rparr>"

datatype scalar_input = InField column_ref | InTerm scalar_term | InValue dbvalue

fun as_scalar :: "scalar_input \<Rightarrow> scalar_term" where
  "as_scalar (InField r) = new_term (SColumn r)"
| "as_scalar (InTerm t) = t"
| "as_scalar (InValue v) = new_term (SValue v)"

definition input_node :: "scalar_input \<Rightarrow> scalar" where
  "input_node x = tm_node (as_scalar x)"

subsection \<open>Conditions\<close>

definition compare_scalars :: "scalar_input \<Rightarrow> compare_op \<Rightarrow> scalar_input \<Rightarrow> expr" where
  "compare_scalars l op r = EComparison (input_node l) op (input_node r)"

definition op_eq where "op_eq l r = compare_scalars l OpEq r"
definition op_ne where "op_ne l r = compare_scalars l OpNe r"
definition op_gt where "op_gt l r = compare_scalars l OpGt r"
definition op_ge where "op_ge l r = compare_scalars l OpGe r"
definition op_lt where "op_lt l r = compare_scalars l OpLt r"
definition op_le where "op_le l r = compare_scalars l OpLe r"

definition op_and :: "expr \<Rightarrow> expr \<Rightarrow> expr" where
  "op_and l r = ELogical OpAnd l r"

definition op_or :: "expr \<Rightarrow> expr \<Rightarrow> expr" where
  "op_or l r = ELogical OpOr l r"

definition op_not :: "expr \<Rightarrow> expr" where
  "op_not e = ENot e"

definition is_null :: "scalar_input \<Rightarrow> expr" where
  "is_null x = ENullCheck (input_node x) False"

definition is_not_null :: "scalar_input \<Rightarrow> expr" where
  "is_not_null x = ENullCheck (input_node x) True"

definition like :: "scalar_input \<Rightarrow> string \<Rightarrow> expr" where
  "like x pattern = ELike (input_node x) (input_node (InValue (VString pattern))) False"

definition not_like :: "scalar_input \<Rightarrow> string \<Rightarrow> expr" where
  "not_like x pattern = ELike (input_node x) (input_node (InValue (VString pattern))) True"

definition between :: "scalar_input \<Rightarrow> dbvalue \<Rightarrow> dbvalue \<Rightarrow> expr" where
  "between x lower upper = EBetween (input_node x) (input_node (InValue lower)) (input_node (InValue upper)) False"

definition not_between :: "scalar_input \<Rightarrow> dbvalue \<Rightarrow> dbvalue \<Rightarrow> expr" where
  "not_between x lower upper = EBetween (input_node x) (input_node (InValue lower)) (input_node (InValue upper)) True"

text \<open>\<open>in\<close> and \<open>not_in\<close> over a range of values, each taken through \<open>to_value\<close>.\<close>

definition in_values :: "column_ref \<Rightarrow> cpp_value list \<Rightarrow> expr" where
  "in_values f vs = EInValues (input_node (InField f)) (List.map to_value vs) False"

definition not_in_values :: "column_ref \<Rightarrow> cpp_value list \<Rightarrow> expr" where
  "not_in_values f vs = EInValues (input_node (InField f)) (List.map to_value vs) True"

subsection \<open>Aggregates\<close>

definition aggregate_term :: "aggregate_kind \<Rightarrow> column_ref option \<Rightarrow> bool \<Rightarrow> scalar_term" where
  "aggregate_term k f unique = new_term (SAggregate \<lparr>ag_kind = k, ag_column = f, ag_distinct = unique\<rparr>)"

definition agg_count :: "column_ref \<Rightarrow> bool \<Rightarrow> scalar_term" where
  "agg_count f unique = aggregate_term AggCount (Some f) unique"

definition agg_count_all :: scalar_term where
  "agg_count_all = aggregate_term AggCount None False"

definition agg_sum :: "column_ref \<Rightarrow> scalar_term" where
  "agg_sum f = aggregate_term AggSum (Some f) False"

definition agg_avg :: "column_ref \<Rightarrow> scalar_term" where
  "agg_avg f = aggregate_term AggAvg (Some f) False"

definition agg_min :: "column_ref \<Rightarrow> scalar_term" where
  "agg_min f = aggregate_term AggMin (Some f) False"

definition agg_max :: "column_ref \<Rightarrow> scalar_term" where
  "agg_max f = aggregate_term AggMax (Some f) False"

definition agg_stddev :: "column_ref \<Rightarrow> scalar_term" where
  "agg_stddev f = aggregate_term AggStddev (Some f) False"

definition agg_variance :: "column_ref \<Rightarrow> scalar_term" where
  "agg_variance f = aggregate_term AggVariance (Some f) False"

definition compare_aggregate :: "scalar_term \<Rightarrow> compare_op \<Rightarrow> dbvalue \<Rightarrow> expr" where
  "compare_aggregate a op v = EComparison (tm_node a) op (input_node (InValue v))"

subsection \<open>Window functions\<close>

record window_term =
  wt_name :: string
  wt_args :: "scalar list"
  wt_partition_by :: "column_ref list"
  wt_order_by :: "(column_ref \<times> bool) list"
  wt_alias :: "string option"

definition new_window :: "string \<Rightarrow> scalar list \<Rightarrow> window_term" where
  "new_window n args = \<lparr>wt_name = n, wt_args = args, wt_partition_by = [], wt_order_by = [], wt_alias = None\<rparr>"

definition window_as :: "string \<Rightarrow> window_term \<Rightarrow> window_term" where
  "window_as a w = w\<lparr>wt_alias := Some a\<rparr>"

definition partition_by :: "column_ref \<Rightarrow> window_term \<Rightarrow> window_term" where
  "partition_by f w = w\<lparr>wt_partition_by := wt_partition_by w @ [f]\<rparr>"

definition window_order_by :: "column_ref \<Rightarrow> bool \<Rightarrow> window_term \<Rightarrow> window_term" where
  "window_order_by f ascending w = w\<lparr>wt_order_by := wt_order_by w @ [(f, ascending)]\<rparr>"

definition window_node :: "window_term \<Rightarrow> scalar" where
  "window_node w = SWindow (wt_name w) (wt_args w) (wt_partition_by w) (wt_order_by w)"

definition int_input :: "u64 \<Rightarrow> scalar" where
  "int_input i = input_node (InValue (VInt i))"

definition row_number where "row_number = new_window ''ROW_NUMBER'' []"
definition rank where "rank = new_window ''RANK'' []"
definition dense_rank where "dense_rank = new_window ''DENSE_RANK'' []"

definition ntile :: "u64 \<Rightarrow> window_term" where
  "ntile buckets = new_window ''NTILE'' [int_input buckets]"

text \<open>\<open>lag\<close> and \<open>lead\<close>, with the default value of the overload that takes one.\<close>

definition lag :: "column_ref \<Rightarrow> u64 \<Rightarrow> dbvalue option \<Rightarrow> window_term" where
  "lag f offset def = new_window ''LAG''
     ([input_node (InField f), int_input offset] @ (case def of None \<Rightarrow> [] | Some v \<Rightarrow> [input_node (InValue v)]))"

definition lead :: "column_ref \<Rightarrow> u64 \<Rightarrow> dbvalue option \<Rightarrow> window_term" where
  "lead f offset def = new_window ''LEAD''
     ([input_node (InField f), int_input offset] @ (case def of None \<Rightarrow> [] | Some v \<Rightarrow> [input_node (InValue v)]))"

definition first_value :: "column_ref \<Rightarrow> window_term" where
  "first_value f = new_window ''FIRST_VALUE'' [input_node (InField f)]"

definition last_value :: "column_ref \<Rightarrow> window_term" where
  "last_value f = new_window ''LAST_VALUE'' [input_node (InField f)]"

definition window_function :: "string \<Rightarrow> window_term result" where
  "window_function name = rbind (validate_function_identifier name) (\<lambda>_. Inr (new_window name []))"

subsection \<open>CASE\<close>

type_synonym case_builder = "(expr \<times> scalar) list"

definition case_when :: "expr \<Rightarrow> scalar_input \<Rightarrow> case_builder" where
  "case_when c t = [(c, input_node t)]"

definition case_and_when :: "expr \<Rightarrow> scalar_input \<Rightarrow> case_builder \<Rightarrow> case_builder" where
  "case_and_when c t b = b @ [(c, input_node t)]"

definition case_otherwise :: "scalar_input \<Rightarrow> case_builder \<Rightarrow> scalar_term" where
  "case_otherwise e b = new_term (SCase b (Some (input_node e)))"

definition case_end :: "case_builder \<Rightarrow> scalar_term" where
  "case_end b = new_term (SCase b None)"

subsection \<open>Arithmetic\<close>

definition arithmetic :: "scalar_input \<Rightarrow> arithmetic_op \<Rightarrow> scalar_input \<Rightarrow> scalar_term" where
  "arithmetic l op r = new_term (SArithmetic (input_node l) op (input_node r))"

definition op_add where "op_add l r = arithmetic l OpAdd r"
definition op_subtract where "op_subtract l r = arithmetic l OpSubtract r"
definition op_multiply where "op_multiply l r = arithmetic l OpMultiply r"
definition op_divide where "op_divide l r = arithmetic l OpDivide r"
definition op_modulo where "op_modulo l r = arithmetic l OpModulo r"

subsection \<open>Functions\<close>

definition sql_function :: "string \<Rightarrow> scalar_input list \<Rightarrow> scalar_term result" where
  "sql_function name args = rbind (validate_function_identifier name) (\<lambda>_.
     Inr (new_term (SFunction name (List.map input_node args))))"

text \<open>
  The helpers of the header, in its order of arities; a number marks the overload of a name with that
  many arguments. The parameter packs of the variadic ones are lists.
\<close>

definition fn_concat :: "scalar_input list \<Rightarrow> scalar_term result" where
  "fn_concat args = sql_function ''CONCAT'' args"

definition fn_concat_ws :: "scalar_input \<Rightarrow> scalar_input list \<Rightarrow> scalar_term result" where
  "fn_concat_ws separator args = sql_function ''CONCAT_WS'' (separator # args)"

definition fn_coalesce :: "scalar_input \<Rightarrow> scalar_input list \<Rightarrow> scalar_term result" where
  "fn_coalesce x rest = sql_function ''COALESCE'' (x # rest)"

definition fn_greatest :: "scalar_input \<Rightarrow> scalar_input list \<Rightarrow> scalar_term result" where
  "fn_greatest x rest = sql_function ''GREATEST'' (x # rest)"

definition fn_least :: "scalar_input \<Rightarrow> scalar_input list \<Rightarrow> scalar_term result" where
  "fn_least x rest = sql_function ''LEAST'' (x # rest)"

definition fn_lower :: "scalar_input \<Rightarrow> scalar_term result" where
  "fn_lower v = sql_function ''LOWER'' [v]"

definition fn_upper :: "scalar_input \<Rightarrow> scalar_term result" where
  "fn_upper v = sql_function ''UPPER'' [v]"

definition fn_trim :: "scalar_input \<Rightarrow> scalar_term result" where
  "fn_trim v = sql_function ''TRIM'' [v]"

definition fn_ltrim :: "scalar_input \<Rightarrow> scalar_term result" where
  "fn_ltrim v = sql_function ''LTRIM'' [v]"

definition fn_rtrim :: "scalar_input \<Rightarrow> scalar_term result" where
  "fn_rtrim v = sql_function ''RTRIM'' [v]"

definition fn_length :: "scalar_input \<Rightarrow> scalar_term result" where
  "fn_length v = sql_function ''LENGTH'' [v]"

definition fn_substr :: "scalar_input \<Rightarrow> scalar_input \<Rightarrow> scalar_term result" where
  "fn_substr v w = sql_function ''SUBSTR'' [v, w]"

definition fn_substr3 :: "scalar_input \<Rightarrow> scalar_input \<Rightarrow> scalar_input \<Rightarrow> scalar_term result" where
  "fn_substr3 v w x = sql_function ''SUBSTR'' [v, w, x]"

definition fn_replace :: "scalar_input \<Rightarrow> scalar_input \<Rightarrow> scalar_input \<Rightarrow> scalar_term result" where
  "fn_replace v w x = sql_function ''REPLACE'' [v, w, x]"

definition fn_left :: "scalar_input \<Rightarrow> scalar_input \<Rightarrow> scalar_term result" where
  "fn_left v w = sql_function ''LEFT'' [v, w]"

definition fn_right :: "scalar_input \<Rightarrow> scalar_input \<Rightarrow> scalar_term result" where
  "fn_right v w = sql_function ''RIGHT'' [v, w]"

definition fn_ascii :: "scalar_input \<Rightarrow> scalar_term result" where
  "fn_ascii v = sql_function ''ASCII'' [v]"

definition fn_chr :: "scalar_input \<Rightarrow> scalar_term result" where
  "fn_chr v = sql_function ''CHR'' [v]"

definition fn_bit_length :: "scalar_input \<Rightarrow> scalar_term result" where
  "fn_bit_length v = sql_function ''BIT_LENGTH'' [v]"

definition fn_octet_length :: "scalar_input \<Rightarrow> scalar_term result" where
  "fn_octet_length v = sql_function ''OCTET_LENGTH'' [v]"

definition fn_position :: "scalar_input \<Rightarrow> scalar_input \<Rightarrow> scalar_term result" where
  "fn_position v w = sql_function ''POSITION'' [v, w]"

definition fn_locate :: "scalar_input \<Rightarrow> scalar_input \<Rightarrow> scalar_term result" where
  "fn_locate v w = sql_function ''LOCATE'' [v, w]"

definition fn_instr :: "scalar_input \<Rightarrow> scalar_input \<Rightarrow> scalar_term result" where
  "fn_instr v w = sql_function ''INSTR'' [v, w]"

definition fn_group_concat :: "scalar_input \<Rightarrow> scalar_input \<Rightarrow> scalar_term result" where
  "fn_group_concat v w = sql_function ''GROUP_CONCAT'' [v, w]"

definition fn_group_concat1 :: "scalar_input \<Rightarrow> scalar_term result" where
  "fn_group_concat1 v = sql_function ''GROUP_CONCAT'' [v]"

definition fn_abs :: "scalar_input \<Rightarrow> scalar_term result" where
  "fn_abs v = sql_function ''ABS'' [v]"

definition fn_acos :: "scalar_input \<Rightarrow> scalar_term result" where
  "fn_acos v = sql_function ''ACOS'' [v]"

definition fn_asin :: "scalar_input \<Rightarrow> scalar_term result" where
  "fn_asin v = sql_function ''ASIN'' [v]"

definition fn_atan :: "scalar_input \<Rightarrow> scalar_term result" where
  "fn_atan v = sql_function ''ATAN'' [v]"

definition fn_atan2 :: "scalar_input \<Rightarrow> scalar_input \<Rightarrow> scalar_term result" where
  "fn_atan2 v w = sql_function ''ATAN2'' [v, w]"

definition fn_cos :: "scalar_input \<Rightarrow> scalar_term result" where
  "fn_cos v = sql_function ''COS'' [v]"

definition fn_sin :: "scalar_input \<Rightarrow> scalar_term result" where
  "fn_sin v = sql_function ''SIN'' [v]"

definition fn_tan :: "scalar_input \<Rightarrow> scalar_term result" where
  "fn_tan v = sql_function ''TAN'' [v]"

definition fn_cot :: "scalar_input \<Rightarrow> scalar_term result" where
  "fn_cot v = sql_function ''COT'' [v]"

definition fn_ln :: "scalar_input \<Rightarrow> scalar_term result" where
  "fn_ln v = sql_function ''LN'' [v]"

definition fn_log :: "scalar_input \<Rightarrow> scalar_term result" where
  "fn_log v = sql_function ''LOG'' [v]"

definition fn_log10 :: "scalar_input \<Rightarrow> scalar_term result" where
  "fn_log10 v = sql_function ''LOG10'' [v]"

definition fn_log2 :: "scalar_input \<Rightarrow> scalar_term result" where
  "fn_log2 v = sql_function ''LOG2'' [v]"

definition fn_pow :: "scalar_input \<Rightarrow> scalar_input \<Rightarrow> scalar_term result" where
  "fn_pow v w = sql_function ''POW'' [v, w]"

definition fn_power :: "scalar_input \<Rightarrow> scalar_input \<Rightarrow> scalar_term result" where
  "fn_power v w = sql_function ''POWER'' [v, w]"

definition fn_exp :: "scalar_input \<Rightarrow> scalar_term result" where
  "fn_exp v = sql_function ''EXP'' [v]"

definition fn_sqrt :: "scalar_input \<Rightarrow> scalar_term result" where
  "fn_sqrt v = sql_function ''SQRT'' [v]"

definition fn_cbrt :: "scalar_input \<Rightarrow> scalar_term result" where
  "fn_cbrt v = sql_function ''CBRT'' [v]"

definition fn_ceil :: "scalar_input \<Rightarrow> scalar_term result" where
  "fn_ceil v = sql_function ''CEIL'' [v]"

definition fn_ceiling :: "scalar_input \<Rightarrow> scalar_term result" where
  "fn_ceiling v = sql_function ''CEILING'' [v]"

definition fn_floor :: "scalar_input \<Rightarrow> scalar_term result" where
  "fn_floor v = sql_function ''FLOOR'' [v]"

definition fn_round :: "scalar_input \<Rightarrow> scalar_term result" where
  "fn_round v = sql_function ''ROUND'' [v]"

definition fn_round2 :: "scalar_input \<Rightarrow> scalar_input \<Rightarrow> scalar_term result" where
  "fn_round2 v w = sql_function ''ROUND'' [v, w]"

definition fn_trunc :: "scalar_input \<Rightarrow> scalar_term result" where
  "fn_trunc v = sql_function ''TRUNC'' [v]"

definition fn_truncate :: "scalar_input \<Rightarrow> scalar_input \<Rightarrow> scalar_term result" where
  "fn_truncate v w = sql_function ''TRUNCATE'' [v, w]"

definition fn_sign :: "scalar_input \<Rightarrow> scalar_term result" where
  "fn_sign v = sql_function ''SIGN'' [v]"

definition fn_mod :: "scalar_input \<Rightarrow> scalar_input \<Rightarrow> scalar_term result" where
  "fn_mod v w = sql_function ''MOD'' [v, w]"

definition fn_pi :: "scalar_term result" where
  "fn_pi = sql_function ''PI'' []"

definition fn_degrees :: "scalar_input \<Rightarrow> scalar_term result" where
  "fn_degrees v = sql_function ''DEGREES'' [v]"

definition fn_radians :: "scalar_input \<Rightarrow> scalar_term result" where
  "fn_radians v = sql_function ''RADIANS'' [v]"

definition fn_random :: "scalar_term result" where
  "fn_random = sql_function ''RANDOM'' []"

definition fn_rand :: "scalar_term result" where
  "fn_rand = sql_function ''RAND'' []"

definition fn_if_null :: "scalar_input \<Rightarrow> scalar_input \<Rightarrow> scalar_term result" where
  "fn_if_null v w = sql_function ''IF_NULL'' [v, w]"

definition fn_nullif :: "scalar_input \<Rightarrow> scalar_input \<Rightarrow> scalar_term result" where
  "fn_nullif v w = sql_function ''NULLIF'' [v, w]"

definition fn_now :: "scalar_term result" where
  "fn_now = sql_function ''NOW'' []"

definition fn_current_date :: "scalar_term result" where
  "fn_current_date = sql_function ''CURRENT_DATE'' []"

definition fn_current_time :: "scalar_term result" where
  "fn_current_time = sql_function ''CURRENT_TIME'' []"

definition fn_utc_now :: "scalar_term result" where
  "fn_utc_now = sql_function ''UTC_NOW'' []"

definition fn_local_time :: "scalar_term result" where
  "fn_local_time = sql_function ''LOCAL_TIME'' []"

definition fn_local_timestamp :: "scalar_term result" where
  "fn_local_timestamp = sql_function ''LOCAL_TIMESTAMP'' []"

definition fn_date_diff :: "scalar_input \<Rightarrow> scalar_input \<Rightarrow> scalar_term result" where
  "fn_date_diff v w = sql_function ''DATE_DIFF'' [v, w]"

definition fn_date_format :: "scalar_input \<Rightarrow> scalar_input \<Rightarrow> scalar_term result" where
  "fn_date_format v w = sql_function ''DATE_FORMAT'' [v, w]"

definition fn_unix_timestamp :: "scalar_term result" where
  "fn_unix_timestamp = sql_function ''UNIX_TIMESTAMP'' []"

definition fn_unix_timestamp1 :: "scalar_input \<Rightarrow> scalar_term result" where
  "fn_unix_timestamp1 v = sql_function ''UNIX_TIMESTAMP'' [v]"

definition fn_from_unix_time :: "scalar_input \<Rightarrow> scalar_term result" where
  "fn_from_unix_time v = sql_function ''FROM_UNIXTIME'' [v]"

definition fn_end_of_month :: "scalar_input \<Rightarrow> scalar_term result" where
  "fn_end_of_month v = sql_function ''END_OF_MONTH'' [v]"

definition fn_day_of_week :: "scalar_input \<Rightarrow> scalar_term result" where
  "fn_day_of_week v = sql_function ''DAY_OF_WEEK'' [v]"

definition fn_week_of_year :: "scalar_input \<Rightarrow> scalar_term result" where
  "fn_week_of_year v = sql_function ''WEEK_OF_YEAR'' [v]"

definition fn_year :: "scalar_input \<Rightarrow> scalar_term result" where
  "fn_year v = sql_function ''YEAR'' [v]"

definition fn_month :: "scalar_input \<Rightarrow> scalar_term result" where
  "fn_month v = sql_function ''MONTH'' [v]"

definition fn_day :: "scalar_input \<Rightarrow> scalar_term result" where
  "fn_day v = sql_function ''DAY'' [v]"

definition fn_hour :: "scalar_input \<Rightarrow> scalar_term result" where
  "fn_hour v = sql_function ''HOUR'' [v]"

definition fn_minute :: "scalar_input \<Rightarrow> scalar_term result" where
  "fn_minute v = sql_function ''MINUTE'' [v]"

definition fn_second :: "scalar_input \<Rightarrow> scalar_term result" where
  "fn_second v = sql_function ''SECOND'' [v]"

definition fn_quarter :: "scalar_input \<Rightarrow> scalar_term result" where
  "fn_quarter v = sql_function ''QUARTER'' [v]"

definition fn_json_path :: "scalar_input \<Rightarrow> scalar_input \<Rightarrow> scalar_term result" where
  "fn_json_path v w = sql_function ''JSON_PATH'' [v, w]"

definition fn_json_length :: "scalar_input \<Rightarrow> scalar_term result" where
  "fn_json_length v = sql_function ''JSON_LENGTH'' [v]"

definition fn_json_length2 :: "scalar_input \<Rightarrow> scalar_input \<Rightarrow> scalar_term result" where
  "fn_json_length2 v w = sql_function ''JSON_LENGTH'' [v, w]"

definition fn_json_arrayagg :: "scalar_input \<Rightarrow> scalar_term result" where
  "fn_json_arrayagg v = sql_function ''JSON_ARRAYAGG'' [v]"

definition fn_substring :: "scalar_input \<Rightarrow> scalar_input \<Rightarrow> scalar_term result" where
  "fn_substring v w = fn_substr v w"

definition fn_substring3 :: "scalar_input \<Rightarrow> scalar_input \<Rightarrow> scalar_input \<Rightarrow> scalar_term result" where
  "fn_substring3 v w x = fn_substr3 v w x"

subsection \<open>Dates\<close>

datatype date_part = Year | Month | Day | Hour | Minute | Second | Week | Dow

fun date_part_token :: "date_part \<Rightarrow> string" where
  "date_part_token Year = ''YEAR''"
| "date_part_token Month = ''MONTH''"
| "date_part_token Day = ''DAY''"
| "date_part_token Hour = ''HOUR''"
| "date_part_token Minute = ''MINUTE''"
| "date_part_token Second = ''SECOND''"
| "date_part_token Week = ''WEEK''"
| "date_part_token Dow = ''DOW''"

definition fn_date_add :: "scalar_input \<Rightarrow> scalar_input \<Rightarrow> date_part \<Rightarrow> scalar_term result" where
  "fn_date_add v w unit = sql_function (''DATE_ADD_'' @ date_part_token unit) [v, w]"

definition fn_date_sub :: "scalar_input \<Rightarrow> scalar_input \<Rightarrow> date_part \<Rightarrow> scalar_term result" where
  "fn_date_sub v w unit = sql_function (''DATE_SUB_'' @ date_part_token unit) [v, w]"

definition fn_date_trunc :: "date_part \<Rightarrow> scalar_input \<Rightarrow> scalar_term result" where
  "fn_date_trunc part v = sql_function (''DATE_TRUNC_'' @ date_part_token part) [v]"

definition fn_extract :: "date_part \<Rightarrow> scalar_input \<Rightarrow> scalar_term result" where
  "fn_extract part v = sql_function (''EXTRACT_'' @ date_part_token part) [v]"

subsection \<open>What the builders keep\<close>

lemmas condition_defs = compare_scalars_def op_eq_def op_ne_def op_gt_def op_ge_def op_lt_def op_le_def op_and_def
  op_or_def op_not_def is_null_def is_not_null_def like_def not_like_def between_def not_between_def in_values_def
  not_in_values_def compare_aggregate_def

lemma input_node_simps [simp]:
  "input_node (InField r) = SColumn r" "input_node (InTerm t) = tm_node t" "input_node (InValue v) = SValue v"
  by (simp_all add: input_node_def new_term_def)

text \<open>Conditions are positional when the terms they are built from are.\<close>

lemma positional_conditions [simp]:
  "positional_expr fam (compare_scalars x op y) \<longleftrightarrow> positional_scalar fam (input_node x) \<and> positional_scalar fam (input_node y)"
  "positional_expr fam (op_eq x y) \<longleftrightarrow> positional_scalar fam (input_node x) \<and> positional_scalar fam (input_node y)"
  "positional_expr fam (op_and e e') \<longleftrightarrow> positional_expr fam e \<and> positional_expr fam e'"
  "positional_expr fam (op_or e e') \<longleftrightarrow> positional_expr fam e \<and> positional_expr fam e'"
  "positional_expr fam (op_not e) \<longleftrightarrow> positional_expr fam e"
  "positional_expr fam (like x p) \<longleftrightarrow> positional_scalar fam (input_node x)"
  "positional_expr fam (between x v w) \<longleftrightarrow> positional_scalar fam (input_node x)"
  "positional_expr fam (in_values f vs)"
  by (simp_all add: condition_defs)

end
