(* ===== verification/Select_Query.thy ===== *)
theory Select_Query
  imports Query_Builders Unit_Of_Work
begin

section \<open>SELECT queries (include/metal/query/select.hpp, relation_queries.hpp)\<close>

text \<open>
  The state of a query, the builder functions on it, and its compilation. Every nested query (a common
  table expression, an operand of a set operation, a derived table, a subquery of a condition) is a
  closure that compiles it; the closures hold the query as it is when it is nested. The C++ class shares
  its state between copies, so changing a query after it was nested would change the nested one too.
  The columns and tables of entity types, which reflection gives, are looked up in \<open>T\<close>.
\<close>

type_synonym entity_types = "type_index \<Rightarrow> entity_type"

record projection_spec =
  pj_expression :: scalar
  pj_alias :: "string option"

text \<open>\<open>JoinSpec\<close>; \<open>js_left\<close> is \<open>JoinKind::Left\<close>. The pivot fields are set for a many-to-many relation.\<close>

record join_spec =
  js_left :: bool
  js_relation :: relation_kind
  js_owner :: type_index
  js_target :: type_index
  js_target_table :: string
  js_owner_column :: string
  js_target_column :: string
  js_pivot_table :: "string option"
  js_pivot_root :: "string option"
  js_pivot_target :: "string option"

record cte_join_spec =
  cj_left :: bool
  cj_name :: string
  cj_owner :: column_ref
  cj_column :: string

record cte_spec =
  ct_name :: string
  ct_columns :: "string list"
  ct_recursive :: bool
  ct_compile :: subquery

record set_operation_spec =
  so_kind :: set_operation_kind
  so_arity :: nat
  so_compile :: subquery

record derived_source_spec =
  ds_alias :: string
  ds_arity :: nat
  ds_compile :: subquery

text \<open>\<open>ExtraWhereCompiler\<close>: it gets the alias of the root.\<close>

type_synonym extra_where = "dialect \<Rightarrow> nat \<Rightarrow> string \<Rightarrow> compiled_query result"

record select_state =
  se_distinct :: bool
  se_projections :: "projection_spec list"
  se_joins :: "join_spec list"
  se_cte_joins :: "cte_join_spec list"
  se_where :: "expr option"
  se_group_by :: "column_ref list"
  se_having :: "expr option"
  se_order_by :: "(column_ref \<times> bool) list"
  se_limit :: "nat option"
  se_offset :: "nat option"
  se_from_name :: "string option"
  se_derived :: "derived_source_spec option"
  se_ctes :: "cte_spec list"
  se_set_operations :: "set_operation_spec list"

subsection \<open>Joins of relations\<close>

definition make_join_spec :: "entity_types \<Rightarrow> type_index \<Rightarrow> relation_meta \<Rightarrow> bool \<Rightarrow> join_spec" where
  "make_join_spec T owner m left =
     (let target = T (rm_target m);
          pivot = (\<lambda>c. if rm_kind m = ManyToMany then Some c else None) in
      \<lparr>js_left = left, js_relation = rm_kind m, js_owner = owner, js_target = rm_target m,
       js_target_table = et_table target,
       js_owner_column = (if rm_kind m = BelongsTo then rm_foreign_key m else rm_local_key m),
       js_target_column = (if rm_kind m \<in> {HasOne, HasMany} then rm_foreign_key m else rm_target_key m),
       js_pivot_table = pivot (rm_pivot m), js_pivot_root = pivot (rm_pivot_root m),
       js_pivot_target = pivot (rm_pivot_target m)\<rparr>)"

subsection \<open>The builder\<close>

definition new_select :: select_state where
  "new_select = \<lparr>se_distinct = False, se_projections = [], se_joins = [], se_cte_joins = [], se_where = None,
     se_group_by = [], se_having = None, se_order_by = [], se_limit = None, se_offset = None, se_from_name = None,
     se_derived = None, se_ctes = [], se_set_operations = []\<rparr>"

definition sel_distinct :: "bool \<Rightarrow> select_state \<Rightarrow> select_state" where
  "sel_distinct b q = q\<lparr>se_distinct := b\<rparr>"

definition sel_where :: "expr \<Rightarrow> select_state \<Rightarrow> select_state" where
  "sel_where e q = q\<lparr>se_where := Some e\<rparr>"

definition sel_having :: "expr \<Rightarrow> select_state \<Rightarrow> select_state" where
  "sel_having e q = q\<lparr>se_having := Some e\<rparr>"

definition sel_group_by :: "column_ref \<Rightarrow> select_state \<Rightarrow> select_state" where
  "sel_group_by f q = q\<lparr>se_group_by := se_group_by q @ [f]\<rparr>"

definition sel_order_by :: "column_ref \<Rightarrow> bool \<Rightarrow> select_state \<Rightarrow> select_state" where
  "sel_order_by f ascending q = q\<lparr>se_order_by := se_order_by q @ [(f, ascending)]\<rparr>"

definition sel_limit :: "nat \<Rightarrow> select_state \<Rightarrow> select_state" where
  "sel_limit n q = q\<lparr>se_limit := Some n\<rparr>"

definition sel_offset :: "nat \<Rightarrow> select_state \<Rightarrow> select_state" where
  "sel_offset n q = q\<lparr>se_offset := Some n\<rparr>"

definition without_pagination :: "select_state \<Rightarrow> select_state" where
  "without_pagination q = q\<lparr>se_limit := None, se_offset := None\<rparr>"

definition sel_from :: "string \<Rightarrow> select_state \<Rightarrow> select_state result" where
  "sel_from name q =
     (if name = [] then Inl (Invalid_argument ''MetalORM: FROM source name cannot be empty'')
      else Inr (q\<lparr>se_from_name := Some name, se_derived := None\<rparr>))"

definition clear_projection :: "select_state \<Rightarrow> select_state" where
  "clear_projection q = q\<lparr>se_projections := []\<rparr>"

definition project_field :: "column_ref \<Rightarrow> select_state \<Rightarrow> select_state" where
  "project_field f q = q\<lparr>se_projections := se_projections q @ [\<lparr>pj_expression = input_node (InField f), pj_alias = None\<rparr>]\<rparr>"

definition project_field_as :: "column_ref \<Rightarrow> string \<Rightarrow> select_state \<Rightarrow> select_state" where
  "project_field_as f a q =
     q\<lparr>se_projections := se_projections q @ [\<lparr>pj_expression = input_node (InField f), pj_alias = Some a\<rparr>]\<rparr>"

definition project_term :: "scalar_term \<Rightarrow> select_state \<Rightarrow> select_state" where
  "project_term t q = q\<lparr>se_projections := se_projections q @ [\<lparr>pj_expression = tm_node t, pj_alias = tm_alias t\<rparr>]\<rparr>"

definition project_window :: "window_term \<Rightarrow> select_state \<Rightarrow> select_state" where
  "project_window w q = q\<lparr>se_projections := se_projections q @ [\<lparr>pj_expression = window_node w, pj_alias = wt_alias w\<rparr>]\<rparr>"

definition sel_join :: "entity_types \<Rightarrow> type_index \<Rightarrow> relation_meta \<Rightarrow> bool \<Rightarrow> select_state \<Rightarrow> select_state" where
  "sel_join T owner m left q = q\<lparr>se_joins := se_joins q @ [make_join_spec T owner m left]\<rparr>"

definition join_cte :: "column_ref \<Rightarrow> string \<Rightarrow> string \<Rightarrow> bool \<Rightarrow> select_state \<Rightarrow> select_state result" where
  "join_cte owner name column left q =
     (if name = [] \<or> column = []
      then Inl (Invalid_argument ''MetalORM: CTE join requires non-empty CTE and column names'')
      else Inr (q\<lparr>se_cte_joins := se_cte_joins q @
        [\<lparr>cj_left = left, cj_name = name, cj_owner = owner, cj_column = column\<rparr>]\<rparr>))"

definition where_column :: "type_index \<Rightarrow> string \<Rightarrow> compare_op \<Rightarrow> dbvalue \<Rightarrow> select_state \<Rightarrow> select_state" where
  "where_column root column op v q =
     q\<lparr>se_where := Some (EComparison (SColumn \<lparr>cr_owner = root, cr_column = column\<rparr>) op (SValue v))\<rparr>"

definition projection_arity :: "entity_types \<Rightarrow> type_index \<Rightarrow> select_state \<Rightarrow> nat" where
  "projection_arity T root q =
     (if se_projections q \<noteq> [] then length (se_projections q) else length (et_columns (T root)))"

text \<open>
  The functions that nest a query get the arity it has, its root and the closure that compiles it.
\<close>

definition from_subquery :: "subquery \<Rightarrow> nat \<Rightarrow> string \<Rightarrow> string list \<Rightarrow> select_state \<Rightarrow> select_state result" where
  "from_subquery sub arity alias column_aliases q =
     (if alias = [] then Inl (Invalid_argument ''MetalORM: derived table requires a non-empty alias'')
      else if column_aliases \<noteq> [] then Inl (Logic_error
        ''MetalORM: SQLite derived tables do not support column alias lists; alias the subquery projections instead'')
      else Inr (q\<lparr>se_from_name := None,
        se_derived := Some \<lparr>ds_alias = alias, ds_arity = arity, ds_compile = sub\<rparr>\<rparr>))"

definition add_cte :: "string \<Rightarrow> subquery \<Rightarrow> nat \<Rightarrow> string list \<Rightarrow> bool \<Rightarrow> select_state \<Rightarrow> select_state result" where
  "add_cte name sub arity columns recursive q =
     (if name = [] then Inl (Invalid_argument ''MetalORM: CTE name cannot be empty'')
      else if columns \<noteq> [] \<and> length columns \<noteq> arity
        then Inl (Logic_error ''MetalORM: CTE column list must match query projection arity'')
      else Inr (q\<lparr>se_ctes := se_ctes q @
        [\<lparr>ct_name = name, ct_columns = columns, ct_recursive = recursive, ct_compile = sub\<rparr>]\<rparr>))"

definition add_set_operation ::
  "entity_types \<Rightarrow> type_index \<Rightarrow> set_operation_kind \<Rightarrow> subquery \<Rightarrow> nat \<Rightarrow> select_state \<Rightarrow> select_state result" where
  "add_set_operation T root kind sub arity q =
     (if projection_arity T root q \<noteq> arity
      then Inl (Logic_error ''MetalORM: set-operation operands must project the same number of columns'')
      else Inr (q\<lparr>se_set_operations := se_set_operations q @ [\<lparr>so_kind = kind, so_arity = arity, so_compile = sub\<rparr>]\<rparr>))"

subsection \<open>Compilation\<close>

definition context_of :: "dialect \<Rightarrow> nat \<Rightarrow> (type_index, string) amap \<Rightarrow> compile_context" where
  "context_of d k aliases = \<lparr>cx_dialect = d, cx_offset = k, cx_aliases = aliases\<rparr>"

definition quoted_list :: "dialect \<Rightarrow> string list \<Rightarrow> string" where
  "quoted_list d cs = join '', '' (List.map (d_quote d) cs)"

text \<open>The part before the SELECT: one common table expression, and all of them.\<close>

definition compile_cte :: "dialect \<Rightarrow> nat \<Rightarrow> cte_spec \<Rightarrow> (dbvalue list, sql) action" where
  "compile_cte d k c = act_bind (compile_nested (context_of d k []) (ct_compile c)) (\<lambda>q.
     act_return (lit (d_quote d (ct_name c) @
       (if ct_columns c \<noteq> [] then '' ('' @ quoted_list d (ct_columns c) @ '')'' else [])) @ wrap '' AS ('' q '')''))"

definition compile_ctes :: "dialect \<Rightarrow> nat \<Rightarrow> cte_spec list \<Rightarrow> (dbvalue list, sql) action" where
  "compile_ctes d k cs =
     (if cs = [] then act_return []
      else act_bind (act_map (compile_cte d k) cs) (\<lambda>qs.
        act_return (lit (if list_ex ct_recursive cs then ''WITH RECURSIVE '' else ''WITH '') @ join_sql '', '' qs @ lit '' '')))"

text \<open>The alias of the root: the override of a correlated query, the derived table's, \<open>t0\<close> where one is needed.\<close>

definition root_alias :: "select_state \<Rightarrow> bool \<Rightarrow> string \<Rightarrow> string" where
  "root_alias q extra override =
     (if override \<noteq> [] then override
      else case se_derived q of
          Some ds \<Rightarrow> ds_alias ds
        | None \<Rightarrow> if se_joins q \<noteq> [] \<or> se_cte_joins q \<noteq> [] \<or> extra then ''t0'' else [])"

definition emplace :: "'k \<Rightarrow> 'v \<Rightarrow> ('k, 'v) amap \<Rightarrow> ('k, 'v) amap" where
  "emplace k v m = (if alookup m k = None then aput k v m else m)"

definition qcol :: "dialect \<Rightarrow> string \<Rightarrow> string \<Rightarrow> string" where
  "qcol d a c = d_quote d a @ ''.'' @ d_quote d c"

definition opt_text :: "string option \<Rightarrow> string" where
  "opt_text x = (case x of None \<Rightarrow> [] | Some s \<Rightarrow> s)"

definition join_keyword :: "bool \<Rightarrow> string" where
  "join_keyword left = (if left then '' LEFT JOIN '' else '' INNER JOIN '')"

definition join_clause :: "dialect \<Rightarrow> bool \<Rightarrow> string \<Rightarrow> string \<Rightarrow> string \<Rightarrow> string \<Rightarrow> string" where
  "join_clause d left table alias l r =
     join_keyword left @ d_quote d table @ '' AS '' @ d_quote d alias @ '' ON '' @ l @ '' = '' @ r"

text \<open>The loop over the joins: the aliases so far, the numbers of the next ones, the clauses so far.\<close>

type_synonym join_loop_state = "(type_index, string) amap \<times> nat \<times> nat \<times> string list"

definition join_step :: "dialect \<Rightarrow> string \<Rightarrow> bool \<Rightarrow> join_spec \<Rightarrow> join_loop_state \<Rightarrow> join_loop_state result" where
  "join_step d root correlated j = (\<lambda>(aliases, n, p, out).
     case alookup aliases (js_owner j) of
       None \<Rightarrow> Inl (Logic_error ''MetalORM: join owner was not introduced before its relation'')
     | Some owner \<Rightarrow>
         (let target = (if correlated then root @ ''_j'' else ''t'') @ show_nat n;
              aliases' = emplace (js_target j) target aliases;
              pivot = (if correlated then root @ ''_p'' else ''p'') @ show_nat p in
          if js_relation j = ManyToMany
          then Inr (aliases', n + 1, p + 1, out @
            [join_clause d (js_left j) (opt_text (js_pivot_table j)) pivot
               (qcol d pivot (opt_text (js_pivot_root j))) (qcol d owner (js_owner_column j)),
             join_clause d (js_left j) (js_target_table j) target
               (qcol d target (js_target_column j)) (qcol d pivot (opt_text (js_pivot_target j)))])
          else Inr (aliases', n + 1, p, out @
            [join_clause d (js_left j) (js_target_table j) target
               (qcol d owner (js_owner_column j)) (qcol d target (js_target_column j))])))"

fun join_loop :: "dialect \<Rightarrow> string \<Rightarrow> bool \<Rightarrow> join_spec list \<Rightarrow> join_loop_state \<Rightarrow> join_loop_state result" where
  "join_loop d root correlated [] s = Inr s"
| "join_loop d root correlated (j # js) s = rbind (join_step d root correlated j s) (join_loop d root correlated js)"

definition compile_cte_join :: "compile_context \<Rightarrow> cte_join_spec \<Rightarrow> sql result" where
  "compile_cte_join c j = rbind (compile_column c (cj_owner j)) (\<lambda>q.
     Inr (wrap (join_keyword (cj_left j) @ d_quote (cx_dialect c) (cj_name j) @ '' ON '') q
       ('' = '' @ qcol (cx_dialect c) (cj_name j) (cj_column j))))"

definition compile_projection :: "compile_context \<Rightarrow> projection_spec \<Rightarrow> (dbvalue list, sql) action" where
  "compile_projection c p = act_bind (compile_scalar c (pj_expression p)) (\<lambda>q.
     act_return (q @ (case pj_alias p of None \<Rightarrow> [] | Some a \<Rightarrow> lit ('' AS '' @ d_quote (cx_dialect c) a))))"

definition root_projection :: "dialect \<Rightarrow> entity_type \<Rightarrow> string \<Rightarrow> string" where
  "root_projection d t alias = join '', '' (List.map (\<lambda>(c, ct).
     if alias \<noteq> [] then qcol d alias c @ '' AS '' @ d_quote d c else d_quote d c) (et_columns t))"

definition append_projection_sql ::
  "entity_types \<Rightarrow> type_index \<Rightarrow> select_state \<Rightarrow> compile_context \<Rightarrow> string \<Rightarrow> (dbvalue list, sql) action" where
  "append_projection_sql T root q c alias =
     (if se_projections q = [] then act_return (lit (root_projection (cx_dialect c) (T root) alias))
      else act_bind (act_map (compile_projection c) (se_projections q)) (\<lambda>qs. act_return (join_sql '', '' qs)))"

definition compile_from_source ::
  "entity_types \<Rightarrow> type_index \<Rightarrow> select_state \<Rightarrow> compile_context \<Rightarrow> string \<Rightarrow> (dbvalue list, sql) action" where
  "compile_from_source T root q c alias =
     (case se_derived q of
        Some ds \<Rightarrow> act_bind (compile_nested c (ds_compile ds)) (\<lambda>s.
          act_return (wrap ''('' s ('') AS '' @ d_quote (cx_dialect c) (if alias = [] then ds_alias ds else alias))))
      | None \<Rightarrow> act_return (lit (
          d_quote (cx_dialect c) (case se_from_name q of Some n \<Rightarrow> n | None \<Rightarrow> et_table (T root)) @
          (if alias \<noteq> [] then '' AS '' @ d_quote (cx_dialect c) alias else []))))"

definition compile_optional :: "(dbvalue list, sql) action option \<Rightarrow> (dbvalue list, sql option) action" where
  "compile_optional m = (case m of None \<Rightarrow> act_return None | Some a \<Rightarrow> act_bind a (\<lambda>q. act_return (Some q)))"

text \<open>The condition of the caller counts when its text is not empty.\<close>

definition sql_text_empty :: "sql \<Rightarrow> bool" where
  "sql_text_empty q \<longleftrightarrow> list_all (\<lambda>p. p = Text []) q"

definition compile_extra_where :: "compile_context \<Rightarrow> extra_where option \<Rightarrow> string \<Rightarrow> (dbvalue list, sql option) action" where
  "compile_extra_where c extra alias ps =
     (case extra of
        None \<Rightarrow> (Inr None, ps)
      | Some f \<Rightarrow>
          (case f (cx_dialect c) (cx_offset c + length ps) alias of
             Inl e \<Rightarrow> (Inl e, ps)
           | Inr q \<Rightarrow> if sql_text_empty (cq_sql q) then (Inr None, ps) else (Inr (Some (cq_sql q)), ps @ cq_params q)))"

fun where_clause :: "sql option \<Rightarrow> sql option \<Rightarrow> sql" where
  "where_clause None None = []"
| "where_clause (Some w) (Some x) = lit '' WHERE ('' @ w @ lit '') AND ('' @ x @ lit '')''"
| "where_clause (Some w) None = lit '' WHERE '' @ w"
| "where_clause None (Some x) = lit '' WHERE '' @ x"

definition group_by_clause :: "compile_context \<Rightarrow> column_ref list \<Rightarrow> sql result" where
  "group_by_clause c fs =
     (if fs = [] then Inr []
      else rbind (rmap_list (compile_column c) fs) (\<lambda>qs. Inr (lit '' GROUP BY '' @ join_sql '', '' qs)))"

definition having_clause :: "compile_context \<Rightarrow> expr option \<Rightarrow> (dbvalue list, sql) action" where
  "having_clause c h = (case h of None \<Rightarrow> act_return []
     | Some e \<Rightarrow> act_bind (compile_expression c e) (\<lambda>q. act_return (lit '' HAVING '' @ q)))"

definition compile_set_operation :: "compile_context \<Rightarrow> set_operation_spec \<Rightarrow> (dbvalue list, sql) action" where
  "compile_set_operation c s = act_bind (compile_nested c (so_compile s)) (\<lambda>q.
     act_return (lit ('' '' @ set_operation_token (so_kind s) @ '' '') @ q))"

definition order_by_clause :: "compile_context \<Rightarrow> (column_ref \<times> bool) list \<Rightarrow> sql result" where
  "order_by_clause c fs =
     (if fs = [] then Inr []
      else rbind (rmap_list (compile_window_order c) fs) (\<lambda>qs. Inr (lit '' ORDER BY '' @ join_sql '', '' qs)))"

definition limit_clause :: "select_state \<Rightarrow> bool \<Rightarrow> string" where
  "limit_clause q terminate =
     (case se_limit q of None \<Rightarrow> [] | Some n \<Rightarrow> '' LIMIT '' @ show_nat n) @
     (case se_offset q of None \<Rightarrow> [] | Some n \<Rightarrow> '' OFFSET '' @ show_nat n) @
     (if terminate then '';'' else [])"

text \<open>\<open>compile_impl\<close> from the projections on, in the context with the aliases of all joins.\<close>

definition compile_body ::
  "entity_types \<Rightarrow> type_index \<Rightarrow> select_state \<Rightarrow> bool \<Rightarrow> extra_where option \<Rightarrow> string \<Rightarrow> compile_context \<Rightarrow> string list \<Rightarrow>
     (dbvalue list, sql) action" where
  "compile_body T root q terminate extra alias c joins =
     act_bind (act_lift (rmap_list (compile_cte_join c) (se_cte_joins q))) (\<lambda>cjs.
     act_bind (append_projection_sql T root q c alias) (\<lambda>proj.
     act_bind (compile_from_source T root q c alias) (\<lambda>src.
     act_bind (compile_optional (map_option (compile_expression c) (se_where q))) (\<lambda>w.
     act_bind (compile_extra_where c extra alias) (\<lambda>x.
     act_bind (act_lift (group_by_clause c (se_group_by q))) (\<lambda>g.
     act_bind (having_clause c (se_having q)) (\<lambda>h.
     act_bind (act_map (compile_set_operation c) (se_set_operations q)) (\<lambda>ops.
     act_bind (act_lift (order_by_clause c (se_order_by q))) (\<lambda>ord.
       act_return (lit (''SELECT '' @ (if se_distinct q then ''DISTINCT '' else [])) @ proj @ lit '' FROM '' @ src @
         lit (concat joins) @ concat cjs @ where_clause w x @ g @ h @ concat ops @ ord @
         lit (limit_clause q terminate)))))))))))"

definition compile_select ::
  "entity_types \<Rightarrow> type_index \<Rightarrow> select_state \<Rightarrow> bool \<Rightarrow> extra_where option \<Rightarrow> string \<Rightarrow> dialect \<Rightarrow> nat \<Rightarrow>
     (dbvalue list, sql) action" where
  "compile_select T root q terminate extra override d k =
     act_bind (compile_ctes d k (se_ctes q)) (\<lambda>ctes.
       let alias = root_alias q (extra \<noteq> None) override in
       act_bind (act_lift (join_loop d alias (override \<noteq> []) (se_joins q) ([(root, alias)], 1, 0, []))) (\<lambda>(aliases, _, _, joins).
         act_bind (compile_body T root q terminate extra alias (context_of d k aliases) joins) (\<lambda>body.
           act_return (ctes @ body))))"

definition compile_query :: "entity_types \<Rightarrow> type_index \<Rightarrow> select_state \<Rightarrow> subquery" where
  "compile_query T root q d k = compiled (compile_select T root q True None [] d k)"

definition compile_subquery :: "entity_types \<Rightarrow> type_index \<Rightarrow> select_state \<Rightarrow> subquery" where
  "compile_subquery T root q d k = compiled (compile_select T root q False None [] d k)"

definition compile_subquery_with_extra_where ::
  "entity_types \<Rightarrow> type_index \<Rightarrow> select_state \<Rightarrow> extra_where option \<Rightarrow> string \<Rightarrow> subquery" where
  "compile_subquery_with_extra_where T root q extra override d k =
     compiled (compile_select T root q False extra override d k)"

definition compile_scalar_subquery :: "entity_types \<Rightarrow> type_index \<Rightarrow> select_state \<Rightarrow> subquery" where
  "compile_scalar_subquery T root q d k =
     (if projection_arity T root q \<noteq> 1
      then Inl (Logic_error ''MetalORM: scalar subquery must project exactly one expression'')
      else compile_subquery T root q d k)"

text \<open>\<open>in\<close>, \<open>not_in\<close>, \<open>exists\<close> and \<open>not_exists\<close> over a query.\<close>

definition in_query :: "entity_types \<Rightarrow> column_ref \<Rightarrow> type_index \<Rightarrow> select_state \<Rightarrow> expr" where
  "in_query T f root q = EInSubquery (input_node (InField f)) (compile_scalar_subquery T root q) False"

definition not_in_query :: "entity_types \<Rightarrow> column_ref \<Rightarrow> type_index \<Rightarrow> select_state \<Rightarrow> expr" where
  "not_in_query T f root q = EInSubquery (input_node (InField f)) (compile_scalar_subquery T root q) True"

definition exists_query :: "entity_types \<Rightarrow> type_index \<Rightarrow> select_state \<Rightarrow> expr" where
  "exists_query T root q = EExists (compile_subquery T root q) False"

definition not_exists_query :: "entity_types \<Rightarrow> type_index \<Rightarrow> select_state \<Rightarrow> expr" where
  "not_exists_query T root q = EExists (compile_subquery T root q) True"

end
