(* ===== verification/Relation_Queries.thy ===== *)
theory Relation_Queries
  imports Select_Query
begin

section \<open>Conditions on relations (include/metal/query/relation_queries.hpp, relation_match.hpp)\<close>

text \<open>
  \<open>where_has\<close> keeps the roots that have a related entity in a child query: the query gets an \<open>EXISTS\<close> over
  the child, correlated with the root by the keys of the relation. A child is a plain query or one with
  such conditions itself, so it is the function that compiles it with an additional condition.
\<close>

type_synonym correlatable = "extra_where option \<Rightarrow> string \<Rightarrow> subquery"

record relation_filter_spec =
  rq_negated :: bool
  rq_exists :: extra_where

definition plain_query :: "sql \<Rightarrow> compiled_query" where
  "plain_query q = \<lparr>cq_sql = q, cq_params = []\<rparr>"

text \<open>The condition that ties the child to the root; \<open>MorphTo\<close> is refused at compile time.\<close>

definition compile_relation_correlation ::
  "entity_types \<Rightarrow> relation_meta \<Rightarrow> string \<Rightarrow> string \<Rightarrow> dialect \<Rightarrow> nat \<Rightarrow> compiled_query" where
  "compile_relation_correlation T m child outer d k =
     (let keys = (\<lambda>a c b e. qcol d a c @ '' = '' @ qcol d b e); pivot = child @ ''_pivot'' in
      case rm_kind m of
        BelongsTo \<Rightarrow> plain_query (lit (keys child (rm_target_key m) outer (rm_foreign_key m)))
      | HasOne \<Rightarrow> plain_query (lit (keys child (rm_foreign_key m) outer (rm_local_key m)))
      | HasMany \<Rightarrow> plain_query (lit (keys child (rm_foreign_key m) outer (rm_local_key m)))
      | ManyToMany \<Rightarrow> plain_query (lit (
          ''EXISTS (SELECT 1 FROM '' @ d_quote d (rm_pivot m) @ '' AS '' @ d_quote d pivot @ '' WHERE '' @
          keys pivot (rm_pivot_target m) child (rm_target_key m) @ '' AND '' @
          keys pivot (rm_pivot_root m) outer (rm_local_key m) @ '')''))
      | MorphTo \<Rightarrow> plain_query []
      | _ \<Rightarrow> \<lparr>cq_sql = lit (keys child (rm_id_field m) outer (rm_local_key m) @ '' AND '' @
            qcol d child (rm_type_field m) @ '' = '') @ [Hole (Suc k)],
          cq_params = [VString (rm_type_value m)]\<rparr>)"

definition make_relation_filter :: "entity_types \<Rightarrow> relation_meta \<Rightarrow> correlatable \<Rightarrow> bool \<Rightarrow> relation_filter_spec" where
  "make_relation_filter T m child negated = \<lparr>rq_negated = negated, rq_exists = (\<lambda>d k outer.
     child (Some (\<lambda>d k alias. Inr (compile_relation_correlation T m alias outer d k))) (outer @ ''_rel'') d k)\<rparr>"

text \<open>One condition in parentheses; one without text is left out.\<close>

definition append_predicate :: "sql list \<Rightarrow> sql \<Rightarrow> sql list" where
  "append_predicate preds q = (if sql_text_empty q then preds else preds @ [wrap ''('' q '')''])"

definition compile_filter :: "dialect \<Rightarrow> nat \<Rightarrow> string \<Rightarrow> relation_filter_spec \<Rightarrow> (dbvalue list, sql) action" where
  "compile_filter d k alias f = act_bind (compile_nested (context_of d k []) (\<lambda>d k. rq_exists f d k alias)) (\<lambda>q.
     act_return (wrap (if rq_negated f then ''NOT EXISTS ('' else ''EXISTS ('') q '')''))"

definition compile_relation_filter_list ::
  "relation_filter_spec list \<Rightarrow> extra_where option \<Rightarrow> extra_where" where
  "compile_relation_filter_list fs extra d k alias = compiled (
     act_bind (act_map (compile_filter d k alias) fs) (\<lambda>qs.
     act_bind (compile_extra_where (context_of d k []) extra alias) (\<lambda>x.
       act_return (join_sql '' AND '' (foldl append_predicate [] (qs @ (case x of None \<Rightarrow> [] | Some q \<Rightarrow> [q])))))))"

text \<open>\<open>RelationFilteredQuery\<close>\<close>

record filtered_query =
  fq_base :: select_state
  fq_filters :: "relation_filter_spec list"

definition add_filter :: "relation_filter_spec \<Rightarrow> filtered_query \<Rightarrow> filtered_query" where
  "add_filter f q = q\<lparr>fq_filters := fq_filters q @ [f]\<rparr>"

definition filtered_without_pagination :: "filtered_query \<Rightarrow> filtered_query" where
  "filtered_without_pagination q = q\<lparr>fq_base := without_pagination (fq_base q)\<rparr>"

definition filtered_with_extra_where :: "entity_types \<Rightarrow> type_index \<Rightarrow> filtered_query \<Rightarrow> correlatable" where
  "filtered_with_extra_where T root q extra override =
     compile_subquery_with_extra_where T root (fq_base q) (Some (compile_relation_filter_list (fq_filters q) extra)) override"

definition filtered_subquery :: "entity_types \<Rightarrow> type_index \<Rightarrow> filtered_query \<Rightarrow> subquery" where
  "filtered_subquery T root q = filtered_with_extra_where T root q None []"

definition filtered_query_sql :: "entity_types \<Rightarrow> type_index \<Rightarrow> filtered_query \<Rightarrow> subquery" where
  "filtered_query_sql T root q d k = rbind (filtered_subquery T root q d k) (\<lambda>c. Inr (c\<lparr>cq_sql := cq_sql c @ lit '';''\<rparr>))"

text \<open>
  \<open>where_has\<close> and \<open>where_has_not\<close>: the child is what the callback makes of \<open>select<Target>()\<close>. On a plain
  query they start from a filtered one without filters.
\<close>

definition filtered :: "select_state \<Rightarrow> filtered_query" where
  "filtered q = \<lparr>fq_base = q, fq_filters = []\<rparr>"

definition where_has :: "entity_types \<Rightarrow> relation_meta \<Rightarrow> correlatable \<Rightarrow> filtered_query \<Rightarrow> filtered_query" where
  "where_has T m child q = add_filter (make_relation_filter T m child False) q"

definition where_has_not :: "entity_types \<Rightarrow> relation_meta \<Rightarrow> correlatable \<Rightarrow> filtered_query \<Rightarrow> filtered_query" where
  "where_has_not T m child q = add_filter (make_relation_filter T m child True) q"

definition where_relation :: "entity_types \<Rightarrow> relation_meta \<Rightarrow> expr \<Rightarrow> filtered_query \<Rightarrow> filtered_query" where
  "where_relation T m e q =
     where_has T m (compile_subquery_with_extra_where T (rm_target m) (sel_where e new_select)) q"

definition match_relation :: "entity_types \<Rightarrow> relation_meta \<Rightarrow> expr option \<Rightarrow> filtered_query \<Rightarrow> filtered_query" where
  "match_relation T m e q = (case e of
     None \<Rightarrow> where_has T m (compile_subquery_with_extra_where T (rm_target m) new_select) q
   | Some e \<Rightarrow> where_relation T m e q)"

end
