(* ===== verification/Select_Properties.thy ===== *)
theory Select_Properties
  imports Relation_Queries
begin

section \<open>Properties of compiled queries\<close>

text \<open>
  The placeholders of a query, however its parts are nested, are numbered in the order of the text as the
  parameters it pushes; and a query that respects the scopes the C++ types enforce compiles.
\<close>

subsection \<open>The placeholders of a query\<close>

text \<open>
  A query is well built for a family of dialects when its expressions are positional and the queries
  nested in it are well numbered. Every function of the builder keeps it so.
\<close>

definition select_ok :: "dialect_family \<Rightarrow> select_state \<Rightarrow> bool" where
  "select_ok fam q \<longleftrightarrow>
     list_all (\<lambda>p. positional_scalar fam (pj_expression p)) (se_projections q) \<and>
     pred_option (positional_expr fam) (se_where q) \<and> pred_option (positional_expr fam) (se_having q) \<and>
     list_all (\<lambda>c. subquery_ok fam (ct_compile c)) (se_ctes q) \<and>
     list_all (\<lambda>s. subquery_ok fam (so_compile s)) (se_set_operations q) \<and>
     pred_option (\<lambda>s. subquery_ok fam (ds_compile s)) (se_derived q)"

definition extra_where_ok :: "dialect_family \<Rightarrow> extra_where \<Rightarrow> bool" where
  "extra_where_ok fam f \<longleftrightarrow> (\<forall>alias. subquery_ok fam (\<lambda>d k. f d k alias))"

lemma select_ok_builder [simp]:
  "select_ok fam new_select"
  "select_ok fam q \<Longrightarrow> select_ok fam (sel_distinct b q)"
  "select_ok fam q \<Longrightarrow> positional_expr fam e \<Longrightarrow> select_ok fam (sel_where e q)"
  "select_ok fam q \<Longrightarrow> positional_expr fam e \<Longrightarrow> select_ok fam (sel_having e q)"
  "select_ok fam q \<Longrightarrow> select_ok fam (sel_group_by f q)"
  "select_ok fam q \<Longrightarrow> select_ok fam (sel_order_by f asc q)"
  "select_ok fam q \<Longrightarrow> select_ok fam (sel_limit n q)"
  "select_ok fam q \<Longrightarrow> select_ok fam (sel_offset n q)"
  "select_ok fam q \<Longrightarrow> select_ok fam (without_pagination q)"
  "select_ok fam q \<Longrightarrow> select_ok fam (clear_projection q)"
  "select_ok fam q \<Longrightarrow> select_ok fam (project_field f q)"
  "select_ok fam q \<Longrightarrow> select_ok fam (project_field_as f a q)"
  "select_ok fam q \<Longrightarrow> positional_scalar fam (tm_node t) \<Longrightarrow> select_ok fam (project_term t q)"
  "select_ok fam q \<Longrightarrow> list_all (positional_scalar fam) (wt_args w) \<Longrightarrow> select_ok fam (project_window w q)"
  "select_ok fam q \<Longrightarrow> select_ok fam (sel_join T owner m left q)"
  "select_ok fam q \<Longrightarrow> select_ok fam (where_column root c op v q)"
  by (simp_all add: select_ok_def new_select_def sel_distinct_def sel_where_def sel_having_def sel_group_by_def
      sel_order_by_def sel_limit_def sel_offset_def without_pagination_def clear_projection_def project_field_def
      project_field_as_def project_term_def project_window_def sel_join_def where_column_def input_node_def
      new_term_def window_node_def)

lemma select_ok_builder_throwing:
  "select_ok fam q \<Longrightarrow> sel_from n q = Inr q' \<Longrightarrow> select_ok fam q'"
  "select_ok fam q \<Longrightarrow> join_cte o' n c left q = Inr q' \<Longrightarrow> select_ok fam q'"
  "select_ok fam q \<Longrightarrow> subquery_ok fam sub \<Longrightarrow> from_subquery sub a n cs q = Inr q' \<Longrightarrow> select_ok fam q'"
  "select_ok fam q \<Longrightarrow> subquery_ok fam sub \<Longrightarrow> add_cte n sub a cs r q = Inr q' \<Longrightarrow> select_ok fam q'"
  "select_ok fam q \<Longrightarrow> subquery_ok fam sub \<Longrightarrow> add_set_operation T root kind sub a q = Inr q' \<Longrightarrow> select_ok fam q'"
  by (auto simp: select_ok_def sel_from_def join_cte_def from_subquery_def add_cte_def add_set_operation_def
      split: if_splits)

lemma numberedD: "numbered k m hs \<Longrightarrow> m ps = (Inr x, ps') \<Longrightarrow> binds k ps (hs x) ps'"
  by (simp add: numbered_def)

lemma numbered_nested:
  "subquery_ok (d_family (cx_dialect c)) sub \<Longrightarrow> cx_offset c = k \<Longrightarrow> numbered k (compile_nested c sub) holes"
  by (auto simp: numbered_def dest: binds_nested)

lemma numbered_scalar:
  "positional_scalar (d_family (cx_dialect c)) s \<Longrightarrow> cx_offset c = k \<Longrightarrow> numbered k (compile_scalar c s) holes"
  by (auto simp: numbered_def dest: compile_binds(1))

lemma numbered_expression:
  "positional_expr (d_family (cx_dialect c)) e \<Longrightarrow> cx_offset c = k \<Longrightarrow> numbered k (compile_expression c e) holes"
  by (auto simp: numbered_def dest: compile_binds(2))

lemma numbered_lift: "(\<And>x. r = Inr x \<Longrightarrow> hs x = []) \<Longrightarrow> numbered k (act_lift r) hs"
  by (auto simp: numbered_def)

lemma numbered_map_ok: "list_all (\<lambda>x. numbered k (f x) holes) xs \<Longrightarrow> numbered k (act_map f xs) holes_of"
proof (induction xs)
  case Nil
  then show ?case by (simp add: numbered_def)
next
  case (Cons x xs)
  then have "numbered k (f x) holes" "numbered k (act_map f xs) holes_of" by auto
  then show ?case by (auto intro!: numbered_bind numbered_return)
qed

lemma context_of_simps [simp]:
  "cx_dialect (context_of d k al) = d" "cx_offset (context_of d k al) = k" "cx_aliases (context_of d k al) = al"
  by (simp_all add: context_of_def)

lemma numbered_cte:
  assumes "subquery_ok (d_family d) (ct_compile c)"
  shows "numbered k (compile_cte d k c) holes"
  unfolding compile_cte_def
  by (rule numbered_bind [OF numbered_nested]) (auto simp: assms intro: numbered_return)

lemma numbered_ctes:
  assumes "list_all (\<lambda>c. subquery_ok (d_family d) (ct_compile c)) cs"
  shows "numbered k (compile_ctes d k cs) holes"
proof -
  have "numbered k (act_map (compile_cte d k) cs) holes_of"
    using assms by (intro numbered_map_ok) (auto simp: list_all_iff intro: numbered_cte)
  then show ?thesis unfolding compile_ctes_def by (auto intro!: numbered_return numbered_bind)
qed

lemma numbered_projection:
  assumes "positional_scalar (d_family (cx_dialect c)) (pj_expression p)" "cx_offset c = k"
  shows "numbered k (compile_projection c p) holes"
  unfolding compile_projection_def
  by (rule numbered_bind [OF numbered_scalar]) (auto simp: assms intro!: numbered_return split: option.split)

lemma numbered_projections:
  assumes "list_all (\<lambda>p. positional_scalar (d_family (cx_dialect c)) (pj_expression p)) (se_projections q)" "cx_offset c = k"
  shows "numbered k (append_projection_sql T root q c alias) holes"
proof -
  have "numbered k (act_map (compile_projection c) (se_projections q)) holes_of"
    using assms by (intro numbered_map_ok) (auto simp: list_all_iff intro: numbered_projection)
  then show ?thesis unfolding append_projection_sql_def by (auto intro!: numbered_return numbered_bind)
qed

lemma numbered_source:
  assumes "pred_option (\<lambda>s. subquery_ok (d_family (cx_dialect c)) (ds_compile s)) (se_derived q)" "cx_offset c = k"
  shows "numbered k (compile_from_source T root q c alias) holes"
  using assms unfolding compile_from_source_def
  by (auto intro!: numbered_return numbered_bind [OF numbered_nested] split: option.split)

definition opt_holes :: "sql option \<Rightarrow> nat list" where
  "opt_holes x = (case x of None \<Rightarrow> [] | Some q \<Rightarrow> holes q)"

lemma numbered_optional:
  "pred_option (\<lambda>m. numbered k m holes) m \<Longrightarrow> numbered k (compile_optional m) opt_holes"
  unfolding compile_optional_def
  by (cases m) (auto simp: opt_holes_def intro!: numbered_return elim!: numbered_bind)

lemma empty_text_holes: "sql_text_empty q \<Longrightarrow> holes q = []"
  by (induction q rule: holes.induct) (auto simp: sql_text_empty_def)

lemma numbered_extra_where:
  assumes "pred_option (extra_where_ok (d_family (cx_dialect c))) extra" "cx_offset c = k"
  shows "numbered k (compile_extra_where c extra alias) opt_holes"
  using assms
  by (auto simp: numbered_def compile_extra_where_def opt_holes_def extra_where_ok_def subquery_ok_def binds_def add.assoc
      split: option.splits sum.splits if_splits simp del: upt_Suc)

lemma where_clause_holes [simp]: "holes (where_clause w x) = opt_holes w @ opt_holes x"
  by (cases "(w, x)" rule: where_clause.cases) (simp_all add: opt_holes_def)

lemma column_clauses_holes:
  "group_by_clause c fs = Inr q \<Longrightarrow> holes q = []"
  "order_by_clause c os = Inr q \<Longrightarrow> holes q = []"
proof -
  have "compile_window_order c r = Inr q \<Longrightarrow> holes q = []" for r q
    by (auto simp: compile_window_order_def result_simps compile_column_holes)
  then have os: "rmap_list (compile_window_order c) rs = Inr qs \<Longrightarrow> holes_of qs = []" for rs qs
    by (rule rmap_list_holes)
  have gs: "rmap_list (compile_column c) rs = Inr qs \<Longrightarrow> holes_of qs = []" for rs qs
    by (rule rmap_list_holes [OF compile_column_holes])
  show "group_by_clause c fs = Inr q \<Longrightarrow> holes q = []"
    by (auto simp: group_by_clause_def result_simps dest!: gs split: if_splits simp del: concat_eq_Nil_conv)
  show "order_by_clause c os = Inr q \<Longrightarrow> holes q = []"
    by (auto simp: order_by_clause_def result_simps dest!: os split: if_splits simp del: concat_eq_Nil_conv)
qed

lemma cte_joins_holes: "rmap_list (compile_cte_join c) js = Inr qs \<Longrightarrow> holes_of qs = []"
  by (rule rmap_list_holes) (auto simp: compile_cte_join_def result_simps compile_column_holes)

lemma numbered_having:
  assumes "pred_option (positional_expr (d_family (cx_dialect c))) h" "cx_offset c = k"
  shows "numbered k (having_clause c h) holes"
  using assms unfolding having_clause_def
  by (cases h) (auto intro!: numbered_return numbered_bind [OF numbered_expression])

lemma numbered_set_operations:
  assumes "list_all (\<lambda>s. subquery_ok (d_family (cx_dialect c)) (so_compile s)) ss" "cx_offset c = k"
  shows "numbered k (act_map (compile_set_operation c) ss) holes_of"
proof -
  have "numbered k (compile_set_operation c s) holes" if "subquery_ok (d_family (cx_dialect c)) (so_compile s)" for s
    unfolding compile_set_operation_def
    by (rule numbered_bind [OF numbered_nested]) (auto simp: that assms(2) intro: numbered_return)
  with assms(1) show ?thesis by (intro numbered_map_ok) (auto simp: list_all_iff)
qed

lemma holes_concat: "holes (concat qs) = holes_of qs"
  by (induction qs) auto

lemma numbered_body:
  assumes q: "select_ok (d_family (cx_dialect c)) q" and x: "pred_option (extra_where_ok (d_family (cx_dialect c))) extra"
    and k: "cx_offset c = k"
  shows "numbered k (compile_body T root q terminate extra alias c joins) holes"
  unfolding numbered_def
proof (intro allI impI)
  fix ps y ps'
  assume "compile_body T root q terminate extra alias c joins ps = (Inr y, ps')"
  then obtain cjs proj src w x g h ops ord p1 p2 p3 p4 p5 where
    lifts: "rmap_list (compile_cte_join c) (se_cte_joins q) = Inr cjs" "group_by_clause c (se_group_by q) = Inr g"
      "order_by_clause c (se_order_by q) = Inr ord" and
    run: "append_projection_sql T root q c alias ps = (Inr proj, p1)" "compile_from_source T root q c alias p1 = (Inr src, p2)"
      "compile_optional (map_option (compile_expression c) (se_where q)) p2 = (Inr w, p3)"
      "compile_extra_where c extra alias p3 = (Inr x, p4)" "having_clause c (se_having q) p4 = (Inr h, p5)"
      "act_map (compile_set_operation c) (se_set_operations q) p5 = (Inr ops, ps')" and
    y: "y = lit (''SELECT '' @ (if se_distinct q then ''DISTINCT '' else [])) @ proj @ lit '' FROM '' @ src @
         lit (concat joins) @ concat cjs @ where_clause w x @ g @ h @ concat ops @ ord @ lit (limit_clause q terminate)"
    unfolding compile_body_def by (auto simp: result_simps)
  have "pred_option (\<lambda>m. numbered k m holes) (map_option (compile_expression c) (se_where q))"
    using q k by (cases "se_where q") (auto simp: select_ok_def intro: numbered_expression)
  then have w: "numbered k (compile_optional (map_option (compile_expression c) (se_where q))) opt_holes"
    by (rule numbered_optional)
  have "binds k ps (holes proj) p1" using q by (intro numberedD [OF numbered_projections run(1)] k) (simp add: select_ok_def)
  moreover have "binds k p1 (holes src) p2"
    using q by (intro numberedD [OF numbered_source run(2)] k) (simp add: select_ok_def)
  moreover have "binds k p2 (opt_holes w) p3" by (rule numberedD [OF w run(3)])
  moreover have "binds k p3 (opt_holes x) p4" by (rule numberedD [OF numbered_extra_where [OF x k] run(4)])
  moreover have "binds k p4 (holes h) p5"
    using q by (intro numberedD [OF numbered_having run(5)] k) (simp add: select_ok_def)
  moreover have "binds k p5 (holes_of ops) ps'"
    using q by (intro numberedD [OF numbered_set_operations run(6)] k) (simp add: select_ok_def)
  ultimately have "binds k ps (holes proj @ holes src @ opt_holes w @ opt_holes x @ holes h @ holes_of ops) ps'"
    by (meson binds_append)
  with lifts show "binds k ps (holes y) ps'"
    by (simp add: y holes_concat column_clauses_holes cte_joins_holes)
qed

lemma numbered_select:
  assumes q: "select_ok (d_family d) q" and x: "pred_option (extra_where_ok (d_family d)) extra"
  shows "numbered k (compile_select T root q terminate extra override d k) holes"
proof -
  let ?body = "\<lambda>al joins. compile_body T root q terminate extra (root_alias q (extra \<noteq> None) override) (context_of d k al) joins"
  have "numbered k (?body al joins) holes" for al joins
    using q x by (intro numbered_body) simp_all
  moreover have "numbered k (compile_ctes d k (se_ctes q)) holes"
    using q by (intro numbered_ctes) (simp add: select_ok_def)
  ultimately show ?thesis unfolding compile_select_def Let_def
    by (auto intro!: numbered_return numbered_bind [where hs = holes]
        numbered_bind [OF numbered_lift [where hs = "\<lambda>_. []"]])
qed

lemma compiled_subquery_ok:
  assumes "\<And>d k. d_family d = fam \<Longrightarrow> numbered k (m d k) holes"
  shows "subquery_ok fam (\<lambda>d k. compiled (m d k))"
  using assms by (auto simp: subquery_ok_def numbered_def compiled_def binds_def split: sum.splits prod.splits simp del: upt_Suc)

lemma compiled_select_ok [simp]:
  assumes "select_ok fam q"
  shows "subquery_ok fam (compile_query T root q)" "subquery_ok fam (compile_subquery T root q)"
    "subquery_ok fam (compile_scalar_subquery T root q)"
    "pred_option (extra_where_ok fam) extra \<Longrightarrow> subquery_ok fam (compile_subquery_with_extra_where T root q extra override)"
proof -
  have select: "subquery_ok fam (\<lambda>d k. compiled (compile_select T root q t x a d k))"
    if "pred_option (extra_where_ok fam) x" for t x a
    using that assms by (intro compiled_subquery_ok numbered_select) auto
  then show q: "subquery_ok fam (compile_query T root q)" and s: "subquery_ok fam (compile_subquery T root q)"
    by (simp_all add: compile_query_def [abs_def] compile_subquery_def [abs_def])
  show "pred_option (extra_where_ok fam) extra \<Longrightarrow> subquery_ok fam (compile_subquery_with_extra_where T root q extra override)"
    using select by (simp add: compile_subquery_with_extra_where_def [abs_def])
  show "subquery_ok fam (compile_scalar_subquery T root q)"
    using s by (auto simp: subquery_ok_def compile_scalar_subquery_def simp del: upt_Suc)
qed

lemma nested_conditions_positional [simp]:
  "select_ok fam q \<Longrightarrow> positional_expr fam (in_query T f root q)"
  "select_ok fam q \<Longrightarrow> positional_expr fam (not_in_query T f root q)"
  "select_ok fam q \<Longrightarrow> positional_expr fam (exists_query T root q)"
  "select_ok fam q \<Longrightarrow> positional_expr fam (not_exists_query T root q)"
  by (simp_all add: in_query_def not_in_query_def exists_query_def not_exists_query_def input_node_def new_term_def)


text \<open>The conditions on relations.\<close>

definition correlatable_ok :: "dialect_family \<Rightarrow> correlatable \<Rightarrow> bool" where
  "correlatable_ok fam child \<longleftrightarrow>
     (\<forall>extra override. pred_option (extra_where_ok fam) extra \<longrightarrow> subquery_ok fam (child extra override))"

definition filter_ok :: "dialect_family \<Rightarrow> relation_filter_spec \<Rightarrow> bool" where
  "filter_ok fam f \<longleftrightarrow> extra_where_ok fam (rq_exists f)"

lemma correlation_ok: "extra_where_ok fam (\<lambda>d k alias. Inr (compile_relation_correlation T m alias outer d k))"
  by (auto simp: extra_where_ok_def subquery_ok_def compile_relation_correlation_def plain_query_def lit_def Let_def
      split: relation_kind.splits)

lemma relation_filter_ok [simp]: "correlatable_ok fam child \<Longrightarrow> filter_ok fam (make_relation_filter T m child negated)"
  by (auto simp: filter_ok_def make_relation_filter_def extra_where_ok_def correlatable_ok_def correlation_ok [unfolded extra_where_ok_def])

lemma numbered_filter:
  "filter_ok (d_family d) f \<Longrightarrow> numbered k (compile_filter d k alias f) holes"
  unfolding compile_filter_def
  by (rule numbered_bind [OF numbered_nested]) (auto simp: filter_ok_def extra_where_ok_def intro: numbered_return)

lemma predicates_holes: "holes_of (foldl append_predicate ps qs) = holes_of ps @ holes_of qs"
  by (induction qs arbitrary: ps) (auto simp: append_predicate_def empty_text_holes)

lemma filter_list_ok:
  assumes fs: "list_all (filter_ok fam) fs" and x: "pred_option (extra_where_ok fam) extra"
  shows "extra_where_ok fam (compile_relation_filter_list fs extra)"
proof -
  have "numbered k (act_map (compile_filter d k a) fs) holes_of" if "d_family d = fam" for d k a
    using fs that by (intro numbered_map_ok) (auto simp: list_all_iff intro: numbered_filter)
  moreover have "numbered k (compile_extra_where (context_of d k []) extra a) opt_holes" if "d_family d = fam" for d k a
    using x that by (intro numbered_extra_where) auto
  ultimately show ?thesis
    unfolding extra_where_ok_def compile_relation_filter_list_def
    by (intro allI compiled_subquery_ok numbered_bind [where hs = holes_of] numbered_bind [where hs = opt_holes] numbered_return)
      (auto simp: predicates_holes opt_holes_def split: option.split)
qed

lemma correlatable_select [simp]:
  "select_ok fam q \<Longrightarrow> correlatable_ok fam (compile_subquery_with_extra_where T root q)"
  by (simp add: correlatable_ok_def)

definition filtered_ok :: "dialect_family \<Rightarrow> filtered_query \<Rightarrow> bool" where
  "filtered_ok fam q \<longleftrightarrow> select_ok fam (fq_base q) \<and> list_all (filter_ok fam) (fq_filters q)"

lemma filtered_ok_builder [simp]:
  "select_ok fam s \<Longrightarrow> filtered_ok fam (filtered s)"
  "filtered_ok fam q \<Longrightarrow> filtered_ok fam (filtered_without_pagination q)"
  "filtered_ok fam q \<Longrightarrow> correlatable_ok fam child \<Longrightarrow> filtered_ok fam (where_has T m child q)"
  "filtered_ok fam q \<Longrightarrow> correlatable_ok fam child \<Longrightarrow> filtered_ok fam (where_has_not T m child q)"
  "filtered_ok fam q \<Longrightarrow> positional_expr fam e \<Longrightarrow> filtered_ok fam (where_relation T m e q)"
  by (simp_all add: filtered_ok_def filtered_def filtered_without_pagination_def where_has_def where_has_not_def
      where_relation_def add_filter_def)

lemma correlatable_filtered [simp]: "filtered_ok fam q \<Longrightarrow> correlatable_ok fam (filtered_with_extra_where T root q)"
  by (auto simp: correlatable_ok_def filtered_with_extra_where_def filtered_ok_def intro!: compiled_select_ok(4) filter_list_ok)


definition demo_types :: entity_types where
  "demo_types i = (if i = 0
     then \<lparr>et_table = ''users'', et_primary_key = ''id'', et_generated = True,
       et_columns = [(''id'', TInt True 64), (''name'', TString)], et_relations = [], et_queues = 0\<rparr>
     else \<lparr>et_table = ''posts'', et_primary_key = ''id'', et_generated = True,
       et_columns = [(''id'', TInt True 64), (''user_id'', TInt True 64), (''title'', TString)], et_relations = [], et_queues = 0\<rparr>)"

definition demo_relation :: relation_meta where
  "demo_relation = \<lparr>rm_kind = HasMany, rm_target = 1, rm_local_key = ''id'', rm_foreign_key = ''user_id'', rm_target_key = [],
     rm_pivot = [], rm_pivot_root = [], rm_pivot_target = [], rm_pivot_defaults = [], rm_type_field = [], rm_id_field = [],
     rm_type_value = [], rm_cases = [], rm_cascade_persist = False, rm_cascade_remove = False\<rparr>"

text \<open>Users with some name who have a post with some title, and the union with the user of a certain number.\<close>

definition demo_union :: "select_state result" where
  "demo_union = add_set_operation demo_types 0 SetUnion
     (compile_subquery demo_types 0 (where_column 0 ''id'' OpEq (VInt 7) new_select)) 2
     (sel_where (like (InField \<lparr>cr_owner = 0, cr_column = ''name''\<rparr>) ''a%'') new_select)"

definition demo_query :: filtered_query where
  "demo_query = where_relation demo_types demo_relation
     (op_eq (InField \<lparr>cr_owner = 1, cr_column = ''title''\<rparr>) (InValue (VString ''t''))) (filtered (projr demo_union))"

lemma demo_query_ok: "filtered_ok fam demo_query"
proof -
  obtain s where u: "demo_union = Inr s"
    by (simp add: demo_union_def add_set_operation_def projection_arity_def sel_where_def new_select_def demo_types_def)
  have "select_ok fam s"
    by (rule select_ok_builder_throwing(5) [OF _ _ u [unfolded demo_union_def]]) simp_all
  then show ?thesis by (simp add: demo_query_def u)
qed


end
