(* ===== verification/Typed_Queries.thy ===== *)
theory Typed_Queries
  imports Select_Properties
begin

section \<open>Queries that respect their scope compile\<close>

text \<open>
  The C++ type of a query carries its scope, the root and the entities joined so far, and every function of
  the builder refuses at compile time an expression over another entity. The compilation checks the scope
  again at run time and throws; here: a query the types accept never reaches these checks.
\<close>

subsection \<open>The number of arguments decides whether a call compiles\<close>

definition alike :: "'a result \<Rightarrow> 'b result \<Rightarrow> bool" where
  "alike r r' \<longleftrightarrow> isl r = isl r'"

definition alike_opt :: "'a result option \<Rightarrow> 'b result option \<Rightarrow> bool" where
  "alike_opt r r' \<longleftrightarrow> rel_option alike r r'"

named_theorems alike_intros \<open>calls whose outcome depends on the number of arguments\<close>

lemma alike_base [alike_intros]:
  "alike (Inl e) (Inl e')" "alike (Inr x) (Inr y)"
  by (simp_all add: alike_def)

lemma alike_args [alike_intros]:
  assumes "length a = length b"
  shows "alike (no_arg m q a) (no_arg m q b)" "alike (one_arg m f a) (one_arg m f b)" "alike (two_args m g a) (two_args m g b)"
    "alike (pg_none n s a) (pg_none n s b)" "alike (pg_one n f a) (pg_one n f b)" "alike (pg_two n g a) (pg_two n g b)"
  using assms
  by (auto simp: alike_def no_arg_def one_arg_def two_args_def pg_none_def pg_one_def pg_two_def Suc_length_conv
      split: list.splits)

lemma alike_opt_intros [alike_intros]:
  "alike_opt None None"
  "alike r r' \<Longrightarrow> alike_opt (Some r) (Some r')"
  "(b \<Longrightarrow> alike_opt x x') \<Longrightarrow> (\<not> b \<Longrightarrow> alike_opt y y') \<Longrightarrow> alike_opt (if b then x else y) (if b then x' else y')"
  "alike_opt u u' \<Longrightarrow> alike_opt v v' \<Longrightarrow> alike_opt (first_of u v) (first_of u' v')"
  by (auto simp: alike_opt_def first_of_def split: option.splits)

lemma alike_result: "alike_opt u u' \<Longrightarrow> alike (case u of Some r \<Rightarrow> r | None \<Rightarrow> Inr x) (case u' of Some r \<Rightarrow> r | None \<Rightarrow> Inr y)"
  by (auto simp: alike_opt_def alike_def elim: option.rel_cases)

lemma Nil_length: "length a = length b \<Longrightarrow> a = [] \<longleftrightarrow> b = []"
  by auto

lemma alike_lists:
  assumes "length a = length b"
  shows "alike (pg_group_concat a) (pg_group_concat b)" "alike (pg_unix_timestamp a) (pg_unix_timestamp b)"
    "alike (sqlite_unix_timestamp a) (sqlite_unix_timestamp b)"
    "alike (sqlite_date_shift n a) (sqlite_date_shift n b)" "alike (pg_date_shift n a) (pg_date_shift n b)"
    "alike (sqlite_date_trunc n a) (sqlite_date_trunc n b)" "alike (sqlite_extract n a) (sqlite_extract n b)"
  using assms
  by (auto simp: alike_def pg_group_concat_def pg_unix_timestamp_def sqlite_unix_timestamp_def sqlite_date_shift_def
      pg_date_shift_def sqlite_date_trunc_def sqlite_extract_def two_args_def pg_two_def Let_def Suc_length_conv
      split: list.splits option.splits)

lemma postgres_alike:
  assumes l: "length a = length b"
  shows "alike (postgres_function f a) (postgres_function f b)"
proof -
  have "alike_opt (pg_text_function n a) (pg_text_function n b)" for n
    unfolding pg_text_function_def by (intro alike_intros alike_lists l)
  moreover have "alike_opt (pg_date_function n a) (pg_date_function n b)" for n
    unfolding pg_date_function_def
    by (cases "map_of pg_extract_parts n"; simp only: option.case) (intro alike_intros alike_lists l)+
  moreover have "alike_opt (pg_json_function n a) (pg_json_function n b)" for n
    unfolding pg_json_function_def by (intro alike_intros l)
  moreover have "alike_opt (map_option (\<lambda>s. pg_none n s a) t) (map_option (\<lambda>s. pg_none n s b) t)" for n t
    by (cases t; simp only: option.map) (intro alike_intros l)+
  ultimately show ?thesis
    unfolding postgres_function_def Let_def by (intro alike_result alike_opt_intros(4))
qed

lemma sqlite_alike:
  assumes l: "length a = length b"
  shows "alike (sqlite_function f a) (sqlite_function f b)"
proof -
  have "alike_opt (sqlite_text_function n a) (sqlite_text_function n b)" for n
    unfolding sqlite_text_function_def by (intro alike_intros alike_lists l)
  moreover have "alike_opt (sqlite_number_function n a) (sqlite_number_function n b)" for n
    unfolding sqlite_number_function_def by (intro alike_intros alike_lists l)
  moreover have "alike_opt (sqlite_date_function n a) (sqlite_date_function n b)" for n
    unfolding sqlite_date_function_def
    by (cases "map_of date_parts n"; simp only: option.case) (intro alike_intros alike_lists l)+
  moreover have "alike_opt (sqlite_json_function n a) (sqlite_json_function n b)" for n
  proof -
    have "alike (if a = [] \<or> 2 < length a then Inl e else Inr x) (if b = [] \<or> 2 < length b then Inl e else Inr y)" for e x y
      using l by (auto simp: alike_def)
    then show ?thesis unfolding sqlite_json_function_def by (intro alike_intros l)
  qed
  moreover have "alike_opt (map_option (\<lambda>s. Inr (lit s)) t) (map_option (\<lambda>s. Inr (lit s)) t)" for t
    by (cases t; simp only: option.map) (intro alike_intros)+
  ultimately show ?thesis
    unfolding sqlite_function_def Let_def by (intro alike_result alike_opt_intros(4))
qed

text \<open>The call is written for this many arguments.\<close>

definition call_ok :: "dialect_family \<Rightarrow> string \<Rightarrow> nat \<Rightarrow> bool" where
  "call_ok fam f n \<longleftrightarrow> \<not> isl (validate_function_identifier f) \<and>
     (if fam = PostgreSQL then \<not> isl (postgres_function f (replicate n []))
      else if upper_ascii f = ''TRUNCATE'' then n = 2
      else \<not> isl (sqlite_function f (replicate n [])))"

subsection \<open>Scopes\<close>

definition compiles :: "dialect_family \<Rightarrow> subquery \<Rightarrow> bool" where
  "compiles fam sub \<longleftrightarrow> (\<forall>d k. d_family d = fam \<longrightarrow> \<not> isl (sub d k))"

definition in_scope :: "type_index list \<Rightarrow> column_ref \<Rightarrow> bool" where
  "in_scope S r \<longleftrightarrow> cr_owner r \<in> set S"

fun scoped_scalar :: "dialect_family \<Rightarrow> type_index list \<Rightarrow> scalar \<Rightarrow> bool"
  and scoped_expr :: "dialect_family \<Rightarrow> type_index list \<Rightarrow> expr \<Rightarrow> bool"
where
  "scoped_scalar fam S (SColumn r) \<longleftrightarrow> in_scope S r"
| "scoped_scalar fam S (SValue v) \<longleftrightarrow> True"
| "scoped_scalar fam S (SArithmetic l op r) \<longleftrightarrow> scoped_scalar fam S l \<and> scoped_scalar fam S r"
| "scoped_scalar fam S (SAggregate a) \<longleftrightarrow> pred_option (in_scope S) (ag_column a)"
| "scoped_scalar fam S (SFunction f args) \<longleftrightarrow> call_ok fam f (length args) \<and> list_all (scoped_scalar fam S) args"
| "scoped_scalar fam S (SCase bs els) \<longleftrightarrow> bs \<noteq> [] \<and>
     list_all (\<lambda>b. scoped_expr fam S (fst b) \<and> scoped_scalar fam S (snd b)) bs \<and>
     (case els of None \<Rightarrow> True | Some s \<Rightarrow> scoped_scalar fam S s)"
| "scoped_scalar fam S (SWindow f args ps os) \<longleftrightarrow> \<not> isl (validate_function_identifier f) \<and>
     list_all (scoped_scalar fam S) args \<and> list_all (in_scope S) ps \<and> list_all (\<lambda>p. in_scope S (fst p)) os"
| "scoped_expr fam S (EComparison l op r) \<longleftrightarrow> scoped_scalar fam S l \<and> scoped_scalar fam S r"
| "scoped_expr fam S (ENullCheck s n) \<longleftrightarrow> scoped_scalar fam S s"
| "scoped_expr fam S (ELike s p n) \<longleftrightarrow> scoped_scalar fam S s \<and> scoped_scalar fam S p"
| "scoped_expr fam S (EBetween s l u n) \<longleftrightarrow> scoped_scalar fam S s \<and> scoped_scalar fam S l \<and> scoped_scalar fam S u"
| "scoped_expr fam S (EInValues s vs n) \<longleftrightarrow> scoped_scalar fam S s"
| "scoped_expr fam S (EInSubquery s sub n) \<longleftrightarrow> scoped_scalar fam S s \<and> compiles fam sub"
| "scoped_expr fam S (EExists sub n) \<longleftrightarrow> compiles fam sub"
| "scoped_expr fam S (ELogical op l r) \<longleftrightarrow> scoped_expr fam S l \<and> scoped_expr fam S r"
| "scoped_expr fam S (ENot e) \<longleftrightarrow> scoped_expr fam S e"

lemma scoped_mono:
  "scoped_scalar fam S s \<Longrightarrow> set S \<subseteq> set S' \<Longrightarrow> scoped_scalar fam S' s"
  "scoped_expr fam S e \<Longrightarrow> set S \<subseteq> set S' \<Longrightarrow> scoped_expr fam S' e"
  by (induction fam S s and fam S e rule: scoped_scalar_scoped_expr.induct)
    (auto simp: in_scope_def list_all_iff option.pred_set split: option.splits)

subsection \<open>Steps that do not throw\<close>

definition runs :: "('s, 'a) action \<Rightarrow> bool" where
  "runs m \<longleftrightarrow> (\<forall>s. \<not> isl (fst (m s)))"

named_theorems runs_intros \<open>steps that do not throw\<close>

lemma runs_return [runs_intros]: "runs (act_return x)"
  by (simp add: runs_def)

lemma runs_bind [runs_intros]: "runs m \<Longrightarrow> (\<And>x. runs (f x)) \<Longrightarrow> runs (act_bind m f)"
  by (auto simp: runs_def act_bind_def split: prod.split sum.split) (metis fst_conv isl_def)

lemma runs_lift [runs_intros]: "\<not> isl r \<Longrightarrow> runs (act_lift r)"
  by (simp add: runs_def)

lemma runs_push [runs_intros]: "runs (push_param c v)"
  by (simp add: runs_def push_param_def)

lemma runs_pushes [runs_intros]: "runs (push_params c vs)"
  by (induction vs) (auto intro!: runs_intros simp del: act_simps)

lemma runs_map: "(\<And>x. x \<in> set xs \<Longrightarrow> runs (f x)) \<Longrightarrow> runs (act_map f xs)"
  by (induction xs) (auto intro!: runs_intros)

lemma runs_nested: "compiles (d_family (cx_dialect c)) sub \<Longrightarrow> runs (compile_nested c sub)"
  by (auto simp: runs_def compile_nested_def compiles_def split: sum.split) (metis sum.disc(1))

lemma rbind_runs: "\<not> isl m \<Longrightarrow> (\<And>x. \<not> isl (f x)) \<Longrightarrow> \<not> isl (rbind m f)"
  by (cases m) auto

lemma rmap_list_runs: "(\<And>x. x \<in> set xs \<Longrightarrow> \<not> isl (f x)) \<Longrightarrow> \<not> isl (rmap_list f xs)"
proof (induction xs)
  case (Cons x xs)
  then show ?case unfolding rmap_list.simps by (intro rbind_runs) auto
qed simp

definition covers :: "compile_context \<Rightarrow> type_index list \<Rightarrow> bool" where
  "covers c S \<longleftrightarrow> (\<forall>i \<in> set S. alookup (cx_aliases c) i \<noteq> None)"

lemma column_runs: "covers c S \<Longrightarrow> in_scope S r \<Longrightarrow> \<not> isl (compile_column c r)"
  by (auto simp: compile_column_def alias_for_def covers_def in_scope_def split: option.split intro!: rbind_runs)

lemma order_runs: "covers c S \<Longrightarrow> in_scope S (fst p) \<Longrightarrow> \<not> isl (compile_window_order c p)"
  unfolding compile_window_order_def by (intro rbind_runs) (auto dest: column_runs)

lemma aggregate_runs: "covers c S \<Longrightarrow> pred_option (in_scope S) (ag_column a) \<Longrightarrow> \<not> isl (compile_aggregate c a)"
  unfolding compile_aggregate_def by (intro rbind_runs) (auto dest: column_runs split: option.split)

lemma over_runs:
  assumes "covers c S" "list_all (in_scope S) ps" "list_all (\<lambda>p. in_scope S (fst p)) os"
  shows "\<not> isl (compile_over c f qs ps os)"
  unfolding compile_over_def using assms
  by (intro rbind_runs rmap_list_runs) (auto simp: list_all_iff dest: column_runs order_runs)

lemma call_runs:
  assumes "call_ok fam f (length args)" and "length qs = length args"
  shows "\<not> isl (validate_function_identifier f)"
    and "fam = PostgreSQL \<Longrightarrow> \<not> isl (postgres_function f qs)"
    and "fam \<noteq> PostgreSQL \<Longrightarrow> upper_ascii f \<noteq> ''TRUNCATE'' \<Longrightarrow> \<not> isl (sqlite_function f qs)"
  using assms postgres_alike [of qs "replicate (length args) []" f] sqlite_alike [of qs "replicate (length args) []" f]
  by (auto simp: call_ok_def alike_def numeral_2_eq_2 length_Suc_conv split: if_splits)

lemma runs_then:
  assumes "runs m" "\<And>s x s'. m s = (Inr x, s') \<Longrightarrow> \<not> isl (fst (f x s'))"
  shows "runs (act_bind m f)"
  using assms by (auto simp: runs_def act_bind_def split: prod.split sum.split) (metis fst_conv isl_def)

text \<open>An expression over the scope compiles.\<close>

lemma scoped_runs:
  "covers c S \<Longrightarrow> scoped_scalar (d_family (cx_dialect c)) S s \<Longrightarrow> runs (compile_scalar c s)"
  "covers c S \<Longrightarrow> scoped_expr (d_family (cx_dialect c)) S e \<Longrightarrow> runs (compile_expression c e)"
  "covers c S \<Longrightarrow> list_all (scoped_scalar (d_family (cx_dialect c)) S) ss \<Longrightarrow> runs (compile_scalars c ss)"
  "covers c S \<Longrightarrow> list_all (\<lambda>b. scoped_expr (d_family (cx_dialect c)) S (fst b) \<and> scoped_scalar (d_family (cx_dialect c)) S (snd b)) bs \<Longrightarrow>
     runs (compile_branches c bs)"
  "covers c S \<Longrightarrow> (case els of None \<Rightarrow> True | Some s \<Rightarrow> scoped_scalar (d_family (cx_dialect c)) S s) \<Longrightarrow> runs (compile_else c els)"
proof (induction c s and c e and c ss and c bs and c els rule: compile_induct)
  case (5 c f args)
  let ?fam = "d_family (cx_dialect c)"
  have ok: "call_ok ?fam f (length args)" and args: "list_all (scoped_scalar ?fam S) args" using "5.prems" by auto
  note call = call_runs [OF ok]
  have valid: "\<not> isl (validate_function_identifier f)" using ok by (simp add: call_ok_def)
  consider (pg) "?fam = PostgreSQL" | (trunc) "?fam \<noteq> PostgreSQL" "upper_ascii f = ''TRUNCATE''"
    | (other) "?fam \<noteq> PostgreSQL" "upper_ascii f \<noteq> ''TRUNCATE''" by blast
  then show ?case
  proof cases
    case pg
    with "5.IH"(1) "5.prems" args have "runs (compile_scalars c args)" by simp
    then have "runs (act_bind (compile_scalars c args) (\<lambda>qs. act_lift (postgres_function f qs)))"
      using call(2) [OF compile_scalars_length pg] by (auto intro: runs_then)
    with pg valid show ?thesis by (simp add: runs_bind runs_lift)
  next
    case other
    with "5.IH"(5) "5.prems" args have "runs (compile_scalars c args)" by simp
    then have "runs (act_bind (compile_scalars c args) (\<lambda>qs. act_lift (sqlite_function f qs)))"
      using call(3) [OF compile_scalars_length other] by (auto intro: runs_then)
    with other valid show ?thesis by (simp add: runs_bind runs_lift)
  next
    case trunc
    with ok have "length args = 2" by (simp add: call_ok_def)
    then obtain v w where two: "args = [v, w]" by (auto simp: numeral_2_eq_2 length_Suc_conv)
    with "5.IH"(2-4) "5.prems" args trunc have "runs (compile_scalar c v)" "runs (compile_scalar c w)" by simp_all
    with trunc two valid show ?thesis by (auto intro!: runs_intros)
  qed
next
  case (7 c f args parts orders)
  then have "\<not> isl (compile_over c f qs parts orders)" for qs
    using over_runs [of c S parts orders f qs] by auto
  with 7 show ?case by (auto intro!: runs_intros)
qed (auto intro!: runs_intros runs_nested simp: column_runs aggregate_runs)

subsection \<open>The types of the builder\<close>

text \<open>
  \<open>typed_query fam T root S q\<close>: the query \<open>q\<close> over \<open>root\<close> can be written with the scope \<open>S\<close>, by the constraints of
  the member functions of \<open>BasicSelectQuery<Root, Scope...>\<close>.
\<close>

inductive typed_query :: "dialect_family \<Rightarrow> entity_types \<Rightarrow> type_index \<Rightarrow> type_index list \<Rightarrow> select_state \<Rightarrow> bool"
  for fam T root
where
  typed_new: "typed_query fam T root [root] new_select"
| typed_distinct: "typed_query fam T root S q \<Longrightarrow> typed_query fam T root S (sel_distinct b q)"
| typed_where: "typed_query fam T root S q \<Longrightarrow> scoped_expr fam S e \<Longrightarrow> typed_query fam T root S (sel_where e q)"
| typed_having: "typed_query fam T root S q \<Longrightarrow> scoped_expr fam S e \<Longrightarrow> typed_query fam T root S (sel_having e q)"
| typed_group_by: "typed_query fam T root S q \<Longrightarrow> in_scope S f \<Longrightarrow> typed_query fam T root S (sel_group_by f q)"
| typed_order_by: "typed_query fam T root S q \<Longrightarrow> in_scope S f \<Longrightarrow> typed_query fam T root S (sel_order_by f asc q)"
| typed_limit: "typed_query fam T root S q \<Longrightarrow> typed_query fam T root S (sel_limit n q)"
| typed_offset: "typed_query fam T root S q \<Longrightarrow> typed_query fam T root S (sel_offset n q)"
| typed_without: "typed_query fam T root S q \<Longrightarrow> typed_query fam T root S (without_pagination q)"
| typed_clear: "typed_query fam T root S q \<Longrightarrow> typed_query fam T root S (clear_projection q)"
| typed_field: "typed_query fam T root S q \<Longrightarrow> in_scope S f \<Longrightarrow> typed_query fam T root S (project_field f q)"
| typed_field_as: "typed_query fam T root S q \<Longrightarrow> in_scope S f \<Longrightarrow> typed_query fam T root S (project_field_as f a q)"
| typed_term: "typed_query fam T root S q \<Longrightarrow> scoped_scalar fam S (tm_node t) \<Longrightarrow> typed_query fam T root S (project_term t q)"
| typed_window: "typed_query fam T root S q \<Longrightarrow> scoped_scalar fam S (window_node w) \<Longrightarrow> typed_query fam T root S (project_window w q)"
| typed_column: "typed_query fam T root S q \<Longrightarrow> typed_query fam T root S (where_column root c op v q)"
| typed_join: "typed_query fam T root S q \<Longrightarrow> owner \<in> set S \<Longrightarrow> rm_target m \<notin> set S \<Longrightarrow>
    typed_query fam T root (S @ [rm_target m]) (sel_join T owner m left q)"
| typed_from: "typed_query fam T root S q \<Longrightarrow> sel_from n q = Inr q' \<Longrightarrow> typed_query fam T root S q'"
| typed_join_cte: "typed_query fam T root S q \<Longrightarrow> in_scope S f \<Longrightarrow> join_cte f n c left q = Inr q' \<Longrightarrow> typed_query fam T root S q'"
| typed_derived: "typed_query fam T root S q \<Longrightarrow> compiles fam sub \<Longrightarrow> from_subquery sub a n cs q = Inr q' \<Longrightarrow>
    typed_query fam T root S q'"
| typed_cte: "typed_query fam T root S q \<Longrightarrow> compiles fam sub \<Longrightarrow> add_cte n sub a cs r q = Inr q' \<Longrightarrow> typed_query fam T root S q'"
| typed_set: "typed_query fam T root S q \<Longrightarrow> compiles fam sub \<Longrightarrow> add_set_operation T root kind sub a q = Inr q' \<Longrightarrow>
    typed_query fam T root S q'"

text \<open>What a typed query is made of: the joins lead from entity to entity, everything else is in the final scope.\<close>

fun joins_ok :: "type_index list \<Rightarrow> join_spec list \<Rightarrow> bool" where
  "joins_ok S [] \<longleftrightarrow> True"
| "joins_ok S (j # js) \<longleftrightarrow> js_owner j \<in> set S \<and> joins_ok (S @ [js_target j]) js"

lemma joins_ok_snoc: "joins_ok S (js @ [j]) \<longleftrightarrow> joins_ok S js \<and> js_owner j \<in> set S \<union> js_target ` set js"
  by (induction S js rule: joins_ok.induct) auto

definition scoped_query :: "dialect_family \<Rightarrow> type_index \<Rightarrow> type_index list \<Rightarrow> select_state \<Rightarrow> bool" where
  "scoped_query fam root S q \<longleftrightarrow> set S = insert root (js_target ` set (se_joins q)) \<and> joins_ok [root] (se_joins q) \<and>
     list_all (\<lambda>p. scoped_scalar fam S (pj_expression p)) (se_projections q) \<and>
     pred_option (scoped_expr fam S) (se_where q) \<and> pred_option (scoped_expr fam S) (se_having q) \<and>
     list_all (in_scope S) (se_group_by q) \<and> list_all (\<lambda>p. in_scope S (fst p)) (se_order_by q) \<and>
     list_all (\<lambda>j. in_scope S (cj_owner j)) (se_cte_joins q) \<and>
     list_all (\<lambda>c. compiles fam (ct_compile c)) (se_ctes q) \<and>
     list_all (\<lambda>s. compiles fam (so_compile s)) (se_set_operations q) \<and>
     pred_option (\<lambda>s. compiles fam (ds_compile s)) (se_derived q)"

lemma scoped_query_join:
  assumes "scoped_query fam root S q" "owner \<in> set S"
  shows "scoped_query fam root (S @ [rm_target m]) (sel_join T owner m left q)"
proof -
  have mono: "scoped_scalar fam (S @ [t]) s" if "scoped_scalar fam S s" for s t
    by (rule scoped_mono(1) [OF that]) auto
  have mono': "scoped_expr fam (S @ [t]) e" if "scoped_expr fam S e" for e t
    by (rule scoped_mono(2) [OF that]) auto
  from assms show ?thesis
    by (auto simp: scoped_query_def sel_join_def make_join_spec_def Let_def joins_ok_snoc in_scope_def list_all_iff
        option.pred_set intro: mono mono')
qed

lemmas builder_defs = new_select_def sel_distinct_def sel_where_def sel_having_def sel_group_by_def
  sel_order_by_def sel_limit_def sel_offset_def without_pagination_def clear_projection_def project_field_def
  project_field_as_def project_term_def project_window_def where_column_def sel_from_def join_cte_def
  from_subquery_def add_cte_def add_set_operation_def

lemma typed_scoped: "typed_query fam T root S q \<Longrightarrow> scoped_query fam root S q"
proof (induction rule: typed_query.induct)
  case (typed_join S q owner m left)
  then show ?case by (intro scoped_query_join)
next
  case (typed_column S q c op v)
  then show ?case by (auto simp: scoped_query_def builder_defs in_scope_def)
qed (auto simp: scoped_query_def builder_defs split: if_splits)

subsection \<open>Their compilation\<close>

lemma join_loop_runs:
  assumes "joins_ok S js" "\<forall>i \<in> set S. alookup al i \<noteq> None"
  shows "\<exists>al' n' p' out'. join_loop d root corr js (al, n, p, out) = Inr (al', n', p', out') \<and>
    (\<forall>i \<in> set S \<union> js_target ` set js. alookup al' i \<noteq> None)"
  using assms
proof (induction js arbitrary: S al n p out)
  case (Cons j js)
  let ?target = "(if corr then root @ ''_j'' else ''t'') @ show_nat n"
  let ?al = "emplace (js_target j) ?target al"
  from Cons.prems obtain owner where owner: "alookup al (js_owner j) = Some owner" by auto
  then obtain p1 out1 where step: "join_step d root corr j (al, n, p, out) = Inr (?al, n + 1, p1, out1)"
    by (cases "js_relation j = ManyToMany") (simp_all add: join_step_def Let_def)
  have "joins_ok (S @ [js_target j]) js" "\<forall>i \<in> set (S @ [js_target j]). alookup ?al i \<noteq> None"
    using Cons.prems by (auto simp: emplace_def)
  from Cons.IH [OF this, of "n + 1" p1 out1] show ?case
    by (auto simp: step)
qed simp

lemma clauses_run:
  assumes "covers c S"
  shows "list_all (\<lambda>j. in_scope S (cj_owner j)) js \<Longrightarrow> \<not> isl (rmap_list (compile_cte_join c) js)"
    "list_all (in_scope S) fs \<Longrightarrow> \<not> isl (group_by_clause c fs)"
    "list_all (\<lambda>p. in_scope S (fst p)) os \<Longrightarrow> \<not> isl (order_by_clause c os)"
proof -
  have join: "\<not> isl (compile_cte_join c j)" if "in_scope S (cj_owner j)" for j
    unfolding compile_cte_join_def by (intro rbind_runs) (simp_all add: column_runs [OF assms that])
  show "list_all (\<lambda>j. in_scope S (cj_owner j)) js \<Longrightarrow> \<not> isl (rmap_list (compile_cte_join c) js)"
    by (intro rmap_list_runs join) (simp add: list_all_iff)
  show "list_all (in_scope S) fs \<Longrightarrow> \<not> isl (group_by_clause c fs)"
    using rmap_list_runs [of fs "compile_column c"] column_runs [OF assms]
    by (cases "fs = []") (simp_all add: group_by_clause_def list_all_iff rbind_runs)
  show "list_all (\<lambda>p. in_scope S (fst p)) os \<Longrightarrow> \<not> isl (order_by_clause c os)"
    using rmap_list_runs [of os "compile_window_order c"] order_runs [OF assms]
    by (cases "os = []") (simp_all add: order_by_clause_def list_all_iff rbind_runs)
qed

lemma act_lift_Inr [simp]: "act_lift (Inr x) = act_return x"
  by (rule ext) simp

lemma body_runs:
  assumes q: "scoped_query (d_family (cx_dialect c)) root S q" and c: "covers c S" and x: "extra = None"
  shows "runs (compile_body T root q terminate extra alias c joins)"
proof -
  let ?fam = "d_family (cx_dialect c)"
  have "\<not> isl (rmap_list (compile_cte_join c) (se_cte_joins q))" "\<not> isl (group_by_clause c (se_group_by q))"
    "\<not> isl (order_by_clause c (se_order_by q))"
    using q clauses_run [OF c] by (simp_all add: scoped_query_def)
  moreover have "runs (append_projection_sql T root q c alias)"
    using q c unfolding append_projection_sql_def
    by (auto simp: scoped_query_def list_all_iff compile_projection_def intro!: runs_intros runs_map scoped_runs(1))
  moreover have "runs (compile_from_source T root q c alias)"
    using q unfolding compile_from_source_def
    by (auto simp: scoped_query_def intro!: runs_intros runs_nested split: option.split)
  moreover have "runs (compile_optional (map_option (compile_expression c) (se_where q)))"
    using q c unfolding compile_optional_def
    by (auto simp: scoped_query_def intro!: runs_intros scoped_runs(2) split: option.split)
  moreover have "runs (having_clause c (se_having q))"
    using q c unfolding having_clause_def
    by (auto simp: scoped_query_def intro!: runs_intros scoped_runs(2) split: option.split)
  moreover have "runs (act_map (compile_set_operation c) (se_set_operations q))"
    using q by (auto simp: scoped_query_def list_all_iff compile_set_operation_def intro!: runs_intros runs_map runs_nested)
  moreover have "runs (compile_extra_where c extra alias)"
    by (simp add: x runs_def compile_extra_where_def)
  ultimately show ?thesis unfolding compile_body_def by (intro runs_intros)
qed

lemma select_runs:
  assumes q: "scoped_query (d_family d) root S q"
  shows "runs (compile_select T root q terminate None override d k)"
proof -
  have ctes: "runs (compile_ctes d k (se_ctes q))"
    using q unfolding compile_ctes_def
    by (auto simp: scoped_query_def list_all_iff compile_cte_def intro!: runs_intros runs_map runs_nested)
  let ?root_name = "root_alias q (None \<noteq> (None :: extra_where option)) override"
  obtain al n p out where loop: "join_loop d ?root_name (override \<noteq> []) (se_joins q) ([(root, ?root_name)], 1, 0, []) = Inr (al, n, p, out)"
    and al: "\<forall>i \<in> set [root] \<union> js_target ` set (se_joins q). alookup al i \<noteq> None"
    using q join_loop_runs [of "[root]" "se_joins q" "[(root, ?root_name)]" d ?root_name "override \<noteq> []" 1 0 "[]"]
    by (auto simp: scoped_query_def alookup_def)
  have "covers (context_of d k al) S" using q al by (auto simp: covers_def scoped_query_def)
  then have "runs (compile_body T root q terminate None ?root_name (context_of d k al) out)"
    using q by (intro body_runs) simp_all
  with ctes loop show ?thesis unfolding compile_select_def Let_def by (auto intro!: runs_intros)
qed

text \<open>A typed query compiles wherever it is nested, so it may be nested in typed queries.\<close>

lemma typed_compiles:
  assumes "typed_query fam T root S q"
  shows "compiles fam (compile_subquery T root q)"
proof -
  have "runs (compile_select T root q False None [] d k)" if "d_family d = fam" for d k
    using select_runs typed_scoped [OF assms] that by blast
  then show ?thesis
    by (auto simp: compiles_def compile_subquery_def compiled_def runs_def split: prod.split sum.split) (metis fst_conv sum.disc(1))
qed


definition demo_joined :: select_state where
  "demo_joined = sel_where (op_eq (InField \<lparr>cr_owner = 1, cr_column = ''title''\<rparr>) (InValue (VString ''t'')))
     (sel_join demo_types 0 demo_relation True new_select)"

lemma demo_joined_typed: "typed_query fam demo_types 0 [0, 1] demo_joined"
proof -
  have "typed_query fam demo_types 0 ([0] @ [rm_target demo_relation]) (sel_join demo_types 0 demo_relation True new_select)"
    by (rule typed_join [OF typed_new]) (simp_all add: demo_relation_def)
  then show ?thesis
    unfolding demo_joined_def by (intro typed_where) (simp_all add: demo_relation_def condition_defs in_scope_def)
qed


end
