(* ===== verification/Cursors.thy ===== *)
theory Cursors
  imports Dialects
begin

section \<open>Cursors (include/metal/query/pagination.hpp)\<close>

text \<open>
  A cursor is the text of the values of the ORDER BY columns of one row, in base64url. It goes to the client
  and comes back, so decoding takes any text: it ends in values or in one of the exceptions, those of
  \<open>std::stoull\<close> and \<open>std::stoll\<close> included. The buffer of the base64 loops is \<open>std::uint32_t\<close>; positions in
  the payload are \<open>std::size_t\<close>, whose additions wrap. How a double is printed with 17 digits and read by
  \<open>std::stod\<close>, and how many values a vector has room for, are parameters.
\<close>

unbundle bit_operations_syntax

type_synonym u32 = "32 word"

definition invalid_cursor :: "string \<Rightarrow> exn" where
  "invalid_cursor what = Invalid_argument (''MetalORM: invalid cursor '' @ what)"

subsection \<open>base64url\<close>

definition base64url_alphabet :: string where
  "base64url_alphabet = ''ABCDEFGHIJKLMNOPQRSTUVWXYZabcdefghijklmnopqrstuvwxyz0123456789-_''"

text \<open>The inner loop: characters as long as there are six bits, and the bits left over.\<close>

fun base64_drain :: "u32 \<Rightarrow> nat \<Rightarrow> string \<times> nat" where
  "base64_drain buffer bits =
     (if bits < 6 then ([], bits)
      else case base64_drain buffer (bits - 6) of (out, rest) \<Rightarrow>
        (base64url_alphabet ! unat (drop_bit (bits - 6) buffer AND 0x3f) # out, rest))"

declare base64_drain.simps [simp del]

fun base64_encode_loop :: "u32 \<Rightarrow> nat \<Rightarrow> string \<Rightarrow> string" where
  "base64_encode_loop buffer bits [] =
     (if bits > 0 then [base64url_alphabet ! unat (push_bit (6 - bits) buffer AND 0x3f)] else [])"
| "base64_encode_loop buffer bits (c # cs) =
     (let buffer' = push_bit 8 buffer OR of_char c in
      case base64_drain buffer' (bits + 8) of (out, bits') \<Rightarrow> out @ base64_encode_loop buffer' bits' cs)"

definition base64url_encode :: "string \<Rightarrow> string" where
  "base64url_encode s = base64_encode_loop 0 0 s"

text \<open>The value of a character; the code returns \<open>-1\<close> for one outside the alphabet.\<close>

definition base64url_value :: "char \<Rightarrow> nat option" where
  "base64url_value c = (let n = (of_char c :: nat) in
     if 65 \<le> n \<and> n \<le> 90 then Some (n - 65)
     else if 97 \<le> n \<and> n \<le> 122 then Some (n - 97 + 26)
     else if 48 \<le> n \<and> n \<le> 57 then Some (n - 48 + 52)
     else if c = CHR ''-'' then Some 62
     else if c = CHR ''_'' then Some 63
     else None)"

fun base64_decode_loop :: "u32 \<Rightarrow> nat \<Rightarrow> string \<Rightarrow> string result" where
  "base64_decode_loop buffer bits [] = Inr []"
| "base64_decode_loop buffer bits (c # cs) =
     (case base64url_value c of
        None \<Rightarrow> Inl (invalid_cursor ''format'')
      | Some v \<Rightarrow>
          let buffer' = push_bit 6 buffer OR word_of_nat v in
          if bits + 6 \<ge> 8
          then rbind (base64_decode_loop buffer' (bits - 2) cs)
            (\<lambda>out. Inr (char_of (unat (drop_bit (bits - 2) buffer' AND 0xff)) # out))
          else base64_decode_loop buffer' (bits + 6) cs)"

definition base64url_decode :: "string \<Rightarrow> string result" where
  "base64url_decode s = base64_decode_loop 0 0 s"

subsection \<open>Decoding what was encoded\<close>

lemma base64url_values: "List.map base64url_value base64url_alphabet = List.map Some [0..<64]"
  by (simp add: base64url_alphabet_def base64url_value_def upt_rec)

lemma base64url_value_alphabet:
  assumes "i < 64"
  shows "base64url_value (base64url_alphabet ! i) = Some i"
proof -
  have "length base64url_alphabet = 64" using arg_cong [OF base64url_values, of length] by simp
  with assms arg_cong [OF base64url_values, of "\<lambda>xs. xs ! i"] show ?thesis by simp
qed


lemma mask_words: "(0x3f :: u32) = mask 6" "(0xff :: u32) = mask 8"
  by (simp_all add: mask_eq_exp_minus_1)

lemma mask_6_less: "unat (x AND 0x3f :: u32) < 64"
  using take_bit_nat_less_exp [of 6 "unat x"]
  by (simp add: mask_words flip: take_bit_eq_mask unsigned_take_bit_eq)

text \<open>A byte is a word without bits from the eighth on; what the decoder cuts out has no others.\<close>

definition byte :: "u32 \<Rightarrow> bool" where
  "byte a \<longleftrightarrow> (\<forall>n \<ge> 8. \<not> bit a n)"

lemma byteD: "byte a \<Longrightarrow> 8 \<le> n \<Longrightarrow> \<not> bit a n"
  by (simp add: byte_def)

lemma byte_of_char: "byte (of_char c)"
proof -
  have "(of_char c :: nat) = take_bit 8 (of_char c)" by (simp add: take_bit_nat_eq_self)
  then have "\<not> bit (of_char c :: nat) n" if "8 \<le> n" for n
    using that by (metis bit_take_bit_iff linorder_not_less)
  then show ?thesis
    by (simp add: byte_def bit_simps flip: of_nat_of_char [where ?'a = u32])
qed

lemma byte_eqI:
  assumes "byte a" "bit x 0 = bit a 0" "bit x 1 = bit a 1" "bit x 2 = bit a 2" "bit x 3 = bit a 3" "bit x 4 = bit a 4"
    "bit x 5 = bit a 5" "bit x 6 = bit a 6" "bit x 7 = bit a 7"
  shows "x AND 0xff = a"
proof (rule bit_word_eqI)
  fix n
  show "bit (x AND 0xff) n = bit a n"
  proof (cases "n < 8")
    case True
    then consider "n = 0" | "n = 1" | "n = 2" | "n = 3" | "n = 4" | "n = 5" | "n = 6" | "n = 7" by linarith
    then show ?thesis using assms by cases (simp_all add: mask_words bit_simps)
  next
    case False
    then show ?thesis using byteD [OF assms(1)] by (simp add: mask_words bit_simps)
  qed
qed

text \<open>The three bytes of a block, and the last one of an incomplete block.\<close>

lemma block_bytes:
  fixes B D a b c :: u32
  defines "b1 \<equiv> push_bit 8 B OR a"
  defines "b2 \<equiv> push_bit 8 b1 OR b"
  defines "b3 \<equiv> push_bit 8 b2 OR c"
  defines "d1 \<equiv> push_bit 6 D OR (drop_bit 2 b1 AND 0x3f)"
  defines "d2 \<equiv> push_bit 6 d1 OR (drop_bit 4 b2 AND 0x3f)"
  defines "d3 \<equiv> push_bit 6 d2 OR (drop_bit 6 b3 AND 0x3f)"
  defines "d4 \<equiv> push_bit 6 d3 OR (b3 AND 0x3f)"
  assumes "byte a" "byte b" "byte c"
  shows "drop_bit 4 d2 AND 0xff = a" "drop_bit 2 d3 AND 0xff = b" "d4 AND 0xff = c"
    "drop_bit 4 (push_bit 6 d1 OR (push_bit 4 b1 AND 0x3f)) AND 0xff = a"
    "drop_bit 2 (push_bit 6 d2 OR (push_bit 2 b2 AND 0x3f)) AND 0xff = b"
  using byteD [OF assms(8)] byteD [OF assms(9)] byteD [OF assms(10)] assms(8-10)
  unfolding b1_def b2_def b3_def d1_def d2_def d3_def d4_def
  by (intro byte_eqI; simp add: mask_words bit_simps; fail)+

lemma char_of_byte: "char_of (unat (of_char c :: u32)) = c"
proof -
  have "unat (of_char c :: u32) = unat (word_of_nat (of_char c) :: u32)" by (simp only: of_nat_of_char)
  moreover have "(of_char c :: nat) < 256" by (metis mod_less_divisor of_char_mod_256 zero_less_numeral)
  ultimately have "unat (of_char c :: u32) = of_char c" by (simp add: unat_of_nat)
  then show ?thesis by simp
qed

lemma drain_steps:
  "base64_drain w 8 = ([base64url_alphabet ! unat (drop_bit 2 w AND 0x3f)], 2)"
  "base64_drain w 10 = ([base64url_alphabet ! unat (drop_bit 4 w AND 0x3f)], 4)"
  "base64_drain w 12 = ([base64url_alphabet ! unat (drop_bit 6 w AND 0x3f), base64url_alphabet ! unat (w AND 0x3f)], 0)"
  by (simp_all add: base64_drain.simps)

lemma decode_step:
  "base64_decode_loop D bits (base64url_alphabet ! unat (w AND 0x3f) # cs) =
     (let D' = push_bit 6 D OR (w AND 0x3f) in
      if bits + 6 \<ge> 8
      then rbind (base64_decode_loop D' (bits - 2) cs) (\<lambda>out. Inr (char_of (unat (drop_bit (bits - 2) D' AND 0xff)) # out))
      else base64_decode_loop D' (bits + 6) cs)"
  by (simp add: base64url_value_alphabet mask_6_less)

text \<open>What the loops do with a block of three bytes and of four characters, with a rest of two or three.\<close>

lemma encode_block:
  fixes B :: u32
  defines "b1 a \<equiv> push_bit 8 B OR of_char a"
  defines "b2 a b \<equiv> push_bit 8 (b1 a) OR of_char b"
  defines "b3 a b c \<equiv> push_bit 8 (b2 a b) OR of_char c"
  shows "base64_encode_loop B 0 (a # b # c # s) =
      base64url_alphabet ! unat (drop_bit 2 (b1 a) AND 0x3f) # base64url_alphabet ! unat (drop_bit 4 (b2 a b) AND 0x3f) #
      base64url_alphabet ! unat (drop_bit 6 (b3 a b c) AND 0x3f) # base64url_alphabet ! unat (b3 a b c AND 0x3f) #
      base64_encode_loop (b3 a b c) 0 s"
    and "base64_encode_loop B 0 [a] =
      [base64url_alphabet ! unat (drop_bit 2 (b1 a) AND 0x3f), base64url_alphabet ! unat (push_bit 4 (b1 a) AND 0x3f)]"
    and "base64_encode_loop B 0 [a, b] =
      [base64url_alphabet ! unat (drop_bit 2 (b1 a) AND 0x3f), base64url_alphabet ! unat (drop_bit 4 (b2 a b) AND 0x3f),
       base64url_alphabet ! unat (push_bit 2 (b2 a b) AND 0x3f)]"
  by (simp_all add: b1_def b2_def b3_def drain_steps Let_def)

lemma decode_block:
  fixes D w x y z :: u32
  defines "d2 \<equiv> push_bit 6 (push_bit 6 D OR (w AND 0x3f)) OR (x AND 0x3f)"
  defines "d3 \<equiv> push_bit 6 d2 OR (y AND 0x3f)"
  defines "d4 \<equiv> push_bit 6 d3 OR (z AND 0x3f)"
  shows "base64_decode_loop D 0 (base64url_alphabet ! unat (w AND 0x3f) # base64url_alphabet ! unat (x AND 0x3f) #
      base64url_alphabet ! unat (y AND 0x3f) # base64url_alphabet ! unat (z AND 0x3f) # cs) =
      rbind (base64_decode_loop d4 0 cs) (\<lambda>out. Inr (char_of (unat (drop_bit 4 d2 AND 0xff)) #
        char_of (unat (drop_bit 2 d3 AND 0xff)) # char_of (unat (d4 AND 0xff)) # out))"
    and "base64_decode_loop D 0 [base64url_alphabet ! unat (w AND 0x3f), base64url_alphabet ! unat (x AND 0x3f)] =
      Inr [char_of (unat (drop_bit 4 d2 AND 0xff))]"
    and "base64_decode_loop D 0 [base64url_alphabet ! unat (w AND 0x3f), base64url_alphabet ! unat (x AND 0x3f),
      base64url_alphabet ! unat (y AND 0x3f)] = Inr [char_of (unat (drop_bit 4 d2 AND 0xff)), char_of (unat (drop_bit 2 d3 AND 0xff))]"
  by (cases "base64_decode_loop d4 0 cs")
    (simp_all add: d2_def d3_def d4_def decode_step Let_def del: base64_decode_loop.simps(2) push_bit_or drop_bit_or)

lemma base64_round_trip: "base64_decode_loop D 0 (base64_encode_loop B 0 s) = Inr s"
proof (induction s arbitrary: B D rule: measure_induct_rule [where f = length])
  case (less s)
  note blocks = encode_block decode_block block_bytes [OF byte_of_char byte_of_char byte_of_char] char_of_byte rbind_simps
  consider "s = []" | a where "s = [a]" | a b where "s = [a, b]" | a b c t where "s = a # b # c # t"
    by (metis list.exhaust)
  then show ?case
  proof cases
    case 4
    then have "base64_decode_loop E 0 (base64_encode_loop C 0 t) = Inr t" for E C by (intro less) simp
    with 4 show ?thesis by (simp only: blocks)
  qed (simp, simp_all only: blocks)
qed

lemma encoded_length: "length s \<le> length (base64_encode_loop B 0 s)"
proof (induction s arbitrary: B rule: measure_induct_rule [where f = length])
  case (less s)
  consider "s = []" | a where "s = [a]" | a b where "s = [a, b]" | a b c t where "s = a # b # c # t"
    by (metis list.exhaust)
  then show ?case
  proof cases
    case 4
    then have "length t \<le> length (base64_encode_loop C 0 t)" for C by (intro less) simp
    with 4 show ?thesis by (simp only: encode_block(1) list.size) (auto intro: le_SucI)
  qed (simp_all only: encode_block, simp_all)
qed

lemma encoded_length_upper: "length (base64_encode_loop B 0 s) \<le> 2 * length s"
proof (induction s arbitrary: B rule: measure_induct_rule [where f = length])
  case (less s)
  consider "s = []" | a where "s = [a]" | a b where "s = [a, b]" | a b c t where "s = a # b # c # t"
    by (metis list.exhaust)
  then show ?case
  proof cases
    case 4
    then have "length (base64_encode_loop C 0 t) \<le> 2 * length t" for C by (intro less) simp
    with 4 show ?thesis by (simp only: encode_block(1) list.size) (auto intro: le_SucI)
  qed (simp_all only: encode_block, simp_all)
qed

subsection \<open>Numbers in texts\<close>

text \<open>
  \<open>std::stoull\<close> and \<open>std::stoll\<close>: blanks, a sign and digits; what follows the digits is ignored, and \<open>stoull\<close>
  accepts a minus sign and negates modulo \<open>2 ^ 64\<close>.
\<close>

definition split_number :: "string \<Rightarrow> bool \<times> string" where
  "split_number s =
     (case dropWhile is_space s of
        [] \<Rightarrow> (False, [])
      | c # cs \<Rightarrow>
          if c = CHR ''-'' then (True, takeWhile is_digit cs)
          else if c = CHR ''+'' then (False, takeWhile is_digit cs)
          else (False, takeWhile is_digit (c # cs)))"

definition stoull :: "string \<Rightarrow> nat result" where
  "stoull s = (let (neg, ds) = split_number s; n = read_nat 0 ds in
     if ds = [] then Inl (Invalid_argument ''stoull'')
     else if n \<ge> 2 ^ 64 then Inl (Out_of_range ''stoull'')
     else Inr (if neg then (2 ^ 64 - n) mod 2 ^ 64 else n))"

definition stoll :: "string \<Rightarrow> u64 result" where
  "stoll s = (let (neg, ds) = split_number s; i = (if neg then - int (read_nat 0 ds) else int (read_nat 0 ds)) in
     if ds = [] then Inl (Invalid_argument ''stoll'')
     else if i < - (2 ^ 63) \<or> i \<ge> 2 ^ 63 then Inl (Out_of_range ''stoll'')
     else Inr (word_of_int i))"

subsection \<open>Cursors\<close>

text \<open>
  The parameters: the text of a double with 17 digits, \<open>std::stod\<close>, and the number of values a vector has
  room for.
\<close>

record cursor_env =
  cu_real :: "u64 \<Rightarrow> string"
  cu_stod :: "string \<Rightarrow> u64 result"
  cu_room :: nat

record cursor_order_term =
  ot_owner :: nat
  ot_table :: string
  ot_column :: string
  ot_ascending :: bool

fun cursor_value_text :: "cursor_env \<Rightarrow> dbvalue \<Rightarrow> (char \<times> string) result" where
  "cursor_value_text C VNull = Inl (Invalid_argument ''MetalORM: cursor pagination requires non-null ORDER BY values'')"
| "cursor_value_text C (VInt i) = Inr (CHR ''i'', show_int (sint i))"
| "cursor_value_text C (VDouble d) = Inr (CHR ''d'', cu_real C d)"
| "cursor_value_text C (VString s) = Inr (CHR ''s'', s)"
| "cursor_value_text C (VBool b) = Inr (CHR ''b'', if b then ''1'' else ''0'')"
| "cursor_value_text C (VBlob bs) = Inr (CHR ''x'', List.map (\<lambda>b. char_of (unat b)) bs)"

definition parse_cursor_value :: "cursor_env \<Rightarrow> char \<Rightarrow> string \<Rightarrow> dbvalue result" where
  "parse_cursor_value C tag t =
     (if tag = CHR ''i'' then rbind (stoll t) (\<lambda>i. Inr (VInt i))
      else if tag = CHR ''d'' then rbind (cu_stod C t) (\<lambda>d. Inr (VDouble d))
      else if tag = CHR ''s'' then Inr (VString t)
      else if tag = CHR ''b'' \<and> t = ''1'' then Inr (VBool True)
      else if tag = CHR ''b'' \<and> t = ''0'' then Inr (VBool False)
      else if tag = CHR ''x'' then Inr (VBlob (List.map (\<lambda>c. word_of_nat (of_char c)) t))
      else Inl (invalid_cursor ''payload''))"

definition newline :: char where
  "newline = CHR 0x0A"

definition order_term_text :: "cursor_order_term \<Rightarrow> string" where
  "order_term_text o' = ot_table o' @ ''.'' @ ot_column o' @ (if ot_ascending o' then '':ASC'' else '':DESC'')"

definition order_signature :: "cursor_order_term list \<Rightarrow> string" where
  "order_signature os = join '','' (List.map order_term_text os)"

definition cursor_entry :: "cursor_env \<Rightarrow> dbvalue \<Rightarrow> string result" where
  "cursor_entry C v = rbind (cursor_value_text C v) (\<lambda>(tag, t).
     Inr (tag # show_nat (length t) @ '':'' @ t @ [newline]))"

definition cursor_plain :: "cursor_env \<Rightarrow> dbvalue list \<Rightarrow> cursor_order_term list \<Rightarrow> string result" where
  "cursor_plain C vs os = rbind (rmap_list (cursor_entry C) vs) (\<lambda>es.
     Inr (''2'' @ [newline] @ order_signature os @ [newline] @ show_nat (length vs) @ [newline] @ concat es))"

definition encode_cursor :: "cursor_env \<Rightarrow> dbvalue list \<Rightarrow> cursor_order_term list \<Rightarrow> string result" where
  "encode_cursor C vs os = rbind (cursor_plain C vs os) (\<lambda>p. Inr (base64url_encode p))"

record decoded_cursor =
  dc_values :: "dbvalue list"
  dc_signature :: string

text \<open>\<open>text.find(c, position)\<close>\<close>

definition find_char :: "char \<Rightarrow> nat \<Rightarrow> string \<Rightarrow> nat option" where
  "find_char c pos s = (let n = length (takeWhile (\<lambda>x. x \<noteq> c) (drop pos s)) in
     if pos + n < length s then Some (pos + n) else None)"

definition read_line :: "string \<Rightarrow> nat \<Rightarrow> (string \<times> nat) result" where
  "read_line s pos = (case find_char newline pos s of
     None \<Rightarrow> Inl (invalid_cursor ''payload'')
   | Some e \<Rightarrow> Inr (take (e - pos) (drop pos s), e + 1))"

fun decode_values :: "cursor_env \<Rightarrow> string \<Rightarrow> nat \<Rightarrow> nat \<Rightarrow> dbvalue list result" where
  "decode_values C plain 0 pos = Inr []"
| "decode_values C plain (Suc n) pos =
     (if pos \<ge> length plain then Inl (invalid_cursor ''payload'')
      else case find_char (CHR '':'') (pos + 1) plain of
        None \<Rightarrow> Inl (invalid_cursor ''payload'')
      | Some colon \<Rightarrow>
          rbind (stoull (take (colon - (pos + 1)) (drop (pos + 1) plain))) (\<lambda>len.
            let after = (colon + 1 + len) mod 2 ^ 64 in
            if after > length plain then Inl (invalid_cursor ''payload'')
            else rbind (parse_cursor_value C (plain ! pos) (take len (drop (colon + 1) plain))) (\<lambda>v.
              if after \<ge> length plain \<or> plain ! after \<noteq> newline then Inl (invalid_cursor ''payload'')
              else rbind (decode_values C plain n (after + 1)) (\<lambda>vs. Inr (v # vs)))))"

definition decode_plain :: "cursor_env \<Rightarrow> string \<Rightarrow> decoded_cursor result" where
  "decode_plain C plain =
     rbind (read_line plain 0) (\<lambda>(version, p1).
       if version \<noteq> ''2'' then Inl (invalid_cursor ''payload version'')
       else rbind (read_line plain p1) (\<lambda>(sig, p2).
         rbind (read_line plain p2) (\<lambda>(cnt, p3).
         rbind (stoull cnt) (\<lambda>n.
           if n > cu_room C then Inl (Backend_failure ''std::vector::reserve'')
           else rbind (decode_values C plain n p3) (\<lambda>vs. Inr \<lparr>dc_values = vs, dc_signature = sig\<rparr>)))))"

definition decode_cursor :: "cursor_env \<Rightarrow> string \<Rightarrow> decoded_cursor result" where
  "decode_cursor C cursor = rbind (base64url_decode cursor) (decode_plain C)"

subsection \<open>The round trip\<close>

lemma takeWhile_digits [simp]: "takeWhile is_digit (show_nat n) = show_nat n"
  using show_nat_all_digits by (simp add: list_all_iff)

lemma split_show_nat [simp]: "split_number (show_nat n) = (False, show_nat n)"
proof -
  obtain c cs where s: "show_nat n = c # cs" by (cases "show_nat n") auto
  with show_nat_all_digits [of n] have "is_digit c" by simp
  then have "\<not> is_space c" "c \<noteq> CHR ''-''" "c \<noteq> CHR ''+''" by (auto simp: is_digit_def is_space_def)
  with s show ?thesis
    using takeWhile_digits [of n] by (simp add: split_number_def)
qed

lemma split_show_negative [simp]: "split_number (CHR ''-'' # show_nat n) = (True, show_nat n)"
  by (simp add: split_number_def is_space_def)

lemma stoull_show [simp]: "n < 2 ^ 64 \<Longrightarrow> stoull (show_nat n) = Inr n"
  by (simp add: stoull_def read_show_nat)

lemma stoll_show [simp]: "stoll (show_int (sint i)) = Inr i"
  using sint_range_size [of i] by (auto simp: stoll_def show_int_def read_show_nat word_size)

lemma value_text_back:
  assumes "cursor_value_text C v = Inr (tag, t)" and "\<And>d. v = VDouble d \<Longrightarrow> cu_stod C (cu_real C d) = Inr d"
  shows "parse_cursor_value C tag t = Inr v"
proof (cases v)
  case (VBlob bs)
  with assms(1) have "tag = CHR ''x''" "t = List.map (\<lambda>b. char_of (unat b)) bs" by auto
  moreover have "List.map (\<lambda>b. word_of_nat (of_char (char_of (unat b) :: char)) :: u8) bs = bs"
    by (simp only: char_of_u8_back list.map_ident)
  ultimately show ?thesis by (simp add: VBlob parse_cursor_value_def comp_def)
next
  case (VInt i)
  with assms(1) have "tag = CHR ''i''" "t = show_int (sint i)" by auto
  then show ?thesis by (simp add: VInt parse_cursor_value_def)
next
  case (VBool b)
  with assms(1) show ?thesis by (cases b) (auto simp: parse_cursor_value_def)
qed (use assms in \<open>auto simp: parse_cursor_value_def\<close>)

lemma find_char_append [simp]:
  "c \<notin> set u \<Longrightarrow> find_char c (length a) (a @ u @ c # w) = Some (length a + length u)"
  by (auto simp: find_char_def Let_def takeWhile_append takeWhile_eq_all_conv)

lemma read_line_append [simp]:
  "newline \<notin> set u \<Longrightarrow> read_line (a @ u @ newline # w) (length a) = Inr (u, length a + length u + 1)"
  by (simp add: read_line_def)

lemma show_nat_lacks:
  assumes "\<not> is_digit c"
  shows "c \<notin> set (show_nat n)"
  using show_nat_all_digits [of n] assms by (auto simp: list_all_iff)

lemma separators_not_digits [simp]: "\<not> is_digit (CHR '':'')" "\<not> is_digit newline"
  by (simp_all add: is_digit_def newline_def)

text \<open>What the round trip asks of the values: no NULL, and doubles that are read as they were printed.\<close>

definition cursor_value_ok :: "cursor_env \<Rightarrow> dbvalue \<Rightarrow> bool" where
  "cursor_value_ok C v \<longleftrightarrow> v \<noteq> VNull \<and> (\<forall>d. v = VDouble d \<longrightarrow> cu_stod C (cu_real C d) = Inr d)"

lemma decode_one_value:
  assumes v: "cursor_value_ok C v" "cursor_entry C v = Inr e" and short: "length (a @ e @ w) < 2 ^ 64"
  shows "decode_values C (a @ e @ w) (Suc n) (length a) =
    rbind (decode_values C (a @ e @ w) n (length a + length e)) (\<lambda>vs. Inr (v # vs))"
proof -
  from v(2) obtain tag t where t: "cursor_value_text C v = Inr (tag, t)"
    and e: "e = tag # show_nat (length t) @ '':'' @ t @ [newline]"
    by (auto simp: cursor_entry_def result_simps)
  let ?p = "a @ e @ w" and ?b = "a @ [tag]" and ?c = "a @ tag # show_nat (length t) @ '':''"
  have p: "?p = ?b @ show_nat (length t) @ CHR '':'' # (t @ newline # w)" "?p = ?c @ t @ newline # w"
    by (simp_all add: e)
  have tag: "?p ! length a = tag" "length a < length ?p" by (simp_all add: e nth_append)
  have colon: "find_char (CHR '':'') (length a + 1) ?p = Some (length ?b + length (show_nat (length t)))"
    using find_char_append [of "CHR '':''" "show_nat (length t)" ?b "t @ newline # w"] show_nat_lacks
    by (simp add: e)
  have number: "take (length ?b + length (show_nat (length t)) - (length a + 1)) (drop (length a + 1) ?p) = show_nat (length t)"
    by (simp add: e)
  have parsed: "stoull (show_nat (length t)) = Inr (length t)" using short by (simp add: e)
  have after: "(length ?b + length (show_nat (length t)) + 1 + length t) mod 2 ^ 64 = length a + length e - 1"
    using short by (simp add: e)
  have body: "take (length t) (drop (length ?b + length (show_nat (length t)) + 1) ?p) = t" by (simp add: e)
  have stop: "?p ! (length a + length e - 1) = newline" "length a + length e - 1 < length ?p"
    by (simp_all add: e nth_append)
  have parse: "parse_cursor_value C tag t = Inr v"
    using v(1) t by (intro value_text_back) (auto simp: cursor_value_ok_def)
  have step: "length a + length e - 1 + 1 = length a + length e" by (simp add: e)
  have ne: "e \<noteq> []" by (simp add: e)
  then have "0 < length e" by simp
  then have inside: "length a + (length e + length w) \<noteq> length a + length e - Suc 0"
    "\<not> length a + (length e + length w) < length a + length e - Suc 0"
    "\<not> length a + (length e + length w) \<le> length a + length e - Suc 0"
    by linarith+
  from tag stop(2) show ?thesis
    by (simp only: decode_values.simps colon number parsed rbind_simps option.case Let_def after body parse stop step
        if_False not_less not_le simp_thms if_True linorder_not_le order_less_imp_le) (simp add: ne inside)
qed

lemma decode_all_values:
  assumes "list_all (cursor_value_ok C) vs" "rmap_list (cursor_entry C) vs = Inr es"
    and "length (a @ concat es) < 2 ^ 64"
  shows "decode_values C (a @ concat es) (length vs) (length a) = Inr vs"
  using assms
proof (induction vs arbitrary: es a)
  case (Cons v vs)
  from Cons.prems(2) obtain e es' where e: "cursor_entry C v = Inr e" "rmap_list (cursor_entry C) vs = Inr es'" "es = e # es'"
    by (auto simp: result_simps)
  have "decode_values C ((a @ e) @ concat es') (length vs) (length (a @ e)) = Inr vs"
    using Cons.prems e by (intro Cons.IH) auto
  with decode_one_value [of C v e a "concat es'" "length vs"] Cons.prems e show ?case by simp
qed simp

lemma decode_encoded_plain:
  assumes vs: "list_all (cursor_value_ok C) vs" and os: "newline \<notin> set (order_signature os)"
    and plain: "cursor_plain C vs os = Inr p" "length p < 2 ^ 64" and room: "length vs \<le> cu_room C" "length vs < 2 ^ 64"
  shows "decode_plain C p = Inr \<lparr>dc_values = vs, dc_signature = order_signature os\<rparr>"
proof -
  from plain(1) obtain es where es: "rmap_list (cursor_entry C) vs = Inr es"
    and p: "p = ''2'' @ newline # order_signature os @ newline # show_nat (length vs) @ newline # concat es"
    by (auto simp: cursor_plain_def result_simps)
  let ?a = "''2'' @ [newline]" and ?b = "''2'' @ newline # order_signature os @ [newline]"
  let ?c = "''2'' @ newline # order_signature os @ newline # show_nat (length vs) @ [newline]"
  have "newline \<notin> set ''2''" by (simp add: newline_def)
  then have version: "read_line p 0 = Inr (''2'', length ?a)"
    using read_line_append [of "''2''" "[]"] by (simp add: p)
  have sig: "read_line p (length ?a) = Inr (order_signature os, length ?b)"
    using read_line_append [OF os, of ?a] by (simp add: p)
  have count: "read_line p (length ?b) = Inr (show_nat (length vs), length ?c)"
    using read_line_append [of "show_nat (length vs)" ?b] show_nat_lacks by (simp add: p)
  have "p = ?c @ concat es" by (simp add: p)
  then have "decode_values C p (length vs) (length ?c) = Inr vs"
    using decode_all_values [OF vs es, of ?c] plain(2) by simp
  then show ?thesis
    using room by (simp only: decode_plain_def version sig count rbind_simps prod.case simp_thms if_False stoull_show
        not_less [symmetric] if_not_P not_le)
qed

lemma decode_cursor_encoded:
  assumes "list_all (cursor_value_ok C) vs" "newline \<notin> set (order_signature os)"
    and "encode_cursor C vs os = Inr cursor" "length cursor < 2 ^ 64" "length vs \<le> cu_room C" "length vs < 2 ^ 64"
  shows "decode_cursor C cursor = Inr \<lparr>dc_values = vs, dc_signature = order_signature os\<rparr>"
proof -
  from assms(3) obtain p where p: "cursor_plain C vs os = Inr p" "cursor = base64url_encode p"
    by (auto simp: encode_cursor_def result_simps)
  have "length p < 2 ^ 64" using encoded_length [of p 0] assms(4) by (simp add: p base64url_encode_def)
  with decode_encoded_plain [OF assms(1,2) p(1) _ assms(5,6)] show ?thesis
    by (simp add: decode_cursor_def base64url_decode_def base64url_encode_def p base64_round_trip)
qed

text \<open>
  C17. A cursor made of the values of a row decodes to these values and to the signature of the order it was
  made for: numbers, booleans, texts and blobs of any content come back as they were. Doubles are to be read
  as they are printed, and the names of the order must not contain a line break.
\<close>

theorem cursor_round_trip:
  assumes "list_all (cursor_value_ok C) vs" "newline \<notin> set (order_signature os)"
    and "encode_cursor C vs os = Inr cursor" "length cursor < 2 ^ 64" "length vs \<le> cu_room C" "length vs < 2 ^ 64"
  shows "decode_cursor C cursor = Inr \<lparr>dc_values = vs, dc_signature = order_signature os\<rparr>"
  using assms by (rule decode_cursor_encoded)

definition demo_cursor_env :: cursor_env where
  "demo_cursor_env = \<lparr>cu_real = (\<lambda>d. show_nat (unat d)), cu_stod = (\<lambda>t. rbind (stoull t) (\<lambda>n. Inr (word_of_nat n))), cu_room = 10\<rparr>"

definition demo_order :: "cursor_order_term list" where
  "demo_order = [\<lparr>ot_owner = 0, ot_table = ''t'', ot_column = ''c'', ot_ascending = True\<rparr>]"

theorem cursor_round_trip_witness:
  "\<exists>cursor. encode_cursor demo_cursor_env [VString ''a:b''] demo_order = Inr cursor \<and>
     decode_cursor demo_cursor_env cursor = Inr \<lparr>dc_values = [VString ''a:b''], dc_signature = ''t.c:ASC''\<rparr>"
proof -
  let ?r = "encode_cursor demo_cursor_env [VString ''a:b''] demo_order"
  let ?p = "''2'' @ [newline] @ order_signature demo_order @ [newline] @ show_nat 1 @ [newline] @
    CHR ''s'' # show_nat (length ''a:b'') @ '':'' @ ''a:b'' @ [newline]"
  have r: "?r = Inr (base64url_encode ?p)"
    by (simp add: encode_cursor_def cursor_plain_def cursor_entry_def)
  have "length ?p \<le> 100"
    by (simp add: order_signature_def demo_order_def order_term_text_def show_nat.simps)
  then have len: "length (base64url_encode ?p) < 2 ^ 64"
    using encoded_length_upper [of 0 ?p] by (simp add: base64url_encode_def del: append_Cons append.simps)
  have "list_all (cursor_value_ok demo_cursor_env) [VString ''a:b'']" "newline \<notin> set (order_signature demo_order)"
    by (simp_all add: cursor_value_ok_def demo_order_def order_signature_def order_term_text_def newline_def)
  from cursor_round_trip [OF this r len] r show ?thesis
    by (intro exI [of _ "base64url_encode ?p"])
      (simp add: demo_cursor_env_def demo_order_def order_signature_def order_term_text_def)
qed

text \<open>
  The check of a length adds in \<open>std::size_t\<close>: a forged cursor whose length wraps around to a line break
  before the value passes it, and the value is the whole rest of the payload.
\<close>

lemma forged_length_accepted:
  "decode_values demo_cursor_env (''2'' @ newline # ''s18446744073709551593:abc'') (Suc 0) 2 = Inr [VString ''abc'']"
proof -
  have "find_char (CHR '':'') 3 (''2'' @ newline # ''s18446744073709551593:abc'') = Some 23"
    by (simp add: find_char_def)
  moreover have "stoull ''18446744073709551593'' = Inr 18446744073709551593"
    by (simp add: stoull_def split_number_def is_space_def is_digit_def)
  ultimately show ?thesis by (simp add: parse_cursor_value_def)
qed

end
