(* ===== verification/Pagination.thy ===== *)
theory Pagination
  imports Cursors Relation_Queries
begin

section \<open>Pages (include/metal/query/pagination.hpp)\<close>

text \<open>
  A page is two statements for the numbered pages and one for a cursor, around the SQL of a query without
  its own LIMIT and OFFSET (\<open>subquery\<close>: what \<open>compile_subquery\<close> of any of the query classes returns). The
  connection is a parameter; page numbers and limits are \<open>std::size_t\<close> and wrap.
\<close>

record page_options =
  po_page :: u64
  po_size :: u64

record 'i page_result =
  pr_items :: "'i list"
  pr_total :: u64
  pr_page :: u64
  pr_size :: u64

record cursor_options =
  co_first :: "u64 option"
  co_after :: "string option"
  co_last :: "u64 option"
  co_before :: "string option"

record page_info =
  pi_next :: bool
  pi_previous :: bool
  pi_start :: "string option"
  pi_end :: "string option"

record 'i cursor_page =
  cp_items :: "'i list"
  cp_info :: page_info

definition cursor_order :: "entity_types \<Rightarrow> column_ref \<Rightarrow> bool \<Rightarrow> cursor_order_term" where
  "cursor_order T f ascending =
     \<lparr>ot_owner = cr_owner f, ot_table = et_table (T (cr_owner f)), ot_column = cr_column f, ot_ascending = ascending\<rparr>"

text \<open>The query classes that can be paged.\<close>

definition pageable :: "entity_types \<Rightarrow> type_index \<Rightarrow> select_state \<Rightarrow> subquery" where
  "pageable T root q = compile_subquery T root (without_pagination q)"

definition pageable_filtered :: "entity_types \<Rightarrow> type_index \<Rightarrow> filtered_query \<Rightarrow> subquery" where
  "pageable_filtered T root q = filtered_subquery T root (filtered_without_pagination q)"

text \<open>\<open>executor.execute(sql, params)\<close> for a compiled statement.\<close>

definition execute_compiled :: "dialect \<Rightarrow> 's executor \<Rightarrow> compiled_query \<Rightarrow> ('s, query_result) action" where
  "execute_compiled d ex q = act_bind (act_lift (render d (cq_sql q))) (\<lambda>t. ex t (cq_params q))"

subsection \<open>Numbered pages\<close>

text \<open>The checks both overloads of \<open>execute_paged\<close> start with.\<close>

definition validate_page_options :: "page_options \<Rightarrow> unit result" where
  "validate_page_options opt =
     (if po_page opt < 1 then Inl (Invalid_argument ''MetalORM: page must be >= 1'')
      else if po_size opt < 1 then Inl (Invalid_argument ''MetalORM: page_size must be >= 1'')
      else Inr ())"

definition page_offset :: "page_options \<Rightarrow> u64" where
  "page_offset opt = (po_page opt - 1) * po_size opt"

definition count_statement :: "compiled_query \<Rightarrow> compiled_query" where
  "count_statement b = \<lparr>cq_sql = lit ''SELECT COUNT(*) AS \"total\" FROM ('' @ cq_sql b @ lit '') AS \"__metal_count\";'',
     cq_params = cq_params b\<rparr>"

definition page_statement :: "page_options \<Rightarrow> compiled_query \<Rightarrow> compiled_query" where
  "page_statement opt b = \<lparr>cq_sql = lit ''SELECT * FROM ('' @ cq_sql b @ lit ('') AS \"__metal_page\" LIMIT '' @
     show_nat (unat (po_size opt)) @ '' OFFSET '' @ show_nat (unat (page_offset opt)) @ '';''), cq_params = cq_params b\<rparr>"

text \<open>The total: the column \<open>total\<close> of the first row as \<open>std::int64_t\<close>; 0 without one.\<close>

definition total_of :: "fp \<Rightarrow> query_result \<Rightarrow> u64 result" where
  "total_of F r =
     (case qr_rows r of
        [] \<Rightarrow> Inr 0
      | row # _ \<Rightarrow>
          (case alookup row ''total'' of
             None \<Rightarrow> Inr 0
           | Some v \<Rightarrow> rbind (from_value F (TInt True 64) v)
               (\<lambda>x. case x of CInt i \<Rightarrow> Inr (word_of_int i) | _ \<Rightarrow> Inl conversion_error)))"

definition execute_paged :: "fp \<Rightarrow> dialect \<Rightarrow> 's executor \<Rightarrow> subquery \<Rightarrow> page_options \<Rightarrow> ('s, row page_result) action" where
  "execute_paged F d ex sub opt =
     act_bind (act_lift (validate_page_options opt)) (\<lambda>_.
     act_bind (act_lift (sub d 0)) (\<lambda>b.
     act_bind (execute_compiled d ex (count_statement b)) (\<lambda>counted.
     act_bind (act_lift (total_of F counted)) (\<lambda>total.
     act_bind (execute_compiled d ex (page_statement opt b)) (\<lambda>r.
       act_return \<lparr>pr_items = qr_rows r, pr_total = total, pr_page = po_page opt, pr_size = po_size opt\<rparr>)))))"

subsection \<open>The statement of a cursor page\<close>

text \<open>A comparison of a column of the query with a value, and the conjunctions of the key set.\<close>

type_synonym cursor_comparison = "string \<times> compare_op \<times> dbvalue"

definition cursor_clause :: "cursor_order_term list \<Rightarrow> dbvalue list \<Rightarrow> bool \<Rightarrow> nat \<Rightarrow> cursor_comparison list" where
  "cursor_clause os vs after_mode i =
     List.map (\<lambda>j. (ot_column (os ! j), OpEq, vs ! j)) [0..<i] @
     [(ot_column (os ! i),
       if (if after_mode then ot_ascending (os ! i) else \<not> ot_ascending (os ! i)) then OpGt else OpLt, vs ! i)]"

definition cursor_clauses :: "cursor_order_term list \<Rightarrow> dbvalue list \<Rightarrow> bool \<Rightarrow> cursor_comparison list list" where
  "cursor_clauses os vs after_mode = List.map (cursor_clause os vs after_mode) [0..<length os]"

definition compile_cursor_comparison :: "dialect \<Rightarrow> string \<Rightarrow> cursor_comparison \<Rightarrow> (dbvalue list, sql) action" where
  "compile_cursor_comparison d alias c = (case c of (column, op, v) \<Rightarrow>
     act_bind (push_param (context_of d 0 []) v) (\<lambda>p.
       act_return (lit (d_quote d alias @ ''.'' @ d_quote d column @ '' '' @ compare_token op @ '' '') @ p)))"

definition compile_cursor_clause :: "dialect \<Rightarrow> string \<Rightarrow> cursor_comparison list \<Rightarrow> (dbvalue list, sql) action" where
  "compile_cursor_clause d alias cs = act_bind (act_map (compile_cursor_comparison d alias) cs) (\<lambda>qs.
     act_return (wrap ''('' (join_sql '' AND '' qs) '')''))"

definition append_cursor_predicate ::
  "dialect \<Rightarrow> string \<Rightarrow> cursor_order_term list \<Rightarrow> dbvalue list \<Rightarrow> bool \<Rightarrow> (dbvalue list, sql) action" where
  "append_cursor_predicate d alias os vs after_mode =
     (if length vs \<noteq> length os then act_throw (invalid_cursor ''payload'')
      else act_bind (act_map (compile_cursor_clause d alias) (cursor_clauses os vs after_mode)) (\<lambda>qs.
        act_return (wrap '' WHERE ('' (join_sql '' OR '' qs) '')'')))"

definition cursor_alias :: string where
  "cursor_alias = ''__metal_cursor''"

definition cursor_order_text :: "dialect \<Rightarrow> bool \<Rightarrow> cursor_order_term \<Rightarrow> string" where
  "cursor_order_text d backward t = d_quote d cursor_alias @ ''.'' @ d_quote d (ot_column t) @
     (if (if backward then \<not> ot_ascending t else ot_ascending t) then '' ASC'' else '' DESC'')"

definition cursor_tail :: "dialect \<Rightarrow> cursor_order_term list \<Rightarrow> bool \<Rightarrow> u64 option \<Rightarrow> string" where
  "cursor_tail d os backward limit = '' ORDER BY '' @ join '', '' (List.map (cursor_order_text d backward) os) @
     (case limit of None \<Rightarrow> [] | Some n \<Rightarrow> '' LIMIT '' @ show_nat (unat (n + 1))) @ '';''"

definition cursor_statement ::
  "dialect \<Rightarrow> compiled_query \<Rightarrow> cursor_order_term list \<Rightarrow> dbvalue list option \<Rightarrow> bool \<Rightarrow> u64 option \<Rightarrow> compiled_query result" where
  "cursor_statement d b os vs backward limit =
     (case (case vs of None \<Rightarrow> act_return [] | Some vs \<Rightarrow> append_cursor_predicate d cursor_alias os vs (\<not> backward)) (cq_params b) of
        (Inl e, _) \<Rightarrow> Inl e
      | (Inr w, ps) \<Rightarrow> Inr \<lparr>cq_sql = lit ''SELECT * FROM ('' @ cq_sql b @ lit ('') AS '' @ d_quote d cursor_alias) @ w @
          lit (cursor_tail d os backward limit), cq_params = ps\<rparr>)"

subsection \<open>Cursor pages\<close>

definition cursor_limit :: "cursor_options \<Rightarrow> u64" where
  "cursor_limit opt = (case co_first opt of Some n \<Rightarrow> n | None \<Rightarrow> (case co_last opt of Some n \<Rightarrow> n | None \<Rightarrow> 0))"

definition validate_cursor_options :: "cursor_options \<Rightarrow> unit result" where
  "validate_cursor_options opt =
     (if co_first opt \<noteq> None \<and> co_last opt \<noteq> None
      then Inl (Invalid_argument ''MetalORM: cursor first and last cannot be used together'')
      else if co_after opt \<noteq> None \<and> co_before opt \<noteq> None
      then Inl (Invalid_argument ''MetalORM: cursor after and before cannot be used together'')
      else if co_first opt = None \<and> co_last opt = None
      then Inl (Invalid_argument ''MetalORM: cursor pagination requires first or last'')
      else if cursor_limit opt < 1 then Inl (Invalid_argument ''MetalORM: cursor page size must be >= 1'')
      else Inr ())"

definition cursor_backward :: "cursor_options \<Rightarrow> bool" where
  "cursor_backward opt \<longleftrightarrow> co_last opt \<noteq> None"

definition cursor_token :: "cursor_options \<Rightarrow> string option" where
  "cursor_token opt = (if co_after opt \<noteq> None then co_after opt else co_before opt)"

text \<open>The values of the cursor, if there is one and it was made for this order.\<close>

definition cursor_position :: "cursor_env \<Rightarrow> cursor_order_term list \<Rightarrow> string option \<Rightarrow> dbvalue list option result" where
  "cursor_position C os token =
     (case token of
        None \<Rightarrow> Inr None
      | Some cursor \<Rightarrow> rbind (decode_cursor C cursor) (\<lambda>p.
          if dc_signature p \<noteq> order_signature os
          then Inl (Invalid_argument ''MetalORM: cursor ORDER BY signature does not match the current reflected order'')
          else Inr (Some (dc_values p))))"

definition cursor_value :: "row \<Rightarrow> cursor_order_term \<Rightarrow> dbvalue result" where
  "cursor_value row t =
     (case alookup row (ot_column t) of
        None \<Rightarrow> Inl (Logic_error (''MetalORM: cursor ORDER BY column '' @ [squote] @ ot_column t @ [squote] @ '' is not present in the query projection''))
      | Some v \<Rightarrow>
          if v = VNull then Inl (Logic_error ''MetalORM: cursor pagination requires non-null ORDER BY values'') else Inr v)"

definition cursor_values_from_row :: "row \<Rightarrow> cursor_order_term list \<Rightarrow> dbvalue list result" where
  "cursor_values_from_row row os = rmap_list (cursor_value row) os"

definition row_cursor :: "cursor_env \<Rightarrow> cursor_order_term list \<Rightarrow> row \<Rightarrow> string result" where
  "row_cursor C os row = rbind (cursor_values_from_row row os) (\<lambda>vs. encode_cursor C vs os)"

text \<open>
  The first row of every key of a column, by \<open>value_key\<close> (\<open>seen\<close>); \<open>distinct_root_rows\<close> of
  \<open>runtime_pagination.hpp\<close> is the same loop with another message.
\<close>

fun first_rows :: "fp \<Rightarrow> string \<Rightarrow> string \<Rightarrow> string list \<Rightarrow> row list \<Rightarrow> row list result" where
  "first_rows F what column seen [] = Inr []"
| "first_rows F what column seen (row # rows) =
     (case alookup row column of
        None \<Rightarrow> Inl (Logic_error (''MetalORM: root-aware '' @ what @ '' requires the root primary key in the projection''))
      | Some v \<Rightarrow>
          if value_key F v \<in> set seen then first_rows F what column seen rows
          else rbind (first_rows F what column (value_key F v # seen) rows) (\<lambda>rest. Inr (row # rest)))"

definition dedupe_rows :: "fp \<Rightarrow> string option \<Rightarrow> row list \<Rightarrow> row list result" where
  "dedupe_rows F column rows =
     (case column of None \<Rightarrow> Inr rows | Some c \<Rightarrow> first_rows F ''cursor pagination'' c [] rows)"

text \<open>The page made of the rows: one row more than the limit says that there is another page.\<close>

definition page_rows :: "cursor_options \<Rightarrow> row list \<Rightarrow> row list" where
  "page_rows opt rows =
     (if cursor_backward opt then rev (take (unat (cursor_limit opt)) rows) else take (unat (cursor_limit opt)) rows)"

definition cursor_page_info ::
  "cursor_env \<Rightarrow> cursor_order_term list \<Rightarrow> cursor_options \<Rightarrow> bool \<Rightarrow> row list \<Rightarrow> page_info result" where
  "cursor_page_info C os opt extra items =
     (if items = [] then Inr \<lparr>pi_next = False, pi_previous = False, pi_start = None, pi_end = None\<rparr>
      else rbind (row_cursor C os (List.hd items)) (\<lambda>s. rbind (row_cursor C os (List.last items)) (\<lambda>e.
        Inr \<lparr>pi_next = (if cursor_backward opt then co_before opt \<noteq> None else extra),
             pi_previous = (if cursor_backward opt then extra else co_after opt \<noteq> None),
             pi_start = Some s, pi_end = Some e\<rparr>)))"

definition cursor_page_of ::
  "cursor_env \<Rightarrow> fp \<Rightarrow> cursor_order_term list \<Rightarrow> cursor_options \<Rightarrow> string option \<Rightarrow> row list \<Rightarrow> row cursor_page result" where
  "cursor_page_of C F os opt column rows =
     rbind (dedupe_rows F column rows) (\<lambda>rows.
     rbind (cursor_page_info C os opt (length rows > unat (cursor_limit opt)) (page_rows opt rows)) (\<lambda>info.
       Inr \<lparr>cp_items = page_rows opt rows, cp_info = info\<rparr>))"

definition execute_cursor_impl ::
  "cursor_env \<Rightarrow> fp \<Rightarrow> dialect \<Rightarrow> 's executor \<Rightarrow> subquery \<Rightarrow> cursor_order_term list \<Rightarrow> cursor_options \<Rightarrow> string option \<Rightarrow>
     ('s, row cursor_page) action" where
  "execute_cursor_impl C F d ex sub os opt column =
     (if os = [] then act_throw (Invalid_argument ''MetalORM: cursor pagination requires at least one reflected ORDER BY field'')
      else
        act_bind (act_lift (validate_cursor_options opt)) (\<lambda>_.
        act_bind (act_lift (sub d 0)) (\<lambda>b.
        act_bind (act_lift (cursor_position C os (cursor_token opt))) (\<lambda>vs.
        act_bind (act_lift (cursor_statement d b os vs (cursor_backward opt)
          (if column = None then Some (cursor_limit opt) else None))) (\<lambda>q.
        act_bind (execute_compiled d ex q) (\<lambda>r.
          act_lift (cursor_page_of C F os opt column (qr_rows r))))))))"

definition execute_cursor ::
  "cursor_env \<Rightarrow> fp \<Rightarrow> dialect \<Rightarrow> 's executor \<Rightarrow> subquery \<Rightarrow> cursor_order_term list \<Rightarrow> cursor_options \<Rightarrow>
     ('s, row cursor_page) action" where
  "execute_cursor C F d ex sub os opt = execute_cursor_impl C F d ex sub os opt None"

end
