(* ===== verification/Cursor_Pages.thy ===== *)
theory Cursor_Pages
  imports Pagination
begin

section \<open>Following the cursors\<close>

text \<open>
  The condition of a cursor page is a disjunction of conjunctions, one for every column of the order; it is
  compared with the lexicographic order it stands for, and the pages read one after another with the rows
  of the query in that order. How the database compares values is \<open>ordk\<close>, into any linear order.
\<close>

subsection \<open>The lexicographic order\<close>

text \<open>\<open>True\<close> is an ascending column.\<close>

fun key_less :: "bool list \<Rightarrow> 'k::linorder list \<Rightarrow> 'k list \<Rightarrow> bool" where
  "key_less (a # as) (x # xs) (y # ys) \<longleftrightarrow> (if a then x < y else y < x) \<or> x = y \<and> key_less as xs ys"
| "key_less as xs ys \<longleftrightarrow> False"

lemma key_less_irrefl [simp]: "\<not> key_less as xs xs"
proof (induction xs arbitrary: as)
  case (Cons x xs)
  then show ?case by (cases as) auto
qed simp

lemma key_less_asym: "key_less as xs ys \<Longrightarrow> \<not> key_less as ys xs"
  by (induction as xs ys rule: key_less.induct) (auto split: if_splits)

definition sat_comparison :: "(dbvalue \<Rightarrow> 'k::linorder) \<Rightarrow> row \<Rightarrow> cursor_comparison \<Rightarrow> bool" where
  "sat_comparison ordk row c = (case c of (column, op, v) \<Rightarrow>
     (case alookup row column of
        None \<Rightarrow> False
      | Some w \<Rightarrow> (case op of OpEq \<Rightarrow> ordk w = ordk v | OpGt \<Rightarrow> ordk w > ordk v | OpLt \<Rightarrow> ordk w < ordk v | _ \<Rightarrow> False)))"

definition sat_clauses :: "(dbvalue \<Rightarrow> 'k::linorder) \<Rightarrow> row \<Rightarrow> cursor_comparison list list \<Rightarrow> bool" where
  "sat_clauses ordk row cs \<longleftrightarrow> list_ex (list_all (sat_comparison ordk row)) cs"

lemma cursor_clauses_Cons:
  "cursor_clauses (t # os) (v # vs) m =
     [(ot_column t, if (if m then ot_ascending t else \<not> ot_ascending t) then OpGt else OpLt, v)] #
     List.map ((#) (ot_column t, OpEq, v)) (cursor_clauses os vs m)"
proof -
  have "cursor_clause (t # os) (v # vs) m (Suc i) = (ot_column t, OpEq, v) # cursor_clause os vs m i" for i
    unfolding cursor_clause_def map_upt_Suc upt_conv_Cons [OF zero_less_Suc] by (simp add: map_Suc_upt [symmetric] comp_def del: upt_Suc)
  then show ?thesis
    by (simp add: cursor_clauses_def map_upt_Suc comp_def del: upt_Suc) (simp add: cursor_clause_def)
qed

lemma cursor_clauses_Nil [simp]: "cursor_clauses [] vs m = []"
  by (simp add: cursor_clauses_def)

definition directions :: "cursor_order_term list \<Rightarrow> bool list" where
  "directions os = List.map ot_ascending os"

lemma clauses_lexicographic:
  assumes "length vs = length os" and "list_all2 (\<lambda>t w. alookup row (ot_column t) = Some w) os ws"
  shows "sat_clauses ordk row (cursor_clauses os vs m) \<longleftrightarrow>
    (if m then key_less (directions os) (List.map ordk vs) (List.map ordk ws)
     else key_less (directions os) (List.map ordk ws) (List.map ordk vs))"
  using assms(2,1)
proof (induction arbitrary: vs rule: list_all2_induct)
  case (Cons t os w ws)
  then obtain v vs' where vs: "vs = v # vs'" "length vs' = length os" by (cases vs) auto
  have "sat_clauses ordk row (List.map ((#) c) cs) \<longleftrightarrow> sat_comparison ordk row c \<and> sat_clauses ordk row cs" for c cs
    by (auto simp: sat_clauses_def list_ex_iff)
  with Cons vs show ?case
    by (auto simp: cursor_clauses_Cons directions_def sat_clauses_def sat_comparison_def)
qed (simp add: sat_clauses_def directions_def)

lemma filter_after:
  assumes "sorted_wrt P xs" "i < length xs" "\<And>x y. P x y \<Longrightarrow> \<not> P y x"
  shows "List.filter (P (xs ! i)) xs = drop (Suc i) xs"
proof -
  have split: "xs = take i xs @ xs ! i # drop (Suc i) xs" using assms(2) by (rule id_take_nth_drop)
  with assms(1) have "sorted_wrt P (take i xs @ xs ! i # drop (Suc i) xs)" by simp
  then have "\<forall>x \<in> set (take i xs). P x (xs ! i)" "\<forall>y \<in> set (drop (Suc i) xs). P (xs ! i) y"
    by (auto simp: sorted_wrt_append)
  with assms(3) have "List.filter (P (xs ! i)) (take i xs @ xs ! i # drop (Suc i) xs) = drop (Suc i) xs"
    by (subst List.filter_append) (auto simp: filter_empty_conv intro!: filter_True)
  with split show ?thesis by metis
qed

subsection \<open>Statements compile\<close>

definition placeholders_ok :: "dialect \<Rightarrow> bool" where
  "placeholders_ok d \<longleftrightarrow> (\<forall>k. \<not> isl (d_placeholder d (Suc k)))"

lemma render_append: "render d (a @ b) = rbind (render d a) (\<lambda>s. rbind (render d b) (\<lambda>t. Inr (s @ t)))"
proof (induction d a rule: render.induct)
  case (1 d)
  then show ?case by (cases "render d b") simp_all
next
  case (2 d s q)
  then show ?case by (cases "render d q"; cases "render d b") simp_all
next
  case (3 d i q)
  then show ?case by (cases "d_placeholder d i"; cases "render d q"; cases "render d b") simp_all
qed

lemma render_lit [simp]: "render d (lit s) = Inr s"
  by (simp add: lit_def)

definition renders :: "dialect \<Rightarrow> sql \<Rightarrow> bool" where
  "renders d q \<longleftrightarrow> (\<exists>t. render d q = Inr t)"

lemma renders_simps [simp]:
  "renders d []" "renders d (lit s)" "renders d (a @ b) \<longleftrightarrow> renders d a \<and> renders d b"
  "renders d (wrap l a r) \<longleftrightarrow> renders d a"
  by (auto simp: renders_def render_append wrap_def result_simps)

lemma renders_join [simp]: "list_all (renders d) qs \<Longrightarrow> renders d (join_sql sep qs)"
  by (induction sep qs rule: join_sql.induct) auto

text \<open>A piece that compiles, to placeholders the dialect knows.\<close>

definition writes :: "dialect \<Rightarrow> (dbvalue list, sql) action \<Rightarrow> bool" where
  "writes d m \<longleftrightarrow> (\<forall>ps. \<exists>q ps'. m ps = (Inr q, ps') \<and> renders d q)"

lemma writesE: "writes d m \<Longrightarrow> (\<And>q ps'. m ps = (Inr q, ps') \<Longrightarrow> renders d q \<Longrightarrow> P) \<Longrightarrow> P"
  by (auto simp: writes_def)

lemma writes_join:
  assumes "\<And>x. x \<in> set xs \<Longrightarrow> writes d (f x)"
  shows "writes d (act_bind (act_map f xs) (\<lambda>qs. act_return (wrap l (join_sql sep qs) r)))"
proof -
  have run: "\<exists>qs ps'. act_map f xs ps = (Inr qs, ps') \<and> list_all (renders d) qs" for ps
    using assms
  proof (induction xs arbitrary: ps)
    case (Cons x xs)
    from Cons.prems [of x] obtain q ps1 where "f x ps = (Inr q, ps1)" "renders d q"
      by (auto elim: writesE [where ps = ps])
    moreover from Cons.IH [of ps1] Cons.prems obtain qs ps2 where
      "act_map f xs ps1 = (Inr qs, ps2)" "list_all (renders d) qs" by auto
    ultimately show ?case by (simp add: act_bind_def)
  qed simp
  show ?thesis
    unfolding writes_def
  proof
    fix ps
    from run [of ps] obtain qs ps' where "act_map f xs ps = (Inr qs, ps')" "list_all (renders d) qs" by auto
    then show "\<exists>q ps'. act_bind (act_map f xs) (\<lambda>qs. act_return (wrap l (join_sql sep qs) r)) ps = (Inr q, ps') \<and> renders d q"
      by (simp add: act_bind_def)
  qed
qed

lemma writes_comparison:
  assumes "placeholders_ok d"
  shows "writes d (compile_cursor_comparison d al c)"
proof -
  from assms have "renders d [Hole (Suc k)]" for k
    by (cases "d_placeholder d (Suc k)") (auto simp: renders_def placeholders_ok_def isl_def)
  then show ?thesis
    by (cases c) (simp add: writes_def compile_cursor_comparison_def act_bind_def push_param_def context_of_def)
qed

lemma writes_clauses:
  assumes "placeholders_ok d" "length vs = length os"
  shows "writes d (append_cursor_predicate d al os vs m)"
proof -
  have "writes d (compile_cursor_clause d al cs)" for cs
    unfolding compile_cursor_clause_def by (intro writes_join writes_comparison assms(1))
  then show ?thesis
    unfolding append_cursor_predicate_def using assms(2) by (simp add: writes_join)
qed

lemma statement_compiles:
  assumes "placeholders_ok d" "renders d (cq_sql b)" "pred_option (\<lambda>vs. length vs = length os) p"
  obtains q t where "cursor_statement d b os p bw n = Inr q" "render d (cq_sql q) = Inr t"
proof -
  have "\<exists>q. cursor_statement d b os p bw n = Inr q \<and> renders d (cq_sql q)"
  proof (cases p)
    case None
    then show ?thesis using assms(2) by (simp add: cursor_statement_def)
  next
    case (Some vs)
    with assms(3) have "writes d (append_cursor_predicate d cursor_alias os vs (\<not> bw))"
      by (intro writes_clauses assms(1)) simp
    then show ?thesis
      by (elim writesE [where ps = "cq_params b"]) (simp add: cursor_statement_def Some assms(2))
  qed
  then show thesis using that by (auto simp: renders_def)
qed

subsection \<open>One page\<close>

definition row_keys :: "(dbvalue \<Rightarrow> 'k::linorder) \<Rightarrow> cursor_order_term list \<Rightarrow> row \<Rightarrow> 'k list" where
  "row_keys ordk os row = List.map (\<lambda>t. ordk (case alookup row (ot_column t) of None \<Rightarrow> VNull | Some v \<Rightarrow> v)) os"

definition row_before :: "(dbvalue \<Rightarrow> 'k::linorder) \<Rightarrow> cursor_order_term list \<Rightarrow> row \<Rightarrow> row \<Rightarrow> bool" where
  "row_before ordk os a b \<longleftrightarrow> key_less (directions os) (row_keys ordk os a) (row_keys ordk os b)"

text \<open>Every row has values for the order that a cursor can carry, and its cursor is not longer than a string can be.\<close>

definition cursor_ready :: "cursor_env \<Rightarrow> cursor_order_term list \<Rightarrow> row \<Rightarrow> bool" where
  "cursor_ready C os row \<longleftrightarrow> (case row_cursor C os row of Inl e \<Rightarrow> False | Inr cursor \<Rightarrow> length cursor < 2 ^ 64) \<and>
     list_all (\<lambda>t. case alookup row (ot_column t) of None \<Rightarrow> False | Some v \<Rightarrow> cursor_value_ok C v) os"

text \<open>
  What is asked of the database: for the first page, and for the position of any of the rows, it answers
  with the rows that satisfy the condition, in the order of the ORDER BY, one more than the limit at most.
\<close>

definition at_position :: "(dbvalue \<Rightarrow> 'k::linorder) \<Rightarrow> cursor_order_term list \<Rightarrow> dbvalue list option \<Rightarrow> row \<Rightarrow> bool" where
  "at_position ordk os p row \<longleftrightarrow>
     (case p of None \<Rightarrow> True | Some vs \<Rightarrow> sat_clauses ordk row (cursor_clauses os vs True))"

definition serves_at ::
  "dialect \<Rightarrow> 's executor \<Rightarrow> compiled_query \<Rightarrow> cursor_order_term list \<Rightarrow> (dbvalue \<Rightarrow> 'k::linorder) \<Rightarrow> row list \<Rightarrow> u64 \<Rightarrow> 's \<Rightarrow>
     dbvalue list option \<Rightarrow> bool" where
  "serves_at d ex b os ordk rs n s p \<longleftrightarrow>
     (case cursor_statement d b os p False (Some n) of
        Inl e \<Rightarrow> True
      | Inr q \<Rightarrow>
          (case render d (cq_sql q) of
             Inl e \<Rightarrow> True
           | Inr t \<Rightarrow>
               (case ex t (cq_params q) s of
                  (Inr r, s') \<Rightarrow> s' = s \<and> qr_rows r = take (unat (n + 1)) (List.filter (at_position ordk os p) rs)
                | (Inl e, s') \<Rightarrow> False)))"

definition serves ::
  "dialect \<Rightarrow> 's executor \<Rightarrow> compiled_query \<Rightarrow> cursor_order_term list \<Rightarrow> (dbvalue \<Rightarrow> 'k::linorder) \<Rightarrow> row list \<Rightarrow> u64 \<Rightarrow> 's \<Rightarrow> bool" where
  "serves d ex b os ordk rs n s \<longleftrightarrow> serves_at d ex b os ordk rs n s None \<and>
     list_all (\<lambda>r. case cursor_values_from_row r os of Inl e \<Rightarrow> True | Inr vs \<Rightarrow> serves_at d ex b os ordk rs n s (Some vs)) rs"

lemma rmap_list_Inr: "list_all (\<lambda>x. f x = Inr (g x)) xs \<Longrightarrow> rmap_list f xs = Inr (List.map g xs)"
  by (induction xs) auto

lemma ready_values:
  assumes "cursor_ready C os row"
  obtains vs cursor where "cursor_values_from_row row os = Inr vs" "encode_cursor C vs os = Inr cursor"
    "row_cursor C os row = Inr cursor" "length cursor < 2 ^ 64" "list_all (cursor_value_ok C) vs"
    "length vs = length os" "list_all2 (\<lambda>t w. alookup row (ot_column t) = Some w) os vs" "row_keys ordk os row = List.map ordk vs"
proof -
  let ?g = "\<lambda>t. case alookup row (ot_column t) of None \<Rightarrow> VNull | Some v \<Rightarrow> v"
  from assms have cols: "list_all (\<lambda>t. case alookup row (ot_column t) of None \<Rightarrow> False | Some v \<Rightarrow> cursor_value_ok C v) os"
    by (simp add: cursor_ready_def)
  then have "list_all (\<lambda>t. cursor_value row t = Inr (?g t)) os"
    by (rule list.pred_mono_strong) (auto simp: cursor_value_def cursor_value_ok_def split: option.splits)
  then have vs: "cursor_values_from_row row os = Inr (List.map ?g os)"
    unfolding cursor_values_from_row_def by (rule rmap_list_Inr)
  moreover from assms obtain cursor where c: "row_cursor C os row = Inr cursor" "length cursor < 2 ^ 64"
    by (auto simp: cursor_ready_def split: sum.splits)
  moreover from c(1) have "encode_cursor C (List.map ?g os) os = Inr cursor" by (simp add: row_cursor_def vs)
  moreover from cols have "list_all (cursor_value_ok C) (List.map ?g os)"
    by (auto simp: list_all_iff split: option.splits)
  moreover from cols have "list_all2 (\<lambda>t w. alookup row (ot_column t) = Some w) os (List.map ?g os)"
    by (auto simp: list_all_iff list.rel_map split: option.splits intro!: list.rel_refl_strong)
  moreover have "row_keys ordk os row = List.map ordk (List.map ?g os)"
    unfolding row_keys_def List.map_map comp_def ..
  ultimately show thesis by (intro that [of "List.map ?g os" cursor]) simp_all
qed

text \<open>
  A query (\<open>sub\<close>), an order that tells its rows apart, the rows in that order, a page size, and a connection
  in a state \<open>s\<close> that serves them.
\<close>

definition paging ::
  "cursor_env \<Rightarrow> dialect \<Rightarrow> 's executor \<Rightarrow> subquery \<Rightarrow> cursor_order_term list \<Rightarrow> (dbvalue \<Rightarrow> 'k::linorder) \<Rightarrow> row list \<Rightarrow>
     u64 \<Rightarrow> 's \<Rightarrow> bool" where
  "paging C d ex sub os ordk rs n s \<longleftrightarrow>
     os \<noteq> [] \<and> newline \<notin> set (order_signature os) \<and> length os \<le> cu_room C \<and> length os < 2 ^ 64 \<and>
     0 < n \<and> n + 1 \<noteq> 0 \<and> placeholders_ok d \<and>
     sorted_wrt (row_before ordk os) rs \<and> list_all (cursor_ready C os) rs \<and>
     (case sub d 0 of Inl e \<Rightarrow> False | Inr b \<Rightarrow> renders d (cq_sql b) \<and> serves d ex b os ordk rs n s)"

definition first_after :: "u64 \<Rightarrow> string option \<Rightarrow> cursor_options" where
  "first_after n token = \<lparr>co_first = Some n, co_after = token, co_last = None, co_before = None\<rparr>"

lemma serves_answer:
  assumes serves: "serves d ex b os ordk rs n s" and q: "cursor_statement d b os p False (Some n) = Inr q"
    and t: "render d (cq_sql q) = Inr t" and p: "p = None \<or> (\<exists>r \<in> set rs. \<exists>vs. p = Some vs \<and> cursor_values_from_row r os = Inr vs)"
  obtains r where "execute_compiled d ex q s = (Inr r, s)"
    "qr_rows r = take (unat (n + 1)) (List.filter (at_position ordk os p) rs)"
proof -
  have "serves_at d ex b os ordk rs n s p"
    using p serves by (auto simp: serves_def list_all_iff)
  then show thesis
    by (auto simp: serves_at_def q t execute_compiled_def act_bind_def split: prod.splits sum.splits intro: that)
qed

lemma rows_after:
  assumes "sorted_wrt (row_before ordk os) rs" "list_all (cursor_ready C os) rs" "i < length rs"
    and "cursor_values_from_row (rs ! i) os = Inr vs"
  shows "List.filter (at_position ordk os (Some vs)) rs = drop (Suc i) rs"
proof -
  from assms(2,3) have "cursor_ready C os (rs ! i)" by (simp add: list_all_length)
  then obtain ws where "cursor_values_from_row (rs ! i) os = Inr ws" and vs: "length ws = length os" "row_keys ordk os (rs ! i) = List.map ordk ws"
    by (rule ready_values)
  with assms(4) have "vs = ws" by simp
  have "at_position ordk os (Some vs) row \<longleftrightarrow> row_before ordk os (rs ! i) row" if "row \<in> set rs" for row
  proof -
    from assms(2) that have "cursor_ready C os row" by (simp add: list_all_iff)
    then obtain us where "list_all2 (\<lambda>t w. alookup row (ot_column t) = Some w) os us" "row_keys ordk os row = List.map ordk us"
      by (rule ready_values)
    then show ?thesis
      using clauses_lexicographic [of vs os row us ordk True] vs \<open>vs = ws\<close> by (simp add: at_position_def row_before_def)
  qed
  then have "List.filter (at_position ordk os (Some vs)) rs = List.filter (row_before ordk os (rs ! i)) rs"
    by (rule filter_cong [OF refl])
  also have "\<dots> = drop (Suc i) rs"
    using assms(1,3) by (rule filter_after) (simp add: row_before_def key_less_asym)
  finally show ?thesis .
qed

text \<open>The position behind the first \<open>i\<close> rows.\<close>

definition token_at :: "cursor_env \<Rightarrow> cursor_order_term list \<Rightarrow> row list \<Rightarrow> nat \<Rightarrow> string option \<Rightarrow> bool" where
  "token_at C os rs i token \<longleftrightarrow>
     (case i of 0 \<Rightarrow> token = None | Suc j \<Rightarrow> j < length rs \<and> (\<exists>c. token = Some c \<and> row_cursor C os (rs ! j) = Inr c))"

lemma position_rows:
  assumes "paging C d ex sub os ordk rs n s" "token_at C os rs i token"
  obtains p where "cursor_position C os token = Inr p" "pred_option (\<lambda>vs. length vs = length os) p"
    "p = None \<or> (\<exists>r \<in> set rs. \<exists>vs. p = Some vs \<and> cursor_values_from_row r os = Inr vs)"
    "List.filter (at_position ordk os p) rs = drop i rs"
proof (cases i)
  case 0
  with assms(2) show ?thesis
    by (intro that [of None]) (auto simp: token_at_def cursor_position_def at_position_def [abs_def])
next
  case (Suc j)
  with assms(2) obtain c where j: "j < length rs" and c: "token = Some c" "row_cursor C os (rs ! j) = Inr c"
    by (auto simp: token_at_def)
  from assms(1) have rs: "sorted_wrt (row_before ordk os) rs" "list_all (cursor_ready C os) rs" and sig: "newline \<notin> set (order_signature os)"
    and room: "length os \<le> cu_room C" "length os < 2 ^ 64" by (simp_all add: paging_def)
  from rs(2) j have "cursor_ready C os (rs ! j)" by (simp add: list_all_length)
  then obtain vs cursor where vs: "cursor_values_from_row (rs ! j) os = Inr vs" "encode_cursor C vs os = Inr cursor"
    "row_cursor C os (rs ! j) = Inr cursor" "length cursor < 2 ^ 64" "list_all (cursor_value_ok C) vs" "length vs = length os"
    by (rule ready_values)
  from vs(6) room have "length vs \<le> cu_room C" "length vs < 2 ^ 64" by simp_all
  from decode_cursor_encoded [OF vs(5) sig vs(2,4) this] have "cursor_position C os token = Inr (Some vs)"
    using c vs(3) by (simp add: cursor_position_def)
  then show ?thesis
    using rows_after [OF rs j vs(1)] vs(1,6) j Suc by (intro that [of "Some vs"]) auto
qed

lemma forward_page:
  fixes F :: fp
  assumes paging: "paging C d ex sub os ordk rs n s" and token: "token_at C os rs i token"
  obtains info where "execute_cursor C F d ex sub os (first_after n token) s =
      (Inr \<lparr>cp_items = take (unat n) (drop i rs), cp_info = info\<rparr>, s)"
    "pi_next info \<longleftrightarrow> i + unat n < length rs"
    "i + unat n < length rs \<longrightarrow> token_at C os rs (i + unat n) (pi_end info)"
proof -
  let ?opt = "first_after n token"
  from paging obtain b where os: "os \<noteq> []" and n: "0 < n" "n + 1 \<noteq> 0" and d: "placeholders_ok d" and sub: "sub d 0 = Inr b"
    and b: "renders d (cq_sql b)" and serves: "serves d ex b os ordk rs n s" and ready: "list_all (cursor_ready C os) rs"
    by (auto simp: paging_def split: sum.splits)
  have opt: "cursor_limit ?opt = n" "\<not> cursor_backward ?opt" "cursor_token ?opt = token" "validate_cursor_options ?opt = Inr ()"
    using n(1) by (auto simp: first_after_def cursor_limit_def cursor_backward_def cursor_token_def validate_cursor_options_def
        word_less_1)
  from n have limit: "unat (n + 1) = unat n + 1" "0 < unat n" using unatSuc [of n] by (simp_all add: add.commute unat_gt_0)
  from paging token obtain p where p: "cursor_position C os token = Inr p" "pred_option (\<lambda>vs. length vs = length os) p"
      "p = None \<or> (\<exists>r \<in> set rs. \<exists>vs. p = Some vs \<and> cursor_values_from_row r os = Inr vs)"
    and rows: "List.filter (at_position ordk os p) rs = drop i rs" by (rule position_rows)
  from d b p(2) obtain q t where q: "cursor_statement d b os p False (Some n) = Inr q" "render d (cq_sql q) = Inr t"
    by (rule statement_compiles)
  from serves q p(3) obtain r where r: "execute_compiled d ex q s = (Inr r, s)" "qr_rows r = take (unat n + 1) (drop i rs)"
    unfolding limit(1) [symmetric] rows [symmetric] by (rule serves_answer)
  have items: "page_rows ?opt (qr_rows r) = take (unat n) (drop i rs)" by (simp add: page_rows_def opt r)
  have extra: "length (qr_rows r) > unat n \<longleftrightarrow> i + unat n < length rs" by (auto simp: r)
  have page: "cursor_page_of C F os ?opt None (qr_rows r) =
      rbind (cursor_page_info C os ?opt (i + unat n < length rs) (take (unat n) (drop i rs)))
        (\<lambda>info. Inr \<lparr>cp_items = take (unat n) (drop i rs), cp_info = info\<rparr>)"
    by (simp only: cursor_page_of_def dedupe_rows_def option.case rbind_simps items extra opt(1))
  have run: "execute_cursor C F d ex sub os ?opt s = (cursor_page_of C F os ?opt None (qr_rows r), s)"
    by (simp add: execute_cursor_def execute_cursor_impl_def os opt sub p q r act_bind_def)
  have cursor: "\<exists>c. row_cursor C os row = Inr c" if "row \<in> set rs" for row
    using ready that by (auto simp: list_all_iff elim: ready_values)
  show thesis
  proof (cases "drop i rs")
    case Nil
    then have "cursor_page_of C F os ?opt None (qr_rows r) = Inr \<lparr>cp_items = take (unat n) (drop i rs),
        cp_info = \<lparr>pi_next = False, pi_previous = False, pi_start = None, pi_end = None\<rparr>\<rparr>"
      by (simp only: page) (simp add: cursor_page_info_def)
    with Nil run show ?thesis by (intro that) auto
  next
    case (Cons x xs)
    let ?items = "take (unat n) (drop i rs)"
    from Cons limit have items: "?items \<noteq> []" by simp
    then have "List.hd ?items \<in> set rs" "List.last ?items \<in> set rs"
      by (meson hd_in_set last_in_set in_set_dropD in_set_takeD)+
    with cursor obtain f l where fl: "row_cursor C os (List.hd ?items) = Inr f" "row_cursor C os (List.last ?items) = Inr l"
      by blast
    let ?info = "\<lparr>pi_next = i + unat n < length rs, pi_previous = token \<noteq> None, pi_start = Some f, pi_end = Some l\<rparr>"
    have "cursor_page_info C os ?opt (i + unat n < length rs) ?items = Inr ?info"
      using items fl opt(2) by (simp add: cursor_page_info_def) (simp add: first_after_def)
    with page have "cursor_page_of C F os ?opt None (qr_rows r) = Inr \<lparr>cp_items = ?items, cp_info = ?info\<rparr>" by simp
    moreover have "List.last ?items = rs ! (i + (unat n - 1))" if "i + unat n < length rs"
      using that items limit(2) by (simp add: last_conv_nth min_def)
    ultimately show ?thesis
      using fl(2) limit(2) run by (intro that) (auto simp: token_at_def split: nat.splits)
  qed
qed

subsection \<open>All pages\<close>

text \<open>
  What a client does: the first page, and then the page after the end cursor of the last one, as long as
  the page information says that there is a next page.
\<close>

fun read_pages ::
  "cursor_env \<Rightarrow> fp \<Rightarrow> dialect \<Rightarrow> 's executor \<Rightarrow> subquery \<Rightarrow> cursor_order_term list \<Rightarrow> u64 \<Rightarrow> nat \<Rightarrow> string option \<Rightarrow>
     ('s, row list) action" where
  "read_pages C F d ex sub os n 0 token = act_throw (Runtime_error ''no end'')"
| "read_pages C F d ex sub os n (Suc fuel) token =
     act_bind (execute_cursor C F d ex sub os (first_after n token)) (\<lambda>p.
       if pi_next (cp_info p)
       then act_bind (read_pages C F d ex sub os n fuel (pi_end (cp_info p))) (\<lambda>rest. act_return (cp_items p @ rest))
       else act_return (cp_items p))"

lemma read_pages_from:
  assumes paging: "paging C d ex sub os ordk rs n s"
  shows "token_at C os rs i token \<Longrightarrow> length rs - i < fuel \<Longrightarrow>
    read_pages C F d ex sub os n fuel token s = (Inr (drop i rs), s)"
proof (induction fuel arbitrary: i token)
  case (Suc fuel)
  from paging Suc.prems(1) obtain info where page: "execute_cursor C F d ex sub os (first_after n token) s =
      (Inr \<lparr>cp_items = take (unat n) (drop i rs), cp_info = info\<rparr>, s)"
    and more: "pi_next info \<longleftrightarrow> i + unat n < length rs"
      "i + unat n < length rs \<longrightarrow> token_at C os rs (i + unat n) (pi_end info)"
    by (rule forward_page [where F = F])
  from paging have "0 < n" by (simp add: paging_def)
  then have n: "0 < unat n" by (simp add: unat_gt_0)
  show ?case
  proof (cases "i + unat n < length rs")
    case True
    with n Suc.prems(2) have "length rs - (i + unat n) < fuel" by linarith
    from Suc.IH [OF more(2) [rule_format, OF True] this] True more(1) show ?thesis
      by (simp add: act_bind_def page) (metis append_take_drop_id drop_drop add.commute)
  next
    case False
    then show ?thesis by (simp add: act_bind_def page more(1))
  qed
qed simp

text \<open>
  C14. Reading page after page by the end cursors visits every row of the query exactly once, in the order
  asked for, and comes to an end: for any page size, any mix of ascending and descending columns that tells
  the rows apart, and any values a cursor can carry.
\<close>

theorem pages_enumerate_rows:
  assumes "paging C d ex sub os ordk rs n s"
  shows "read_pages C F d ex sub os n (Suc (length rs)) None s = (Inr rs, s)"
  using read_pages_from [OF assms, of 0 None] by (simp add: token_at_def del: read_pages.simps)

definition demo_rows :: "row list" where
  "demo_rows = [[(''c'', VInt 1)], [(''c'', VInt 2)], [(''c'', VInt 3)]]"

definition demo_ordk :: "dbvalue \<Rightarrow> int" where
  "demo_ordk v = (case v of VInt i \<Rightarrow> sint i | _ \<Rightarrow> 0)"

definition demo_connection :: "unit executor" where
  "demo_connection t ps s = (Inr \<lparr>qr_rows = take 3 (case ps of [] \<Rightarrow> demo_rows
     | v # _ \<Rightarrow> List.filter (\<lambda>r. demo_ordk v < demo_ordk (snd (List.hd r))) demo_rows), qr_affected = 0, qr_last_id = 0\<rparr>, s)"

definition demo_base :: compiled_query where
  "demo_base = \<lparr>cq_sql = lit ''SELECT c FROM t'', cq_params = []\<rparr>"

lemma demo_value: "cursor_values_from_row [(''c'', VInt i)] demo_order = Inr [VInt i]"
  by (simp add: cursor_values_from_row_def demo_order_def cursor_value_def alookup_def)

lemma demo_ready: "sint i < 10 \<Longrightarrow> 0 \<le> sint i \<Longrightarrow> cursor_ready demo_cursor_env demo_order [(''c'', VInt i)]"
proof -
  assume i: "sint i < 10" "0 \<le> sint i"
  then have "nat (sint i) < 10" by simp
  with i have "length (show_int (sint i)) = 1" by (simp add: show_int_def show_nat.simps)
  then have "\<exists>p. cursor_plain demo_cursor_env [VInt i] demo_order = Inr p \<and> length p \<le> 100"
    by (simp add: cursor_plain_def cursor_entry_def order_signature_def demo_order_def order_term_text_def show_nat.simps)
  then obtain p where p: "cursor_plain demo_cursor_env [VInt i] demo_order = Inr p" "length p \<le> 100" by blast
  then have "row_cursor demo_cursor_env demo_order [(''c'', VInt i)] = Inr (base64url_encode p)"
    by (simp add: row_cursor_def demo_value encode_cursor_def)
  moreover have "length (base64url_encode p) < 2 ^ 64"
    using encoded_length_upper [of 0 p] p(2) by (simp add: base64url_encode_def)
  ultimately show ?thesis
    by (simp add: cursor_ready_def) (simp add: demo_order_def alookup_def cursor_value_ok_def)
qed

lemma demo_serves_at:
  "serves_at sqlite_dialect demo_connection demo_base demo_order demo_ordk demo_rows 2 () None"
  "serves_at sqlite_dialect demo_connection demo_base demo_order demo_ordk demo_rows 2 () (Some [VInt i])"
  by (simp_all add: serves_at_def cursor_statement_def demo_connection_def demo_base_def at_position_def [abs_def]
      append_cursor_predicate_def cursor_clauses_def cursor_clause_def compile_cursor_clause_def compile_cursor_comparison_def
      demo_order_def act_bind_def push_param_def context_of_def render_append wrap_def sat_clauses_def sat_comparison_def
      demo_rows_def alookup_def split: sum.split)

lemma demo_paging: "paging demo_cursor_env sqlite_dialect demo_connection (\<lambda>d k. Inr demo_base) demo_order demo_ordk demo_rows 2 ()"
proof -
  have "serves sqlite_dialect demo_connection demo_base demo_order demo_ordk demo_rows 2 ()"
    using demo_serves_at by (simp add: serves_def) (simp add: demo_rows_def demo_value)
  moreover have "list_all (cursor_ready demo_cursor_env demo_order) demo_rows"
    by (simp add: demo_rows_def demo_ready)
  moreover have "sorted_wrt (row_before demo_ordk demo_order) demo_rows"
    by (simp add: demo_rows_def row_before_def demo_order_def directions_def row_keys_def demo_ordk_def alookup_def)
  moreover have "newline \<notin> set (order_signature demo_order)" "demo_order \<noteq> []" "length demo_order \<le> cu_room demo_cursor_env"
    "length demo_order < 2 ^ 64"
    by (simp_all add: demo_order_def order_signature_def order_term_text_def newline_def demo_cursor_env_def)
  moreover have "placeholders_ok sqlite_dialect" by (simp add: placeholders_ok_def sqlite_dialect_def)
  moreover have "renders sqlite_dialect (cq_sql demo_base)" by (simp add: demo_base_def)
  ultimately show ?thesis by (simp add: paging_def)
qed

theorem pages_enumerate_rows_witness:
  "read_pages demo_cursor_env sample_fp sqlite_dialect demo_connection (\<lambda>d k. Inr demo_base) demo_order 2 4 None () =
     (Inr [[(''c'', VInt 1)], [(''c'', VInt 2)], [(''c'', VInt 3)]], ())"
  using pages_enumerate_rows [OF demo_paging, of sample_fp] by (simp add: demo_rows_def numeral_eq_Suc)

end
