(* ===== verification/Tracked_Pages.thy ===== *)
theory Tracked_Pages
  imports Cursor_Pages Identity_Properties
begin

section \<open>Pages of entities (include/metal/runtime_pagination.hpp)\<close>

text \<open>
  Pages of a Session: the rows of a page become tracked entities, by the identity map. A query with joins
  gives several rows for one root; only the first one of every root counts for the size of a page.
\<close>

definition hydrate_complete_entity_row ::
  "('d, 'e) session_env \<Rightarrow> type_index \<Rightarrow> row \<Rightarrow> ('d, 'e, key) session_action" where
  "hydrate_complete_entity_row E ty row s =
     (case alookup row (et_primary_key (env_types E ty)) of
        None \<Rightarrow> (Inl (Logic_error ''MetalORM: tracked pagination requires the root primary key in the projection''), s)
      | Some pk \<Rightarrow>
          (case identity_get E ty pk s of
             Some k \<Rightarrow> (Inr k, s)
           | None \<Rightarrow>
               if list_ex (\<lambda>c. alookup row (fst c) = None) (et_columns (env_types E ty))
               then (Inl (Logic_error (''MetalORM: tracked pagination requires a complete root-entity projection; '' @
                 ''use the row pagination overload for DTO projections'')), s)
               else
                 act_bind (make_shared E ty) (\<lambda>k.
                 act_bind (hydrate_members E ty row k) (\<lambda>_.
                 act_bind (persist E (Some k)) (\<lambda>_. act_return k))) s))"

definition validate_cursor_root :: "type_index \<Rightarrow> cursor_order_term list \<Rightarrow> unit result" where
  "validate_cursor_root ty os =
     (if list_ex (\<lambda>t. ot_owner t \<noteq> ty) os
      then Inl (Logic_error ''MetalORM: cursor ORDER BY fields must belong to the query root entity'')
      else Inr ())"

definition distinct_root_rows :: "fp \<Rightarrow> row list \<Rightarrow> string \<Rightarrow> row list result" where
  "distinct_root_rows F rows pk = first_rows F ''pagination'' pk [] rows"

text \<open>The connection of the Session, as an executor on the Session.\<close>

definition session_executor :: "('d, 'e) session_env \<Rightarrow> ('d, 'e) session executor" where
  "session_executor E sql ps = conn_call E (OExecute sql ps)"

text \<open>
  The slice of a page: \<open>offset + page_size\<close> wraps, and \<open>reserve\<close> of a negative difference throws
  \<open>std::length_error\<close>, a \<open>std::logic_error\<close>.
\<close>

definition page_slice :: "page_options \<Rightarrow> row list \<Rightarrow> row list result" where
  "page_slice opt rows =
     (let offset = unat (page_offset opt); stop = min (length rows) (unat (page_offset opt + po_size opt)) in
      if offset \<ge> length rows then Inr []
      else if stop < offset then Inl (Logic_error ''vector::reserve'')
      else Inr (take (stop - offset) (drop offset rows)))"

definition execute_paged_tracked ::
  "('d, 'e) session_env \<Rightarrow> type_index \<Rightarrow> subquery \<Rightarrow> page_options \<Rightarrow> ('d, 'e, key page_result) session_action" where
  "execute_paged_tracked E ty sub opt =
     act_bind (act_lift (validate_page_options opt)) (\<lambda>_.
     act_bind (act_lift (sub (env_dialect E) 0)) (\<lambda>b.
     act_bind (execute_compiled (env_dialect E) (session_executor E) b) (\<lambda>raw.
     act_bind (act_lift (distinct_root_rows (env_fp E) (qr_rows raw) (et_primary_key (env_types E ty)))) (\<lambda>rows.
     act_bind (act_lift (page_slice opt rows)) (\<lambda>page.
     act_bind (act_map (hydrate_complete_entity_row E ty) page) (\<lambda>items.
       act_return \<lparr>pr_items = items, pr_total = word_of_nat (length rows), pr_page = po_page opt, pr_size = po_size opt\<rparr>))))))"

definition execute_cursor_tracked ::
  "cursor_env \<Rightarrow> ('d, 'e) session_env \<Rightarrow> type_index \<Rightarrow> subquery \<Rightarrow> cursor_order_term list \<Rightarrow> cursor_options \<Rightarrow>
     ('d, 'e, key cursor_page) session_action" where
  "execute_cursor_tracked C E ty sub os opt =
     act_bind (act_lift (validate_cursor_root ty os)) (\<lambda>_.
     act_bind (execute_cursor_impl C (env_fp E) (env_dialect E) (session_executor E) sub os opt
       (Some (et_primary_key (env_types E ty)))) (\<lambda>rows.
     act_bind (act_map (hydrate_complete_entity_row E ty) (cp_items rows)) (\<lambda>items.
       act_return \<lparr>cp_items = items, cp_info = cp_info rows\<rparr>)))"

subsection \<open>Every root once\<close>

definition row_key :: "fp \<Rightarrow> string \<Rightarrow> row \<Rightarrow> string option" where
  "row_key F column row = map_option (value_key F) (alookup row column)"

lemma first_rows_distinct:
  "first_rows F what column seen rows = Inr us \<Longrightarrow>
     distinct (List.map (row_key F column) us) \<and> set us \<subseteq> set rows \<and>
     row_key F column ` set us = row_key F column ` set rows - Some ` set seen"
proof (induction rows arbitrary: seen us)
  case (Cons row rows)
  then obtain v where v: "alookup row column = Some v" by (auto split: option.splits)
  then have key: "row_key F column row = Some (value_key F v)" by (simp add: row_key_def)
  show ?case
  proof (cases "value_key F v \<in> set seen")
    case True
    with Cons.prems v have "first_rows F what column seen rows = Inr us" by simp
    from Cons.IH [OF this] True key show ?thesis by auto
  next
    case False
    with Cons.prems v obtain rest where rest: "first_rows F what column (value_key F v # seen) rows = Inr rest" "us = row # rest"
      by (auto simp: result_simps)
    from Cons.IH [OF rest(1)] have IH: "distinct (List.map (row_key F column) rest)" "set rest \<subseteq> set rows"
      "row_key F column ` set rest = row_key F column ` set rows - Some ` insert (value_key F v) (set seen)" by simp_all
    with key have "row_key F column row \<notin> row_key F column ` set rest" by auto
    with IH key False rest(2) show ?thesis by auto
  qed
qed simp

text \<open>Page \<open>i + 1\<close> is the \<open>i\<close>-th block of the rows, as long as the numbers do not wrap.\<close>

lemma page_slice_block:
  assumes "Suc i * unat n < 2 ^ 64"
  shows "page_slice \<lparr>po_page = word_of_nat (Suc i), po_size = n\<rparr> rows = Inr (take (unat n) (drop (i * unat n) rows))"
proof -
  have "word_of_nat i * n = word_of_nat (i * unat n)" "word_of_nat i * n + n = word_of_nat (Suc i * unat n)"
    by (simp_all add: algebra_simps)
  moreover from assms have "i * unat n < 2 ^ 64" by simp
  ultimately have "unat (word_of_nat i * n) = i * unat n" "unat (word_of_nat i * n + n) = Suc i * unat n"
    using assms by (simp_all only: unat_of_nat) simp_all
  then show ?thesis by (auto simp: page_slice_def page_offset_def Let_def min_def)
qed

lemma concat_blocks: "concat (List.map (\<lambda>i. take n (drop (i * n) xs)) [0..<m]) = take (m * n) xs"
  by (induction m) (simp_all add: add.commute [of n] take_add)



end
