(* ===== verification/Bulk.thy ===== *)
theory Bulk
  imports Session
begin

section \<open>Bulk operations (include/metal/bulk.hpp)\<close>

text \<open>
  The rows are cut into chunks, every chunk is one statement (an update of rows one per row), all in one
  transaction of the Session if asked for. Sizes are \<open>std::size_t\<close>. The time a chunk took is a parameter
  (\<open>elapsed\<close>), the callback of a finished chunk is the user's code, an action on the Session. What the
  threads of a concurrency above one do is the subject of \<open>Bulk_Workers\<close>; \<open>run_chunks\<close> is the loop without
  them.
\<close>

type_synonym bulk_row = "dml_assignment list"

datatype bulk_strategy = Individual | Batch | WhereIn

record bulk_metadata =
  bm_strategy :: bulk_strategy
  bm_dialect :: string
  bm_returning :: bool

record bulk_result =
  br_processed :: nat
  br_chunks :: nat
  br_returning :: "row list"
  br_timings :: "u64 list option"
  br_metadata :: "bulk_metadata option"

definition empty_bulk_result :: bulk_result where
  "empty_bulk_result = \<lparr>br_processed = 0, br_chunks = 0, br_returning = [], br_timings = None, br_metadata = None\<rparr>"

record chunk_info =
  ci_index :: nat
  ci_total :: nat
  ci_rows :: nat
  ci_elapsed :: u64

record ('d, 'e) bulk_options =
  bo_chunk_size :: u64
  bo_concurrency :: u64
  bo_transactional :: bool
  bo_timing :: bool
  bo_on_chunk :: "(chunk_info \<Rightarrow> ('d, 'e, unit) session_action) option"

text \<open>\<open>BulkColumns\<close>: the mode with the names of the columns.\<close>

datatype bulk_columns = ColumnsDefault | ColumnsSelected "string list" | ColumnsAll "string list"

fun column_names :: "bulk_columns \<Rightarrow> string list" where
  "column_names ColumnsDefault = []"
| "column_names (ColumnsSelected ns) = ns"
| "column_names (ColumnsAll ns) = ns"

definition mapped_columns :: "entity_type \<Rightarrow> string list" where
  "mapped_columns t = List.map fst (et_columns t)"

definition bulk_all_columns :: "entity_type \<Rightarrow> bulk_columns" where
  "bulk_all_columns t = ColumnsAll (mapped_columns t)"

definition bulk_no_columns :: bulk_columns where
  "bulk_no_columns = ColumnsSelected []"

definition known_column :: "entity_type \<Rightarrow> string \<Rightarrow> bool" where
  "known_column t name \<longleftrightarrow> list_ex (\<lambda>c. fst c = name) (et_columns t)"

definition assignment_value :: "string \<Rightarrow> dml_assignment \<Rightarrow> dbvalue result" where
  "assignment_value what a =
     (case da_value a of
        DmlValue v \<Rightarrow> Inr v
      | DmlExcluded c \<Rightarrow> Inl (Invalid_argument (''MetalORM: excluded() cannot be used as a bulk row value in '' @ what)))"

definition require_known :: "entity_type \<Rightarrow> string \<Rightarrow> string list \<Rightarrow> string list result" where
  "require_known t msg names = (if list_all (known_column t) names then Inr names else Inl (Invalid_argument msg))"

definition resolve_by_columns :: "entity_type \<Rightarrow> bool \<Rightarrow> bulk_columns \<Rightarrow> string list result" where
  "resolve_by_columns t single selection =
     rbind (case selection of
        ColumnsDefault \<Rightarrow> Inr [et_primary_key t]
      | ColumnsAll ns \<Rightarrow> Inl (Invalid_argument (''MetalORM: bulk '' @ [squote] @ ''by'' @ [squote] @ '' cannot select all columns''))
      | ColumnsSelected ns \<Rightarrow> Inr ns) (\<lambda>names.
     if names = []
     then Inl (Invalid_argument (''MetalORM: bulk '' @ [squote] @ ''by'' @ [squote] @ '' requires at least one reflected column''))
     else if single \<and> length names \<noteq> 1
     then Inl (Invalid_argument (''MetalORM: this bulk operation requires exactly one reflected '' @ [squote] @ ''by'' @ [squote] @ '' column''))
     else require_known t (''MetalORM: bulk '' @ [squote] @ ''by'' @ [squote] @ '' column is not mapped by the target entity'') names)"

definition resolve_returning_columns :: "entity_type \<Rightarrow> bulk_columns \<Rightarrow> string list result" where
  "resolve_returning_columns t selection =
     (case selection of
        ColumnsDefault \<Rightarrow> Inr []
      | ColumnsAll ns \<Rightarrow> require_known t ''MetalORM: RETURNING column is not mapped by the target entity'' (mapped_columns t)
      | ColumnsSelected ns \<Rightarrow> require_known t ''MetalORM: RETURNING column is not mapped by the target entity'' ns)"

subsection \<open>Chunks\<close>

definition validate_base_options :: "('d, 'e) bulk_options \<Rightarrow> unit result" where
  "validate_base_options opt =
     (if bo_chunk_size opt < 1 then Inl (Invalid_argument ''MetalORM: bulk chunk_size must be >= 1'')
      else if bo_concurrency opt < 1 then Inl (Invalid_argument ''MetalORM: bulk concurrency must be >= 1'')
      else Inr ())"

definition total_chunks :: "nat \<Rightarrow> u64 \<Rightarrow> nat" where
  "total_chunks rows sz = (if rows = 0 then 0 else unat ((word_of_nat rows + sz - 1) div sz))"

text \<open>The rows from \<open>begin\<close> to \<open>end\<close>.\<close>

definition chunk_slice :: "u64 \<Rightarrow> 'x list \<Rightarrow> nat \<Rightarrow> 'x list" where
  "chunk_slice sz xs i =
     (let start = unat (word_of_nat i * sz); stop = min (length xs) (unat (word_of_nat i * sz + sz)) in
      take (stop - start) (drop start xs))"

record chunk_outcome =
  co_processed :: nat
  co_returning :: "row list"
  co_elapsed :: u64

definition run_one ::
  "('d, 'e) bulk_options \<Rightarrow> (nat \<Rightarrow> u64) \<Rightarrow> ('x list \<Rightarrow> ('d, 'e, chunk_outcome) session_action) \<Rightarrow> 'x list \<Rightarrow> nat \<Rightarrow>
     ('d, 'e, chunk_outcome) session_action" where
  "run_one opt elapsed exec xs i =
     (let chunk = chunk_slice (bo_chunk_size opt) xs i in
      act_bind (exec chunk) (\<lambda>r.
      let r = (if bo_timing opt \<or> bo_on_chunk opt \<noteq> None then r\<lparr>co_elapsed := elapsed i\<rparr> else r) in
      act_bind (case bo_on_chunk opt of None \<Rightarrow> act_return ()
        | Some f \<Rightarrow> f \<lparr>ci_index = i, ci_total = total_chunks (length xs) (bo_chunk_size opt), ci_rows = length chunk,
            ci_elapsed = co_elapsed r\<rparr>) (\<lambda>_. act_return r)))"

definition run_chunks ::
  "('d, 'e) bulk_options \<Rightarrow> (nat \<Rightarrow> u64) \<Rightarrow> ('x list \<Rightarrow> ('d, 'e, chunk_outcome) session_action) \<Rightarrow> 'x list \<Rightarrow>
     ('d, 'e, chunk_outcome list) session_action" where
  "run_chunks opt elapsed exec xs =
     act_bind (act_lift (validate_base_options opt)) (\<lambda>_.
       act_map (run_one opt elapsed exec xs) [0..<total_chunks (length xs) (bo_chunk_size opt)])"

definition dialect_name :: "dialect \<Rightarrow> string" where
  "dialect_name d = (case d_family d of SQLite \<Rightarrow> ''sqlite'' | PostgreSQL \<Rightarrow> ''postgresql'' | _ \<Rightarrow> ''generic'')"

definition aggregate :: "chunk_outcome list \<Rightarrow> bool \<Rightarrow> bulk_strategy \<Rightarrow> dialect \<Rightarrow> bulk_result" where
  "aggregate outcomes timing strategy d =
     \<lparr>br_processed = sum_list (List.map co_processed outcomes), br_chunks = length outcomes,
      br_returning = concat (List.map co_returning outcomes),
      br_timings = (if timing then Some (List.map co_elapsed outcomes) else None),
      br_metadata = Some \<lparr>bm_strategy = strategy, bm_dialect = dialect_name d, bm_returning = True\<rparr>\<rparr>"

definition maybe_transaction :: "('d, 'e) session_env \<Rightarrow> bool \<Rightarrow> ('d, 'e, 'a) session_action \<Rightarrow> ('d, 'e, 'a) session_action" where
  "maybe_transaction E transactional fn = (if transactional then transaction E fn else fn)"

text \<open>The frame all the operations share: the chunks run, their outcomes are put together.\<close>

definition bulk_run ::
  "('d, 'e) session_env \<Rightarrow> ('d, 'e) bulk_options \<Rightarrow> (nat \<Rightarrow> u64) \<Rightarrow> bulk_strategy \<Rightarrow>
     ('x list \<Rightarrow> ('d, 'e, chunk_outcome) session_action) \<Rightarrow> 'x list \<Rightarrow> ('d, 'e, bulk_result) session_action" where
  "bulk_run E opt elapsed strategy exec xs =
     maybe_transaction E (bo_transactional opt) (act_bind (run_chunks opt elapsed exec xs) (\<lambda>outcomes.
       act_return (aggregate outcomes (bo_timing opt) strategy (env_dialect E))))"

subsection \<open>INSERT\<close>

text \<open>\<open>BulkRowBuilder::set\<close>: a member set twice keeps its place.\<close>

definition bulk_row_set :: "string \<Rightarrow> dbvalue \<Rightarrow> bulk_row \<Rightarrow> bulk_row" where
  "bulk_row_set c v row =
     (case find_if (\<lambda>a. da_column a = c) row of
        None \<Rightarrow> row @ [\<lparr>da_column = c, da_value = DmlValue v\<rparr>]
      | Some i \<Rightarrow> row[i := (row ! i)\<lparr>da_value := DmlValue v\<rparr>])"

text \<open>\<open>on_conflict(clause.columns)\<close> and what follows it.\<close>

definition apply_conflict :: "dml_conflict_clause \<Rightarrow> insert_node \<Rightarrow> insert_node result" where
  "apply_conflict c n =
     (if dc_do_nothing c then Inr (conflict_do_nothing (dc_columns c) None n)
      else conflict_do_update (dc_columns c) None (dc_assignments c) (dc_predicates c) n)"

definition with_returning :: "string list \<Rightarrow> insert_node \<Rightarrow> insert_node" where
  "with_returning returning n = (if returning = [] then n else insert_returning returning n)"

definition insert_chunk_query ::
  "dialect \<Rightarrow> entity_type \<Rightarrow> (insert_node \<Rightarrow> insert_node result) \<Rightarrow> string list \<Rightarrow> bulk_row list \<Rightarrow> compiled_query result" where
  "insert_chunk_query d t conflict returning rows =
     rbind (insert_rows rows (new_insert (et_table t))) (\<lambda>n. rbind (conflict n) (\<lambda>n.
       compiled (compile_insert d (with_returning returning n))))"

text \<open>One statement for the whole chunk.\<close>

definition run_chunk_query ::
  "('d, 'e) session_env \<Rightarrow> ('x list \<Rightarrow> compiled_query result) \<Rightarrow> bool \<Rightarrow> 'x list \<Rightarrow> ('d, 'e, chunk_outcome) session_action" where
  "run_chunk_query E query rows chunk =
     act_bind (run_query E (query chunk)) (\<lambda>r.
       act_return \<lparr>co_processed = length chunk, co_returning = (if rows then qr_rows r else []), co_elapsed = 0\<rparr>)"

definition bulk_insert ::
  "('d, 'e) session_env \<Rightarrow> entity_type \<Rightarrow> bulk_row list \<Rightarrow> ('d, 'e) bulk_options \<Rightarrow> (nat \<Rightarrow> u64) \<Rightarrow> bulk_columns \<Rightarrow>
     dml_conflict_clause option \<Rightarrow> ('d, 'e, bulk_result) session_action" where
  "bulk_insert E t rows opt elapsed returning on_conflict =
     (if rows = [] then act_return empty_bulk_result
      else act_bind (act_lift (resolve_returning_columns t returning)) (\<lambda>ret.
        bulk_run E opt elapsed Batch (run_chunk_query E (insert_chunk_query (env_dialect E) t
          (case on_conflict of None \<Rightarrow> Inr | Some c \<Rightarrow> apply_conflict c) ret) True) rows))"

text \<open>The columns of the conflict and those to be updated, with \<open>excluded\<close> values.\<close>

definition upsert_conflict_columns :: "entity_type \<Rightarrow> bulk_columns \<Rightarrow> string list result" where
  "upsert_conflict_columns t selection =
     (let names = (case selection of ColumnsDefault \<Rightarrow> [et_primary_key t] | ColumnsAll ns \<Rightarrow> mapped_columns t | ColumnsSelected ns \<Rightarrow> ns) in
      if names = [] then Inl (Invalid_argument ''MetalORM: bulk_upsert requires at least one conflict column'')
      else require_known t ''MetalORM: bulk_upsert conflict column is not mapped'' names)"

definition upsert_update_columns :: "entity_type \<Rightarrow> bulk_columns \<Rightarrow> string list \<Rightarrow> bulk_row \<Rightarrow> string list result" where
  "upsert_update_columns t selection conflict row =
     require_known t ''MetalORM: bulk_upsert update column is not mapped''
       (case selection of
          ColumnsDefault \<Rightarrow> filter (\<lambda>c. known_column t c \<and> c \<notin> set conflict) (List.map da_column row)
        | ColumnsAll ns \<Rightarrow> mapped_columns t
        | ColumnsSelected ns \<Rightarrow> ns)"

definition upsert_conflict :: "string list \<Rightarrow> string list \<Rightarrow> insert_node \<Rightarrow> insert_node result" where
  "upsert_conflict conflict updates n =
     (if updates = [] then Inr (conflict_do_nothing conflict None n)
      else conflict_do_update conflict None (List.map (\<lambda>c. \<lparr>da_column = c, da_value = DmlExcluded c\<rparr>) updates) [] n)"

definition bulk_upsert ::
  "('d, 'e) session_env \<Rightarrow> entity_type \<Rightarrow> bulk_row list \<Rightarrow> ('d, 'e) bulk_options \<Rightarrow> (nat \<Rightarrow> u64) \<Rightarrow> bulk_columns \<Rightarrow>
     bulk_columns \<Rightarrow> bulk_columns \<Rightarrow> ('d, 'e, bulk_result) session_action" where
  "bulk_upsert E t rows opt elapsed conflict_columns update_columns returning =
     (case rows of
        [] \<Rightarrow> act_return empty_bulk_result
      | row # _ \<Rightarrow>
          act_bind (act_lift (upsert_conflict_columns t conflict_columns)) (\<lambda>conflict.
          act_bind (act_lift (upsert_update_columns t update_columns conflict row)) (\<lambda>updates.
          act_bind (act_lift (resolve_returning_columns t returning)) (\<lambda>ret.
            bulk_run E opt elapsed Batch (run_chunk_query E (insert_chunk_query (env_dialect E) t
              (upsert_conflict conflict updates) ret) True) rows))))"

subsection \<open>UPDATE and DELETE\<close>

text \<open>A condition of the options: an expression over the type with number \<open>ty\<close>.\<close>

definition and_where_option ::
  "string \<Rightarrow> entity_type \<Rightarrow> (type_index \<times> expr) option \<Rightarrow> 'a delete_node_scheme \<Rightarrow> 'a delete_node_scheme result" where
  "and_where_option stmt t cond n = (case cond of None \<Rightarrow> Inr n | Some (ty, e) \<Rightarrow> and_where stmt (et_table t) ty e n)"

definition dml_returning_option :: "string list \<Rightarrow> 'a delete_node_scheme \<Rightarrow> 'a delete_node_scheme" where
  "dml_returning_option returning n = (if returning = [] then n else n\<lparr>dn_returning := returning_columns returning\<rparr>)"

definition by_predicate :: "bulk_row \<Rightarrow> string \<Rightarrow> dml_predicate result" where
  "by_predicate row c =
     (case List.find (\<lambda>a. da_column a = c) row of
        None \<Rightarrow> Inl (Invalid_argument (''MetalORM: bulk_update row is missing a reflected identity column required by '' @
          [squote] @ ''by'' @ [squote]))
      | Some a \<Rightarrow> rbind (assignment_value ''bulk_update'' a) (\<lambda>v. Inr \<lparr>dp_column = c, dp_op = OpEq, dp_value = v\<rparr>))"

definition row_assignments :: "entity_type \<Rightarrow> string list \<Rightarrow> bulk_row \<Rightarrow> dml_assignment list" where
  "row_assignments t by row = filter (\<lambda>a. da_column a \<notin> set by \<and> known_column t (da_column a)) row"

definition update_row_query ::
  "dialect \<Rightarrow> entity_type \<Rightarrow> (type_index \<times> expr) option \<Rightarrow> string list \<Rightarrow> dml_predicate list \<Rightarrow> dml_assignment list \<Rightarrow>
     compiled_query result" where
  "update_row_query d t cond returning preds asg =
     rbind (and_where_option ''UPDATE'' t cond (dml_where_predicates preds (update_set asg (new_update (et_table t))))) (\<lambda>n.
       compiled (compile_update d (dml_returning_option returning n)))"

text \<open>A row without columns to set is skipped.\<close>

definition update_bulk_row ::
  "('d, 'e) session_env \<Rightarrow> entity_type \<Rightarrow> (type_index \<times> expr) option \<Rightarrow> string list \<Rightarrow> string list \<Rightarrow> bulk_row \<Rightarrow>
     ('d, 'e, row list) session_action" where
  "update_bulk_row E t cond by returning row =
     act_bind (act_lift (rmap_list (by_predicate row) by)) (\<lambda>preds.
       if row_assignments t by row = [] then act_return []
       else act_bind (run_query E (update_row_query (env_dialect E) t cond returning preds (row_assignments t by row)))
         (\<lambda>r. act_return (qr_rows r)))"

definition update_chunk ::
  "('d, 'e) session_env \<Rightarrow> entity_type \<Rightarrow> (type_index \<times> expr) option \<Rightarrow> string list \<Rightarrow> string list \<Rightarrow> bulk_row list \<Rightarrow>
     ('d, 'e, chunk_outcome) session_action" where
  "update_chunk E t cond by returning chunk =
     act_bind (act_map (update_bulk_row E t cond by returning) chunk) (\<lambda>rs.
       act_return \<lparr>co_processed = length chunk, co_returning = concat rs, co_elapsed = 0\<rparr>)"

definition bulk_update ::
  "('d, 'e) session_env \<Rightarrow> entity_type \<Rightarrow> bulk_row list \<Rightarrow> ('d, 'e) bulk_options \<Rightarrow> (nat \<Rightarrow> u64) \<Rightarrow> bulk_columns \<Rightarrow>
     (type_index \<times> expr) option \<Rightarrow> bulk_columns \<Rightarrow> ('d, 'e, bulk_result) session_action" where
  "bulk_update E t rows opt elapsed by cond returning =
     (if rows = [] then act_return empty_bulk_result
      else act_bind (act_lift (resolve_by_columns t False by)) (\<lambda>cs.
        act_bind (act_lift (resolve_returning_columns t returning)) (\<lambda>ret.
          bulk_run E opt elapsed Individual (update_chunk E t cond cs ret) rows)))"

definition update_where_query ::
  "dialect \<Rightarrow> entity_type \<Rightarrow> (type_index \<times> expr) option \<Rightarrow> string list \<Rightarrow> string \<Rightarrow> dml_assignment list \<Rightarrow> dbvalue list \<Rightarrow>
     compiled_query result" where
  "update_where_query d t cond returning by asg ids =
     rbind (and_where_option ''UPDATE'' t cond (where_in by ids False (update_set asg (new_update (et_table t))))) (\<lambda>n.
       compiled (compile_update d (dml_returning_option returning n)))"

definition bulk_update_where ::
  "('d, 'e) session_env \<Rightarrow> entity_type \<Rightarrow> dbvalue list \<Rightarrow> bulk_row \<Rightarrow> ('d, 'e) bulk_options \<Rightarrow> (nat \<Rightarrow> u64) \<Rightarrow>
     bulk_columns \<Rightarrow> (type_index \<times> expr) option \<Rightarrow> bulk_columns \<Rightarrow> ('d, 'e, bulk_result) session_action" where
  "bulk_update_where E t ids row opt elapsed by cond returning =
     (if ids = [] then act_return empty_bulk_result
      else act_bind (act_lift (resolve_by_columns t True by)) (\<lambda>cs.
        act_bind (act_lift (resolve_returning_columns t returning)) (\<lambda>ret.
          let asg = filter (\<lambda>a. known_column t (da_column a)) row in
          if asg = []
          then act_throw (Invalid_argument ''MetalORM: bulk_update_where requires at least one mapped SET column'')
          else bulk_run E opt elapsed WhereIn
            (run_chunk_query E (update_where_query (env_dialect E) t cond ret (List.hd cs) asg) True) ids)))"

definition delete_chunk_query ::
  "dialect \<Rightarrow> entity_type \<Rightarrow> (type_index \<times> expr) option \<Rightarrow> string \<Rightarrow> dbvalue list \<Rightarrow> compiled_query result" where
  "delete_chunk_query d t cond by ids =
     rbind (and_where_option ''DELETE'' t cond (where_in by ids False (new_delete (et_table t)))) (\<lambda>n.
       compiled (compile_delete d n))"

definition bulk_delete ::
  "('d, 'e) session_env \<Rightarrow> entity_type \<Rightarrow> dbvalue list \<Rightarrow> ('d, 'e) bulk_options \<Rightarrow> (nat \<Rightarrow> u64) \<Rightarrow> bulk_columns \<Rightarrow>
     (type_index \<times> expr) option \<Rightarrow> ('d, 'e, bulk_result) session_action" where
  "bulk_delete E t ids opt elapsed by cond =
     (if ids = [] then act_return empty_bulk_result
      else act_bind (act_lift (resolve_by_columns t True by)) (\<lambda>cs.
        bulk_run E opt elapsed WhereIn (run_chunk_query E (delete_chunk_query (env_dialect E) t cond (List.hd cs)) False) ids))"

text \<open>One DELETE by a condition; the number of rows is not reported.\<close>

definition bulk_delete_where ::
  "('d, 'e) session_env \<Rightarrow> entity_type \<Rightarrow> type_index \<Rightarrow> expr \<Rightarrow> bool \<Rightarrow> ('d, 'e, bulk_result) session_action" where
  "bulk_delete_where E t ty cond transactional =
     maybe_transaction E transactional (
       act_bind (run_query E (rbind (where_expression ''DELETE'' (et_table t) ty cond (new_delete (et_table t)))
         (\<lambda>n. compiled (compile_delete (env_dialect E) n)))) (\<lambda>_.
       act_return (empty_bulk_result\<lparr>br_chunks := 1, br_metadata :=
         Some \<lparr>bm_strategy = WhereIn, bm_dialect = dialect_name (env_dialect E), bm_returning = True\<rparr>\<rparr>)))"

end
