(* ===== verification/Bulk_Properties.thy ===== *)
theory Bulk_Properties
  imports Bulk
begin

section \<open>Properties of bulk operations\<close>

subsection \<open>The chunks are the rows\<close>

text \<open>The numbers do not wrap: no \<open>chunk_size\<close> close to \<open>2 ^ 64\<close>.\<close>

definition chunkable :: "u64 \<Rightarrow> 'x list \<Rightarrow> bool" where
  "chunkable sz xs \<longleftrightarrow> sz \<noteq> 0 \<and> length xs + unat sz < 2 ^ 64"

definition chunks :: "u64 \<Rightarrow> 'x list \<Rightarrow> 'x list list" where
  "chunks sz xs = List.map (chunk_slice sz xs) [0..<total_chunks (length xs) sz]"

lemma total_chunks_ceiling:
  assumes "chunkable sz xs"
  shows "total_chunks (length xs) sz = (length xs + unat sz - 1) div unat sz"
proof (cases "xs = []")
  case False
  from assms have sz: "0 < unat sz" "length xs + unat sz < 2 ^ 64" by (simp_all add: chunkable_def unat_gt_0)
  have "word_of_nat (length xs) + sz - 1 = (word_of_nat (length xs + unat sz - 1) :: u64)"
    using sz(1) by (simp add: of_nat_diff)
  with sz have "unat (word_of_nat (length xs) + sz - 1) = length xs + unat sz - 1"
    by (simp only: unat_of_nat) simp
  with False show ?thesis by (simp add: total_chunks_def unat_div)
qed (use assms in \<open>simp add: total_chunks_def chunkable_def unat_gt_0\<close>)

lemma chunk_slice_block:
  assumes "chunkable sz xs" "i < total_chunks (length xs) sz"
  shows "chunk_slice sz xs i = take (unat sz) (drop (i * unat sz) xs)" "i * unat sz < length xs"
proof -
  from assms(1) have sz: "0 < unat sz" "length xs + unat sz < 2 ^ 64" by (simp_all add: chunkable_def unat_gt_0)
  from assms have "Suc i \<le> (length xs + unat sz - 1) div unat sz" by (simp add: total_chunks_ceiling)
  then have "Suc i * unat sz \<le> length xs + unat sz - 1" using sz(1) by (simp add: less_eq_div_iff_mult_less_eq)
  with sz(1) show below: "i * unat sz < length xs" by simp
  have "word_of_nat i * sz = word_of_nat (i * unat sz)" "word_of_nat i * sz + sz = word_of_nat (i * unat sz + unat sz)" by simp_all
  with below sz have "unat (word_of_nat i * sz) = i * unat sz" "unat (word_of_nat i * sz + sz) = i * unat sz + unat sz"
    by (simp_all only: unat_of_nat) simp_all
  then show "chunk_slice sz xs i = take (unat sz) (drop (i * unat sz) xs)"
    by (auto simp: chunk_slice_def Let_def min_def)
qed

lemma concat_slices: "concat (List.map (\<lambda>i. take n (drop (i * n) xs)) [0..<m]) = take (m * n) xs"
  by (induction m) (simp_all add: add.commute [of n] take_add)

lemma concat_chunks:
  assumes "chunkable sz xs"
  shows "concat (chunks sz xs) = xs"
proof -
  let ?n = "total_chunks (length xs) sz"
  from assms have sz: "0 < unat sz" by (simp add: chunkable_def unat_gt_0)
  have "chunks sz xs = List.map (\<lambda>i. take (unat sz) (drop (i * unat sz) xs)) [0..<?n]"
    using chunk_slice_block(1) [OF assms] by (simp add: chunks_def)
  then have "concat (chunks sz xs) = take (?n * unat sz) xs" by (simp only: concat_slices)
  moreover have "length xs \<le> ?n * unat sz"
  proof -
    have "length xs + unat sz - 1 < (length xs + unat sz - 1) div unat sz * unat sz + unat sz"
      using sz by (metis div_mult_mod_eq add_strict_left_mono mod_less_divisor)
    then show ?thesis by (simp add: total_chunks_ceiling [OF assms])
  qed
  ultimately show ?thesis by simp
qed

lemma chunk_sizes:
  assumes "chunkable sz xs"
  shows "list_all (\<lambda>c. c \<noteq> [] \<and> length c \<le> unat sz \<and> set c \<subseteq> set xs) (chunks sz xs)"
proof -
  from assms have "0 < unat sz" by (simp add: chunkable_def unat_gt_0)
  then show ?thesis
    using chunk_slice_block [OF assms]
    by (auto simp: chunks_def list_all_iff simp flip: not_less dest!: in_set_takeD in_set_dropD)
qed

text \<open>
  With a \<open>chunk_size\<close> of \<open>SIZE_MAX\<close>, meant to send everything at once, the number of chunks wraps to 0
  and no row is sent.
\<close>

lemma huge_chunk_size_sends_nothing: "total_chunks 2 (- 1) = 0"
proof -
  have "unat ((1 :: u64) div - 1) = 0" by (simp only: unat_div unsigned_minus_1_eq_mask) (simp add: mask_eq_exp_minus_1)
  then show ?thesis by (simp add: total_chunks_def)
qed

subsection \<open>What a bulk operation that returns has done\<close>

lemma on_error_Inr: "on_error m h s = (Inr x, s') \<longleftrightarrow> m s = (Inr x, s')"
  by (auto simp: on_error_def split: prod.splits sum.splits)

lemma transaction_body:
  assumes "transaction E body s = (Inr x, s')"
  obtains s1 s2 where "body s1 = (Inr x, s2)"
  using assms
  by (auto simp: transaction_def Let_def act_bind_Inr on_error_Inr split: if_splits prod.splits sum.splits)

lemma bulk_run_outcomes:
  assumes "bulk_run E opt elapsed strategy exec xs s = (Inr r, s')"
  obtains os s1 s2 where "run_chunks opt elapsed exec xs s1 = (Inr os, s2)"
    "r = aggregate os (bo_timing opt) strategy (env_dialect E)"
proof -
  let ?body = "act_bind (run_chunks opt elapsed exec xs) (\<lambda>outcomes. act_return (aggregate outcomes (bo_timing opt) strategy (env_dialect E)))"
  from assms obtain s1 s2 where "?body s1 = (Inr r, s2)"
    by (auto simp: bulk_run_def maybe_transaction_def elim: transaction_body split: if_splits)
  then show thesis by (auto simp: act_bind_Inr intro: that)
qed

lemma act_map_outcomes:
  "act_map f xs s = (Inr ys, s') \<Longrightarrow> (\<And>x s y s'. x \<in> set xs \<Longrightarrow> f x s = (Inr y, s') \<Longrightarrow> g y = h x) \<Longrightarrow>
     List.map g ys = List.map h xs"
proof (induction xs arbitrary: s ys)
  case (Cons x xs)
  then obtain y s1 ys' where "f x s = (Inr y, s1)" "act_map f xs s1 = (Inr ys', s')" "ys = y # ys'"
    by (auto simp: act_bind_Inr)
  with Cons show ?case by fastforce
qed simp

lemma run_chunks_processed:
  assumes run: "run_chunks opt elapsed exec xs s = (Inr os, s')"
    and exec: "\<And>chunk s r s'. exec chunk s = (Inr r, s') \<Longrightarrow> co_processed r = length chunk"
  shows "List.map co_processed os = List.map length (chunks (bo_chunk_size opt) xs)"
proof -
  let ?f = "run_one opt elapsed exec xs"
  from run have map: "act_map ?f [0..<total_chunks (length xs) (bo_chunk_size opt)] s = (Inr os, s')"
    by (auto simp: run_chunks_def act_bind_Inr)
  have one: "co_processed r = length (chunk_slice (bo_chunk_size opt) xs i)" if "?f i s = (Inr r, s')" for i s r s'
    using that exec by (fastforce simp: run_one_def Let_def act_bind_Inr split: if_splits option.splits)
  have "List.map co_processed os =
      List.map (\<lambda>i. length (chunk_slice (bo_chunk_size opt) xs i)) [0..<total_chunks (length xs) (bo_chunk_size opt)]"
    by (rule act_map_outcomes [OF map]) (rule one)
  then show ?thesis by (simp add: chunks_def)
qed

definition bulk_counts :: "u64 \<Rightarrow> 'x list \<Rightarrow> bulk_result \<Rightarrow> bool" where
  "bulk_counts sz xs r \<longleftrightarrow> br_processed r = length xs \<and> br_chunks r = (length xs + unat sz - 1) div unat sz"

lemma bulk_run_counts:
  assumes run: "bulk_run E opt elapsed strategy exec xs s = (Inr r, s')" and sz: "chunkable (bo_chunk_size opt) xs"
    and exec: "\<And>chunk s r s'. exec chunk s = (Inr r, s') \<Longrightarrow> co_processed r = length chunk"
  shows "bulk_counts (bo_chunk_size opt) xs r"
proof -
  from run obtain os s1 s2 where os: "run_chunks opt elapsed exec xs s1 = (Inr os, s2)"
    and r: "r = aggregate os (bo_timing opt) strategy (env_dialect E)" by (rule bulk_run_outcomes)
  from os exec have lens: "List.map co_processed os = List.map length (chunks (bo_chunk_size opt) xs)"
    by (rule run_chunks_processed)
  then have "length os = length (chunks (bo_chunk_size opt) xs)" by (metis length_map)
  moreover have "sum_list (List.map length (chunks (bo_chunk_size opt) xs)) = length xs"
    using concat_chunks [OF sz] by (metis length_concat)
  ultimately show ?thesis
    using lens by (simp add: r aggregate_def bulk_counts_def chunks_def total_chunks_ceiling [OF sz])
qed

lemma chunk_query_processed: "run_chunk_query E q rows chunk s = (Inr r, s') \<Longrightarrow> co_processed r = length chunk"
  by (auto simp: run_chunk_query_def act_bind_Inr)

lemma update_chunk_processed: "update_chunk E t c by ret chunk s = (Inr r, s') \<Longrightarrow> co_processed r = length chunk"
  by (auto simp: update_chunk_def act_bind_Inr)

lemma empty_counts: "bulk_counts sz [] empty_bulk_result"
  by (cases "unat sz") (simp_all add: bulk_counts_def empty_bulk_result_def)

text \<open>An operation that returns has sent all chunks and counts every row.\<close>

lemma bulk_operations_count:
  "bulk_insert E t rows opt elapsed ret c s = (Inr r, s') \<Longrightarrow> chunkable (bo_chunk_size opt) rows \<Longrightarrow> bulk_counts (bo_chunk_size opt) rows r"
  "bulk_upsert E t rows opt elapsed cc uc ret s = (Inr r, s') \<Longrightarrow> chunkable (bo_chunk_size opt) rows \<Longrightarrow> bulk_counts (bo_chunk_size opt) rows r"
  "bulk_update E t rows opt elapsed by cond ret s = (Inr r, s') \<Longrightarrow> chunkable (bo_chunk_size opt) rows \<Longrightarrow> bulk_counts (bo_chunk_size opt) rows r"
  "bulk_update_where E t ids row opt elapsed by cond ret s = (Inr r, s') \<Longrightarrow> chunkable (bo_chunk_size opt) ids \<Longrightarrow> bulk_counts (bo_chunk_size opt) ids r"
  "bulk_delete E t ids opt elapsed by cond s = (Inr r, s') \<Longrightarrow> chunkable (bo_chunk_size opt) ids \<Longrightarrow> bulk_counts (bo_chunk_size opt) ids r"
  by (auto simp: bulk_insert_def bulk_upsert_def bulk_update_def bulk_update_where_def bulk_delete_def act_bind_Inr Let_def
      split: if_splits list.splits intro: empty_counts bulk_run_counts chunk_query_processed update_chunk_processed)

subsection \<open>The values of an INSERT\<close>

definition cell_values :: "dml_assignment list \<Rightarrow> string \<Rightarrow> dbvalue list" where
  "cell_values row c =
     (case List.find (\<lambda>a. da_column a = c) row of
        None \<Rightarrow> []
      | Some a \<Rightarrow> (case da_value a of DmlValue v \<Rightarrow> [v] | DmlExcluded _ \<Rightarrow> []))"

lemma cell_state: "compile_cell d row c ps = (Inr q, ps') \<Longrightarrow> ps' = ps @ cell_values row c"
  by (auto simp: compile_cell_def cell_values_def compile_dml_operand_def push_param_def result_simps
      split: option.splits dml_operand.splits if_splits)

lemma row_state: "compile_row d cs row ps = (Inr q, ps') \<Longrightarrow> ps' = ps @ concat (List.map (cell_values row) cs)"
  by (auto simp: compile_row_def result_simps intro: act_map_state [where f = "compile_cell d row" and g = "cell_values row"] cell_state)

lemma rows_state:
  "act_map (compile_row d cs) rows ps = (Inr qs, ps') \<Longrightarrow>
     ps' = ps @ concat (List.map (\<lambda>row. concat (List.map (cell_values row) cs)) rows)"
  by (rule act_map_state [OF row_state])

text \<open>The row assigns the columns \<open>cs\<close>, in this order.\<close>

lemma find_distinct:
  "distinct (List.map f xs) \<Longrightarrow> x \<in> set xs \<Longrightarrow> List.find (\<lambda>y. f y = f x) xs = Some x"
proof (induction xs)
  case (Cons y ys)
  then show ?case by (cases "y = x") auto
qed simp

lemma uniform_row:
  assumes "List.map da_column row = cs" "distinct cs"
  shows "concat (List.map (cell_values row) cs) = operand_values row"
proof -
  have "cell_values row (da_column a) = (case da_value a of DmlValue v \<Rightarrow> [v] | DmlExcluded _ \<Rightarrow> [])" if "a \<in> set row" for a
    using find_distinct [of da_column row a] that assms by (simp add: cell_values_def)
  then show ?thesis
    unfolding operand_values_def assms(1) [symmetric] by (simp cong: map_cong)
qed

lemma insert_rows_uniform:
  assumes "cs \<noteq> []"
  shows "list_all (\<lambda>row. List.map da_column row = cs) rows \<Longrightarrow> in_select_source n = None \<Longrightarrow> in_columns n = cs \<Longrightarrow>
    insert_rows rows n = Inr (n\<lparr>in_rows := in_rows n @ rows\<rparr>)"
proof (induction rows arbitrary: n)
  case (Cons row rows)
  with assms have "row \<noteq> []" by auto
  with Cons assms show ?case by (simp add: insert_values_def Let_def)
qed simp

lemma insert_chunk_params:
  assumes cs: "cs \<noteq> []" "distinct cs" and rows: "list_all (\<lambda>row. List.map da_column row = cs) rows" "rows \<noteq> []"
    and q: "insert_chunk_query d t Inr ret rows = Inr q"
  shows "cq_params q = concat (List.map operand_values rows)"
proof -
  obtain row rest where split: "rows = row # rest" using rows(2) by (cases rows) auto
  with rows(1) have row: "List.map da_column row = cs" and rest: "list_all (\<lambda>row. List.map da_column row = cs) rest" by auto
  from row cs(1) have "row \<noteq> []" by auto
  with row have "insert_values row (new_insert (et_table t)) = Inr ((new_insert (et_table t))\<lparr>in_columns := cs, in_rows := [row]\<rparr>)"
    by (simp add: insert_values_def new_insert_def Let_def)
  with insert_rows_uniform [OF cs(1) rest, of "(new_insert (et_table t))\<lparr>in_columns := cs, in_rows := [row]\<rparr>"] split
  have "insert_rows rows (new_insert (et_table t)) = Inr ((new_insert (et_table t))\<lparr>in_columns := cs, in_rows := rows\<rparr>)"
    by (simp add: new_insert_def)
  with q obtain n where n: "compiled (compile_insert d n) = Inr q" "in_columns n = cs" "in_rows n = rows"
    "in_select_source n = None" "in_conflict n = None"
    by (auto simp: insert_chunk_query_def with_returning_def insert_returning_def new_insert_def split: if_splits)
  then have "cq_params q = concat (List.map (\<lambda>row. concat (List.map (cell_values row) cs)) rows)"
    using cs(1) rows(2)
    by (auto simp: compiled_Inr compile_insert_def compile_source_def result_simps dest!: rows_state)
  also have "\<dots> = concat (List.map operand_values rows)"
    using rows(1) uniform_row [OF _ cs(2)] by (auto simp: list_all_iff intro!: arg_cong [where f = concat] map_cong)
  finally show ?thesis .
qed

lemma insert_chunks_params:
  assumes "cs \<noteq> []" "distinct cs"
  shows "list_all (\<lambda>c. c \<noteq> [] \<and> list_all (\<lambda>row. List.map da_column row = cs) c) css \<Longrightarrow>
    rmap_list (insert_chunk_query d t Inr ret) css = Inr qs \<Longrightarrow>
    concat (List.map cq_params qs) = concat (List.map operand_values (concat css))"
proof (induction css arbitrary: qs)
  case (Cons c css)
  then show ?case by (auto simp: result_simps insert_chunk_params [OF assms])
qed simp


definition demo_bulk_rows :: "bulk_row list" where
  "demo_bulk_rows = List.map (\<lambda>i. [\<lparr>da_column = ''id'', da_value = DmlValue (VInt i)\<rparr>]) [1, 2, 3]"

definition demo_bulk_type :: entity_type where
  "demo_bulk_type = \<lparr>et_table = ''t'', et_primary_key = ''id'', et_generated = False, et_columns = [(''id'', TInt True 64)],
     et_relations = [], et_queues = 0\<rparr>"


end
