(* ===== verification/Bulk_Workers.thy ===== *)
theory Bulk_Workers
  imports Bulk_Properties
begin

section \<open>The worker threads of a bulk operation (run_chunks in include/metal/bulk.hpp)\<close>

text \<open>
  With a concurrency above one the chunks are taken by worker threads: each looks at the flag \<open>failed\<close>, takes
  the next index, runs the chunk and comes back; an exception is kept if it is the first, and then the flag
  is set. A step of a thread is one access to the shared variables. The thread that started them waits for
  all to end and throws the exception again.
\<close>

datatype worker_pc = Checking | Taking | Running nat | Failing exn | Flagging | Stopped

record workers =
  wk_next :: nat
  wk_failed :: bool
  wk_error :: "exn option"
  wk_outcomes :: "nat list"
  wk_pc :: "nat \<Rightarrow> worker_pc"

definition start_workers :: workers where
  "start_workers = \<lparr>wk_next = 0, wk_failed = False, wk_error = None, wk_outcomes = [], wk_pc = (\<lambda>_. Checking)\<rparr>"

definition worker_count :: "nat \<Rightarrow> nat \<Rightarrow> nat" where
  "worker_count concurrency cnt = min concurrency cnt"

definition goto :: "nat \<Rightarrow> worker_pc \<Rightarrow> workers \<Rightarrow> workers" where
  "goto w p s = s\<lparr>wk_pc := (wk_pc s)(w := p)\<rparr>"

text \<open>A step of one of \<open>n\<close> workers on \<open>cnt\<close> chunks; whether a chunk fails is open.\<close>

inductive worker_step :: "nat \<Rightarrow> nat \<Rightarrow> workers \<Rightarrow> workers \<Rightarrow> bool" for n cnt where
  check_stop: "w < n \<Longrightarrow> wk_pc s w = Checking \<Longrightarrow> wk_failed s \<Longrightarrow> worker_step n cnt s (goto w Stopped s)"
| check_go: "w < n \<Longrightarrow> wk_pc s w = Checking \<Longrightarrow> \<not> wk_failed s \<Longrightarrow> worker_step n cnt s (goto w Taking s)"
| take_index: "w < n \<Longrightarrow> wk_pc s w = Taking \<Longrightarrow> wk_next s < cnt \<Longrightarrow>
    worker_step n cnt s (goto w (Running (wk_next s)) s\<lparr>wk_next := Suc (wk_next s)\<rparr>)"
| take_none: "w < n \<Longrightarrow> wk_pc s w = Taking \<Longrightarrow> \<not> wk_next s < cnt \<Longrightarrow>
    worker_step n cnt s (goto w Stopped s\<lparr>wk_next := Suc (wk_next s)\<rparr>)"
| run_ok: "w < n \<Longrightarrow> wk_pc s w = Running i \<Longrightarrow>
    worker_step n cnt s (goto w Checking s\<lparr>wk_outcomes := i # wk_outcomes s\<rparr>)"
| run_fail: "w < n \<Longrightarrow> wk_pc s w = Running i \<Longrightarrow> worker_step n cnt s (goto w (Failing e) s)"
| note_error: "w < n \<Longrightarrow> wk_pc s w = Failing e \<Longrightarrow>
    worker_step n cnt s (goto w Flagging s\<lparr>wk_error := (if wk_error s = None then Some e else wk_error s)\<rparr>)"
| set_failed: "w < n \<Longrightarrow> wk_pc s w = Flagging \<Longrightarrow> worker_step n cnt s (goto w Stopped s\<lparr>wk_failed := True\<rparr>)"

definition workers_reach :: "nat \<Rightarrow> nat \<Rightarrow> workers \<Rightarrow> bool" where
  "workers_reach n cnt s \<longleftrightarrow> (worker_step n cnt)\<^sup>*\<^sup>* start_workers s"

text \<open>
  Every index below \<open>next\<close> was taken once: its outcome is there, or one worker runs it, or its chunk failed.
  A worker stops only when nothing is left or a chunk failed, which is noted before the flag is set.
\<close>

definition failing :: "workers \<Rightarrow> bool" where
  "failing s \<longleftrightarrow> wk_error s \<noteq> None \<or> (\<exists>w e. wk_pc s w = Failing e)"

definition once :: "nat \<Rightarrow> workers \<Rightarrow> bool" where
  "once cnt s \<longleftrightarrow> distinct (wk_outcomes s) \<and> (\<forall>i \<in> set (wk_outcomes s). i < wk_next s \<and> i < cnt) \<and>
     (\<forall>w i. wk_pc s w = Running i \<longrightarrow> i < wk_next s \<and> i < cnt \<and> i \<notin> set (wk_outcomes s)) \<and>
     (\<forall>w v i. wk_pc s w = Running i \<longrightarrow> wk_pc s v = Running i \<longrightarrow> w = v)"

definition accounted :: "nat \<Rightarrow> workers \<Rightarrow> bool" where
  "accounted cnt s \<longleftrightarrow>
     (\<not> failing s \<longrightarrow> (\<forall>i < cnt. i < wk_next s \<longrightarrow> i \<in> set (wk_outcomes s) \<or> (\<exists>w. wk_pc s w = Running i)))"

definition stops_right :: "nat \<Rightarrow> workers \<Rightarrow> bool" where
  "stops_right cnt s \<longleftrightarrow> (\<forall>w. wk_pc s w = Stopped \<longrightarrow> wk_failed s \<or> cnt \<le> wk_next s) \<and>
     (\<forall>w. wk_pc s w = Flagging \<longrightarrow> wk_error s \<noteq> None) \<and> (wk_failed s \<longrightarrow> wk_error s \<noteq> None)"

definition workers_inv :: "nat \<Rightarrow> workers \<Rightarrow> bool" where
  "workers_inv cnt s \<longleftrightarrow> once cnt s \<and> accounted cnt s \<and> stops_right cnt s"

lemma workers_start: "workers_inv cnt start_workers"
  by (simp add: workers_inv_def once_def accounted_def stops_right_def start_workers_def)

lemma once_step: "worker_step n cnt s s' \<Longrightarrow> once cnt s \<Longrightarrow> once cnt s'"
proof (induction rule: worker_step.induct)
  case (take_index w s)
  then show ?case unfolding once_def goto_def by (auto simp: less_Suc_eq)
next
  case (run_ok w s i)
  then show ?case unfolding once_def goto_def by (auto; blast)
qed (auto simp: once_def goto_def less_SucI)

lemma accounted_step:
  assumes "worker_step n cnt s s'" "accounted cnt s" "stops_right cnt s"
  shows "accounted cnt s'"
  using assms
proof (induction rule: worker_step.induct)
  case (take_index w s)
  then have other: "wk_pc s v = Running i \<Longrightarrow> v \<noteq> w" "wk_pc s v = Failing e \<Longrightarrow> v \<noteq> w" for v i e by auto
  with take_index show ?case by (auto simp: accounted_def failing_def goto_def less_Suc_eq) (metis other less_trans)+
next
  case (take_none w s)
  then have other: "wk_pc s v = Running i \<Longrightarrow> v \<noteq> w" "wk_pc s v = Failing e \<Longrightarrow> v \<noteq> w" for v i e by auto
  with take_none show ?case by (auto simp: accounted_def failing_def goto_def not_less) (metis other less_le_trans)+
next
  case (run_ok w s i)
  then have other: "wk_pc s v = Failing e \<Longrightarrow> v \<noteq> w" for v e by auto
  with run_ok show ?case by (auto simp: accounted_def failing_def goto_def) (metis other worker_pc.inject(1))+
next
  case (check_go w s)
  then have other: "wk_pc s v = Running i \<Longrightarrow> v \<noteq> w" "wk_pc s v = Failing e \<Longrightarrow> v \<noteq> w" for v i e by auto
  with check_go show ?case by (auto simp: accounted_def failing_def goto_def) (metis other)+
qed (auto simp: accounted_def failing_def goto_def stops_right_def)

lemma stops_right_step: "worker_step n cnt s s' \<Longrightarrow> stops_right cnt s \<Longrightarrow> stops_right cnt s'"
  by (induction rule: worker_step.induct) (auto simp: stops_right_def goto_def)

lemma worker_step_inv: "worker_step n cnt s s' \<Longrightarrow> workers_inv cnt s \<Longrightarrow> workers_inv cnt s'"
  by (simp add: workers_inv_def once_step accounted_step stops_right_step)

lemma workers_reach_inv: "workers_reach n cnt s \<Longrightarrow> workers_inv cnt s"
  unfolding workers_reach_def
  by (induction rule: rtranclp_induct) (auto intro: workers_start worker_step_inv)

text \<open>Workers beyond \<open>n\<close> do not exist; none of them runs anything.\<close>

lemma idle_workers: "workers_reach n cnt s \<Longrightarrow> n \<le> w \<Longrightarrow> wk_pc s w = Checking"
  unfolding workers_reach_def
proof (induction rule: rtranclp_induct)
  case (step s s')
  from step.hyps(2) step.IH step.prems show ?case
    by (induction rule: worker_step.induct) (auto simp: goto_def)
qed (simp add: start_workers_def)

text \<open>
  C16. However the worker threads are interleaved, no chunk is executed successfully twice, and when all of
  them have ended without an exception to throw again, every chunk was executed.
\<close>

theorem workers_complete:
  assumes "workers_reach (worker_count c cnt) cnt s" and "0 < c"
  shows "distinct (wk_outcomes s) \<and> set (wk_outcomes s) \<subseteq> {..<cnt} \<and>
    ((\<forall>w < worker_count c cnt. wk_pc s w = Stopped) \<and> wk_error s = None \<longrightarrow> set (wk_outcomes s) = {..<cnt})"
proof -
  note inv = workers_reach_inv [OF assms(1)]
  have "set (wk_outcomes s) = {..<cnt}"
    if stopped: "\<forall>w < worker_count c cnt. wk_pc s w = Stopped" and ok: "wk_error s = None"
  proof (cases "cnt = 0")
    case False
    with assms(2) stopped have "wk_pc s 0 = Stopped" by (simp add: worker_count_def)
    with inv ok have all: "cnt \<le> wk_next s" by (auto simp: workers_inv_def stops_right_def)
    have pc: "wk_pc s w \<in> {Stopped, Checking}" for w
      using stopped idle_workers [OF assms(1), of w] by (cases "w < worker_count c cnt") auto
    have "\<not> failing s"
    proof
      assume "failing s"
      with ok obtain w e where "wk_pc s w = Failing e" by (auto simp: failing_def)
      with pc [of w] show False by simp
    qed
    moreover have "wk_pc s w \<noteq> Running i" for w i using pc [of w] by auto
    ultimately show ?thesis using inv all by (auto simp: workers_inv_def accounted_def once_def)
  qed (use inv in \<open>auto simp: workers_inv_def once_def\<close>)
  with inv show ?thesis by (auto simp: workers_inv_def once_def)
qed

lemma step_to: "worker_step n cnt s t \<Longrightarrow> t = s' \<Longrightarrow> worker_step n cnt s s'"
  by simp

text \<open>Two workers that take one chunk each.\<close>

lemma reach_start: "workers_reach n cnt start_workers"
  by (simp add: workers_reach_def)

lemma reach_step: "workers_reach n cnt s \<Longrightarrow> worker_step n cnt s s' \<Longrightarrow> workers_reach n cnt s'"
  unfolding workers_reach_def by (rule rtranclp.rtrancl_into_rtrancl)

lemma two_workers:
  "workers_reach 2 2 \<lparr>wk_next = 4, wk_failed = False, wk_error = None, wk_outcomes = [0, 1],
     wk_pc = (\<lambda>w. if w < 2 then Stopped else Checking)\<rparr>"
proof -
  let ?at = "\<lambda>k os p q. \<lparr>wk_next = k, wk_failed = False, wk_error = None, wk_outcomes = os,
    wk_pc = (\<lambda>w. if w = 0 then p else if w = 1 then q else Checking)\<rparr>"
  have "?at 0 [] Checking Checking = start_workers" by (auto simp: start_workers_def)
  then have "workers_reach 2 2 (?at 0 [] Checking Checking)" using reach_start by metis
  moreover have "worker_step 2 2 (?at 0 [] Checking Checking) (?at 0 [] Taking Checking)"
    by (rule step_to [OF worker_step.check_go [where w = 0]]) (auto simp: goto_def)
  moreover have "worker_step 2 2 (?at 0 [] Taking Checking) (?at 1 [] (Running 0) Checking)"
    by (rule step_to [OF worker_step.take_index [where w = 0]]) (auto simp: goto_def)
  moreover have "worker_step 2 2 (?at 1 [] (Running 0) Checking) (?at 1 [] (Running 0) Taking)"
    by (rule step_to [OF worker_step.check_go [where w = 1]]) (auto simp: goto_def)
  moreover have "worker_step 2 2 (?at 1 [] (Running 0) Taking) (?at 2 [] (Running 0) (Running 1))"
    by (rule step_to [OF worker_step.take_index [where w = 1]]) (auto simp: goto_def)
  moreover have "worker_step 2 2 (?at 2 [] (Running 0) (Running 1)) (?at 2 [1] (Running 0) Checking)"
    by (rule step_to [OF worker_step.run_ok [where w = 1 and i = 1]]) (auto simp: goto_def)
  moreover have "worker_step 2 2 (?at 2 [1] (Running 0) Checking) (?at 2 [0, 1] Checking Checking)"
    by (rule step_to [OF worker_step.run_ok [where w = 0 and i = 0]]) (auto simp: goto_def)
  moreover have "worker_step 2 2 (?at 2 [0, 1] Checking Checking) (?at 2 [0, 1] Taking Checking)"
    by (rule step_to [OF worker_step.check_go [where w = 0]]) (auto simp: goto_def)
  moreover have "worker_step 2 2 (?at 2 [0, 1] Taking Checking) (?at 3 [0, 1] Stopped Checking)"
    by (rule step_to [OF worker_step.take_none [where w = 0]]) (auto simp: goto_def)
  moreover have "worker_step 2 2 (?at 3 [0, 1] Stopped Checking) (?at 3 [0, 1] Stopped Taking)"
    by (rule step_to [OF worker_step.check_go [where w = 1]]) (auto simp: goto_def)
  moreover have "worker_step 2 2 (?at 3 [0, 1] Stopped Taking) (?at 4 [0, 1] Stopped Stopped)"
    by (rule step_to [OF worker_step.take_none [where w = 1]]) (auto simp: goto_def)
  ultimately have "workers_reach 2 2 (?at 4 [0, 1] Stopped Stopped)" by (meson reach_step)
  moreover have "(\<lambda>w. if w = 0 then Stopped else if w = 1 then Stopped else Checking) = (\<lambda>w :: nat. if w < 2 then Stopped else Checking)"
    by auto
  ultimately show ?thesis by simp
qed

theorem workers_complete_witness:
  "set (wk_outcomes \<lparr>wk_next = 4, wk_failed = False, wk_error = None, wk_outcomes = [0, 1],
     wk_pc = (\<lambda>w. if w < 2 then Stopped else Checking)\<rparr>) = {..<2}"
  using workers_complete [of 2 2 "\<lparr>wk_next = 4, wk_failed = False, wk_error = None, wk_outcomes = [0, 1],
     wk_pc = (\<lambda>w. if w < 2 then Stopped else Checking)\<rparr>"] two_workers by (simp add: worker_count_def)

end
