(* ===== verification/Graph.thy ===== *)
theory Graph
  imports Relation_Members Select_Query
begin

section \<open>Graphs of entities (include/metal/graph_persistence.hpp)\<close>

text \<open>
  A payload describes an entity with its members and relations, which hold payloads in turn; saving it
  finds or makes the entities and links them. The templates over the type and the relation become data:
  the type of a payload, and the position of a relation among those of its entity. First, what the graph
  needs of the queries of a Session (\<open>Session::find\<close>, \<open>EntityQuery::first\<close> in orm.hpp).
\<close>

subsection \<open>Finding an entity\<close>

definition execute_query ::
  "('d, 'e) session_env \<Rightarrow> type_index \<Rightarrow> select_state \<Rightarrow> ('d, 'e, key list) session_action" where
  "execute_query E ty q =
     act_bind (run_query E (compile_query (env_types E) ty q (env_dialect E) 0)) (\<lambda>r. act_map (hydrate E ty) (qr_rows r))"

text \<open>The relations to include are loaded for all the roots, one after the other.\<close>

definition query_all ::
  "('d, 'e) session_env \<Rightarrow> type_index \<Rightarrow> nat list \<Rightarrow> select_state \<Rightarrow> ('d, 'e, key list) session_action" where
  "query_all E ty includes q =
     act_bind (execute_query E ty q) (\<lambda>roots.
     act_bind (act_iter (\<lambda>i. load_relation E (et_relations (env_types E ty) ! i) i roots) includes) (\<lambda>_.
     act_return roots))"

definition query_first ::
  "('d, 'e) session_env \<Rightarrow> type_index \<Rightarrow> nat list \<Rightarrow> select_state \<Rightarrow> ('d, 'e, key option) session_action" where
  "query_first E ty includes q = act_bind (query_all E ty includes (sel_limit 1 q)) (\<lambda>ks.
     act_return (case ks of [] \<Rightarrow> None | k # _ \<Rightarrow> Some k))"

definition session_find ::
  "('d, 'e) session_env \<Rightarrow> type_index \<Rightarrow> dbvalue \<Rightarrow> ('d, 'e, key option) session_action" where
  "session_find E ty pk s =
     (case identity_get E ty pk s of
        Some k \<Rightarrow> (Inr (Some k), s)
      | None \<Rightarrow>
          act_bind (run_query E (compile_query (env_types E) ty
            (sel_limit 1 (where_column ty (et_primary_key (env_types E ty)) OpEq pk new_select)) (env_dialect E) 0)) (\<lambda>r.
          case qr_rows r of
            [] \<Rightarrow> act_return None
          | row # _ \<Rightarrow> act_bind (hydrate E ty row) (\<lambda>k. act_return (Some k))) s)"

definition column_is :: "type_index \<Rightarrow> string \<Rightarrow> dbvalue \<Rightarrow> expr" where
  "column_is ty c v = op_eq (InField \<lparr>cr_owner = ty, cr_column = c\<rparr>) (InValue v)"

text \<open>The key is converted to the type of the column and back.\<close>

definition find_by_key ::
  "('d, 'e) session_env \<Rightarrow> type_index \<Rightarrow> string \<Rightarrow> dbvalue \<Rightarrow> ('d, 'e, key option) session_action" where
  "find_by_key E ty c v =
     act_bind (act_lift (from_value (env_fp E) (column_type (env_types E ty) c) v)) (\<lambda>x.
       if c = et_primary_key (env_types E ty) then session_find E ty (to_value x)
       else query_first E ty [] (sel_where (column_is ty c (to_value x)) new_select))"

definition stub_by_key ::
  "('d, 'e) session_env \<Rightarrow> type_index \<Rightarrow> string \<Rightarrow> dbvalue \<Rightarrow> bool \<Rightarrow> ('d, 'e, key) session_action" where
  "stub_by_key E ty c v tracked =
     act_bind (find_by_key E ty c v) (\<lambda>found.
       case found of
         Some k \<Rightarrow> act_return k
       | None \<Rightarrow>
           act_bind (make_shared E ty) (\<lambda>k.
           act_bind (assign_member E k c v) (\<lambda>_.
           act_bind (act_when tracked (persist E (Some k))) (\<lambda>_. act_return k))))"

definition key_missing :: "('d, 'e) session_env \<Rightarrow> ('d, 'e) session \<Rightarrow> key \<Rightarrow> string \<Rightarrow> bool" where
  "key_missing E s k c \<longleftrightarrow> missing_relation_key (type_of E s k) c (key_value s k c)"

subsection \<open>Payloads\<close>

record graph_options =
  go_prune :: bool
  go_transactional :: bool
  go_flush :: bool

text \<open>
  A payload has the type, the primary key if it was set, the members to set, and the relation actions
  before and after the entity is persisted. A relation is named by its position.
\<close>

datatype graph_payload =
    Payload (gp_type: type_index) (gp_key: "dbvalue option") (gp_scalars: "(string \<times> cpp_value) list")
      (gp_pre: "graph_action list") (gp_post: "graph_action list")
  and graph_action =
    RelatePayload nat graph_payload
  | RelateKey nat dbvalue
  | ClearRelation nat
  | RelateItems nat "graph_item list"
  and graph_item =
    ItemPayload graph_payload "patch option"
  | ItemEntity key
  | ItemKey dbvalue "patch option"

definition new_graph :: "type_index \<Rightarrow> graph_payload" where
  "new_graph ty = Payload ty None [] [] []"

definition graph_set :: "('d, 'e) session_env \<Rightarrow> string \<Rightarrow> cpp_value \<Rightarrow> graph_payload \<Rightarrow> graph_payload" where
  "graph_set E c x p = Payload (gp_type p)
     (if c = et_primary_key (env_types E (gp_type p)) then Some (to_value x) else gp_key p)
     (gp_scalars p @ [(c, x)]) (gp_pre p) (gp_post p)"

text \<open>An action on a relation whose key is in the entity itself comes before, the others after.\<close>

definition relation_kind_of :: "('d, 'e) session_env \<Rightarrow> graph_payload \<Rightarrow> nat \<Rightarrow> relation_kind" where
  "relation_kind_of E p i = rm_kind (et_relations (env_types E (gp_type p)) ! i)"

definition add_action :: "('d, 'e) session_env \<Rightarrow> nat \<Rightarrow> graph_action \<Rightarrow> graph_payload \<Rightarrow> graph_payload" where
  "add_action E i a p =
     (if relation_kind_of E p i \<in> {BelongsTo, MorphTo}
      then Payload (gp_type p) (gp_key p) (gp_scalars p) (gp_pre p @ [a]) (gp_post p)
      else Payload (gp_type p) (gp_key p) (gp_scalars p) (gp_pre p) (gp_post p @ [a]))"

definition graph_relation :: "('d, 'e) session_env \<Rightarrow> nat \<Rightarrow> graph_payload \<Rightarrow> graph_payload \<Rightarrow> graph_payload" where
  "graph_relation E i q p = add_action E i (RelatePayload i q) p"

definition graph_relation_id :: "('d, 'e) session_env \<Rightarrow> nat \<Rightarrow> dbvalue \<Rightarrow> graph_payload \<Rightarrow> graph_payload" where
  "graph_relation_id E i v p = add_action E i (RelateKey i v) p"

definition graph_clear_relation :: "('d, 'e) session_env \<Rightarrow> nat \<Rightarrow> graph_payload \<Rightarrow> graph_payload" where
  "graph_clear_relation E i p = add_action E i (ClearRelation i) p"

definition graph_collection :: "('d, 'e) session_env \<Rightarrow> nat \<Rightarrow> graph_item list \<Rightarrow> graph_payload \<Rightarrow> graph_payload" where
  "graph_collection E i items p = add_action E i (RelateItems i items) p"

definition item_entity :: "key option \<Rightarrow> graph_item result" where
  "item_entity k = (case k of
       None \<Rightarrow> Inl (Invalid_argument ''MetalORM: graph collection cannot add a null entity'')
     | Some k \<Rightarrow> Inr (ItemEntity k))"

subsection \<open>Linking\<close>

text \<open>\<open>relation_info::target_key\<close>\<close>

definition graph_target_key :: "('d, 'e) session_env \<Rightarrow> relation_meta \<Rightarrow> string" where
  "graph_target_key E m =
     (if rm_kind m \<in> {BelongsTo, ManyToMany} then rm_target_key m else et_primary_key (env_types E (rm_target m)))"

definition flush_for_key :: "('d, 'e) session_env \<Rightarrow> string \<Rightarrow> key \<Rightarrow> string \<Rightarrow> ('d, 'e, unit) session_action" where
  "flush_for_key E what target c s =
     act_bind (act_when (key_missing E s target c) (uow_flush E)) (\<lambda>_ s.
       if key_missing E s target c
       then (Inl (Runtime_error (''MetalORM: graph '' @ what @ '' target has no persisted relation key'')), s)
       else (Inr (), s)) s"

text \<open>The key columns of a \<open>has_one\<close> or \<open>morph_one\<close> target, which \<open>set\<close> of a bound reference writes again.\<close>

definition link_target_columns :: "('d, 'e) session_env \<Rightarrow> key \<Rightarrow> nat \<Rightarrow> key \<Rightarrow> ('d, 'e, unit) session_action" where
  "link_target_columns E k i target s =
     act_bind (attach_target E (relation_at E s k i) k target) (\<lambda>_. reference_set E k i (Some target)) s"

definition link_payload :: "('d, 'e) session_env \<Rightarrow> key \<Rightarrow> nat \<Rightarrow> key \<Rightarrow> ('d, 'e, unit) session_action" where
  "link_payload E k i target s =
     (let m = relation_at E s k i in
      if rm_kind m = BelongsTo
      then act_bind (flush_for_key E ''belongs_to'' target (rm_target_key m)) (\<lambda>_ s.
        act_bind (assign_member E k (rm_foreign_key m) (key_value s target (rm_target_key m))) (\<lambda>_.
          reference_set E k i (Some target)) s) s
      else link_target_columns E k i target s)"

definition apply_single_key :: "('d, 'e) session_env \<Rightarrow> key \<Rightarrow> nat \<Rightarrow> dbvalue \<Rightarrow> ('d, 'e, unit) session_action" where
  "apply_single_key E k i v s =
     (let m = relation_at E s k i in
      act_bind (stub_by_key E (rm_target m) (graph_target_key E m) v (rm_kind m \<noteq> BelongsTo)) (\<lambda>target.
        if rm_kind m = BelongsTo
        then act_bind (assign_member E k (rm_foreign_key m) v) (\<lambda>_. reference_set E k i (Some target))
        else link_target_columns E k i target) s)"

definition clear_columns :: "('d, 'e) session_env \<Rightarrow> string \<Rightarrow> key \<Rightarrow> string list \<Rightarrow> ('d, 'e, unit) session_action" where
  "clear_columns E msg k cs s =
     (if list_all (\<lambda>c. is_optional (column_type (type_of E s k) c)) cs
      then (Inr (), fold (\<lambda>c. set_member k c CNone) cs s) else (Inl (Runtime_error msg), s))"

text \<open>The previous target of a \<open>has_one\<close> or \<open>morph_one\<close> is looked up in the database.\<close>

definition release_previous ::
  "('d, 'e) session_env \<Rightarrow> relation_meta \<Rightarrow> string \<Rightarrow> string list \<Rightarrow> key option \<Rightarrow> ('d, 'e, unit) session_action" where
  "release_previous E m msg cs previous =
     (case previous of
        None \<Rightarrow> act_return ()
      | Some t \<Rightarrow>
          if rm_cascade_remove m then act_modify (remove_entity t)
          else act_bind (clear_columns E msg t cs) (\<lambda>_. persist E (Some t)))"

definition clear_single :: "('d, 'e) session_env \<Rightarrow> key \<Rightarrow> nat \<Rightarrow> ('d, 'e, unit) session_action" where
  "clear_single E k i s =
     (let m = relation_at E s k i; root_key = key_value s k (rm_local_key m) in
      case rm_kind m of
        BelongsTo \<Rightarrow>
          act_bind (if rm_cascade_remove m
            then (case rf_current (as_reference (member_at s k i)) of None \<Rightarrow> act_return () | Some t \<Rightarrow> act_modify (remove_entity t))
            else act_return ()) (\<lambda>_.
          act_bind (clear_columns E ''MetalORM: clearing belongs_to requires a nullable foreign key'' k [rm_foreign_key m]) (\<lambda>_.
            reference_reset E k i)) s
      | HasOne \<Rightarrow>
          act_bind (query_first E (rm_target m) [] (sel_where (column_is (rm_target m) (rm_foreign_key m) root_key) new_select)) (\<lambda>previous.
          act_bind (release_previous E m ''MetalORM: clearing has_one requires nullable target FK or cascade remove''
            [rm_foreign_key m] previous) (\<lambda>_. reference_reset E k i)) s
      | MorphOne \<Rightarrow>
          act_bind (query_first E (rm_target m) [] (sel_where (op_and (column_is (rm_target m) (rm_id_field m) root_key)
            (column_is (rm_target m) (rm_type_field m) (VString (rm_type_value m)))) new_select)) (\<lambda>previous.
          act_bind (release_previous E m ''MetalORM: clearing morph_one requires nullable morph fields or cascade remove''
            [rm_id_field m, rm_type_field m] previous) (\<lambda>_. reference_reset E k i)) s
      | MorphTo \<Rightarrow>
          act_bind (clear_columns E ''MetalORM: clearing morph_to requires nullable id/type fields'' k
            [rm_id_field m, rm_type_field m]) (\<lambda>_. act_modify (morph_to_set E k i None)) s
      | _ \<Rightarrow> (Inr (), s))"

text \<open>Every case of the mapping with the type of the target is applied.\<close>

definition graph_morph_case ::
  "('d, 'e) session_env \<Rightarrow> key \<Rightarrow> nat \<Rightarrow> key \<Rightarrow> type_index \<times> string \<times> string \<Rightarrow> ('d, 'e, unit) session_action" where
  "graph_morph_case E k i target c = (case c of (_, target_key, type_value) \<Rightarrow>
     act_bind (flush_for_key E ''morph_to'' target target_key) (\<lambda>_ s.
     (let m = relation_at E s k i in
      act_bind (assign_member E k (rm_id_field m) (key_value s target target_key)) (\<lambda>_.
      act_bind (assign_member E k (rm_type_field m) (VString type_value)) (\<lambda>_.
        act_modify (morph_to_set E k i (Some target)))) s)))"

definition link_morph_to :: "('d, 'e) session_env \<Rightarrow> key \<Rightarrow> nat \<Rightarrow> type_index \<Rightarrow> key \<Rightarrow> ('d, 'e, unit) session_action" where
  "link_morph_to E k i ty target s =
     (let cases = filter (\<lambda>c. fst c = ty) (rm_cases (relation_at E s k i)) in
      if cases = [] then (Inl (Logic_error ''MetalORM: graph morph_to target is not declared by the mapping''), s)
      else act_iter (graph_morph_case E k i target) cases s)"

subsection \<open>Collections\<close>

text \<open>The key of a target that has one, for the list \<open>seen\<close>.\<close>

definition remembered :: "('d, 'e) session_env \<Rightarrow> string \<Rightarrow> key \<Rightarrow> ('d, 'e) session \<Rightarrow> string list" where
  "remembered E c target s = (if key_missing E s target c then [] else [value_key (env_fp E) (key_value s target c)])"

definition pivot_add :: "('d, 'e) session_env \<Rightarrow> key \<Rightarrow> nat \<Rightarrow> key \<Rightarrow> patch \<Rightarrow> ('d, 'e) session \<Rightarrow> ('d, 'e) session" where
  "pivot_add E k i target p s =
     set_relation k i (MPivot (pivot_attach E (relation_at E s k i) p target (as_pivots (member_at s k i)) s)) s"

definition present_in :: "('d, 'e) session_env \<Rightarrow> string \<Rightarrow> ('d, 'e) session \<Rightarrow> key list \<Rightarrow> key \<Rightarrow> bool" where
  "present_in E c s items target \<longleftrightarrow>
     list_ex (\<lambda>t. t = target \<or> (\<not> key_missing E s t c \<and> \<not> key_missing E s target c \<and>
       value_key (env_fp E) (key_value s t c) = value_key (env_fp E) (key_value s target c))) items"

text \<open>A target goes into the collection, unless it is there already; its key is remembered.\<close>

definition place_target ::
  "('d, 'e) session_env \<Rightarrow> key \<Rightarrow> nat \<Rightarrow> key \<Rightarrow> patch option \<Rightarrow> ('d, 'e, string list) session_action" where
  "place_target E k i target p s =
     (let m = relation_at E s k i; c = graph_target_key E m in
      act_bind (if rm_kind m = ManyToMany
        then act_modify (pivot_add E k i target (case p of None \<Rightarrow> [] | Some p \<Rightarrow> p))
        else if present_in E c s (co_items (as_many (member_at s k i))) target then act_return ()
        else collection_attach E k i (Some target)) (\<lambda>_.
      act_read (remembered E c target)) s)"

definition place_key ::
  "('d, 'e) session_env \<Rightarrow> key \<Rightarrow> nat \<Rightarrow> dbvalue \<Rightarrow> patch option \<Rightarrow> ('d, 'e, string list) session_action" where
  "place_key E k i v p s =
     (let m = relation_at E s k i; c = graph_target_key E m in
      if rm_kind m = ManyToMany
      then act_bind (act_lift (from_value (env_fp E) (column_type (env_types E (rm_target m)) c) v)) (\<lambda>x.
        act_bind (attach_id E k i (to_value x) (case p of None \<Rightarrow> [] | Some p \<Rightarrow> p)) (\<lambda>_.
        act_return [value_key (env_fp E) v])) s
      else act_bind (stub_by_key E (rm_target m) c v True) (\<lambda>target. place_target E k i target None) s)"

definition collection_keys :: "('d, 'e) session_env \<Rightarrow> ('d, 'e) session \<Rightarrow> key \<Rightarrow> nat \<Rightarrow> key list" where
  "collection_keys E s k i =
     (if rm_kind (relation_at E s k i) = ManyToMany then co_items (as_pivots (member_at s k i))
      else co_items (as_many (member_at s k i)))"

text \<open>\<open>prune_missing\<close>: a target with a key that was not seen leaves the collection.\<close>

definition drop_target :: "('d, 'e) session_env \<Rightarrow> key \<Rightarrow> nat \<Rightarrow> key \<Rightarrow> ('d, 'e) session \<Rightarrow> ('d, 'e) session" where
  "drop_target E k i target s =
     (let m = relation_at E s k i in
      if rm_kind m = ManyToMany
      then set_relation k i (MPivot (snd (pc_detach (bound E s m) target (as_pivots (member_at s k i))))) s
      else set_relation k i (MMany (snd (co_remove target (as_many (member_at s k i))))) s)"

definition prune_one ::
  "('d, 'e) session_env \<Rightarrow> key \<Rightarrow> nat \<Rightarrow> string list \<Rightarrow> key \<Rightarrow> ('d, 'e) session \<Rightarrow> ('d, 'e) session" where
  "prune_one E k i seen target s =
     (let c = graph_target_key E (relation_at E s k i) in
      if key_missing E s target c \<or> value_key (env_fp E) (key_value s target c) \<in> set seen then s
      else drop_target E k i target s)"

definition prune :: "('d, 'e) session_env \<Rightarrow> key \<Rightarrow> nat \<Rightarrow> string list \<Rightarrow> ('d, 'e) session \<Rightarrow> ('d, 'e) session" where
  "prune E k i seen s = fold (prune_one E k i seen) (collection_keys E s k i) s"

subsection \<open>Saving\<close>

definition found_or_made :: "('d, 'e) session_env \<Rightarrow> type_index \<Rightarrow> dbvalue option \<Rightarrow> ('d, 'e, key) session_action" where
  "found_or_made E ty pk =
     act_bind (case pk of None \<Rightarrow> act_return None | Some v \<Rightarrow> find_by_key E ty (et_primary_key (env_types E ty)) v) (\<lambda>found.
       case found of
         Some k \<Rightarrow> act_return k
       | None \<Rightarrow> act_bind (make_shared E ty) (\<lambda>k.
           act_bind (case pk of None \<Rightarrow> act_return () | Some v \<Rightarrow> set_pk E k v) (\<lambda>_. act_return k)))"

definition apply_scalars :: "(string \<times> cpp_value) list \<Rightarrow> key \<Rightarrow> ('d, 'e) session \<Rightarrow> ('d, 'e) session" where
  "apply_scalars xs k s = fold (\<lambda>(c, x). set_member k c x) xs s"

definition persist_untracked :: "('d, 'e) session_env \<Rightarrow> key \<Rightarrow> ('d, 'e, unit) session_action" where
  "persist_untracked E k s = (if uow_contains s k then (Inr (), s) else persist E (Some k) s)"

text \<open>A new root with a generated key is flushed before its other relations are applied: they need its key.\<close>

definition needs_root_key :: "('d, 'e) session_env \<Rightarrow> key \<Rightarrow> ('d, 'e) session \<Rightarrow> bool" where
  "needs_root_key E k s \<longleftrightarrow>
     (case alookup (ss_tracked s) k of None \<Rightarrow> False | Some t \<Rightarrow> te_status t = StNew \<and> et_generated (type_of E s k))"

fun materialize :: "('d, 'e) session_env \<Rightarrow> graph_options \<Rightarrow> graph_payload \<Rightarrow> ('d, 'e, key) session_action"
  and apply_actions :: "('d, 'e) session_env \<Rightarrow> graph_options \<Rightarrow> key \<Rightarrow> graph_action list \<Rightarrow> ('d, 'e, unit) session_action"
  and apply_action :: "('d, 'e) session_env \<Rightarrow> graph_options \<Rightarrow> key \<Rightarrow> graph_action \<Rightarrow> ('d, 'e, unit) session_action"
  and apply_items :: "('d, 'e) session_env \<Rightarrow> graph_options \<Rightarrow> key \<Rightarrow> nat \<Rightarrow> graph_item list \<Rightarrow> ('d, 'e, string list) session_action"
  and apply_item :: "('d, 'e) session_env \<Rightarrow> graph_options \<Rightarrow> key \<Rightarrow> nat \<Rightarrow> graph_item \<Rightarrow> ('d, 'e, string list) session_action"
where
  "materialize E opt (Payload ty pk xs pre post) =
     act_bind (found_or_made E ty pk) (\<lambda>k.
     act_bind (act_modify (apply_scalars xs k)) (\<lambda>_.
     act_bind (apply_actions E opt k pre) (\<lambda>_.
     act_bind (persist_untracked E k) (\<lambda>_.
     act_bind (act_read (needs_root_key E k)) (\<lambda>flush.
     act_bind (act_when (flush \<and> post \<noteq> []) (uow_flush E)) (\<lambda>_.
     act_bind (apply_actions E opt k post) (\<lambda>_. act_return k)))))))"
| "apply_actions E opt k [] = act_return ()"
| "apply_actions E opt k (a # as) = act_bind (apply_action E opt k a) (\<lambda>_. apply_actions E opt k as)"
| "apply_action E opt k (RelatePayload i p) =
     act_bind (materialize E opt p) (\<lambda>target s.
       if rm_kind (relation_at E s k i) = MorphTo then link_morph_to E k i (gp_type p) target s
       else link_payload E k i target s)"
| "apply_action E opt k (RelateKey i v) = apply_single_key E k i v"
| "apply_action E opt k (ClearRelation i) = clear_single E k i"
| "apply_action E opt k (RelateItems i items) =
     act_bind (load_member E k i) (\<lambda>_.
     act_bind (apply_items E opt k i items) (\<lambda>seen.
       act_when (go_prune opt) (act_modify (prune E k i seen))))"
| "apply_items E opt k i [] = act_return []"
| "apply_items E opt k i (x # xs) =
     act_bind (apply_item E opt k i x) (\<lambda>a. act_bind (apply_items E opt k i xs) (\<lambda>b. act_return (a @ b)))"
| "apply_item E opt k i (ItemPayload p patch) =
     act_bind (materialize E opt p) (\<lambda>target. place_target E k i target patch)"
| "apply_item E opt k i (ItemEntity target) =
     act_bind (persist_untracked E target) (\<lambda>_. place_target E k i target None)"
| "apply_item E opt k i (ItemKey v patch) = place_key E k i v patch"

definition run_graph ::
  "('d, 'e) session_env \<Rightarrow> graph_options \<Rightarrow> ('a \<Rightarrow> bool) \<Rightarrow> ('d, 'e, 'a) session_action \<Rightarrow> ('d, 'e, 'a) session_action" where
  "run_graph E opt flushes body =
     (if go_transactional opt then transaction E body
      else act_bind body (\<lambda>x. act_bind (act_when (go_flush opt \<and> flushes x) (uow_flush E)) (\<lambda>_. act_return x)))"

definition save_graph :: "('d, 'e) session_env \<Rightarrow> graph_payload \<Rightarrow> graph_options \<Rightarrow> ('d, 'e, key) session_action" where
  "save_graph E p opt = run_graph E opt (\<lambda>_. True) (materialize E opt p)"

definition update_existing ::
  "('d, 'e) session_env \<Rightarrow> graph_options \<Rightarrow> graph_payload \<Rightarrow> dbvalue \<Rightarrow> ('d, 'e, key option) session_action" where
  "update_existing E opt p pk =
     act_bind (find_by_key E (gp_type p) (et_primary_key (env_types E (gp_type p))) pk) (\<lambda>found.
       case found of
         None \<Rightarrow> act_return None
       | Some k \<Rightarrow>
           act_bind (act_modify (apply_scalars (gp_scalars p) k)) (\<lambda>_.
           act_bind (apply_actions E opt k (gp_pre p)) (\<lambda>_.
           act_bind (apply_actions E opt k (gp_post p)) (\<lambda>_. act_return (Some k)))))"

definition update_graph :: "('d, 'e) session_env \<Rightarrow> graph_payload \<Rightarrow> graph_options \<Rightarrow> ('d, 'e, key option) session_action" where
  "update_graph E p opt =
     (case gp_key p of
        None \<Rightarrow> act_throw (Invalid_argument ''MetalORM: update_graph requires the root primary key in the graph payload'')
      | Some pk \<Rightarrow> run_graph E opt (\<lambda>x. x \<noteq> None) (update_existing E opt p pk))"

definition patch_graph :: "('d, 'e) session_env \<Rightarrow> graph_payload \<Rightarrow> graph_options \<Rightarrow> ('d, 'e, key option) session_action" where
  "patch_graph E p opt =
     (case gp_key p of
        None \<Rightarrow> act_throw (Invalid_argument ''MetalORM: patch_graph requires the root primary key in the graph payload'')
      | Some pk \<Rightarrow> update_graph E p opt)"

end
