(* ===== verification/Graph_Properties.thy ===== *)
theory Graph_Properties
  imports Graph Flush_Properties
begin

section \<open>What pruning a collection leaves\<close>

lemma set_relation_simps [simp]:
  "type_of E (set_relation k i r s) j = type_of E s j"
  "get_member (set_relation k i r s) j c = get_member s j c"
  "i < length (en_relations (ss_heap s k)) \<Longrightarrow> member_at (set_relation k i r s) k i = r"
  "i < length (en_relations (ss_heap s k)) \<Longrightarrow> i < length (en_relations (ss_heap (set_relation k i r s) k))"
  by (simp_all add: set_relation_def member_at_def type_of_def get_member_def)

lemma set_relation_keys [simp]:
  "key_value (set_relation k i r s) j c = key_value s j c"
  "key_missing E (set_relation k i r s) j c = key_missing E s j c"
  "relation_at E (set_relation k i r s) j = relation_at E s j"
  "bound E (set_relation k i r s) m = bound E s m"
  by (simp_all add: key_value_def key_missing_def relation_at_def bound_def relation_identity_def fun_eq_iff)

text \<open>
  Dropping, for every element that is not kept, the first of its class leaves exactly the kept ones, when
  a class is kept or dropped as a whole.
\<close>

lemma drop_classes:
  assumes whole: "\<And>x y. cls x = cls y \<Longrightarrow> keep x = keep y"
  shows "mset (List.map cls ts) = mset (List.map cls (filter (\<lambda>x. \<not> keep x) xs)) \<Longrightarrow> \<forall>t \<in> set ts. \<not> keep t \<Longrightarrow>
    fold (\<lambda>t xs. drop_first (\<lambda>y. cls y = cls t) xs) ts xs = filter keep xs"
proof (induction ts arbitrary: xs)
  case Nil
  then show ?case by (simp add: filter_id_conv filter_empty_conv)
next
  case (Cons t ts)
  from Cons.prems(1) have "cls t \<in> cls ` set (filter (\<lambda>x. \<not> keep x) xs)"
    by (metis list.set_map list.simps(9) list.set_intros(1) set_mset_mset)
  then have "\<exists>y \<in> set xs. cls y = cls t" by auto
  then obtain a z b where xs: "xs = a @ z # b" and z: "cls z = cls t" and a: "\<forall>x \<in> set a. cls x \<noteq> cls t"
    by (elim split_list_first_propE) auto
  then have dropped: "drop_first (\<lambda>y. cls y = cls t) xs = a @ b"
    by (simp add: drop_first_def takeWhile_append dropWhile_append) 
  have "\<not> keep z" using whole [OF z] Cons.prems(2) by simp
  then have "mset (List.map cls ts) = mset (List.map cls (filter (\<lambda>x. \<not> keep x) (a @ b)))" "filter keep xs = filter keep (a @ b)"
    using Cons.prems(1) z by (simp_all add: xs)
  with Cons.IH [of "a @ b"] Cons.prems(2) dropped show ?case by simp
qed

subsection \<open>Pruning\<close>

text \<open>The target has no key, or its key was in the payload.\<close>

definition prune_keeps :: "('d, 'e) session_env \<Rightarrow> ('d, 'e) session \<Rightarrow> string \<Rightarrow> string list \<Rightarrow> key \<Rightarrow> bool" where
  "prune_keeps E s c seen t \<longleftrightarrow> key_missing E s t c \<or> value_key (env_fp E) (key_value s t c) \<in> set seen"

text \<open>The member holds what its relation says.\<close>

definition collection_member :: "('d, 'e) session_env \<Rightarrow> ('d, 'e) session \<Rightarrow> key \<Rightarrow> nat \<Rightarrow> bool" where
  "collection_member E s k i \<longleftrightarrow> i < length (en_relations (ss_heap s k)) \<and>
     (if rm_kind (relation_at E s k i) = ManyToMany
      then \<exists>c. member_at s k i = MPivot c else \<exists>c. member_at s k i = MMany c)"

definition targets_typed :: "('d, 'e) session_env \<Rightarrow> ('d, 'e) session \<Rightarrow> key \<Rightarrow> nat \<Rightarrow> bool" where
  "targets_typed E s k i \<longleftrightarrow> list_all (\<lambda>t. en_type (ss_heap s t) = rm_target (relation_at E s k i)) (collection_keys E s k i)"

lemma remove1_drop_first: "remove1 t xs = drop_first (\<lambda>y. y = t) xs"
  by (induction xs) (auto simp: drop_first_def)

lemma drop_first_absent: "\<not> (\<exists>y \<in> set xs. P y) \<Longrightarrow> drop_first P xs = xs"
  by (induction xs) (auto simp: drop_first_def)

lemma co_remove_items: "co_items (snd (co_remove t c)) = drop_first (\<lambda>y. y = t) (co_items c)"
  by (auto simp: co_remove_def remove1_drop_first drop_first_absent)

lemma pc_detach_items: "co_items (snd (pc_detach ident t c)) = drop_first (\<lambda>y. same_entity ident y t) (co_items c)"
  by (auto simp: pc_detach_def find_equivalent_def find_None_iff drop_first_absent)

text \<open>Two targets the collection takes for the same one.\<close>

definition alike_in :: "('d, 'e) session_env \<Rightarrow> ('d, 'e) session \<Rightarrow> relation_meta \<Rightarrow> key \<Rightarrow> key \<Rightarrow> bool" where
  "alike_in E s m y t \<longleftrightarrow> (if rm_kind m = ManyToMany then same_entity (bound E s m) y t else y = t)"

lemma drop_target_keys:
  assumes "collection_member E s k i"
  shows "collection_keys E (drop_target E k i t s) k i = drop_first (\<lambda>y. alike_in E s (relation_at E s k i) y t) (collection_keys E s k i)"
    and "collection_member E (drop_target E k i t s) k i"
  using assms
  by (auto simp: collection_member_def drop_target_def collection_keys_def alike_in_def Let_def as_pivots_def as_many_def
      pc_detach_items co_remove_items)

lemma drop_target_same:
  "prune_keeps E (drop_target E k i t s) = prune_keeps E s" "alike_in E (drop_target E k i t s) = alike_in E s"
  "relation_at E (drop_target E k i t s) = relation_at E s"
  by (auto simp: drop_target_def Let_def prune_keeps_def alike_in_def fun_eq_iff)

lemma prune_fold:
  "collection_member E s k i \<Longrightarrow> c = graph_target_key E (relation_at E s k i) \<Longrightarrow> m = relation_at E s k i \<Longrightarrow>
     collection_keys E (fold (prune_one E k i seen) ts s) k i =
     fold (\<lambda>t xs. drop_first (\<lambda>y. alike_in E s m y t) xs) (filter (\<lambda>t. \<not> prune_keeps E s c seen t) ts) (collection_keys E s k i)"
proof (induction ts arbitrary: s)
  case (Cons t ts)
  have step: "prune_one E k i seen t s = (if prune_keeps E s c seen t then s else drop_target E k i t s)"
    by (simp add: prune_one_def prune_keeps_def Let_def Cons.prems(2))
  show ?case
  proof (cases "prune_keeps E s c seen t")
    case False
    with Cons.IH [of "drop_target E k i t s"] Cons.prems show ?thesis
      by (simp add: step drop_target_keys drop_target_same)
  qed (use Cons step in simp)
qed simp

lemma relation_identity_key:
  assumes "en_type (ss_heap s t) = rm_target m"
  shows "relation_identity E s m t =
    (if key_missing E s t (rm_target_key m) then None else Some (value_key (env_fp E) (key_value s t (rm_target_key m))))"
  using assms
  by (cases "rm_target_key m = et_primary_key (env_types E (rm_target m))")
    (simp_all add: relation_identity_def key_missing_def missing_relation_key_def key_value_def type_of_def Let_def)

lemma fold_drop_cong:
  assumes "\<And>t y. t \<in> set ts \<Longrightarrow> y \<in> A \<Longrightarrow> P t y = Q t y"
  shows "set xs \<subseteq> A \<Longrightarrow> fold (\<lambda>t xs. drop_first (P t) xs) ts xs = fold (\<lambda>t xs. drop_first (Q t) xs) ts xs"
  using assms
proof (induction ts arbitrary: xs)
  case (Cons t ts)
  have "drop_first (P t) xs = drop_first (Q t) xs"
    using Cons.prems by (auto simp: drop_first_def subset_iff intro!: arg_cong2 [where f = append] arg_cong [where f = tl] takeWhile_cong dropWhile_cong)
  moreover have "set (drop_first (Q t) xs) \<subseteq> set xs"
    by (induction xs) (auto simp: drop_first_def)
  ultimately show ?case using Cons by auto
qed simp

text \<open>
  C19. Pruning a collection of a saved graph leaves exactly the targets without a key and those whose key
  was in the payload, in their order: every other one is gone, however often the collection held it, and
  none that the payload named is lost. This holds for collections of references and for many-to-many ones, where
  targets are compared by their key.
\<close>

theorem prune_exact:
  assumes "collection_member E s k i" and "targets_typed E s k i" and "c = graph_target_key E (relation_at E s k i)"
  shows "collection_keys E (prune E k i seen s) k i = filter (prune_keeps E s c seen) (collection_keys E s k i)"
proof -
  let ?m = "relation_at E s k i" and ?xs = "collection_keys E s k i"
  let ?ts = "filter (\<lambda>t. \<not> prune_keeps E s c seen t) ?xs"
  have fold: "collection_keys E (prune E k i seen s) k i = fold (\<lambda>t xs. drop_first (\<lambda>y. alike_in E s ?m y t) xs) ?ts ?xs"
    unfolding prune_def by (rule prune_fold [OF assms(1,3) refl])
  show ?thesis
  proof (cases "rm_kind ?m = ManyToMany")
    case True
    let ?cls = "\<lambda>y. if key_missing E s y c then None else Some (value_key (env_fp E) (key_value s y c))"
    from True assms(3) have c: "c = rm_target_key ?m" by (simp add: graph_target_key_def)
    have "alike_in E s ?m y t = (?cls y = ?cls t)" if "t \<in> set ?ts" "y \<in> set ?xs" for t y
      using that assms(2) True
      by (auto simp: alike_in_def same_entity_def bound_def relation_identity_key targets_typed_def list_all_iff c prune_keeps_def split: if_splits)
    then have "fold (\<lambda>t xs. drop_first (\<lambda>y. alike_in E s ?m y t) xs) ?ts ?xs =
        fold (\<lambda>t xs. drop_first (\<lambda>y. ?cls y = ?cls t) xs) ?ts ?xs"
      by (intro fold_drop_cong [where A = "set ?xs"]) auto
    also have "\<dots> = filter (prune_keeps E s c seen) ?xs"
      by (rule drop_classes) (auto simp: prune_keeps_def split: if_splits)
    finally show ?thesis by (simp add: fold)
  next
    case False
    then have "fold (\<lambda>t xs. drop_first (\<lambda>y. alike_in E s ?m y t) xs) ?ts ?xs = fold (\<lambda>t xs. drop_first (\<lambda>y. y = t) xs) ?ts ?xs"
      by (simp add: alike_in_def)
    also have "\<dots> = filter (prune_keeps E s c seen) ?xs"
      by (rule drop_classes [where cls = "\<lambda>x. x"]) auto
    finally show ?thesis by (simp add: fold)
  qed
qed

definition pruned_relation :: relation_meta where
  "pruned_relation = \<lparr>rm_kind = ManyToMany, rm_target = 0, rm_local_key = ''id'', rm_foreign_key = [], rm_target_key = ''id'',
     rm_pivot = ''pivot'', rm_pivot_root = ''root'', rm_pivot_target = ''target'', rm_pivot_defaults = [], rm_type_field = [],
     rm_id_field = [], rm_type_value = [], rm_cases = [], rm_cascade_persist = False, rm_cascade_remove = False\<rparr>"

definition pruned_env :: "(conn_op list, nat) session_env" where
  "pruned_env = flush_env\<lparr>env_types := (\<lambda>ty. (flush_types ty)\<lparr>et_relations := [pruned_relation]\<rparr>)\<rparr>"

definition pruned_session :: "(conn_op list, nat) session" where
  "pruned_session = flush_session\<lparr>ss_heap := (\<lambda>k. if k = 9 then (flush_user 1 ''root'')\<lparr>en_relations :=
     [MPivot \<lparr>co_loaded = True, co_items = [1, 2, 0], co_baseline = [1, 2], pc_pivots = [], pc_patches = []\<rparr>]\<rparr>
     else ss_heap flush_session k)\<rparr>"

theorem prune_exact_witness:
  "collection_keys pruned_env (prune pruned_env 9 0 [''5''] pruned_session) 9 0 = [1, 0]"
proof -
  note defs = pruned_env_def pruned_session_def pruned_relation_def flush_env_def flush_session_def flush_types_def flush_user_def
  have m: "relation_at pruned_env pruned_session 9 0 = pruned_relation"
    by (simp add: relation_at_def type_of_def defs)
  have keys: "collection_keys pruned_env pruned_session 9 0 = [1, 2, 0]"
    unfolding collection_keys_def m by (simp add: as_pivots_def member_at_def Let_def defs)
  have member: "collection_member pruned_env pruned_session 9 0"
    unfolding collection_member_def m by (simp add: member_at_def Let_def defs)
  have typed: "targets_typed pruned_env pruned_session 9 0"
    unfolding targets_typed_def keys m by (simp add: defs)
  have five: "show_int 5 = ''5''" "show_int 6 = ''6''"
    by code_simp+
  have "prune_keeps pruned_env pruned_session ''id'' [''5''] 1" "\<not> prune_keeps pruned_env pruned_session ''id'' [''5''] 2"
    "prune_keeps pruned_env pruned_session ''id'' [''5''] 0"
    by (simp_all add: prune_keeps_def key_missing_def missing_relation_key_def key_value_def get_member_def type_of_def alookup_def
        five defs)
  with prune_exact [OF member typed, of "''id''" "[''5'']"] keys m show ?thesis
    by (simp add: graph_target_key_def pruned_relation_def)
qed

end
