(* ===== verification/Postgres_Introspection.thy ===== *)
theory Postgres_Introspection
  imports Schema_Introspection Schema_Sync
begin

section \<open>Introspection of a PostgreSQL database (include/metal/postgres_schema_introspection.hpp)\<close>

text \<open>
  \<open>introspect_postgres\<close> reads the system catalog with one query per kind of object and sorts the rows into
  tables. The map from names to positions in the list of tables is the code's; rows of tables it does
  not have are skipped, which is how excluded tables are left out of all queries but the first. The texts
  of the queries are the code's; what the server answers is a parameter.
\<close>

subsection \<open>Rows and names\<close>

definition sql_text :: "string list \<Rightarrow> string" where
  "sql_text ls = [CHR 0x0A] @ concat (List.map (\<lambda>l. l @ [CHR 0x0A]) ls)"

definition row_bool :: "fp \<Rightarrow> row \<Rightarrow> string \<Rightarrow> bool result" where
  "row_bool F row key =
     (case alookup row key of
        None \<Rightarrow> Inr False
      | Some VNull \<Rightarrow> Inr False
      | Some v \<Rightarrow> rbind (from_value F TBool v) (\<lambda>x. case x of CBool b \<Rightarrow> Inr b | _ \<Rightarrow> Inl conversion_error))"

definition trim_nonempty :: "string option \<Rightarrow> string option" where
  "trim_nonempty v = Option.bind v (\<lambda>s. if list_all is_blank s then None else Some (trim_by is_blank s))"

definition row_trimmed :: "row \<Rightarrow> string \<Rightarrow> string option result" where
  "row_trimmed row key = rbind (row_string row key) (\<lambda>v. Inr (trim_nonempty v))"

text \<open>The names PostgreSQL gives constraints that have none are taken for no name.\<close>

definition implicit_constraint_name :: "string \<Rightarrow> string \<Rightarrow> string option \<Rightarrow> string \<Rightarrow> string option" where
  "implicit_constraint_name table column name suffix =
     (if name = Some (table @ ''_'' @ column @ ''_'' @ suffix) then None else name)"

definition implicit_table_constraint_name :: "string \<Rightarrow> string option \<Rightarrow> string \<Rightarrow> string option" where
  "implicit_table_constraint_name table name suffix = (if name = Some (table @ ''_'' @ suffix) then None else name)"

definition scoped_reference_schema :: "string \<Rightarrow> string \<Rightarrow> string option" where
  "scoped_reference_schema current target = (if current = target then None else Some target)"

text \<open>The tables read so far, and where each of them is.\<close>

record catalog =
  ca_tables :: "database_table list"
  ca_positions :: "(string, nat) amap"

definition on_table :: "string \<Rightarrow> (database_table \<Rightarrow> database_table result) \<Rightarrow> catalog \<Rightarrow> catalog result" where
  "on_table name f ca =
     (case alookup (ca_positions ca) name of
        None \<Rightarrow> Inr ca
      | Some p \<Rightarrow> rbind (f (ca_tables ca ! p)) (\<lambda>t. Inr (ca\<lparr>ca_tables := (ca_tables ca)[p := t]\<rparr>)))"

subsection \<open>Columns and tables\<close>

definition columns_sql :: string where
  "columns_sql = sql_text [
     ''SELECT'',
     ''    cls.relname AS table_name,'',
     ''    att.attname AS column_name,'',
     ''    pg_catalog.format_type(att.atttypid, att.atttypmod) AS data_type,'',
     ''    att.attnotnull AS not_null,'',
     ''    pg_catalog.pg_get_expr(def.adbin, def.adrelid) AS column_default,'',
     ''    att.attnum AS ordinal_position,'',
     ''    (att.attidentity <> '' @ [CHR 0x27, CHR 0x27] @ '') AS is_identity,'',
     ''    pg_catalog.col_description(cls.oid, att.attnum) AS comment'',
     ''FROM pg_catalog.pg_attribute AS att'',
     ''JOIN pg_catalog.pg_class AS cls ON cls.oid = att.attrelid'',
     ''JOIN pg_catalog.pg_namespace AS ns ON ns.oid = cls.relnamespace'',
     ''LEFT JOIN pg_catalog.pg_attrdef AS def'',
     ''    ON def.adrelid = att.attrelid AND def.adnum = att.attnum'',
     ''WHERE ns.nspname = $1'',
     ''  AND cls.relkind IN ('r', 'p')'',
     ''  AND att.attnum > 0'',
     ''  AND NOT att.attisdropped'',
     ''ORDER BY cls.relname, att.attnum;'']"

definition catalog_column :: "fp \<Rightarrow> string \<Rightarrow> row \<Rightarrow> database_column result" where
  "catalog_column F name row =
     rbind (row_string row ''data_type'') (\<lambda>ty.
     rbind (row_bool F row ''not_null'') (\<lambda>not_null.
     rbind (row_string row ''column_default'') (\<lambda>default_value.
     rbind (row_bool F row ''is_identity'') (\<lambda>identity.
     rbind (row_trimmed row ''comment'') (\<lambda>comment.
       Inr ((new_column name)\<lparr>col_type := value_or ty [], col_not_null := not_null, col_default := default_value,
         col_auto_increment := (identity \<or> (case default_value of None \<Rightarrow> False | Some d \<Rightarrow> starts_with d ''nextval('')),
         col_comment := comment\<rparr>))))))"

definition with_position :: "string \<Rightarrow> catalog \<Rightarrow> catalog" where
  "with_position name ca =
     (case alookup (ca_positions ca) name of
        Some p \<Rightarrow> ca
      | None \<Rightarrow> \<lparr>ca_tables = ca_tables ca @ [new_table name],
          ca_positions = aput name (length (ca_tables ca)) (ca_positions ca)\<rparr>)"

definition catalog_column_row :: "fp \<Rightarrow> introspect_options \<Rightarrow> catalog \<Rightarrow> row \<Rightarrow> catalog result" where
  "catalog_column_row F opt ca row =
     rbind (row_string row ''table_name'') (\<lambda>table_name.
     rbind (row_string row ''column_name'') (\<lambda>column_name.
       case (table_name, column_name) of
         (Some tn, Some cn) \<Rightarrow>
           if \<not> include_table tn opt then Inr ca
           else on_table tn (\<lambda>t. rbind (catalog_column F cn row) (\<lambda>c. Inr (t\<lparr>tb_columns := tb_columns t @ [c]\<rparr>)))
             (with_position tn ca)
       | _ \<Rightarrow> Inr ca))"

definition table_comments_sql :: string where
  "table_comments_sql = sql_text [
     ''SELECT'',
     ''    cls.relname AS table_name,'',
     ''    pg_catalog.obj_description(cls.oid, 'pg_class') AS comment'',
     ''FROM pg_catalog.pg_class AS cls'',
     ''JOIN pg_catalog.pg_namespace AS ns ON ns.oid = cls.relnamespace'',
     ''WHERE ns.nspname = $1'',
     ''  AND cls.relkind IN ('r', 'p')'',
     ''ORDER BY cls.relname;'']"

definition table_comment_row :: "catalog \<Rightarrow> row \<Rightarrow> catalog result" where
  "table_comment_row ca row =
     rbind (row_string row ''table_name'') (\<lambda>table_name. case table_name of
         None \<Rightarrow> Inr ca
       | Some tn \<Rightarrow> on_table tn (\<lambda>t. rbind (row_trimmed row ''comment'') (\<lambda>c. Inr (t\<lparr>tb_comment := c\<rparr>))) ca)"

subsection \<open>Constraints\<close>

definition primary_keys_sql :: string where
  "primary_keys_sql = sql_text [
     ''SELECT'',
     ''    cls.relname AS table_name,'',
     ''    con.conname AS constraint_name,'',
     ''    att.attname AS column_name,'',
     ''    keys.ord AS ordinal_position'',
     ''FROM pg_catalog.pg_constraint AS con'',
     ''JOIN pg_catalog.pg_class AS cls ON cls.oid = con.conrelid'',
     ''JOIN pg_catalog.pg_namespace AS ns ON ns.oid = cls.relnamespace'',
     ''JOIN LATERAL unnest(con.conkey) WITH ORDINALITY AS keys(attnum, ord) ON TRUE'',
     ''JOIN pg_catalog.pg_attribute AS att'',
     ''    ON att.attrelid = cls.oid AND att.attnum = keys.attnum'',
     ''WHERE ns.nspname = $1'',
     ''  AND con.contype = 'p'' @ [CHR 0x27],
     ''ORDER BY cls.relname, keys.ord;'']"

definition primary_key_row :: "catalog \<Rightarrow> row \<Rightarrow> catalog result" where
  "primary_key_row ca row =
     rbind (row_string row ''table_name'') (\<lambda>table_name.
     rbind (row_string row ''column_name'') (\<lambda>column_name.
       case (table_name, column_name) of
         (Some tn, Some cn) \<Rightarrow> on_table tn (\<lambda>t.
           rbind (row_string row ''constraint_name'') (\<lambda>name.
             Inr (t\<lparr>tb_primary_key := tb_primary_key t @ [cn],
               tb_primary_key_name := implicit_table_constraint_name tn name ''pkey''\<rparr>))) ca
       | _ \<Rightarrow> Inr ca))"

definition uniques_sql :: string where
  "uniques_sql = sql_text [
     ''SELECT'',
     ''    cls.relname AS table_name,'',
     ''    con.conname AS constraint_name,'',
     ''    att.attname AS column_name,'',
     ''    cardinality(con.conkey) AS column_count'',
     ''FROM pg_catalog.pg_constraint AS con'',
     ''JOIN pg_catalog.pg_class AS cls ON cls.oid = con.conrelid'',
     ''JOIN pg_catalog.pg_namespace AS ns ON ns.oid = cls.relnamespace'',
     ''JOIN LATERAL unnest(con.conkey) WITH ORDINALITY AS keys(attnum, ord) ON TRUE'',
     ''JOIN pg_catalog.pg_attribute AS att'',
     ''    ON att.attrelid = cls.oid AND att.attnum = keys.attnum'',
     ''WHERE ns.nspname = $1'',
     ''  AND con.contype = 'u'' @ [CHR 0x27],
     ''ORDER BY cls.relname, con.conname, keys.ord;'']"

definition unique_row :: "fp \<Rightarrow> catalog \<Rightarrow> row \<Rightarrow> catalog result" where
  "unique_row F ca row =
     rbind (row_int F row ''column_count'' 0) (\<lambda>n.
     if n \<noteq> 1 then Inr ca
     else
       rbind (row_string row ''table_name'') (\<lambda>table_name.
       rbind (row_string row ''column_name'') (\<lambda>column_name.
         case (table_name, column_name) of
           (Some tn, Some cn) \<Rightarrow> on_table tn (\<lambda>t.
             if find_column t cn = None then Inr t
             else rbind (row_string row ''constraint_name'') (\<lambda>name.
               Inr (on_column t cn (\<lambda>c. c\<lparr>col_unique := True,
                 col_unique_name := implicit_constraint_name tn cn name ''key''\<rparr>)))) ca
         | _ \<Rightarrow> Inr ca)))"

definition foreign_keys_sql :: string where
  "foreign_keys_sql = sql_text [
     ''SELECT'',
     ''    src.relname AS table_name,'',
     ''    con.conname AS constraint_name,'',
     ''    src_att.attname AS column_name,'',
     ''    target_ns.nspname AS target_schema,'',
     ''    target.relname AS target_table,'',
     ''    target_att.attname AS target_column,'',
     ''    CASE con.confdeltype'',
     ''        WHEN 'a' THEN 'NO ACTION'' @ [CHR 0x27],
     ''        WHEN 'r' THEN 'RESTRICT'' @ [CHR 0x27],
     ''        WHEN 'c' THEN 'CASCADE'' @ [CHR 0x27],
     ''        WHEN 'n' THEN 'SET NULL'' @ [CHR 0x27],
     ''        WHEN 'd' THEN 'SET DEFAULT'' @ [CHR 0x27],
     ''    END AS on_delete,'',
     ''    CASE con.confupdtype'',
     ''        WHEN 'a' THEN 'NO ACTION'' @ [CHR 0x27],
     ''        WHEN 'r' THEN 'RESTRICT'' @ [CHR 0x27],
     ''        WHEN 'c' THEN 'CASCADE'' @ [CHR 0x27],
     ''        WHEN 'n' THEN 'SET NULL'' @ [CHR 0x27],
     ''        WHEN 'd' THEN 'SET DEFAULT'' @ [CHR 0x27],
     ''    END AS on_update,'',
     ''    con.condeferrable AS deferrable'',
     ''FROM pg_catalog.pg_constraint AS con'',
     ''JOIN pg_catalog.pg_class AS src ON src.oid = con.conrelid'',
     ''JOIN pg_catalog.pg_namespace AS src_ns ON src_ns.oid = src.relnamespace'',
     ''JOIN pg_catalog.pg_class AS target ON target.oid = con.confrelid'',
     ''JOIN pg_catalog.pg_namespace AS target_ns ON target_ns.oid = target.relnamespace'',
     ''JOIN LATERAL unnest(con.conkey) WITH ORDINALITY AS src_keys(attnum, ord) ON TRUE'',
     ''JOIN LATERAL unnest(con.confkey) WITH ORDINALITY AS target_keys(attnum, ord)'',
     ''    ON target_keys.ord = src_keys.ord'',
     ''JOIN pg_catalog.pg_attribute AS src_att'',
     ''    ON src_att.attrelid = src.oid AND src_att.attnum = src_keys.attnum'',
     ''JOIN pg_catalog.pg_attribute AS target_att'',
     ''    ON target_att.attrelid = target.oid AND target_att.attnum = target_keys.attnum'',
     ''WHERE src_ns.nspname = $1'',
     ''  AND con.contype = 'f'' @ [CHR 0x27],
     ''ORDER BY src.relname, con.conname, src_keys.ord;'']"

definition catalog_reference :: "fp \<Rightarrow> string \<Rightarrow> string \<Rightarrow> string \<Rightarrow> string \<times> string \<times> string \<Rightarrow> row \<Rightarrow> foreign_key_reference result" where
  "catalog_reference F sch tn cn target row =
     (case target of (target_schema, target_table, target_column) \<Rightarrow>
       rbind (row_string row ''constraint_name'') (\<lambda>name.
       rbind (row_string row ''on_delete'') (\<lambda>on_delete.
       rbind (row_string row ''on_update'') (\<lambda>on_update.
       rbind (row_bool F row ''deferrable'') (\<lambda>deferrable.
         Inr \<lparr>fk_table = target_table, fk_column = target_column, fk_name = implicit_constraint_name tn cn name ''fkey'',
           fk_on_delete = normalize_action on_delete, fk_on_update = normalize_action on_update, fk_deferrable = deferrable,
           fk_schema = scoped_reference_schema sch target_schema\<rparr>)))))"

text \<open>The first foreign key of a column is kept.\<close>

definition catalog_foreign_key_row :: "fp \<Rightarrow> string \<Rightarrow> catalog \<Rightarrow> row \<Rightarrow> catalog result" where
  "catalog_foreign_key_row F sch ca row =
     rbind (row_string row ''table_name'') (\<lambda>table_name.
     rbind (row_string row ''column_name'') (\<lambda>column_name.
     rbind (row_string row ''target_schema'') (\<lambda>target_schema.
     rbind (row_string row ''target_table'') (\<lambda>target_table.
     rbind (row_string row ''target_column'') (\<lambda>target_column.
       case (table_name, column_name, target_schema, target_table, target_column) of
         (Some tn, Some cn, Some ts, Some tt, Some tc) \<Rightarrow> on_table tn (\<lambda>t.
           if Option.bind (find_column t cn) (\<lambda>c. if col_references c = None then Some c else None) = None then Inr t
           else rbind (catalog_reference F sch tn cn (ts, tt, tc) row) (\<lambda>r.
             Inr (on_column t cn (\<lambda>c. c\<lparr>col_references := Some r\<rparr>)))) ca
       | _ \<Rightarrow> Inr ca)))))"

definition checks_sql :: string where
  "checks_sql = sql_text [
     ''SELECT'',
     ''    cls.relname AS table_name,'',
     ''    con.conname AS constraint_name,'',
     ''    pg_catalog.pg_get_expr(con.conbin, con.conrelid) AS expression,'',
     ''    cardinality(con.conkey) AS column_count,'',
     ''    att.attname AS column_name'',
     ''FROM pg_catalog.pg_constraint AS con'',
     ''JOIN pg_catalog.pg_class AS cls ON cls.oid = con.conrelid'',
     ''JOIN pg_catalog.pg_namespace AS ns ON ns.oid = cls.relnamespace'',
     ''LEFT JOIN pg_catalog.pg_attribute AS att'',
     ''    ON cardinality(con.conkey) = 1'',
     ''   AND att.attrelid = cls.oid'',
     ''   AND att.attnum = con.conkey[1]'',
     ''WHERE ns.nspname = $1'',
     ''  AND con.contype = 'c'' @ [CHR 0x27],
     ''ORDER BY cls.relname, con.conname;'']"

text \<open>A check of one column with the name PostgreSQL gives it is the column's, any other the table's.\<close>

definition apply_check :: "fp \<Rightarrow> string \<Rightarrow> string \<Rightarrow> row \<Rightarrow> database_table \<Rightarrow> database_table result" where
  "apply_check F tn expression row t =
     rbind (row_string row ''column_name'') (\<lambda>column_name.
     rbind (row_string row ''constraint_name'') (\<lambda>name.
     rbind (row_int F row ''column_count'' 0) (\<lambda>n.
       let own = (case column_name of
             None \<Rightarrow> None
           | Some cn \<Rightarrow> if n = 1 \<and> name = Some (tn @ ''_'' @ cn @ ''_check'') \<and> find_column t cn \<noteq> None then Some cn else None) in
       Inr (case own of
           Some cn \<Rightarrow> on_column t cn (\<lambda>c. c\<lparr>col_check := Some expression\<rparr>)
         | None \<Rightarrow> t\<lparr>tb_checks := tb_checks t @
             [\<lparr>ck_name = implicit_table_constraint_name tn name ''check'', ck_expression = expression\<rparr>]\<rparr>))))"

definition check_row :: "fp \<Rightarrow> catalog \<Rightarrow> row \<Rightarrow> catalog result" where
  "check_row F ca row =
     rbind (row_string row ''table_name'') (\<lambda>table_name.
     rbind (row_trimmed row ''expression'') (\<lambda>expression.
       case (table_name, expression) of
         (Some tn, Some e) \<Rightarrow> on_table tn (apply_check F tn e row) ca
       | _ \<Rightarrow> Inr ca))"

subsection \<open>Indexes\<close>

definition indexes_sql :: string where
  "indexes_sql = sql_text [
     ''SELECT'',
     ''    tbl.relname AS table_name,'',
     ''    idx.relname AS index_name,'',
     ''    i.indisunique AS is_unique,'',
     ''    pg_catalog.pg_get_expr(i.indpred, i.indrelid) AS predicate,'',
     ''    att.attname AS column_name,'',
     ''    keys.ord AS ordinal_position'',
     ''FROM pg_catalog.pg_index AS i'',
     ''JOIN pg_catalog.pg_class AS tbl ON tbl.oid = i.indrelid'',
     ''JOIN pg_catalog.pg_namespace AS ns ON ns.oid = tbl.relnamespace'',
     ''JOIN pg_catalog.pg_class AS idx ON idx.oid = i.indexrelid'',
     ''JOIN LATERAL unnest(i.indkey) WITH ORDINALITY AS keys(attnum, ord) ON TRUE'',
     ''LEFT JOIN pg_catalog.pg_attribute AS att'',
     ''    ON att.attrelid = tbl.oid AND att.attnum = keys.attnum'',
     ''LEFT JOIN pg_catalog.pg_constraint AS con ON con.conindid = i.indexrelid'',
     ''WHERE ns.nspname = $1'',
     ''  AND NOT i.indisprimary'',
     ''  AND con.oid IS NULL'',
     ''  AND i.indexprs IS NULL'',
     ''  AND i.indnatts = i.indnkeyatts'',
     ''ORDER BY tbl.relname, idx.relname, keys.ord;'']"

text \<open>
  The rows of an index are collected under the name of the table, a line feed and the name of the index;
  an index with a part that is no column is not representable.
\<close>

record index_accumulator =
  ia_indexes :: "(string, database_index \<times> bool) amap"
  ia_order :: "string list"

definition index_key :: "string \<Rightarrow> string \<Rightarrow> string" where
  "index_key tn name = tn @ [CHR 0x0A] @ name"

definition with_index :: "fp \<Rightarrow> row \<Rightarrow> string \<Rightarrow> string \<Rightarrow> index_accumulator \<Rightarrow> index_accumulator result" where
  "with_index F row key name ia =
     (case alookup (ia_indexes ia) key of
        Some e \<Rightarrow> Inr ia
      | None \<Rightarrow>
          rbind (row_bool F row ''is_unique'') (\<lambda>uniq.
          rbind (row_trimmed row ''predicate'') (\<lambda>predicate.
            Inr \<lparr>ia_indexes = aput key (\<lparr>ix_name = name, ix_columns = [], ix_unique = uniq, ix_where = predicate\<rparr>, True) (ia_indexes ia),
              ia_order = ia_order ia @ [key]\<rparr>)))"

definition index_row :: "fp \<Rightarrow> catalog \<Rightarrow> index_accumulator \<Rightarrow> row \<Rightarrow> index_accumulator result" where
  "index_row F ca ia row =
     rbind (row_string row ''table_name'') (\<lambda>table_name.
     rbind (row_string row ''index_name'') (\<lambda>index_name.
       case (table_name, index_name) of
         (Some tn, Some name) \<Rightarrow>
           if alookup (ca_positions ca) tn = None then Inr ia
           else
             rbind (with_index F row (index_key tn name) name ia) (\<lambda>ia.
             rbind (row_string row ''column_name'') (\<lambda>column_name.
               case alookup (ia_indexes ia) (index_key tn name) of
                 None \<Rightarrow> Inr ia
               | Some (ix, ok) \<Rightarrow> Inr (ia\<lparr>ia_indexes := aput (index_key tn name)
                   (case column_name of
                      None \<Rightarrow> (ix, False)
                    | Some c \<Rightarrow> (ix\<lparr>ix_columns := ix_columns ix @ [c]\<rparr>, ok)) (ia_indexes ia)\<rparr>)))
       | _ \<Rightarrow> Inr ia))"

definition place_index :: "index_accumulator \<Rightarrow> catalog \<Rightarrow> string \<Rightarrow> catalog result" where
  "place_index ia ca key =
     (case alookup (ia_indexes ia) key of
        None \<Rightarrow> Inr ca
      | Some (ix, ok) \<Rightarrow>
          if \<not> ok \<or> ix_columns ix = [] then Inr ca
          else on_table (takeWhile (\<lambda>c. c \<noteq> CHR 0x0A) key) (\<lambda>t. Inr (t\<lparr>tb_indexes := tb_indexes t @ [ix]\<rparr>)) ca)"

definition no_indexes :: index_accumulator where
  "no_indexes = \<lparr>ia_indexes = [], ia_order = []\<rparr>"

definition place_indexes :: "index_accumulator \<Rightarrow> catalog \<Rightarrow> catalog result" where
  "place_indexes ia ca = fold_result (place_index ia) ca (ia_order ia)"

subsection \<open>Views\<close>

definition pg_views_sql :: string where
  "pg_views_sql = sql_text [
     ''SELECT'',
     ''    cls.relname AS view_name,'',
     ''    pg_catalog.pg_get_viewdef(cls.oid, true) AS definition,'',
     ''    pg_catalog.obj_description(cls.oid, 'pg_class') AS comment'',
     ''FROM pg_catalog.pg_class AS cls'',
     ''JOIN pg_catalog.pg_namespace AS ns ON ns.oid = cls.relnamespace'',
     ''WHERE ns.nspname = $1'',
     ''  AND cls.relkind = 'v'' @ [CHR 0x27],
     ''ORDER BY cls.relname;'']"

definition view_columns_sql :: string where
  "view_columns_sql = sql_text [
     ''SELECT'',
     ''    cls.relname AS view_name,'',
     ''    att.attname AS column_name,'',
     ''    pg_catalog.format_type(att.atttypid, att.atttypmod) AS data_type,'',
     ''    att.attnotnull AS not_null,'',
     ''    pg_catalog.col_description(cls.oid, att.attnum) AS comment'',
     ''FROM pg_catalog.pg_attribute AS att'',
     ''JOIN pg_catalog.pg_class AS cls ON cls.oid = att.attrelid'',
     ''JOIN pg_catalog.pg_namespace AS ns ON ns.oid = cls.relnamespace'',
     ''WHERE ns.nspname = $1'',
     ''  AND cls.relkind = 'v'' @ [CHR 0x27],
     ''  AND att.attnum > 0'',
     ''  AND NOT att.attisdropped'',
     ''ORDER BY cls.relname, att.attnum;'']"

record view_catalog =
  vc_views :: "database_view list"
  vc_positions :: "(string, nat) amap"

definition catalog_view_row :: "introspect_options \<Rightarrow> view_catalog \<Rightarrow> row \<Rightarrow> view_catalog result" where
  "catalog_view_row opt vc row =
     rbind (row_string row ''view_name'') (\<lambda>view_name. case view_name of
         None \<Rightarrow> Inr vc
       | Some name \<Rightarrow>
           if \<not> include_view name opt then Inr vc
           else
             rbind (row_trimmed row ''definition'') (\<lambda>d.
             rbind (row_trimmed row ''comment'') (\<lambda>comment.
               Inr \<lparr>vc_views = vc_views vc @ [\<lparr>vw_name = name, vw_columns = [], vw_definition = d, vw_comment = comment\<rparr>],
                 vc_positions = (if alookup (vc_positions vc) name = None
                   then aput name (length (vc_views vc)) (vc_positions vc) else vc_positions vc)\<rparr>)))"

definition catalog_view_column_row :: "fp \<Rightarrow> view_catalog \<Rightarrow> row \<Rightarrow> view_catalog result" where
  "catalog_view_column_row F vc row =
     rbind (row_string row ''view_name'') (\<lambda>view_name.
     rbind (row_string row ''column_name'') (\<lambda>column_name.
       case (view_name, column_name) of
         (Some name, Some cn) \<Rightarrow>
           (case alookup (vc_positions vc) name of
              None \<Rightarrow> Inr vc
            | Some p \<Rightarrow>
                rbind (row_string row ''data_type'') (\<lambda>ty.
                rbind (row_bool F row ''not_null'') (\<lambda>not_null.
                rbind (row_trimmed row ''comment'') (\<lambda>comment.
                  let c = (new_column cn)\<lparr>col_type := value_or ty [], col_not_null := not_null, col_comment := comment\<rparr>;
                      v = vc_views vc ! p in
                  Inr (vc\<lparr>vc_views := (vc_views vc)[p := v\<lparr>vw_columns := vw_columns v @ [c]\<rparr>]\<rparr>)))))
       | _ \<Rightarrow> Inr vc))"

subsection \<open>The catalog\<close>

definition read_rows ::
  "'s executor \<Rightarrow> string \<Rightarrow> string \<Rightarrow> ('a \<Rightarrow> row \<Rightarrow> 'a result) \<Rightarrow> 'a \<Rightarrow> ('s, 'a) action" where
  "read_rows exec sch sql step a =
     act_bind (exec sql [VString sch]) (\<lambda>r. act_lift (fold_result step a (qr_rows r)))"

definition introspect_postgres :: "fp \<Rightarrow> 's executor \<Rightarrow> introspect_options \<Rightarrow> ('s, database_schema) action" where
  "introspect_postgres F exec opt =
     (let sch = value_or (io_schema opt) ''public'' in
      act_bind (read_rows exec sch columns_sql (catalog_column_row F opt) \<lparr>ca_tables = [], ca_positions = []\<rparr>) (\<lambda>ca.
      act_bind (read_rows exec sch table_comments_sql table_comment_row ca) (\<lambda>ca.
      act_bind (read_rows exec sch primary_keys_sql primary_key_row ca) (\<lambda>ca.
      act_bind (read_rows exec sch uniques_sql (unique_row F) ca) (\<lambda>ca.
      act_bind (read_rows exec sch foreign_keys_sql (catalog_foreign_key_row F sch) ca) (\<lambda>ca.
      act_bind (read_rows exec sch checks_sql (check_row F) ca) (\<lambda>ca.
      act_bind (read_rows exec sch indexes_sql (index_row F ca) no_indexes) (\<lambda>ia.
      act_bind (act_lift (place_indexes ia ca)) (\<lambda>ca.
      if \<not> io_include_views opt then act_return \<lparr>ds_tables = ca_tables ca, ds_views = []\<rparr>
      else
        act_bind (read_rows exec sch pg_views_sql (catalog_view_row opt) \<lparr>vc_views = [], vc_positions = []\<rparr>) (\<lambda>vc.
        act_bind (read_rows exec sch view_columns_sql (catalog_view_column_row F) vc) (\<lambda>vc.
          act_return \<lparr>ds_tables = ca_tables ca, ds_views = vc_views vc\<rparr>)))))))))))"

definition introspect_schema :: "fp \<Rightarrow> 's executor \<Rightarrow> dialect \<Rightarrow> introspect_options \<Rightarrow> ('s, database_schema) action" where
  "introspect_schema F exec d opt =
     (case d_family d of
        SQLite \<Rightarrow> introspect_sqlite F exec opt
      | PostgreSQL \<Rightarrow> introspect_postgres F exec opt
      | Generic \<Rightarrow> act_throw (Logic_error ''MetalORM: schema introspection is not available for the generic dialect''))"

end
