(* ===== verification/Postgres_Catalog.thy ===== *)
theory Postgres_Catalog
  imports Postgres_Introspection Schema_Round_Trip
begin

section \<open>A PostgreSQL catalog is read back\<close>

text \<open>
  What the server answers to the queries for a database with given tables, as the documentation of the
  system catalogs says, and the theorem that introspection returns these tables. Rows may have more
  columns than the ones named here, and the rows of one table come in the order of the query.
\<close>

subsection \<open>What the server answers\<close>

definition says :: "row \<Rightarrow> (string \<times> dbvalue) list \<Rightarrow> bool" where
  "says row fs \<longleftrightarrow> (\<forall>(k, v) \<in> set fs. alookup row k = Some v)"

definition text_value :: "string option \<Rightarrow> dbvalue" where
  "text_value v = (case v of None \<Rightarrow> VNull | Some s \<Rightarrow> VString s)"

definition serial_default :: "database_column \<Rightarrow> bool" where
  "serial_default c = (case col_default c of None \<Rightarrow> False | Some d \<Rightarrow> starts_with d ''nextval('')"

text \<open>
  A table, with its constraints in the order of their names. A check of the table comes with the column
  it is about, when it is about one.
\<close>

record catalog_table =
  ct_table :: database_table
  ct_uniques :: "database_column list"
  ct_references :: "database_column list"
  ct_checks :: "(database_column + database_check \<times> string option) list"

definition ct_name :: "catalog_table \<Rightarrow> string" where
  "ct_name d = tb_name (ct_table d)"

definition column_fields :: "catalog_table \<Rightarrow> database_column \<Rightarrow> (string \<times> dbvalue) list" where
  "column_fields d c = [(''table_name'', VString (ct_name d)), (''column_name'', VString (col_name c)),
     (''data_type'', VString (col_type c)), (''not_null'', VBool (col_not_null c)),
     (''column_default'', text_value (col_default c)),
     (''is_identity'', VBool (col_auto_increment c \<and> \<not> serial_default c)), (''comment'', text_value (col_comment c))]"

definition comment_fields :: "catalog_table \<Rightarrow> (string \<times> dbvalue) list" where
  "comment_fields d = [(''table_name'', VString (ct_name d)), (''comment'', text_value (tb_comment (ct_table d)))]"

text \<open>A constraint that was given no name has the one the server makes.\<close>

definition key_fields :: "catalog_table \<Rightarrow> string \<Rightarrow> (string \<times> dbvalue) list" where
  "key_fields d c = [(''table_name'', VString (ct_name d)), (''column_name'', VString c),
     (''constraint_name'', VString (value_or (tb_primary_key_name (ct_table d)) (ct_name d @ ''_pkey'')))]"

definition own_name :: "catalog_table \<Rightarrow> database_column \<Rightarrow> string \<Rightarrow> string" where
  "own_name d c suffix = ct_name d @ ''_'' @ col_name c @ ''_'' @ suffix"

definition unique_fields :: "catalog_table \<Rightarrow> database_column \<Rightarrow> (string \<times> dbvalue) list" where
  "unique_fields d c = [(''table_name'', VString (ct_name d)), (''column_name'', VString (col_name c)),
     (''constraint_name'', VString (value_or (col_unique_name c) (own_name d c ''key''))), (''column_count'', VInt 1)]"

text \<open>\<open>confdeltype\<close> has no value for no action given: it is \<open>NO ACTION\<close>.\<close>

definition reference_fields :: "string \<Rightarrow> catalog_table \<Rightarrow> database_column \<Rightarrow> foreign_key_reference \<Rightarrow> (string \<times> dbvalue) list" where
  "reference_fields sch d c r = [(''table_name'', VString (ct_name d)), (''column_name'', VString (col_name c)),
     (''constraint_name'', VString (value_or (fk_name r) (own_name d c ''fkey''))),
     (''target_schema'', VString (value_or (fk_schema r) sch)), (''target_table'', VString (fk_table r)),
     (''target_column'', VString (fk_column r)), (''on_delete'', text_value (fk_on_delete r)),
     (''on_update'', text_value (fk_on_update r)), (''deferrable'', VBool (fk_deferrable r))]"

definition check_fields :: "catalog_table \<Rightarrow> database_column + database_check \<times> string option \<Rightarrow> (string \<times> dbvalue) list" where
  "check_fields d k = (''table_name'', VString (ct_name d)) # (case k of
       Inl c \<Rightarrow> [(''constraint_name'', VString (own_name d c ''check'')), (''expression'', text_value (col_check c)),
         (''column_count'', VInt 1), (''column_name'', VString (col_name c))]
     | Inr (k, c) \<Rightarrow> [(''constraint_name'', VString (value_or (ck_name k) (ct_name d @ ''_check''))),
         (''expression'', VString (ck_expression k)), (''column_count'', VInt (if c = None then 2 else 1)),
         (''column_name'', text_value c)])"

definition index_fields :: "catalog_table \<times> database_index \<Rightarrow> string \<Rightarrow> (string \<times> dbvalue) list" where
  "index_fields j c = (case j of (d, ix) \<Rightarrow>
     [(''table_name'', VString (ct_name d)), (''index_name'', VString (ix_name ix)), (''is_unique'', VBool (ix_unique ix)),
      (''predicate'', text_value (ix_where ix)), (''column_name'', VString c)])"

definition index_jobs :: "catalog_table list \<Rightarrow> (catalog_table \<times> database_index) list" where
  "index_jobs ds = concat (List.map (\<lambda>d. List.map (Pair d) (tb_indexes (ct_table d))) ds)"

definition view_fields :: "database_view \<Rightarrow> (string \<times> dbvalue) list" where
  "view_fields v = [(''view_name'', VString (vw_name v)), (''definition'', text_value (vw_definition v)),
     (''comment'', text_value (vw_comment v))]"

definition view_column_fields :: "database_view \<Rightarrow> database_column \<Rightarrow> (string \<times> dbvalue) list" where
  "view_column_fields v c = [(''view_name'', VString (vw_name v)), (''column_name'', VString (col_name c)),
     (''data_type'', VString (col_type c)), (''not_null'', VBool (col_not_null c)), (''comment'', text_value (col_comment c))]"

text \<open>One row for each part of each table, the tables in the same order in every query.\<close>

definition reports :: "('p \<Rightarrow> 'x \<Rightarrow> (string \<times> dbvalue) list) \<Rightarrow> ('p \<Rightarrow> 'x list) \<Rightarrow> 'p list \<Rightarrow> row list \<Rightarrow> bool" where
  "reports fs parts ps rows \<longleftrightarrow> (\<exists>rss. rows = concat rss \<and>
     list_all2 (\<lambda>p rs. list_all2 (\<lambda>x row. says row (fs p x)) (parts p) rs) ps rss)"

definition referenced :: "catalog_table \<Rightarrow> (database_column \<times> foreign_key_reference) list" where
  "referenced d = concat (List.map (\<lambda>c. case col_references c of None \<Rightarrow> [] | Some r \<Rightarrow> [(c, r)]) (ct_references d))"

definition postgres_reports :: "'s executor \<Rightarrow> string \<Rightarrow> catalog_table list \<Rightarrow> database_view list \<Rightarrow> bool" where
  "postgres_reports exec sch ds vs \<longleftrightarrow>
     (\<forall>(sql, ok) \<in> set [
        (columns_sql, reports column_fields (\<lambda>d. tb_columns (ct_table d)) ds),
        (table_comments_sql, reports (\<lambda>d _. comment_fields d) (\<lambda>d. [()]) ds),
        (primary_keys_sql, reports key_fields (\<lambda>d. tb_primary_key (ct_table d)) ds),
        (uniques_sql, reports unique_fields ct_uniques ds),
        (foreign_keys_sql, reports (\<lambda>d (c, r). reference_fields sch d c r) referenced ds),
        (checks_sql, reports check_fields ct_checks ds),
        (indexes_sql, reports index_fields (\<lambda>(d, ix). ix_columns ix) (index_jobs ds)),
        (pg_views_sql, reports (\<lambda>v _. view_fields v) (\<lambda>v. [()]) vs),
        (view_columns_sql, reports view_column_fields vw_columns vs)].
        \<exists>rows. answers exec sql [VString sch] rows \<and> ok rows)"

text \<open>
  Names of constraints are not the ones the server would make, texts have no blanks around, and the
  constraint lists are those of the table.
\<close>

definition tidy :: "string option \<Rightarrow> bool" where
  "tidy v \<longleftrightarrow> trim_nonempty v = v"

definition catalog_column_ok :: "string \<Rightarrow> catalog_table \<Rightarrow> database_column \<Rightarrow> bool" where
  "catalog_column_ok sch d c \<longleftrightarrow> (serial_default c \<longrightarrow> col_auto_increment c) \<and> tidy (col_comment c) \<and> tidy (col_check c) \<and>
     (if col_unique c then c \<in> set (ct_uniques d) \<and> col_unique_name c \<noteq> Some (own_name d c ''key'')
      else col_unique_name c = None) \<and>
     (case col_references c of
        None \<Rightarrow> True
      | Some r \<Rightarrow> c \<in> set (ct_references d) \<and> fk_name r \<noteq> Some (own_name d c ''fkey'') \<and> fk_schema r \<noteq> Some sch \<and>
          normalize_action (fk_on_delete r) = fk_on_delete r \<and> normalize_action (fk_on_update r) = fk_on_update r) \<and>
     (col_check c \<noteq> None \<longrightarrow> Inl c \<in> set (ct_checks d))"

definition catalog_check_ok :: "catalog_table \<Rightarrow> database_check \<times> string option \<Rightarrow> bool" where
  "catalog_check_ok d k = (case k of (k, c) \<Rightarrow> tidy (Some (ck_expression k)) \<and> ck_name k \<noteq> Some (ct_name d @ ''_check'') \<and>
     (case c of None \<Rightarrow> True | Some n \<Rightarrow> value_or (ck_name k) (ct_name d @ ''_check'') \<noteq> ct_name d @ ''_'' @ n @ ''_check''))"

definition catalog_table_ok :: "string \<Rightarrow> catalog_table \<Rightarrow> bool" where
  "catalog_table_ok sch d \<longleftrightarrow> (let t = ct_table d in
     tb_columns t \<noteq> [] \<and> distinct (List.map col_name (tb_columns t)) \<and> list_all (catalog_column_ok sch d) (tb_columns t) \<and>
     tidy (tb_comment t) \<and> tb_primary_key_name t \<noteq> Some (ct_name d @ ''_pkey'') \<and>
     (tb_primary_key t = [] \<longrightarrow> tb_primary_key_name t = None) \<and>
     list_all (\<lambda>c. c \<in> set (tb_columns t) \<and> col_unique c) (ct_uniques d) \<and>
     set (ct_references d) \<subseteq> set (tb_columns t) \<and>
     list_all (case_sum (\<lambda>c. c \<in> set (tb_columns t) \<and> col_check c \<noteq> None) (catalog_check_ok d)) (ct_checks d) \<and>
     concat (List.map (case_sum (\<lambda>c. []) (\<lambda>k. [fst k])) (ct_checks d)) = tb_checks t \<and>
     distinct (List.map ix_name (tb_indexes t)) \<and> list_all (\<lambda>ix. ix_columns ix \<noteq> [] \<and> tidy (ix_where ix)) (tb_indexes t) \<and>
     CHR 0x0A \<notin> set (ct_name d))"

text \<open>Of the columns of a view the catalog has the name, the type, whether they can be NULL, and the comment.\<close>

definition catalog_view_ok :: "database_view \<Rightarrow> bool" where
  "catalog_view_ok v \<longleftrightarrow> tidy (vw_definition v) \<and> tidy (vw_comment v) \<and>
     list_all (\<lambda>c. c = (new_column (col_name c))\<lparr>col_type := col_type c, col_not_null := col_not_null c, col_comment := col_comment c\<rparr> \<and>
       tidy (col_comment c)) (vw_columns v)"

subsection \<open>Reading fields\<close>

lemma saysD: "says row fs \<Longrightarrow> (k, v) \<in> set fs \<Longrightarrow> alookup row k = Some v"
  by (auto simp: says_def)

lemma row_fields:
  "alookup row k = Some (text_value v) \<Longrightarrow> row_string row k = Inr v"
  "alookup row k = Some (VString s) \<Longrightarrow> row_string row k = Inr (Some s)"
  "alookup row k = Some (VBool b) \<Longrightarrow> row_bool F row k = Inr b"
  "alookup row k = Some (text_value v) \<Longrightarrow> row_trimmed row k = Inr (trim_nonempty v)"
  "alookup row k = Some (VString s) \<Longrightarrow> row_trimmed row k = Inr (trim_nonempty (Some s))"
  by (auto simp: row_string_def row_bool_def row_trimmed_def text_value_def split: option.splits)

lemma value_or_simps [simp]: "value_or (Some x) d = x" "value_or None d = d"
  by (simp_all add: value_or_def)

lemma implicit_names:
  "v \<noteq> Some (tn @ ''_'' @ cn @ ''_'' @ suffix) \<Longrightarrow>
     implicit_constraint_name tn cn (Some (value_or v (tn @ ''_'' @ cn @ ''_'' @ suffix))) suffix = v"
  "v \<noteq> Some (tn @ ''_'' @ suffix) \<Longrightarrow> implicit_table_constraint_name tn (Some (value_or v (tn @ ''_'' @ suffix))) suffix = v"
  by (cases v; simp add: implicit_constraint_name_def implicit_table_constraint_name_def)+

lemma implicit_own:
  "v \<noteq> Some (own_name d c suffix) \<Longrightarrow>
     implicit_constraint_name (ct_name d) (col_name c) (Some (value_or v (own_name d c suffix))) suffix = v"
  using implicit_names(1) [of v "ct_name d" "col_name c" suffix] by (simp add: own_name_def)

lemma fold_result_append: "fold_result f a (xs @ ys) = rbind (fold_result f a xs) (\<lambda>b. fold_result f b ys)"
  by (induction xs arbitrary: a) (auto simp: rbind_def split: sum.split)


subsection \<open>Rows of one table after the other\<close>

lemma fold_on_table:
  assumes "list_all2 (\<lambda>r f. \<forall>ca. step ca r = on_table n f ca) rs fs" and "alookup pos n = Some p" and "p < length ts"
  shows "fold_result step \<lparr>ca_tables = ts, ca_positions = pos\<rparr> rs =
    rbind (fold_result (\<lambda>t f. f t) (ts ! p) fs) (\<lambda>t. Inr \<lparr>ca_tables = ts[p := t], ca_positions = pos\<rparr>)"
  using assms
proof (induction rs fs arbitrary: ts rule: list_all2_induct)
  case (Cons r rs f fs)
  then show ?case
    by (cases "f (ts ! p)") (simp_all add: on_table_def)
qed simp

lemma fold_on_table_absent:
  assumes "list_all2 (\<lambda>r f. \<forall>ca. step ca r = on_table n f ca) rs fs" and "alookup pos n = None"
  shows "fold_result step \<lparr>ca_tables = ts, ca_positions = pos\<rparr> rs = Inr \<lparr>ca_tables = ts, ca_positions = pos\<rparr>"
  using assms by (induction rs fs rule: list_all2_induct) (auto simp: on_table_def)

definition placed :: "('p \<Rightarrow> string) \<Rightarrow> ('p \<Rightarrow> bool) \<Rightarrow> 'p list \<Rightarrow> nat \<Rightarrow> (string, nat) amap \<Rightarrow> bool" where
  "placed nm incl ds n pos \<longleftrightarrow> (\<forall>d \<in> set ds. \<not> incl d \<longrightarrow> alookup pos (nm d) = None) \<and>
     (\<forall>i < length (filter incl ds). alookup pos (nm (filter incl ds ! i)) = Some (n + i))"

lemma placed_Nil [simp]: "placed nm incl [] n pos"
  by (simp add: placed_def)

lemma placed_Cons:
  "placed nm incl (d # ds) n pos \<longleftrightarrow>
     (if incl d then alookup pos (nm d) = Some n \<and> placed nm incl ds (Suc n) pos
      else alookup pos (nm d) = None \<and> placed nm incl ds n pos)"
  by (auto simp: placed_def nth_Cons' less_Suc_eq_0_disj)

lemma placed_included: "placed nm incl ds n pos \<Longrightarrow> d \<in> set ds \<Longrightarrow> alookup pos (nm d) \<noteq> None \<longleftrightarrow> incl d"
  by (induction ds arbitrary: n) (auto simp: placed_Cons split: if_splits)

text \<open>
  A stage: the rows of every table only touch that table, and together take it from \<open>cur\<close> to \<open>nxt\<close>. The
  rows of excluded tables are skipped.
\<close>

definition stage_of ::
  "(catalog \<Rightarrow> 'r \<Rightarrow> catalog result) \<Rightarrow> (catalog_table \<Rightarrow> bool) \<Rightarrow> (catalog_table \<Rightarrow> database_table) \<Rightarrow>
   (catalog_table \<Rightarrow> database_table) \<Rightarrow> catalog_table \<Rightarrow> 'r list \<Rightarrow> bool" where
  "stage_of step incl cur nxt d rs \<longleftrightarrow> (\<exists>fs. list_all2 (\<lambda>r f. \<forall>ca. step ca r = on_table (ct_name d) f ca) rs fs \<and>
     (incl d \<longrightarrow> fold_result (\<lambda>t f. f t) (cur d) fs = Inr (nxt d)))"

lemma stage_of_parts:
  assumes "list_all2 (\<lambda>x row. says row (fs x)) xs rows"
    and "\<And>x row ca. x \<in> set xs \<Longrightarrow> says row (fs x) \<Longrightarrow> step ca row = on_table (ct_name d) (\<lambda>t. Inr (g x t)) ca"
    and "incl d \<Longrightarrow> fold g xs (cur d) = nxt d"
  shows "stage_of step incl cur nxt d rows"
  unfolding stage_of_def
proof (intro exI conjI impI)
  let ?fs = "List.map (\<lambda>x t. Inr (g x t)) xs"
  show "list_all2 (\<lambda>r f. \<forall>ca. step ca r = on_table (ct_name d) f ca) rows ?fs"
    using assms(1,2) by (simp add: list_all2_conv_all_nth) 
  have "fold_result (\<lambda>t f. f t) t ?fs = Inr (fold g xs t)" for t by (induction xs arbitrary: t) simp_all
  with assms(3) show "incl d \<Longrightarrow> fold_result (\<lambda>t f. f t) (cur d) ?fs = Inr (nxt d)" by simp
qed

lemma catalog_stage:
  assumes "list_all2 (stage_of step incl cur nxt) ds rss" and "placed ct_name incl ds (length xs) pos"
  shows "fold_result step \<lparr>ca_tables = xs @ List.map cur (filter incl ds), ca_positions = pos\<rparr> (concat rss) =
    Inr \<lparr>ca_tables = xs @ List.map nxt (filter incl ds), ca_positions = pos\<rparr>"
  using assms
proof (induction ds rss arbitrary: xs rule: list_all2_induct)
  case (Cons d ds rs rss)
  from Cons(1) obtain fs where body: "list_all2 (\<lambda>r f. \<forall>ca. step ca r = on_table (ct_name d) f ca) rs fs"
    "incl d \<longrightarrow> fold_result (\<lambda>t f. f t) (cur d) fs = Inr (nxt d)"
    by (auto simp: stage_of_def)
  show ?case
  proof (cases "incl d")
    case True
    with Cons.prems have pos: "alookup pos (ct_name d) = Some (length xs)" "placed ct_name incl ds (length (xs @ [nxt d])) pos"
      by (simp_all add: placed_Cons)
    from fold_on_table [OF body(1) pos(1), of "xs @ cur d # List.map cur (filter incl ds)"] body(2) True
    have "fold_result step \<lparr>ca_tables = xs @ List.map cur (filter incl (d # ds)), ca_positions = pos\<rparr> rs =
        Inr \<lparr>ca_tables = (xs @ [nxt d]) @ List.map cur (filter incl ds), ca_positions = pos\<rparr>"
      by simp
    with Cons.IH [OF pos(2)] True show ?thesis by (simp add: fold_result_append)
  next
    case False
    with Cons.prems have pos: "alookup pos (ct_name d) = None" "placed ct_name incl ds (length xs) pos"
      by (simp_all add: placed_Cons)
    from fold_on_table_absent [OF body(1) pos(1)] Cons.IH [OF pos(2)] False show ?thesis
      by (simp add: fold_result_append)
  qed
qed simp

subsection \<open>Columns\<close>

text \<open>What the first query says of a column.\<close>

definition bare_column :: "database_column \<Rightarrow> database_column" where
  "bare_column c = c\<lparr>col_unique := False, col_unique_name := None, col_references := None, col_check := None\<rparr>"

definition bare_table :: "catalog_table \<Rightarrow> database_table" where
  "bare_table d = (new_table (ct_name d))\<lparr>tb_columns := List.map bare_column (tb_columns (ct_table d))\<rparr>"

lemma column_fields_read:
  assumes "says row (column_fields d c)" and "catalog_column_ok sch d c"
  shows "row_string row ''table_name'' = Inr (Some (ct_name d))" "row_string row ''column_name'' = Inr (Some (col_name c))"
    "catalog_column F (col_name c) row = Inr (bare_column c)"
proof -
  note get = saysD [OF assms(1)]
  show "row_string row ''table_name'' = Inr (Some (ct_name d))" "row_string row ''column_name'' = Inr (Some (col_name c))"
    by (rule row_fields(2), rule get, simp add: column_fields_def)+
  have "row_string row ''data_type'' = Inr (Some (col_type c))" "row_bool F row ''not_null'' = Inr (col_not_null c)"
    "row_string row ''column_default'' = Inr (col_default c)"
    "row_bool F row ''is_identity'' = Inr (col_auto_increment c \<and> \<not> serial_default c)"
    "row_trimmed row ''comment'' = Inr (trim_nonempty (col_comment c))"
    by (rule row_fields, rule get, simp add: column_fields_def)+
  with assms(2) show "catalog_column F (col_name c) row = Inr (bare_column c)"
    by (cases c) (auto simp: catalog_column_def bare_column_def new_column_def catalog_column_ok_def tidy_def serial_default_def
        split: option.splits)
qed

lemma with_position_simps:
  "alookup (ca_positions ca) n = Some p \<Longrightarrow> with_position n ca = ca"
  by (simp add: with_position_def)

lemma column_row_position:
  assumes "says row (column_fields d c)" and "catalog_column_ok sch d c" and "include_table (ct_name d) opt"
  shows "catalog_column_row F opt ca row =
    on_table (ct_name d) (\<lambda>t. Inr (t\<lparr>tb_columns := tb_columns t @ [bare_column c]\<rparr>)) (with_position (ct_name d) ca)"
  using assms(3) by (simp add: catalog_column_row_def column_fields_read [OF assms(1,2)])

lemma table_columns_read:
  assumes "list_all2 (\<lambda>c row. says row (column_fields d c)) cs rows" and "list_all (catalog_column_ok sch d) cs"
    and "include_table (ct_name d) opt" and "alookup pos (ct_name d) = Some p" and "p < length ts"
  shows "fold_result (catalog_column_row F opt) \<lparr>ca_tables = ts, ca_positions = pos\<rparr> rows =
    Inr \<lparr>ca_tables = ts[p := (ts ! p)\<lparr>tb_columns := tb_columns (ts ! p) @ List.map bare_column cs\<rparr>], ca_positions = pos\<rparr>"
  using assms
proof (induction cs rows arbitrary: ts rule: list_all2_induct)
  case (Cons c cs row rows)
  then show ?case
    by (simp add: column_row_position [where d = d and c = c and sch = sch] with_position_simps on_table_def)
qed simp

lemma included_table_read:
  assumes "list_all2 (\<lambda>c row. says row (column_fields d c)) (tb_columns (ct_table d)) rows" and "catalog_table_ok sch d"
    and "include_table (ct_name d) opt" and "alookup pos (ct_name d) = None"
  shows "fold_result (catalog_column_row F opt) \<lparr>ca_tables = ts, ca_positions = pos\<rparr> rows =
    Inr \<lparr>ca_tables = ts @ [bare_table d], ca_positions = aput (ct_name d) (length ts) pos\<rparr>"
proof -
  let ?ca = "\<lparr>ca_tables = ts, ca_positions = pos\<rparr>" and ?pos = "aput (ct_name d) (length ts) pos"
  let ?ca' = "\<lparr>ca_tables = ts @ [new_table (ct_name d)], ca_positions = ?pos\<rparr>"
  from assms(2) obtain c cs where cs: "tb_columns (ct_table d) = c # cs" by (auto simp: catalog_table_ok_def Let_def neq_Nil_conv)
  with assms(1) obtain row rest where rows: "rows = row # rest" "says row (column_fields d c)" by (auto simp: list_all2_Cons1)
  from assms(2) have ok: "list_all (catalog_column_ok sch d) (tb_columns (ct_table d))" by (simp add: catalog_table_ok_def Let_def)
  have new: "with_position (ct_name d) ?ca = ?ca'" using assms(4) by (simp add: with_position_def)
  have same: "with_position (ct_name d) ?ca' = ?ca'" by (simp add: with_position_def)
  have "catalog_column_row F opt ?ca row = catalog_column_row F opt ?ca' row"
    using rows(2) ok cs assms(3) by (simp add: column_row_position [where d = d and c = c and sch = sch] new same)
  then have "fold_result (catalog_column_row F opt) ?ca rows = fold_result (catalog_column_row F opt) ?ca' rows"
    by (simp add: rows)
  also have "\<dots> = Inr \<lparr>ca_tables = ts @ [bare_table d], ca_positions = ?pos\<rparr>"
    using table_columns_read [OF assms(1) ok assms(3), where pos = ?pos and ts = "ts @ [new_table (ct_name d)]" and p = "length ts"]
    by (simp add: bare_table_def new_table_def)
  finally show ?thesis .
qed

lemma excluded_table_read:
  assumes "list_all2 (\<lambda>c row. says row (column_fields d c)) cs rows" and "list_all (catalog_column_ok sch d) cs"
    and "\<not> include_table (ct_name d) opt"
  shows "fold_result (catalog_column_row F opt) ca rows = Inr ca"
  using assms
  by (induction cs rows rule: list_all2_induct)
    (simp_all add: catalog_column_row_def column_fields_read [where d = d and sch = sch])

lemma columns_stage:
  assumes "list_all2 (\<lambda>d rows. list_all2 (\<lambda>c row. says row (column_fields d c)) (tb_columns (ct_table d)) rows) ds rss"
    and "list_all (catalog_table_ok sch) ds" and "distinct (List.map ct_name ds)"
    and "\<forall>d \<in> set ds. alookup pos (ct_name d) = None"
  shows "\<exists>pos'. fold_result (catalog_column_row F opt) \<lparr>ca_tables = ts, ca_positions = pos\<rparr> (concat rss) =
      Inr \<lparr>ca_tables = ts @ List.map bare_table (filter (\<lambda>d. include_table (ct_name d) opt) ds), ca_positions = pos'\<rparr> \<and>
    placed ct_name (\<lambda>d. include_table (ct_name d) opt) ds (length ts) pos' \<and>
    (\<forall>n. n \<notin> ct_name ` set ds \<longrightarrow> alookup pos' n = alookup pos n)"
  using assms
proof (induction ds rss arbitrary: ts pos rule: list_all2_induct)
  case Nil
  then show ?case by (simp add: placed_def)
next
  case (Cons d ds rows rss)
  let ?incl = "\<lambda>d. include_table (ct_name d) opt"
  show ?case
  proof (cases "?incl d")
    case True
    let ?pos = "aput (ct_name d) (length ts) pos"
    have "\<forall>d' \<in> set ds. alookup ?pos (ct_name d') = None" using Cons.prems by (fastforce simp: image_iff)
    with Cons.IH [of ?pos "ts @ [bare_table d]"] Cons.prems obtain pos' where
      pos': "fold_result (catalog_column_row F opt) \<lparr>ca_tables = ts @ [bare_table d], ca_positions = ?pos\<rparr> (concat rss) =
        Inr \<lparr>ca_tables = (ts @ [bare_table d]) @ List.map bare_table (filter ?incl ds), ca_positions = pos'\<rparr>"
      "placed ct_name ?incl ds (Suc (length ts)) pos'" "\<forall>n. n \<notin> ct_name ` set ds \<longrightarrow> alookup pos' n = alookup ?pos n"
      by auto
    moreover have "fold_result (catalog_column_row F opt) \<lparr>ca_tables = ts, ca_positions = pos\<rparr> rows =
        Inr \<lparr>ca_tables = ts @ [bare_table d], ca_positions = ?pos\<rparr>"
      using Cons.prems by (intro included_table_read [OF Cons(1) _ True, where sch = sch]) simp_all
    ultimately show ?thesis using True Cons.prems(2)
      by (intro exI [of _ pos']) (auto simp: fold_result_append placed_Cons)
  next
    case False
    then have "fold_result (catalog_column_row F opt) \<lparr>ca_tables = ts, ca_positions = pos\<rparr> rows = Inr \<lparr>ca_tables = ts, ca_positions = pos\<rparr>"
      using Cons.prems by (intro excluded_table_read [OF Cons(1), where sch = sch]) (simp_all add: catalog_table_ok_def Let_def)
    with False Cons.IH [of pos ts] Cons.prems show ?thesis
      by (auto simp: fold_result_append placed_Cons)
  qed
qed

subsection \<open>Comments and primary keys\<close>

definition commented_table :: "catalog_table \<Rightarrow> database_table" where
  "commented_table d = (bare_table d)\<lparr>tb_comment := tb_comment (ct_table d)\<rparr>"

definition keyed_table :: "catalog_table \<Rightarrow> database_table" where
  "keyed_table d = (commented_table d)\<lparr>tb_primary_key := tb_primary_key (ct_table d),
     tb_primary_key_name := tb_primary_key_name (ct_table d)\<rparr>"

lemma comments_stage:
  assumes "list_all2 (\<lambda>_ row. says row (comment_fields d)) [()] rows" and "catalog_table_ok sch d"
  shows "stage_of table_comment_row incl bare_table commented_table d rows"
proof (rule stage_of_parts [where fs = "\<lambda>_. comment_fields d", OF assms(1), where g = "\<lambda>_ t. t\<lparr>tb_comment := tb_comment (ct_table d)\<rparr>"])
  fix row :: row and ca
  assume "says row (comment_fields d)"
  note get = saysD [OF this]
  have "row_string row ''table_name'' = Inr (Some (ct_name d))" "row_trimmed row ''comment'' = Inr (trim_nonempty (tb_comment (ct_table d)))"
    by (rule row_fields, rule get, simp add: comment_fields_def)+
  with assms(2) show "table_comment_row ca row = on_table (ct_name d) (\<lambda>t. Inr (t\<lparr>tb_comment := tb_comment (ct_table d)\<rparr>)) ca"
    by (simp add: table_comment_row_def catalog_table_ok_def tidy_def Let_def)
qed (simp add: commented_table_def)

lemma fold_key:
  "fold (\<lambda>c t. t\<lparr>tb_primary_key := tb_primary_key t @ [c], tb_primary_key_name := n\<rparr>) cs t =
     t\<lparr>tb_primary_key := tb_primary_key t @ cs, tb_primary_key_name := (if cs = [] then tb_primary_key_name t else n)\<rparr>"
  by (induction cs arbitrary: t) simp_all

lemma keys_stage:
  assumes "list_all2 (\<lambda>c row. says row (key_fields d c)) (tb_primary_key (ct_table d)) rows" and "catalog_table_ok sch d"
  shows "stage_of primary_key_row incl commented_table keyed_table d rows"
proof (rule stage_of_parts [where fs = "key_fields d", OF assms(1)])
  fix c row ca
  assume "says row (key_fields d c)"
  note get = saysD [OF this]
  have "row_string row ''table_name'' = Inr (Some (ct_name d))" "row_string row ''column_name'' = Inr (Some c)"
    "row_string row ''constraint_name'' = Inr (Some (value_or (tb_primary_key_name (ct_table d)) (ct_name d @ ''_pkey'')))"
    by (rule row_fields, rule get, simp add: key_fields_def)+
  moreover have "implicit_table_constraint_name (ct_name d)
      (Some (value_or (tb_primary_key_name (ct_table d)) (ct_name d @ ''_pkey''))) ''pkey'' = tb_primary_key_name (ct_table d)"
    using implicit_names(2) [of "tb_primary_key_name (ct_table d)" "ct_name d" "''pkey''"] assms(2)
    by (simp add: catalog_table_ok_def Let_def)
  ultimately show "primary_key_row ca row = on_table (ct_name d) (\<lambda>t. Inr (t\<lparr>tb_primary_key := tb_primary_key t @ [c],
      tb_primary_key_name := tb_primary_key_name (ct_table d)\<rparr>)) ca"
    by (simp add: primary_key_row_def)
next
  show "fold (\<lambda>c t. t\<lparr>tb_primary_key := tb_primary_key t @ [c], tb_primary_key_name := tb_primary_key_name (ct_table d)\<rparr>)
      (tb_primary_key (ct_table d)) (commented_table d) = keyed_table d"
    using assms(2)
    by (auto simp: fold_key keyed_table_def commented_table_def bare_table_def new_table_def catalog_table_ok_def Let_def)
qed

subsection \<open>Constraints of columns\<close>

text \<open>A table whose columns have their unique constraints, references and checks as far as these were read.\<close>

definition column_part ::
  "database_column set \<Rightarrow> database_column set \<Rightarrow> database_column set \<Rightarrow> database_column \<Rightarrow> database_column" where
  "column_part U R K c = c\<lparr>col_unique := (c \<in> U \<and> col_unique c), col_unique_name := (if c \<in> U then col_unique_name c else None),
     col_references := (if c \<in> R then col_references c else None), col_check := (if c \<in> K then col_check c else None)\<rparr>"

definition column_stage ::
  "catalog_table \<Rightarrow> database_column set \<Rightarrow> database_column set \<Rightarrow> database_column set \<Rightarrow> database_table" where
  "column_stage d U R K = (keyed_table d)\<lparr>tb_columns := List.map (column_part U R K) (tb_columns (ct_table d))\<rparr>"

lemma column_part_name [simp]: "col_name (column_part U R K c) = col_name c"
  by (simp add: column_part_def)

lemma column_stage_start: "column_stage d {} {} {} = keyed_table d"
  by (simp add: column_stage_def column_part_def keyed_table_def commented_table_def bare_table_def bare_column_def)

lemma update_first_map:
  assumes "distinct (List.map col_name cs)" "c \<in> set cs" "\<And>x. col_name (g x) = col_name x"
  shows "update_first (\<lambda>x. col_name x = col_name c) f (List.map g cs) = List.map (\<lambda>x. if x = c then f (g x) else g x) cs"
    and "List.find (\<lambda>x. col_name x = col_name c) (List.map g cs) = Some (g c)"
proof -
  have same: "col_name y = col_name c \<longleftrightarrow> y = c" if "y \<in> set cs" for y
    using assms(1,2) that by (auto simp: distinct_map dest: inj_onD)
  have "update_first (\<lambda>x. col_name x = n) f (List.map g ys) = List.map g ys" if "n \<notin> col_name ` set ys" for ys n
    using that by (induction ys) (auto simp: assms(3))
  with assms(1,2) show "update_first (\<lambda>x. col_name x = col_name c) f (List.map g cs) = List.map (\<lambda>x. if x = c then f (g x) else g x) cs"
    by (induction cs) (auto simp: assms(3) intro!: map_cong)
  from assms(2) same show "List.find (\<lambda>x. col_name x = col_name c) (List.map g cs) = Some (g c)"
    by (induction cs) (auto simp: assms(3))
qed

lemma on_column_stage:
  assumes "catalog_table_ok sch d" and "c \<in> set (tb_columns (ct_table d))"
    and "f (column_part U R K c) = column_part U' R' K' c"
    and "\<And>x. x \<noteq> c \<Longrightarrow> column_part U' R' K' x = column_part U R K x"
  shows "on_column (column_stage d U R K) (col_name c) f = column_stage d U' R' K'"
proof -
  from assms(1) have "distinct (List.map col_name (tb_columns (ct_table d)))" by (simp add: catalog_table_ok_def Let_def)
  note first = update_first_map(1) [OF this assms(2), of "column_part U R K"]
  have "List.map (\<lambda>x. if x = c then f (column_part U R K x) else column_part U R K x) (tb_columns (ct_table d)) =
      List.map (column_part U' R' K') (tb_columns (ct_table d))"
    using assms(3,4) by auto
  then show "on_column (column_stage d U R K) (col_name c) f = column_stage d U' R' K'"
    using first by (simp add: on_column_def column_stage_def)
qed

lemma find_column_stage:
  assumes "catalog_table_ok sch d" and "c \<in> set (tb_columns (ct_table d))"
  shows "find_column (column_stage d U R K) (col_name c) = Some (column_part U R K c)"
  using update_first_map(2) [of "tb_columns (ct_table d)" c "column_part U R K"] assms
  by (simp add: find_column_def column_stage_def catalog_table_ok_def Let_def)

lemma on_column_absent: "find_column t n = None \<Longrightarrow> on_column t n f = t"
proof -
  have "List.find (\<lambda>x. col_name x = n) cs = None \<Longrightarrow> update_first (\<lambda>x. col_name x = n) f cs = cs" for cs
    by (induction cs) (auto split: if_splits)
  then show "find_column t n = None \<Longrightarrow> on_column t n f = t" by (simp add: find_column_def on_column_def)
qed

subsection \<open>Unique constraints\<close>

definition set_unique :: "database_column \<Rightarrow> database_table \<Rightarrow> database_table" where
  "set_unique c t = on_column t (col_name c) (\<lambda>k. k\<lparr>col_unique := True, col_unique_name := col_unique_name c\<rparr>)"

lemma set_uniques:
  assumes "catalog_table_ok sch d"
  shows "set cs \<subseteq> {c \<in> set (tb_columns (ct_table d)). col_unique c} \<Longrightarrow>
    fold set_unique cs (column_stage d U {} {}) = column_stage d (U \<union> set cs) {} {}"
proof (induction cs arbitrary: U)
  case (Cons c cs)
  then have "set_unique c (column_stage d U {} {}) = column_stage d (insert c U) {} {}"
    unfolding set_unique_def by (intro on_column_stage [OF assms]) (auto simp: column_part_def)
  with Cons show ?case by simp
qed simp

lemma table_ok_column:
  "catalog_table_ok sch d \<Longrightarrow> c \<in> set (tb_columns (ct_table d)) \<Longrightarrow> catalog_column_ok sch d c"
  by (simp add: catalog_table_ok_def Let_def list_all_iff)

lemma uniques_stage:
  assumes "list_all2 (\<lambda>c row. says row (unique_fields d c)) (ct_uniques d) rows" and "catalog_table_ok sch d"
  shows "stage_of (unique_row F) incl keyed_table (\<lambda>d. column_stage d (set (ct_uniques d)) {} {}) d rows"
proof (rule stage_of_parts [where fs = "unique_fields d", OF assms(1)])
  have sub: "set (ct_uniques d) \<subseteq> {c \<in> set (tb_columns (ct_table d)). col_unique c}"
    using assms(2) by (auto simp: catalog_table_ok_def Let_def list_all_iff)
  show "fold set_unique (ct_uniques d) (keyed_table d) = column_stage d (set (ct_uniques d)) {} {}"
    using set_uniques [OF assms(2) sub, of "{}"] by (simp add: column_stage_start)
  fix c row ca
  assume c: "c \<in> set (ct_uniques d)" and "says row (unique_fields d c)"
  note get = saysD [OF this(2)]
  have "row_string row ''table_name'' = Inr (Some (ct_name d))" "row_string row ''column_name'' = Inr (Some (col_name c))"
    "row_string row ''constraint_name'' = Inr (Some (value_or (col_unique_name c) (own_name d c ''key'')))"
    by (rule row_fields, rule get, simp add: unique_fields_def)+
  moreover have "row_int F row ''column_count'' 0 = Inr (sint (1 :: u64))"
    by (rule row_int_simps, rule get) (simp add: unique_fields_def)
  moreover have "implicit_constraint_name (ct_name d) (col_name c)
      (Some (value_or (col_unique_name c) (own_name d c ''key''))) ''key'' = col_unique_name c"
    using c sub table_ok_column [OF assms(2), of c] by (intro implicit_own) (auto simp: catalog_column_ok_def)
  ultimately show "unique_row F ca row = on_table (ct_name d) (\<lambda>t. Inr (set_unique c t)) ca"
    by (auto simp: unique_row_def set_unique_def on_column_absent intro!: arg_cong2 [where f = "on_table (ct_name d)"] ext)
qed

subsection \<open>Foreign keys\<close>

definition set_reference_of :: "database_column \<times> foreign_key_reference \<Rightarrow> database_table \<Rightarrow> database_table" where
  "set_reference_of cr t = (case cr of (c, r) \<Rightarrow>
     if Option.bind (find_column t (col_name c)) (\<lambda>k. if col_references k = None then Some k else None) = None then t
     else on_column t (col_name c) (\<lambda>k. k\<lparr>col_references := Some r\<rparr>))"

lemma set_references:
  assumes "catalog_table_ok sch d"
  shows "set cs \<subseteq> set (tb_columns (ct_table d)) \<Longrightarrow>
    fold set_reference_of (concat (List.map (\<lambda>c. case col_references c of None \<Rightarrow> [] | Some r \<Rightarrow> [(c, r)]) cs)) (column_stage d U R {}) =
      column_stage d U (R \<union> set cs) {}"
proof (induction cs arbitrary: R)
  case (Cons c cs)
  then have c: "c \<in> set (tb_columns (ct_table d))" by simp
  have "fold set_reference_of (case col_references c of None \<Rightarrow> [] | Some r \<Rightarrow> [(c, r)]) (column_stage d U R {}) =
      column_stage d U (insert c R) {}"
  proof (cases "col_references c")
    case None
    then have "column_part U (insert c R) {} x = column_part U R {} x" for x by (auto simp: column_part_def)
    with None show ?thesis by (simp add: column_stage_def)
  next
    case (Some r)
    note find = find_column_stage [OF assms c, of U R "{}"]
    show ?thesis
    proof (cases "c \<in> R")
      case True
      with Some find show ?thesis by (simp add: set_reference_of_def column_part_def insert_absorb)
    next
      case False
      have "on_column (column_stage d U R {}) (col_name c) (\<lambda>k. k\<lparr>col_references := Some r\<rparr>) = column_stage d U (insert c R) {}"
        by (rule on_column_stage [OF assms c]) (use Some in \<open>auto simp: column_part_def\<close>)
      with Some False find show ?thesis by (simp add: set_reference_of_def column_part_def)
    qed
  qed
  with Cons show ?case by simp
qed simp

lemma reference_fields_read:
  assumes "says row (reference_fields sch d c r)" and "catalog_column_ok sch d c" and "col_references c = Some r"
  shows "catalog_reference F sch (ct_name d) (col_name c) (value_or (fk_schema r) sch, fk_table r, fk_column r) row = Inr r"
proof -
  note get = saysD [OF assms(1)]
  have "row_string row ''constraint_name'' = Inr (Some (value_or (fk_name r) (own_name d c ''fkey'')))"
    "row_string row ''on_delete'' = Inr (fk_on_delete r)" "row_string row ''on_update'' = Inr (fk_on_update r)"
    "row_bool F row ''deferrable'' = Inr (fk_deferrable r)"
    by (rule row_fields, rule get, simp add: reference_fields_def)+
  moreover have "implicit_constraint_name (ct_name d) (col_name c) (Some (value_or (fk_name r) (own_name d c ''fkey''))) ''fkey'' = fk_name r"
    using assms(2,3) by (intro implicit_own) (simp add: catalog_column_ok_def)
  moreover have "scoped_reference_schema sch (value_or (fk_schema r) sch) = fk_schema r"
    using assms(2,3) by (cases "fk_schema r") (auto simp: scoped_reference_schema_def catalog_column_ok_def)
  ultimately show ?thesis using assms(2,3) by (simp add: catalog_reference_def catalog_column_ok_def)
qed

lemma references_stage:
  assumes "list_all2 (\<lambda>cr row. says row (case cr of (c, r) \<Rightarrow> reference_fields sch d c r)) (referenced d) rows"
    and "catalog_table_ok sch d"
  shows "stage_of (catalog_foreign_key_row F sch) incl (\<lambda>d. column_stage d (set (ct_uniques d)) {} {})
    (\<lambda>d. column_stage d (set (ct_uniques d)) (set (ct_references d)) {}) d rows"
proof (rule stage_of_parts [where fs = "\<lambda>cr. case cr of (c, r) \<Rightarrow> reference_fields sch d c r", OF assms(1)])
  have sub: "set (ct_references d) \<subseteq> set (tb_columns (ct_table d))"
    using assms(2) by (simp add: catalog_table_ok_def Let_def)
  show "fold set_reference_of (referenced d) (column_stage d (set (ct_uniques d)) {} {}) =
      column_stage d (set (ct_uniques d)) (set (ct_references d)) {}"
    using set_references [OF assms(2) sub, of _ "{}"] by (simp add: referenced_def)
  fix cr row ca
  assume cr: "cr \<in> set (referenced d)" "says row (case cr of (c, r) \<Rightarrow> reference_fields sch d c r)"
  obtain c r where p: "cr = (c, r)" by (cases cr)
  with cr(1) sub have c: "c \<in> set (tb_columns (ct_table d))" "col_references c = Some r"
    by (auto simp: referenced_def split: option.splits)
  from cr(2) p have says: "says row (reference_fields sch d c r)" by simp
  note get = saysD [OF says]
  have "row_string row ''table_name'' = Inr (Some (ct_name d))" "row_string row ''column_name'' = Inr (Some (col_name c))"
    "row_string row ''target_schema'' = Inr (Some (value_or (fk_schema r) sch))"
    "row_string row ''target_table'' = Inr (Some (fk_table r))" "row_string row ''target_column'' = Inr (Some (fk_column r))"
    by (rule row_fields, rule get, simp add: reference_fields_def)+
  then show "catalog_foreign_key_row F sch ca row = on_table (ct_name d) (\<lambda>t. Inr (set_reference_of cr t)) ca"
    using reference_fields_read [OF says table_ok_column [OF assms(2) c(1)] c(2)]
    by (auto simp: catalog_foreign_key_row_def set_reference_of_def p intro!: arg_cong2 [where f = "on_table (ct_name d)"] ext)
qed

subsection \<open>Checks\<close>

definition set_check :: "catalog_table \<Rightarrow> database_column + database_check \<times> string option \<Rightarrow> database_table \<Rightarrow> database_table" where
  "set_check d k t = (case k of
       Inl c \<Rightarrow>
         if find_column t (col_name c) = None
         then t\<lparr>tb_checks := tb_checks t @ [\<lparr>ck_name = implicit_table_constraint_name (ct_name d) (Some (own_name d c ''check'')) ''check'',
           ck_expression = the (col_check c)\<rparr>]\<rparr>
         else on_column t (col_name c) (\<lambda>k. k\<lparr>col_check := col_check c\<rparr>)
     | Inr (k, c) \<Rightarrow> t\<lparr>tb_checks := tb_checks t @ [k]\<rparr>)"

definition checked :: "(database_column + 'b) list \<Rightarrow> database_column set" where
  "checked ks = {c. Inl c \<in> set ks}"

lemma checked_simps [simp]:
  "checked [] = {}" "checked (Inl c # ks) = insert c (checked ks)" "checked (Inr k # ks) = checked ks"
  by (auto simp: checked_def)

lemma find_column_checks [simp]: "find_column (t\<lparr>tb_checks := xs\<rparr>) n = find_column t n"
  by (simp add: find_column_def)

lemma on_column_checks: "on_column (t\<lparr>tb_checks := xs\<rparr>) n f = (on_column t n f)\<lparr>tb_checks := xs\<rparr>"
  by (simp add: on_column_def)

lemma set_checks:
  assumes "catalog_table_ok sch d"
  shows "checked ks \<subseteq> set (tb_columns (ct_table d)) \<Longrightarrow>
    fold (set_check d) ks ((column_stage d U R K)\<lparr>tb_checks := xs\<rparr>) =
      (column_stage d U R (K \<union> checked ks))\<lparr>tb_checks := xs @ concat (List.map (case_sum (\<lambda>c. []) (\<lambda>k. [fst k])) ks)\<rparr>"
proof (induction ks arbitrary: K xs)
  case (Cons k ks)
  show ?case
  proof (cases k)
    case (Inl c)
    with Cons.prems have c: "c \<in> set (tb_columns (ct_table d))" by simp
    have "on_column (column_stage d U R K) (col_name c) (\<lambda>k. k\<lparr>col_check := col_check c\<rparr>) = column_stage d U R (insert c K)"
      by (rule on_column_stage [OF assms c]) (auto simp: column_part_def)
    with Cons Inl find_column_stage [OF assms c] show ?thesis by (simp add: set_check_def on_column_checks)
  next
    case (Inr kc)
    with Cons show ?thesis by (cases kc) (simp add: set_check_def)
  qed
qed simp

definition checked_table :: "catalog_table \<Rightarrow> database_table" where
  "checked_table d = (ct_table d)\<lparr>tb_indexes := []\<rparr>"

lemma column_check_read:
  assumes "says row (check_fields d (Inl c))" and "catalog_column_ok sch d c" and "col_check c \<noteq> None"
  shows "check_row F ca row = on_table (ct_name d) (\<lambda>t. Inr (set_check d (Inl c) t)) ca"
proof -
  note get = saysD [OF assms(1)]
  have "row_string row ''table_name'' = Inr (Some (ct_name d))" "row_string row ''column_name'' = Inr (Some (col_name c))"
    "row_string row ''constraint_name'' = Inr (Some (own_name d c ''check''))"
    "row_trimmed row ''expression'' = Inr (trim_nonempty (col_check c))"
    by (rule row_fields, rule get, simp add: check_fields_def)+
  moreover have "row_int F row ''column_count'' 0 = Inr (sint (1 :: u64))"
    by (rule row_int_simps, rule get) (simp add: check_fields_def)
  ultimately show ?thesis using assms(2,3)
    by (auto simp: check_row_def apply_check_def set_check_def own_name_def catalog_column_ok_def tidy_def
        intro!: arg_cong2 [where f = "on_table (ct_name d)"] ext)
qed

lemma table_check_read:
  assumes "says row (check_fields d (Inr (k, c)))" and "catalog_check_ok d (k, c)"
  shows "check_row F ca row = on_table (ct_name d) (\<lambda>t. Inr (set_check d (Inr (k, c)) t)) ca"
proof -
  let ?name = "value_or (ck_name k) (ct_name d @ ''_check'')"
  note get = saysD [OF assms(1)]
  have "row_string row ''table_name'' = Inr (Some (ct_name d))" "row_string row ''column_name'' = Inr c"
    "row_string row ''constraint_name'' = Inr (Some ?name)"
    "row_trimmed row ''expression'' = Inr (trim_nonempty (Some (ck_expression k)))"
    by (rule row_fields, rule get, simp add: check_fields_def)+
  moreover have "row_int F row ''column_count'' 0 = Inr (sint (if c = None then 2 else 1 :: u64))"
    by (rule row_int_simps, rule get) (simp add: check_fields_def)
  moreover have "implicit_table_constraint_name (ct_name d) (Some ?name) ''check'' = ck_name k"
    using implicit_names(2) [of "ck_name k" "ct_name d" "''check''"] assms(2) by (simp add: catalog_check_ok_def)
  ultimately show ?thesis using assms(2)
    by (cases k) (auto simp: check_row_def apply_check_def set_check_def catalog_check_ok_def tidy_def Let_def split: option.split
        intro!: arg_cong2 [where f = "on_table (ct_name d)"] ext)
qed

lemma all_parts_read:
  assumes "catalog_table_ok sch d"
  shows "(column_stage d (set (ct_uniques d)) (set (ct_references d)) (checked (ct_checks d)))\<lparr>tb_checks := tb_checks (ct_table d)\<rparr> =
    checked_table d"
proof -
  have "column_part (set (ct_uniques d)) (set (ct_references d)) (checked (ct_checks d)) c = c"
    if c: "c \<in> set (tb_columns (ct_table d))" for c
    using table_ok_column [OF assms c] assms c
    by (cases c) (auto simp: column_part_def catalog_column_ok_def catalog_table_ok_def checked_def Let_def split: if_splits option.splits)
  then have "List.map (column_part (set (ct_uniques d)) (set (ct_references d)) (checked (ct_checks d))) (tb_columns (ct_table d)) =
      tb_columns (ct_table d)"
    by (simp add: map_idI)
  then show ?thesis
    by (simp add: column_stage_def checked_table_def keyed_table_def commented_table_def bare_table_def new_table_def ct_name_def)
qed

lemma checks_stage:
  assumes "list_all2 (\<lambda>k row. says row (check_fields d k)) (ct_checks d) rows" and "catalog_table_ok sch d"
  shows "stage_of (check_row F) incl (\<lambda>d. column_stage d (set (ct_uniques d)) (set (ct_references d)) {}) checked_table d rows"
proof (rule stage_of_parts [where fs = "check_fields d" and g = "set_check d", OF assms(1)])
  have sub: "checked (ct_checks d) \<subseteq> {c \<in> set (tb_columns (ct_table d)). col_check c \<noteq> None}"
    and checks: "concat (List.map (case_sum (\<lambda>c. []) (\<lambda>k. [fst k])) (ct_checks d)) = tb_checks (ct_table d)"
    and ok: "\<forall>k. Inr k \<in> set (ct_checks d) \<longrightarrow> catalog_check_ok d k"
    using assms(2) by (force simp: catalog_table_ok_def Let_def checked_def list_all_iff)+
  let ?t = "column_stage d (set (ct_uniques d)) (set (ct_references d)) {}"
  have same: "?t\<lparr>tb_checks := []\<rparr> = ?t"
    by (simp add: column_stage_def keyed_table_def commented_table_def bare_table_def new_table_def)
  have "fold (set_check d) (ct_checks d) (?t\<lparr>tb_checks := []\<rparr>) =
      (column_stage d (set (ct_uniques d)) (set (ct_references d)) (checked (ct_checks d)))\<lparr>tb_checks := tb_checks (ct_table d)\<rparr>"
    using set_checks [OF assms(2), where ks = "ct_checks d" and K = "{}" and xs = "[]"] sub
    by (auto simp: checks)
  then show "fold (set_check d) (ct_checks d) ?t = checked_table d" by (simp add: all_parts_read [OF assms(2)] same)
  fix k row ca
  assume k: "k \<in> set (ct_checks d)" "says row (check_fields d k)"
  show "check_row F ca row = on_table (ct_name d) (\<lambda>t. Inr (set_check d k t)) ca"
  proof (cases k)
    case (Inl c)
    with k sub have "c \<in> set (tb_columns (ct_table d))" "col_check c \<noteq> None" by (auto simp: checked_def)
    with k(2) Inl table_ok_column [OF assms(2)] show ?thesis by (auto intro: column_check_read)
  next
    case (Inr kc)
    with k ok show ?thesis by (cases kc) (auto intro: table_check_read)
  qed
qed

subsection \<open>Indexes\<close>

definition job_key :: "catalog_table \<times> database_index \<Rightarrow> string" where
  "job_key j = index_key (ct_name (fst j)) (ix_name (snd j))"

lemma index_key_table: "CHR 0x0A \<notin> set tn \<Longrightarrow> takeWhile (\<lambda>c. c \<noteq> CHR 0x0A) (index_key tn n) = tn"
  unfolding index_key_def by (induction tn) auto

lemma index_key_inject:
  assumes "CHR 0x0A \<notin> set tn" "CHR 0x0A \<notin> set tn'" "index_key tn n = index_key tn' n'"
  shows "tn = tn' \<and> n = n'"
proof -
  from assms have "tn = tn'" by (metis index_key_table)
  with assms(3) show ?thesis by (simp add: index_key_def)
qed

lemma index_fields_read:
  assumes "says row (index_fields (d, ix) c)"
  shows "row_string row ''table_name'' = Inr (Some (ct_name d))" "row_string row ''index_name'' = Inr (Some (ix_name ix))"
    "row_string row ''column_name'' = Inr (Some c)" "row_bool F row ''is_unique'' = Inr (ix_unique ix)"
    "row_trimmed row ''predicate'' = Inr (trim_nonempty (ix_where ix))"
proof -
  note get = saysD [OF assms]
  show "row_string row ''table_name'' = Inr (Some (ct_name d))" "row_string row ''index_name'' = Inr (Some (ix_name ix))"
    "row_string row ''column_name'' = Inr (Some c)" "row_bool F row ''is_unique'' = Inr (ix_unique ix)"
    "row_trimmed row ''predicate'' = Inr (trim_nonempty (ix_where ix))"
    by (rule row_fields, rule get, simp add: index_fields_def)+
qed

text \<open>The rows of an index that was seen add their columns to it.\<close>

lemma more_index_columns:
  assumes "list_all2 (\<lambda>c row. says row (index_fields (d, ix) c)) cs rows"
    and "alookup (ca_positions ca) (ct_name d) \<noteq> None" and "alookup (ia_indexes ia) (job_key (d, ix)) = Some (i, True)"
  shows "\<exists>ia'. fold_result (index_row F ca) ia rows = Inr ia' \<and> ia_order ia' = ia_order ia \<and>
    (\<forall>k. alookup (ia_indexes ia') k =
      (if k = job_key (d, ix) then Some (i\<lparr>ix_columns := ix_columns i @ cs\<rparr>, True) else alookup (ia_indexes ia) k))"
  using assms
proof (induction cs rows arbitrary: ia i rule: list_all2_induct)
  case (Cons c cs row rows)
  let ?key = "job_key (d, ix)"
  let ?ia = "ia\<lparr>ia_indexes := aput ?key (i\<lparr>ix_columns := ix_columns i @ [c]\<rparr>, True) (ia_indexes ia)\<rparr>"
  have "index_row F ca ia row = Inr ?ia"
    using Cons.prems index_fields_read [OF Cons(1)]
    by (auto simp: index_row_def with_index_def job_key_def)
  moreover obtain ia' where "fold_result (index_row F ca) ?ia rows = Inr ia'" "ia_order ia' = ia_order ia"
    "\<forall>k. alookup (ia_indexes ia') k = (if k = ?key
      then Some (i\<lparr>ix_columns := ix_columns i @ [c]\<rparr>\<lparr>ix_columns := ix_columns (i\<lparr>ix_columns := ix_columns i @ [c]\<rparr>) @ cs\<rparr>, True)
      else alookup (ia_indexes ?ia) k)"
    using Cons.IH [of ?ia "i\<lparr>ix_columns := ix_columns i @ [c]\<rparr>"] Cons.prems by auto
  ultimately show ?case by (intro exI [of _ ia']) auto
qed auto

lemma one_index_read:
  assumes "list_all2 (\<lambda>c row. says row (index_fields (d, ix) c)) (ix_columns ix) rows" and "ix_columns ix \<noteq> []" and "tidy (ix_where ix)"
    and "alookup (ca_positions ca) (ct_name d) \<noteq> None" and "alookup (ia_indexes ia) (job_key (d, ix)) = None"
  shows "\<exists>ia'. fold_result (index_row F ca) ia rows = Inr ia' \<and> ia_order ia' = ia_order ia @ [job_key (d, ix)] \<and>
    (\<forall>k. alookup (ia_indexes ia') k = (if k = job_key (d, ix) then Some (ix, True) else alookup (ia_indexes ia) k))"
proof -
  let ?key = "job_key (d, ix)"
  from assms(2) obtain c cs where cs: "ix_columns ix = c # cs" by (cases "ix_columns ix") auto
  with assms(1) obtain row rest where rows: "rows = row # rest" "says row (index_fields (d, ix) c)"
    "list_all2 (\<lambda>c row. says row (index_fields (d, ix) c)) cs rest"
    by (auto simp: list_all2_Cons1)
  let ?i = "ix\<lparr>ix_columns := [c]\<rparr>"
  let ?ia = "\<lparr>ia_indexes = aput ?key (?i, True) (aput ?key (ix\<lparr>ix_columns := []\<rparr>, True) (ia_indexes ia)), ia_order = ia_order ia @ [?key]\<rparr>"
  have "index_row F ca ia row = Inr ?ia"
    using assms(3-5) index_fields_read [OF rows(2)]
    by (cases ix) (auto simp: index_row_def with_index_def job_key_def tidy_def)
  moreover obtain ia' where "fold_result (index_row F ca) ?ia rest = Inr ia'" "ia_order ia' = ia_order ?ia"
    "\<forall>k. alookup (ia_indexes ia') k = (if k = ?key then Some (?i\<lparr>ix_columns := ix_columns ?i @ cs\<rparr>, True) else alookup (ia_indexes ?ia) k)"
    using more_index_columns [OF rows(3) assms(4), of ?ia ?i] by auto
  moreover have "?i\<lparr>ix_columns := ix_columns ?i @ cs\<rparr> = ix" using cs by (cases ix) simp
  ultimately show ?thesis by (intro exI [of _ ia']) (auto simp: rows(1))
qed

lemma excluded_index_read:
  assumes "list_all2 (\<lambda>c row. says row (index_fields (d, ix) c)) cs rows" and "alookup (ca_positions ca) (ct_name d) = None"
  shows "fold_result (index_row F ca) ia rows = Inr ia"
  using assms by (induction cs rows rule: list_all2_induct) (simp_all add: index_row_def index_fields_read [where d = d and ix = ix])

definition job_ok :: "catalog_table \<times> database_index \<Rightarrow> bool" where
  "job_ok j \<longleftrightarrow> ix_columns (snd j) \<noteq> [] \<and> tidy (ix_where (snd j))"

lemma all_indexes_read:
  assumes "list_all2 (\<lambda>j rows. list_all2 (\<lambda>c row. says row (index_fields j c)) (ix_columns (snd j)) rows) js rss"
    and "list_all job_ok js" and "distinct (List.map job_key js)"
    and "\<forall>j \<in> set js. alookup (ia_indexes ia) (job_key j) = None"
  shows "\<exists>ia'. fold_result (index_row F ca) ia (concat rss) = Inr ia' \<and>
    ia_order ia' = ia_order ia @ List.map job_key (filter (\<lambda>j. alookup (ca_positions ca) (ct_name (fst j)) \<noteq> None) js) \<and>
    (\<forall>j \<in> set js. alookup (ca_positions ca) (ct_name (fst j)) \<noteq> None \<longrightarrow>
      alookup (ia_indexes ia') (job_key j) = Some (snd j, True)) \<and>
    (\<forall>k. k \<notin> job_key ` set js \<longrightarrow> alookup (ia_indexes ia') k = alookup (ia_indexes ia) k)"
  using assms
proof (induction js rss arbitrary: ia rule: list_all2_induct)
  case (Cons j js rows rss)
  obtain d ix where j: "j = (d, ix)" by (cases j)
  show ?case
  proof (cases "alookup (ca_positions ca) (ct_name d) = None")
    case True
    then have "fold_result (index_row F ca) ia rows = Inr ia"
      using Cons(1) by (intro excluded_index_read [where d = d and ix = ix and cs = "ix_columns ix"]) (simp_all add: j)
    with Cons.IH [of ia] Cons.prems True show ?thesis by (auto simp: fold_result_append j)
  next
    case False
    obtain ia1 where ia1: "fold_result (index_row F ca) ia rows = Inr ia1" "ia_order ia1 = ia_order ia @ [job_key j]"
      "\<forall>k. alookup (ia_indexes ia1) k = (if k = job_key j then Some (ix, True) else alookup (ia_indexes ia) k)"
      using one_index_read [of d ix rows ca ia F] Cons(1) Cons.prems False by (auto simp: j job_ok_def)
    have "\<forall>j' \<in> set js. alookup (ia_indexes ia1) (job_key j') = None"
      using Cons.prems by (fastforce simp: ia1(3) image_iff)
    with Cons.IH [of ia1] Cons.prems obtain ia' where
      "fold_result (index_row F ca) ia1 (concat rss) = Inr ia'"
      "ia_order ia' = ia_order ia1 @ List.map job_key (filter (\<lambda>j. alookup (ca_positions ca) (ct_name (fst j)) \<noteq> None) js)"
      "\<forall>j \<in> set js. alookup (ca_positions ca) (ct_name (fst j)) \<noteq> None \<longrightarrow> alookup (ia_indexes ia') (job_key j) = Some (snd j, True)"
      "\<forall>k. k \<notin> job_key ` set js \<longrightarrow> alookup (ia_indexes ia') k = alookup (ia_indexes ia1) k"
      by auto
    with False ia1 Cons.prems(2) show ?thesis
      by (intro exI [of _ ia']) (auto simp: fold_result_append j)
  qed
qed simp

lemma job_keys_distinct:
  "distinct (List.map ct_name ds) \<Longrightarrow> list_all (catalog_table_ok sch) ds \<Longrightarrow> distinct (List.map job_key (index_jobs ds))"
proof (induction ds)
  case (Cons d ds)
  have newline: "CHR 0x0A \<notin> set (ct_name d')" if "d' \<in> set (d # ds)" for d'
    using that Cons.prems(2) by (auto simp: catalog_table_ok_def Let_def list_all_iff)
  have apart: "job_key j \<noteq> job_key j'" if "j \<in> set (List.map (Pair d) (tb_indexes (ct_table d)))" "j' \<in> set (index_jobs ds)" for j j'
  proof
    assume key: "job_key j = job_key j'"
    from that have in_ds: "fst j = d" "fst j' \<in> set ds" by (auto simp: index_jobs_def)
    then have "ct_name d = ct_name (fst j')"
      using index_key_inject [OF newline newline key [unfolded job_key_def]] by simp
    with in_ds Cons.prems(1) show False by simp
  qed
  have "distinct (List.map job_key (List.map (Pair d) (tb_indexes (ct_table d))))"
    using Cons.prems(2) by (auto simp: catalog_table_ok_def Let_def distinct_map inj_on_def job_key_def index_key_def)
  moreover have "distinct (List.map job_key (index_jobs ds))" using Cons by simp
  moreover have "job_key ` set (List.map (Pair d) (tb_indexes (ct_table d))) \<inter> job_key ` set (index_jobs ds) = {}"
    using apart by blast
  moreover have "index_jobs (d # ds) = List.map (Pair d) (tb_indexes (ct_table d)) @ index_jobs ds"
    by (simp add: index_jobs_def)
  ultimately show ?case by (simp only: map_append distinct_append set_map simp_thms)
qed (simp add: index_jobs_def)

lemma table_jobs:
  "List.map job_key (filter (\<lambda>j. incl (fst j)) (index_jobs ds)) =
     concat (List.map (\<lambda>d. if incl d then List.map (\<lambda>ix. job_key (d, ix)) (tb_indexes (ct_table d)) else []) ds)"
  by (induction ds) (auto simp: index_jobs_def filter_map o_def)

lemma fold_indexes: "fold (\<lambda>ix t. t\<lparr>tb_indexes := tb_indexes t @ [ix]\<rparr>) xs t = t\<lparr>tb_indexes := tb_indexes t @ xs\<rparr>"
  by (induction xs arbitrary: t) simp_all

lemma place_stage:
  assumes "catalog_table_ok sch d" and "\<forall>ix \<in> set (tb_indexes (ct_table d)). alookup (ia_indexes ia) (job_key (d, ix)) = Some (ix, True)"
  shows "stage_of (place_index ia) incl checked_table ct_table d (List.map (\<lambda>ix. job_key (d, ix)) (tb_indexes (ct_table d)))"
  unfolding stage_of_def
proof (intro exI conjI impI)
  let ?xs = "tb_indexes (ct_table d)" and ?f = "\<lambda>ix t. Inr (t\<lparr>tb_indexes := tb_indexes t @ [ix]\<rparr>)"
  from assms(1) have ok: "\<forall>ix \<in> set ?xs. ix_columns ix \<noteq> []" and nl: "CHR 0x0A \<notin> set (ct_name d)"
    by (simp_all add: catalog_table_ok_def Let_def list_all_iff)
  then have "takeWhile (\<lambda>c. c \<noteq> CHR 0x0A) (job_key (d, ix)) = ct_name d" for ix
    by (simp add: job_key_def index_key_table)
  with ok assms(2) show "list_all2 (\<lambda>r f. \<forall>ca. place_index ia ca r = on_table (ct_name d) f ca)
      (List.map (\<lambda>ix. job_key (d, ix)) ?xs) (List.map ?f ?xs)"
    by (auto simp: list_all2_conv_all_nth place_index_def)
  have "fold_result (\<lambda>t f. f t) t (List.map ?f ys) = Inr (t\<lparr>tb_indexes := tb_indexes t @ ys\<rparr>)"
    for t :: database_table and ys
    by (induction ys arbitrary: t) simp_all
  then show "fold_result (\<lambda>t f. f t) (checked_table d) (List.map ?f ?xs) = Inr (ct_table d)"
    by (simp add: checked_table_def)
qed

lemma indexes_stage:
  assumes "list_all2 (\<lambda>j rows. list_all2 (\<lambda>c row. says row (index_fields j c)) (ix_columns (snd j)) rows) (index_jobs ds) rss"
    and ok: "list_all (catalog_table_ok sch) ds" and "distinct (List.map ct_name ds)" and pos: "placed ct_name incl ds 0 pos"
    and "ca_positions ca = pos"
  shows "\<exists>ia. fold_result (index_row F ca) no_indexes (concat rss) = Inr ia \<and>
    place_indexes ia \<lparr>ca_tables = List.map checked_table (filter incl ds), ca_positions = pos\<rparr> =
      Inr \<lparr>ca_tables = List.map ct_table (filter incl ds), ca_positions = pos\<rparr>"
proof -
  have jobs: "list_all job_ok (index_jobs ds)"
    using ok by (auto simp: list_all_iff index_jobs_def job_ok_def catalog_table_ok_def Let_def)
  have incl: "alookup (ca_positions ca) (ct_name (fst j)) \<noteq> None \<longleftrightarrow> incl (fst j)" if "j \<in> set (index_jobs ds)" for j
  proof -
    from that have "fst j \<in> set ds" by (auto simp: index_jobs_def)
    from placed_included [OF pos this] assms(5) show ?thesis by simp
  qed
  obtain ia where ia: "fold_result (index_row F ca) no_indexes (concat rss) = Inr ia"
    "ia_order ia = List.map job_key (filter (\<lambda>j. alookup (ca_positions ca) (ct_name (fst j)) \<noteq> None) (index_jobs ds))"
    "\<forall>j \<in> set (index_jobs ds). alookup (ca_positions ca) (ct_name (fst j)) \<noteq> None \<longrightarrow> alookup (ia_indexes ia) (job_key j) = Some (snd j, True)"
    using all_indexes_read [OF assms(1) jobs job_keys_distinct [OF assms(3) ok], of no_indexes F ca]
    by (auto simp: no_indexes_def)
  let ?keys = "\<lambda>d. if incl d then List.map (\<lambda>ix. job_key (d, ix)) (tb_indexes (ct_table d)) else []"
  have order: "ia_order ia = concat (List.map ?keys ds)"
    using incl by (simp add: ia(2) table_jobs [symmetric] cong: filter_cong)
  have "stage_of (place_index ia) incl checked_table ct_table d (?keys d)" if d: "d \<in> set ds" for d
  proof (cases "incl d")
    case True
    from d ok have "catalog_table_ok sch d" by (simp add: list_all_iff)
    moreover have "\<forall>ix \<in> set (tb_indexes (ct_table d)). alookup (ia_indexes ia) (job_key (d, ix)) = Some (ix, True)"
      using ia(3) d True incl by (force simp: index_jobs_def)
    ultimately show ?thesis using True by (simp add: place_stage)
  qed (simp add: stage_of_def)
  then have "list_all2 (stage_of (place_index ia) incl checked_table ct_table) ds (List.map ?keys ds)"
    by (simp add: list_all2_conv_all_nth)
  from catalog_stage [OF this, of "[]" pos] pos ia(1) show ?thesis
    by (intro exI [of _ ia]) (simp add: place_indexes_def order)
qed

subsection \<open>Views\<close>

definition bare_view :: "database_view \<Rightarrow> database_view" where
  "bare_view v = v\<lparr>vw_columns := []\<rparr>"

lemma view_row_read:
  assumes "says row (view_fields v)" and "catalog_view_ok v" and "alookup (vc_positions vc) (vw_name v) = None"
  shows "catalog_view_row opt vc row = Inr (if include_view (vw_name v) opt
    then \<lparr>vc_views = vc_views vc @ [bare_view v], vc_positions = aput (vw_name v) (length (vc_views vc)) (vc_positions vc)\<rparr> else vc)"
proof -
  note get = saysD [OF assms(1)]
  have "row_string row ''view_name'' = Inr (Some (vw_name v))" "row_trimmed row ''definition'' = Inr (trim_nonempty (vw_definition v))"
    "row_trimmed row ''comment'' = Inr (trim_nonempty (vw_comment v))"
    by (rule row_fields, rule get, simp add: view_fields_def)+
  with assms(2,3) show ?thesis
    by (cases v) (simp add: catalog_view_row_def bare_view_def catalog_view_ok_def tidy_def)
qed

lemma views_stage:
  assumes "list_all2 (\<lambda>v rows. list_all2 (\<lambda>_ row. says row (view_fields v)) [()] rows) vs rss"
    and "list_all catalog_view_ok vs" and "distinct (List.map vw_name vs)" and "\<forall>v \<in> set vs. alookup pos (vw_name v) = None"
  shows "\<exists>pos'. fold_result (catalog_view_row opt) \<lparr>vc_views = ws, vc_positions = pos\<rparr> (concat rss) =
      Inr \<lparr>vc_views = ws @ List.map bare_view (filter (\<lambda>v. include_view (vw_name v) opt) vs), vc_positions = pos'\<rparr> \<and>
    placed vw_name (\<lambda>v. include_view (vw_name v) opt) vs (length ws) pos' \<and>
    (\<forall>n. n \<notin> vw_name ` set vs \<longrightarrow> alookup pos' n = alookup pos n)"
  using assms
proof (induction vs rss arbitrary: ws pos rule: list_all2_induct)
  case (Cons v vs rows rss)
  let ?pos = "if include_view (vw_name v) opt then aput (vw_name v) (length ws) pos else pos"
  let ?ws = "if include_view (vw_name v) opt then ws @ [bare_view v] else ws"
  from Cons(1) obtain row where row: "rows = [row]" "says row (view_fields v)" by (auto simp: list_all2_Cons1)
  have read: "catalog_view_row opt \<lparr>vc_views = ws, vc_positions = pos\<rparr> row = Inr \<lparr>vc_views = ?ws, vc_positions = ?pos\<rparr>"
    using view_row_read [OF row(2), of "\<lparr>vc_views = ws, vc_positions = pos\<rparr>"] Cons.prems by simp
  have "\<forall>v' \<in> set vs. alookup ?pos (vw_name v') = None" using Cons.prems by (fastforce simp: image_iff)
  with Cons.IH [of ?pos ?ws] Cons.prems obtain pos' where
    "fold_result (catalog_view_row opt) \<lparr>vc_views = ?ws, vc_positions = ?pos\<rparr> (concat rss) =
      Inr \<lparr>vc_views = ?ws @ List.map bare_view (filter (\<lambda>v. include_view (vw_name v) opt) vs), vc_positions = pos'\<rparr>"
    "placed vw_name (\<lambda>v. include_view (vw_name v) opt) vs (length ?ws) pos'"
    "\<forall>n. n \<notin> vw_name ` set vs \<longrightarrow> alookup pos' n = alookup ?pos n"
    by auto
  with read Cons.prems(2,3) show ?case
    by (intro exI [of _ pos']) (auto simp: fold_result_append row(1) placed_Cons)
qed simp

lemma view_column_read:
  assumes "says row (view_column_fields v c)" and "alookup (vc_positions vc) (vw_name v) = Some p"
    and "c = (new_column (col_name c))\<lparr>col_type := col_type c, col_not_null := col_not_null c, col_comment := col_comment c\<rparr>"
    and "tidy (col_comment c)"
  shows "catalog_view_column_row F vc row =
    Inr (vc\<lparr>vc_views := (vc_views vc)[p := (vc_views vc ! p)\<lparr>vw_columns := vw_columns (vc_views vc ! p) @ [c]\<rparr>]\<rparr>)"
proof -
  note get = saysD [OF assms(1)]
  have "row_string row ''view_name'' = Inr (Some (vw_name v))" "row_string row ''column_name'' = Inr (Some (col_name c))"
    "row_string row ''data_type'' = Inr (Some (col_type c))" "row_bool F row ''not_null'' = Inr (col_not_null c)"
    "row_trimmed row ''comment'' = Inr (trim_nonempty (col_comment c))"
    by (rule row_fields, rule get, simp add: view_column_fields_def)+
  with assms(2,4) assms(3) [symmetric] show ?thesis
    by (simp add: catalog_view_column_row_def tidy_def Let_def)
qed

lemma one_view_read:
  assumes "list_all2 (\<lambda>c row. says row (view_column_fields v c)) cs rows"
    and "list_all (\<lambda>c. c = (new_column (col_name c))\<lparr>col_type := col_type c, col_not_null := col_not_null c, col_comment := col_comment c\<rparr> \<and>
       tidy (col_comment c)) cs"
    and "alookup pos (vw_name v) = Some p" and "p < length ws"
  shows "fold_result (catalog_view_column_row F) \<lparr>vc_views = ws, vc_positions = pos\<rparr> rows =
    Inr \<lparr>vc_views = ws[p := (ws ! p)\<lparr>vw_columns := vw_columns (ws ! p) @ cs\<rparr>], vc_positions = pos\<rparr>"
  using assms
proof (induction cs rows arbitrary: ws rule: list_all2_induct)
  case (Cons c cs row rows)
  from Cons.prems have c: "c = (new_column (col_name c))\<lparr>col_type := col_type c, col_not_null := col_not_null c, col_comment := col_comment c\<rparr>"
    "tidy (col_comment c)" by simp_all
  from view_column_read [OF Cons(1) _ c, of "\<lparr>vc_views = ws, vc_positions = pos\<rparr>" p F] Cons.IH Cons.prems
  show ?case by simp
qed simp

lemma skipped_view_read:
  assumes "list_all2 (\<lambda>c row. says row (view_column_fields v c)) cs rows" and "alookup (vc_positions vc) (vw_name v) = None"
  shows "fold_result (catalog_view_column_row F) vc rows = Inr vc"
  using assms
proof (induction cs rows rule: list_all2_induct)
  case (Cons c cs row rows)
  note get = saysD [OF Cons(1)]
  have "row_string row ''view_name'' = Inr (Some (vw_name v))" "row_string row ''column_name'' = Inr (Some (col_name c))"
    by (rule row_fields, rule get, simp add: view_column_fields_def)+
  with Cons show ?case by (simp add: catalog_view_column_row_def)
qed simp

lemma view_columns_stage:
  assumes "list_all2 (\<lambda>v rows. list_all2 (\<lambda>c row. says row (view_column_fields v c)) (vw_columns v) rows) vs rss"
    and "list_all catalog_view_ok vs" and "placed vw_name incl vs (length ws) pos"
  shows "fold_result (catalog_view_column_row F) \<lparr>vc_views = ws @ List.map bare_view (filter incl vs), vc_positions = pos\<rparr> (concat rss) =
    Inr \<lparr>vc_views = ws @ filter incl vs, vc_positions = pos\<rparr>"
  using assms
proof (induction vs rss arbitrary: ws rule: list_all2_induct)
  case (Cons v vs rows rss)
  show ?case
  proof (cases "incl v")
    case True
    with Cons.prems have pos: "alookup pos (vw_name v) = Some (length ws)" "placed vw_name incl vs (length (ws @ [v])) pos"
      by (simp_all add: placed_Cons)
    have "fold_result (catalog_view_column_row F)
        \<lparr>vc_views = ws @ List.map bare_view (filter incl (v # vs)), vc_positions = pos\<rparr> rows =
        Inr \<lparr>vc_views = (ws @ [v]) @ List.map bare_view (filter incl vs), vc_positions = pos\<rparr>"
      using one_view_read [OF Cons(1) _ pos(1), of "ws @ List.map bare_view (filter incl (v # vs))" F] Cons.prems True
      by (simp add: catalog_view_ok_def bare_view_def)
    with Cons.IH [OF _ pos(2)] Cons.prems True show ?thesis by (simp add: fold_result_append)
  next
    case False
    with Cons.prems have pos: "alookup pos (vw_name v) = None" "placed vw_name incl vs (length ws) pos"
      by (simp_all add: placed_Cons)
    with Cons.IH [OF _ pos(2)] Cons.prems False skipped_view_read [OF Cons(1)] show ?thesis by (simp add: fold_result_append)
  qed
qed simp

subsection \<open>The whole catalog\<close>

lemma read_rows_bind:
  "answers exec sql [VString sch] rows \<Longrightarrow> fold_result step a rows = Inr b \<Longrightarrow>
     act_bind (read_rows exec sch sql step a) f s = f b s"
  by (simp add: read_rows_def act_bind_def answersD)

lemma reports_stage:
  assumes "reports fs parts ds rows" and "list_all (catalog_table_ok sch) ds"
    and "placed ct_name incl ds 0 pos"
    and "\<And>d rs. list_all2 (\<lambda>x row. says row (fs d x)) (parts d) rs \<Longrightarrow> catalog_table_ok sch d \<Longrightarrow> stage_of step incl cur nxt d rs"
  shows "fold_result step \<lparr>ca_tables = List.map cur (filter incl ds), ca_positions = pos\<rparr> rows =
    Inr \<lparr>ca_tables = List.map nxt (filter incl ds), ca_positions = pos\<rparr>"
proof -
  from assms(1) obtain rss where rss: "rows = concat rss"
    "list_all2 (\<lambda>d rs. list_all2 (\<lambda>x row. says row (fs d x)) (parts d) rs) ds rss"
    by (auto simp: reports_def)
  from rss(2) assms(2) have "list_all2 (stage_of step incl cur nxt) ds rss"
    by (auto simp: list_all2_conv_all_nth list_all_length intro: assms(4))
  from catalog_stage [OF this, of "[]" pos] assms(3) show ?thesis by (simp add: rss(1))
qed

lemma tables_read:
  assumes "reports column_fields (\<lambda>d. tb_columns (ct_table d)) ds rows"
    and "list_all (catalog_table_ok sch) ds" and "distinct (List.map ct_name ds)"
  shows "\<exists>pos. fold_result (catalog_column_row F opt) \<lparr>ca_tables = [], ca_positions = []\<rparr> rows =
      Inr \<lparr>ca_tables = List.map bare_table (filter (\<lambda>d. include_table (ct_name d) opt) ds), ca_positions = pos\<rparr> \<and>
    placed ct_name (\<lambda>d. include_table (ct_name d) opt) ds 0 pos"
proof -
  from assms(1) obtain rss where rss: "rows = concat rss"
    "list_all2 (\<lambda>d rs. list_all2 (\<lambda>c row. says row (column_fields d c)) (tb_columns (ct_table d)) rs) ds rss"
    by (auto simp: reports_def)
  from columns_stage [OF rss(2) assms(2,3), of "[]" F opt "[]"] show ?thesis by (auto simp: rss(1))
qed

lemma indexes_read:
  assumes "reports index_fields (\<lambda>(d, ix). ix_columns ix) (index_jobs ds) rows"
    and "list_all (catalog_table_ok sch) ds" and "distinct (List.map ct_name ds)" and "placed ct_name incl ds 0 pos"
    and "ca_positions ca = pos"
  shows "\<exists>ia. fold_result (index_row F ca) no_indexes rows = Inr ia \<and>
    place_indexes ia \<lparr>ca_tables = List.map checked_table (filter incl ds), ca_positions = pos\<rparr> =
      Inr \<lparr>ca_tables = List.map ct_table (filter incl ds), ca_positions = pos\<rparr>"
proof -
  from assms(1) obtain rss where rss: "rows = concat rss"
    "list_all2 (\<lambda>j rs. list_all2 (\<lambda>c row. says row (index_fields j c)) (ix_columns (snd j)) rs) (index_jobs ds) rss"
    by (auto simp: reports_def case_prod_beta)
  from indexes_stage [OF rss(2) assms(2-5)] show ?thesis by (simp add: rss(1))
qed

lemma views_read:
  assumes "reports (\<lambda>v _. view_fields v) (\<lambda>v. [()]) vs rows" and "reports view_column_fields vw_columns vs rows'"
    and "list_all catalog_view_ok vs" and "distinct (List.map vw_name vs)"
  shows "\<exists>vc. fold_result (catalog_view_row opt) \<lparr>vc_views = [], vc_positions = []\<rparr> rows = Inr vc \<and>
    (\<exists>pos. fold_result (catalog_view_column_row F) vc rows' =
      Inr \<lparr>vc_views = filter (\<lambda>v. include_view (vw_name v) opt) vs, vc_positions = pos\<rparr>)"
proof -
  from assms(1) obtain rss where rss: "rows = concat rss"
    "list_all2 (\<lambda>v rs. list_all2 (\<lambda>_ row. says row (view_fields v)) [()] rs) vs rss"
    unfolding reports_def by blast
  from assms(2) obtain rss' where rss': "rows' = concat rss'"
    "list_all2 (\<lambda>v rs. list_all2 (\<lambda>c row. says row (view_column_fields v c)) (vw_columns v) rs) vs rss'"
    by (auto simp: reports_def)
  from views_stage [OF rss(2) assms(3,4), of "[]" opt "[]"] obtain pos where
    pos: "fold_result (catalog_view_row opt) \<lparr>vc_views = [], vc_positions = []\<rparr> rows =
      Inr \<lparr>vc_views = List.map bare_view (filter (\<lambda>v. include_view (vw_name v) opt) vs), vc_positions = pos\<rparr>"
    "placed vw_name (\<lambda>v. include_view (vw_name v) opt) vs 0 pos"
    by (auto simp: rss(1))
  from view_columns_stage [OF rss'(2) assms(3), of _ "[]" pos F] pos(2) have
    "fold_result (catalog_view_column_row F) \<lparr>vc_views = List.map bare_view (filter (\<lambda>v. include_view (vw_name v) opt) vs), vc_positions = pos\<rparr>
       rows' = Inr \<lparr>vc_views = filter (\<lambda>v. include_view (vw_name v) opt) vs, vc_positions = pos\<rparr>"
    by (simp add: rss'(1))
  with pos(1) show ?thesis by blast
qed

definition read_schema :: "introspect_options \<Rightarrow> catalog_table list \<Rightarrow> database_view list \<Rightarrow> database_schema" where
  "read_schema opt ds vs = \<lparr>ds_tables = List.map ct_table (filter (\<lambda>d. include_table (ct_name d) opt) ds),
     ds_views = (if io_include_views opt then filter (\<lambda>v. include_view (vw_name v) opt) vs else [])\<rparr>"

lemma introspected_catalog:
  assumes "postgres_reports exec sch ds vs" and sch: "value_or (io_schema opt) ''public'' = sch"
    and ok: "list_all (catalog_table_ok sch) ds" and names: "distinct (List.map ct_name ds)"
    and views: "list_all catalog_view_ok vs" "distinct (List.map vw_name vs)"
  shows "introspect_postgres F exec opt s = (Inr (read_schema opt ds vs), s)"
proof -
  let ?in = "\<lambda>d. include_table (ct_name d) opt"
  let ?ask = "\<lambda>sql rows. answers exec sql [VString sch] rows"
  from assms(1) obtain r1 r2 r3 r4 r5 r6 r7 r8 r9 where
    asks: "?ask columns_sql r1" "?ask table_comments_sql r2" "?ask primary_keys_sql r3" "?ask uniques_sql r4"
      "?ask foreign_keys_sql r5" "?ask checks_sql r6" "?ask indexes_sql r7" "?ask pg_views_sql r8" "?ask view_columns_sql r9"
    and rows: "reports column_fields (\<lambda>d. tb_columns (ct_table d)) ds r1"
      "reports (\<lambda>d _. comment_fields d) (\<lambda>d. [()]) ds r2" "reports key_fields (\<lambda>d. tb_primary_key (ct_table d)) ds r3"
      "reports unique_fields ct_uniques ds r4" "reports (\<lambda>d (c, r). reference_fields sch d c r) referenced ds r5"
      "reports check_fields ct_checks ds r6" "reports index_fields (\<lambda>(d, ix). ix_columns ix) (index_jobs ds) r7"
      "reports (\<lambda>v _. view_fields v) (\<lambda>v. [()]) vs r8" "reports view_column_fields vw_columns vs r9"
    unfolding postgres_reports_def by auto
  from tables_read [OF rows(1) ok names, of F opt] obtain pos where
    t1: "fold_result (catalog_column_row F opt) \<lparr>ca_tables = [], ca_positions = []\<rparr> r1 =
      Inr \<lparr>ca_tables = List.map bare_table (filter ?in ds), ca_positions = pos\<rparr>"
    and pos: "placed ct_name ?in ds 0 pos" by blast
  note stage = reports_stage [OF _ ok pos]
  note t2 = stage [OF rows(2) comments_stage]
  note t3 = stage [OF rows(3) keys_stage]
  note t4 = stage [OF rows(4) uniques_stage]
  note t5 = stage [OF rows(5) references_stage]
  note t6 = stage [OF rows(6) checks_stage]
  from indexes_read [OF rows(7) ok names pos, of "\<lparr>ca_tables = List.map checked_table (filter ?in ds), ca_positions = pos\<rparr>" F]
  obtain ia where t7: "fold_result (index_row F \<lparr>ca_tables = List.map checked_table (filter ?in ds), ca_positions = pos\<rparr>) no_indexes r7 = Inr ia"
    "place_indexes ia \<lparr>ca_tables = List.map checked_table (filter ?in ds), ca_positions = pos\<rparr> =
      Inr \<lparr>ca_tables = List.map ct_table (filter ?in ds), ca_positions = pos\<rparr>" by auto
  from views_read [OF rows(8,9) views, of opt F] obtain vc pos' where
    t8: "fold_result (catalog_view_row opt) \<lparr>vc_views = [], vc_positions = []\<rparr> r8 = Inr vc"
    "fold_result (catalog_view_column_row F) vc r9 = Inr \<lparr>vc_views = filter (\<lambda>v. include_view (vw_name v) opt) vs, vc_positions = pos'\<rparr>"
    by blast
  note t = t1 t2 t3 t4 t5 t6 t7 t8
  show ?thesis
    by (simp add: introspect_postgres_def sch Let_def read_rows_bind [OF asks(1)] read_rows_bind [OF asks(2)] read_rows_bind [OF asks(3)]
        read_rows_bind [OF asks(4)] read_rows_bind [OF asks(5)] read_rows_bind [OF asks(6)] read_rows_bind [OF asks(7)]
        read_rows_bind [OF asks(8)] read_rows_bind [OF asks(9)] t act_lift_bind read_schema_def)
qed

end
