(* ===== verification/Postgres_Sync.thy ===== *)
theory Postgres_Sync
  imports Postgres_Catalog
begin

section \<open>A PostgreSQL database with the expected tables is in sync\<close>

text \<open>
  C13. PostgreSQL introspection reads a catalog back: when the server answers the queries of the code
  with the rows of the given tables and views, whatever other columns the rows have, the result is
  exactly the tables and views the options include, with every column, key, unique constraint, reference,
  check, index and comment, and with no name for a constraint whose name the server made. When these
  tables are the expected ones the diff has nothing to do and nothing to say. The tables have a column, names without line feeds,
  texts without blanks around them, and no name that the server would have made.
\<close>

theorem postgres_catalog_in_sync:
  assumes "postgres_reports exec (value_or (io_schema opt) ''public'') ds vs"
    and "list_all (catalog_table_ok (value_or (io_schema opt) ''public'')) ds" and "distinct (List.map ct_name ds)"
    and "list_all catalog_view_ok vs" and "distinct (List.map vw_name vs)" and "d_family d = PostgreSQL"
  shows "introspect_schema F exec d opt s = (Inr (read_schema opt ds vs), s) \<and>
    (List.map et_table (es_tables ex) = ds_tables (read_schema opt ds vs) \<longrightarrow> plan_silent (diff_schema ex (read_schema opt ds vs) d dopt))"
proof (intro conjI impI)
  show "introspect_schema F exec d opt s = (Inr (read_schema opt ds vs), s)"
    using introspected_catalog [OF assms(1) refl assms(2-5)] assms(6) by (simp add: introspect_schema_def)
  have "\<forall>t \<in> set (ds_tables (read_schema opt ds vs)). table_names_ok t"
    using assms(2) by (auto simp: read_schema_def table_names_ok_def catalog_table_ok_def Let_def list_all_iff)
  moreover have "distinct (List.map tb_name (ds_tables (read_schema opt ds vs)))"
    using assms(3) by (simp add: read_schema_def o_def ct_name_def [symmetric] distinct_map_filter)
  moreover assume "List.map et_table (es_tables ex) = ds_tables (read_schema opt ds vs)"
  ultimately show "plan_silent (diff_schema ex (read_schema opt ds vs) d dopt)" by (intro equal_schema_silent) simp_all
qed

subsection \<open>A small catalog\<close>

definition demo_id :: database_column where
  "demo_id = (new_column ''id'')\<lparr>col_type := ''bigint'', col_not_null := True, col_auto_increment := True\<rparr>"

definition demo_mail :: database_column where
  "demo_mail = (new_column ''mail'')\<lparr>col_type := ''text'', col_not_null := True, col_unique := True, col_check := Some ''ok(mail)''\<rparr>"

definition demo_users :: catalog_table where
  "demo_users = \<lparr>ct_table = (new_table ''users'')\<lparr>tb_columns := [demo_id, demo_mail], tb_primary_key := [''id''],
       tb_indexes := [\<lparr>ix_name = ''by_mail'', ix_columns = [''mail'', ''id''], ix_unique = False, ix_where = None\<rparr>],
       tb_comment := Some ''people''\<rparr>,
     ct_uniques = [demo_mail], ct_references = [], ct_checks = [Inl demo_mail]\<rparr>"

definition demo_catalog :: "(string \<times> row list) list" where
  "demo_catalog = [(columns_sql, [column_fields demo_users demo_id, column_fields demo_users demo_mail]),
     (table_comments_sql, [comment_fields demo_users]), (primary_keys_sql, [key_fields demo_users ''id'']),
     (uniques_sql, [unique_fields demo_users demo_mail]), (foreign_keys_sql, []),
     (checks_sql, [check_fields demo_users (Inl demo_mail)]),
     (indexes_sql, List.map (index_fields (demo_users, tb_indexes (ct_table demo_users) ! 0)) [''mail'', ''id'']),
     (pg_views_sql, []), (view_columns_sql, [])]"

definition demo_server :: "unit executor" where
  "demo_server sql ps = (\<lambda>s. (Inr (rows_result (case alookup demo_catalog sql of None \<Rightarrow> [] | Some rows \<Rightarrow> rows)), s))"

definition demo_options :: introspect_options where
  "demo_options = \<lparr>io_schema = None, io_include_tables = [], io_exclude_tables = [], io_include_views = True, io_exclude_views = []\<rparr>"

lemma queries_distinct:
  "distinct [columns_sql, table_comments_sql, primary_keys_sql, uniques_sql, foreign_keys_sql, checks_sql, indexes_sql, pg_views_sql,
     view_columns_sql]"
  by code_simp

lemma demo_asks:
  "(sql, rows) \<in> set demo_catalog \<Longrightarrow> answers demo_server sql ps rows"
proof -
  assume "(sql, rows) \<in> set demo_catalog"
  moreover have "distinct (List.map fst demo_catalog)" using queries_distinct by (simp add: demo_catalog_def)
  ultimately have "alookup demo_catalog sql = Some rows" by (simp add: alookup_def)
  then show ?thesis by (simp add: answers_def demo_server_def)
qed

lemma says_itself: "distinct (List.map fst fs) \<Longrightarrow> says fs fs"
  by (auto simp: says_def alookup_def)

lemma reports_one: "list_all2 (\<lambda>x row. says row (fs p x)) (parts p) rows \<Longrightarrow> reports fs parts [p] rows"
  unfolding reports_def by (intro exI [of _ "[rows]"]) simp

lemma reports_none: "reports fs parts [] []"
  by (simp add: reports_def)

lemma reports_own_fields: "list_all (\<lambda>x. distinct (List.map fst (fs p x))) (parts p) \<Longrightarrow> reports fs parts [p] (List.map (fs p) (parts p))"
  by (intro reports_one) (simp add: list_all2_conv_all_nth list_all_length says_itself)

lemmas demo_fields = column_fields_def comment_fields_def key_fields_def unique_fields_def check_fields_def index_fields_def

lemma demo_reports: "postgres_reports demo_server ''public'' [demo_users] []"
proof -
  let ?t = "ct_table demo_users"
  have parts: "tb_columns ?t = [demo_id, demo_mail]" "tb_primary_key ?t = [''id'']" "ct_uniques demo_users = [demo_mail]"
    "ct_references demo_users = []" "ct_checks demo_users = [Inl demo_mail]"
    "tb_indexes ?t = [\<lparr>ix_name = ''by_mail'', ix_columns = [''mail'', ''id''], ix_unique = False, ix_where = None\<rparr>]"
    by (simp_all add: demo_users_def)
  have "reports column_fields (\<lambda>d. tb_columns (ct_table d)) [demo_users] (List.map (column_fields demo_users) [demo_id, demo_mail])"
    using reports_own_fields [of column_fields demo_users "\<lambda>d. tb_columns (ct_table d)"] by (simp add: parts demo_fields)
  moreover have "reports (\<lambda>d _. comment_fields d) (\<lambda>d. [()]) [demo_users] [comment_fields demo_users]"
    using reports_own_fields [of "\<lambda>d _. comment_fields d" demo_users "\<lambda>d. [()]"] by (simp add: demo_fields)
  moreover have "reports key_fields (\<lambda>d. tb_primary_key (ct_table d)) [demo_users] [key_fields demo_users ''id'']"
    using reports_own_fields [of key_fields demo_users "\<lambda>d. tb_primary_key (ct_table d)"] by (simp add: parts demo_fields)
  moreover have "reports unique_fields ct_uniques [demo_users] [unique_fields demo_users demo_mail]"
    using reports_own_fields [of unique_fields demo_users ct_uniques] by (simp add: parts demo_fields)
  moreover have "reports (\<lambda>d (c, r). reference_fields ''public'' d c r) referenced [demo_users] []"
    by (rule reports_one) (simp add: referenced_def parts)
  moreover have "reports check_fields ct_checks [demo_users] [check_fields demo_users (Inl demo_mail)]"
    using reports_own_fields [of check_fields demo_users ct_checks] by (simp add: parts demo_fields)
  moreover have "reports index_fields (\<lambda>(d, ix). ix_columns ix) (index_jobs [demo_users])
      (List.map (index_fields (demo_users, tb_indexes ?t ! 0)) [''mail'', ''id''])"
    using reports_own_fields [of index_fields "(demo_users, tb_indexes ?t ! 0)" "\<lambda>(d, ix). ix_columns ix"]
    by (simp add: parts demo_fields index_jobs_def)
  ultimately show ?thesis
    unfolding postgres_reports_def
    by (auto intro!: exI conjI demo_asks reports_none simp: demo_catalog_def)
qed

lemma demo_users_ok: "catalog_table_ok ''public'' demo_users"
  by code_simp

theorem postgres_catalog_in_sync_witness:
  "introspect_schema sample_fp demo_server postgres_dialect demo_options () =
     (Inr \<lparr>ds_tables = [ct_table demo_users], ds_views = []\<rparr>, ()) \<and>
   plan_silent (diff_schema \<lparr>es_tables = [\<lparr>et_table = ct_table demo_users, et_create_table_sql = [], et_create_index_sql = []\<rparr>]\<rparr>
     \<lparr>ds_tables = [ct_table demo_users], ds_views = []\<rparr> postgres_dialect \<lparr>df_allow_destructive = True\<rparr>)"
proof -
  have "value_or (io_schema demo_options) ''public'' = ''public''" "d_family postgres_dialect = PostgreSQL"
    by (simp_all add: demo_options_def postgres_dialect_def)
  with postgres_catalog_in_sync [of demo_server demo_options "[demo_users]" "[]" postgres_dialect sample_fp "()"
      "\<lparr>es_tables = [\<lparr>et_table = ct_table demo_users, et_create_table_sql = [], et_create_index_sql = []\<rparr>]\<rparr>" "\<lparr>df_allow_destructive = True\<rparr>"]
  show ?thesis
    using demo_reports demo_users_ok by (simp add: read_schema_def demo_options_def include_table_def contains_name_def)
qed

end
