(* ===== verification/Spec2Isabelle.thy ===== *)
theory Spec2Isabelle
  imports Cache_Remote Tree_Manager Schema_Sync Query_Compiler Pool_Safety Pooled_Leases Dml
    Session_Transactions Flush_Properties Identity_Properties Schema_Round_Trip Typed_Queries Tracked_Pages Bulk_Workers
    Graph_Properties Postgres_Sync
begin

text \<open>
  A verification library for metal-orm-cpp, an object-relational mapper in C++26. File names are those of
  the repository under src/; a path without a directory is below src/include/metal/.

  \<^bold>\<open>The program and its parts.\<close> Entities are C++ classes whose mapping is read by compile-time reflection.
  Queries are built as trees of nodes over these classes, compiled to SQL text with parameters in the
  syntax of a dialect, and sent to a connection, directly or through a pool. A Session keeps the entities
  it has seen in an identity map and a unit of work, writes their changes in a flush, follows relation
  changes, and undoes its memory when a transaction fails. Around this core stand bulk operations,
  pages, graphs of entities, trees in a table, a cache of query results, and the comparison of the
  database schema with the mapping.

  \<^bold>\<open>What stands for what.\<close> The templates over entity types become functions over data that describes the
  type (\<open>entity_type\<close>, \<open>relation_meta\<close>, \<open>column_mapping\<close>); a shared pointer is a key into the heap of a
  Session; a member function that changes state and may throw is an \<open>action\<close>, which returns the outcome
  and the state it leaves, also when it throws; a \<open>std::unordered_map\<close> is an association list in some
  order. Integers are words of their width wherever their size matters. Connections, clocks,
  callbacks, user hooks, SQL databases and key-value stores are parameters, with what they promise as
  hypotheses of the theorems or assumptions of a locale.

  \<^bold>\<open>Theories and sources.\<close>

  \<^item> \<open>Orm_Prelude\<close>: exceptions, results, actions, association lists, decimal numbers, and the collections of
    simplification rules the others use. \<open>Values\<close>: value.hpp, execution.hpp. \<open>Dialects\<close>: the dialects of
    query/core_types.hpp.
  \<^item> Queries: \<open>Query_Model\<close> (the nodes of query/core_types.hpp), \<open>Query_Functions\<close> and \<open>Query_Compiler\<close>
    (query/sqlite_compiler.hpp, query/postgres_function_compiler.hpp), \<open>Query_Builders\<close>
    (query/expressions.hpp, arithmetic.hpp, functions.hpp), \<open>Select_Query\<close> (query/select.hpp),
    \<open>Relation_Queries\<close> (query/relation_queries.hpp, relation_match.hpp), \<open>Dml\<close> (dml.hpp). \<open>Placeholders\<close>,
    \<open>Select_Properties\<close> and \<open>Typed_Queries\<close> hold their theorems: placeholders are numbered as the parameters are
    pushed, and a query that obeys the scope constraints of its C++ type compiles.
  \<^item> Pages: \<open>Cursors\<close> and \<open>Pagination\<close> (query/pagination.hpp), \<open>Tracked_Pages\<close> (runtime_pagination.hpp);
    \<open>Cursor_Pages\<close> proves that following the cursors reads every row once.
  \<^item> Session: \<open>Collections\<close> (collection.hpp, reference.hpp, polymorphic.hpp), \<open>Unit_Of_Work\<close>
    (unit_of_work.hpp, identity_map.hpp, runtime_types.hpp, domain_events.hpp), \<open>Relation_Changes\<close>
    (relation_change_processor.hpp), \<open>Session\<close>, \<open>Relation_Loading\<close>, \<open>Relation_Members\<close> (orm.hpp), \<open>Graph\<close>
    (graph_persistence.hpp, and the entity queries of orm.hpp).
    \<open>Session_Frame\<close> says what every operation keeps; on it rest \<open>Session_Rollback\<close>, \<open>Session_Transactions\<close>
    (a failed transaction restores the Session), \<open>Flush_Properties\<close> (a flush settles everything) and
    \<open>Identity_Properties\<close> (one object per key). \<open>Graph_Properties\<close>: what pruning a collection leaves.
  \<^item> Bulk operations: \<open>Bulk\<close> (bulk.hpp), \<open>Bulk_Properties\<close> (every value is sent once), \<open>Bulk_Workers\<close> (the worker
    threads as a step relation).
  \<^item> Connections: \<open>Pool\<close> and \<open>Pool_Safety\<close> (pool.hpp), \<open>Pooled_Executor\<close> and \<open>Pooled_Leases\<close> (pooling.hpp,
    src/pooled_executor.cpp). The pool is a step relation: a step is what a thread does under the mutex.
  \<^item> Cache: \<open>Cache_Types\<close>, \<open>Cache_Codec\<close>, \<open>Tag_Index\<close>, \<open>Cache_Provider\<close>, \<open>Cache_Memory\<close>, \<open>Cache_Manager\<close>,
    \<open>Cache_Remote\<close> (the files cache_*.hpp and query_cache_manager.hpp). \<open>Cache_Provider\<close> has the contract of
    a provider as locales; the manager's theorems are proved in them and reach the memory cache by
    interpretation and the remote adapters by sublocales of the contract of a store.
  \<^item> Trees: \<open>Nested_Set\<close>, \<open>Tree_Manager\<close> (tree.hpp): every operation as a sequence of SQL statements on a
    table, over a locale for what the statements do.
  \<^item> Schema: \<open>Schema_Model\<close> (schema_types.hpp), \<open>Schema_Diff\<close> and \<open>Schema_Sync\<close> (schema_diff.hpp), \<open>Ddl\<close>
    (ddl.hpp, column_defaults.hpp, mapping_constraints.hpp, schema_expected.hpp), \<open>Sqlite_Ddl\<close>
    (sqlite_ddl_parser.hpp), \<open>Schema_Introspection\<close> (schema_introspection.hpp). \<open>Sql_Scan\<close>, \<open>Ddl_Words\<close>,
    \<open>Ddl_Round_Trip\<close> and \<open>Schema_Round_Trip\<close> prove that a created schema is introspected as it was mapped.
    \<open>Postgres_Introspection\<close> (postgres_schema_introspection.hpp, schema_introspection_dispatch.hpp) reads the
    catalog; \<open>Postgres_Catalog\<close> says what the server answers and \<open>Postgres_Sync\<close> that it is read back.

  \<^bold>\<open>How the parts interact.\<close> A flush (\<open>uow_flush\<close>, \<open>flush_pipeline\<close>) compiles statements of \<open>Dml\<close> and sends them
  through the connection of the environment; the pooled executor is one implementation of it and
  \<open>Pooled_Leases\<close> shows that a transaction stays on one connection. \<open>transaction\<close> takes a checkpoint of the
  unit of work first and rolls back to it on every error. Pages and bulk operations use the same compilers
  and the same Session. \<open>diff_schema\<close> compares what introspection read with what the generator would
  write, and \<open>synchronize_schema\<close> runs the plan. The cache manager encodes results with the codec for
  remote stores and keeps the tag index for the memory cache.

  \<^bold>\<open>Kinds of theorems.\<close> Invariants of reachable states (pool, workers, trees, checkpoints); round trips
  (codec, cursors, members, durations, DDL to introspection); safety of plans, leases and tags; total
  error behaviour of decoders; bounds of durations and codec limits; refinement of the tag index to a
  relation; equivalence of the diff and of the tree check with their specifications; a typing theorem for
  queries; termination of recovery and of the rounds of relation preparation; liveness of the pool and of
  cursor pages. Properties carry their number (C1, C2, \<dots>) in the text before them; the lemma with the
  suffix \<open>_witness\<close> applies each at concrete data.

  \<^bold>\<open>Bounds and fuel.\<close> \<open>prepare_rounds\<close> gets \<open>Suc (ss_fresh s)\<close> rounds, enough by \<open>prepare_fuel_enough\<close> because
  every round visits a new entity. \<open>rollback_n\<close> gets the number of checkpoints. Recovery of a tree recurs
  over the rows not yet numbered (\<open>recover_rebuilds_tree\<close>). \<open>read_pages\<close> needs one round more than there are
  rows (\<open>pages_enumerate_rows\<close>). The scanner of DDL moves over a finite text. Numbers are 64-bit words in
  values, the codec, durations, page and chunk sizes, 32-bit words in base64; counters that cannot
  reach their width (tracked entities, placeholders, positions in a SQL text) are natural numbers.

  \<^bold>\<open>Not modelled.\<close> Reflection and annotations (reflection.hpp, mapping.hpp) run at compile time; their
  results are the data above, and the constraints they check are hypotheses where a theorem needs them.
  The drivers (src/sqlite_executor.cpp, src/postgres_executor.cpp, postgres_execution.hpp) call libpq and
  SQLite. The generators of headers, OpenAPI documents, DTO projections and filters, views and
  procedures are templates and texts around the compilers modelled here, without state of their own.
  Threads are modelled where the code synchronises them (pool, workers); a Session is used by one.
\<close>

end
